(* ===== verification/Prelude.thy ===== *)
theory Prelude
  imports Complex_Main "HOL-Library.Multiset" "HOL-Library.Sublist"
begin

text \<open>
  Shared vocabulary of the development: the collections of facts the component theories add
  to, and generic lemmas on lists, maps and results used by more than one of them.
  \<^item> \<open>go_defs\<close> collects the defining equations of small source helpers, so that
    \<open>simp add: go_defs\<close> unfolds them;
  \<^item> \<open>inv_intros\<close> collects the "this operation keeps the invariant" facts.
\<close>

named_theorems go_defs
named_theorems inv_intros

section \<open>Lists read by index\<close>

text \<open>Renumbering a slice 1..N, the loop \<open>for i := range xs { xs[i].f = i + 1 }\<close>.\<close>

fun number_from :: "(int \<Rightarrow> 'a \<Rightarrow> 'b) \<Rightarrow> int \<Rightarrow> 'a list \<Rightarrow> 'b list" where
  "number_from f i [] = []"
| "number_from f i (x # xs) = f i x # number_from f (i + 1) xs"

lemma length_number_from [simp]: "length (number_from f i xs) = length xs"
  by (induction xs arbitrary: i) auto

lemma nth_number_from [simp]:
  "k < length xs \<Longrightarrow> number_from f i xs ! k = f (i + int k) (xs ! k)"
proof (induction xs arbitrary: i k)
  case (Cons x xs)
  then show ?case by (cases k) (auto simp: algebra_simps)
qed simp

lemma map_number_from: "(\<And>i x. g (f i x) = h x) \<Longrightarrow> map g (number_from f i xs) = map h xs"
  by (induction xs arbitrary: i) auto

lemma upto_image_range:
  "map (\<lambda>k. int k + 1) [0..<n] = [1..int n]"
  by (induction n) (simp_all add: upto_rec2)

section \<open>First match\<close>

fun find_idx :: "('a \<Rightarrow> bool) \<Rightarrow> 'a list \<Rightarrow> nat option" where
  "find_idx p [] = None"
| "find_idx p (x # xs) = (if p x then Some 0 else map_option Suc (find_idx p xs))"

lemma find_idx_SomeD:
  "find_idx p xs = Some i \<Longrightarrow> i < length xs \<and> p (xs ! i) \<and> (\<forall>j < i. \<not> p (xs ! j))"
proof (induction xs arbitrary: i)
  case (Cons x xs)
  show ?case
  proof (cases "p x")
    case False
    with Cons.prems obtain k where k: "find_idx p xs = Some k" "i = Suc k" by auto
    with Cons.IH[of k] False show ?thesis by (auto simp: less_Suc_eq_0_disj nth_Cons')
  qed (use Cons.prems in auto)
qed simp

lemma find_idx_NoneD: "find_idx p xs = None \<longleftrightarrow> (\<forall>x \<in> set xs. \<not> p x)"
  by (induction xs) auto

lemma find_SomeD: "List.find p xs = Some x \<Longrightarrow> x \<in> set xs \<and> p x"
  by (auto simp: find_Some_iff)

section \<open>Maps\<close>

lemma map_le_upd_new: "m k = None \<Longrightarrow> m \<subseteq>\<^sub>m m(k \<mapsto> v)"
  by (auto simp: map_le_def)

lemma map_le_someD: "m \<subseteq>\<^sub>m m' \<Longrightarrow> m k = Some v \<Longrightarrow> m' k = Some v"
  by (force simp: map_le_def)

section \<open>Append-only tables\<close>

text \<open>
  The contract of a table whose rows are never changed once written: \<open>look\<close> reads a row of a
  state and every step keeps the rows there are. What a client may rely on along a run of steps
  is proved once, here.
\<close>

locale append_only =
  fixes look :: "'s \<Rightarrow> 'k \<Rightarrow> 'v option" and stp :: "'s \<Rightarrow> 's \<Rightarrow> bool"
  assumes keeps: "stp s s' \<Longrightarrow> look s k = Some v \<Longrightarrow> look s' k = Some v"
begin

lemma run_keeps: "stp\<^sup>*\<^sup>* s s' \<Longrightarrow> look s k = Some v \<Longrightarrow> look s' k = Some v"
  by (induction rule: rtranclp_induct) (auto intro: keeps)

lemma run_extends: "stp\<^sup>*\<^sup>* s s' \<Longrightarrow> look s \<subseteq>\<^sub>m look s'"
  by (auto simp: map_le_def dest: run_keeps)

lemma readers_agree:
  "stp\<^sup>*\<^sup>* s s' \<Longrightarrow> look s k = Some v \<Longrightarrow> look s' k = Some w \<Longrightarrow> v = w"
  by (auto dest: run_keeps)

end

section \<open>Results\<close>

text \<open>A call that may return an error, in the shape \<open>x, err := f(); if err != nil {return err}\<close>.\<close>

definition ebind :: "'e + 'a \<Rightarrow> ('a \<Rightarrow> 'e + 'b) \<Rightarrow> 'e + 'b" where
  "ebind r f = (case r of Inl e \<Rightarrow> Inl e | Inr x \<Rightarrow> f x)"

lemma ebind_simps [simp]: "ebind (Inl e) f = Inl e" "ebind (Inr x) f = f x"
  by (simp_all add: ebind_def)

lemma ebind_InrD: "ebind r f = Inr y \<Longrightarrow> \<exists>x. r = Inr x \<and> f x = Inr y"
  by (cases r) auto

end
