(* ===== verification/Go_Float.thy ===== *)
theory Go_Float
  imports Complex_Main "HOL-Library.Log_Nat"
begin

text \<open>
  Go's \<open>float64\<close>: IEEE 754 binary64 with round-to-nearest-even, as the Go specification
  prescribes for explicit operations on amd64 (no fused multiply-add). A value is a not-a-number,
  an infinity or a finite value, held as the exact rational it denotes. Every arithmetic
  operation computes the exact rational result and rounds it once (\<open>rnd\<close>), overflowing to an
  infinity at 2^1024 and going through the subnormal grid below 2^-1022; constants of the
  source are rounded by \<open>lit\<close>, as the compiler does. Comparisons with a NaN are false;
  \<open>feq\<close> is Go's \<open>==\<close>. The two zeros are one value: the source never divides by a
  computed negative zero nor reads a zero's sign. \<open>math_round\<close>, \<open>math_max\<close>,
  \<open>math_sqrt\<close> are the \<open>math\<close> package's functions (the square root is correctly
  rounded), \<open>int_of_f64\<close> is the conversion \<open>int(x)\<close>, \<open>None\<close> where the language
  leaves it to the implementation. All of it computes.

  The lemmas give what the components use: rounding is monotone, exact on small integers and
  on representable values, keeps the unit interval, and never makes a NaN.
\<close>

section \<open>Rounding\<close>

datatype f64 = NaN | PInf | NInf | Fin rat

definition ilog2 :: "rat \<Rightarrow> int" where
  "ilog2 x =
     (let (n, d) = quotient_of x; k = bitlen n - bitlen d
      in if (2::rat) powi k \<le> x then k else k - 1)"

definition rne :: "rat \<Rightarrow> int" where
  "rne x =
     (let n = \<lfloor>x\<rfloor>; d = x - of_int n
      in if d < 1/2 then n else if 1/2 < d then n + 1 else if even n then n else n + 1)"

definition ulp_exp :: "rat \<Rightarrow> int" where
  "ulp_exp x = max (ilog2 \<bar>x\<bar> - 52) (-1074)"

definition rquant :: "rat \<Rightarrow> rat" where
  "rquant x = (if x = 0 then 0 else of_int (rne (x * 2 powi (- ulp_exp x))) * 2 powi (ulp_exp x))"

definition rnd :: "rat \<Rightarrow> f64" where
  "rnd x =
     (let r = rquant x
      in if 2 ^ 1024 \<le> r then PInf else if r \<le> - (2 ^ 1024) then NInf else Fin r)"

lemma bitlen_bounds_rat:
  assumes "0 < n"
  shows "(2::rat) powi (bitlen n - 1) \<le> of_int n" and "of_int n < (2::rat) powi (bitlen n)"
proof -
  have b: "2 ^ nat (bitlen n - 1) \<le> n \<and> n < 2 ^ nat (bitlen n)"
    using bitlen_bounds[OF assms] .
  have p: "0 < bitlen n"
    using assms bitlen_nonneg[of n] bitlen_eq_zero_iff[of n] by linarith
  have e: "(2::rat) powi (bitlen n - 1) = 2 ^ nat (bitlen n - 1)"
    using p by (simp add: power_int_def)
  have "(of_int (2 ^ nat (bitlen n - 1)) :: rat) \<le> of_int n"
    using b by (subst of_int_le_iff) simp
  thus "(2::rat) powi (bitlen n - 1) \<le> of_int n" by (simp add: e)
  have e2: "(2::rat) powi (bitlen n) = 2 ^ nat (bitlen n)"
    using p by (simp add: power_int_def)
  have "(of_int n :: rat) < of_int (2 ^ nat (bitlen n))"
    using b by (subst of_int_less_iff) simp
  thus "of_int n < (2::rat) powi (bitlen n)" by (simp add: e2)
qed

lemma powi2_le_iff: "(2::rat) powi a \<le> 2 powi b \<longleftrightarrow> a \<le> b"
  by (meson linorder_not_le one_less_numeral_iff power_int_strict_increasing power_int_increasing
      semiring_norm(76) less_imp_le not_less)

lemma powi2_less_iff: "(2::rat) powi a < 2 powi b \<longleftrightarrow> a < b"
  using powi2_le_iff[of b a] by (simp add: not_le[symmetric])

lemma powi2_pos [simp]: "0 < (2::rat) powi k"
  by (simp add: zero_less_power_int)

lemma ilog2_bounds:
  assumes "0 < x"
  shows "(2::rat) powi (ilog2 x) \<le> x \<and> x < 2 powi (ilog2 x + 1)"
proof -
  obtain n d where q: "quotient_of x = (n, d)" by (cases "quotient_of x")
  have d: "0 < d" using quotient_of_denom_pos[OF q] .
  have x: "x = of_int n / of_int d" using quotient_of_div[OF q] .
  have n: "0 < n" using assms d x by (simp add: zero_less_divide_iff)
  let ?k = "bitlen n - bitlen d"
  note bn = bitlen_bounds_rat[OF n] and bd = bitlen_bounds_rat[OF d]
  have dp: "(0::rat) < of_int d" using d by simp
  have "(2::rat) powi (?k - 1) * of_int d \<le> 2 powi (?k - 1) * 2 powi (bitlen d)"
    using bd(2) by (intro mult_left_mono) (auto simp: less_imp_le)
  also have "\<dots> = 2 powi (bitlen n - 1)" by (simp add: power_int_add[symmetric])
  also have "\<dots> \<le> of_int n" by (rule bn(1))
  finally have lo: "(2::rat) powi (?k - 1) \<le> x" using dp by (simp add: x field_simps)
  have "of_int n < (2::rat) powi (bitlen n)" by (rule bn(2))
  also have "\<dots> = 2 powi (?k + 1) * 2 powi (bitlen d - 1)" by (simp add: power_int_add[symmetric])
  also have "\<dots> \<le> 2 powi (?k + 1) * of_int d"
    using bd(1) by (intro mult_left_mono) auto
  finally have hi: "x < (2::rat) powi (?k + 1)" using dp by (simp add: x field_simps)
  show ?thesis
    using lo hi by (auto simp: ilog2_def q Let_def)
qed

lemma ilog2_unique:
  assumes "(2::rat) powi k \<le> x" "x < 2 powi (k + 1)"
  shows "ilog2 x = k"
proof -
  have x: "0 < x" using assms(1) powi2_pos[of k] by linarith
  note b = ilog2_bounds[OF x]
  have "(2::rat) powi k < 2 powi (ilog2 x + 1)" using assms(1) b by linarith
  moreover have "(2::rat) powi (ilog2 x) < 2 powi (k + 1)" using assms(2) b by linarith
  ultimately show ?thesis by (simp add: powi2_less_iff)
qed

lemma ilog2_mono: "0 < x \<Longrightarrow> x \<le> y \<Longrightarrow> ilog2 x \<le> ilog2 y"
  using ilog2_bounds[of x] ilog2_bounds[of y] powi2_less_iff[of "ilog2 x" "ilog2 y + 1"] by auto

lemma rne_of_int [simp]: "rne (of_int n) = n"
  by (simp add: rne_def)

lemma rne_bounds: "\<lfloor>x\<rfloor> \<le> rne x" "rne x \<le> \<lfloor>x\<rfloor> + 1"
  by (auto simp: rne_def Let_def)

lemma rne_mono:
  assumes "x \<le> y"
  shows "rne x \<le> rne y"
proof (cases "\<lfloor>x\<rfloor> = \<lfloor>y\<rfloor>")
  case True
  with assms show ?thesis by (auto simp: rne_def Let_def)
next
  case False
  with floor_mono[OF assms] have "\<lfloor>x\<rfloor> + 1 \<le> \<lfloor>y\<rfloor>" by simp
  with rne_bounds[of x] rne_bounds[of y] show ?thesis by linarith
qed

lemma rne_minus: "rne (- x) = - rne x"
proof (cases "x \<in> \<int>")
  case True
  then obtain n where "x = of_int n" by (auto elim: Ints_cases)
  moreover have "rne (- of_int n) = - n" using rne_of_int[of "- n"] by simp
  ultimately show ?thesis by simp
next
  case False
  have f: "\<lfloor>- x\<rfloor> = - \<lfloor>x\<rfloor> - 1"
    using False by (simp add: floor_minus ceiling_altdef) (metis Ints_of_int)
  show ?thesis
    by (auto simp: rne_def Let_def f even_diff_nat algebra_simps)
qed

lemma rquant_minus: "rquant (- x) = - rquant x"
proof (cases "x = 0")
  case False
  have "rne (- x * 2 powi (- ulp_exp x)) = - rne (x * 2 powi (- ulp_exp x))"
    using rne_minus[of "x * 2 powi (- ulp_exp x)"] by simp
  with False show ?thesis by (simp add: rquant_def ulp_exp_def)
qed (simp add: rquant_def)

lemma powi2_mult: "(2::rat) powi a * 2 powi b = 2 powi (a + b)"
  by (simp add: power_int_add)

lemma rquant_grid:
  assumes "ulp_exp x \<le> k"
  shows "x \<le> of_int m * 2 powi k \<Longrightarrow> rquant x \<le> of_int m * 2 powi k"
    and "of_int m * 2 powi k \<le> x \<Longrightarrow> of_int m * 2 powi k \<le> rquant x"
proof -
  let ?e = "ulp_exp x" and ?N = "m * 2 ^ nat (k - ulp_exp x)"
  have pw: "(2::rat) powi (k - ?e) = 2 ^ nat (k - ?e)"
    using assms by (simp add: power_int_def)
  have N: "of_int m * (2::rat) powi k = of_int ?N * 2 powi ?e"
    by (simp add: pw[symmetric] powi2_mult mult.assoc)
  have inv: "x * 2 powi (- ?e) * 2 powi ?e = x"
    by (simp add: mult.assoc powi2_mult)
  have e0: "x \<noteq> 0 \<Longrightarrow> rquant x = of_int (rne (x * 2 powi (- ?e))) * 2 powi ?e"
    by (simp add: rquant_def)
  show "rquant x \<le> of_int m * 2 powi k" if "x \<le> of_int m * 2 powi k"
  proof (cases "x = 0")
    case False
    have "x * 2 powi (- ?e) \<le> of_int ?N * 2 powi ?e * 2 powi (- ?e)"
      using that N by (intro mult_right_mono) (auto simp: less_imp_le)
    hence "x * 2 powi (- ?e) \<le> of_int ?N" by (simp add: mult.assoc powi2_mult)
    from rne_mono[OF this] have "rne (x * 2 powi (- ?e)) \<le> ?N" by (simp only: rne_of_int)
    hence "(of_int (rne (x * 2 powi (- ?e))) :: rat) \<le> of_int ?N" by (simp only: of_int_le_iff)
    with False show ?thesis
      unfolding e0[OF False] N by (intro mult_right_mono) (auto simp: less_imp_le)
  qed (use that in \<open>simp add: rquant_def\<close>)
  show "of_int m * 2 powi k \<le> rquant x" if "of_int m * 2 powi k \<le> x"
  proof (cases "x = 0")
    case False
    have "of_int ?N * 2 powi ?e * 2 powi (- ?e) \<le> x * 2 powi (- ?e)"
      using that N by (intro mult_right_mono) (auto simp: less_imp_le)
    hence "of_int ?N \<le> x * 2 powi (- ?e)" by (simp add: mult.assoc powi2_mult)
    from rne_mono[OF this] have "?N \<le> rne (x * 2 powi (- ?e))" by (simp only: rne_of_int)
    hence "(of_int ?N :: rat) \<le> of_int (rne (x * 2 powi (- ?e)))" by (simp only: of_int_le_iff)
    with False show ?thesis
      unfolding e0[OF False] N by (intro mult_right_mono) (auto simp: less_imp_le)
  qed (use that in \<open>simp add: rquant_def\<close>)
qed

lemma rquant_nonneg: "0 \<le> x \<Longrightarrow> 0 \<le> rquant x"
  using rquant_grid(2)[of x "ulp_exp x" 0] by simp

lemma rquant_mono_pos:
  assumes "0 < x" "x \<le> y"
  shows "rquant x \<le> rquant y"
proof (cases "ulp_exp x = ulp_exp y")
  case True
  have "x * 2 powi (- ulp_exp x) \<le> y * 2 powi (- ulp_exp x)"
    using assms by (intro mult_right_mono) (auto simp: less_imp_le)
  from rne_mono[OF this] have "(of_int (rne (x * 2 powi (- ulp_exp x))) :: rat)
      \<le> of_int (rne (y * 2 powi (- ulp_exp x)))" by (simp only: of_int_le_iff)
  with True assms show ?thesis
    by (simp add: rquant_def mult_right_mono less_imp_le)
next
  case False
  have il: "ilog2 x \<le> ilog2 y" by (rule ilog2_mono[OF assms])
  with False assms have lt: "ilog2 x < ilog2 y" and ey: "ulp_exp y = ilog2 y - 52"
    and ex: "ulp_exp x \<le> ilog2 y"
    by (auto simp: ulp_exp_def)
  have "(2::rat) powi (ilog2 x + 1) \<le> 2 powi (ilog2 y)" using lt by (simp add: powi2_le_iff)
  with ilog2_bounds[OF assms(1)] have "x \<le> of_int 1 * 2 powi (ilog2 y)" by simp
  from rquant_grid(1)[OF ex this] have 1: "rquant x \<le> 2 powi (ilog2 y)" by simp
  have "of_int 1 * 2 powi (ilog2 y) \<le> y" using ilog2_bounds[of y] assms by simp
  from rquant_grid(2)[OF _ this] ey have "2 powi (ilog2 y) \<le> rquant y" by simp
  with 1 show ?thesis by linarith
qed

lemma rquant_mono:
  assumes "x \<le> y"
  shows "rquant x \<le> rquant y"
proof -
  consider "0 < x" | "x \<le> 0" "0 \<le> y" | "y < 0" using assms by linarith
  thus ?thesis
  proof cases
    case 1 thus ?thesis using assms by (rule rquant_mono_pos)
  next
    case 2
    have "0 \<le> rquant (- x)" "0 \<le> rquant y" using 2 by (auto intro: rquant_nonneg)
    thus ?thesis by (simp add: rquant_minus)
  next
    case 3
    have "rquant (- y) \<le> rquant (- x)" using 3 assms by (intro rquant_mono_pos) auto
    thus ?thesis by (simp add: rquant_minus)
  qed
qed

definition representable :: "rat \<Rightarrow> bool" where
  "representable r \<longleftrightarrow> rquant r = r \<and> \<bar>r\<bar> < 2 ^ 1024"

lemma rnd_representable: "representable r \<Longrightarrow> rnd r = Fin r"
  by (auto simp: representable_def rnd_def Let_def abs_less_iff)

lemma rquant_exact:
  assumes "\<bar>m\<bar> < 2 ^ 53" "- 1074 \<le> e"
  shows "rquant (of_int m * 2 powi e) = of_int m * 2 powi e"
proof (cases "m = 0")
  case False
  let ?x = "of_int m * 2 powi e :: rat"
  have ax: "\<bar>?x\<bar> = of_int \<bar>m\<bar> * 2 powi e" by (simp add: abs_mult less_imp_le)
  have px: "0 < \<bar>?x\<bar>" using False by simp
  have "(of_int \<bar>m\<bar> :: rat) < of_int (2 ^ 53)" using assms(1) by (simp only: of_int_less_iff)
  hence "of_int \<bar>m\<bar> * (2::rat) powi e < 2 ^ 53 * 2 powi e"
    by (intro mult_strict_right_mono) auto
  also have "\<dots> = 2 powi (53 + e)" using powi2_mult[of 53 e] by simp
  finally have "2 powi (ilog2 \<bar>?x\<bar>) < (2::rat) powi (53 + e)"
    using ilog2_bounds[OF px] unfolding ax by linarith
  hence "ilog2 \<bar>?x\<bar> < 53 + e" by (simp add: powi2_less_iff)
  hence "ulp_exp ?x \<le> e" using assms(2) by (simp add: ulp_exp_def)
  from rquant_grid[OF this, of m] show ?thesis by (intro antisym) auto
qed (simp add: rquant_def)

lemma rquant_idem: "rquant (rquant x) = rquant x"
proof (cases "x = 0")
  case False
  define m where "m = rne (x * 2 powi (- ulp_exp x))"
  have r: "rquant x = of_int m * 2 powi (ulp_exp x)" using False by (simp add: rquant_def m_def)
  have ax: "0 < \<bar>x\<bar>" using False by simp
  let ?k = "ilog2 \<bar>x\<bar> + 1"
  have ek: "ulp_exp x \<le> ?k \<or> ulp_exp x = - 1074" by (auto simp: ulp_exp_def)
  have "\<bar>m\<bar> \<le> 2 ^ 53"
  proof -
    let ?y = "x * 2 powi (- ulp_exp x)"
    have "\<bar>?y\<bar> = \<bar>x\<bar> * 2 powi (- ulp_exp x)" by (simp add: abs_mult less_imp_le)
    also have "\<dots> \<le> 2 powi ?k * 2 powi (- ulp_exp x)"
      using ilog2_bounds[OF ax] by (intro mult_right_mono) (auto simp: less_imp_le)
    also have "\<dots> = 2 powi (?k - ulp_exp x)" by (simp add: powi2_mult)
    also have "\<dots> \<le> 2 powi 53" unfolding powi2_le_iff by (simp add: ulp_exp_def)
    also have "\<dots> = of_int (2 ^ 53)" by simp
    finally have "?y \<le> of_int (2 ^ 53)" "of_int (- (2 ^ 53)) \<le> ?y" by (auto simp: abs_le_iff)
    from rne_mono[OF this(1)] rne_mono[OF this(2)] have "m \<le> 2 ^ 53" "- (2 ^ 53) \<le> m"
      by (simp_all only: rne_of_int m_def)
    thus ?thesis by linarith
  qed
  moreover have e: "- 1074 \<le> ulp_exp x" by (simp add: ulp_exp_def)
  moreover have ?thesis if "\<bar>m\<bar> = 2 ^ 53"
  proof -
    have "m = sgn m * 2 ^ 53" "\<bar>sgn m\<bar> = 1" using that by (auto simp: sgn_if)
    then obtain s where s: "\<bar>s\<bar> = (1::int)" "m = s * 2 ^ 53" by blast
    have "rquant x = of_int s * 2 powi (ulp_exp x + 53)"
      using powi2_mult[of 53 "ulp_exp x"] by (simp add: r s(2) add.commute)
    thus ?thesis using rquant_exact[of s "ulp_exp x + 53"] e s(1) by simp
  qed
  ultimately show ?thesis using rquant_exact[of m "ulp_exp x"] r by (cases "\<bar>m\<bar> = 2 ^ 53") auto
qed (simp add: rquant_def)


lemma rnd_not_NaN [simp]: "rnd x \<noteq> NaN"
  by (simp add: rnd_def Let_def)

lemma rnd_0 [simp]: "rnd 0 = Fin 0"
  by (simp add: rnd_def rquant_def)

lemma rquant_int_small: "\<bar>m\<bar> < 2 ^ 53 \<Longrightarrow> rquant (of_int m) = of_int m"
  using rquant_exact[of m 0] by simp

lemma rquant_1 [simp]: "rquant 1 = 1"
  using rquant_int_small[of 1] by simp

lemma rnd_of_int_small: "\<bar>m\<bar> < 2 ^ 53 \<Longrightarrow> rnd (of_int m) = Fin (of_int m)"
proof (rule rnd_representable)
  assume a: "\<bar>m\<bar> < 2 ^ 53"
  have "\<bar>m\<bar> < 2 ^ 1024" using a by (rule less_le_trans) simp
  hence "(of_int \<bar>m\<bar> :: rat) < of_int (2 ^ 1024)" by (simp only: of_int_less_iff)
  hence "\<bar>of_int m :: rat\<bar> < 2 ^ 1024" by simp
  with rquant_int_small[OF a] show "representable (of_int m)" by (simp only: representable_def simp_thms)
qed

lemma rnd_1 [simp]: "rnd 1 = Fin 1"
  using rnd_of_int_small[of 1] by simp

lemma rnd_unit:
  assumes "0 \<le> x" "x \<le> 1"
  shows "\<exists>r. rnd x = Fin r \<and> 0 \<le> r \<and> r \<le> 1"
proof -
  have "0 \<le> rquant x" "rquant x \<le> 1"
    using rquant_nonneg[OF assms(1)] rquant_mono[OF assms(2)] by simp_all
  moreover have "(1::rat) < 2 ^ 1024" by simp
  ultimately have "rnd x = Fin (rquant x)"
    unfolding rnd_def Let_def by auto
  with \<open>0 \<le> rquant x\<close> \<open>rquant x \<le> 1\<close> show ?thesis by blast
qed

section \<open>Arithmetic and comparison\<close>

instantiation f64 :: "{zero, one}"
begin
definition zero_f64 :: f64 where "0 = Fin 0"
definition one_f64 :: f64 where "1 = Fin 1"
instance ..
end

instantiation f64 :: ord
begin
fun less_eq_f64 :: "f64 \<Rightarrow> f64 \<Rightarrow> bool" where
  "NaN \<le> _ = False" | "_ \<le> NaN = False"
| "NInf \<le> _ = True" | "_ \<le> PInf = True"
| "Fin a \<le> Fin b = (a \<le> b)" | "PInf \<le> _ = False" | "_ \<le> NInf = False"
fun less_f64 :: "f64 \<Rightarrow> f64 \<Rightarrow> bool" where
  "NaN < _ = False" | "_ < NaN = False"
| "PInf < _ = False" | "_ < NInf = False"
| "Fin a < Fin b = (a < b)" | "NInf < _ = True" | "_ < PInf = True"
instance ..
end

fun feq :: "f64 \<Rightarrow> f64 \<Rightarrow> bool" where
  "feq NaN _ = False"
| "feq _ NaN = False"
| "feq a b = (a = b)"

fun fdiv :: "f64 \<Rightarrow> f64 \<Rightarrow> f64" where
  "fdiv NaN _ = NaN"
| "fdiv _ NaN = NaN"
| "fdiv (Fin a) (Fin b) =
     (if b \<noteq> 0 then rnd (a / b) else if 0 < a then PInf else if a < 0 then NInf else NaN)"
| "fdiv (Fin a) _ = Fin 0"
| "fdiv PInf (Fin b) = (if 0 \<le> b then PInf else NInf)"
| "fdiv NInf (Fin b) = (if 0 \<le> b then NInf else PInf)"
| "fdiv _ _ = NaN"

instantiation f64 :: "{plus, minus, uminus, times, inverse, abs}"
begin
fun uminus_f64 :: "f64 \<Rightarrow> f64" where
  "- NaN = NaN" | "- PInf = NInf" | "- NInf = PInf" | "- (Fin a) = Fin (- a)"
fun plus_f64 :: "f64 \<Rightarrow> f64 \<Rightarrow> f64" where
  "NaN + _ = NaN" | "_ + NaN = NaN"
| "Fin a + Fin b = rnd (a + b)"
| "PInf + NInf = NaN" | "NInf + PInf = NaN"
| "PInf + _ = PInf" | "_ + PInf = PInf"
| "NInf + _ = NInf" | "_ + NInf = NInf"
definition minus_f64 :: "f64 \<Rightarrow> f64 \<Rightarrow> f64" where
  "(a :: f64) - b = a + (- b)"
fun fsign :: "f64 \<Rightarrow> rat" where
  "fsign NaN = 0" | "fsign PInf = 1" | "fsign NInf = -1" | "fsign (Fin a) = sgn a"
fun times_f64 :: "f64 \<Rightarrow> f64 \<Rightarrow> f64" where
  "Fin a * Fin b = rnd (a * b)"
| "a * b = (let s = fsign a * fsign b in if 0 < s then PInf else if s < 0 then NInf else NaN)"
definition divide_f64 :: "f64 \<Rightarrow> f64 \<Rightarrow> f64" where
  "(x :: f64) div y = fdiv x y"
definition inverse_f64 :: "f64 \<Rightarrow> f64" where
  "inverse x = fdiv (Fin 1) x"
fun abs_f64 :: "f64 \<Rightarrow> f64" where
  "\<bar>NaN\<bar> = NaN" | "\<bar>Fin a\<bar> = Fin \<bar>a\<bar>" | "\<bar>_ :: f64\<bar> = PInf"
instance ..
end

definition lit :: "rat \<Rightarrow> f64" where "lit r = rnd r"
definition f64_of_int :: "int \<Rightarrow> f64" where "f64_of_int n = rnd (of_int n)"

definition rha :: "rat \<Rightarrow> int" where
  "rha x = (if 0 \<le> x then \<lfloor>x + 1/2\<rfloor> else - \<lfloor>- x + 1/2\<rfloor>)"

fun math_round :: "f64 \<Rightarrow> f64" where
  "math_round (Fin a) = Fin (of_int (rha a))"
| "math_round x = x"

definition math_max :: "f64 \<Rightarrow> f64 \<Rightarrow> f64" where
  "math_max x y =
     (if x = PInf \<or> y = PInf then PInf else if x = NaN \<or> y = NaN then NaN
      else if x \<le> y then y else x)"

fun int_of_f64 :: "f64 \<Rightarrow> int option" where
  "int_of_f64 (Fin a) =
     (let n = (if 0 \<le> a then \<lfloor>a\<rfloor> else - \<lfloor>- a\<rfloor>)
      in if - (2 ^ 63) \<le> n \<and> n < 2 ^ 63 then Some n else None)"
| "int_of_f64 _ = None"

function isqrt :: "int \<Rightarrow> int" where
  "isqrt n =
     (if n \<le> 0 then 0
      else let s = 2 * isqrt (n div 4) in if (s + 1) * (s + 1) \<le> n then s + 1 else s)"
  by pat_completeness auto
termination by (relation "measure nat") auto

declare isqrt.simps [simp del]

definition sqrt_scaled :: "rat \<Rightarrow> rat" where
  "sqrt_scaled r =
     (let k = 60 - ilog2 r div 2; t = r * 2 powi (2 * k); s = isqrt \<lfloor>t\<rfloor>
      in (of_int s + (if of_int (s * s) = t then 0 else 1/2)) * 2 powi (- k))"

fun math_sqrt :: "f64 \<Rightarrow> f64" where
  "math_sqrt (Fin r) = (if r < 0 then NaN else if r = 0 then Fin 0 else rnd (sqrt_scaled r))"
| "math_sqrt PInf = PInf"
| "math_sqrt _ = NaN"

lemma isqrt_bounds:
  "0 \<le> n \<Longrightarrow> 0 \<le> isqrt n \<and> isqrt n * isqrt n \<le> n \<and> n < (isqrt n + 1) * (isqrt n + 1)"
proof (induction n rule: isqrt.induct)
  case (1 n)
  show ?case
  proof (cases "n = 0")
    case True thus ?thesis by (simp add: isqrt.simps)
  next
    case False
    define s where "s = isqrt (n div 4)"
    have p: "0 \<le> s" and "s * s \<le> n div 4" "n div 4 < (s + 1) * (s + 1)"
      using 1 False by (auto simp: s_def)
    hence a: "4 * (s * s) \<le> n" and b: "n < 4 * ((s + 1) * (s + 1))" by linarith+
    have e: "isqrt n = (if (2 * s + 1) * (2 * s + 1) \<le> n then 2 * s + 1 else 2 * s)"
      using False 1(2) unfolding isqrt.simps[of n] Let_def s_def by simp
    show ?thesis unfolding e using a b p by (auto simp: algebra_simps)
  qed
qed

lemma fdiv_Fin [simp]: "b \<noteq> 0 \<Longrightarrow> Fin a / Fin b = rnd (a / b)"
  by (simp add: divide_f64_def)

section \<open>Order\<close>

lemma fle_Fin [simp]: "(0 :: f64) = Fin 0" "(1 :: f64) = Fin 1"
  by (simp_all add: zero_f64_def one_f64_def)

lemma fle_refl: "x \<noteq> NaN \<Longrightarrow> x \<le> (x :: f64)"
  by (cases x) auto

lemma fle_trans: "x \<le> y \<Longrightarrow> y \<le> z \<Longrightarrow> x \<le> (z :: f64)"
  by (cases x; cases y; cases z) auto

lemma flt_trans: "x < y \<Longrightarrow> y < z \<Longrightarrow> x < (z :: f64)"
  by (cases x; cases y; cases z) auto

lemma fle_not_NaN: "x \<le> y \<Longrightarrow> x \<noteq> NaN \<and> (y :: f64) \<noteq> NaN"
  by (cases x; cases y) auto

lemma not_flt: "x \<noteq> NaN \<Longrightarrow> y \<noteq> NaN \<Longrightarrow> \<not> x < y \<longleftrightarrow> y \<le> (x :: f64)"
  by (cases x; cases y) auto

lemma flt_irrefl [simp]: "\<not> x < (x :: f64)"
  by (cases x) auto

lemma flt_imp_fle: "x < y \<Longrightarrow> x \<le> (y :: f64)"
  by (cases x; cases y) auto

lemma fle_flt_trans: "x \<le> y \<Longrightarrow> y < z \<Longrightarrow> x < (z :: f64)"
  by (cases x; cases y; cases z) auto

lemma flt_fle_trans: "x < y \<Longrightarrow> y \<le> z \<Longrightarrow> x < (z :: f64)"
  by (cases x; cases y; cases z) auto

lemma feq_iff: "feq x y \<longleftrightarrow> x = y \<and> x \<noteq> NaN"
  by (cases x; cases y) auto

lemma fle_antisym: "x \<le> y \<Longrightarrow> y \<le> x \<Longrightarrow> x = (y :: f64)"
  by (cases x; cases y) auto

lemma rnd_mono: "x \<le> y \<Longrightarrow> rnd x \<le> rnd y"
  using rquant_mono[of x y] by (auto simp: rnd_def Let_def)

lemma rnd_nonneg: "0 \<le> x \<Longrightarrow> Fin 0 \<le> rnd x"
  using rnd_mono[of 0 x] by simp

lemma rnd_Fin_representable: "rnd x = Fin r \<Longrightarrow> representable r"
  by (auto simp: rnd_def Let_def representable_def rquant_idem split: if_splits)

text \<open>A representable value is a fixed point of rounding; so are the results of every operation.\<close>

fun fwf :: "f64 \<Rightarrow> bool" where
  "fwf (Fin r) = representable r"
| "fwf _ = True"

lemma fwf_rnd [simp]: "fwf (rnd x)"
  by (cases "rnd x") (auto dest: rnd_Fin_representable)

lemma representable_0 [simp]: "representable 0"
  by (simp add: representable_def rquant_def)

lemma representable_1 [simp]: "representable 1"
  by (simp add: representable_def)

lemma representable_minus [simp]: "representable (- r) = representable r"
  by (simp add: representable_def rquant_minus)

lemma fwf_plus: "fwf x \<Longrightarrow> fwf y \<Longrightarrow> fwf (x + y)"
  by (cases x; cases y) auto

lemma fadd_zero: "fwf x \<Longrightarrow> x + Fin 0 = x"
  by (cases x) (auto simp: rnd_representable)

lemma fmul_one: "fwf x \<Longrightarrow> x * Fin 1 = x"
  by (cases x) (auto simp: rnd_representable)

lemma fdiv_one: "fwf x \<Longrightarrow> x / Fin 1 = x"
  by (cases x) (auto simp: rnd_representable divide_f64_def)

section \<open>Evaluating and bounding a rounding\<close>

lemma rnd_eval:
  assumes "2 powi k \<le> \<bar>x\<bar>" "\<bar>x\<bar> < 2 powi (k + 1)" "- 1022 \<le> k" "k < 1023"
  shows "rnd x = Fin (of_int (rne (x * 2 powi (52 - k))) * 2 powi (k - 52))"
proof -
  have l: "ilog2 \<bar>x\<bar> = k" using ilog2_unique assms(1,2) by auto
  hence e: "ulp_exp x = k - 52" using assms(3) by (simp add: ulp_exp_def)
  have x: "x \<noteq> 0" using assms(1) powi2_pos[of k] by (metis abs_zero leD)
  have q: "rquant x = of_int (rne (x * 2 powi (52 - k))) * 2 powi (k - 52)"
    using x by (simp add: rquant_def e)
  have "rquant x \<le> 1 * 2 powi (k + 1)" "-1 * 2 powi (k + 1) \<le> rquant x"
    using rquant_grid[of x "k + 1" 1] rquant_grid[of x "k + 1" "-1"] assms(2) e by auto
  moreover have "(2::rat) powi (k + 1) \<le> 2 powi 1023" unfolding powi2_le_iff using assms(4) by simp
  moreover have "(2::rat) powi 1023 < 2 powi 1024" unfolding powi2_less_iff by simp
  ultimately have "rquant x < 2 ^ 1024" "- (2 ^ 1024) < rquant x" by auto
  thus ?thesis using q by (simp add: rnd_def Let_def)
qed

lemma rnd_pos: "2 powi (- 1022) \<le> x \<Longrightarrow> Fin 0 < rnd x"
proof -
  assume a: "2 powi (- 1022) \<le> x"
  have "(2::rat) powi (- 1022) = rquant (2 powi (- 1022))" using rquant_exact[of 1 "- 1022"] by simp
  also have "\<dots> \<le> rquant x" by (rule rquant_mono[OF a])
  finally have "0 < rquant x" using powi2_pos less_le_trans by blast
  moreover have "\<not> rquant x \<le> - (2 ^ 1024)" using calculation by (smt (verit) zero_less_power zero_less_numeral neg_0_less_iff_less less_le_trans less_asym')
  ultimately show ?thesis by (simp add: rnd_def Let_def)
qed

section \<open>Bounded values\<close>

text \<open>Sums and products of small values are finite: rounding does not leave an integer range.\<close>

definition bounded_by :: "int \<Rightarrow> f64 \<Rightarrow> bool" where
  "bounded_by n x \<longleftrightarrow> (\<exists>r. x = Fin r \<and> \<bar>r\<bar> \<le> of_int n)"

lemma bounded_Fin: "bounded_by n (Fin r) \<longleftrightarrow> \<bar>r\<bar> \<le> of_int n"
  by (simp add: bounded_by_def)

lemma bounded_nonneg: "bounded_by n x \<Longrightarrow> 0 \<le> n"
  by (auto simp: bounded_by_def)

lemma bounded_mono: "bounded_by m x \<Longrightarrow> m \<le> n \<Longrightarrow> bounded_by n x"
  by (auto simp: bounded_by_def dest: order_trans)

lemma bounded_not_NaN: "bounded_by n x \<Longrightarrow> x \<noteq> NaN"
  by (auto simp: bounded_by_def)

lemma bounded_rnd:
  assumes "\<bar>r\<bar> \<le> of_int n" "n < 2 ^ 53"
  shows "bounded_by n (rnd r)"
proof -
  have n: "0 \<le> n" using assms(1) by linarith
  have e: "rnd (of_int n) = Fin (of_int n)" "rnd (- of_int n) = Fin (- of_int n)"
    using rnd_of_int_small[of n] rnd_of_int_small[of "- n"] assms(2) n by auto
  have "rnd r \<le> Fin (of_int n)" using rnd_mono[of r "of_int n"] assms(1) e by auto
  moreover have "Fin (- of_int n) \<le> rnd r" using rnd_mono[of "- of_int n" r] assms(1) e by auto
  ultimately show ?thesis by (cases "rnd r") (auto simp: bounded_by_def)
qed

lemma bounded_plus: "bounded_by m x \<Longrightarrow> bounded_by n y \<Longrightarrow> m + n < 2 ^ 53 \<Longrightarrow> bounded_by (m + n) (x + y)"
  by (auto simp: bounded_Fin bounded_by_def[of m x] bounded_by_def[of n y] intro!: bounded_rnd)

lemma bounded_uminus: "bounded_by n x \<Longrightarrow> bounded_by n (- x)"
  by (auto simp: bounded_by_def)

lemma bounded_minus: "bounded_by m x \<Longrightarrow> bounded_by n y \<Longrightarrow> m + n < 2 ^ 53 \<Longrightarrow> bounded_by (m + n) (x - y)"
  unfolding minus_f64_def by (rule bounded_plus[OF _ bounded_uminus])

lemma bounded_times:
  assumes "bounded_by m x" "bounded_by n y" "m * n < 2 ^ 53"
  shows "bounded_by (m * n) (x * y)"
proof -
  obtain a b where e: "x = Fin a" "\<bar>a\<bar> \<le> of_int m" "y = Fin b" "\<bar>b\<bar> \<le> of_int n"
    using assms(1,2) by (auto simp: bounded_by_def)
  have "\<bar>a * b\<bar> \<le> of_int m * of_int n"
    unfolding abs_mult by (rule mult_mono) (use e bounded_nonneg[OF assms(1)] in auto)
  with e assms(3) show ?thesis by (auto intro!: bounded_rnd)
qed

lemma bounded_lit: "\<bar>r\<bar> \<le> of_int n \<Longrightarrow> n < 2 ^ 53 \<Longrightarrow> bounded_by n (lit r)"
  unfolding lit_def by (rule bounded_rnd)

lemma bounded_unit: "Fin 0 \<le> x \<Longrightarrow> x \<le> Fin 1 \<Longrightarrow> bounded_by 1 x"
  by (cases x) (auto simp: bounded_by_def)

lemma lit_pos: "2 powi (- 1022) \<le> r \<Longrightarrow> Fin 0 < lit r"
  unfolding lit_def by (rule rnd_pos)

lemma divide_not_NaN: "x \<noteq> NaN \<Longrightarrow> Fin 0 < Fin b \<Longrightarrow> x / Fin b \<noteq> NaN"
  by (cases x) (auto simp: divide_f64_def)

lemma times_not_NaN: "x \<noteq> NaN \<Longrightarrow> Fin 0 < Fin b \<Longrightarrow> x * Fin b \<noteq> NaN"
  by (cases x) (auto simp: Let_def)

end
