(* ===== verification/Go_Base.thy ===== *)
theory Go_Base
  imports Prelude Go_Float "HOL-Library.Word"
begin

text \<open>
  What the source uses of Go and its standard library, beside floating point: times and
  durations, errors and \<open>errors.Is\<close>, \<open>encoding/json\<close> values, and the string
  functions.
  \<^item> A \<open>string\<close> is its bytes, a char list. A nil slice and an empty slice are one list.
  \<^item> A \<open>time.Time\<close> is the integer number of nanoseconds since Go's zero time, so
    \<open>IsZero\<close> is \<open>t = 0\<close>; a \<open>time.Duration\<close> is an integer number of nanoseconds,
    held as a 64-bit word where the source can overflow it.
  \<^item> The functions of \<open>strings\<close> and \<open>unicode\<close> that consult the Unicode tables are
    the fields of a record, an argument of the definitions that use them;
    \<open>ascii_unicode\<close> is their restriction to ASCII text, used by the witnesses.
\<close>

type_synonym time = int
type_synonym dur = int

definition zero_time :: time where "zero_time = 0"

definition nanosecond :: dur where "nanosecond = 1"
definition millisecond :: dur where "millisecond = 1000000"
definition second :: dur where "second = 1000000000"
definition hour :: dur where "hour = 3600 * second"
definition day :: dur where "day = 24 * hour"

text \<open>
  \<open>startOfDayUTC\<close>: midnight of the UTC day. Go's zero time is a midnight, so days are the
  multiples of \<open>day\<close>.
\<close>

definition start_of_day :: "time \<Rightarrow> time" where
  "start_of_day t = t - t mod day"

lemma start_of_day_le: "start_of_day t \<le> t" "t < start_of_day t + day"
  by (simp_all add: start_of_day_def day_def hour_def second_def)

lemma start_of_day_idem [simp]: "start_of_day (start_of_day t) = start_of_day t"
  by (simp add: start_of_day_def mod_diff_eq [symmetric])

lemma start_of_day_mono: "s \<le> t \<Longrightarrow> start_of_day s \<le> start_of_day t"
proof -
  assume "s \<le> t"
  have e: "start_of_day x = day * (x div day)" for x
    by (simp add: start_of_day_def minus_mod_eq_mult_div)
  show ?thesis
    unfolding e using \<open>s \<le> t\<close> by (intro mult_left_mono zdiv_mono1) (auto simp: day_def hour_def second_def)
qed

section \<open>Errors\<close>

text \<open>
  The sentinel errors of the packages, the validation error of the service, errors made from a
  text, \<open>fmt.Errorf\<close> with \<open>%w\<close> (\<open>EWrap\<close> prefix cause, or \<open>EWrapAfter\<close> cause suffix) and
  \<open>errors.Join\<close>.
\<close>

datatype go_error =
    ENotFound | EConflict
  | EValidation string | EPlanExists | ENoPlanForGoal | EGoalNotActive
  | EQueueClosed | EUnsupportedProvider
  | ECanceled | EDeadlineExceeded
  | EMarketNotFound | EMarketNotImplemented | EMarketNotSupported | EMarketUnavailable
  | EText string
  | EWrap string go_error
  | EWrapAfter go_error string
  | EJoin "go_error list"

fun errors_is :: "go_error \<Rightarrow> go_error \<Rightarrow> bool" where
  "errors_is (EWrap s e) t = (EWrap s e = t \<or> errors_is e t)"
| "errors_is (EWrapAfter e s) t = (EWrapAfter e s = t \<or> errors_is e t)"
| "errors_is (EJoin es) t = (EJoin es = t \<or> list_ex (\<lambda>e. errors_is e t) es)"
| "errors_is e t = (e = t)"

fun is_validation :: "go_error \<Rightarrow> bool" where
  "is_validation (EValidation _) = True"
| "is_validation (EWrap _ e) = is_validation e"
| "is_validation (EWrapAfter e _) = is_validation e"
| "is_validation (EJoin es) = list_ex is_validation es"
| "is_validation _ = False"

fun join_strs :: "string \<Rightarrow> string list \<Rightarrow> string" where
  "join_strs sep [] = []"
| "join_strs sep [s] = s"
| "join_strs sep (s # t # ss) = s @ sep @ join_strs sep (t # ss)"

fun error_text :: "go_error \<Rightarrow> string" where
  "error_text ENotFound = ''storage: not found''"
| "error_text EConflict = ''storage: conflict''"
| "error_text (EValidation m) = ''app: invalid input: '' @ m"
| "error_text EPlanExists = ''app: a plan already exists for this goal''"
| "error_text ENoPlanForGoal = ''app: no plan exists for this goal''"
| "error_text EGoalNotActive =
     ''app: goal is not active; resume it before sending signals or generating plans''"
| "error_text EUnsupportedProvider = ''llm: unsupported BYOK provider''"
| "error_text EQueueClosed = ''app: replan queue closed''"
| "error_text ECanceled = ''context canceled''"
| "error_text EDeadlineExceeded = ''context deadline exceeded''"
| "error_text EMarketNotFound = ''marketdata: symbol or as-of data not found''"
| "error_text EMarketNotImplemented = ''marketdata: provider not implemented''"
| "error_text EMarketNotSupported = ''marketdata: not supported by vendor''"
| "error_text EMarketUnavailable = ''marketdata: vendor temporarily unavailable''"
| "error_text (EText s) = s"
| "error_text (EWrap s e) = s @ '': '' @ error_text e"
| "error_text (EWrapAfter e s) = error_text e @ '': '' @ s"
| "error_text (EJoin es) = join_strs [CHR 10] (map error_text es)"

lemma errors_is_refl [simp]: "errors_is e e"
  by (cases e) auto

section \<open>JSON values and payload maps\<close>

text \<open>A decoded JSON value (\<open>any\<close>) and an object (\<open>map[string]any\<close>), keys in encoding order.\<close>

datatype json =
    JNull | JBool bool | JNum f64 | JStr string
  | JArr "json list" | JObj "(string \<times> json) list"

type_synonym payload = "(string \<times> json) list"

section \<open>Strings\<close>

record unicode =
  uc_to_lower :: "string \<Rightarrow> string"       \<comment> \<open>\<open>strings.ToLower\<close>\<close>
  uc_to_upper :: "string \<Rightarrow> string"       \<comment> \<open>\<open>strings.ToUpper\<close>\<close>
  uc_trim_space :: "string \<Rightarrow> string"     \<comment> \<open>\<open>strings.TrimSpace\<close>\<close>
  uc_equal_fold :: "string \<Rightarrow> string \<Rightarrow> bool" \<comment> \<open>\<open>strings.EqualFold\<close>\<close>
  uc_runes :: "string \<Rightarrow> string list"      \<comment> \<open>\<open>range s\<close>, each rune as \<open>WriteRune\<close> writes it\<close>
  uc_alnum :: "string \<Rightarrow> bool"             \<comment> \<open>\<open>unicode.IsLetter(r) || unicode.IsDigit(r)\<close>\<close>
  uc_quote :: "string \<Rightarrow> string"           \<comment> \<open>\<open>strconv.Quote\<close>, the verb \<open>%q\<close>\<close>

definition ascii_lower :: "char \<Rightarrow> char" where
  "ascii_lower c = (if 65 \<le> (of_char c :: nat) \<and> (of_char c :: nat) \<le> 90 then char_of (of_char c + 32 :: nat) else c)"

definition ascii_upper :: "char \<Rightarrow> char" where
  "ascii_upper c = (if 97 \<le> (of_char c :: nat) \<and> (of_char c :: nat) \<le> 122 then char_of (of_char c - 32 :: nat) else c)"

definition ascii_digit :: "char \<Rightarrow> bool" where
  "ascii_digit c \<longleftrightarrow> 48 \<le> (of_char c :: nat) \<and> (of_char c :: nat) \<le> 57"

definition ascii_letter :: "char \<Rightarrow> bool" where
  "ascii_letter c \<longleftrightarrow>
     (65 \<le> (of_char c :: nat) \<and> (of_char c :: nat) \<le> 90) \<or> (97 \<le> (of_char c :: nat) \<and> (of_char c :: nat) \<le> 122)"

definition ascii_space :: "char \<Rightarrow> bool" where
  "ascii_space c \<longleftrightarrow> (of_char c :: nat) \<in> {9, 10, 11, 12, 13, 32}"

text \<open>\<open>strconv.Quote\<close> on printable ASCII.\<close>

definition ascii_quote :: "string \<Rightarrow> string" where
  "ascii_quote s =
     [CHR 34] @ concat (map (\<lambda>c. if c = CHR 34 \<or> c = CHR 92 then [CHR 92, c] else [c]) s) @ [CHR 34]"

definition trim_by :: "('a \<Rightarrow> bool) \<Rightarrow> 'a list \<Rightarrow> 'a list" where
  "trim_by p xs = rev (dropWhile p (rev (dropWhile p xs)))"

definition ascii_unicode :: unicode where
  "ascii_unicode =
     \<lparr>uc_to_lower = map ascii_lower, uc_to_upper = map ascii_upper,
      uc_trim_space = trim_by ascii_space,
      uc_equal_fold = (\<lambda>s t. map ascii_lower s = map ascii_lower t),
      uc_runes = map (\<lambda>c. [c]),
      uc_alnum = (\<lambda>r. r \<noteq> [] \<and> list_all (\<lambda>c. ascii_letter c \<or> ascii_digit c) r),
      uc_quote = ascii_quote\<rparr>"

text \<open>\<open>%d\<close> and \<open>strconv.Itoa\<close>; \<open>%.kf\<close>, which rounds the exact value, ties to even.\<close>

fun digit_char :: "nat \<Rightarrow> char" where
  "digit_char d = char_of (48 + d)"

function dec_nat :: "nat \<Rightarrow> string" where
  "dec_nat n = (if n < 10 then [digit_char n] else dec_nat (n div 10) @ [digit_char (n mod 10)])"
  by pat_completeness auto
termination by (relation "measure id") auto

declare dec_nat.simps [simp del]

definition dec_int :: "int \<Rightarrow> string" where
  "dec_int n = (if n < 0 then ''-'' @ dec_nat (nat (- n)) else dec_nat (nat n))"

definition pad_left :: "nat \<Rightarrow> char \<Rightarrow> string \<Rightarrow> string" where
  "pad_left w c s = replicate (w - length s) c @ s"

definition fmt_abs_fixed :: "nat \<Rightarrow> rat \<Rightarrow> string" where
  "fmt_abs_fixed k r =
     (let n = nat (rne (r * 10 ^ k)); q = n div 10 ^ k; f = n mod 10 ^ k
      in if k = 0 then dec_nat q else dec_nat q @ ''.'' @ pad_left k (CHR ''0'') (dec_nat f))"

fun fmt_fixed :: "nat \<Rightarrow> f64 \<Rightarrow> string" where
  "fmt_fixed k NaN = ''NaN''"
| "fmt_fixed k PInf = ''+Inf''"
| "fmt_fixed k NInf = ''-Inf''"
| "fmt_fixed k (Fin r) = (if r < 0 then ''-'' @ fmt_abs_fixed k (- r) else fmt_abs_fixed k r)"

text \<open>Byte order of Go strings, the order of \<open>sort.Strings\<close> and of \<open><\<close> on strings.\<close>

fun str_less :: "string \<Rightarrow> string \<Rightarrow> bool" where
  "str_less [] [] = False"
| "str_less [] (_ # _) = True"
| "str_less (_ # _) [] = False"
| "str_less (a # as) (b # bs) =
     ((of_char a :: nat) < of_char b \<or> (a = b \<and> str_less as bs))"

lemma str_less_irrefl [simp]: "\<not> str_less s s"
  by (induction s) auto

lemma str_less_trans: "str_less s t \<Longrightarrow> str_less t u \<Longrightarrow> str_less s u"
proof (induction s t arbitrary: u rule: str_less.induct)
  case (4 a as b bs)
  then show ?case by (cases u) auto
qed (auto elim: str_less.elims)

lemma str_less_total: "s \<noteq> t \<Longrightarrow> str_less s t \<or> str_less t s"
proof (induction s t rule: str_less.induct)
  case (4 a as b bs)
  show ?case
  proof (cases "a = b")
    case False
    hence "(of_char a :: nat) \<noteq> of_char b" by simp
    hence "(of_char a :: nat) < of_char b \<or> (of_char b :: nat) < of_char a" by linarith
    thus ?thesis by auto
  qed (use 4 in auto)
qed auto

lemma str_less_asym: "str_less s t \<Longrightarrow> \<not> str_less t s"
  using str_less_trans by fastforce

text \<open>Insertion sort by a strict order: what \<open>sort.SliceStable\<close> computes.\<close>

fun insert_by :: "('a \<Rightarrow> 'a \<Rightarrow> bool) \<Rightarrow> 'a \<Rightarrow> 'a list \<Rightarrow> 'a list" where
  "insert_by lt x [] = [x]"
| "insert_by lt x (y # ys) = (if lt y x then y # insert_by lt x ys else x # y # ys)"

fun sort_by :: "('a \<Rightarrow> 'a \<Rightarrow> bool) \<Rightarrow> 'a list \<Rightarrow> 'a list" where
  "sort_by lt [] = []"
| "sort_by lt (x # xs) = insert_by lt x (sort_by lt xs)"

lemma mset_insert_by [simp]: "mset (insert_by lt x xs) = add_mset x (mset xs)"
  by (induction xs) auto

lemma mset_sort_by [simp]: "mset (sort_by lt xs) = mset xs"
  by (induction xs) auto

lemma set_sort_by [simp]: "set (sort_by lt xs) = set xs"
  by (metis mset_sort_by set_mset_mset)

lemma set_insert_by [simp]: "set (insert_by lt x xs) = insert x (set xs)"
  by (metis mset_insert_by set_mset_mset set_mset_add_mset_insert)

lemma length_sort_by [simp]: "length (sort_by lt xs) = length xs"
  by (metis mset_sort_by size_mset)

lemma sorted_insert_by:
  assumes tr: "\<And>x y z. \<not> lt y x \<Longrightarrow> \<not> lt z y \<Longrightarrow> \<not> lt z x" and as: "\<And>x y. lt x y \<Longrightarrow> \<not> lt y x"
  shows "sorted_wrt (\<lambda>x y. \<not> lt y x) xs \<Longrightarrow> sorted_wrt (\<lambda>x y. \<not> lt y x) (insert_by lt x xs)"
proof (induction xs)
  case (Cons y ys)
  show ?case
  proof (cases "lt y x")
    case True
    with Cons show ?thesis by (auto dest: as)
  next
    case False
    have "\<not> lt z x" if "z \<in> set ys" for z
      using tr[of y x z] False Cons.prems that by auto
    with False Cons.prems show ?thesis by auto
  qed
qed simp

lemma sorted_sort_by:
  assumes "\<And>x y z. \<not> lt y x \<Longrightarrow> \<not> lt z y \<Longrightarrow> \<not> lt z x" and "\<And>x y. lt x y \<Longrightarrow> \<not> lt y x"
  shows "sorted_wrt (\<lambda>x y. \<not> lt y x) (sort_by lt xs)"
  by (induction xs) (auto intro: sorted_insert_by[OF assms])

end
