(* ===== verification/Domain.thy ===== *)
theory Domain
  imports Go_Base
begin

text \<open>
  The domain vocabulary of \<open>internal/domain\<close>: the string enumerations with their validity
  checks, the goal lifecycle, and one record per struct. A Go string enumeration may hold any
  string, so the enumerations are strings and \<open>Valid\<close> is a check on them, as in the source.
  A pointer field is an option; a JSON raw message is its text.
\<close>

section \<open>Enumerations\<close>

type_synonym level = string

definition LevelLow :: level where "LevelLow = ''low''"
definition LevelMedium :: level where "LevelMedium = ''medium''"
definition LevelHigh :: level where "LevelHigh = ''high''"

definition level_valid :: "level \<Rightarrow> bool" where
  "level_valid l \<longleftrightarrow> l = LevelLow \<or> l = LevelMedium \<or> l = LevelHigh"

type_synonym outcome_result = string

definition OutcomeSuccess :: outcome_result where "OutcomeSuccess = ''success''"
definition OutcomeFailure :: outcome_result where "OutcomeFailure = ''failure''"
definition OutcomePartial :: outcome_result where "OutcomePartial = ''partial''"
definition OutcomeInconclusive :: outcome_result where "OutcomeInconclusive = ''inconclusive''"

definition outcome_valid :: "outcome_result \<Rightarrow> bool" where
  "outcome_valid r \<longleftrightarrow>
     r = OutcomeSuccess \<or> r = OutcomeFailure \<or> r = OutcomePartial \<or> r = OutcomeInconclusive"

type_synonym player_kind = string

definition player_kind_valid :: "player_kind \<Rightarrow> bool" where
  "player_kind_valid k \<longleftrightarrow> k = ''person'' \<or> k = ''team'' \<or> k = ''company'' \<or> k = ''system''"

type_synonym goal_status = string

definition GoalActive :: goal_status where "GoalActive = ''active''"
definition GoalOnHold :: goal_status where "GoalOnHold = ''on_hold''"
definition GoalResolved :: goal_status where "GoalResolved = ''resolved''"
definition GoalAbandoned :: goal_status where "GoalAbandoned = ''abandoned''"

definition status_valid :: "goal_status \<Rightarrow> bool" where
  "status_valid s \<longleftrightarrow> s = GoalActive \<or> s = GoalOnHold \<or> s = GoalResolved \<or> s = GoalAbandoned"

definition status_terminal :: "goal_status \<Rightarrow> bool" where
  "status_terminal s \<longleftrightarrow> s = GoalResolved \<or> s = GoalAbandoned"

definition can_transition_to :: "goal_status \<Rightarrow> goal_status \<Rightarrow> bool" where
  "can_transition_to s next =
     (if \<not> status_valid next \<or> status_terminal s \<or> s = next then False else True)"

lemmas level_defs [go_defs] = LevelLow_def LevelMedium_def LevelHigh_def level_valid_def
lemmas outcome_defs [go_defs] =
  OutcomeSuccess_def OutcomeFailure_def OutcomePartial_def OutcomeInconclusive_def outcome_valid_def
lemmas status_defs [go_defs] =
  GoalActive_def GoalOnHold_def GoalResolved_def GoalAbandoned_def status_valid_def
  status_terminal_def can_transition_to_def

section \<open>Goals\<close>

record asset =
  as_name :: string
  as_kind :: string
  as_description :: string

record constr =
  co_name :: string
  co_kind :: string
  co_description :: string

record goal_context =
  cx_situation :: string
  cx_facts :: "string list"
  cx_assets :: "asset list"
  cx_constraints :: "constr list"

record resolution =
  re_result :: outcome_result
  re_notes :: string
  re_resolved_at :: time

record goal =
  g_id :: string
  g_player_id :: string
  g_domain :: string
  g_objective :: string
  g_metric :: string
  g_target :: string
  g_context :: goal_context
  g_status :: goal_status
  g_resolution :: "resolution option"
  g_created_at :: time
  g_updated_at :: time

record player =
  pl_id :: string
  pl_kind :: player_kind
  pl_name :: string
  pl_metadata :: "(string \<times> string) list"
  pl_created_at :: time

section \<open>Plans\<close>

record exper =
  ex_title :: string
  ex_duration_days :: int
  ex_success_signals :: "string list"
  ex_kill_criteria :: "string list"

record move =
  m_rank :: int
  m_key :: string
  m_title :: string
  m_description :: string
  m_confidence :: f64
  m_raw_confidence :: f64
  m_expected_impact :: level
  m_effort :: level
  m_risk :: level
  m_rationale :: string
  m_experiment :: exper
  m_fallback_moves :: "string list"
  m_depends_on :: "string list"
  m_parallel_group :: string

record strategy_candidate =
  sc_strategy_id :: string
  sc_planner :: string
  sc_utility_score :: f64
  sc_weight :: f64
  sc_top_move_key :: string
  sc_top_confidence :: f64
  sc_filtered :: bool
  sc_reason :: string

record source_contribution =
  so_source_name :: string
  so_fetched_at :: time
  so_stale :: bool
  so_err :: string
  so_raw :: string
  so_delta_summary :: string

record model_contribution =
  mc_planner :: string
  mc_model :: string
  mc_role :: string
  mc_prompt_tokens :: int
  mc_completion_tokens :: int

record model_invocation =
  mi_model :: string
  mi_prompt_version :: string
  mi_prompt_tokens :: int
  mi_completion_tokens :: int
  mi_total_tokens :: int
  mi_latency_ms :: int

record provenance =
  pr_reasoning_summary :: string
  pr_input_snapshot_id :: string
  pr_planner :: string
  pr_prompt_version :: string
  pr_model :: string
  pr_pack_id :: string
  pr_pack_version :: string
  pr_strategy :: string
  pr_contributors :: "model_contribution list"
  pr_notes :: string
  pr_selected_strategy :: string
  pr_comparator :: string
  pr_regime :: string
  pr_strategy_candidates :: "strategy_candidate list"
  pr_source_contributions :: "source_contribution list"

record plan =
  p_id :: string
  p_goal_id :: string
  p_current_version :: int
  p_created_at :: time
  p_updated_at :: time

record plan_version =
  v_plan_id :: string
  v_version :: int
  v_goal :: string
  v_summary :: string
  v_ranked_moves :: "move list"
  v_provenance :: provenance
  v_input_snapshot_id :: string
  v_created_at :: time

section \<open>Signals and outcomes\<close>

record signal =
  s_id :: string
  s_goal_id :: string
  s_kind :: string
  s_description :: string
  s_payload :: payload
  s_created_at :: time
  s_status :: string
  s_reason :: string
  s_result_version :: int
  s_error :: string
  s_processed_at :: "time option"

definition signal_note :: "signal \<Rightarrow> string" where
  "signal_note s =
     (if s_description s \<noteq> '''' then s_kind s @ '': '' @ s_description s else s_kind s)"

record outcome =
  o_id :: string
  o_goal_id :: string
  o_plan_version :: int
  o_move_rank :: int
  o_move_title :: string
  o_result :: outcome_result
  o_observed_signals :: "string list"
  o_notes :: string
  o_created_at :: time

section \<open>Zero values\<close>

text \<open>The zero values Go gives to \<open>T{}\<close>, used where the source returns or starts from one.\<close>

definition zero_context :: goal_context where
  "zero_context = \<lparr>cx_situation = '''', cx_facts = [], cx_assets = [], cx_constraints = []\<rparr>"

definition zero_experiment :: exper where
  "zero_experiment =
     \<lparr>ex_title = '''', ex_duration_days = 0, ex_success_signals = [], ex_kill_criteria = []\<rparr>"

definition zero_move :: move where
  "zero_move =
     \<lparr>m_rank = 0, m_key = '''', m_title = '''', m_description = '''', m_confidence = Fin 0,
      m_raw_confidence = Fin 0, m_expected_impact = '''', m_effort = '''', m_risk = '''',
      m_rationale = '''', m_experiment = zero_experiment, m_fallback_moves = [],
      m_depends_on = [], m_parallel_group = ''''\<rparr>"

definition zero_provenance :: provenance where
  "zero_provenance =
     \<lparr>pr_reasoning_summary = '''', pr_input_snapshot_id = '''', pr_planner = '''',
      pr_prompt_version = '''', pr_model = '''', pr_pack_id = '''', pr_pack_version = '''',
      pr_strategy = '''', pr_contributors = [], pr_notes = '''', pr_selected_strategy = '''',
      pr_comparator = '''', pr_regime = '''', pr_strategy_candidates = [],
      pr_source_contributions = []\<rparr>"

definition zero_version :: plan_version where
  "zero_version =
     \<lparr>v_plan_id = '''', v_version = 0, v_goal = '''', v_summary = '''', v_ranked_moves = [],
      v_provenance = zero_provenance, v_input_snapshot_id = '''', v_created_at = zero_time\<rparr>"

definition zero_goal :: goal where
  "zero_goal =
     \<lparr>g_id = '''', g_player_id = '''', g_domain = '''', g_objective = '''', g_metric = '''',
      g_target = '''', g_context = zero_context, g_status = '''', g_resolution = None,
      g_created_at = zero_time, g_updated_at = zero_time\<rparr>"

definition zero_signal :: signal where
  "zero_signal =
     \<lparr>s_id = '''', s_goal_id = '''', s_kind = '''', s_description = '''', s_payload = [],
      s_created_at = zero_time, s_status = '''', s_reason = '''', s_result_version = 0,
      s_error = '''', s_processed_at = None\<rparr>"

section \<open>The goal lifecycle\<close>

text \<open>
  The transitions as a step relation on statuses: what \<open>CanTransitionTo\<close> allows, one
  transition after another.
\<close>

inductive status_step :: "goal_status \<Rightarrow> goal_status \<Rightarrow> bool" where
  "can_transition_to s t \<Longrightarrow> status_step s t"

inductive_simps status_step_iff: "status_step s t"

inductive status_reach :: "goal_status \<Rightarrow> goal_status \<Rightarrow> bool" where
  sr_refl: "status_reach s s"
| sr_step: "status_reach s t \<Longrightarrow> status_step t u \<Longrightarrow> status_reach s u"

inductive_cases status_reachE: "status_reach s u"

lemma can_transition_iff:
  "can_transition_to s t \<longleftrightarrow> status_valid t \<and> \<not> status_terminal s \<and> s \<noteq> t"
  by (simp add: can_transition_to_def)

lemma terminal_valid: "status_terminal s \<Longrightarrow> status_valid s"
  by (auto simp: status_terminal_def status_valid_def)

lemma status_reach_terminal: "status_reach s t \<Longrightarrow> status_terminal s \<Longrightarrow> t = s"
  by (induction rule: status_reach.induct) (auto simp: status_step_iff can_transition_iff)

lemma status_reach_valid: "status_reach s t \<Longrightarrow> status_valid s \<Longrightarrow> status_valid t"
  by (induction rule: status_reach.induct) (auto simp: status_step_iff can_transition_iff)

section \<open>Properties\<close>

lemma status_reach_one: "can_transition_to s t \<Longrightarrow> status_reach s t"
  by (rule sr_step[OF sr_refl]) (simp add: status_step_iff)

text \<open>
  The goal lifecycle is what its comment says: from a known status a goal reaches, by any
  sequence of allowed transitions, every known status if the status is not terminal, and only
  itself if it is resolved or abandoned; unknown statuses are never reached.
\<close>

theorem goal_lifecycle:
  assumes "status_valid s"
  shows "status_reach s t \<longleftrightarrow> t = s \<or> (status_valid t \<and> \<not> status_terminal s)"
proof
  assume "status_reach s t"
  thus "t = s \<or> (status_valid t \<and> \<not> status_terminal s)"
    using status_reach_terminal status_reach_valid assms by blast
next
  assume "t = s \<or> (status_valid t \<and> \<not> status_terminal s)"
  thus "status_reach s t"
    by (cases "t = s") (auto intro: sr_refl status_reach_one simp: can_transition_iff)
qed

theorem goal_lifecycle_witness:
  "status_reach GoalActive GoalResolved \<and> \<not> status_reach GoalResolved GoalActive"
proof -
  have "status_valid GoalActive" "status_valid GoalResolved" by (simp_all add: status_valid_def)
  with goal_lifecycle[of GoalActive GoalResolved] goal_lifecycle[of GoalResolved GoalActive]
  show ?thesis by (simp add: status_defs)
qed

end
