(* ===== verification/Move_Graph.thy ===== *)
theory Move_Graph
  imports Domain
begin

text \<open>
  The move dependency graph of \<open>internal/domain/move_graph.go\<close>: \<open>SanitizeMoveGraph\<close>
  (two passes: drop unusable references, then break cycles by a coloured depth-first search).
  The recursive closure \<open>visit\<close> takes a fuel argument; fuel equal to the number of moves is
  enough, because every nested call first colours one more white node (\<open>visit_total\<close>).
\<close>

section \<open>The two passes of SanitizeMoveGraph\<close>

datatype color = White | Gray | Black

text \<open>\<open>keyToIndices\<close>: the indices of the moves that carry a non-empty key.\<close>

definition key_indices :: "move list \<Rightarrow> string \<Rightarrow> nat list" where
  "key_indices ms k =
     (if k = '''' then [] else filter (\<lambda>i. m_key (ms ! i) = k) [0..<length ms])"

fun keep_deps :: "move list \<Rightarrow> string \<Rightarrow> string list \<Rightarrow> string list \<Rightarrow> string list" where
  "keep_deps ms own seen [] = []"
| "keep_deps ms own seen (dep # src) =
     (if dep = '''' \<or> dep = own \<or> dep \<in> set seen then keep_deps ms own seen src
      else if key_indices ms dep = [] then keep_deps ms own seen src
      else dep # keep_deps ms own (dep # seen) src)"

definition drop_bad_refs :: "move list \<Rightarrow> move list" where
  "drop_bad_refs ms =
     map (\<lambda>m. m\<lparr>m_depends_on := keep_deps ms (m_key m) [] (m_depends_on m)\<rparr>) ms"

record dfs_state =
  colors :: "nat \<Rightarrow> color"
  removed :: "(nat \<times> string) list"

definition set_color :: "nat \<Rightarrow> color \<Rightarrow> dfs_state \<Rightarrow> dfs_state" where
  "set_color i c s = s\<lparr>colors := (colors s)(i := c)\<rparr>"

function (sequential)
  visit :: "move list \<Rightarrow> nat \<Rightarrow> nat \<Rightarrow> dfs_state \<Rightarrow> dfs_state option" and
  visit_deps :: "move list \<Rightarrow> nat \<Rightarrow> nat \<Rightarrow> string list \<Rightarrow> dfs_state \<Rightarrow> dfs_state option" and
  visit_targets :: "move list \<Rightarrow> nat \<Rightarrow> nat list \<Rightarrow> dfs_state \<Rightarrow> (bool \<times> dfs_state) option"
where
  "visit ms 0 i s = None"
| "visit ms (Suc fuel) i s =
     (case visit_deps ms fuel i (m_depends_on (ms ! i)) (set_color i Gray s) of
        None \<Rightarrow> None
      | Some s' \<Rightarrow> Some (set_color i Black s'))"
| "visit_deps ms fuel i [] s = Some s"
| "visit_deps ms fuel i (dep # deps) s =
     (if (i, dep) \<in> set (removed s) then visit_deps ms fuel i deps s
      else case visit_targets ms fuel (key_indices ms dep) s of
        None \<Rightarrow> None
      | Some (back, s') \<Rightarrow>
          visit_deps ms fuel i deps (if back then s'\<lparr>removed := (i, dep) # removed s'\<rparr> else s'))"
| "visit_targets ms fuel [] s = Some (False, s)"
| "visit_targets ms fuel (j # js) s =
     (case colors s j of
        Gray \<Rightarrow> Some (True, s)
      | White \<Rightarrow> (case visit ms fuel j s of
                    None \<Rightarrow> None
                  | Some s' \<Rightarrow> visit_targets ms fuel js s')
      | Black \<Rightarrow> visit_targets ms fuel js s)"
  by pat_completeness auto
termination
  by (relation "measures
        [case_sum (\<lambda>(ms, f, i, s). f) (case_sum (\<lambda>(ms, f, i, ds, s). f) (\<lambda>(ms, f, js, s). f)),
         case_sum (\<lambda>_. 0) (case_sum (\<lambda>_. 2) (\<lambda>_. 1)),
         case_sum (\<lambda>_. 0) (case_sum (\<lambda>(ms, f, i, ds, s). length ds) (\<lambda>(ms, f, js, s). length js))]")
     auto

fun visit_all :: "move list \<Rightarrow> nat \<Rightarrow> nat list \<Rightarrow> dfs_state \<Rightarrow> dfs_state option" where
  "visit_all ms fuel [] s = Some s"
| "visit_all ms fuel (i # is) s =
     (if colors s i = White then
        (case visit ms fuel i s of None \<Rightarrow> None | Some s' \<Rightarrow> visit_all ms fuel is s')
      else visit_all ms fuel is s)"

definition dfs_init :: dfs_state where
  "dfs_init = \<lparr>colors = (\<lambda>_. White), removed = []\<rparr>"

definition apply_removals :: "(nat \<times> string) list \<Rightarrow> move list \<Rightarrow> move list" where
  "apply_removals rem ms =
     map (\<lambda>i. (ms ! i)\<lparr>m_depends_on := filter (\<lambda>dep. (i, dep) \<notin> set rem) (m_depends_on (ms ! i))\<rparr>)
         [0..<length ms]"

definition sanitize_move_graph :: "move list \<Rightarrow> move list" where
  "sanitize_move_graph moves =
     (let out = drop_bad_refs moves in
      case visit_all out (length out) [0..<length out] dfs_init of
        None \<Rightarrow> out
      | Some s \<Rightarrow> apply_removals (removed s) out)"

section \<open>The search breaks every cycle\<close>

definition kept_edge :: "move list \<Rightarrow> dfs_state \<Rightarrow> nat \<Rightarrow> nat \<Rightarrow> bool" where
  "kept_edge ms s i j \<longleftrightarrow>
     (\<exists>d \<in> set (m_depends_on (ms ! i)). (i, d) \<notin> set (removed s) \<and> j \<in> set (key_indices ms d))"

definition black_edges :: "move list \<Rightarrow> dfs_state \<Rightarrow> (nat \<times> nat) set" where
  "black_edges ms s = {(i, j). colors s i = Black \<and> kept_edge ms s i j}"

definition dfs_inv :: "move list \<Rightarrow> dfs_state \<Rightarrow> bool" where
  "dfs_inv ms s \<longleftrightarrow>
     (\<forall>i j. colors s i = Black \<longrightarrow> kept_edge ms s i j \<longrightarrow> colors s j = Black) \<and>
     acyclic (black_edges ms s)"

definition dfs_frame :: "nat set \<Rightarrow> dfs_state \<Rightarrow> dfs_state \<Rightarrow> bool" where
  "dfs_frame X s s' \<longleftrightarrow>
     (\<forall>k. colors s k \<noteq> White \<longrightarrow> colors s' k = colors s k) \<and>
     (\<forall>k. colors s k = White \<longrightarrow> colors s' k \<noteq> Gray) \<and>
     set (removed s) \<subseteq> set (removed s') \<and>
     (\<forall>k d. k \<notin> X \<longrightarrow> colors s k \<noteq> White \<longrightarrow> (k, d) \<in> set (removed s') \<longrightarrow> (k, d) \<in> set (removed s))"

definition white_count :: "move list \<Rightarrow> dfs_state \<Rightarrow> nat" where
  "white_count ms s = card {k. k < length ms \<and> colors s k = White}"

lemma acyclic_add_source:
  assumes ac: "acyclic r" and nr: "i \<notin> Range r" and na: "i \<notin> A"
  shows "acyclic (r \<union> {i} \<times> A)"
proof -
  have "(x, y) \<in> (r \<union> {i} \<times> A)\<^sup>+ \<Longrightarrow> y \<noteq> i \<and> (x = i \<or> (x, y) \<in> r\<^sup>+)" for x y
  proof (induction rule: trancl_induct)
    case (base y) thus ?case using nr na by auto
  next
    case (step y z) thus ?case using nr na by (auto intro: trancl_into_trancl)
  qed
  thus ?thesis using ac by (auto simp: acyclic_def)
qed

lemma dfs_frame_refl [simp]: "dfs_frame X s s"
  by (auto simp: dfs_frame_def)

lemma dfs_frame_trans: "dfs_frame X s t \<Longrightarrow> dfs_frame X t u \<Longrightarrow> dfs_frame X s u"
  unfolding dfs_frame_def by (metis color.distinct(1) subset_trans)

lemma dfs_frame_mono: "dfs_frame X s t \<Longrightarrow> X \<subseteq> Y \<Longrightarrow> dfs_frame Y s t"
  unfolding dfs_frame_def by blast

lemma white_count_frame: "dfs_frame X s s' \<Longrightarrow> white_count ms s' \<le> white_count ms s"
proof -
  assume f: "dfs_frame X s s'"
  have "{k. k < length ms \<and> colors s' k = White} \<subseteq> {k. k < length ms \<and> colors s k = White}"
    using f by (auto simp: dfs_frame_def)
  from card_mono[OF _ this] show ?thesis by (simp add: white_count_def)
qed

lemma white_count_gray:
  "i < length ms \<Longrightarrow> colors s i = White \<Longrightarrow> white_count ms s = Suc (white_count ms (set_color i Gray s))"
proof -
  assume a: "i < length ms" "colors s i = White"
  have "{k. k < length ms \<and> colors s k = White} =
      insert i {k. k < length ms \<and> colors (set_color i Gray s) k = White}"
    using a by (auto simp: set_color_def)
  thus ?thesis by (simp add: white_count_def set_color_def)
qed

lemma key_indices_bound: "j \<in> set (key_indices ms k) \<Longrightarrow> j < length ms"
  by (auto simp: key_indices_def split: if_splits)

lemma kept_edge_colors [simp]: "kept_edge ms (s\<lparr>colors := c\<rparr>) i j = kept_edge ms s i j"
  by (simp add: kept_edge_def)

lemma kept_edge_set_color [simp]: "kept_edge ms (set_color k c s) i j = kept_edge ms s i j"
  by (simp add: set_color_def)

lemma dfs_inv_gray: "dfs_inv ms s \<Longrightarrow> colors s i = White \<Longrightarrow> dfs_inv ms (set_color i Gray s)"
proof -
  assume inv: "dfs_inv ms s" and w: "colors s i = White"
  have "black_edges ms (set_color i Gray s) = black_edges ms s"
    using w by (auto simp: black_edges_def set_color_def split: if_splits)
  with inv w show ?thesis by (auto simp: dfs_inv_def set_color_def)
qed

lemma dfs_inv_black:
  assumes inv: "dfs_inv ms s" and g: "colors s i = Gray"
    and fin: "\<forall>d \<in> set (m_depends_on (ms ! i)).
      (i, d) \<in> set (removed s) \<or> (\<forall>j \<in> set (key_indices ms d). colors s j = Black)"
  shows "dfs_inv ms (set_color i Black s)"
proof -
  let ?s = "set_color i Black s" and ?A = "{j. kept_edge ms s i j}"
  have A: "colors s j = Black" if "kept_edge ms s i j" for j
    using fin that by (auto simp: kept_edge_def)
  have e: "black_edges ms ?s = black_edges ms s \<union> {i} \<times> ?A"
    using A by (auto simp: black_edges_def set_color_def split: if_splits)
  have "i \<notin> Range (black_edges ms s)"
    using inv g by (force simp: dfs_inv_def black_edges_def)
  moreover have "i \<notin> ?A" using A g by fastforce
  ultimately have "acyclic (black_edges ms ?s)"
    unfolding e using inv by (intro acyclic_add_source) (simp_all add: dfs_inv_def)
  moreover have "colors ?s j = Black" if "colors ?s k = Black" "kept_edge ms ?s k j" for k j
    using that A inv by (auto simp: dfs_inv_def set_color_def split: if_splits)
  ultimately show ?thesis by (simp add: dfs_inv_def)
qed

lemma dfs_inv_remove:
  assumes inv: "dfs_inv ms s" and g: "colors s i = Gray"
  shows "dfs_inv ms (s\<lparr>removed := (i, d) # removed s\<rparr>)"
proof -
  have "black_edges ms (s\<lparr>removed := (i, d) # removed s\<rparr>) \<subseteq> black_edges ms s"
    by (auto simp: black_edges_def kept_edge_def)
  with inv show ?thesis
    by (auto simp: dfs_inv_def kept_edge_def intro: acyclic_subset)
qed

lemma visit_spec:
  "i < length ms \<Longrightarrow> colors s i = White \<Longrightarrow> white_count ms s \<le> fuel \<Longrightarrow> dfs_inv ms s \<Longrightarrow>
     \<exists>s'. visit ms fuel i s = Some s' \<and> dfs_frame {} s s' \<and> dfs_inv ms s' \<and> colors s' i = Black"
  "colors s i = Gray \<Longrightarrow> white_count ms s \<le> fuel \<Longrightarrow> dfs_inv ms s \<Longrightarrow>
     \<exists>s'. visit_deps ms fuel i ds s = Some s' \<and> dfs_frame {i} s s' \<and> dfs_inv ms s' \<and>
       (\<forall>d \<in> set ds. (i, d) \<in> set (removed s') \<or> (\<forall>j \<in> set (key_indices ms d). colors s' j = Black))"
  "\<forall>j \<in> set js. j < length ms \<Longrightarrow> white_count ms s \<le> fuel \<Longrightarrow> dfs_inv ms s \<Longrightarrow>
     \<exists>b s'. visit_targets ms fuel js s = Some (b, s') \<and> dfs_frame {} s s' \<and> dfs_inv ms s' \<and>
       (\<not> b \<longrightarrow> (\<forall>j \<in> set js. colors s' j = Black))"
proof (induction ms fuel i s and ms fuel i ds s and ms fuel js s
    rule: visit_visit_deps_visit_targets.induct)
  case (1 ms i s)
  then show ?case using white_count_gray[of i ms s] by simp
next
  case (2 ms fuel i s)
  let ?g = "set_color i Gray s"
  have "white_count ms ?g \<le> fuel" using 2 white_count_gray[of i ms s] by simp
  moreover have "colors ?g i = Gray" by (simp add: set_color_def)
  ultimately obtain s' where s': "visit_deps ms fuel i (m_depends_on (ms ! i)) ?g = Some s'"
      "dfs_frame {i} ?g s'" "dfs_inv ms s'"
      "\<forall>d \<in> set (m_depends_on (ms ! i)).
         (i, d) \<in> set (removed s') \<or> (\<forall>j \<in> set (key_indices ms d). colors s' j = Black)"
    using 2(1) dfs_inv_gray[of ms s i] 2 by blast
  have g: "colors s' i = Gray" using s'(2) by (simp add: dfs_frame_def set_color_def)
  have "dfs_frame {} s (set_color i Black s')"
    using s'(2) 2(3) unfolding dfs_frame_def set_color_def by (auto split: if_splits)
  with s' g dfs_inv_black[OF s'(3) g s'(4)] show ?case by (auto simp: set_color_def)
next
  case (3 ms fuel i s)
  then show ?case by simp
next
  case (4 ms fuel i d ds s)
  show ?case
  proof (cases "(i, d) \<in> set (removed s)")
    case True
    with 4 obtain s' where "visit_deps ms fuel i ds s = Some s'" "dfs_frame {i} s s'" "dfs_inv ms s'"
      "\<forall>d \<in> set ds. (i, d) \<in> set (removed s') \<or> (\<forall>j \<in> set (key_indices ms d). colors s' j = Black)"
      by blast
    with True show ?thesis by (auto simp: dfs_frame_def)
  next
    case False
    have "\<forall>j \<in> set (key_indices ms d). j < length ms" by (auto dest: key_indices_bound)
    with 4(2)[OF False] 4(5,6) obtain b s1 where
      s1: "visit_targets ms fuel (key_indices ms d) s = Some (b, s1)" "dfs_frame {} s s1"
        "dfs_inv ms s1" "\<not> b \<longrightarrow> (\<forall>j \<in> set (key_indices ms d). colors s1 j = Black)"
      by blast
    define s2 where "s2 = (if b then s1\<lparr>removed := (i, d) # removed s1\<rparr> else s1)"
    have g1: "colors s1 i = Gray" using s1(2) 4(4) by (simp add: dfs_frame_def)
    have f2: "dfs_frame {i} s s2"
      using s1(2) unfolding s2_def dfs_frame_def by auto
    have i2: "dfs_inv ms s2" using s1(3) dfs_inv_remove[OF s1(3) g1] by (simp add: s2_def)
    have g2: "colors s2 i = Gray" using g1 by (simp add: s2_def)
    have w2: "white_count ms s2 \<le> fuel" using white_count_frame[OF f2, of ms] 4(5) by linarith
    obtain s' where s': "visit_deps ms fuel i ds s2 = Some s'" "dfs_frame {i} s2 s'" "dfs_inv ms s'"
      "\<forall>d \<in> set ds. (i, d) \<in> set (removed s') \<or> (\<forall>j \<in> set (key_indices ms d). colors s' j = Black)"
      using 4(3)[OF False s1(1) refl] g2 w2 i2 unfolding s2_def by blast
    have "(i, d) \<in> set (removed s') \<or> (\<forall>j \<in> set (key_indices ms d). colors s' j = Black)"
    proof (cases b)
      case True
      hence "(i, d) \<in> set (removed s2)" by (simp add: s2_def)
      thus ?thesis using s'(2) by (auto simp: dfs_frame_def)
    next
      case False
      hence "\<forall>j \<in> set (key_indices ms d). colors s2 j = Black" using s1(4) by (simp add: s2_def)
      thus ?thesis using s'(2) by (auto simp: dfs_frame_def)
    qed
    with s' False s1(1) dfs_frame_trans[OF f2 s'(2)] show ?thesis by (auto simp: s2_def)
  qed
next
  case (5 ms fuel s)
  then show ?case by auto
next
  case (6 ms fuel j js s)
  show ?case
  proof (cases "colors s j")
    case Gray
    hence "visit_targets ms fuel (j # js) s = Some (True, s)" by simp
    then show ?thesis using 6(5,6) dfs_frame_refl[of "{}" s] by blast
  next
    case White
    obtain s1 where s1: "visit ms fuel j s = Some s1" "dfs_frame {} s s1" "dfs_inv ms s1" "colors s1 j = Black"
      using 6(1)[OF White] White 6 by auto
    have w1: "white_count ms s1 \<le> fuel" using white_count_frame[OF s1(2), of ms] 6 by linarith
    obtain b s' where s': "visit_targets ms fuel js s1 = Some (b, s')" "dfs_frame {} s1 s'" "dfs_inv ms s'"
      "\<not> b \<longrightarrow> (\<forall>j \<in> set js. colors s' j = Black)"
      using 6(2)[OF White s1(1)] w1 s1(3) 6(4) by auto
    have "colors s' j = Black" using s1(4) s'(2) by (auto simp: dfs_frame_def)
    with s' s1 White dfs_frame_trans[OF s1(2) s'(2)] show ?thesis by auto
  next
    case Black
    obtain b s' where s': "visit_targets ms fuel js s = Some (b, s')" "dfs_frame {} s s'" "dfs_inv ms s'"
      "\<not> b \<longrightarrow> (\<forall>j \<in> set js. colors s' j = Black)"
      using 6(3)[OF Black] 6 by auto
    have "colors s' j = Black" using Black s'(2) by (auto simp: dfs_frame_def)
    with s' Black show ?thesis by auto
  qed
qed

lemma visit_all_spec:
  "\<forall>i \<in> set is. i < length ms \<Longrightarrow> white_count ms s \<le> fuel \<Longrightarrow> dfs_inv ms s \<Longrightarrow>
   \<forall>k. colors s k \<noteq> Gray \<Longrightarrow>
   \<exists>s'. visit_all ms fuel is s = Some s' \<and> dfs_frame {} s s' \<and> dfs_inv ms s' \<and>
     (\<forall>i \<in> set is. colors s' i = Black)"
proof (induction "is" arbitrary: s)
  case (Cons i "is")
  show ?case
  proof (cases "colors s i = White")
    case True
    from visit_spec(1)[OF _ True Cons.prems(2,3)] Cons.prems(1) obtain s1 where
      s1: "visit ms fuel i s = Some s1" "dfs_frame {} s s1" "dfs_inv ms s1" "colors s1 i = Black"
      by auto
    have "white_count ms s1 \<le> fuel" using white_count_frame[OF s1(2), of ms] Cons.prems by linarith
    moreover have "\<forall>k. colors s1 k \<noteq> Gray"
      using s1(2) Cons.prems(4) unfolding dfs_frame_def by metis
    ultimately obtain s' where s': "visit_all ms fuel is s1 = Some s'" "dfs_frame {} s1 s'"
      "dfs_inv ms s'" "\<forall>i \<in> set is. colors s' i = Black"
      using Cons.IH[of s1] Cons.prems(1) s1(3) by auto
    have "colors s' i = Black" using s1(4) s'(2) by (auto simp: dfs_frame_def)
    with s' s1 True dfs_frame_trans[OF s1(2) s'(2)] show ?thesis by auto
  next
    case False
    hence b: "colors s i = Black" using Cons.prems(4) by (cases "colors s i") auto
    obtain s' where s': "visit_all ms fuel is s = Some s'" "dfs_frame {} s s'"
      "dfs_inv ms s'" "\<forall>i \<in> set is. colors s' i = Black"
      using Cons.IH[of s] Cons.prems by auto
    have "colors s' i = Black" using b s'(2) by (auto simp: dfs_frame_def)
    with s' False show ?thesis by auto
  qed
qed auto

lemma dfs_inv_init [simp]: "dfs_inv ms dfs_init"
  by (simp add: dfs_inv_def dfs_init_def black_edges_def acyclic_def)

lemma visit_total:
  "\<exists>s. visit_all ms (length ms) [0..<length ms] dfs_init = Some s \<and> dfs_inv ms s \<and>
     (\<forall>i < length ms. colors s i = Black)"
proof -
  have "white_count ms dfs_init \<le> length ms"
    using card_Collect_less_nat[of "length ms"] by (simp add: white_count_def dfs_init_def)
  from visit_all_spec[of "[0..<length ms]" ms dfs_init "length ms", OF _ this dfs_inv_init]
  show ?thesis by (auto simp: dfs_init_def)
qed

section \<open>Keys and edges\<close>

definition dep_edges :: "move list \<Rightarrow> (nat \<times> nat) set" where
  "dep_edges ms =
     {(i, j). i < length ms \<and> (\<exists>d \<in> set (m_depends_on (ms ! i)). j \<in> set (key_indices ms d))}"

lemma key_indices_cong:
  assumes "map m_key ms = map m_key ns"
  shows "key_indices ms k = key_indices ns k"
proof -
  have l: "length ms = length ns" using assms by (rule map_eq_imp_length_eq)
  have "m_key (ms ! i) = m_key (ns ! i)" if "i < length ns" for i
    using assms that l by (metis nth_map)
  thus ?thesis using l by (auto simp: key_indices_def intro!: filter_cong)
qed

lemma map_key_drop [simp]: "map m_key (drop_bad_refs ms) = map m_key ms"
  by (simp add: drop_bad_refs_def)

lemma length_drop_bad_refs [simp]: "length (drop_bad_refs ms) = length ms"
  by (simp add: drop_bad_refs_def)

lemma length_apply_removals [simp]: "length (apply_removals rem ms) = length ms"
  by (simp add: apply_removals_def)

lemma nth_apply_removals:
  "i < length ms \<Longrightarrow> apply_removals rem ms ! i =
     (ms ! i)\<lparr>m_depends_on := filter (\<lambda>dep. (i, dep) \<notin> set rem) (m_depends_on (ms ! i))\<rparr>"
  by (simp add: apply_removals_def)

lemma map_key_apply_removals [simp]: "map m_key (apply_removals rem ms) = map m_key ms"
  by (rule nth_equalityI) (auto simp: nth_apply_removals)

lemma key_indices_drop [simp]: "key_indices (drop_bad_refs ms) k = key_indices ms k"
  by (rule key_indices_cong) simp

lemma key_indices_apply [simp]: "key_indices (apply_removals rem ms) k = key_indices ms k"
  by (rule key_indices_cong) simp

lemma dep_edges_apply_removals:
  "(\<forall>i < length ms. colors s i = Black) \<Longrightarrow>
   dep_edges (apply_removals (removed s) ms) \<subseteq> black_edges ms s"
  by (auto simp: dep_edges_def black_edges_def kept_edge_def nth_apply_removals)

lemma sanitize_eq:
  "\<exists>s. sanitize_move_graph ms = apply_removals (removed s) (drop_bad_refs ms) \<and>
     visit_all (drop_bad_refs ms) (length ms) [0..<length ms] dfs_init = Some s \<and>
     dfs_inv (drop_bad_refs ms) s \<and> (\<forall>i < length ms. colors s i = Black)"
  using visit_total[of "drop_bad_refs ms"] by (auto simp: sanitize_move_graph_def Let_def)

lemma length_sanitize [simp]: "length (sanitize_move_graph ms) = length ms"
  using sanitize_eq[of ms] by auto

lemma map_key_sanitize [simp]: "map m_key (sanitize_move_graph ms) = map m_key ms"
  using sanitize_eq[of ms] by auto

lemma sanitize_acyclic_edges: "acyclic (dep_edges (sanitize_move_graph ms))"
proof -
  obtain s :: dfs_state where s: "sanitize_move_graph ms = apply_removals (removed s) (drop_bad_refs ms)"
    "dfs_inv (drop_bad_refs ms) s" "\<forall>i < length ms. colors s i = Black"
    using sanitize_eq[of ms] by blast
  have "dep_edges (sanitize_move_graph ms) \<subseteq> black_edges (drop_bad_refs ms) s"
    unfolding s(1) by (rule dep_edges_apply_removals) (simp add: s(3))
  with s(2) show ?thesis by (auto simp: dfs_inv_def intro: acyclic_subset)
qed

section \<open>What the first pass keeps\<close>

lemma keep_deps_subseq: "subseq (keep_deps ms own seen src) src"
  by (induction ms own seen src rule: keep_deps.induct) auto

lemma keep_deps_set:
  "d \<in> set (keep_deps ms own seen src) \<Longrightarrow>
   d \<noteq> '''' \<and> d \<noteq> own \<and> d \<notin> set seen \<and> key_indices ms d \<noteq> []"
proof (induction src arbitrary: seen)
  case (Cons a src)
  show ?case
    using Cons.prems Cons.IH[of seen] Cons.IH[of "a # seen"]
    by (simp split: if_splits) blast+
qed simp

lemma keep_deps_distinct: "distinct (keep_deps ms own seen src)"
  by (induction src arbitrary: seen) (auto dest: keep_deps_set)

lemma keep_deps_id:
  "distinct src \<Longrightarrow> \<forall>d \<in> set src. d \<noteq> '''' \<and> d \<noteq> own \<and> d \<notin> set seen \<and> key_indices ms d \<noteq> [] \<Longrightarrow>
   keep_deps ms own seen src = src"
proof (induction src arbitrary: seen)
  case (Cons a src)
  show ?case using Cons.IH[of "a # seen"] Cons.prems by auto
qed simp

definition refs_ok :: "move list \<Rightarrow> nat \<Rightarrow> string list \<Rightarrow> bool" where
  "refs_ok ms i ds \<longleftrightarrow>
     distinct ds \<and> (\<forall>d \<in> set ds. d \<noteq> '''' \<and> d \<noteq> m_key (ms ! i) \<and> d \<in> m_key ` set ms)"

lemma key_indices_nonempty: "d \<noteq> '''' \<Longrightarrow> key_indices ms d \<noteq> [] \<longleftrightarrow> d \<in> m_key ` set ms"
proof -
  assume d: "d \<noteq> ''''"
  have "d \<in> m_key ` set ms \<longleftrightarrow> (\<exists>i < length ms. m_key (ms ! i) = d)"
    unfolding image_iff Bex_def in_set_conv_nth by metis
  thus ?thesis using d by (auto simp: key_indices_def filter_empty_conv)
qed

lemma sanitize_nth:
  assumes "i < length ms"
  shows "\<exists>ds. sanitize_move_graph ms ! i = (ms ! i)\<lparr>m_depends_on := ds\<rparr> \<and>
           subseq ds (m_depends_on (ms ! i)) \<and> refs_ok ms i ds"
proof -
  obtain s :: dfs_state where s: "sanitize_move_graph ms = apply_removals (removed s) (drop_bad_refs ms)"
    using sanitize_eq[of ms] by auto
  let ?k = "keep_deps ms (m_key (ms ! i)) [] (m_depends_on (ms ! i))"
  let ?ds = "filter (\<lambda>d. (i, d) \<notin> set (removed s)) ?k"
  have "sanitize_move_graph ms ! i = (ms ! i)\<lparr>m_depends_on := ?ds\<rparr>"
    using assms by (simp add: s nth_apply_removals drop_bad_refs_def)
  moreover have "subseq ?ds (m_depends_on (ms ! i))"
    using keep_deps_subseq subseq_filter_left subseq_order.trans by blast
  moreover have "refs_ok ms i ?ds"
    by (auto simp: refs_ok_def key_indices_nonempty keep_deps_distinct
        dest: keep_deps_set[of _ _ _ "[]"])
  ultimately show ?thesis by blast
qed

section \<open>Well-formed graphs are left alone\<close>

definition graph_ok :: "move list \<Rightarrow> bool" where
  "graph_ok ms \<longleftrightarrow> (\<forall>i < length ms. refs_ok ms i (m_depends_on (ms ! i))) \<and> acyclic (dep_edges ms)"

text \<open>
  In an acyclic graph every gray node reaches the node being visited, so no edge to a gray node
  is met and nothing is removed.
\<close>

definition gray_above :: "move list \<Rightarrow> dfs_state \<Rightarrow> nat \<Rightarrow> bool" where
  "gray_above ms s i \<longleftrightarrow> (\<forall>k. colors s k = Gray \<longrightarrow> (k, i) \<in> (dep_edges ms)\<^sup>*)"

lemma gray_above_cong:
  "gray_above ms s i \<Longrightarrow> \<forall>k. colors s' k = Gray \<longleftrightarrow> colors s k = Gray \<Longrightarrow> gray_above ms s' i"
  by (simp add: gray_above_def)

lemma visit_no_removal:
  "acyclic (dep_edges ms) \<Longrightarrow> i < length ms \<Longrightarrow> colors s i = White \<Longrightarrow> gray_above ms s i \<Longrightarrow>
     visit ms fuel i s = Some s' \<Longrightarrow>
     removed s' = removed s \<and> (\<forall>k. colors s' k = Gray \<longleftrightarrow> colors s k = Gray)"
  "acyclic (dep_edges ms) \<Longrightarrow> i < length ms \<Longrightarrow> colors s i = Gray \<Longrightarrow> gray_above ms s i \<Longrightarrow>
     set ds \<subseteq> set (m_depends_on (ms ! i)) \<Longrightarrow> visit_deps ms fuel i ds s = Some s' \<Longrightarrow>
     removed s' = removed s \<and> (\<forall>k. colors s' k = Gray \<longleftrightarrow> colors s k = Gray)"
  "acyclic (dep_edges ms) \<Longrightarrow> colors s i = Gray \<Longrightarrow> gray_above ms s i \<Longrightarrow>
     \<forall>j \<in> set js. (i, j) \<in> dep_edges ms \<and> j < length ms \<Longrightarrow>
     visit_targets ms fuel js s = Some (b, s') \<Longrightarrow>
     \<not> b \<and> removed s' = removed s \<and> (\<forall>k. colors s' k = Gray \<longleftrightarrow> colors s k = Gray)"
proof (induction ms fuel i s and ms fuel i ds s and ms fuel js s arbitrary: s' and s' and i b s'
    rule: visit_visit_deps_visit_targets.induct)
  case (1 ms i s)
  then show ?case by simp
next
  case (2 ms fuel i s)
  let ?g = "set_color i Gray s"
  from 2(6) obtain s1 where s1: "visit_deps ms fuel i (m_depends_on (ms ! i)) ?g = Some s1"
    "s' = set_color i Black s1" by (auto split: option.splits)
  have "gray_above ms ?g i" using 2(5) by (auto simp: gray_above_def set_color_def)
  hence "removed s1 = removed ?g \<and> (\<forall>k. colors s1 k = Gray \<longleftrightarrow> colors ?g k = Gray)"
    using 2(1)[OF 2(2,3) _ _ subset_refl s1(1)] by (simp add: set_color_def)
  thus ?case using 2(4) s1(2) by (auto simp: set_color_def)
next
  case (3 ms fuel i s)
  then show ?case by simp
next
  case (4 ms fuel i d ds s)
  show ?case
  proof (cases "(i, d) \<in> set (removed s)")
    case True
    have "visit_deps ms fuel i ds s = Some s'" using 4(9) True by simp
    moreover have "set ds \<subseteq> set (m_depends_on (ms ! i))" using 4(8) by simp
    ultimately show ?thesis using 4(1)[OF True 4(4-7)] by blast
  next
    case False
    from 4(9) False obtain b s1 where
      t: "visit_targets ms fuel (key_indices ms d) s = Some (b, s1)" and
      r: "visit_deps ms fuel i ds (if b then s1\<lparr>removed := (i, d) # removed s1\<rparr> else s1) = Some s'"
      by (auto split: option.splits)
    have "\<forall>j \<in> set (key_indices ms d). (i, j) \<in> dep_edges ms \<and> j < length ms"
      using 4(5,8) by (auto simp: dep_edges_def dest: key_indices_bound)
    from 4(2)[OF False 4(4,6,7) this t]
    have h: "\<not> b" "removed s1 = removed s" "\<forall>k. colors s1 k = Gray \<longleftrightarrow> colors s k = Gray" by auto
    from h(1) r have r': "visit_deps ms fuel i ds s1 = Some s'" by simp
    have g1: "colors s1 i = Gray" using h(3) 4(6) by simp
    have sub: "set ds \<subseteq> set (m_depends_on (ms ! i))" using 4(8) by simp
    have "removed s' = removed s1 \<and> (\<forall>k. colors s' k = Gray \<longleftrightarrow> colors s1 k = Gray)"
      using 4(3)[OF False t refl 4(4,5)] h(1) g1 gray_above_cong[OF 4(7) h(3)] sub r' by simp
    with h(2,3) show ?thesis by simp
  qed
next
  case (5 ms fuel s)
  then show ?case by auto
next
  case (6 ms fuel j js s)
  have ij: "(i, j) \<in> dep_edges ms" "j < length ms" using 6(7) by auto
  show ?case
  proof (cases "colors s j")
    case Gray
    hence "(j, i) \<in> (dep_edges ms)\<^sup>*" using 6(6) by (simp add: gray_above_def)
    with ij(1) have "(i, i) \<in> (dep_edges ms)\<^sup>+" by (rule rtrancl_into_trancl2)
    with 6(4) show ?thesis by (simp add: acyclic_def)
  next
    case White
    from 6(8) White obtain s1 where s1: "visit ms fuel j s = Some s1"
      "visit_targets ms fuel js s1 = Some (b, s')" by (auto split: option.splits)
    have "gray_above ms s j" using 6(6) ij(1) by (auto simp: gray_above_def intro: rtrancl_into_rtrancl)
    from 6(1)[OF White 6(4) ij(2) White this s1(1)]
    have h: "removed s1 = removed s" "\<forall>k. colors s1 k = Gray \<longleftrightarrow> colors s k = Gray" by auto
    have "\<not> b \<and> removed s' = removed s1 \<and> (\<forall>k. colors s' k = Gray \<longleftrightarrow> colors s1 k = Gray)"
      using 6(2)[OF White s1(1) 6(4) _ gray_above_cong[OF 6(6) h(2)] _ s1(2)] 6(5,7) h by auto
    with h show ?thesis by auto
  next
    case Black
    have "visit_targets ms fuel js s = Some (b, s')" using 6(8) Black by simp
    moreover have "\<forall>j \<in> set js. (i, j) \<in> dep_edges ms \<and> j < length ms" using 6(7) by simp
    ultimately show ?thesis using 6(3)[OF Black 6(4-6)] by blast
  qed
qed

lemma visit_all_no_removal:
  "acyclic (dep_edges ms) \<Longrightarrow> \<forall>i \<in> set is. i < length ms \<Longrightarrow> \<forall>k. colors s k \<noteq> Gray \<Longrightarrow>
   visit_all ms fuel is s = Some s' \<Longrightarrow> removed s' = removed s"
proof (induction "is" arbitrary: s)
  case (Cons i "is")
  show ?case
  proof (cases "colors s i = White")
    case True
    with Cons.prems obtain s1 where s1: "visit ms fuel i s = Some s1" "visit_all ms fuel is s1 = Some s'"
      by (auto split: option.splits)
    have "gray_above ms s i" using Cons.prems(3) by (simp add: gray_above_def)
    from visit_no_removal(1)[OF Cons.prems(1) _ True this s1(1)] Cons.prems
    have "removed s1 = removed s" "\<forall>k. colors s1 k \<noteq> Gray" by auto
    with Cons.IH[OF Cons.prems(1) _ _ s1(2)] Cons.prems(2) show ?thesis by simp
  next
    case False
    with Cons show ?thesis by simp
  qed
qed simp

lemma drop_bad_refs_id:
  assumes "\<forall>i < length ms. refs_ok ms i (m_depends_on (ms ! i))"
  shows "drop_bad_refs ms = ms"
proof -
  have "keep_deps ms (m_key m) [] (m_depends_on m) = m_depends_on m" if m: "m \<in> set ms" for m
  proof -
    obtain i where "i < length ms" "ms ! i = m" using m by (auto simp: in_set_conv_nth)
    with assms show ?thesis by (intro keep_deps_id) (auto simp: refs_ok_def key_indices_nonempty)
  qed
  thus ?thesis by (auto simp: drop_bad_refs_def intro!: map_idI)
qed

lemma apply_removals_nil [simp]: "apply_removals [] ms = ms"
  by (rule nth_equalityI) (auto simp: nth_apply_removals)

lemma sanitize_id: "graph_ok ms \<Longrightarrow> sanitize_move_graph ms = ms"
proof -
  assume ok: "graph_ok ms"
  hence d: "drop_bad_refs ms = ms" by (simp add: graph_ok_def drop_bad_refs_id)
  obtain s :: dfs_state where s: "sanitize_move_graph ms = apply_removals (removed s) ms"
    "visit_all ms (length ms) [0..<length ms] dfs_init = Some s"
    using sanitize_eq[of ms] d by auto
  have "removed s = []"
    using visit_all_no_removal[OF _ _ _ s(2)] ok by (auto simp: graph_ok_def dfs_init_def)
  with s show ?thesis by simp
qed

lemma refs_ok_cong: "m_key ` set ms = m_key ` set ns \<Longrightarrow> m_key (ms ! i) = m_key (ns ! i) \<Longrightarrow> refs_ok ms i ds = refs_ok ns i ds"
  by (simp add: refs_ok_def)

lemma sanitize_ok: "graph_ok (sanitize_move_graph ms)"
proof -
  have k: "m_key ` set (sanitize_move_graph ms) = m_key ` set ms"
    by (metis list.set_map map_key_sanitize)
  have "refs_ok (sanitize_move_graph ms) i (m_depends_on (sanitize_move_graph ms ! i))"
    if i: "i < length ms" for i
  proof -
    obtain ds where "sanitize_move_graph ms ! i = (ms ! i)\<lparr>m_depends_on := ds\<rparr>" "refs_ok ms i ds"
      using sanitize_nth[OF i] by blast
    thus ?thesis using refs_ok_cong[OF k] by simp
  qed
  thus ?thesis by (simp add: graph_ok_def sanitize_acyclic_edges)
qed

section \<open>Properties\<close>

lemma sanitize_pointwise:
  "list_all2 (\<lambda>m m'. m' = m\<lparr>m_depends_on := m_depends_on m'\<rparr> \<and> subseq (m_depends_on m') (m_depends_on m))
     ms (sanitize_move_graph ms)"
proof (rule list_all2_all_nthI)
  fix i assume "i < length ms"
  from sanitize_nth[OF this] show
    "sanitize_move_graph ms ! i = (ms ! i)\<lparr>m_depends_on := m_depends_on (sanitize_move_graph ms ! i)\<rparr> \<and>
     subseq (m_depends_on (sanitize_move_graph ms ! i)) (m_depends_on (ms ! i))"
    by auto
qed simp

text \<open>
  C3: whatever a planner returned, \<open>SanitizeMoveGraph\<close> yields a well-formed dependency DAG
  (no empty, self, dangling or duplicate reference, no cycle, also when several moves share a
  key), keeps the number and the order of the moves, and changes of each move only
  \<open>DependsOn\<close>, from which it only drops entries.
\<close>

theorem sanitize_move_graph_dag:
  "graph_ok (sanitize_move_graph ms) \<and>
   list_all2 (\<lambda>m m'. m' = m\<lparr>m_depends_on := m_depends_on m'\<rparr> \<and> subseq (m_depends_on m') (m_depends_on m))
     ms (sanitize_move_graph ms)"
  by (simp add: sanitize_ok sanitize_pointwise)

text \<open>
  Sanitising is the identity exactly on the well-formed graphs: it removes nothing from a
  plan that needs no repair (so it is idempotent), and repairs every other.
\<close>

theorem sanitize_move_graph_identity:
  "sanitize_move_graph ms = ms \<longleftrightarrow> graph_ok ms"
  using sanitize_id[of ms] sanitize_ok[of ms] by auto

end
