(* ===== verification/Cycle_Check.thy ===== *)
theory Cycle_Check
  imports Move_Graph
begin

text \<open>
  The checks of \<open>internal/domain/move_graph.go\<close> that only report: \<open>findCycle\<close> and
  \<open>MoveGraphIssues\<close>. \<open>findCycle\<close> is the same coloured search as in
  \<open>Move_Graph\<close>, stopping at the first back edge; \<open>find_cycle_spec\<close> says it returns the
  empty text exactly when the graph of the moves is acyclic.
\<close>

section \<open>findCycle and MoveGraphIssues\<close>

record cyc_state =
  cy_colors :: "nat \<Rightarrow> color"
  cy_stack :: "string list"

function (sequential)
  cyc_dfs :: "move list \<Rightarrow> nat \<Rightarrow> nat \<Rightarrow> cyc_state \<Rightarrow> (string \<times> cyc_state) option" and
  cyc_deps :: "move list \<Rightarrow> nat \<Rightarrow> nat \<Rightarrow> string list \<Rightarrow> cyc_state \<Rightarrow> (string \<times> cyc_state) option" and
  cyc_targets :: "move list \<Rightarrow> nat \<Rightarrow> string \<Rightarrow> nat list \<Rightarrow> cyc_state \<Rightarrow> (string \<times> cyc_state) option"
where
  "cyc_dfs ms 0 i s = None"
| "cyc_dfs ms (Suc fuel) i s =
     (case cyc_deps ms fuel i (m_depends_on (ms ! i))
             \<lparr>cy_colors = (cy_colors s)(i := Gray), cy_stack = cy_stack s @ [m_key (ms ! i)]\<rparr> of
        None \<Rightarrow> None
      | Some (c, s') \<Rightarrow>
          if c \<noteq> '''' then Some (c, s')
          else Some ('''', \<lparr>cy_colors = (cy_colors s')(i := Black), cy_stack = butlast (cy_stack s')\<rparr>))"
| "cyc_deps ms fuel i [] s = Some ('''', s)"
| "cyc_deps ms fuel i (dep # deps) s =
     (if dep = '''' \<or> dep = m_key (ms ! i) then cyc_deps ms fuel i deps s
      else case cyc_targets ms fuel dep (key_indices ms dep) s of
        None \<Rightarrow> None
      | Some (c, s') \<Rightarrow> if c \<noteq> '''' then Some (c, s') else cyc_deps ms fuel i deps s')"
| "cyc_targets ms fuel dep [] s = Some ('''', s)"
| "cyc_targets ms fuel dep (j # js) s =
     (case cy_colors s j of
        Gray \<Rightarrow> Some (join_strs '' -> '' (cy_stack s @ [dep]), s)
      | White \<Rightarrow> (case cyc_dfs ms fuel j s of
                    None \<Rightarrow> None
                  | Some (c, s') \<Rightarrow> if c \<noteq> '''' then Some (c, s') else cyc_targets ms fuel dep js s')
      | Black \<Rightarrow> cyc_targets ms fuel dep js s)"
  by pat_completeness auto
termination
  by (relation "measures
        [case_sum (\<lambda>(ms, f, i, s). f) (case_sum (\<lambda>(ms, f, i, ds, s). f) (\<lambda>(ms, f, d, js, s). f)),
         case_sum (\<lambda>_. 0) (case_sum (\<lambda>_. 2) (\<lambda>_. 1)),
         case_sum (\<lambda>_. 0) (case_sum (\<lambda>(ms, f, i, ds, s). length ds) (\<lambda>(ms, f, d, js, s). length js))]")
     auto

fun cyc_all :: "move list \<Rightarrow> nat \<Rightarrow> nat list \<Rightarrow> cyc_state \<Rightarrow> string option" where
  "cyc_all ms fuel [] s = Some ''''"
| "cyc_all ms fuel (i # is) s =
     (if cy_colors s i = White then
        (case cyc_dfs ms fuel i s of
           None \<Rightarrow> None
         | Some (c, s') \<Rightarrow> if c \<noteq> '''' then Some c else cyc_all ms fuel is s')
      else cyc_all ms fuel is s)"

definition cyc_init :: cyc_state where
  "cyc_init = \<lparr>cy_colors = (\<lambda>_. White), cy_stack = []\<rparr>"

definition find_cycle :: "move list \<Rightarrow> string" where
  "find_cycle ms =
     (case cyc_all ms (length ms) [0..<length ms] cyc_init of None \<Rightarrow> '''' | Some c \<Rightarrow> c)"

text \<open>
  The messages of \<open>MoveGraphIssues\<close>; \<open>q\<close> is the quoting of the \<open>%q\<close> verb and
  \<open>dec\<close> the decimal text of an int (\<open>%d\<close>). The map iteration that reports duplicate
  keys has no fixed order; the final sort removes it.
\<close>

definition key_count :: "move list \<Rightarrow> string \<Rightarrow> nat" where
  "key_count ms k = (if k = '''' then 0 else length (filter (\<lambda>m. m_key m = k) ms))"

definition duplicate_issues ::
  "(string \<Rightarrow> string) \<Rightarrow> (nat \<Rightarrow> string) \<Rightarrow> move list \<Rightarrow> string list" where
  "duplicate_issues q dec ms =
     map (\<lambda>k. ''duplicate move key '' @ q k @ '' ('' @ dec (key_count ms k) @ '' moves)'')
       (filter (\<lambda>k. 1 < key_count ms k) (remdups (map m_key ms)))"

definition dep_issues :: "(string \<Rightarrow> string) \<Rightarrow> move list \<Rightarrow> move \<Rightarrow> string list" where
  "dep_issues q ms m =
     concat (map (\<lambda>dep.
       if dep = '''' then [''move '' @ q (m_key m) @ '' has an empty dependency'']
       else if dep = m_key m then [''move '' @ q (m_key m) @ '' depends on itself'']
       else if key_count ms dep = 0
         then [''move '' @ q (m_key m) @ '' depends on unknown key '' @ q dep]
       else []) (m_depends_on m))"

definition move_graph_issues ::
  "(string \<Rightarrow> string) \<Rightarrow> (nat \<Rightarrow> string) \<Rightarrow> move list \<Rightarrow> string list" where
  "move_graph_issues q dec ms =
     sort_by str_less
       (duplicate_issues q dec ms @ concat (map (dep_issues q ms) ms) @
        (if find_cycle ms \<noteq> '''' then [''dependency cycle: '' @ find_cycle ms] else []))"

section \<open>findCycle decides cyclicity\<close>

definition cyc_edges :: "move list \<Rightarrow> (nat \<times> nat) set" where
  "cyc_edges ms =
     {(i, j). i < length ms \<and>
        (\<exists>d \<in> set (m_depends_on (ms ! i)). d \<noteq> '''' \<and> d \<noteq> m_key (ms ! i) \<and> j \<in> set (key_indices ms d))}"

definition col_frame :: "(nat \<Rightarrow> color) \<Rightarrow> (nat \<Rightarrow> color) \<Rightarrow> bool" where
  "col_frame c c' \<longleftrightarrow>
     (\<forall>k. c k \<noteq> White \<longrightarrow> c' k = c k) \<and> (\<forall>k. c k = White \<longrightarrow> c' k \<noteq> Gray)"

definition col_inv :: "(nat \<times> nat) set \<Rightarrow> (nat \<Rightarrow> color) \<Rightarrow> bool" where
  "col_inv E c \<longleftrightarrow>
     (\<forall>i j. c i = Black \<longrightarrow> (i, j) \<in> E \<longrightarrow> c j = Black) \<and> acyclic {(i, j) \<in> E. c i = Black}"

definition col_above :: "(nat \<times> nat) set \<Rightarrow> (nat \<Rightarrow> color) \<Rightarrow> nat \<Rightarrow> bool" where
  "col_above E c i \<longleftrightarrow> (\<forall>k. c k = Gray \<longrightarrow> (k, i) \<in> E\<^sup>*)"

definition col_whites :: "move list \<Rightarrow> (nat \<Rightarrow> color) \<Rightarrow> nat" where
  "col_whites ms c = card {k. k < length ms \<and> c k = White}"

lemma col_frame_refl [simp]: "col_frame c c"
  by (simp add: col_frame_def)

lemma col_frame_trans: "col_frame a b \<Longrightarrow> col_frame b c \<Longrightarrow> col_frame a c"
  unfolding col_frame_def by (metis color.distinct(1))

lemma col_frame_black: "col_frame a b \<Longrightarrow> a k = Black \<Longrightarrow> b k = Black"
  by (simp add: col_frame_def)

lemma col_frame_gray: "col_frame a b \<Longrightarrow> b k = Gray \<longleftrightarrow> a k = Gray"
  unfolding col_frame_def by (metis color.distinct(1))

lemma col_above_frame: "col_frame a b \<Longrightarrow> col_above E a i \<Longrightarrow> col_above E b i"
  by (simp add: col_above_def col_frame_gray)

lemma col_whites_frame: "col_frame a b \<Longrightarrow> col_whites ms b \<le> col_whites ms a"
proof -
  assume f: "col_frame a b"
  have "{k. k < length ms \<and> b k = White} \<subseteq> {k. k < length ms \<and> a k = White}"
    using f by (auto simp: col_frame_def)
  from card_mono[OF _ this] show ?thesis by (simp add: col_whites_def)
qed

lemma col_whites_gray:
  "i < length ms \<Longrightarrow> c i = White \<Longrightarrow> col_whites ms c = Suc (col_whites ms (c(i := Gray)))"
proof -
  assume a: "i < length ms" "c i = White"
  have "{k. k < length ms \<and> c k = White} = insert i {k. k < length ms \<and> (c(i := Gray)) k = White}"
    using a by auto
  thus ?thesis by (simp add: col_whites_def)
qed

lemma col_inv_gray: "col_inv E c \<Longrightarrow> c i = White \<Longrightarrow> col_inv E (c(i := Gray))"
proof -
  assume a: "col_inv E c" "c i = White"
  have "{(k, j) \<in> E. (c(i := Gray)) k = Black} = {(k, j) \<in> E. c k = Black}"
    using a(2) by (auto split: if_splits)
  with a show ?thesis by (auto simp: col_inv_def)
qed

lemma col_inv_black:
  assumes inv: "col_inv E c" and g: "c i = Gray" and fin: "\<forall>j. (i, j) \<in> E \<longrightarrow> c j = Black"
  shows "col_inv E (c(i := Black))"
proof -
  let ?r = "{(k, j) \<in> E. c k = Black}" and ?A = "{j. (i, j) \<in> E}"
  have e: "{(k, j) \<in> E. (c(i := Black)) k = Black} = ?r \<union> {i} \<times> ?A"
    using fin by (auto split: if_splits)
  have "i \<notin> Range ?r" using inv g by (force simp: col_inv_def)
  moreover have "i \<notin> ?A" using fin g by force
  ultimately have "acyclic (?r \<union> {i} \<times> ?A)"
    using inv by (intro acyclic_add_source) (simp_all add: col_inv_def)
  thus ?thesis unfolding col_inv_def e using inv fin by (auto simp: col_inv_def)
qed

lemma join_snoc_nonempty: "d \<noteq> '''' \<Longrightarrow> join_strs sep (xs @ [d]) \<noteq> ''''"
  by (induction sep xs rule: join_strs.induct) auto

lemma cyc_spec:
  "i < length ms \<Longrightarrow> cy_colors s i = White \<Longrightarrow> col_whites ms (cy_colors s) \<le> fuel \<Longrightarrow>
     col_inv (cyc_edges ms) (cy_colors s) \<Longrightarrow> col_above (cyc_edges ms) (cy_colors s) i \<Longrightarrow>
     \<exists>c s'. cyc_dfs ms fuel i s = Some (c, s') \<and>
       (if c \<noteq> '''' then \<not> acyclic (cyc_edges ms)
        else col_frame (cy_colors s) (cy_colors s') \<and> col_inv (cyc_edges ms) (cy_colors s') \<and>
          cy_colors s' i = Black)"
  "i < length ms \<Longrightarrow> cy_colors s i = Gray \<Longrightarrow> col_whites ms (cy_colors s) \<le> fuel \<Longrightarrow>
     col_inv (cyc_edges ms) (cy_colors s) \<Longrightarrow> col_above (cyc_edges ms) (cy_colors s) i \<Longrightarrow>
     set ds \<subseteq> set (m_depends_on (ms ! i)) \<Longrightarrow>
     \<exists>c s'. cyc_deps ms fuel i ds s = Some (c, s') \<and>
       (if c \<noteq> '''' then \<not> acyclic (cyc_edges ms)
        else col_frame (cy_colors s) (cy_colors s') \<and> col_inv (cyc_edges ms) (cy_colors s') \<and>
          (\<forall>d \<in> set ds. d \<noteq> '''' \<longrightarrow> d \<noteq> m_key (ms ! i) \<longrightarrow>
             (\<forall>j \<in> set (key_indices ms d). cy_colors s' j = Black)))"
  "d \<noteq> '''' \<Longrightarrow> cy_colors s i = Gray \<Longrightarrow> col_whites ms (cy_colors s) \<le> fuel \<Longrightarrow>
     col_inv (cyc_edges ms) (cy_colors s) \<Longrightarrow> col_above (cyc_edges ms) (cy_colors s) i \<Longrightarrow>
     \<forall>j \<in> set js. (i, j) \<in> cyc_edges ms \<and> j < length ms \<Longrightarrow>
     \<exists>c s'. cyc_targets ms fuel d js s = Some (c, s') \<and>
       (if c \<noteq> '''' then \<not> acyclic (cyc_edges ms)
        else col_frame (cy_colors s) (cy_colors s') \<and> col_inv (cyc_edges ms) (cy_colors s') \<and>
          (\<forall>j \<in> set js. cy_colors s' j = Black))"
proof (induction ms fuel i s and ms fuel i ds s and ms fuel d js s arbitrary: and and i
    rule: cyc_dfs_cyc_deps_cyc_targets.induct)
  case (1 ms i s)
  then show ?case using col_whites_gray[of i ms "cy_colors s"] by simp
next
  case (2 ms fuel i s)
  let ?E = "cyc_edges ms" and ?c = "(cy_colors s)(i := Gray)"
  let ?s = "\<lparr>cy_colors = ?c, cy_stack = cy_stack s @ [m_key (ms ! i)]\<rparr>"
  have g: "cy_colors ?s i = Gray" by simp
  have w: "col_whites ms (cy_colors ?s) \<le> fuel"
    using 2(2-4) col_whites_gray[of i ms "cy_colors s"] by simp
  have v: "col_inv ?E (cy_colors ?s)" using col_inv_gray[OF 2(5,3)] by simp
  have a: "col_above ?E (cy_colors ?s) i" using 2(6) by (auto simp: col_above_def)
  from 2(1)[OF 2(2) g w v a subset_refl] obtain c s1 where
    r: "cyc_deps ms fuel i (m_depends_on (ms ! i)) ?s = Some (c, s1)" and
    p: "if c \<noteq> '''' then \<not> acyclic ?E
        else col_frame (cy_colors ?s) (cy_colors s1) \<and> col_inv ?E (cy_colors s1) \<and>
          (\<forall>d \<in> set (m_depends_on (ms ! i)). d \<noteq> '''' \<longrightarrow> d \<noteq> m_key (ms ! i) \<longrightarrow>
             (\<forall>j \<in> set (key_indices ms d). cy_colors s1 j = Black))"
    by blast
  show ?case
  proof (cases "c = ''''")
    case False
    with r p show ?thesis by auto
  next
    case True
    with p have f: "col_frame ?c (cy_colors s1)" and inv: "col_inv ?E (cy_colors s1)"
      and b: "\<forall>j. (i, j) \<in> ?E \<longrightarrow> cy_colors s1 j = Black"
      by (auto simp: cyc_edges_def)
    have g: "cy_colors s1 i = Gray" using f by (simp add: col_frame_def)
    have "col_frame (cy_colors s) ((cy_colors s1)(i := Black))"
      using f 2(3) unfolding col_frame_def by auto
    with r True col_inv_black[OF inv g b] show ?thesis by auto
  qed
next
  case (3 ms fuel i s)
  then show ?case by auto
next
  case (4 ms fuel i d ds s)
  have sub: "set ds \<subseteq> set (m_depends_on (ms ! i))" using 4(9) by simp
  show ?case
  proof (cases "d = '''' \<or> d = m_key (ms ! i)")
    case True
    from 4(1)[OF True 4(4-8) sub] obtain c s' where
      r: "cyc_deps ms fuel i ds s = Some (c, s')" and
      p: "if c \<noteq> '''' then \<not> acyclic (cyc_edges ms)
        else col_frame (cy_colors s) (cy_colors s') \<and> col_inv (cyc_edges ms) (cy_colors s') \<and>
          (\<forall>d \<in> set ds. d \<noteq> '''' \<longrightarrow> d \<noteq> m_key (ms ! i) \<longrightarrow>
             (\<forall>j \<in> set (key_indices ms d). cy_colors s' j = Black))" by blast
    have "cyc_deps ms fuel i (d # ds) s = Some (c, s')" using r True by simp
    with p True show ?thesis by (cases "c = ''''") auto
  next
    case False
    have js: "\<forall>j \<in> set (key_indices ms d). (i, j) \<in> cyc_edges ms \<and> j < length ms"
      using False 4(4,9) by (auto simp: cyc_edges_def dest: key_indices_bound)
    obtain c s1 where r: "cyc_targets ms fuel d (key_indices ms d) s = Some (c, s1)" and
      p: "if c \<noteq> '''' then \<not> acyclic (cyc_edges ms)
        else col_frame (cy_colors s) (cy_colors s1) \<and> col_inv (cyc_edges ms) (cy_colors s1) \<and>
          (\<forall>j \<in> set (key_indices ms d). cy_colors s1 j = Black)"
      using 4(2)[OF False _ 4(5-8) js] False by blast
    show ?thesis
    proof (cases "c = ''''")
      case c: False
      with False r p show ?thesis by auto
    next
      case True
      with p have f: "col_frame (cy_colors s) (cy_colors s1)" and inv: "col_inv (cyc_edges ms) (cy_colors s1)"
        and b: "\<forall>j \<in> set (key_indices ms d). cy_colors s1 j = Black" by auto
      have g1: "cy_colors s1 i = Gray" using f 4(5) by (simp add: col_frame_def)
      have w1: "col_whites ms (cy_colors s1) \<le> fuel" using col_whites_frame[OF f, of ms] 4(6) by linarith
      obtain c' s' where r': "cyc_deps ms fuel i ds s1 = Some (c', s')" and
        p': "if c' \<noteq> '''' then \<not> acyclic (cyc_edges ms)
        else col_frame (cy_colors s1) (cy_colors s') \<and> col_inv (cyc_edges ms) (cy_colors s') \<and>
          (\<forall>d \<in> set ds. d \<noteq> '''' \<longrightarrow> d \<noteq> m_key (ms ! i) \<longrightarrow>
             (\<forall>j \<in> set (key_indices ms d). cy_colors s' j = Black))"
        using 4(3)[OF False r refl _ 4(4) g1 w1 inv col_above_frame[OF f 4(8)] sub] True by blast
      have e: "cyc_deps ms fuel i (d # ds) s = Some (c', s')" using False r True r' by simp
      have "\<forall>j \<in> set (key_indices ms d). cy_colors s' j = Black" if "c' = ''''"
        using p' that b col_frame_black by auto
      with e p' col_frame_trans[OF f] show ?thesis by (cases "c' = ''''") auto
    qed
  qed
next
  case (5 ms fuel d s)
  then show ?case by auto
next
  case (6 ms fuel d j js s)
  have ij: "(i, j) \<in> cyc_edges ms" "j < length ms"
    and js: "\<forall>j \<in> set js. (i, j) \<in> cyc_edges ms \<and> j < length ms" using 6(9) by auto
  show ?case
  proof (cases "cy_colors s j")
    case Gray
    hence "(j, i) \<in> (cyc_edges ms)\<^sup>*" using 6(8) by (simp add: col_above_def)
    with ij(1) have "(i, i) \<in> (cyc_edges ms)\<^sup>+" by (rule rtrancl_into_trancl2)
    hence "\<not> acyclic (cyc_edges ms)" by (auto simp: acyclic_def)
    with Gray join_snoc_nonempty[OF 6(4)] show ?thesis by auto
  next
    case White
    have "col_above (cyc_edges ms) (cy_colors s) j"
      using 6(8) ij(1) by (auto simp: col_above_def intro: rtrancl_into_rtrancl)
    then obtain c s1 where r: "cyc_dfs ms fuel j s = Some (c, s1)" and
      p: "if c \<noteq> '''' then \<not> acyclic (cyc_edges ms)
        else col_frame (cy_colors s) (cy_colors s1) \<and> col_inv (cyc_edges ms) (cy_colors s1) \<and>
          cy_colors s1 j = Black"
      using 6(1)[OF White ij(2) White 6(6,7)] by blast
    show ?thesis
    proof (cases "c = ''''")
      case c: False
      with White r p show ?thesis by auto
    next
      case True
      with p have f: "col_frame (cy_colors s) (cy_colors s1)" and inv: "col_inv (cyc_edges ms) (cy_colors s1)"
        and b: "cy_colors s1 j = Black" by auto
      have g1: "cy_colors s1 i = Gray" using f 6(5) by (simp add: col_frame_def)
      have w1: "col_whites ms (cy_colors s1) \<le> fuel" using col_whites_frame[OF f, of ms] 6(6) by linarith
      obtain c' s' where r': "cyc_targets ms fuel d js s1 = Some (c', s')" and
        p': "if c' \<noteq> '''' then \<not> acyclic (cyc_edges ms)
        else col_frame (cy_colors s1) (cy_colors s') \<and> col_inv (cyc_edges ms) (cy_colors s') \<and>
          (\<forall>j \<in> set js. cy_colors s' j = Black)"
        using 6(2)[OF White r refl _ 6(4) g1 w1 inv col_above_frame[OF f 6(8)] js] True by blast
      have e: "cyc_targets ms fuel d (j # js) s = Some (c', s')" using White r True r' by simp
      have "cy_colors s' j = Black" if "c' = ''''" using p' that b col_frame_black by auto
      with e p' col_frame_trans[OF f] show ?thesis by (cases "c' = ''''") auto
    qed
  next
    case Black
    from 6(3)[OF Black 6(4-8) js] obtain c s' where
      r: "cyc_targets ms fuel d js s = Some (c, s')" and
      p: "if c \<noteq> '''' then \<not> acyclic (cyc_edges ms)
        else col_frame (cy_colors s) (cy_colors s') \<and> col_inv (cyc_edges ms) (cy_colors s') \<and>
          (\<forall>j \<in> set js. cy_colors s' j = Black)" by blast
    have "cy_colors s' j = Black" if "c = ''''" using p that Black col_frame_black by auto
    with r p Black show ?thesis by (cases "c = ''''") auto
  qed
qed

lemma cyc_all_spec:
  "\<forall>i \<in> set is. i < length ms \<Longrightarrow> col_whites ms (cy_colors s) \<le> fuel \<Longrightarrow>
   col_inv (cyc_edges ms) (cy_colors s) \<Longrightarrow> \<forall>k. cy_colors s k \<noteq> Gray \<Longrightarrow>
   \<exists>c. cyc_all ms fuel is s = Some c \<and>
     (if c \<noteq> '''' then \<not> acyclic (cyc_edges ms)
      else \<exists>col. col_frame (cy_colors s) col \<and> col_inv (cyc_edges ms) col \<and> (\<forall>i \<in> set is. col i = Black))"
proof (induction "is" arbitrary: s)
  case Nil
  then show ?case by (auto intro!: exI[of _ "cy_colors s"])
next
  case (Cons i "is")
  have idx: "\<forall>i \<in> set is. i < length ms" using Cons.prems(1) by simp
  show ?case
  proof (cases "cy_colors s i = White")
    case False
    hence b: "cy_colors s i = Black" using Cons.prems(4) by (cases "cy_colors s i") auto
    from Cons.IH[OF idx Cons.prems(2-4)] obtain c where c: "cyc_all ms fuel is s = Some c"
      "if c \<noteq> '''' then \<not> acyclic (cyc_edges ms)
      else \<exists>col. col_frame (cy_colors s) col \<and> col_inv (cyc_edges ms) col \<and> (\<forall>i \<in> set is. col i = Black)"
      by blast
    with False b show ?thesis
      by (cases "c = ''''") (auto intro: col_frame_black)
  next
    case True
    have "col_above (cyc_edges ms) (cy_colors s) i" using Cons.prems(4) by (simp add: col_above_def)
    from cyc_spec(1)[OF _ True Cons.prems(2,3) this] Cons.prems(1) obtain c s1 where
      r: "cyc_dfs ms fuel i s = Some (c, s1)" and
      p: "if c \<noteq> '''' then \<not> acyclic (cyc_edges ms)
        else col_frame (cy_colors s) (cy_colors s1) \<and> col_inv (cyc_edges ms) (cy_colors s1) \<and>
          cy_colors s1 i = Black" by auto
    show ?thesis
    proof (cases "c = ''''")
      case c: False
      with True r p show ?thesis by auto
    next
      case c: True
      with p have f: "col_frame (cy_colors s) (cy_colors s1)" and inv: "col_inv (cyc_edges ms) (cy_colors s1)"
        and b: "cy_colors s1 i = Black" by auto
      have w1: "col_whites ms (cy_colors s1) \<le> fuel"
        using col_whites_frame[OF f, of ms] Cons.prems(2) by linarith
      have "\<forall>k. cy_colors s1 k \<noteq> Gray" using Cons.prems(4) col_frame_gray[OF f] by blast
      from Cons.IH[OF idx w1 inv this] obtain c' where c': "cyc_all ms fuel is s1 = Some c'"
        "if c' \<noteq> '''' then \<not> acyclic (cyc_edges ms)
         else \<exists>col. col_frame (cy_colors s1) col \<and> col_inv (cyc_edges ms) col \<and> (\<forall>i \<in> set is. col i = Black)"
        by blast
      have "cyc_all ms fuel (i # is) s = Some c'" using True r c c' by simp
      with c' b show ?thesis
        by (cases "c' = ''''") (auto dest: col_frame_trans[OF f] intro: col_frame_black)
    qed
  qed
qed

lemma find_cycle_spec: "find_cycle ms = '''' \<longleftrightarrow> acyclic (cyc_edges ms)"
proof -
  let ?E = "cyc_edges ms"
  have w: "col_whites ms (cy_colors cyc_init) \<le> length ms"
    using card_Collect_less_nat[of "length ms"] by (simp add: col_whites_def cyc_init_def)
  have i: "col_inv ?E (cy_colors cyc_init)" by (simp add: col_inv_def cyc_init_def acyclic_def)
  obtain c where c: "cyc_all ms (length ms) [0..<length ms] cyc_init = Some c"
    "if c \<noteq> '''' then \<not> acyclic ?E
     else \<exists>col. col_frame (cy_colors cyc_init) col \<and> col_inv ?E col \<and>
       (\<forall>i \<in> set [0..<length ms]. col i = Black)"
    using cyc_all_spec[of "[0..<length ms]" ms cyc_init "length ms", OF _ w i]
    by (auto simp: cyc_init_def)
  have "acyclic ?E" if "col_inv ?E col" "\<forall>i \<in> set [0..<length ms]. col i = Black" for col
  proof -
    have "?E \<subseteq> {(i, j) \<in> ?E. col i = Black}" using that(2) by (auto simp: cyc_edges_def)
    with that(1) show ?thesis by (auto simp: col_inv_def intro: acyclic_subset)
  qed
  with c show ?thesis by (auto simp: find_cycle_def split: if_splits)
qed

section \<open>What MoveGraphIssues reports\<close>

definition no_duplicate_keys :: "move list \<Rightarrow> bool" where
  "no_duplicate_keys ms \<longleftrightarrow> distinct (filter (\<lambda>k. k \<noteq> '''') (map m_key ms))"

definition dep_ok :: "move list \<Rightarrow> move \<Rightarrow> string \<Rightarrow> bool" where
  "dep_ok ms m d \<longleftrightarrow> d \<noteq> '''' \<and> d \<noteq> m_key m \<and> d \<in> m_key ` set ms"

lemma key_count_0: "d \<noteq> '''' \<Longrightarrow> key_count ms d = 0 \<longleftrightarrow> d \<notin> m_key ` set ms"
  by (auto simp: key_count_def filter_empty_conv)

lemma dep_issues_empty: "dep_issues q ms m = [] \<longleftrightarrow> list_all (dep_ok ms m) (m_depends_on m)"
proof -
  have "(if d = '''' then [''move '' @ q (m_key m) @ '' has an empty dependency'']
       else if d = m_key m then [''move '' @ q (m_key m) @ '' depends on itself'']
       else if key_count ms d = 0
         then [''move '' @ q (m_key m) @ '' depends on unknown key '' @ q d]
       else []) = [] \<longleftrightarrow> dep_ok ms m d" for d
    by (cases "d = ''''") (simp_all only: dep_ok_def key_count_0 if_True if_False not_Cons_self2
        list.simps simp_thms split: if_splits, blast)
  thus ?thesis
    by (simp only: dep_issues_def concat_eq_Nil_conv list_all_iff set_map ball_simps(9) o_def)
qed

lemma distinct_iff_count_le: "distinct xs \<longleftrightarrow> (\<forall>x. length (filter (\<lambda>y. y = x) xs) \<le> 1)"
proof (induction xs)
  case (Cons a xs)
  have a: "a \<notin> set xs \<longleftrightarrow> length (filter (\<lambda>y. y = a) xs) = 0" by (auto simp: filter_empty_conv)
  have "(\<forall>x. length (filter (\<lambda>y. y = x) (a # xs)) \<le> 1) \<longleftrightarrow>
        length (filter (\<lambda>y. y = a) xs) = 0 \<and> (\<forall>x. length (filter (\<lambda>y. y = x) xs) \<le> 1)"
    (is "?l \<longleftrightarrow> ?r")
  proof
    assume l: ?l
    have "length (filter (\<lambda>y. y = x) xs) \<le> 1" for x
      using spec[OF l, of x] by (simp split: if_splits)
    with spec[OF l, of a] show ?r by simp
  qed auto
  thus ?case unfolding distinct.simps a Cons by blast
qed simp

lemma key_count_filter:
  "k \<noteq> '''' \<Longrightarrow> key_count ms k = length (filter (\<lambda>y. y = k) (filter (\<lambda>k. k \<noteq> '''') (map m_key ms)))"
  by (induction ms) (auto simp: key_count_def)

lemma duplicate_issues_empty: "duplicate_issues q dec ms = [] \<longleftrightarrow> no_duplicate_keys ms"
proof -
  let ?ks = "filter (\<lambda>k. k \<noteq> '''') (map m_key ms)"
  have c: "key_count ms k \<le> 1 \<longleftrightarrow> length (filter (\<lambda>y. y = k) ?ks) \<le> 1" for k
  proof (cases "k = ''''")
    case True
    hence "filter (\<lambda>y. y = k) ?ks = []" by (auto simp: filter_empty_conv)
    with True show ?thesis by (simp add: key_count_def)
  qed (simp only: key_count_filter not_False_eq_True)
  have "key_count ms k \<le> 1" if "k \<notin> m_key ` set ms" for k
  proof -
    have "filter (\<lambda>m. m_key m = k) ms = []" using that by (auto simp: filter_empty_conv)
    thus ?thesis by (simp add: key_count_def)
  qed
  hence "duplicate_issues q dec ms = [] \<longleftrightarrow> (\<forall>k. key_count ms k \<le> 1)"
    unfolding duplicate_issues_def map_is_Nil_conv filter_empty_conv set_remdups set_map
    by (meson not_le)
  also have "\<dots> \<longleftrightarrow> no_duplicate_keys ms"
    unfolding no_duplicate_keys_def distinct_iff_count_le c ..
  finally show ?thesis .
qed

lemma cyc_edges_ok:
  assumes "list_all (\<lambda>m. list_all (dep_ok ms m) (m_depends_on m)) ms"
  shows "cyc_edges ms = dep_edges ms"
proof -
  have "d \<noteq> '''' \<and> d \<noteq> m_key (ms ! i)" if "i < length ms" "d \<in> set (m_depends_on (ms ! i))" for i d
    using assms that by (auto simp: list_all_iff dep_ok_def)
  thus ?thesis by (auto simp: cyc_edges_def dep_edges_def)
qed

lemma move_graph_issues_empty:
  "move_graph_issues q dec ms = [] \<longleftrightarrow>
     no_duplicate_keys ms \<and> list_all (\<lambda>m. list_all (dep_ok ms m) (m_depends_on m)) ms \<and>
     acyclic (dep_edges ms)"
proof -
  have "move_graph_issues q dec ms = [] \<longleftrightarrow>
     no_duplicate_keys ms \<and> list_all (\<lambda>m. list_all (dep_ok ms m) (m_depends_on m)) ms \<and>
     acyclic (cyc_edges ms)"
  proof -
    have "sort_by str_less xs = [] \<longleftrightarrow> xs = []" for xs
      by (metis length_0_conv length_sort_by)
    thus ?thesis
      by (simp add: move_graph_issues_def duplicate_issues_empty find_cycle_spec)
         (simp add: list_all_iff dep_issues_empty)
  qed
  thus ?thesis using cyc_edges_ok[of ms] by auto
qed

text \<open>
  C17: \<open>MoveGraphIssues\<close> reports nothing exactly when the non-empty keys are unique, every
  reference names another existing move, and the graph has no cycle (its depth-first search
  decides cyclicity); after \<open>SanitizeMoveGraph\<close> the only issue left to report is a
  duplicated key.
\<close>

theorem move_graph_issues_sound_complete:
  "(move_graph_issues q dec ms = [] \<longleftrightarrow>
     no_duplicate_keys ms \<and> list_all (\<lambda>m. list_all (dep_ok ms m) (m_depends_on m)) ms \<and>
     acyclic (dep_edges ms)) \<and>
   (move_graph_issues q dec (sanitize_move_graph ms) = [] \<longleftrightarrow> no_duplicate_keys ms)"
proof -
  let ?s = "sanitize_move_graph ms"
  have "list_all (\<lambda>m. list_all (dep_ok ?s m) (m_depends_on m)) ?s \<and> acyclic (dep_edges ?s)"
    using sanitize_ok[of ms] by (auto simp: graph_ok_def list_all_length refs_ok_def dep_ok_def)
  moreover have "no_duplicate_keys ?s = no_duplicate_keys ms"
    by (simp add: no_duplicate_keys_def)
  ultimately show ?thesis by (simp add: move_graph_issues_empty)
qed

end
