(* ===== verification/Storage.thy ===== *)
theory Storage
  imports Domain "HOL-Library.AList"
begin

text \<open>
  The in-memory repository of \<open>internal/storage\<close>: its state, every operation of
  \<open>MemoryRepository\<close>, the copy helpers of \<open>clone.go\<close>, paging, and \<open>Tx\<close>. A Go map
  that is only looked up is a HOL map; a map that is also iterated is an association list with
  distinct keys, whose order stands for the iteration order (the results are proved not to
  depend on it). The mutex makes each operation one step. A write returns the error, if any,
  with the new state.
\<close>

section \<open>Copy helpers\<close>

text \<open>Values have no identity here, so each copy is proved equal to its argument.\<close>

definition clone_strings :: "string list \<Rightarrow> string list" where
  "clone_strings xs = map (\<lambda>s. s) xs"

definition clone_player :: "player \<Rightarrow> player" where
  "clone_player p = p\<lparr>pl_metadata := map (\<lambda>(k, v). (k, v)) (pl_metadata p)\<rparr>"

definition clone_context :: "goal_context \<Rightarrow> goal_context" where
  "clone_context c =
     c\<lparr>cx_facts := clone_strings (cx_facts c), cx_assets := map (\<lambda>a. a) (cx_assets c),
       cx_constraints := map (\<lambda>a. a) (cx_constraints c)\<rparr>"

definition clone_goal :: "goal \<Rightarrow> goal" where
  "clone_goal g =
     g\<lparr>g_context := clone_context (g_context g), g_resolution := map_option (\<lambda>r. r) (g_resolution g)\<rparr>"

definition clone_move :: "move \<Rightarrow> move" where
  "clone_move m =
     m\<lparr>m_fallback_moves := clone_strings (m_fallback_moves m),
       m_depends_on := clone_strings (m_depends_on m),
       m_experiment := (m_experiment m)
         \<lparr>ex_success_signals := clone_strings (ex_success_signals (m_experiment m)),
          ex_kill_criteria := clone_strings (ex_kill_criteria (m_experiment m))\<rparr>\<rparr>"

definition clone_plan_version :: "plan_version \<Rightarrow> plan_version" where
  "clone_plan_version v = v\<lparr>v_ranked_moves := map clone_move (v_ranked_moves v)\<rparr>"

definition clone_signal :: "signal \<Rightarrow> signal" where
  "clone_signal s =
     s\<lparr>s_payload := map (\<lambda>(k, v). (k, v)) (s_payload s),
       s_processed_at := map_option (\<lambda>t. t) (s_processed_at s)\<rparr>"

definition clone_outcome :: "outcome \<Rightarrow> outcome" where
  "clone_outcome o' = o'\<lparr>o_observed_signals := clone_strings (o_observed_signals o')\<rparr>"

lemma clone_ids [simp]:
  "clone_strings xs = xs" "clone_player p = p" "clone_context c = c" "clone_goal g = g"
  "clone_move m = m" "clone_plan_version v = v" "clone_signal s = s" "clone_outcome o' = o'"
proof -
  show c: "clone_strings xs = xs" for xs by (simp add: clone_strings_def)
  show m: "clone_move m = m" for m by (simp add: clone_move_def c)
  show x: "clone_context c = c" for c by (simp add: clone_context_def c)
  show "clone_plan_version v = v" by (simp add: clone_plan_version_def m map_idI)
  show "clone_goal g = g" by (simp add: clone_goal_def x option.map_ident)
  show "clone_player p = p" "clone_outcome o' = o'"
    by (simp_all add: clone_player_def clone_outcome_def c)
  show "clone_signal s = s" by (simp add: clone_signal_def option.map_ident)
qed

section \<open>Paging\<close>

definition DefaultPageLimit :: int where "DefaultPageLimit = 50"
definition MaxPageLimit :: int where "MaxPageLimit = 200"

record page =
  pg_limit :: int
  pg_offset :: int

definition page_normalize :: "page \<Rightarrow> page" where
  "page_normalize p =
     (let p1 = (if pg_limit p \<le> 0 then p\<lparr>pg_limit := DefaultPageLimit\<rparr> else p);
          p2 = (if MaxPageLimit < pg_limit p1 then p1\<lparr>pg_limit := MaxPageLimit\<rparr> else p1)
      in if pg_offset p2 < 0 then p2\<lparr>pg_offset := 0\<rparr> else p2)"

definition window :: "int \<Rightarrow> page \<Rightarrow> int \<times> int" where
  "window n p =
     (let lo = (if n < pg_offset p then n else pg_offset p);
          hi = (if n < lo + pg_limit p then n else lo + pg_limit p)
      in (lo, hi))"

text \<open>\<open>in[lo:hi]\<close>, which panics outside \<open>0 \<le> lo \<le> hi \<le> len\<close>: None.\<close>

definition slice :: "'a list \<Rightarrow> int \<Rightarrow> int \<Rightarrow> 'a list option" where
  "slice xs lo hi =
     (if 0 \<le> lo \<and> lo \<le> hi \<and> hi \<le> int (length xs) then Some (take (nat (hi - lo)) (drop (nat lo) xs))
      else None)"

definition paginate :: "'a list \<Rightarrow> page \<Rightarrow> 'a list" where
  "paginate xs p =
     (let (lo, hi) = window (int (length xs)) p in case slice xs lo hi of Some ys \<Rightarrow> ys | None \<Rightarrow> [])"

section \<open>The store\<close>

record mem_repo =
  players :: "string \<Rightarrow> player option"
  goals :: "(string \<times> goal) list"
  plans :: "string \<Rightarrow> plan option"
  by_goal :: "string \<Rightarrow> string option"
  versions :: "string \<Rightarrow> (int \<times> plan_version) list option"
  signals :: "signal list"
  outcomes :: "outcome list"

definition new_memory :: mem_repo where
  "new_memory =
     \<lparr>players = Map.empty, goals = [], plans = Map.empty, by_goal = Map.empty,
      versions = Map.empty, signals = [], outcomes = []\<rparr>"

definition snapshot_locked :: "mem_repo \<Rightarrow> mem_repo" where
  "snapshot_locked m =
     \<lparr>players = (\<lambda>k. map_option clone_player (players m k)),
      goals = map (\<lambda>(k, v). (k, clone_goal v)) (goals m),
      plans = plans m, by_goal = by_goal m,
      versions = (\<lambda>k. map_option (map (\<lambda>(n, v). (n, clone_plan_version v))) (versions m k)),
      signals = map clone_signal (signals m),
      outcomes = map clone_outcome (outcomes m)\<rparr>"

definition adopt_locked :: "mem_repo \<Rightarrow> mem_repo \<Rightarrow> mem_repo" where
  "adopt_locked m s =
     m\<lparr>players := players s, goals := goals s, plans := plans s, by_goal := by_goal s,
       versions := versions s, signals := signals s, outcomes := outcomes s\<rparr>"

text \<open>A use case run in a transaction returns its error, if any, and the staged store.\<close>

definition repo_tx ::
  "(mem_repo \<Rightarrow> go_error option \<times> mem_repo) \<Rightarrow> mem_repo \<Rightarrow> go_error option \<times> mem_repo" where
  "repo_tx fn m =
     (case fn (snapshot_locked m) of
        (Some err, _) \<Rightarrow> (Some err, m)
      | (None, staged) \<Rightarrow> (None, adopt_locked m staged))"

subsection \<open>Players and goals\<close>

definition create_player :: "player \<Rightarrow> mem_repo \<Rightarrow> go_error option \<times> mem_repo" where
  "create_player p m =
     (if players m (pl_id p) \<noteq> None then (Some EConflict, m)
      else (None, m\<lparr>players := (players m)(pl_id p \<mapsto> clone_player p)\<rparr>))"

definition get_player :: "string \<Rightarrow> mem_repo \<Rightarrow> go_error + player" where
  "get_player i m = (case players m i of None \<Rightarrow> Inl ENotFound | Some p \<Rightarrow> Inr (clone_player p))"

definition create_goal :: "goal \<Rightarrow> mem_repo \<Rightarrow> go_error option \<times> mem_repo" where
  "create_goal g m =
     (if map_of (goals m) (g_id g) \<noteq> None then (Some EConflict, m)
      else (None, m\<lparr>goals := AList.update (g_id g) (clone_goal g) (goals m)\<rparr>))"

definition get_goal :: "string \<Rightarrow> mem_repo \<Rightarrow> go_error + goal" where
  "get_goal i m = (case map_of (goals m) i of None \<Rightarrow> Inl ENotFound | Some g \<Rightarrow> Inr (clone_goal g))"

definition update_goal_status ::
  "string \<Rightarrow> goal_status \<Rightarrow> goal_status \<Rightarrow> resolution option \<Rightarrow> time \<Rightarrow> mem_repo \<Rightarrow>
   go_error option \<times> mem_repo" where
  "update_goal_status i expected status res updated_at m =
     (case map_of (goals m) i of
        None \<Rightarrow> (Some ENotFound, m)
      | Some g \<Rightarrow>
          if g_status g \<noteq> expected then (Some EConflict, m)
          else (None, m\<lparr>goals := AList.update i
                 (clone_goal (g\<lparr>g_status := status, g_resolution := res, g_updated_at := updated_at\<rparr>))
                 (goals m)\<rparr>))"

definition goal_matches_status :: "goal \<Rightarrow> goal_status \<Rightarrow> bool" where
  "goal_matches_status g want =
     (if want = '''' then True
      else (if g_status g = '''' then GoalActive else g_status g) = want)"

text \<open>Newest first, by identifier among goals created at the same time.\<close>

definition goal_before :: "goal \<Rightarrow> goal \<Rightarrow> bool" where
  "goal_before a b =
     (if g_created_at a = g_created_at b then str_less (g_id a) (g_id b)
      else g_created_at b < g_created_at a)"

definition list_goals :: "goal_status \<Rightarrow> page \<Rightarrow> mem_repo \<Rightarrow> goal list" where
  "list_goals want pg m =
     paginate
       (sort_by goal_before
          (map (\<lambda>(k, g). clone_goal g) (filter (\<lambda>(k, g). goal_matches_status g want) (goals m))))
       (page_normalize pg)"

subsection \<open>Plans and versions\<close>

definition create_plan :: "plan \<Rightarrow> mem_repo \<Rightarrow> go_error option \<times> mem_repo" where
  "create_plan p m =
     (if plans m (p_id p) \<noteq> None then (Some EConflict, m)
      else
        let m1 = m\<lparr>plans := (plans m)(p_id p \<mapsto> p), by_goal := (by_goal m)(p_goal_id p \<mapsto> p_id p)\<rparr>
        in (None, if versions m1 (p_id p) = None
                  then m1\<lparr>versions := (versions m1)(p_id p \<mapsto> [])\<rparr> else m1))"

definition get_plan :: "string \<Rightarrow> mem_repo \<Rightarrow> go_error + plan" where
  "get_plan i m = (case plans m i of None \<Rightarrow> Inl ENotFound | Some p \<Rightarrow> Inr p)"

definition zero_plan :: plan where
  "zero_plan = \<lparr>p_id = '''', p_goal_id = '''', p_current_version = 0, p_created_at = zero_time,
     p_updated_at = zero_time\<rparr>"

definition get_plan_by_goal :: "string \<Rightarrow> mem_repo \<Rightarrow> go_error + plan" where
  "get_plan_by_goal gid m =
     (case by_goal m gid of
        None \<Rightarrow> Inl ENotFound
      | Some pid \<Rightarrow> Inr (case plans m pid of None \<Rightarrow> zero_plan | Some p \<Rightarrow> p))"

definition create_plan_version :: "plan_version \<Rightarrow> mem_repo \<Rightarrow> go_error option \<times> mem_repo" where
  "create_plan_version v m =
     (case plans m (v_plan_id v) of
        None \<Rightarrow> (Some ENotFound, m)
      | Some p \<Rightarrow>
          let m1 = (if versions m (v_plan_id v) = None
                    then m\<lparr>versions := (versions m)(v_plan_id v \<mapsto> [])\<rparr> else m);
              vs = (case versions m1 (v_plan_id v) of None \<Rightarrow> [] | Some vs \<Rightarrow> vs)
          in if map_of vs (v_version v) \<noteq> None then (Some EConflict, m1)
             else
               let m2 = m1\<lparr>versions := (versions m1)
                          (v_plan_id v \<mapsto> AList.update (v_version v) (clone_plan_version v) vs)\<rparr>
               in (None,
                   if p_current_version p < v_version v
                   then m2\<lparr>plans := (plans m2)(v_plan_id v \<mapsto>
                          p\<lparr>p_current_version := v_version v, p_updated_at := v_created_at v\<rparr>)\<rparr>
                   else m2))"

definition get_plan_version :: "string \<Rightarrow> int \<Rightarrow> mem_repo \<Rightarrow> go_error + plan_version" where
  "get_plan_version pid n m =
     (case versions m pid of
        None \<Rightarrow> Inl ENotFound
      | Some vs \<Rightarrow> (case map_of vs n of None \<Rightarrow> Inl ENotFound | Some v \<Rightarrow> Inr (clone_plan_version v)))"

definition get_current_plan_version :: "string \<Rightarrow> mem_repo \<Rightarrow> go_error + plan_version" where
  "get_current_plan_version pid m =
     (case plans m pid of
        None \<Rightarrow> Inl ENotFound
      | Some p \<Rightarrow>
          (case map_of (case versions m pid of None \<Rightarrow> [] | Some vs \<Rightarrow> vs) (p_current_version p) of
             None \<Rightarrow> Inl ENotFound
           | Some v \<Rightarrow> Inr (clone_plan_version v)))"

definition list_plan_versions :: "string \<Rightarrow> page \<Rightarrow> mem_repo \<Rightarrow> go_error + plan_version list" where
  "list_plan_versions pid pg m =
     (case versions m pid of
        None \<Rightarrow> (if plans m pid = None then Inl ENotFound else Inr [])
      | Some vs \<Rightarrow>
          Inr (paginate
                 (sort_by (\<lambda>a b. v_version a < v_version b) (map (\<lambda>(n, v). clone_plan_version v) vs))
                 (page_normalize pg)))"

subsection \<open>Signals and outcomes\<close>

definition create_signal :: "signal \<Rightarrow> mem_repo \<Rightarrow> go_error option \<times> mem_repo" where
  "create_signal s m = (None, m\<lparr>signals := signals m @ [clone_signal s]\<rparr>)"

definition get_signal :: "string \<Rightarrow> mem_repo \<Rightarrow> go_error + signal" where
  "get_signal i m =
     (case List.find (\<lambda>s. s_id s = i) (signals m) of
        None \<Rightarrow> Inl ENotFound
      | Some s \<Rightarrow> Inr (clone_signal s))"

definition mark_signal_processed ::
  "string \<Rightarrow> string \<Rightarrow> int \<Rightarrow> string \<Rightarrow> string \<Rightarrow> time \<Rightarrow> mem_repo \<Rightarrow> go_error option \<times> mem_repo" where
  "mark_signal_processed i status result_version reason err_msg tm m =
     (case find_idx (\<lambda>s. s_id s = i) (signals m) of
        None \<Rightarrow> (Some ENotFound, m)
      | Some k \<Rightarrow>
          (None, m\<lparr>signals := (signals m)[k := (signals m ! k)
                    \<lparr>s_status := status, s_result_version := result_version, s_reason := reason,
                     s_error := err_msg, s_processed_at := Some tm\<rparr>]\<rparr>))"

definition signal_pending :: "signal \<Rightarrow> bool" where
  "signal_pending s \<longleftrightarrow> s_status s = ''pending'' \<or> s_status s = ''''"

text \<open>The loop collects into \<open>out\<close> and breaks once it holds \<open>limit\<close> signals.\<close>

fun pending_loop :: "int \<Rightarrow> signal list \<Rightarrow> signal list \<Rightarrow> signal list" where
  "pending_loop limit out [] = out"
| "pending_loop limit out (s # ss) =
     (if signal_pending s then
        let out' = out @ [clone_signal s]
        in if limit \<le> int (length out') then out' else pending_loop limit out' ss
      else pending_loop limit out ss)"

definition list_pending_signals :: "int \<Rightarrow> mem_repo \<Rightarrow> signal list" where
  "list_pending_signals limit m = (if limit \<le> 0 then [] else pending_loop limit [] (signals m))"

definition list_signals :: "string \<Rightarrow> page \<Rightarrow> mem_repo \<Rightarrow> signal list" where
  "list_signals gid pg m =
     paginate (map clone_signal (filter (\<lambda>s. s_goal_id s = gid) (rev (signals m)))) (page_normalize pg)"

definition create_outcome :: "outcome \<Rightarrow> mem_repo \<Rightarrow> go_error option \<times> mem_repo" where
  "create_outcome o' m = (None, m\<lparr>outcomes := outcomes m @ [clone_outcome o']\<rparr>)"

definition list_outcomes :: "string \<Rightarrow> page \<Rightarrow> mem_repo \<Rightarrow> outcome list" where
  "list_outcomes gid pg m =
     paginate (map clone_outcome (filter (\<lambda>o'. o_goal_id o' = gid) (rev (outcomes m)))) (page_normalize pg)"

section \<open>Paging and order\<close>

lemma page_normalize_bounds:
  "0 < pg_limit (page_normalize p)" "pg_limit (page_normalize p) \<le> MaxPageLimit"
  "0 \<le> pg_offset (page_normalize p)"
  by (auto simp: page_normalize_def Let_def DefaultPageLimit_def MaxPageLimit_def)

lemma page_normalize_id:
  "0 < l \<Longrightarrow> l \<le> MaxPageLimit \<Longrightarrow> 0 \<le> off \<Longrightarrow>
   page_normalize \<lparr>pg_limit = l, pg_offset = off\<rparr> = \<lparr>pg_limit = l, pg_offset = off\<rparr>"
  by (simp add: page_normalize_def Let_def)

lemma page_normalize_idem [simp]: "page_normalize (page_normalize p) = page_normalize p"
  by (simp add: page_normalize_def Let_def DefaultPageLimit_def MaxPageLimit_def)

lemma paginate_eq:
  assumes "0 \<le> pg_offset p" "0 < pg_limit p"
  shows "paginate xs p = take (nat (pg_limit p)) (drop (nat (pg_offset p)) xs)"
proof -
  let ?n = "int (length xs)" and ?o = "pg_offset p" and ?l = "pg_limit p"
  consider "?n < ?o" | "?o \<le> ?n" "?n < ?o + ?l" | "?o + ?l \<le> ?n" by linarith
  thus ?thesis
  proof cases
    case 1
    thus ?thesis using assms by (simp add: paginate_def window_def slice_def Let_def nat_le_iff)
  next
    case 2
    hence "nat (?n - ?o) = length xs - nat ?o" using assms by (simp add: nat_diff_distrib)
    moreover have "length xs - nat ?o \<le> nat ?l" using 2 assms by linarith
    ultimately show ?thesis
      using 2 assms by (auto simp: paginate_def window_def slice_def Let_def)
  next
    case 3
    thus ?thesis using assms by (simp add: paginate_def window_def slice_def Let_def)
  qed
qed

lemma paginate_normal:
  "paginate xs (page_normalize p) =
     take (nat (pg_limit (page_normalize p))) (drop (nat (pg_offset (page_normalize p))) xs)"
  by (rule paginate_eq) (simp_all add: page_normalize_bounds)

lemma concat_pages:
  "0 < l \<Longrightarrow> length xs \<le> k * l \<Longrightarrow> concat (map (\<lambda>i. take l (drop (i * l) xs)) [0..<k]) = xs"
proof -
  assume l: "0 < l" and k: "length xs \<le> k * l"
  have "concat (map (\<lambda>i. take l (drop (i * l) xs)) [0..<k]) = take (k * l) xs"
  proof (induction k)
    case (Suc k)
    thus ?case by (simp add: take_add add.commute[of l])
  qed simp
  thus ?thesis using k by simp
qed

text \<open>A list sorted by a strict order that is total on it is determined by its elements.\<close>

lemma sorted_unique:
  assumes total: "\<And>x y. x \<in> set xs \<Longrightarrow> y \<in> set xs \<Longrightarrow> x \<noteq> y \<Longrightarrow> lt x y \<or> lt y x"
    and "sorted_wrt (\<lambda>x y. \<not> lt y x) xs" "sorted_wrt (\<lambda>x y. \<not> lt y x) ys" "mset xs = mset ys"
  shows "xs = ys"
  using assms
proof (induction xs arbitrary: ys)
  case (Cons x xs)
  then obtain y ys' where ys: "ys = y # ys'" by (cases ys) auto
  have s: "set (x # xs) = set (y # ys')" using Cons.prems(4) ys by (metis set_mset_mset)
  have "x = y"
  proof (rule ccontr)
    assume n: "x \<noteq> y"
    hence "x \<in> set ys'" "y \<in> set xs" using s by auto
    hence "\<not> lt x y" "\<not> lt y x" using Cons.prems(2,3) ys by auto
    with Cons.prems(1)[of x y] n \<open>y \<in> set xs\<close> show False by auto
  qed
  have "xs = ys'"
  proof (rule Cons.IH)
    show "\<And>a b. a \<in> set xs \<Longrightarrow> b \<in> set xs \<Longrightarrow> a \<noteq> b \<Longrightarrow> lt a b \<or> lt b a"
      using Cons.prems(1) by (meson list.set_intros(2))
    show "sorted_wrt (\<lambda>x y. \<not> lt y x) xs" using Cons.prems(2) by simp
    show "sorted_wrt (\<lambda>x y. \<not> lt y x) ys'" using Cons.prems(3) unfolding ys by simp
    show "mset xs = mset ys'" using Cons.prems(4) unfolding ys \<open>x = y\<close> by simp
  qed
  with ys \<open>x = y\<close> show ?case by simp
qed simp

lemma sort_by_unique:
  assumes "\<And>x y z. \<not> lt y x \<Longrightarrow> \<not> lt z y \<Longrightarrow> \<not> lt z x" and "\<And>x y. lt x y \<Longrightarrow> \<not> lt y x"
    and "\<And>x y. x \<in> set xs \<Longrightarrow> y \<in> set xs \<Longrightarrow> x \<noteq> y \<Longrightarrow> lt x y \<or> lt y x"
    and "mset xs = mset ys"
  shows "sort_by lt xs = sort_by lt ys"
proof (rule sorted_unique[of _ lt])
  show "\<And>x y. x \<in> set (sort_by lt xs) \<Longrightarrow> y \<in> set (sort_by lt xs) \<Longrightarrow> x \<noteq> y \<Longrightarrow> lt x y \<or> lt y x"
    using assms(3) by simp
  show "sorted_wrt (\<lambda>x y. \<not> lt y x) (sort_by lt xs)" "sorted_wrt (\<lambda>x y. \<not> lt y x) (sort_by lt ys)"
    by (rule sorted_sort_by; use assms(1,2) in blast)+
  show "mset (sort_by lt xs) = mset (sort_by lt ys)" using assms(4) by simp
qed

lemma goal_before_order:
  "\<not> goal_before b a \<Longrightarrow> \<not> goal_before c b \<Longrightarrow> \<not> goal_before c a"
  "goal_before a b \<Longrightarrow> \<not> goal_before b a"
  "g_id a \<noteq> g_id b \<Longrightarrow> goal_before a b \<or> goal_before b a"
proof -
  show "\<not> goal_before b a \<Longrightarrow> \<not> goal_before c b \<Longrightarrow> \<not> goal_before c a"
    using str_less_total[of "g_id a" "g_id b"] str_less_total[of "g_id b" "g_id c"]
      str_less_trans[of "g_id a" "g_id b" "g_id c"] str_less_asym[of "g_id c" "g_id a"]
    by (cases "g_id a = g_id b"; cases "g_id b = g_id c") (auto simp: goal_before_def split: if_splits)
  show "goal_before a b \<Longrightarrow> \<not> goal_before b a"
    using str_less_asym[of "g_id a" "g_id b"] by (auto simp: goal_before_def split: if_splits)
  show "g_id a \<noteq> g_id b \<Longrightarrow> goal_before a b \<or> goal_before b a"
    using str_less_total[of "g_id a" "g_id b"] by (auto simp: goal_before_def)
qed

section \<open>The invariant of the store\<close>

definition rows_ok :: "string \<Rightarrow> plan \<Rightarrow> (int \<times> plan_version) list \<Rightarrow> bool" where
  "rows_ok pid p vs \<longleftrightarrow>
     distinct (map fst vs) \<and>
     (\<forall>(n, v) \<in> set vs. v_plan_id v = pid \<and> v_version v = n \<and> n \<le> p_current_version p) \<and>
     (p_current_version p = 0 \<or> p_current_version p \<in> fst ` set vs)"

definition goals_ok :: "(string \<times> goal) list \<Rightarrow> bool" where
  "goals_ok gs \<longleftrightarrow> distinct (map fst gs) \<and> (\<forall>(k, g) \<in> set gs. g_id g = k)"

definition players_ok :: "(string \<Rightarrow> player option) \<Rightarrow> bool" where
  "players_ok ps \<longleftrightarrow> (\<forall>k p. ps k = Some p \<longrightarrow> pl_id p = k)"

definition plan_row_ok :: "string \<Rightarrow> plan option \<Rightarrow> (int \<times> plan_version) list option \<Rightarrow> bool" where
  "plan_row_ok pid po vo \<longleftrightarrow>
     (case po of None \<Rightarrow> vo = None
      | Some p \<Rightarrow> p_id p = pid \<and> (case vo of None \<Rightarrow> False | Some vs \<Rightarrow> rows_ok pid p vs))"

definition by_goal_ok :: "(string \<Rightarrow> plan option) \<Rightarrow> (string \<Rightarrow> string option) \<Rightarrow> bool" where
  "by_goal_ok ps bg \<longleftrightarrow>
     (\<forall>gid pid. bg gid = Some pid \<longrightarrow> (\<exists>p. ps pid = Some p \<and> p_goal_id p = gid))"

definition repo_ok :: "mem_repo \<Rightarrow> bool" where
  "repo_ok m \<longleftrightarrow>
     goals_ok (goals m) \<and> players_ok (players m) \<and>
     (\<forall>pid. plan_row_ok pid (plans m pid) (versions m pid)) \<and> by_goal_ok (plans m) (by_goal m)"

lemma repo_ok_row: "repo_ok m \<Longrightarrow> plan_row_ok pid (plans m pid) (versions m pid)"
  by (simp add: repo_ok_def)

text \<open>
  The writes as a step relation. Plans are created as \<open>GeneratePlan\<close> creates them, with
  \<open>CurrentVersion: 0\<close>.
\<close>

inductive repo_step :: "mem_repo \<Rightarrow> mem_repo \<Rightarrow> bool" where
  rs_player: "create_player p m = (e, m') \<Longrightarrow> repo_step m m'"
| rs_goal: "create_goal g m = (e, m') \<Longrightarrow> repo_step m m'"
| rs_status: "update_goal_status i ex st res tm m = (e, m') \<Longrightarrow> repo_step m m'"
| rs_plan: "p_current_version p = 0 \<Longrightarrow> create_plan p m = (e, m') \<Longrightarrow> repo_step m m'"
| rs_version: "create_plan_version v m = (e, m') \<Longrightarrow> repo_step m m'"
| rs_signal: "create_signal s m = (e, m') \<Longrightarrow> repo_step m m'"
| rs_mark: "mark_signal_processed i st n rs em tm m = (e, m') \<Longrightarrow> repo_step m m'"
| rs_outcome: "create_outcome oc m = (e, m') \<Longrightarrow> repo_step m m'"

abbreviation repo_steps :: "mem_repo \<Rightarrow> mem_repo \<Rightarrow> bool" where
  "repo_steps \<equiv> repo_step\<^sup>*\<^sup>*"

inductive_cases repo_stepE: "repo_step m m'"

lemma repo_ok_new [inv_intros]: "repo_ok new_memory"
  by (simp add: repo_ok_def new_memory_def goals_ok_def players_ok_def plan_row_ok_def by_goal_ok_def)

lemma create_player_ok [inv_intros]:
  "repo_ok m \<Longrightarrow> create_player p m = (e, m') \<Longrightarrow> repo_ok m'"
  by (auto simp: create_player_def repo_ok_def players_ok_def split: if_splits)

lemma alist_update_keys:
  "(k, x) \<in> set (AList.update a b xs) \<Longrightarrow> (k, x) = (a, b) \<or> (k, x) \<in> set xs"
  by (induction xs) (auto split: if_splits)

lemma goals_update_ok:
  "repo_ok m \<Longrightarrow> g_id g = k \<Longrightarrow> repo_ok (m\<lparr>goals := AList.update k g (goals m)\<rparr>)"
  unfolding repo_ok_def goals_ok_def by (auto simp: distinct_update dest!: alist_update_keys)

lemma create_goal_ok [inv_intros]: "repo_ok m \<Longrightarrow> create_goal g m = (e, m') \<Longrightarrow> repo_ok m'"
  by (auto simp: create_goal_def intro: goals_update_ok split: if_splits)

lemma goal_ids: "repo_ok m \<Longrightarrow> map_of (goals m) i = Some g \<Longrightarrow> g_id g = i"
  by (auto simp: repo_ok_def goals_ok_def dest!: map_of_SomeD)

lemma update_goal_status_ok [inv_intros]:
  "repo_ok m \<Longrightarrow> update_goal_status i ex st res tm m = (e, m') \<Longrightarrow> repo_ok m'"
  by (auto simp: update_goal_status_def dest: goal_ids intro!: goals_update_ok
      split: if_splits option.splits)

lemma create_plan_ok [inv_intros]:
  assumes ok: "repo_ok m" and z: "p_current_version p = 0" and c: "create_plan p m = (e, m')"
  shows "repo_ok m'"
proof (cases "plans m (p_id p)")
  case None
  with repo_ok_row[OF ok, of "p_id p"] have v: "versions m (p_id p) = None"
    by (simp add: plan_row_ok_def)
  have m': "m' = m\<lparr>plans := (plans m)(p_id p \<mapsto> p), by_goal := (by_goal m)(p_goal_id p \<mapsto> p_id p),
      versions := (versions m)(p_id p \<mapsto> [])\<rparr>"
    using c None v by (simp add: create_plan_def Let_def)
  have "by_goal_ok ((plans m)(p_id p \<mapsto> p)) ((by_goal m)(p_goal_id p \<mapsto> p_id p))"
    using ok None unfolding repo_ok_def by_goal_ok_def by (auto) (metis option.distinct(1))
  moreover have "plan_row_ok (p_id p) (Some p) (Some [])"
    by (simp add: plan_row_ok_def rows_ok_def z)
  ultimately show ?thesis using ok m' by (simp add: repo_ok_def)
qed (use c ok in \<open>simp add: create_plan_def\<close>)

lemma rows_ok_update:
  assumes "rows_ok pid p vs" "map_of vs (v_version v) = None" "v_plan_id v = pid"
    "q = (if p_current_version p < v_version v then p\<lparr>p_current_version := v_version v, p_updated_at := t\<rparr> else p)"
  shows "rows_ok pid q (AList.update (v_version v) v vs)"
proof -
  have "fst ` set (AList.update (v_version v) v vs) = insert (v_version v) (fst ` set vs)"
    by (simp add: dom_update)
  hence c: "p_current_version q = 0 \<or> p_current_version q \<in> fst ` set (AList.update (v_version v) v vs)"
    using assms(1,4) by (auto simp: rows_ok_def)
  have "v_plan_id w = pid \<and> v_version w = n \<and> n \<le> p_current_version q"
    if "(n, w) \<in> set (AList.update (v_version v) v vs)" for n w
    using alist_update_keys[OF that]
  proof
    assume "(n, w) = (v_version v, v)"
    thus ?thesis using assms(3,4) by simp
  next
    assume "(n, w) \<in> set vs"
    hence "v_plan_id w = pid \<and> v_version w = n \<and> n \<le> p_current_version p"
      using assms(1) by (auto simp: rows_ok_def)
    thus ?thesis using assms(4) by auto
  qed
  with c show ?thesis using assms(1) by (auto simp: rows_ok_def distinct_update)
qed

lemma create_plan_version_ok [inv_intros]:
  assumes ok: "repo_ok m" and c: "create_plan_version v m = (e, m')"
  shows "repo_ok m'"
proof (cases "plans m (v_plan_id v)")
  case None
  with c ok show ?thesis by (simp add: create_plan_version_def)
next
  case (Some p)
  then obtain vs where vs: "versions m (v_plan_id v) = Some vs" "rows_ok (v_plan_id v) p vs" "p_id p = v_plan_id v"
    using repo_ok_row[OF ok, of "v_plan_id v"] by (auto simp: plan_row_ok_def split: option.splits)
  show ?thesis
  proof (cases "map_of vs (v_version v)")
    case None
    define q where "q = (if p_current_version p < v_version v
       then p\<lparr>p_current_version := v_version v, p_updated_at := v_created_at v\<rparr> else p)"
    have "m' = m\<lparr>versions := (versions m)(v_plan_id v \<mapsto> AList.update (v_version v) v vs),
                 plans := (plans m)(v_plan_id v \<mapsto> q)\<rparr>"
      using c Some vs None
      by (auto simp: q_def create_plan_version_def Let_def fun_upd_idem split: if_splits)
    moreover have "rows_ok (v_plan_id v) q (AList.update (v_version v) v vs)"
      by (rule rows_ok_update[OF vs(2) None refl q_def])
    moreover have q: "p_id q = v_plan_id v" "p_goal_id q = p_goal_id p" using vs by (auto simp: q_def)
    moreover have "by_goal_ok ((plans m)(v_plan_id v \<mapsto> q)) (by_goal m)"
      using ok Some q(2) unfolding repo_ok_def by_goal_ok_def by (metis fun_upd_apply option.inject)
    ultimately show ?thesis using ok by (simp add: repo_ok_def plan_row_ok_def)
  qed (use c Some vs ok in \<open>simp add: create_plan_version_def Let_def\<close>)
qed

lemma repo_ok_signals [simp]:
  "repo_ok (m\<lparr>signals := ss\<rparr>) = repo_ok m" "repo_ok (m\<lparr>outcomes := os\<rparr>) = repo_ok m"
  by (simp_all add: repo_ok_def)

lemma create_signal_ok [inv_intros]: "repo_ok m \<Longrightarrow> create_signal s m = (e, m') \<Longrightarrow> repo_ok m'"
  by (auto simp: create_signal_def)

lemma create_outcome_ok [inv_intros]: "repo_ok m \<Longrightarrow> create_outcome oc m = (e, m') \<Longrightarrow> repo_ok m'"
  by (auto simp: create_outcome_def)

lemma mark_signal_processed_ok [inv_intros]:
  "repo_ok m \<Longrightarrow> mark_signal_processed i st n rs em tm m = (e, m') \<Longrightarrow> repo_ok m'"
  by (auto simp: mark_signal_processed_def split: option.splits)

lemma repo_step_ok [inv_intros]: "repo_step m m' \<Longrightarrow> repo_ok m \<Longrightarrow> repo_ok m'"
  by (erule repo_stepE)
     (erule (1) create_player_ok create_goal_ok update_goal_status_ok create_plan_ok
        create_plan_version_ok create_signal_ok mark_signal_processed_ok create_outcome_ok | assumption)+

lemma repo_steps_ok: "repo_steps m m' \<Longrightarrow> repo_ok m \<Longrightarrow> repo_ok m'"
  by (induction rule: rtranclp_induct) (auto intro: repo_step_ok)

section \<open>What the steps keep\<close>

definition look_version :: "mem_repo \<Rightarrow> string \<times> int \<Rightarrow> plan_version option" where
  "look_version m k = (case versions m (fst k) of None \<Rightarrow> None | Some vs \<Rightarrow> map_of vs (snd k))"

lemma get_plan_version_look:
  "get_plan_version pid n m =
     (case look_version m (pid, n) of None \<Rightarrow> Inl ENotFound | Some v \<Rightarrow> Inr v)"
  by (simp add: get_plan_version_def look_version_def split: option.splits)

lemma look_version_cong [simp]:
  "look_version (m\<lparr>players := a\<rparr>) = look_version m" "look_version (m\<lparr>goals := b\<rparr>) = look_version m"
  "look_version (m\<lparr>plans := c\<rparr>) = look_version m" "look_version (m\<lparr>by_goal := d\<rparr>) = look_version m"
  "look_version (m\<lparr>signals := f\<rparr>) = look_version m" "look_version (m\<lparr>outcomes := g\<rparr>) = look_version m"
  by (simp_all add: look_version_def fun_eq_iff)

text \<open>The parts of a goal that only its creation sets.\<close>

definition goal_core :: "goal \<Rightarrow> goal" where
  "goal_core g = g\<lparr>g_status := '''', g_resolution := None, g_updated_at := zero_time\<rparr>"

definition look_goal_core :: "mem_repo \<Rightarrow> string \<Rightarrow> goal option" where
  "look_goal_core m i = map_option goal_core (map_of (goals m) i)"

definition look_signal_core :: "mem_repo \<Rightarrow> nat \<Rightarrow> (string \<times> string \<times> string \<times> string \<times> payload \<times> time) option" where
  "look_signal_core m k =
     (if k < length (signals m)
      then let s = signals m ! k in
        Some (s_id s, s_goal_id s, s_kind s, s_description s, s_payload s, s_created_at s)
      else None)"

lemma create_plan_version_look:
  "create_plan_version v m = (e, m') \<Longrightarrow> look_version m k = Some w \<Longrightarrow> look_version m' k = Some w"
  by (auto simp: create_plan_version_def look_version_def update_conv' Let_def
      split: option.splits if_splits)

lemma create_plan_look:
  "create_plan p m = (e, m') \<Longrightarrow> look_version m k = Some w \<Longrightarrow> look_version m' k = Some w"
  by (auto simp: create_plan_def look_version_def Let_def split: option.splits if_splits)

lemma step_keeps_version: "repo_step m m' \<Longrightarrow> look_version m k = Some w \<Longrightarrow> look_version m' k = Some w"
  by (erule repo_stepE)
     (auto simp: create_player_def create_goal_def update_goal_status_def create_signal_def
        mark_signal_processed_def create_outcome_def
       dest: create_plan_version_look create_plan_look split: option.splits if_splits)

lemma create_plan_goals [simp]:
  "create_plan p m = (e, m') \<Longrightarrow> goals m' = goals m \<and> signals m' = signals m"
  by (auto simp: create_plan_def Let_def split: if_splits)

lemma create_plan_version_goals [simp]:
  "create_plan_version v m = (e, m') \<Longrightarrow> goals m' = goals m \<and> signals m' = signals m"
  by (auto simp: create_plan_version_def Let_def split: if_splits option.splits)

lemma step_keeps_goal: "repo_step m m' \<Longrightarrow> look_goal_core m k = Some w \<Longrightarrow> look_goal_core m' k = Some w"
proof (erule repo_stepE)
  fix i ex st res tm e
  assume "update_goal_status i ex st res tm m = (e, m')" "look_goal_core m k = Some w"
  thus "look_goal_core m' k = Some w"
    by (auto simp: update_goal_status_def look_goal_core_def update_conv' goal_core_def
        split: option.splits if_splits)
qed (auto simp: look_goal_core_def create_player_def create_goal_def create_signal_def
       mark_signal_processed_def create_outcome_def update_conv' split: option.splits if_splits
     dest: create_plan_goals create_plan_version_goals)

lemma step_keeps_signal:
  "repo_step m m' \<Longrightarrow> look_signal_core m k = Some w \<Longrightarrow> look_signal_core m' k = Some w"
proof (erule repo_stepE)
  fix i st n rs em tm e
  assume "mark_signal_processed i st n rs em tm m = (e, m')" "look_signal_core m k = Some w"
  thus "look_signal_core m' k = Some w"
    by (cases "find_idx (\<lambda>s. s_id s = i) (signals m)"; cases "k = the (find_idx (\<lambda>s. s_id s = i) (signals m))")
       (auto simp: mark_signal_processed_def look_signal_core_def Let_def split: if_splits)
qed (auto simp: look_signal_core_def create_player_def create_goal_def create_signal_def
       update_goal_status_def create_outcome_def nth_append Let_def split: option.splits if_splits
     dest: create_plan_goals create_plan_version_goals)

interpretation vers: append_only look_version repo_step
  by unfold_locales (rule step_keeps_version)

interpretation gcore: append_only look_goal_core repo_step
  by unfold_locales (rule step_keeps_goal)

interpretation score: append_only look_signal_core repo_step
  by unfold_locales (rule step_keeps_signal)

lemma snapshot_adopt: "adopt_locked m s = s"
  by (simp add: adopt_locked_def)

lemma snapshot_id [simp]: "snapshot_locked m = m"
proof -
  have "map (\<lambda>(k, v). (k, clone_goal v)) (goals m) = goals m" by (simp add: map_idI)
  moreover have "map_option (map (\<lambda>(n, v). (n, clone_plan_version v))) x = x" for x :: "(int \<times> plan_version) list option"
    by (cases x) (auto simp: map_idI)
  moreover have "map_option clone_player x = x" for x by (cases x) auto
  moreover have "map clone_signal (signals m) = signals m" "map clone_outcome (outcomes m) = outcomes m"
    by (simp_all add: map_idI)
  ultimately show ?thesis by (simp add: snapshot_locked_def)
qed

lemma repo_tx_cases:
  "repo_tx fn m = (e, m') \<Longrightarrow>
     (e \<noteq> None \<and> m' = m \<and> fst (fn m) = e) \<or> (e = None \<and> fn m = (None, m'))"
  by (auto simp: repo_tx_def snapshot_adopt split: prod.splits option.splits)

lemma pending_loop_take:
  "int (length out) < limit \<Longrightarrow>
   pending_loop limit out ss = out @ take (nat limit - length out) (filter signal_pending ss)"
proof (induction ss arbitrary: out)
  case (Cons s ss)
  show ?case
  proof (cases "signal_pending s")
    case True
    show ?thesis
    proof (cases "limit \<le> int (length out) + 1")
      case True
      hence "nat limit - length out = 1" using Cons.prems by linarith
      thus ?thesis using \<open>signal_pending s\<close> True by simp
    next
      case False
      hence "nat limit - length out = Suc (nat limit - Suc (length out))" by linarith
      with Cons.IH[of "out @ [s]"] False True show ?thesis by simp
    qed
  qed (use Cons in simp)
qed simp

lemma list_pending_eq: "list_pending_signals limit m = take (nat limit) (filter signal_pending (signals m))"
  by (simp add: list_pending_signals_def pending_loop_take)



definition goal_rows :: "goal_status \<Rightarrow> mem_repo \<Rightarrow> goal list" where
  "goal_rows want m = sort_by goal_before (map snd (filter (\<lambda>(k, g). goal_matches_status g want) (goals m)))"

lemma list_goals_rows: "list_goals want pg m = paginate (goal_rows want m) (page_normalize pg)"
  by (simp add: list_goals_def goal_rows_def case_prod_beta')

lemma distinct_goal_ids: "goals_ok gs \<Longrightarrow> distinct (map g_id (map snd gs))"
proof -
  assume g: "goals_ok gs"
  hence "map g_id (map snd gs) = map fst gs"
    unfolding map_map by (intro map_cong) (auto simp: goals_ok_def)
  with g show ?thesis unfolding goals_ok_def by metis
qed

lemma goal_rows_order:
  assumes "goals_ok (goals m)" "mset (goals m) = mset (goals m')"
  shows "goal_rows want m = goal_rows want m'"
  unfolding goal_rows_def
proof (rule sort_by_unique)
  fix x y
  assume "x \<in> set (map snd (filter (\<lambda>(k, g). goal_matches_status g want) (goals m)))"
    "y \<in> set (map snd (filter (\<lambda>(k, g). goal_matches_status g want) (goals m)))" "x \<noteq> y"
  hence xy: "x \<in> set (map snd (goals m))" "y \<in> set (map snd (goals m))" by auto
  from distinct_goal_ids[OF assms(1)] have "inj_on g_id (set (map snd (goals m)))"
    by (metis distinct_map)
  with xy \<open>x \<noteq> y\<close> have "g_id x \<noteq> g_id y" by (auto dest: inj_onD)
  thus "goal_before x y \<or> goal_before y x" by (rule goal_before_order(3))
next
  show "mset (map snd (filter (\<lambda>(k, g). goal_matches_status g want) (goals m))) =
        mset (map snd (filter (\<lambda>(k, g). goal_matches_status g want) (goals m')))"
    using assms(2) by (simp add: mset_filter)
qed (blast dest: goal_before_order)+

lemma goal_pages:
  assumes "0 < l" "l \<le> MaxPageLimit" "int (length (goals m)) \<le> int k * l"
  shows "concat (map (\<lambda>i. list_goals want \<lparr>pg_limit = l, pg_offset = int i * l\<rparr> m) [0..<k]) =
    goal_rows want m"
proof -
  have "length (goals m) \<le> k * nat l"
    using assms(1,3) by (metis int_nat_eq less_le nat_int nat_mono of_nat_mult of_nat_le_iff)
  moreover have "length (goal_rows want m) \<le> length (goals m)"
    unfolding goal_rows_def by (metis length_filter_le length_map length_sort_by)
  ultimately have len: "length (goal_rows want m) \<le> k * nat l" by simp
  have "list_goals want \<lparr>pg_limit = l, pg_offset = int i * l\<rparr> m =
      take (nat l) (drop (i * nat l) (goal_rows want m))" for i
    using assms(1,2) by (simp add: list_goals_rows page_normalize_id paginate_eq nat_mult_distrib)
  thus ?thesis using concat_pages[OF _ len] assms(1) by simp
qed

lemma goal_rows_ids: "goals_ok (goals m) \<Longrightarrow> distinct (map g_id (goal_rows want m))"
proof -
  assume "goals_ok (goals m)"
  from distinct_goal_ids[OF this]
  have "distinct (map g_id (map snd (filter (\<lambda>(k, g). goal_matches_status g want) (goals m))))"
    by (simp add: distinct_map_filter)
  thus ?thesis
    unfolding goal_rows_def by (metis mset_map mset_sort_by mset_eq_imp_distinct_iff)
qed

lemma sorted_wrt_strict:
  "sorted_wrt (\<lambda>x y. \<not> lt y x) xs \<Longrightarrow> distinct xs \<Longrightarrow>
   (\<And>x y. \<not> lt y x \<Longrightarrow> x \<in> set xs \<Longrightarrow> y \<in> set xs \<Longrightarrow> x \<noteq> y \<Longrightarrow> lt x y) \<Longrightarrow> sorted_wrt lt xs"
proof (induction xs)
  case (Cons a xs)
  have "sorted_wrt lt xs"
  proof (rule Cons.IH)
    show "\<And>x y. \<not> lt y x \<Longrightarrow> x \<in> set xs \<Longrightarrow> y \<in> set xs \<Longrightarrow> x \<noteq> y \<Longrightarrow> lt x y"
      using Cons.prems(3) by (meson list.set_intros(2))
  qed (use Cons.prems in simp_all)
  moreover have "lt a y" if "y \<in> set xs" for y
    using Cons.prems(1,2) that by (intro Cons.prems(3)) auto
  ultimately show ?case by simp
qed simp

lemma goal_rows_sorted:
  assumes "goals_ok (goals m)"
  shows "sorted_wrt goal_before (goal_rows want m)"
proof -
  let ?rows = "goal_rows want m"
  have "sorted_wrt (\<lambda>x y. \<not> goal_before y x) ?rows"
    unfolding goal_rows_def by (rule sorted_sort_by; blast dest: goal_before_order)
  moreover have "goal_before x y" if "\<not> goal_before y x" "x \<in> set ?rows" "y \<in> set ?rows" "x \<noteq> y" for x y
  proof -
    have "g_id x \<noteq> g_id y"
      using that(2-4) goal_rows_ids[OF assms, of want] unfolding distinct_map by (blast dest: inj_onD)
    from goal_before_order(3)[OF this] that(1) show ?thesis by blast
  qed
  ultimately show ?thesis
    using goal_rows_ids[OF assms, of want] sorted_wrt_strict[of goal_before ?rows]
    unfolding distinct_map by blast
qed

section \<open>Properties\<close>

lemma repo_steps_new: "repo_steps new_memory m \<Longrightarrow> repo_ok m"
  using repo_steps_ok repo_ok_new by blast

lemma repo_ok_plan:
  assumes "repo_ok m" "plans m pid = Some p"
  shows "\<exists>vs. versions m pid = Some vs \<and> rows_ok pid p vs \<and> p_id p = pid"
  using repo_ok_row[OF assms(1), of pid] assms(2) by (auto simp: plan_row_ok_def split: option.splits)

text \<open>
  C4: in every store the writes can produce, a goal's plan is found under its goal and under its
  identifier, no version is newer than the plan's \<open>current_version\<close>, and once a version was
  written \<open>GetCurrentPlanVersion\<close> finds the row with exactly that plan and number.
\<close>

theorem current_version_consistent:
  assumes "repo_steps new_memory m" "get_plan_by_goal gid m = Inr p"
  shows "p_goal_id p = gid \<and> get_plan (p_id p) m = Inr p \<and>
     (\<forall>n v. get_plan_version (p_id p) n m = Inr v \<longrightarrow> v_version v = n \<and> n \<le> p_current_version p) \<and>
     (p_current_version p \<noteq> 0 \<longrightarrow>
        (\<exists>v. get_current_plan_version (p_id p) m = Inr v \<and> v_plan_id v = p_id p \<and>
           v_version v = p_current_version p))"
proof -
  have ok: "repo_ok m" by (rule repo_steps_new[OF assms(1)])
  obtain pid where pid: "by_goal m gid = Some pid" "p = (case plans m pid of None \<Rightarrow> zero_plan | Some p \<Rightarrow> p)"
    using assms(2) by (auto simp: get_plan_by_goal_def split: option.splits)
  have "by_goal_ok (plans m) (by_goal m)" using ok by (simp add: repo_ok_def)
  with pid(1) obtain q where "plans m pid = Some q" "p_goal_id q = gid" by (auto simp: by_goal_ok_def)
  with pid(2) have p: "plans m pid = Some p" "p_goal_id p = gid" by simp_all
  obtain vs where vs: "versions m pid = Some vs" "rows_ok pid p vs" "p_id p = pid"
    using repo_ok_plan[OF ok p(1)] by blast
  have "v_version v = n \<and> n \<le> p_current_version p" if "get_plan_version pid n m = Inr v" for n v
  proof -
    have "(n, v) \<in> set vs"
      using that vs(1) by (auto simp: get_plan_version_def split: option.splits dest: map_of_SomeD)
    thus ?thesis using vs(2) by (auto simp: rows_ok_def)
  qed
  moreover have "\<exists>v. get_current_plan_version pid m = Inr v \<and> v_plan_id v = pid \<and> v_version v = p_current_version p"
    if "p_current_version p \<noteq> 0"
  proof -
    have "p_current_version p \<in> fst ` set vs" using vs(2) that by (simp add: rows_ok_def)
    then obtain v where v: "map_of vs (p_current_version p) = Some v"
      by (metis dom_map_of_conv_image_fst domD)
    hence "v_plan_id v = pid \<and> v_version v = p_current_version p"
      using vs(2) by (auto simp: rows_ok_def dest!: map_of_SomeD)
    with v vs(1) p(1) show ?thesis by (simp add: get_current_plan_version_def)
  qed
  ultimately show ?thesis using p vs(3) by (simp add: get_plan_def)
qed

definition sample_plan :: plan where
  "sample_plan = zero_plan\<lparr>p_id := ''plan_1'', p_goal_id := ''goal_1''\<rparr>"

definition sample_version :: plan_version where
  "sample_version = zero_version\<lparr>v_plan_id := ''plan_1'', v_version := 1\<rparr>"

definition sample_store :: mem_repo where
  "sample_store = snd (create_plan_version sample_version (snd (create_plan sample_plan new_memory)))"

lemmas sample_defs = sample_plan_def sample_version_def sample_store_def zero_plan_def zero_version_def
  create_plan_def create_plan_version_def new_memory_def

lemma sample_steps: "repo_steps new_memory sample_store"
proof -
  have "repo_step new_memory (snd (create_plan sample_plan new_memory))"
    by (rule rs_plan[of sample_plan _ "fst (create_plan sample_plan new_memory)"]) (simp_all add: sample_plan_def zero_plan_def)
  moreover have "repo_step (snd (create_plan sample_plan new_memory)) sample_store"
    unfolding sample_store_def
    by (rule rs_version[of sample_version _ "fst (create_plan_version sample_version (snd (create_plan sample_plan new_memory)))"]) simp
  ultimately show ?thesis by (meson r_into_rtranclp rtranclp.rtrancl_into_rtrancl)
qed

theorem current_version_consistent_witness:
  "\<exists>v. get_current_plan_version ''plan_1'' sample_store = Inr v \<and> v_version v = 1"
proof -
  have "get_plan_by_goal ''goal_1'' sample_store =
      Inr (sample_plan\<lparr>p_current_version := 1, p_updated_at := 0\<rparr>)"
    by (simp add: get_plan_by_goal_def sample_defs zero_time_def)
  from current_version_consistent[OF sample_steps this] show ?thesis by (auto simp: sample_plan_def)
qed

text \<open>
  C2: plan versions are append-only: along any run of writes a version that can be read stays
  exactly as it is, and a second write of the same number is refused with \<open>ErrConflict\<close> and
  changes nothing.
\<close>

theorem versions_append_only:
  assumes "repo_steps new_memory m" "repo_steps m m'" "get_plan_version pid n m = Inr v"
  shows "get_plan_version pid n m' = Inr v \<and>
    (\<forall>w. create_plan_version (w\<lparr>v_plan_id := pid, v_version := n\<rparr>) m' = (Some EConflict, m'))"
proof -
  have l: "look_version m (pid, n) = Some v"
    using assms(3) by (simp add: get_plan_version_look split: option.splits)
  have l': "look_version m' (pid, n) = Some v" by (rule vers.run_keeps[OF assms(2) l])
  have ok: "repo_ok m'" using repo_steps_ok[OF assms(2)] repo_steps_new[OF assms(1)] by blast
  obtain vs where vs: "versions m' pid = Some vs" "map_of vs n = Some v"
    using l' by (auto simp: look_version_def split: option.splits)
  then obtain p where "plans m' pid = Some p"
    using repo_ok_row[OF ok, of pid] by (auto simp: plan_row_ok_def split: option.splits)
  with vs l' show ?thesis by (simp add: get_plan_version_look create_plan_version_def)
qed

theorem versions_append_only_witness:
  "get_plan_version ''plan_1'' 1 (snd (create_signal zero_signal sample_store)) = Inr sample_version"
proof -
  have "get_plan_version ''plan_1'' 1 sample_store = Inr sample_version"
    by (simp add: get_plan_version_def sample_defs)
  moreover have "repo_steps sample_store (snd (create_signal zero_signal sample_store))"
    by (rule r_into_rtranclp, rule rs_signal) (simp add: create_signal_def)
  ultimately show ?thesis using versions_append_only[OF sample_steps] by blast
qed

text \<open>
  Paging a goal listing with any limit from 1 to \<open>MaxPageLimit\<close> yields, page by page,
  every goal that passes the status filter exactly once, newest first (by identifier among equal
  times), whatever the iteration order of the Go map; a limit out of range is replaced by the
  default or the maximum.
\<close>

theorem list_goals_pages:
  assumes "repo_steps new_memory m" "0 < l" "l \<le> MaxPageLimit" "int (length (goals m)) \<le> int k * l"
  shows "(let rows = concat (map (\<lambda>i. list_goals want \<lparr>pg_limit = l, pg_offset = int i * l\<rparr> m) [0..<k]) in
      sorted_wrt goal_before rows \<and> distinct (map g_id rows) \<and>
      set rows = {g. (\<exists>i. get_goal i m = Inr g) \<and> goal_matches_status g want} \<and>
      (\<forall>m'. mset (goals m') = mset (goals m) \<longrightarrow>
         rows = concat (map (\<lambda>i. list_goals want \<lparr>pg_limit = l, pg_offset = int i * l\<rparr> m') [0..<k])))"
proof -
  have ok: "goals_ok (goals m)" using repo_steps_new[OF assms(1)] by (simp add: repo_ok_def)
  let ?rows = "goal_rows want m"
  have g: "get_goal i m = Inr g \<longleftrightarrow> (i, g) \<in> set (goals m)" for i g
    using ok map_of_eq_Some_iff[of "goals m" i g]
    by (cases "map_of (goals m) i") (simp_all add: get_goal_def goals_ok_def)
  have "set ?rows = {g. (\<exists>i. get_goal i m = Inr g) \<and> goal_matches_status g want}"
    unfolding g by (force simp: goal_rows_def)
  moreover have "?rows = goal_rows want m'" if "mset (goals m') = mset (goals m)" for m'
    by (rule goal_rows_order[OF ok]) (simp add: that)
  moreover have "concat (map (\<lambda>i. list_goals want \<lparr>pg_limit = l, pg_offset = int i * l\<rparr> m') [0..<k]) =
      goal_rows want m'" if "mset (goals m') = mset (goals m)" for m'
    by (rule goal_pages) (use assms(2-4) mset_eq_length[OF that] in auto)
  ultimately show ?thesis
    using goal_rows_sorted[OF ok] goal_rows_ids[OF ok] unfolding Let_def by (metis (mono_tags, lifting))
qed

definition sample_goal :: goal where
  "sample_goal = zero_goal\<lparr>g_id := ''goal_1'', g_status := GoalActive\<rparr>"

theorem list_goals_pages_witness:
  "list_goals GoalActive \<lparr>pg_limit = 1, pg_offset = 0\<rparr> (snd (create_goal sample_goal new_memory)) =
     [sample_goal]"
proof -
  define m where "m = snd (create_goal sample_goal new_memory)"
  have r: "repo_steps new_memory m"
    unfolding m_def by (rule r_into_rtranclp, rule rs_goal[of sample_goal _ None])
       (simp add: create_goal_def sample_goal_def new_memory_def zero_goal_def)
  have m: "goals m = [(''goal_1'', sample_goal)]"
    by (simp add: m_def create_goal_def sample_goal_def new_memory_def zero_goal_def)
  have g: "get_goal i m = Inr g \<longleftrightarrow> i = ''goal_1'' \<and> g = sample_goal" for i g
    by (auto simp: get_goal_def m split: option.splits if_splits)
  have a: "goal_matches_status sample_goal GoalActive"
    by (simp add: goal_matches_status_def sample_goal_def GoalActive_def)
  define rows where "rows = list_goals GoalActive \<lparr>pg_limit = 1, pg_offset = 0\<rparr> m"
  have "set rows = {sample_goal} \<and> distinct (map g_id rows)"
    using list_goals_pages[OF r, of 1 1 GoalActive] a unfolding Let_def g
    by (auto simp: m MaxPageLimit_def simp flip: rows_def)
  hence "rows = [sample_goal]"
    by (cases rows; cases "tl rows") auto
  thus ?thesis by (simp add: rows_def m_def)
qed

end
