(* ===== verification/Llm_Plan.thy ===== *)
theory Llm_Plan
  imports Domain
begin

text \<open>
  The reasoning boundary of \<open>internal/llm\<close>: requests and results (\<open>client.go\<close>), the mapping of
  a model's output into domain moves and the application of a reviewer's verdict
  (\<open>plan.go\<close>), and the fingerprint of the inputs (\<open>snapshot.go\<close>). A planner is a function from
  a request to a result or an error; what a model answers is not under the control of the source.
\<close>

section \<open>Requests and results\<close>

record plan_request =
  rq_goal :: goal
  rq_signal_note :: string
  rq_system_prompt_override :: string
  rq_signal_kind :: string
  rq_signal_payload :: payload
  rq_current_moves :: "move list"
  rq_current_strategy :: string

record plan_result =
  rs_summary :: string
  rs_ranked_moves :: "move list"
  rs_provenance :: provenance
  rs_invocation :: model_invocation

type_synonym planner = "plan_request \<Rightarrow> go_error + plan_result"

definition zero_invocation :: model_invocation where
  "zero_invocation =
     \<lparr>mi_model = '''', mi_prompt_version = '''', mi_prompt_tokens = 0, mi_completion_tokens = 0,
      mi_total_tokens = 0, mi_latency_ms = 0\<rparr>"

definition zero_result :: plan_result where
  "zero_result =
     \<lparr>rs_summary = '''', rs_ranked_moves = [], rs_provenance = zero_provenance,
      rs_invocation = zero_invocation\<rparr>"

definition zero_request :: plan_request where
  "zero_request =
     \<lparr>rq_goal = zero_goal, rq_signal_note = '''', rq_system_prompt_override = '''',
      rq_signal_kind = '''', rq_signal_payload = [], rq_current_moves = [], rq_current_strategy = ''''\<rparr>"

section \<open>Slugs\<close>

text \<open>
  The loop that both \<open>moveKeyOrSlug\<close> and the engine's \<open>slug\<close> run over the lower-cased runes,
  with the builder's content and \<open>prevHyphen\<close> as its state.
\<close>

fun slug_loop :: "unicode \<Rightarrow> string \<Rightarrow> bool \<Rightarrow> string list \<Rightarrow> string" where
  "slug_loop u b prev [] = b"
| "slug_loop u b prev (r # rs) =
     (if uc_alnum u r then slug_loop u (b @ r) False rs
      else if \<not> prev \<and> b \<noteq> [] then slug_loop u (b @ ''-'') True rs
      else slug_loop u b prev rs)"

definition slug :: "unicode \<Rightarrow> string \<Rightarrow> string" where
  "slug u s = trim_by (\<lambda>c. c = CHR ''-'') (slug_loop u '''' False (uc_runes u (uc_to_lower u s)))"

definition move_key_or_slug :: "unicode \<Rightarrow> string \<Rightarrow> string \<Rightarrow> string" where
  "move_key_or_slug u key title =
     (if key \<noteq> '''' then key
      else trim_by (\<lambda>c. c = CHR ''-'') (slug_loop u '''' False (uc_runes u (uc_to_lower u title))))"

section \<open>Mapping a model's plan\<close>

record experiment_dto =
  xd_title :: string
  xd_duration_days :: int
  xd_success_signals :: "string list"
  xd_kill_criteria :: "string list"

record move_dto =
  md_key :: string
  md_title :: string
  md_description :: string
  md_confidence :: f64
  md_expected_impact :: string
  md_effort :: string
  md_risk :: string
  md_rationale :: string
  md_experiment :: experiment_dto
  md_fallback_moves :: "string list"
  md_depends_on :: "string list"
  md_parallel_group :: string

record plan_dto =
  pd_summary :: string
  pd_reasoning_summary :: string
  pd_ranked_moves :: "move_dto list"

definition to_level :: "string \<Rightarrow> level" where
  "to_level s = (if level_valid s then s else LevelMedium)"

definition clamp_confidence :: "f64 \<Rightarrow> f64" where
  "clamp_confidence c = (if c < 0 then 0 else if 1 < c then 1 else c)"

definition map_move :: "unicode \<Rightarrow> int \<Rightarrow> move_dto \<Rightarrow> move" where
  "map_move u rank m =
     zero_move
       \<lparr>m_rank := rank, m_key := move_key_or_slug u (md_key m) (md_title m), m_title := md_title m,
        m_description := md_description m, m_confidence := clamp_confidence (md_confidence m),
        m_expected_impact := to_level (md_expected_impact m), m_effort := to_level (md_effort m),
        m_risk := to_level (md_risk m), m_rationale := md_rationale m,
        m_experiment :=
          \<lparr>ex_title = xd_title (md_experiment m), ex_duration_days = xd_duration_days (md_experiment m),
           ex_success_signals = xd_success_signals (md_experiment m),
           ex_kill_criteria = xd_kill_criteria (md_experiment m)\<rparr>,
        m_fallback_moves := md_fallback_moves m, m_depends_on := md_depends_on m,
        m_parallel_group := md_parallel_group m\<rparr>"

definition map_moves :: "unicode \<Rightarrow> plan_dto \<Rightarrow> move list" where
  "map_moves u dto = number_from (map_move u) 1 (pd_ranked_moves dto)"

text \<open>What planners promise of a confidence: a float between 0 and 1.\<close>

definition confidence_wf :: "f64 \<Rightarrow> bool" where
  "confidence_wf c \<longleftrightarrow> fwf c \<and> Fin 0 \<le> c \<and> c \<le> Fin 1"

section \<open>Verdicts\<close>

record move_verdict =
  vd_title :: string
  vd_keep :: bool
  vd_adjusted_confidence :: "f64 option"
  vd_issues :: "string list"

record verdict =
  ve_overall_note :: string
  ve_moves :: "move_verdict list"

fun join_tail :: "string \<Rightarrow> string list \<Rightarrow> string" where
  "join_tail out [] = out"
| "join_tail out (s # ss) = join_tail (out @ ''; '' @ s) ss"

fun join_issues :: "string list \<Rightarrow> string" where
  "join_issues [] = ''no detail''"
| "join_issues (s # ss) = join_tail s ss"

text \<open>\<open>byTitle\<close>: a later verdict for the same title replaces an earlier one.\<close>

definition by_title :: "move_verdict list \<Rightarrow> string \<Rightarrow> move_verdict option" where
  "by_title mvs = foldl (\<lambda>m mv. m(vd_title mv \<mapsto> mv)) Map.empty mvs"

definition quoted :: "string \<Rightarrow> string" where
  "quoted s = [CHR 34] @ s @ [CHR 34]"

definition adjust_move :: "move_verdict option \<Rightarrow> move \<Rightarrow> move" where
  "adjust_move mv m =
     (case mv of
        None \<Rightarrow> m
      | Some v \<Rightarrow> (case vd_adjusted_confidence v of
                     None \<Rightarrow> m
                   | Some c \<Rightarrow> m\<lparr>m_confidence := clamp_confidence c\<rparr>))"

fun apply_verdict_loop ::
  "(string \<Rightarrow> move_verdict option) \<Rightarrow> move list \<Rightarrow> string list \<Rightarrow> move list \<Rightarrow> move list \<times> string list" where
  "apply_verdict_loop bt kept issues [] = (kept, issues)"
| "apply_verdict_loop bt kept issues (m # ms) =
     (case bt (m_title m) of
        None \<Rightarrow> apply_verdict_loop bt (kept @ [m\<lparr>m_rank := int (length kept) + 1\<rparr>]) issues ms
      | Some mv \<Rightarrow>
          if \<not> vd_keep mv
          then apply_verdict_loop bt kept
                 (issues @ [''dropped '' @ quoted (m_title m) @ '': '' @ join_issues (vd_issues mv)]) ms
          else
            let m1 = adjust_move (Some mv) m;
                issues1 = (if 0 < length (vd_issues mv)
                           then issues @ [quoted (m_title m) @ '': '' @ join_issues (vd_issues mv)]
                           else issues)
            in apply_verdict_loop bt (kept @ [m1\<lparr>m_rank := int (length kept) + 1\<rparr>]) issues1 ms)"

definition apply_verdict :: "plan_result \<Rightarrow> verdict \<Rightarrow> plan_result \<times> string list" where
  "apply_verdict res v =
     (case apply_verdict_loop (by_title (ve_moves v)) [] [] (rs_ranked_moves res) of
        (kept, issues) \<Rightarrow> (res\<lparr>rs_ranked_moves := kept\<rparr>, issues))"

section \<open>The input snapshot\<close>

record snapshot_input =
  sn_domain :: string
  sn_objective :: string
  sn_metric :: string
  sn_target :: string
  sn_context :: goal_context
  sn_signal_note :: string

text \<open>
  \<open>json.Marshal\<close> of the snapshot and the hexadecimal text of \<open>sha256.Sum256\<close> are arguments.
\<close>

definition snapshot_of :: "goal \<Rightarrow> string \<Rightarrow> snapshot_input" where
  "snapshot_of g note =
     \<lparr>sn_domain = g_domain g, sn_objective = g_objective g, sn_metric = g_metric g,
      sn_target = g_target g, sn_context = g_context g, sn_signal_note = note\<rparr>"

definition input_snapshot_id ::
  "(snapshot_input \<Rightarrow> string) \<Rightarrow> (string \<Rightarrow> string) \<Rightarrow> goal \<Rightarrow> string \<Rightarrow> string" where
  "input_snapshot_id marshal hexsha g note = ''snap_'' @ take 16 (hexsha (marshal (snapshot_of g note)))"

section \<open>What a slug is\<close>

text \<open>The maximal runs of letters and digits of a text, the reference for the builder loop.\<close>

fun words_of :: "unicode \<Rightarrow> string \<Rightarrow> string list \<Rightarrow> string list" where
  "words_of u cur [] = (if cur = '''' then [] else [cur])"
| "words_of u cur (r # rs) =
     (if uc_alnum u r then words_of u (cur @ r) rs
      else if cur = '''' then words_of u '''' rs
      else cur # words_of u '''' rs)"

abbreviation hyph :: "char \<Rightarrow> bool" where
  "hyph \<equiv> \<lambda>c. c = CHR ''-''"

definition plain_word :: "string \<Rightarrow> bool" where
  "plain_word w \<longleftrightarrow> w \<noteq> '''' \<and> CHR ''-'' \<notin> set w"

lemma join_strs_Cons: "ws \<noteq> [] \<Longrightarrow> join_strs sep (w # ws) = w @ sep @ join_strs sep ws"
  by (cases ws) auto

lemma join_strs_snoc: "ws \<noteq> [] \<Longrightarrow> join_strs sep (ws @ [w]) = join_strs sep ws @ sep @ w"
proof (induction ws)
  case (Cons a ws)
  thus ?case by (cases "ws = []") (auto simp: join_strs_Cons)
qed simp

lemma join_strs_grow: "join_strs sep (ws @ [w]) @ r = join_strs sep (ws @ [w @ r])"
  by (cases "ws = []") (auto simp: join_strs_snoc)

lemma join_plain_ends:
  assumes "ws \<noteq> []" "list_all plain_word ws"
  shows "join_strs ''-'' ws \<noteq> [] \<and> hd (join_strs ''-'' ws) \<noteq> CHR ''-'' \<and> last (join_strs ''-'' ws) \<noteq> CHR ''-''"
  using assms
proof (induction ws)
  case (Cons w ws)
  have w: "w \<noteq> []" "CHR ''-'' \<notin> set w" using Cons.prems by (auto simp: plain_word_def)
  hence "hd w \<noteq> CHR ''-''" "last w \<noteq> CHR ''-''" using hd_in_set last_in_set by metis+
  with w Cons show ?case by (cases "ws = []") (auto simp: join_strs_Cons)
qed simp

lemma trim_by_id: "xs = [] \<or> (\<not> p (hd xs) \<and> \<not> p (last xs)) \<Longrightarrow> trim_by p xs = xs"
proof -
  assume a: "xs = [] \<or> (\<not> p (hd xs) \<and> \<not> p (last xs))"
  have d: "dropWhile p ys = ys" if "ys = [] \<or> \<not> p (hd ys)" for ys using that by (cases ys) auto
  have "dropWhile p xs = xs" using a d by blast
  moreover have "dropWhile p (rev xs) = rev xs" using a d[of "rev xs"] by (auto simp: hd_rev)
  ultimately show ?thesis by (simp add: trim_by_def)
qed

lemma trim_by_snoc: "p x \<Longrightarrow> xs \<noteq> [] \<Longrightarrow> \<not> p (hd xs) \<Longrightarrow> \<not> p (last xs) \<Longrightarrow> trim_by p (xs @ [x]) = xs"
proof -
  assume a: "p x" "xs \<noteq> []" "\<not> p (hd xs)" "\<not> p (last xs)"
  have "dropWhile p (xs @ [x]) = xs @ [x]" using a by (cases xs) auto
  moreover have "dropWhile p (rev xs) = rev xs" using a by (cases "rev xs") (auto simp: hd_rev[symmetric])
  ultimately show ?thesis using a by (simp add: trim_by_def)
qed

lemma trim_join: "list_all plain_word ws \<Longrightarrow> trim_by hyph (join_strs ''-'' ws) = join_strs ''-'' ws"
  using join_plain_ends[of ws] by (intro trim_by_id) (cases "ws = []"; auto)

lemma trim_join_hyphen:
  "list_all plain_word ws \<Longrightarrow> ws \<noteq> [] \<Longrightarrow> trim_by hyph (join_strs ''-'' ws @ ''-'') = join_strs ''-'' ws"
  using join_plain_ends[of ws] by (intro trim_by_snoc) auto

definition alnum_runes :: "unicode \<Rightarrow> bool" where
  "alnum_runes u \<longleftrightarrow> (\<forall>r. uc_alnum u r \<longrightarrow> plain_word r)"

text \<open>
  The loop's state: the builder holds the joined finished words, then the word being built or a
  pending hyphen.
\<close>

lemma slug_loop_words:
  assumes "alnum_runes u" "list_all plain_word ws" "cur = '''' \<or> plain_word cur"
    "(cur \<noteq> '''' \<and> \<not> prev \<and> b = join_strs ''-'' (ws @ [cur])) \<or>
     (cur = '''' \<and> ws \<noteq> [] \<and> prev \<and> b = join_strs ''-'' ws @ ''-'') \<or>
     (cur = '''' \<and> ws = [] \<and> \<not> prev \<and> b = [])"
  shows "trim_by hyph (slug_loop u b prev rs) = join_strs ''-'' (ws @ words_of u cur rs) \<and>
    list_all plain_word (words_of u cur rs)"
  using assms
proof (induction rs arbitrary: b prev ws cur)
  case Nil
  thus ?case using trim_join[of "ws @ [cur]"] trim_join[of ws] trim_join_hyphen[of ws]
    by (auto simp: trim_by_def)
next
  case (Cons r rs)
  show ?case
  proof (cases "uc_alnum u r")
    case True
    with Cons.prems(1) have r: "plain_word r" by (simp add: alnum_runes_def)
    have c: "plain_word (cur @ r)" using r Cons.prems(3) by (auto simp: plain_word_def)
    have j: "b @ r = join_strs ''-'' (ws @ [cur @ r])"
      using Cons.prems(4) by (auto simp: join_strs_grow join_strs_snoc)
    show ?thesis using Cons.IH[of ws "cur @ r" False "b @ r"] Cons.prems(1,2) c j True
      by (auto simp: plain_word_def)
  next
    case False
    show ?thesis
    proof (cases "cur = ''''")
      case True
      thus ?thesis using Cons.IH[of ws "''''" prev b] Cons.prems False by auto
    next
      case cur: False
      have b: "b = join_strs ''-'' (ws @ [cur])" "\<not> prev" and p: "plain_word cur"
        using Cons.prems(3,4) cur by auto
      hence "b \<noteq> []" using join_plain_ends[of "ws @ [cur]"] Cons.prems(2) by auto
      with Cons.IH[of "ws @ [cur]" "''''" True "b @ ''-''"] Cons.prems(1,2) b p False cur
      show ?thesis by simp
    qed
  qed
qed

lemma slug_words:
  assumes "alnum_runes u"
  shows "slug u s = join_strs ''-'' (words_of u '''' (uc_runes u (uc_to_lower u s)))"
  using slug_loop_words[OF assms, of "[]" "''''" False "''''"] by (simp add: slug_def)

lemma move_key_or_slug_eq: "move_key_or_slug u key title = (if key \<noteq> '''' then key else slug u title)"
  by (simp add: move_key_or_slug_def slug_def)

lemma ascii_alnum_runes: "alnum_runes ascii_unicode"
  by (auto simp: alnum_runes_def ascii_unicode_def plain_word_def list_all_iff ascii_letter_def
      ascii_digit_def)

section \<open>Ranks, levels and confidences of mapped moves\<close>

definition confidence_ok :: "f64 \<Rightarrow> bool" where
  "confidence_ok c \<longleftrightarrow> 0 \<le> c \<and> c \<le> 1"

lemma clamp_confidence_ok: "clamp_confidence c = NaN \<or> confidence_ok (clamp_confidence c)"
  by (cases c) (auto simp: clamp_confidence_def confidence_ok_def)

lemma clamp_confidence_id: "confidence_ok c \<Longrightarrow> clamp_confidence c = c"
  by (cases c) (auto simp: clamp_confidence_def confidence_ok_def)

lemma to_level_valid: "level_valid (to_level s)"
  by (simp add: to_level_def level_defs)

lemma number_from_ranks: "map f (number_from g i xs) = [i .. i + int (length xs) - 1]"
  if "\<And>k x. f (g k x) = k" for f :: "'b \<Rightarrow> int"
  by (induction xs arbitrary: i) (simp_all add: that upto_rec1)

lemma map_moves_ranks: "map m_rank (map_moves u dto) = [1 .. int (length (pd_ranked_moves dto))]"
  by (simp add: map_moves_def number_from_ranks map_move_def)

section \<open>Verdicts\<close>

lemma by_title_last:
  "by_title (mvs @ [mv]) = (by_title mvs)(vd_title mv \<mapsto> mv)"
  by (simp add: by_title_def)

definition dropped :: "(string \<Rightarrow> move_verdict option) \<Rightarrow> move \<Rightarrow> bool" where
  "dropped bt m \<longleftrightarrow> (case bt (m_title m) of None \<Rightarrow> False | Some mv \<Rightarrow> \<not> vd_keep mv)"

lemma apply_verdict_loop_spec:
  "fst (apply_verdict_loop bt kept issues ms) =
     kept @ number_from (\<lambda>i m. (adjust_move (bt (m_title m)) m)\<lparr>m_rank := i\<rparr>) (int (length kept) + 1)
       (filter (\<lambda>m. \<not> dropped bt m) ms)"
proof (induction ms arbitrary: kept issues)
  case (Cons m ms)
  show ?case
  proof (cases "bt (m_title m)")
    case None
    thus ?thesis using Cons.IH[of "kept @ [m\<lparr>m_rank := int (length kept) + 1\<rparr>]" issues]
      by (simp add: dropped_def adjust_move_def add.commute)
  next
    case (Some mv)
    show ?thesis
    proof (cases "vd_keep mv")
      case True
      with Some Cons.IH[of "kept @ [(adjust_move (Some mv) m)\<lparr>m_rank := int (length kept) + 1\<rparr>]"]
      show ?thesis by (simp add: dropped_def Let_def add.commute)
    next
      case False
      with Some Cons.IH show ?thesis by (simp add: dropped_def)
    qed
  qed
qed simp

lemma apply_verdict_moves:
  "rs_ranked_moves (fst (apply_verdict res v)) =
     number_from (\<lambda>i m. (adjust_move (by_title (ve_moves v) (m_title m)) m)\<lparr>m_rank := i\<rparr>) 1
       (filter (\<lambda>m. \<not> dropped (by_title (ve_moves v)) m) (rs_ranked_moves res))"
  using apply_verdict_loop_spec[of "by_title (ve_moves v)" "[]" "[]" "rs_ranked_moves res"]
  by (simp add: apply_verdict_def case_prod_beta)

lemma adjust_confidence:
  "m_confidence (adjust_move mv m) = m_confidence m \<or> m_confidence (adjust_move mv m) = NaN \<or>
   confidence_ok (m_confidence (adjust_move mv m))"
  using clamp_confidence_ok by (auto simp: adjust_move_def split: option.splits)

lemma set_number_from: "set (number_from f i xs) = {f (i + int k) (xs ! k) |k. k < length xs}"
  by (auto simp: set_conv_nth) (metis nth_number_from)+

section \<open>Properties\<close>

lemma take_word: "plain_word w \<Longrightarrow> takeWhile (\<lambda>c. c \<noteq> CHR ''-'') w = w"
  by (auto simp: plain_word_def takeWhile_eq_all_conv)

lemma take_first_word:
  assumes "plain_word w"
  shows "takeWhile (\<lambda>c. c \<noteq> CHR ''-'') (join_strs ''-'' (w # ws)) = w"
proof (cases ws)
  case (Cons v vs)
  have "takeWhile (\<lambda>c. c \<noteq> CHR ''-'') (w @ CHR ''-'' # r) = w" for r
    using assms by (subst takeWhile_append2) (auto simp: plain_word_def)
  with Cons show ?thesis by simp
qed (simp add: take_word assms)

lemma join_plain_inj:
  "list_all plain_word ws \<Longrightarrow> list_all plain_word vs \<Longrightarrow> join_strs ''-'' ws = join_strs ''-'' vs \<Longrightarrow> ws = vs"
proof (induction ws arbitrary: vs)
  case Nil
  thus ?case using join_plain_ends[of vs] by (cases vs) auto
next
  case (Cons w ws)
  obtain v vs' where vs: "vs = v # vs'" using Cons.prems join_plain_ends[of "w # ws"] by (cases vs) auto
  have wv: "w = v" using take_first_word[of w ws] take_first_word[of v vs'] Cons.prems vs by simp
  have "join_strs ''-'' ws = join_strs ''-'' vs'"
    using Cons.prems(3) vs wv by (cases "ws = []"; cases "vs' = []") (auto simp: join_strs_Cons)
  with Cons vs wv show ?case by simp
qed

text \<open>
  The identity of a move without an explicit key is its title's lower-cased runs of letters
  and digits joined by single hyphens: two titles get the same slug exactly when they have the
  same words, so punctuation, case and spacing edits keep the identity, and the slug the model
  adapter stores is the one the engine compares.
\<close>

theorem slug_identifies_words:
  assumes "alnum_runes u"
  shows "move_key_or_slug u '''' s = join_strs ''-'' (words_of u '''' (uc_runes u (uc_to_lower u s))) \<and>
    slug u s = move_key_or_slug u '''' s \<and>
    (slug u s = slug u t \<longleftrightarrow>
       words_of u '''' (uc_runes u (uc_to_lower u s)) = words_of u '''' (uc_runes u (uc_to_lower u t)))"
proof -
  have p: "list_all plain_word (words_of u '''' rs)" for rs
    using slug_loop_words[OF assms, of "[]" "''''" False "''''" rs] by simp
  show ?thesis
    using join_plain_inj[OF p p] by (auto simp: move_key_or_slug_eq slug_words[OF assms])
qed

theorem slug_identifies_words_witness:
  "slug ascii_unicode ''Run  A/B test!'' = ''run-a-b-test''"
proof -
  have "words_of ascii_unicode '''' (uc_runes ascii_unicode (uc_to_lower ascii_unicode ''Run  A/B test!'')) =
      [''run'', ''a'', ''b'', ''test'']"
    by code_simp
  with slug_identifies_words[OF ascii_alnum_runes, of "''Run  A/B test!''"] show ?thesis by simp
qed

text \<open>
  A model's plan is coerced into range: moves keep their order and are ranked 1..N, every
  level is one of the three, and every confidence that is a number lies in [0, 1].
\<close>

theorem map_moves_ranges:
  "map m_rank (map_moves u dto) = [1 .. int (length (pd_ranked_moves dto))] \<and>
   map m_title (map_moves u dto) = map md_title (pd_ranked_moves dto) \<and>
   list_all (\<lambda>m. level_valid (m_expected_impact m) \<and> level_valid (m_effort m) \<and> level_valid (m_risk m) \<and>
      (m_confidence m = NaN \<or> confidence_ok (m_confidence m))) (map_moves u dto)"
proof -
  have "map m_title (map_moves u dto) = map md_title (pd_ranked_moves dto)"
    unfolding map_moves_def by (rule map_number_from) (simp add: map_move_def)
  moreover have "list_all (\<lambda>m. level_valid (m_expected_impact m) \<and> level_valid (m_effort m) \<and>
      level_valid (m_risk m) \<and> (m_confidence m = NaN \<or> confidence_ok (m_confidence m))) (map_moves u dto)"
    using clamp_confidence_ok
    by (auto simp: list_all_length map_moves_def map_move_def to_level_valid)
  ultimately show ?thesis by (simp add: map_moves_ranks)
qed

text \<open>
  A reviewer's verdict only drops and re-scores: the survivors are exactly the moves that were
  not rejected, in the proposer's order, re-ranked 1..N and unchanged but for a confidence that
  is clamped into [0, 1] when the reviewer adjusted it.
\<close>

theorem apply_verdict_survivors:
  "let kept = rs_ranked_moves (fst (apply_verdict res v));
       asked = filter (\<lambda>m. \<not> dropped (by_title (ve_moves v)) m) (rs_ranked_moves res)
   in map m_rank kept = [1 .. int (length asked)] \<and>
      list_all2 (\<lambda>m k. k = m\<lparr>m_confidence := m_confidence k, m_rank := m_rank k\<rparr> \<and>
        (m_confidence k = m_confidence m \<or> m_confidence k = NaN \<or> confidence_ok (m_confidence k))) asked kept"
proof -
  let ?asked = "filter (\<lambda>m. \<not> dropped (by_title (ve_moves v)) m) (rs_ranked_moves res)"
  let ?f = "\<lambda>i m. (adjust_move (by_title (ve_moves v) (m_title m)) m)\<lparr>m_rank := i\<rparr>"
  have "map m_rank (number_from ?f 1 ?asked) = [1 .. int (length ?asked)]"
    by (simp add: number_from_ranks)
  moreover have "list_all2 (\<lambda>m k. k = m\<lparr>m_confidence := m_confidence k, m_rank := m_rank k\<rparr> \<and>
        (m_confidence k = m_confidence m \<or> m_confidence k = NaN \<or> confidence_ok (m_confidence k)))
      ?asked (number_from ?f 1 ?asked)"
  proof (rule list_all2_all_nthI)
    fix i assume "i < length ?asked"
    thus "number_from ?f 1 ?asked ! i =
        (?asked ! i)\<lparr>m_confidence := m_confidence (number_from ?f 1 ?asked ! i),
                    m_rank := m_rank (number_from ?f 1 ?asked ! i)\<rparr> \<and>
      (m_confidence (number_from ?f 1 ?asked ! i) = m_confidence (?asked ! i) \<or>
       m_confidence (number_from ?f 1 ?asked ! i) = NaN \<or>
       confidence_ok (m_confidence (number_from ?f 1 ?asked ! i)))"
      using adjust_confidence[of "by_title (ve_moves v) (m_title (?asked ! i))" "?asked ! i"]
      by (auto simp: adjust_move_def split: option.splits)
  qed simp
  ultimately show ?thesis by (simp add: apply_verdict_moves Let_def)
qed

end
