(* ===== verification/Engine.thy ===== *)
theory Engine
  imports Llm_Plan Cycle_Check
begin

text \<open>
  \<open>internal/engine\<close>: the materiality policy (\<open>evaluator.go\<close>) and the engine that asks the
  gate, the enricher, the planner and the evaluator in turn (\<open>planner.go\<close>,
  \<open>replanner.go\<close>). The collaborators are fields of the engine record; a resolver that is not
  configured is None.
\<close>

section \<open>Materiality\<close>

definition DefaultConfidenceDelta :: f64 where "DefaultConfidenceDelta = lit (1 / 10)"

definition eng_move_key :: "unicode \<Rightarrow> move \<Rightarrow> string" where
  "eng_move_key u m = (if m_key m \<noteq> '''' then m_key m else slug u (m_title m))"

definition same_order :: "unicode \<Rightarrow> move list \<Rightarrow> move list \<Rightarrow> bool" where
  "same_order u a b =
     (if length a \<noteq> length b then False
      else list_all (\<lambda>i. eng_move_key u (a ! i) = eng_move_key u (b ! i)) [0..<length a])"

text \<open>The set is the keys of the Go map; the loop removes each matched element.\<close>

fun same_set_loop :: "string list \<Rightarrow> string list \<Rightarrow> bool" where
  "same_set_loop s [] = (s = [])"
| "same_set_loop s (x # b) = (if x \<in> set s then same_set_loop (removeAll x s) b else False)"

definition same_string_set :: "string list \<Rightarrow> string list \<Rightarrow> bool" where
  "same_string_set a b =
     (if a = [] \<and> b = [] then True else same_set_loop (remdups a) b)"

definition cand_by_key :: "unicode \<Rightarrow> move list \<Rightarrow> string \<Rightarrow> move option" where
  "cand_by_key u ms = foldl (\<lambda>t m. t(eng_move_key u m \<mapsto> m)) Map.empty ms"

fun structure_loop :: "unicode \<Rightarrow> (string \<Rightarrow> move option) \<Rightarrow> move list \<Rightarrow> bool \<times> string" where
  "structure_loop u cand [] = (False, '''')"
| "structure_loop u cand (c # cs) =
     (case cand (eng_move_key u c) of
        None \<Rightarrow> structure_loop u cand cs
      | Some n \<Rightarrow>
          if \<not> same_string_set (m_depends_on c) (m_depends_on n) then (True, ''execution dependencies changed'')
          else if m_parallel_group c \<noteq> m_parallel_group n then (True, ''parallel grouping changed'')
          else structure_loop u cand cs)"

definition structure_change :: "unicode \<Rightarrow> move list \<Rightarrow> move list \<Rightarrow> bool \<times> string" where
  "structure_change u cur cand = structure_loop u (cand_by_key u cand) cur"

definition confidence_delta :: "f64 \<Rightarrow> f64" where
  "confidence_delta t = (if t \<le> 0 then DefaultConfidenceDelta else t)"

definition is_material :: "unicode \<Rightarrow> f64 \<Rightarrow> move list \<Rightarrow> move list \<Rightarrow> bool \<times> string" where
  "is_material u t cur cand =
     (if cur = [] then (True, ''no prior plan to compare against'')
      else if cand = [] then (True, ''candidate plan has no moves'')
      else if eng_move_key u (cur ! 0) \<noteq> eng_move_key u (cand ! 0) then (True, ''top-ranked move changed'')
      else if \<not> same_order u cur cand then (True, ''ranking of moves changed'')
      else if confidence_delta t \<le> \<bar>m_confidence (cur ! 0) - m_confidence (cand ! 0)\<bar>
        then (True, ''confidence on the top move shifted materially'')
      else
        let (changed, reason) = structure_change u cur cand
        in if changed then (True, reason)
           else (False, ''no material change in the recommended action path''))"

section \<open>The engine\<close>

type_synonym evaluator = "move list \<Rightarrow> move list \<Rightarrow> bool \<times> string"
type_synonym replan_gate = "goal \<Rightarrow> string \<Rightarrow> payload \<Rightarrow> move list \<Rightarrow> bool \<times> string"
type_synonym enricher = "goal \<Rightarrow> string \<Rightarrow> payload \<Rightarrow> goal \<times> source_contribution list"

record engine =
  en_planner :: planner
  en_evaluator :: evaluator
  en_resolver :: "(string \<Rightarrow> evaluator) option"
  en_gate_resolver :: "(string \<Rightarrow> replan_gate option) option"
  en_source_resolver :: "(string \<Rightarrow> enricher option) option"
  en_clock :: time

definition new_engine :: "unicode \<Rightarrow> planner \<Rightarrow> time \<Rightarrow> engine" where
  "new_engine u p now =
     \<lparr>en_planner = p, en_evaluator = is_material u DefaultConfidenceDelta, en_resolver = None,
      en_gate_resolver = None, en_source_resolver = None, en_clock = now\<rparr>"

definition evaluator_for :: "engine \<Rightarrow> goal \<Rightarrow> evaluator" where
  "evaluator_for e g = (case en_resolver e of None \<Rightarrow> en_evaluator e | Some r \<Rightarrow> r (g_domain g))"

definition gate_for :: "engine \<Rightarrow> goal \<Rightarrow> replan_gate option" where
  "gate_for e g = (case en_gate_resolver e of None \<Rightarrow> None | Some r \<Rightarrow> r (g_domain g))"

definition enrich :: "engine \<Rightarrow> goal \<Rightarrow> string \<Rightarrow> payload \<Rightarrow> goal \<times> source_contribution list" where
  "enrich e g kind payload =
     (case en_source_resolver e of
        None \<Rightarrow> (g, [])
      | Some r \<Rightarrow> (case r (g_domain g) of None \<Rightarrow> (g, []) | Some enr \<Rightarrow> enr g kind payload))"

definition build_version :: "engine \<Rightarrow> string \<Rightarrow> int \<Rightarrow> goal \<Rightarrow> plan_result \<Rightarrow> plan_version" where
  "build_version e pid n g res =
     \<lparr>v_plan_id = pid, v_version = n, v_goal = g_objective g, v_summary = rs_summary res,
      v_ranked_moves = sanitize_move_graph (rs_ranked_moves res), v_provenance = rs_provenance res,
      v_input_snapshot_id = pr_input_snapshot_id (rs_provenance res), v_created_at = en_clock e\<rparr>"

definition with_contribs :: "plan_result \<Rightarrow> source_contribution list \<Rightarrow> plan_result" where
  "with_contribs res cs =
     res\<lparr>rs_provenance := (rs_provenance res)\<lparr>pr_source_contributions := cs\<rparr>\<rparr>"

text \<open>\<open>fresh\<close> is the identifier that \<open>domain.NewID("plan")\<close> draws.\<close>

definition evaluate :: "engine \<Rightarrow> string \<Rightarrow> goal \<Rightarrow> string \<Rightarrow> go_error + plan_version" where
  "evaluate e fresh g note =
     (let (g', contribs) = enrich e g '''' [] in
      case en_planner e (zero_request\<lparr>rq_goal := g', rq_signal_note := note\<rparr>) of
        Inl err \<Rightarrow> Inl (EWrap ''engine: evaluate'' err)
      | Inr res \<Rightarrow> Inr (build_version e fresh 1 g' (with_contribs res contribs)))"

definition generate_initial_plan :: "engine \<Rightarrow> string \<Rightarrow> goal \<Rightarrow> go_error + plan_version" where
  "generate_initial_plan e fresh g = evaluate e fresh g ''''"

record replan_result =
  rr_material :: bool
  rr_reason :: string
  rr_candidate :: plan_version

definition replan_request :: "goal \<Rightarrow> plan_version \<Rightarrow> string \<Rightarrow> string \<Rightarrow> payload \<Rightarrow> plan_request" where
  "replan_request g cur note kind payload =
     zero_request\<lparr>rq_goal := g, rq_signal_note := note, rq_signal_kind := kind,
       rq_signal_payload := payload, rq_current_moves := v_ranked_moves cur,
       rq_current_strategy := pr_selected_strategy (v_provenance cur)\<rparr>"

definition replan_body ::
  "engine \<Rightarrow> goal \<Rightarrow> plan_version \<Rightarrow> string \<Rightarrow> string \<Rightarrow> payload \<Rightarrow> go_error + replan_result" where
  "replan_body e g cur note kind payload =
     (let (g', contribs) = enrich e g kind payload in
      case en_planner e (replan_request g' cur note kind payload) of
        Inl err \<Rightarrow> Inl (EWrap ''engine: replan'' err)
      | Inr res \<Rightarrow>
          let cand = build_version e (v_plan_id cur) (v_version cur + 1) g' (with_contribs res contribs);
              (material, reason) = evaluator_for e g' (v_ranked_moves cur) (v_ranked_moves cand)
          in Inr \<lparr>rr_material = material, rr_reason = reason, rr_candidate = cand\<rparr>)"

definition replan ::
  "engine \<Rightarrow> goal \<Rightarrow> plan_version \<Rightarrow> string \<Rightarrow> string \<Rightarrow> payload \<Rightarrow> go_error + replan_result" where
  "replan e g cur note kind payload =
     (case gate_for e g of
        Some gate \<Rightarrow>
          (let (proceed, reason) = gate g kind payload (v_ranked_moves cur) in
           if \<not> proceed then Inr \<lparr>rr_material = False, rr_reason = reason, rr_candidate = zero_version\<rparr>
           else replan_body e g cur note kind payload)
      | None \<Rightarrow> replan_body e g cur note kind payload)"

section \<open>Materiality, declaratively\<close>

lemma same_set_loop_iff: "same_set_loop s b \<longleftrightarrow> set s = set b \<and> distinct b"
  by (induction b arbitrary: s) auto

lemma same_string_set_iff: "same_string_set a b \<longleftrightarrow> set a = set b \<and> distinct b"
  by (auto simp: same_string_set_def same_set_loop_iff)

lemma same_order_iff: "same_order u a b \<longleftrightarrow> map (eng_move_key u) a = map (eng_move_key u) b"
proof -
  have "map (eng_move_key u) a = map (eng_move_key u) b \<longleftrightarrow>
      length a = length b \<and> (\<forall>i < length a. eng_move_key u (a ! i) = eng_move_key u (b ! i))"
    by (subst list_eq_iff_nth_eq) auto
  thus ?thesis by (auto simp: same_order_def list_all_iff)
qed

lemma cand_by_key_snoc: "cand_by_key u (ms @ [m]) = (cand_by_key u ms)(eng_move_key u m \<mapsto> m)"
  by (simp add: cand_by_key_def)

lemma cand_by_key_find: "cand_by_key u ms k = List.find (\<lambda>m. eng_move_key u m = k) (rev ms)"
  by (induction ms rule: rev_induct) (auto simp: cand_by_key_snoc, simp add: cand_by_key_def)

lemma structure_loop_iff:
  "fst (structure_loop u cand cs) \<longleftrightarrow>
     (\<exists>c \<in> set cs. \<exists>n. cand (eng_move_key u c) = Some n \<and>
        \<not> (same_string_set (m_depends_on c) (m_depends_on n) \<and> m_parallel_group c = m_parallel_group n))"
  by (induction cs) (auto split: option.splits)

lemma is_material_iff:
  "\<not> fst (is_material u t cur cand) \<longleftrightarrow>
     cur \<noteq> [] \<and> cand \<noteq> [] \<and> map (eng_move_key u) cur = map (eng_move_key u) cand \<and>
     \<not> confidence_delta t \<le> \<bar>m_confidence (hd cur) - m_confidence (hd cand)\<bar> \<and>
     \<not> fst (structure_change u cur cand)"
proof -
  have "cur \<noteq> [] \<Longrightarrow> cand \<noteq> [] \<Longrightarrow> map (eng_move_key u) cur = map (eng_move_key u) cand \<Longrightarrow>
      eng_move_key u (cur ! 0) = eng_move_key u (cand ! 0)"
    by (cases cur; cases cand) auto
  thus ?thesis by (auto simp: is_material_def same_order_iff hd_conv_nth split: prod.splits)
qed

definition same_step :: "unicode \<Rightarrow> move \<Rightarrow> move \<Rightarrow> bool" where
  "same_step u c n \<longleftrightarrow> eng_move_key u c = eng_move_key u n \<and>
     set (m_depends_on c) = set (m_depends_on n) \<and> m_parallel_group c = m_parallel_group n"

definition unique_keys :: "unicode \<Rightarrow> move list \<Rightarrow> bool" where
  "unique_keys u ms \<longleftrightarrow> distinct (map (eng_move_key u) ms)"

lemma cand_by_key_nth:
  assumes "unique_keys u ms" "i < length ms"
  shows "cand_by_key u ms (eng_move_key u (ms ! i)) = Some (ms ! i)"
proof -
  obtain n where n: "cand_by_key u ms (eng_move_key u (ms ! i)) = Some n"
  proof (cases "cand_by_key u ms (eng_move_key u (ms ! i))")
    case None
    with nth_mem[OF assms(2)] have False unfolding cand_by_key_find find_None_iff set_rev by blast
    thus ?thesis ..
  qed (use that in blast)
  hence "n \<in> set ms" "eng_move_key u n = eng_move_key u (ms ! i)"
    by (auto simp: cand_by_key_find dest: find_SomeD)
  with assms have "n = ms ! i" by (auto simp: unique_keys_def distinct_map dest: inj_onD)
  with n show ?thesis by simp
qed

lemma is_material_unique:
  assumes "unique_keys u cand" "list_all (\<lambda>m. distinct (m_depends_on m)) cand"
  shows "\<not> fst (is_material u t cur cand) \<longleftrightarrow>
     cur \<noteq> [] \<and> list_all2 (same_step u) cur cand \<and>
     \<not> confidence_delta t \<le> \<bar>m_confidence (hd cur) - m_confidence (hd cand)\<bar>"
proof -
  have "fst (structure_change u cur cand) \<longleftrightarrow> \<not> list_all2 (same_step u) cur cand"
    if k: "map (eng_move_key u) cur = map (eng_move_key u) cand"
  proof -
    have l: "length cur = length cand" using k by (rule map_eq_imp_length_eq)
    have key: "eng_move_key u (cur ! i) = eng_move_key u (cand ! i)" if "i < length cand" for i
      using k l that by (metis nth_map)
    have "fst (structure_change u cur cand) \<longleftrightarrow>
        (\<exists>i < length cand. \<not> same_step u (cur ! i) (cand ! i))"
    proof -
      have d: "cand_by_key u cand (eng_move_key u (cur ! i)) = Some n \<longleftrightarrow> n = cand ! i"
        "distinct (m_depends_on (cand ! i))" if "i < length cand" for i n
        using cand_by_key_nth[OF assms(1) that] key[OF that] assms(2) that
        by (auto simp: list_all_length)
      have "fst (structure_change u cur cand) \<longleftrightarrow>
          (\<exists>i < length cand. \<not> (same_string_set (m_depends_on (cur ! i)) (m_depends_on (cand ! i)) \<and>
             m_parallel_group (cur ! i) = m_parallel_group (cand ! i)))"
        unfolding structure_change_def structure_loop_iff Bex_def in_set_conv_nth using d(1) l by metis
      thus ?thesis using d(2) key by (auto simp: same_step_def same_string_set_iff)
    qed
    thus ?thesis using l by (auto simp: list_all2_conv_all_nth)
  qed
  moreover have "list_all2 (same_step u) cur cand \<Longrightarrow> map (eng_move_key u) cur = map (eng_move_key u) cand"
    by (induction rule: list_all2_induct) (auto simp: same_step_def)
  moreover have "list_all2 (same_step u) cur cand \<Longrightarrow> cur \<noteq> [] \<longleftrightarrow> cand \<noteq> []" by auto
  ultimately show ?thesis unfolding is_material_iff by blast
qed

lemma default_delta_pos: "\<not> DefaultConfidenceDelta \<le> 0"
proof -
  have "Fin 0 < rnd (1 / 10)"
    by (rule rnd_pos) (simp add: power_int_def power_one_over divide_le_eq le_divide_eq)
  hence "\<not> rnd (1 / 10) \<le> Fin 0" by (metis fle_flt_trans flt_irrefl)
  thus ?thesis by (simp add: DefaultConfidenceDelta_def lit_def)
qed

lemma delta_not_le_0: "\<not> confidence_delta t \<le> 0"
  using default_delta_pos by (simp add: confidence_delta_def)

lemma graph_ok_distinct: "graph_ok ms \<Longrightarrow> list_all (\<lambda>m. distinct (m_depends_on m)) ms"
  by (auto simp: graph_ok_def refs_ok_def list_all_length)

lemma sanitize_distinct: "list_all (\<lambda>m. distinct (m_depends_on m)) (sanitize_move_graph ms)"
  by (rule graph_ok_distinct[OF sanitize_ok])

lemma same_step_refl [simp]: "same_step u m m"
  by (simp add: same_step_def)

lemma abs_diff_self: "\<bar>c - c\<bar> = (0::f64) \<or> \<bar>c - c\<bar> = NaN"
  by (cases c) (auto simp: minus_f64_def)

lemma not_material_refl:
  assumes "unique_keys u ms" "list_all (\<lambda>m. distinct (m_depends_on m)) ms" "ms \<noteq> []"
  shows "\<not> fst (is_material u t ms ms)"
proof -
  have "\<not> confidence_delta t \<le> \<bar>m_confidence (hd ms) - m_confidence (hd ms)\<bar>"
    using abs_diff_self[of "m_confidence (hd ms)"] delta_not_le_0[of t] fle_not_NaN by auto
  with assms show ?thesis
    by (simp add: is_material_unique list_all2_refl)
qed

text \<open>The move the comparison finds under a key: the last one that has it.\<close>

definition last_with_key :: "unicode \<Rightarrow> move list \<Rightarrow> string \<Rightarrow> move option" where
  "last_with_key u ms k = List.find (\<lambda>m. eng_move_key u m = k) (rev ms)"

lemma not_structure_change:
  assumes "map (eng_move_key u) cur = map (eng_move_key u) cand"
  shows "\<not> fst (structure_change u cur cand) \<longleftrightarrow>
     (\<forall>c \<in> set cur. \<exists>n. last_with_key u cand (eng_move_key u c) = Some n \<and>
        set (m_depends_on c) = set (m_depends_on n) \<and> distinct (m_depends_on n) \<and>
        m_parallel_group c = m_parallel_group n)"
proof -
  have found: "\<exists>n. cand_by_key u cand (eng_move_key u c) = Some n" if "c \<in> set cur" for c
  proof -
    have "eng_move_key u c \<in> set (map (eng_move_key u) cand)" unfolding assms[symmetric] using that by simp
    then obtain m where "m \<in> set cand" "eng_move_key u m = eng_move_key u c" by auto
    hence "List.find (\<lambda>m. eng_move_key u m = eng_move_key u c) (rev cand) \<noteq> None"
      unfolding find_None_iff set_rev by blast
    thus ?thesis unfolding cand_by_key_find by blast
  qed
  let ?P = "\<lambda>c n. set (m_depends_on c) = set (m_depends_on n) \<and> distinct (m_depends_on n) \<and>
    m_parallel_group c = m_parallel_group n"
  have key: "(\<exists>n. cand_by_key u cand (eng_move_key u c) = Some n \<and> \<not> ?P c n) \<longleftrightarrow>
      \<not> (\<exists>n. cand_by_key u cand (eng_move_key u c) = Some n \<and> ?P c n)" if c: "c \<in> set cur" for c
  proof -
    obtain n where "cand_by_key u cand (eng_move_key u c) = Some n" using found[OF c] by blast
    thus ?thesis by simp
  qed
  have "fst (structure_change u cur cand) \<longleftrightarrow>
      (\<exists>c \<in> set cur. \<exists>n. cand_by_key u cand (eng_move_key u c) = Some n \<and> \<not> ?P c n)"
    by (simp only: structure_change_def structure_loop_iff same_string_set_iff conj_assoc)
  also have "\<dots> \<longleftrightarrow> (\<exists>c \<in> set cur. \<not> (\<exists>n. cand_by_key u cand (eng_move_key u c) = Some n \<and> ?P c n))"
    by (rule bex_cong[OF refl key])
  finally show ?thesis unfolding last_with_key_def cand_by_key_find[symmetric] by (simp only: bex_simps ball_simps not_not)
qed

section \<open>What Replan returns\<close>

lemma replan_body_shape:
  assumes "replan_body e g cur note kind payload = Inr r"
  shows "\<exists>g' res. v_plan_id (rr_candidate r) = v_plan_id cur \<and>
     v_version (rr_candidate r) = v_version cur + 1 \<and>
     v_ranked_moves (rr_candidate r) = sanitize_move_graph (rs_ranked_moves res) \<and>
     fst (enrich e g kind payload) = g' \<and>
     en_planner e (replan_request g' cur note kind payload) = Inr res \<and>
     (rr_material r, rr_reason r) =
        evaluator_for e g' (v_ranked_moves cur) (v_ranked_moves (rr_candidate r))"
  using assms
  by (auto simp: replan_body_def build_version_def with_contribs_def Let_def split: prod.splits sum.splits)

lemma replan_body_planned:
  "en_planner e (replan_request (fst (enrich e g kind payload)) cur note kind payload) = Inr res \<Longrightarrow>
   \<exists>r. replan_body e g cur note kind payload = Inr r"
  by (simp add: replan_body_def Let_def case_prod_beta)

lemma replan_cases:
  assumes "replan e g cur note kind payload = Inr r"
  obtains (refused) gate where "gate_for e g = Some gate" "\<not> fst (gate g kind payload (v_ranked_moves cur))"
      "r = \<lparr>rr_material = False, rr_reason = snd (gate g kind payload (v_ranked_moves cur)),
            rr_candidate = zero_version\<rparr>"
  | (planned) "replan_body e g cur note kind payload = Inr r"
proof (cases "gate_for e g")
  case None
  with assms planned show thesis by (simp add: replan_def)
next
  case (Some gate)
  show thesis
  proof (cases "fst (gate g kind payload (v_ranked_moves cur))")
    case True
    with assms Some planned show thesis by (auto simp: replan_def Let_def split: prod.splits)
  next
    case False
    with assms Some refused[of gate] show thesis by (auto simp: replan_def Let_def split: prod.splits)
  qed
qed

section \<open>Properties\<close>

text \<open>
  C12: the default policy keeps the current version exactly when there is one, the candidate has the
  same keys in the same order, each current move has the dependency set and the parallel group of the
  last candidate move with its key, whose dependencies do not repeat, and the top confidence did
  not move by the threshold or more (a difference that is not a number counts as no move). For a
  candidate with unique keys and a well-formed graph that is agreement position by position, and such a
  candidate is never material against itself.
\<close>

theorem materiality_decides:
  shows "(\<not> fst (is_material u t cur cand) \<longleftrightarrow>
      cur \<noteq> [] \<and> map (eng_move_key u) cur = map (eng_move_key u) cand \<and>
      (\<forall>c \<in> set cur. \<exists>n. last_with_key u cand (eng_move_key u c) = Some n \<and>
         set (m_depends_on c) = set (m_depends_on n) \<and> distinct (m_depends_on n) \<and>
         m_parallel_group c = m_parallel_group n) \<and>
      \<not> confidence_delta t \<le> \<bar>m_confidence (hd cur) - m_confidence (hd cand)\<bar>) \<and>
    (unique_keys u cand \<and> graph_ok cand \<longrightarrow>
      (\<not> fst (is_material u t cur cand) \<longleftrightarrow>
         cur \<noteq> [] \<and> list_all2 (same_step u) cur cand \<and>
         \<not> confidence_delta t \<le> \<bar>m_confidence (hd cur) - m_confidence (hd cand)\<bar>) \<and>
      (cand \<noteq> [] \<longrightarrow> \<not> fst (is_material u t cand cand)))"
  using is_material_unique[OF _ graph_ok_distinct] not_material_refl[OF _ graph_ok_distinct]
    not_structure_change[of u cur cand]
  by (auto simp: is_material_iff)

definition sample_move :: "string \<Rightarrow> f64 \<Rightarrow> string list \<Rightarrow> move" where
  "sample_move k c ds = zero_move\<lparr>m_rank := 1, m_key := k, m_confidence := c, m_depends_on := ds\<rparr>"

lemma sample_graph_ok: "graph_ok [sample_move k c []]"
proof -
  have "dep_edges [sample_move k c []] = {}" by (auto simp: dep_edges_def sample_move_def)
  thus ?thesis by (simp add: graph_ok_def refs_ok_def sample_move_def acyclic_def)
qed

theorem materiality_decides_witness:
  "fst (is_material ascii_unicode 0 [sample_move ''a'' 1 []] [sample_move ''b'' 1 []]) \<and>
   \<not> fst (is_material ascii_unicode 0 [sample_move ''b'' 1 []] [sample_move ''b'' 1 []])"
proof -
  have "unique_keys ascii_unicode [sample_move ''b'' 1 []]" by (simp add: unique_keys_def)
  with materiality_decides[of ascii_unicode 0 "[sample_move ''a'' 1 []]" "[sample_move ''b'' 1 []]"] sample_graph_ok[of "''b''" 1]
  show ?thesis by (simp add: same_step_def eng_move_key_def sample_move_def)
qed

text \<open>
  \<open>Replan\<close> never touches the current version: it either answers that the domain's gate
  refused the signal, without consulting the planner, or proposes version N+1 of the same plan
  with a well-formed dependency graph, judged by the domain's evaluator against the current moves.
\<close>

theorem replan_proposes_next:
  assumes "replan e g cur note kind payload = Inr r"
  shows "(\<exists>gate. gate_for e g = Some gate \<and> \<not> fst (gate g kind payload (v_ranked_moves cur)) \<and>
       \<not> rr_material r \<and> (\<forall>p. replan (e\<lparr>en_planner := p\<rparr>) g cur note kind payload = Inr r)) \<or>
     (v_plan_id (rr_candidate r) = v_plan_id cur \<and> v_version (rr_candidate r) = v_version cur + 1 \<and>
      graph_ok (v_ranked_moves (rr_candidate r)) \<and>
      (rr_material r, rr_reason r) = evaluator_for e (fst (enrich e g kind payload))
         (v_ranked_moves cur) (v_ranked_moves (rr_candidate r)))"
  using assms
proof (cases rule: replan_cases)
  case (refused gate)
  have "replan (e\<lparr>en_planner := p\<rparr>) g cur note kind payload = Inr r" for p
    using refused by (auto simp: replan_def gate_for_def Let_def split: prod.splits)
  with refused show ?thesis by auto
next
  case planned
  with replan_body_shape[OF planned] show ?thesis using sanitize_ok by auto
qed

definition sample_engine :: "move list \<Rightarrow> engine" where
  "sample_engine ms =
     new_engine ascii_unicode (\<lambda>_. Inr (zero_result\<lparr>rs_ranked_moves := ms\<rparr>)) 7"

theorem replan_proposes_next_witness:
  "\<exists>r. replan (sample_engine [sample_move ''a'' 1 []]) zero_goal (zero_version\<lparr>v_version := 4\<rparr>) '''' ''k'' [] = Inr r \<and>
     v_version (rr_candidate r) = 5"
proof -
  let ?e = "sample_engine [sample_move ''a'' 1 []]" and ?c = "zero_version\<lparr>v_version := 4\<rparr>"
  have "gate_for ?e zero_goal = None" by (simp add: gate_for_def sample_engine_def new_engine_def)
  moreover have "\<exists>r. replan ?e zero_goal ?c '''' ''k'' [] = Inr r"
    using replan_body_planned[of ?e] calculation
    by (simp add: replan_def sample_engine_def new_engine_def)
  ultimately show ?thesis using replan_proposes_next[of ?e zero_goal ?c "''''" "''k''" "[]"] by fastforce
qed

text \<open>
  Re-running a replan whose version was already written is idempotent: with the default
  policy, if the planner answers again with the same moves, with unique keys, the second replan
  against the version the first one proposed is immaterial, so no duplicate version is cut.
\<close>

theorem replan_idempotent:
  assumes first: "replan_body e g cur note kind payload = Inr r"
    and eval: "evaluator_for e (fst (enrich e g kind payload)) = is_material u t"
    and again: "replan_body e g (rr_candidate r) note kind payload = Inr r'"
    and same: "v_ranked_moves (rr_candidate r') = v_ranked_moves (rr_candidate r)"
    and moves: "unique_keys u (v_ranked_moves (rr_candidate r))" "v_ranked_moves (rr_candidate r) \<noteq> []"
  shows "\<not> rr_material r'"
proof -
  have "list_all (\<lambda>m. distinct (m_depends_on m)) (v_ranked_moves (rr_candidate r))"
    using replan_body_shape[OF first] sanitize_distinct by metis
  moreover have "(rr_material r', rr_reason r') =
      is_material u t (v_ranked_moves (rr_candidate r)) (v_ranked_moves (rr_candidate r'))"
    using replan_body_shape[OF again] eval by auto
  ultimately show ?thesis using not_material_refl[OF moves(1) _ moves(2)] same by (metis fst_conv)
qed

theorem replan_idempotent_witness:
  "\<exists>r r'. replan_body (sample_engine [sample_move ''a'' 1 []]) zero_goal zero_version '''' ''k'' [] = Inr r \<and>
     replan_body (sample_engine [sample_move ''a'' 1 []]) zero_goal (rr_candidate r) '''' ''k'' [] = Inr r' \<and>
     rr_material r \<and> \<not> rr_material r'"
proof -
  let ?ms = "[sample_move ''a'' 1 []]"
  let ?e = "sample_engine ?ms"
  have s: "sanitize_move_graph ?ms = ?ms" using sanitize_id[OF sample_graph_ok] .
  have ev: "evaluator_for ?e g = is_material ascii_unicode DefaultConfidenceDelta" for g
    by (simp add: evaluator_for_def sample_engine_def new_engine_def)
  have pl: "en_planner ?e rq = Inr (zero_result\<lparr>rs_ranked_moves := ?ms\<rparr>)" for rq
    by (simp add: sample_engine_def new_engine_def)
  have ex: "\<exists>r. replan_body ?e zero_goal cur '''' ''k'' [] = Inr r \<and> v_ranked_moves (rr_candidate r) = ?ms \<and>
      (cur = zero_version \<longrightarrow> rr_material r)" for cur
  proof -
    obtain r where r: "replan_body ?e zero_goal cur '''' ''k'' [] = Inr r"
      using replan_body_planned pl by blast
    from replan_body_shape[OF r] pl have "v_ranked_moves (rr_candidate r) = ?ms"
      and "(rr_material r, rr_reason r) = is_material ascii_unicode DefaultConfidenceDelta (v_ranked_moves cur) ?ms"
      by (auto simp: ev[simplified] s[simplified])
    with r show ?thesis by (auto simp: is_material_def zero_version_def)
  qed
  obtain r where r: "replan_body ?e zero_goal zero_version '''' ''k'' [] = Inr r"
    "v_ranked_moves (rr_candidate r) = ?ms" "rr_material r" using ex[of zero_version] by auto
  obtain r' where r': "replan_body ?e zero_goal (rr_candidate r) '''' ''k'' [] = Inr r'"
    "v_ranked_moves (rr_candidate r') = ?ms" using ex[of "rr_candidate r"] by auto
  from replan_idempotent[OF r(1) ev r'(1)] r r' show ?thesis
    by (auto simp: unique_keys_def)
qed

end
