(* ===== verification/Constraint_Text.thy ===== *)
theory Constraint_Text
  imports Domain
begin

text \<open>
  The text patterns that \<open>internal/strategy/utility.go\<close> and
  \<open>internal/finance/constraints.go\<close> read in a goal's constraints. The three regular
  expressions of both files are the same; each is written here as the search that RE2 performs.
\<close>

section \<open>Keywords between word boundaries\<close>

definition word_char :: "char \<Rightarrow> bool" where
  "word_char c \<longleftrightarrow> ascii_letter c \<or> ascii_digit c \<or> c = CHR ''_''"

definition word_here :: "string list \<Rightarrow> string \<Rightarrow> bool" where
  "word_here ws s \<longleftrightarrow>
     list_ex (\<lambda>w. take (length w) s = w \<and> (case drop (length w) s of [] \<Rightarrow> True | c # _ \<Rightarrow> \<not> word_char c)) ws"

text \<open>The flag tells whether the byte before the position is a word character.\<close>

fun has_word_from :: "string list \<Rightarrow> bool \<Rightarrow> string \<Rightarrow> bool" where
  "has_word_from ws prev [] = False"
| "has_word_from ws prev (c # cs) =
     ((\<not> prev \<and> word_here ws (c # cs)) \<or> has_word_from ws (word_char c) cs)"

definition conservative_re :: "string \<Rightarrow> bool" where
  "conservative_re s = has_word_from [''conservative'', ''cautious'', ''low''] False s"

definition aggressive_re :: "string \<Rightarrow> bool" where
  "aggressive_re s = has_word_from [''aggressive'', ''high''] False s"

section \<open>Percentages\<close>

definition re_space :: "char \<Rightarrow> bool" where
  "re_space c \<longleftrightarrow> (of_char c :: nat) \<in> {9, 10, 12, 13, 32}"

definition number_at :: "string \<Rightarrow> string \<times> string" where
  "number_at s =
     (let ds = takeWhile ascii_digit s; r = dropWhile ascii_digit s in
      case r of
        [] \<Rightarrow> (ds, r)
      | c # r1 \<Rightarrow>
          if c = CHR ''.'' \<and> takeWhile ascii_digit r1 \<noteq> []
          then (ds @ [c] @ takeWhile ascii_digit r1, dropWhile ascii_digit r1)
          else (ds, r))"

definition percent_at :: "string \<Rightarrow> string option" where
  "percent_at s =
     (if takeWhile ascii_digit s = [] then None
      else let (num, r) = number_at s in
        case dropWhile re_space r of
          [] \<Rightarrow> None
        | c # _ \<Rightarrow> if c = CHR ''%'' then Some num else None)"

fun find_percent :: "string \<Rightarrow> string option" where
  "find_percent [] = None"
| "find_percent (c # cs) = (case percent_at (c # cs) of Some num \<Rightarrow> Some num | None \<Rightarrow> find_percent cs)"

definition digit_val :: "char \<Rightarrow> nat" where
  "digit_val c = of_char c - 48"

definition digits_val :: "string \<Rightarrow> nat" where
  "digits_val s = foldl (\<lambda>n c. 10 * n + digit_val c) 0 s"

definition decimal_val :: "string \<Rightarrow> rat" where
  "decimal_val s =
     (let ds = takeWhile ascii_digit s; fs = drop (length ds + 1) s
      in of_nat (digits_val (ds @ fs)) / 10 ^ length fs)"

text \<open>\<open>strconv.ParseFloat\<close> of a decimal: the nearest float, an error when out of range.\<close>

definition parse_decimal :: "string \<Rightarrow> f64 option" where
  "parse_decimal s = (case rnd (decimal_val s) of Fin r \<Rightarrow> Some (Fin r) | _ \<Rightarrow> None)"

definition parse_percent :: "string \<Rightarrow> f64 option" where
  "parse_percent s =
     (case find_percent s of
        None \<Rightarrow> None
      | Some num \<Rightarrow> (case parse_decimal num of None \<Rightarrow> None | Some n \<Rightarrow> Some (n / lit 100)))"


text \<open>A parsed percentage is not negative.\<close>

lemma decimal_val_nonneg: "0 \<le> decimal_val s"
  by (simp add: decimal_val_def Let_def)

lemma fdiv_nonneg: "Fin 0 \<le> n \<Longrightarrow> Fin 0 \<le> n / lit 100"
proof -
  have l: "lit 100 = Fin 100" using rnd_of_int_small[of 100] by (simp add: lit_def)
  assume "Fin 0 \<le> n"
  thus ?thesis by (cases n) (auto simp: l rnd_nonneg divide_f64_def)
qed

lemma parse_percent_nonneg: "parse_percent s = Some d \<Longrightarrow> Fin 0 \<le> d"
  using rnd_nonneg[OF decimal_val_nonneg]
  by (auto simp: parse_percent_def parse_decimal_def fdiv_nonneg split: option.splits f64.splits)

end
