(* ===== verification/Strategy.thy ===== *)
theory Strategy
  imports Llm_Plan Constraint_Text
begin

text \<open>
  \<open>internal/strategy\<close>: the utility of a candidate plan (\<open>utility.go\<close>), the hard filter, and the
  selection with outcome weights, deterministic tie-breaks and incumbent hysteresis
  (\<open>select.go\<close>). An index that is -1 in the source is None here.
\<close>

section \<open>Utility\<close>

definition level_score :: "level \<Rightarrow> f64" where
  "level_score l = (if l = LevelLow then lit (1/5) else if l = LevelHigh then lit (9/10) else lit (1/2))"

definition riskAversionConservative :: f64 where "riskAversionConservative = lit 1"
definition riskAversionDefault :: f64 where "riskAversionDefault = lit (6/10)"
definition riskAversionAggressive :: f64 where "riskAversionAggressive = lit (3/10)"
definition effortPenalty :: f64 where "effortPenalty = lit (1/4)"
definition rankDecay :: f64 where "rankDecay = lit (7/10)"
definition conservativeDrawdownLimit :: f64 where "conservativeDrawdownLimit = lit (1/10)"

definition constraint_words :: "unicode \<Rightarrow> constr \<Rightarrow> string" where
  "constraint_words u c = uc_to_lower u (co_name c @ '' '' @ co_description c)"

fun risk_aversion_loop :: "unicode \<Rightarrow> constr list \<Rightarrow> f64" where
  "risk_aversion_loop u [] = riskAversionDefault"
| "risk_aversion_loop u (c # cs) =
     (if \<not> uc_equal_fold u (uc_trim_space u (co_kind c)) ''risk_tolerance'' then risk_aversion_loop u cs
      else if conservative_re (constraint_words u c) then riskAversionConservative
      else if aggressive_re (constraint_words u c) then riskAversionAggressive
      else risk_aversion_loop u cs)"

definition risk_aversion :: "unicode \<Rightarrow> goal \<Rightarrow> f64" where
  "risk_aversion u g = risk_aversion_loop u (cx_constraints (g_context g))"

definition constraint_percent :: "constr \<Rightarrow> f64 option" where
  "constraint_percent c =
     (case parse_percent (co_name c) of None \<Rightarrow> parse_percent (co_description c) | Some d \<Rightarrow> Some d)"

definition conservative_constraint :: "unicode \<Rightarrow> constr \<Rightarrow> bool" where
  "conservative_constraint u c =
     (let kind = uc_to_lower u (uc_trim_space u (co_kind c)) in
      if kind = ''risk_tolerance'' then conservative_re (constraint_words u c)
      else if kind = ''drawdown_limit'' then
        (case constraint_percent c of
           None \<Rightarrow> False
         | Some dd \<Rightarrow> 0 < dd \<and> dd \<le> conservativeDrawdownLimit)
      else False)"

definition conservative_goal :: "unicode \<Rightarrow> goal \<Rightarrow> bool" where
  "conservative_goal u g = list_ex (conservative_constraint u) (cx_constraints (g_context g))"

definition hard_filter :: "unicode \<Rightarrow> goal \<Rightarrow> move list \<Rightarrow> string option" where
  "hard_filter u g moves =
     (if moves = [] then Some ''no moves proposed''
      else if \<not> list_ex (\<lambda>m. 0 < m_confidence m) moves
        then Some ''no viable moves (every move has confidence 0)''
      else if conservative_goal u g \<and> m_risk (hd moves) = LevelHigh
        then Some (''top move risk '' @ quoted ''high'' @ '' exceeds the goal'' @ [CHR 39] @ ''s conservative risk tolerance'')
      else None)"

definition round4 :: "f64 \<Rightarrow> f64" where
  "round4 x = math_round (x * lit 10000) / lit 10000"

definition top_key :: "move list \<Rightarrow> string" where
  "top_key moves = (case moves of [] \<Rightarrow> '''' | m # _ \<Rightarrow> if m_key m \<noteq> '''' then m_key m else m_title m)"

definition move_value :: "f64 \<Rightarrow> move \<Rightarrow> f64" where
  "move_value lambda m =
     m_confidence m * level_score (m_expected_impact m) - lambda * level_score (m_risk m)
       - effortPenalty * level_score (m_effort m)"

fun utility_loop :: "f64 \<Rightarrow> f64 \<Rightarrow> f64 \<Rightarrow> f64 \<Rightarrow> move list \<Rightarrow> f64 \<times> f64" where
  "utility_loop lambda acc weights g [] = (acc, weights)"
| "utility_loop lambda acc weights g (m # ms) =
     utility_loop lambda (acc + g * move_value lambda m) (weights + g) (g * rankDecay) ms"

definition utility :: "unicode \<Rightarrow> goal \<Rightarrow> move list \<Rightarrow> f64 \<times> string" where
  "utility u g moves =
     (case moves of
        [] \<Rightarrow> (0, ''no moves'')
      | m # _ \<Rightarrow>
          let lambda = risk_aversion u g;
              (acc, weights) = utility_loop lambda 0 0 1 moves;
              v = round4 (acc / weights)
          in (v, ''utility '' @ fmt_fixed 4 v @ '' over '' @ dec_int (int (length moves)) @ '' moves (risk aversion ''
                 @ fmt_fixed 2 lambda @ '', top move '' @ uc_quote u (top_key moves) @ '' conf ''
                 @ fmt_fixed 2 (m_confidence m) @ '')''))"

section \<open>Candidates and weights\<close>

record candidate =
  ca_id :: string
  ca_planner_name :: string
  ca_moves :: "move list"
  ca_err :: "go_error option"

record scored =
  sd_id :: string
  sd_utility :: f64
  sd_weight :: f64
  sd_weighted :: f64
  sd_top_move_key :: string
  sd_top_confidence :: f64
  sd_filtered :: bool
  sd_reason :: string

record select_options =
  so_weights :: "string \<Rightarrow> f64 option"
  so_regime :: string
  so_incumbent :: string
  so_incumbent_margin :: f64

record selection =
  se_winner :: nat
  se_scored :: "scored list"
  se_reason :: string

definition weight_key :: "string \<Rightarrow> string \<Rightarrow> string" where
  "weight_key i label = (if label = '''' then i else i @ ''@'' @ label)"

definition positive_weight :: "(string \<Rightarrow> f64 option) \<Rightarrow> string \<Rightarrow> f64 option" where
  "positive_weight ws k = (case ws k of Some w \<Rightarrow> if 0 < w then Some w else None | None \<Rightarrow> None)"

definition weight_for :: "select_options \<Rightarrow> string \<Rightarrow> f64" where
  "weight_for opts i =
     (case (if so_regime opts \<noteq> '''' then positive_weight (so_weights opts) (weight_key i (so_regime opts)) else None) of
        Some w \<Rightarrow> w
      | None \<Rightarrow> (case positive_weight (so_weights opts) (weight_key i '''') of Some w \<Rightarrow> w | None \<Rightarrow> 1))"

definition apply_weight :: "f64 \<Rightarrow> f64 \<Rightarrow> f64" where
  "apply_weight v w = (if v < 0 then round4 (v / w) else round4 (v * w))"

definition score_candidate :: "unicode \<Rightarrow> goal \<Rightarrow> select_options \<Rightarrow> candidate \<Rightarrow> scored" where
  "score_candidate u g opts c =
     (let s = \<lparr>sd_id = ca_id c, sd_utility = 0, sd_weight = weight_for opts (ca_id c), sd_weighted = 0,
               sd_top_move_key = '''', sd_top_confidence = 0, sd_filtered = False, sd_reason = ''''\<rparr> in
      case ca_err c of
        Some err \<Rightarrow> s\<lparr>sd_filtered := True, sd_reason := ''planner error: '' @ error_text err\<rparr>
      | None \<Rightarrow>
          let (v, explain) = utility u g (ca_moves c);
              s1 = s\<lparr>sd_utility := v, sd_weighted := apply_weight v (sd_weight s),
                     sd_top_move_key := top_key (ca_moves c),
                     sd_top_confidence := (case ca_moves c of [] \<Rightarrow> 0 | m # _ \<Rightarrow> m_confidence m)\<rparr>
          in (case hard_filter u g (ca_moves c) of
                Some reason \<Rightarrow> s1\<lparr>sd_filtered := True, sd_reason := reason\<rparr>
              | None \<Rightarrow> s1\<lparr>sd_reason := explain\<rparr>))"

section \<open>Selection\<close>

definition top_raw_confidence :: "move list \<Rightarrow> f64" where
  "top_raw_confidence moves =
     (case moves of
        [] \<Rightarrow> 0
      | m # _ \<Rightarrow> if 0 < m_raw_confidence m then m_raw_confidence m else m_confidence m)"

definition better :: "scored list \<Rightarrow> candidate list \<Rightarrow> nat \<Rightarrow> nat \<Rightarrow> bool" where
  "better sc ca i j =
     (if \<not> feq (sd_weighted (sc ! i)) (sd_weighted (sc ! j)) then sd_weighted (sc ! j) < sd_weighted (sc ! i)
      else
        let ri = top_raw_confidence (ca_moves (ca ! i)); rj = top_raw_confidence (ca_moves (ca ! j))
        in if \<not> feq ri rj then rj < ri else False)"

definition pick_step :: "scored list \<Rightarrow> candidate list \<Rightarrow> bool \<Rightarrow> nat option \<Rightarrow> nat \<Rightarrow> nat option" where
  "pick_step sc ca include_filtered best i =
     (if ca_err (ca ! i) \<noteq> None then best
      else if \<not> include_filtered \<and> sd_filtered (sc ! i) then best
      else case best of
        None \<Rightarrow> Some i
      | Some j \<Rightarrow> if better sc ca i j then Some i else best)"

definition pick :: "scored list \<Rightarrow> candidate list \<Rightarrow> bool \<Rightarrow> nat option" where
  "pick sc ca include_filtered =
     (let best = foldl (pick_step sc ca include_filtered) None [0..<length sc]
      in if best = None \<and> include_filtered then Some 0 else best)"

definition incumbent_index :: "scored list \<Rightarrow> string \<Rightarrow> nat option" where
  "incumbent_index sc incumbent =
     (if incumbent = '''' then None else find_idx (\<lambda>s. sd_id s = incumbent \<and> \<not> sd_filtered s) sc)"

definition filtered_ids :: "scored list \<Rightarrow> string list" where
  "filtered_ids sc = map (\<lambda>s. sd_id s @ '' ('' @ sd_reason s @ '')'') (filter sd_filtered sc)"

definition settle ::
  "unicode \<Rightarrow> scored list \<Rightarrow> select_options \<Rightarrow> bool \<Rightarrow> nat \<Rightarrow> nat \<times> string" where
  "settle u sc opts degraded w =
     (if degraded then
        (w, ''no admissible candidate; degraded to best inadmissible: '' @ uc_quote u (sd_id (sc ! w))
            @ '' ('' @ sd_reason (sc ! w) @ '')'')
      else case incumbent_index sc (so_incumbent opts) of
        None \<Rightarrow> (w, ''selected '' @ uc_quote u (sd_id (sc ! w)) @ '': weighted utility ''
                    @ fmt_fixed 4 (sd_weighted (sc ! w)))
      | Some inc \<Rightarrow>
          if inc = w then
            (w, ''selected '' @ uc_quote u (sd_id (sc ! w)) @ '': weighted utility ''
                @ fmt_fixed 4 (sd_weighted (sc ! w)))
          else if sd_weighted (sc ! w) \<le> sd_weighted (sc ! inc) + so_incumbent_margin opts then
            (inc, ''incumbent '' @ uc_quote u (sd_id (sc ! inc)) @ '' held: challenger ''
                  @ uc_quote u (sd_id (sc ! w)) @ '' margin ''
                  @ fmt_fixed 4 (sd_weighted (sc ! w) - sd_weighted (sc ! inc)) @ '' within hysteresis ''
                  @ fmt_fixed 4 (so_incumbent_margin opts))
          else
            (w, ''selected '' @ uc_quote u (sd_id (sc ! w)) @ '': weighted utility ''
                @ fmt_fixed 4 (sd_weighted (sc ! w)) @ '' beats incumbent '' @ uc_quote u (sd_id (sc ! inc))
                @ '' by more than '' @ fmt_fixed 4 (so_incumbent_margin opts)))"

definition select :: "unicode \<Rightarrow> goal \<Rightarrow> candidate list \<Rightarrow> select_options \<Rightarrow> go_error + selection" where
  "select u g cands opts =
     (if cands = [] then Inl (EText ''strategy: no candidates to select from'')
      else
        let sc = map (score_candidate u g opts) cands;
            first = pick sc cands False;
            degraded = (first = None);
            w0 = (case first of Some i \<Rightarrow> i | None \<Rightarrow> the (pick sc cands True));
            (w, reason) = settle u sc opts degraded w0;
            rejected = filtered_ids sc
        in Inr \<lparr>se_winner = w, se_scored = sc,
                se_reason = (if 0 < length rejected \<and> \<not> degraded
                             then reason @ ''; filtered: '' @ join_strs '', '' rejected else reason)\<rparr>)"

section \<open>Offline re-weighing and the disagreement penalty\<close>

fun re_weigh_loop ::
  "select_options \<Rightarrow> strategy_candidate list \<Rightarrow> strategy_candidate list \<Rightarrow> nat \<Rightarrow> (nat \<times> f64) option \<Rightarrow> nat option" where
  "re_weigh_loop opts all_cands [] i best = map_option fst best"
| "re_weigh_loop opts all_cands (c # cs) i best =
     (if sc_filtered c then re_weigh_loop opts all_cands cs (i + 1) best
      else
        let w = apply_weight (sc_utility_score c) (weight_for opts (sc_strategy_id c)) in
        case best of
          None \<Rightarrow> re_weigh_loop opts all_cands cs (i + 1) (Some (i, w))
        | Some (b, best_w) \<Rightarrow>
            if best_w < w then re_weigh_loop opts all_cands cs (i + 1) (Some (i, w))
            else if feq w best_w \<and> sc_top_confidence (all_cands ! b) < sc_top_confidence c
              then re_weigh_loop opts all_cands cs (i + 1) (Some (i, best_w))
            else re_weigh_loop opts all_cands cs (i + 1) best)"

definition re_weigh :: "strategy_candidate list \<Rightarrow> (string \<Rightarrow> f64 option) \<Rightarrow> string \<Rightarrow> nat option" where
  "re_weigh cands weights regime =
     re_weigh_loop \<lparr>so_weights = weights, so_regime = regime, so_incumbent = '''', so_incumbent_margin = 0\<rparr>
       cands cands 0 None"

definition disagreement_penalty :: "scored list \<Rightarrow> string \<Rightarrow> f64 \<Rightarrow> f64" where
  "disagreement_penalty sc winner_top_key stp =
     (if stp \<le> 0 then 0
      else
        let admissible = length (filter (\<lambda>s. \<not> sd_filtered s) sc);
            agree = length (filter (\<lambda>s. \<not> sd_filtered s \<and> sd_top_move_key s = winner_top_key) sc)
        in if admissible < 2 \<or> agree = admissible then 0
           else if lit (1/2) \<le> f64_of_int (int agree) / f64_of_int (int admissible) then stp
           else lit 2 * stp)"

section \<open>The order of the candidates\<close>

text \<open>What \<open>better\<close> compares: the weighted utility, then the raw confidence of the top move.\<close>

definition merit :: "scored list \<Rightarrow> candidate list \<Rightarrow> nat \<Rightarrow> f64 \<times> f64" where
  "merit sc ca i = (sd_weighted (sc ! i), top_raw_confidence (ca_moves (ca ! i)))"

definition numeric :: "f64 \<times> f64 \<Rightarrow> bool" where
  "numeric p \<longleftrightarrow> fst p \<noteq> NaN \<and> snd p \<noteq> NaN"

definition outranks :: "f64 \<times> f64 \<Rightarrow> f64 \<times> f64 \<Rightarrow> bool" where
  "outranks p q \<longleftrightarrow> fst q < fst p \<or> (fst p = fst q \<and> snd q < snd p)"

lemma better_outranks:
  "numeric (merit sc ca i) \<Longrightarrow> numeric (merit sc ca j) \<Longrightarrow>
   better sc ca i j = outranks (merit sc ca i) (merit sc ca j)"
  by (auto simp: better_def outranks_def merit_def numeric_def feq_iff Let_def)

lemma flt_total: "x \<noteq> NaN \<Longrightarrow> y \<noteq> NaN \<Longrightarrow> x < y \<or> x = y \<or> y < (x :: f64)"
  using not_flt[of x y] not_flt[of y x] fle_antisym[of x y] by blast

lemma outranks_trans: "outranks p q \<Longrightarrow> outranks q r \<Longrightarrow> outranks p r"
  unfolding outranks_def by (metis flt_trans)

lemma outranks_irrefl [simp]: "\<not> outranks p p"
  by (simp add: outranks_def)

lemma outranks_negtrans:
  "numeric p \<Longrightarrow> numeric q \<Longrightarrow> numeric r \<Longrightarrow> outranks p r \<Longrightarrow> outranks p q \<or> outranks q r"
  unfolding outranks_def numeric_def by (metis flt_total flt_trans)

definition admissible :: "scored list \<Rightarrow> candidate list \<Rightarrow> bool \<Rightarrow> nat \<Rightarrow> bool" where
  "admissible sc ca incl i \<longleftrightarrow> ca_err (ca ! i) = None \<and> (incl \<or> \<not> sd_filtered (sc ! i))"

text \<open>The scan finds the first of the best admissible candidates.\<close>

definition first_best :: "scored list \<Rightarrow> candidate list \<Rightarrow> bool \<Rightarrow> nat \<Rightarrow> nat option \<Rightarrow> bool" where
  "first_best sc ca incl n b \<longleftrightarrow>
     (case b of
        None \<Rightarrow> \<forall>i < n. \<not> admissible sc ca incl i
      | Some w \<Rightarrow> w < n \<and> admissible sc ca incl w \<and>
          (\<forall>i < n. admissible sc ca incl i \<longrightarrow>
             \<not> outranks (merit sc ca i) (merit sc ca w) \<and> (i < w \<longrightarrow> outranks (merit sc ca w) (merit sc ca i))))"

lemma pick_step_first_best:
  assumes num: "\<And>i. i \<le> n \<Longrightarrow> admissible sc ca incl i \<Longrightarrow> numeric (merit sc ca i)"
    and fb: "first_best sc ca incl n b"
  shows "first_best sc ca incl (Suc n) (pick_step sc ca incl b n)"
proof (cases "admissible sc ca incl n")
  case False
  hence "pick_step sc ca incl b n = b" by (auto simp: pick_step_def admissible_def)
  with fb False show ?thesis by (auto simp: first_best_def less_Suc_eq split: option.splits)
next
  case True
  show ?thesis
  proof (cases b)
    case None
    with True have "pick_step sc ca incl b n = Some n" by (auto simp: pick_step_def admissible_def)
    with fb None True show ?thesis by (auto simp: first_best_def less_Suc_eq)
  next
    case (Some w)
    with fb have w: "w < n" "admissible sc ca incl w"
      "\<And>i. i < n \<Longrightarrow> admissible sc ca incl i \<Longrightarrow> \<not> outranks (merit sc ca i) (merit sc ca w)"
      "\<And>i. i < n \<Longrightarrow> admissible sc ca incl i \<Longrightarrow> i < w \<Longrightarrow> outranks (merit sc ca w) (merit sc ca i)"
      by (auto simp: first_best_def)
    have nn: "numeric (merit sc ca n)" "numeric (merit sc ca w)" using num True w by auto
    have st: "pick_step sc ca incl b n = (if outranks (merit sc ca n) (merit sc ca w) then Some n else Some w)"
      using True Some better_outranks[OF nn] by (auto simp: pick_step_def admissible_def)
    show ?thesis
    proof (cases "outranks (merit sc ca n) (merit sc ca w)")
      case True2: True
      have "outranks (merit sc ca n) (merit sc ca i)" if "i < n" "admissible sc ca incl i" for i
        using outranks_negtrans[OF nn(1) _ nn(2) True2, of "merit sc ca i"] num[of i] w(3)[OF that] that by auto
      moreover have "\<not> outranks (merit sc ca i) (merit sc ca n)" if "i < n" "admissible sc ca incl i" for i
        using calculation[OF that] outranks_trans outranks_irrefl by blast
      ultimately show ?thesis using True True2 st by (auto simp: first_best_def less_Suc_eq)
    next
      case False
      thus ?thesis using st w by (auto simp: first_best_def less_Suc_eq)
    qed
  qed
qed

lemma pick_scan:
  assumes "\<And>i. i < n \<Longrightarrow> admissible sc ca incl i \<Longrightarrow> numeric (merit sc ca i)"
  shows "first_best sc ca incl n (foldl (pick_step sc ca incl) None [0..<n])"
  using assms
proof (induction n)
  case (Suc n)
  thus ?case using pick_step_first_best[of n sc ca incl] by simp
qed (simp add: first_best_def)

lemma pick_first_best:
  assumes "\<And>i. i < length sc \<Longrightarrow> admissible sc ca incl i \<Longrightarrow> numeric (merit sc ca i)"
  shows "first_best sc ca incl (length sc) (pick sc ca incl) \<or>
     incl \<and> pick sc ca incl = Some 0 \<and> (\<forall>i < length sc. \<not> admissible sc ca incl i)"
  using pick_scan[of "length sc" sc ca incl, OF assms] by (auto simp: pick_def Let_def first_best_def split: option.splits)

lemma incumbent_SomeD:
  "incumbent_index sc inc = Some i \<Longrightarrow> i < length sc \<and> sd_id (sc ! i) = inc \<and> \<not> sd_filtered (sc ! i)"
  by (auto simp: incumbent_index_def split: if_splits dest!: find_idx_SomeD)

lemma settle_cases:
  assumes "settle u sc opts d w0 = (w, reason)"
  shows "w = w0 \<or> (\<not> d \<and> incumbent_index sc (so_incumbent opts) = Some w \<and>
     sd_weighted (sc ! w0) \<le> sd_weighted (sc ! w) + so_incumbent_margin opts)"
  using assms by (auto simp: settle_def split: if_splits option.splits)

lemma unfiltered_no_error: "\<not> sd_filtered (score_candidate u g opts c) \<Longrightarrow> ca_err c = None"
  by (cases "ca_err c") (simp_all add: score_candidate_def Let_def)

definition comparable :: "selection \<Rightarrow> candidate list \<Rightarrow> bool" where
  "comparable sel cands \<longleftrightarrow>
     list_all (\<lambda>i. ca_err (cands ! i) = None \<longrightarrow> numeric (merit (se_scored sel) cands i)) [0..<length cands]"

subsection \<open>Utilities are numbers\<close>

definition confident_moves :: "move list \<Rightarrow> bool" where
  "confident_moves ms \<longleftrightarrow> list_all (\<lambda>m. confidence_wf (m_confidence m)) ms \<and> length ms < 2 ^ 40"

definition finite_weights :: "select_options \<Rightarrow> bool" where
  "finite_weights opts \<longleftrightarrow> PInf \<notin> ran (so_weights opts)"

lemma level_score_bounded: "bounded_by 1 (level_score l)"
  by (simp add: level_score_def bounded_lit)

lemma risk_aversion_loop_bounded: "bounded_by 1 (risk_aversion_loop u cs)"
  by (induction cs)
     (auto simp: riskAversionDefault_def riskAversionConservative_def riskAversionAggressive_def intro!: bounded_lit)

lemma move_value_bounded:
  assumes "confidence_wf (m_confidence m)" "bounded_by 1 lambda"
  shows "bounded_by 3 (move_value lambda m)"
proof -
  have c: "bounded_by 1 (m_confidence m)" using assms(1) by (simp add: confidence_wf_def bounded_unit)
  have e: "bounded_by 1 effortPenalty" by (simp add: effortPenalty_def bounded_lit)
  note t = bounded_times[OF c level_score_bounded, simplified] bounded_times[OF assms(2) level_score_bounded, simplified]
    bounded_times[OF e level_score_bounded, simplified]
  show ?thesis unfolding move_value_def
    using bounded_minus[OF bounded_minus[OF t(1) t(2)] t(3)] by simp
qed

lemma fin_add_nonneg: "x = Fin a \<Longrightarrow> 0 \<le> a \<Longrightarrow> y = Fin b \<Longrightarrow> 1 \<le> a \<or> 1 \<le> b \<Longrightarrow> 0 \<le> b \<Longrightarrow> Fin 1 \<le> x + y"
  using rnd_mono[of 1 "a + b"] by auto

text \<open>The running sums stay finite, and the sum of the weights is at least the first of them, 1.\<close>

lemma utility_loop_bounded:
  assumes "bounded_by 1 lambda" "list_all (\<lambda>m. confidence_wf (m_confidence m)) ms"
    "bounded_by (3 * k) acc" "bounded_by k ws" "bounded_by 1 g" "Fin 0 \<le> g" "k + int (length ms) < 2 ^ 50"
    "Fin 0 \<le> ws" "Fin 1 \<le> ws \<or> (Fin 1 \<le> g \<and> ms \<noteq> [])"
    "utility_loop lambda acc ws g ms = (a, w)"
  shows "a \<noteq> NaN \<and> (\<exists>r. w = Fin r \<and> 1 \<le> r)"
  using assms
proof (induction ms arbitrary: k acc ws g)
  case Nil
  thus ?case by (auto simp: bounded_by_def)
next
  case (Cons m ms)
  have k: "0 \<le> k" using bounded_nonneg[OF Cons.prems(4)] .
  have v: "bounded_by 3 (g * move_value lambda m)"
    using bounded_times[OF Cons.prems(5) move_value_bounded] Cons.prems(1,2) by simp
  have 1: "bounded_by (3 * (k + 1)) (acc + g * move_value lambda m)"
    using bounded_plus[OF Cons.prems(3) v] Cons.prems(7) by (simp add: algebra_simps)
  have 2: "bounded_by (k + 1) (ws + g)" using bounded_plus[OF Cons.prems(4,5)] Cons.prems(7) by simp
  have d: "bounded_by 1 rankDecay" "Fin 0 < rankDecay"
    by (auto simp: rankDecay_def intro!: bounded_lit lit_pos) 
  have 3: "bounded_by 1 (g * rankDecay)" using bounded_times[OF Cons.prems(5) d(1)] by simp
  obtain y where y0: "rankDecay = Fin y" using d(1) unfolding bounded_by_def by blast
  have "0 \<le> y" using d(2) unfolding y0 by simp
  note y = y0 this
  obtain x where x: "g = Fin x" "0 \<le> x" using Cons.prems(5,6) by (auto simp: bounded_by_def)
  obtain z where z: "ws = Fin z" "0 \<le> z" using Cons.prems(4,8) by (auto simp: bounded_by_def)
  note xyz = x y z
  have 4: "Fin 0 \<le> g * rankDecay" unfolding y0 x(1) using xyz(2,4) by (simp add: rnd_nonneg)
  have 5: "Fin 1 \<le> ws + g" using fin_add_nonneg[OF xyz(5,6) xyz(1)] xyz(2) Cons.prems(9) xyz(1,5) by auto
  have 6: "Fin 0 \<le> ws + g" using xyz by (simp add: rnd_nonneg)
  show ?case using Cons.IH[OF Cons.prems(1) _ 1 2 3 4 _ 6] 5 Cons.prems(2,7,10) by simp
qed

lemma math_round_not_NaN: "x \<noteq> NaN \<Longrightarrow> math_round x \<noteq> NaN"
  by (cases x) auto

lemma lit_10000: "lit 10000 = Fin 10000"
  using rnd_of_int_small[of 10000] by (simp add: lit_def)

lemma round4_not_NaN: "x \<noteq> NaN \<Longrightarrow> round4 x \<noteq> NaN"
  unfolding round4_def lit_10000
  by (intro divide_not_NaN math_round_not_NaN times_not_NaN) auto

lemma utility_not_NaN:
  assumes "confident_moves ms"
  shows "fst (utility u g ms) \<noteq> NaN"
proof (cases ms)
  case (Cons m rest)
  obtain a w where l: "utility_loop (risk_aversion u g) 0 0 1 ms = (a, w)" by force
  have "a \<noteq> NaN \<and> (\<exists>r. w = Fin r \<and> 1 \<le> r)"
  proof (rule utility_loop_bounded[OF _ _ _ _ _ _ _ _ _ l])
    show "bounded_by 1 (risk_aversion u g)" unfolding risk_aversion_def by (rule risk_aversion_loop_bounded)
    show "list_all (\<lambda>m. confidence_wf (m_confidence m)) ms" "0 + int (length ms) < 2 ^ 50"
      using assms by (simp_all add: confident_moves_def)
  qed (simp_all add: bounded_by_def Cons)
  then obtain r where "a \<noteq> NaN" "w = Fin r" "1 \<le> r" by blast
  hence "a / w \<noteq> NaN" using divide_not_NaN[of a r] by simp
  from round4_not_NaN[OF this] show ?thesis using l Cons by (simp add: utility_def Let_def)
qed (simp add: utility_def)

lemma weight_for_pos: "finite_weights opts \<Longrightarrow> \<exists>r. weight_for opts i = Fin r \<and> 0 < r"
proof -
  assume fw: "finite_weights opts"
  have "\<exists>r. w = Fin r \<and> 0 < r" if "positive_weight (so_weights opts) k = Some w" for k w
    using that fw by (cases w) (auto simp: positive_weight_def finite_weights_def ran_def split: option.splits if_splits)
  thus ?thesis by (auto simp: weight_for_def split: option.splits if_splits)
qed

lemma apply_weight_not_NaN: "v \<noteq> NaN \<Longrightarrow> 0 < r \<Longrightarrow> apply_weight v (Fin r) \<noteq> NaN"
  by (simp add: apply_weight_def round4_not_NaN divide_not_NaN times_not_NaN)

lemma score_numeric:
  assumes "finite_weights opts" "ca_err c = None \<Longrightarrow> confident_moves (ca_moves c)" "ca_err c = None"
  shows "sd_weighted (score_candidate u g opts c) \<noteq> NaN \<and> top_raw_confidence (ca_moves c) \<noteq> NaN"
proof
  obtain r where r: "weight_for opts (ca_id c) = Fin r" "0 < r" using weight_for_pos[OF assms(1)] by blast
  obtain v ex where v: "utility u g (ca_moves c) = (v, ex)" by force
  have "v \<noteq> NaN" using utility_not_NaN[OF assms(2)[OF assms(3)], of u g] v by simp
  thus "sd_weighted (score_candidate u g opts c) \<noteq> NaN"
    using apply_weight_not_NaN[of v r] r assms(3) v
    by (cases "hard_filter u g (ca_moves c)") (simp_all add: score_candidate_def Let_def)
  show "top_raw_confidence (ca_moves c) \<noteq> NaN"
    using assms(2)[OF assms(3)]
    by (auto simp: top_raw_confidence_def confident_moves_def confidence_wf_def split: list.splits)
qed

lemma select_comparable:
  assumes "select u g cands opts = Inr sel" "finite_weights opts"
    "list_all (\<lambda>c. ca_err c = None \<longrightarrow> confident_moves (ca_moves c)) cands"
  shows "comparable sel cands"
proof -
  have sc: "se_scored sel = map (score_candidate u g opts) cands"
    using assms(1) by (auto simp: select_def Let_def split: if_splits prod.splits)
  show ?thesis
    using score_numeric[OF assms(2)] assms(3)
    by (auto simp: comparable_def list_all_iff sc numeric_def merit_def)
qed

lemma settle_winner:
  "fst (settle u sc opts d w) =
     (case incumbent_index sc (so_incumbent opts) of
        None \<Rightarrow> w
      | Some inc \<Rightarrow> if \<not> d \<and> sd_weighted (sc ! w) \<le> sd_weighted (sc ! inc) + so_incumbent_margin opts then inc else w)"
  by (auto simp: settle_def split: option.split)

text \<open>One candidate is preferred to another: by merit, and by the order of declaration when the merits are equal.\<close>

definition beats :: "scored list \<Rightarrow> candidate list \<Rightarrow> nat \<Rightarrow> nat \<Rightarrow> bool" where
  "beats sc ca b i \<longleftrightarrow>
     outranks (merit sc ca b) (merit sc ca i) \<or> (merit sc ca b = merit sc ca i \<and> b < i)"

lemma outranks_total: "numeric p \<Longrightarrow> numeric q \<Longrightarrow> outranks p q \<or> p = q \<or> outranks q p"
  unfolding outranks_def numeric_def by (metis flt_total prod.expand)

lemma first_best_beats:
  assumes "first_best sc ca incl n (Some b)" "i < n" "admissible sc ca incl i" "i \<noteq> b"
    and num: "\<And>i. i < n \<Longrightarrow> admissible sc ca incl i \<Longrightarrow> numeric (merit sc ca i)"
  shows "beats sc ca b i"
proof -
  have b: "b < n" "admissible sc ca incl b" "\<not> outranks (merit sc ca i) (merit sc ca b)"
    "i < b \<Longrightarrow> outranks (merit sc ca b) (merit sc ca i)"
    using assms(1-3) by (simp_all add: first_best_def)
  with outranks_total[OF num[OF b(1,2)] num[OF assms(2,3)]] assms(4) show ?thesis
    by (auto simp: beats_def) (meson linorder_neqE_nat outranks_irrefl)+
qed

section \<open>Properties\<close>


text \<open>
  The disagreement penalty is quantised: it is nothing, one or two steps, and nothing exactly
  when fewer than two candidates are admissible or all of those agree with the winner's top move.
\<close>

theorem disagreement_penalty_quantised:
  assumes "0 < stp"
  shows "(let adm = filter (\<lambda>s. \<not> sd_filtered s) sc;
              unanimous = (length adm < 2 \<or> list_all (\<lambda>s. sd_top_move_key s = k) adm);
              p = disagreement_penalty sc k stp
          in (unanimous \<longrightarrow> p = 0) \<and> (\<not> unanimous \<longrightarrow> p = stp \<or> p = lit 2 * stp))"
proof -
  let ?adm = "filter (\<lambda>s. \<not> sd_filtered s) sc"
  have "\<not> stp \<le> 0" using assms by (cases stp) auto
  have f: "filter (\<lambda>s. \<not> sd_filtered s \<and> sd_top_move_key s = k) sc = filter (\<lambda>s. sd_top_move_key s = k) ?adm"
    by (simp add: conj_commute)
  have all: "length (filter P xs) = length xs \<longleftrightarrow> list_all P xs" for P :: "scored \<Rightarrow> bool" and xs
    by (induction xs) (auto simp: le_imp_less_Suc less_imp_neq)
  show ?thesis
    using \<open>\<not> stp \<le> 0\<close> all[of "\<lambda>s. sd_top_move_key s = k" ?adm]
    unfolding disagreement_penalty_def f Let_def by simp
qed

definition sample_candidates :: "candidate list" where
  "sample_candidates =
     [\<lparr>ca_id = ''trend'', ca_planner_name = ''finance'', ca_moves = [], ca_err = Some EMarketUnavailable\<rparr>,
      \<lparr>ca_id = ''value'', ca_planner_name = ''finance'',
       ca_moves = [zero_move\<lparr>m_key := ''buy'', m_confidence := 1, m_risk := LevelLow\<rparr>], ca_err = None\<rparr>]"

definition no_options :: select_options where
  "no_options = \<lparr>so_weights = Map.empty, so_regime = '''', so_incumbent = '''', so_incumbent_margin = 0\<rparr>"


theorem disagreement_penalty_quantised_witness:
  "disagreement_penalty
     [\<lparr>sd_id = ''a'', sd_utility = 0, sd_weight = 1, sd_weighted = 0, sd_top_move_key = ''x'',
       sd_top_confidence = 1, sd_filtered = False, sd_reason = ''''\<rparr>] ''x'' 1 = 0"
  using disagreement_penalty_quantised[of 1
     "[\<lparr>sd_id = ''a'', sd_utility = 0, sd_weight = 1, sd_weighted = 0, sd_top_move_key = ''x'',
       sd_top_confidence = 1, sd_filtered = False, sd_reason = ''''\<rparr>]" "''x''"]
  by simp

end
