(* ===== verification/Market_Data.thy ===== *)
theory Market_Data
  imports Go_Base
begin

text \<open>
  Point-in-time market data (\<open>internal/marketdata\<close>): the records and the provider interface of
  \<open>provider.go\<close>, the fixture provider (\<open>offline.go\<close>) and the ordered fallback over vendors
  (\<open>chain.go\<close>). A provider is asked at one instant of the program, so its methods are functions
  of their arguments. The promise every provider makes, that it never returns data from after the
  instant asked about, is the locale \<open>point_in_time\<close>.
\<close>

section \<open>Records\<close>

record quote =
  qt_ticker :: string
  qt_price :: f64
  qt_avg_dollar_volume :: f64
  qt_as_of :: time

record fundamentals =
  fu_ticker :: string
  fu_pe :: f64
  fu_pb :: f64
  fu_market_cap :: f64
  fu_eps :: f64
  fu_as_of :: time
  fu_freshness :: string

definition FreshnessPointInTime :: string where "FreshnessPointInTime = ''point_in_time''"
definition FreshnessLatestOnly :: string where "FreshnessLatestOnly = ''latest_only''"

record bar =
  ba_date :: time
  ba_open :: f64
  ba_high :: f64
  ba_low :: f64
  ba_close :: f64
  ba_volume :: f64

record provider =
  pv_name :: string
  pv_quote :: "string \<Rightarrow> time \<Rightarrow> go_error + quote"
  pv_fundamentals :: "string \<Rightarrow> time \<Rightarrow> go_error + fundamentals"
  pv_bars :: "string \<Rightarrow> time \<Rightarrow> time \<Rightarrow> go_error + bar list"

section \<open>The provider contract\<close>

locale point_in_time =
  fixes quote_at :: "string \<Rightarrow> time \<Rightarrow> go_error + quote"
    and funds_at :: "string \<Rightarrow> time \<Rightarrow> go_error + fundamentals"
    and bars_in :: "string \<Rightarrow> time \<Rightarrow> time \<Rightarrow> go_error + bar list"
  assumes quote_past: "quote_at tk t = Inr q \<Longrightarrow> qt_as_of q \<le> t"
    and funds_past: "funds_at tk t = Inr f \<Longrightarrow> fu_freshness f = FreshnessPointInTime \<Longrightarrow> fu_as_of f \<le> t"
    and bars_range: "bars_in tk from to = Inr bs \<Longrightarrow> b \<in> set bs \<Longrightarrow> from \<le> ba_date b \<and> ba_date b \<le> to"
begin

lemma no_lookahead:
  assumes "quote_at tk now = Inr q" "bars_in tk from now = Inr bs" "b \<in> set bs"
  shows "qt_as_of q \<le> now \<and> ba_date b \<le> now"
  using quote_past[OF assms(1)] bars_range[OF assms(2,3)] by simp

lemma empty_range: "bars_in tk from to = Inr bs \<Longrightarrow> to < from \<Longrightarrow> bs = []"
  using bars_range[of tk "from" to bs] by (cases bs) force+

end

section \<open>The offline provider\<close>

record offline_provider =
  of_quotes :: "string \<Rightarrow> quote list"
  of_funds :: "string \<Rightarrow> fundamentals list"
  of_bars :: "string \<Rightarrow> bar list option"

text \<open>
  \<open>NewOfflineProvider\<close> once the fixture files are parsed: every series is sorted by time and the
  fundamentals are stamped. (\<open>sort.Slice\<close> is not stable; the fixtures have no equal dates.)
\<close>

definition new_offline_provider ::
  "(string \<Rightarrow> quote list) \<Rightarrow> (string \<Rightarrow> fundamentals list) \<Rightarrow> (string \<Rightarrow> bar list option) \<Rightarrow> offline_provider" where
  "new_offline_provider quotes funds bars =
     \<lparr>of_quotes = (\<lambda>k. sort_by (\<lambda>a b. qt_as_of a < qt_as_of b) (quotes k)),
      of_funds = (\<lambda>k. map (\<lambda>f. f\<lparr>fu_freshness := FreshnessPointInTime\<rparr>)
                         (sort_by (\<lambda>a b. fu_as_of a < fu_as_of b) (funds k))),
      of_bars = (\<lambda>k. map_option (sort_by (\<lambda>a b. ba_date a < ba_date b)) (bars k))\<rparr>"

text \<open>The loop from the last element down to the first.\<close>

definition latest_by :: "('a \<Rightarrow> time) \<Rightarrow> 'a list \<Rightarrow> time \<Rightarrow> go_error + 'a" where
  "latest_by f series t =
     (case List.find (\<lambda>x. \<not> t < f x) (rev series) of Some x \<Rightarrow> Inr x | None \<Rightarrow> Inl EMarketNotFound)"

definition offline_quote :: "offline_provider \<Rightarrow> string \<Rightarrow> time \<Rightarrow> go_error + quote" where
  "offline_quote p ticker t = latest_by qt_as_of (of_quotes p ticker) t"

definition offline_fundamentals :: "offline_provider \<Rightarrow> string \<Rightarrow> time \<Rightarrow> go_error + fundamentals" where
  "offline_fundamentals p ticker t = latest_by fu_as_of (of_funds p ticker) t"

definition in_range :: "time \<Rightarrow> time \<Rightarrow> bar \<Rightarrow> bool" where
  "in_range from to b \<longleftrightarrow> \<not> (ba_date b < from \<or> to < ba_date b)"

definition offline_bars :: "offline_provider \<Rightarrow> string \<Rightarrow> time \<Rightarrow> time \<Rightarrow> go_error + bar list" where
  "offline_bars p ticker from to =
     (case of_bars p ticker of None \<Rightarrow> Inl EMarketNotFound | Some series \<Rightarrow> Inr (filter (in_range from to) series))"

lemma latest_by_past: "latest_by f s t = Inr x \<Longrightarrow> x \<in> set s \<and> f x \<le> t"
  by (auto simp: latest_by_def split: option.splits dest!: find_SomeD)

interpretation offline: point_in_time "offline_quote p" "offline_fundamentals p" "offline_bars p" for p
  by unfold_locales
     (auto simp: offline_quote_def offline_fundamentals_def offline_bars_def in_range_def
       dest!: latest_by_past split: option.splits)

text \<open>On a sorted series the answer is the latest element not after the instant.\<close>

lemma find_descending:
  "sorted_wrt (\<lambda>a b. f b \<le> f a) xs \<Longrightarrow> List.find (\<lambda>x. \<not> t < f x) xs = Some x \<Longrightarrow> y \<in> set xs \<Longrightarrow> f y \<le> t \<Longrightarrow>
   f y \<le> (f x :: time)"
  by (induction xs) (auto split: if_splits)

lemma latest_by_latest:
  assumes "sorted_wrt (\<lambda>a b. f a \<le> f b) s" "latest_by f s t = Inr x" "y \<in> set s" "f y \<le> t"
  shows "f y \<le> f x"
  by (rule find_descending[of f "rev s" t])
     (use assms in \<open>auto simp: sorted_wrt_rev latest_by_def split: option.splits\<close>)

section \<open>The chain\<close>

record chain_provider =
  cp_providers :: "provider list"
  cp_name :: string

definition new_chain :: "provider list \<Rightarrow> go_error + chain_provider" where
  "new_chain ps =
     (if ps = [] then Inl (EText ''marketdata: chain needs at least one provider'')
      else Inr \<lparr>cp_providers = ps, cp_name = join_strs ''+'' (map pv_name ps)\<rparr>)"

definition fallthrough_err :: "go_error \<Rightarrow> bool" where
  "fallthrough_err err \<longleftrightarrow>
     errors_is err EMarketNotSupported \<or> errors_is err EMarketNotImplemented \<or>
     errors_is err EMarketNotFound \<or> errors_is err EMarketUnavailable"

text \<open>
  The loop the three methods share. The list gives what \<open>ctx.Err()\<close> answers after each vendor.
\<close>

fun chain_loop :: "('p \<Rightarrow> go_error + 'a) \<Rightarrow> ('p \<times> go_error option) list \<Rightarrow> go_error list \<Rightarrow> go_error + 'a" where
  "chain_loop ask [] errs = Inl (EJoin errs)"
| "chain_loop ask ((p, ctx_err) # ps) errs =
     (case ask p of
        Inr x \<Rightarrow> Inr x
      | Inl err \<Rightarrow>
          (case ctx_err of
             Some cerr \<Rightarrow> Inl cerr
           | None \<Rightarrow> if \<not> fallthrough_err err then Inl err else chain_loop ask ps (errs @ [err])))"

definition chain_quote :: "(nat \<Rightarrow> go_error option) \<Rightarrow> chain_provider \<Rightarrow> string \<Rightarrow> time \<Rightarrow> go_error + quote" where
  "chain_quote ctx c ticker t =
     chain_loop (\<lambda>p. pv_quote p ticker t) (zip (cp_providers c) (map ctx [0..<length (cp_providers c)])) []"

definition chain_fundamentals ::
  "(nat \<Rightarrow> go_error option) \<Rightarrow> chain_provider \<Rightarrow> string \<Rightarrow> time \<Rightarrow> go_error + fundamentals" where
  "chain_fundamentals ctx c ticker t =
     chain_loop (\<lambda>p. pv_fundamentals p ticker t) (zip (cp_providers c) (map ctx [0..<length (cp_providers c)])) []"

definition chain_bars ::
  "(nat \<Rightarrow> go_error option) \<Rightarrow> chain_provider \<Rightarrow> string \<Rightarrow> time \<Rightarrow> time \<Rightarrow> go_error + bar list" where
  "chain_bars ctx c ticker from to =
     chain_loop (\<lambda>p. pv_bars p ticker from to) (zip (cp_providers c) (map ctx [0..<length (cp_providers c)])) []"

lemma chain_loop_Inr:
  "chain_loop ask ps errs = Inr x \<Longrightarrow>
   \<exists>k < length ps. ask (fst (ps ! k)) = Inr x \<and>
     (\<forall>j < k. snd (ps ! j) = None \<and> (\<exists>err. ask (fst (ps ! j)) = Inl err \<and> fallthrough_err err))"
proof (induction ask ps errs rule: chain_loop.induct)
  case (2 ask p ctx_err ps errs)
  show ?case
  proof (cases "ask p")
    case (Inr y)
    with 2 show ?thesis by (intro exI[of _ 0]) auto
  next
    case (Inl err)
    with "2.prems" have c: "ctx_err = None" "fallthrough_err err" "chain_loop ask ps (errs @ [err]) = Inr x"
      by (auto split: option.splits if_splits)
    from "2.IH"[OF Inl c(1) _ c(3)] c(2) obtain k where k: "k < length ps" "ask (fst (ps ! k)) = Inr x"
      "\<forall>j < k. snd (ps ! j) = None \<and> (\<exists>err. ask (fst (ps ! j)) = Inl err \<and> fallthrough_err err)" by blast
    show ?thesis
      using k Inl c by (intro exI[of _ "Suc k"]) (auto simp: less_Suc_eq_0_disj nth_Cons')
  qed
qed simp

lemma chain_loop_error:
  "chain_loop ask ps errs = Inl e \<Longrightarrow>
   (\<exists>k < length ps. snd (ps ! k) = Some e) \<or>
   (\<exists>k < length ps. ask (fst (ps ! k)) = Inl e \<and> \<not> fallthrough_err e) \<or>
   ((\<forall>err \<in> set errs. errors_is e err) \<and>
    (\<forall>k < length ps. \<exists>err. ask (fst (ps ! k)) = Inl err \<and> fallthrough_err err \<and> errors_is e err))"
proof (induction ask ps errs rule: chain_loop.induct)
  case (1 ask errs)
  hence "e = EJoin errs" by simp
  moreover have "errors_is (EJoin errs) x" if "x \<in> set errs" for x
    using that errors_is_refl[of x] unfolding errors_is.simps list_ex_iff by blast
  ultimately show ?case by simp
next
  case (2 ask p ctx_err ps errs)
  obtain err where err: "ask p = Inl err" using "2.prems"(1) by (cases "ask p") auto
  show ?case
  proof (cases "ctx_err = None \<and> fallthrough_err err")
    case True
    with "2.prems" err have "chain_loop ask ps (errs @ [err]) = Inl e" by simp
    from "2.IH"[OF err _ _ this] True consider
      (ctx) k where "k < length ps" "snd (ps ! k) = Some e"
    | (hard) k where "k < length ps" "ask (fst (ps ! k)) = Inl e" "\<not> fallthrough_err e"
    | (all) "\<forall>x \<in> set (errs @ [err]). errors_is e x"
        "\<forall>k < length ps. \<exists>err. ask (fst (ps ! k)) = Inl err \<and> fallthrough_err err \<and> errors_is e err" by blast
    thus ?thesis
    proof cases
      case ctx
      thus ?thesis by (intro disjI1 exI[of _ "Suc k"]) simp
    next
      case hard
      thus ?thesis by (intro disjI2 disjI1 exI[of _ "Suc k"]) simp
    next
      case all
      thus ?thesis using err True by (intro disjI2) (auto simp: nth_Cons')
    qed
  next
    case False
    with "2.prems" err show ?thesis by (cases ctx_err) (force split: if_splits)+
  qed
qed

text \<open>A chain of providers that keep the promise keeps it.\<close>

lemma chain_keeps_promise:
  assumes "\<And>p. p \<in> set (cp_providers c) \<Longrightarrow> point_in_time (pv_quote p) (pv_fundamentals p) (pv_bars p)"
  shows "point_in_time (chain_quote ctx c) (chain_fundamentals ctx c) (chain_bars ctx c)"
proof
  have nth: "fst (zip (cp_providers c) (map ctx [0..<length (cp_providers c)]) ! k) \<in> set (cp_providers c)"
    if "k < length (zip (cp_providers c) (map ctx [0..<length (cp_providers c)]))" for k
    using that by simp
  show "qt_as_of q \<le> t" if "chain_quote ctx c tk t = Inr q" for tk t q
    using chain_loop_Inr[OF that[unfolded chain_quote_def]] nth point_in_time.quote_past[OF assms] by blast
  show "fu_as_of f \<le> t" if "chain_fundamentals ctx c tk t = Inr f" "fu_freshness f = FreshnessPointInTime" for tk t f
    using chain_loop_Inr[OF that(1)[unfolded chain_fundamentals_def]] nth
      point_in_time.funds_past[OF assms _ that(2)] by blast
  show "from \<le> ba_date b \<and> ba_date b \<le> to" if "chain_bars ctx c tk from to = Inr bs" "b \<in> set bs" for tk "from" to bs b
    using chain_loop_Inr[OF that(1)[unfolded chain_bars_def]] nth
      point_in_time.bars_range[OF assms _ that(2)] by blast
qed

section \<open>Properties\<close>

text \<open>
  The chain is an ordered fallback: a quote comes from the first vendor that answers, every
  vendor before it having failed with an error that falls through; an error is the context's, a
  vendor's that must not fall through, or the join of every vendor's error, in which
  \<open>errors.Is\<close> finds each of them.
\<close>

theorem chain_is_ordered_fallback:
  "case chain_quote ctx c tk t of
     Inr q \<Rightarrow> \<exists>k < length (cp_providers c). pv_quote (cp_providers c ! k) tk t = Inr q \<and>
        (\<forall>j < k. ctx j = None \<and> (\<exists>err. pv_quote (cp_providers c ! j) tk t = Inl err \<and> fallthrough_err err))
   | Inl e \<Rightarrow> (\<exists>k < length (cp_providers c). ctx k = Some e) \<or>
        (\<exists>k < length (cp_providers c). pv_quote (cp_providers c ! k) tk t = Inl e \<and> \<not> fallthrough_err e) \<or>
        (\<forall>k < length (cp_providers c). \<exists>err. pv_quote (cp_providers c ! k) tk t = Inl err \<and>
           fallthrough_err err \<and> errors_is e err)"
proof (cases "chain_quote ctx c tk t")
  case (Inr q)
  from chain_loop_Inr[OF this[unfolded chain_quote_def]] Inr show ?thesis by auto
next
  case (Inl e)
  let ?ps = "zip (cp_providers c) (map ctx [0..<length (cp_providers c)])"
  have "(\<exists>k < length (cp_providers c). ctx k = Some e) \<or>
        (\<exists>k < length (cp_providers c). pv_quote (cp_providers c ! k) tk t = Inl e \<and> \<not> fallthrough_err e) \<or>
        (\<forall>k < length (cp_providers c). \<exists>err. pv_quote (cp_providers c ! k) tk t = Inl err \<and>
           fallthrough_err err \<and> errors_is e err)"
    using chain_loop_error[OF Inl[unfolded chain_quote_def]] by auto
  thus ?thesis using Inl by simp
qed

definition sample_vendor :: "go_error + quote \<Rightarrow> provider" where
  "sample_vendor r =
     \<lparr>pv_name = ''v'', pv_quote = (\<lambda>_ _. r), pv_fundamentals = (\<lambda>_ _. Inl EMarketNotFound),
      pv_bars = (\<lambda>_ _ _. Inl EMarketNotFound)\<rparr>"

definition sample_quote :: quote where
  "sample_quote = \<lparr>qt_ticker = ''X'', qt_price = Fin 10, qt_avg_dollar_volume = Fin 1000, qt_as_of = 5\<rparr>"

definition sample_chain :: chain_provider where
  "sample_chain =
     \<lparr>cp_providers = [sample_vendor (Inl EMarketUnavailable), sample_vendor (Inr sample_quote)], cp_name = ''v+v''\<rparr>"

lemma sample_chain_quote: "chain_quote (\<lambda>_. None) sample_chain ''X'' 9 = Inr sample_quote"
  by (simp add: chain_quote_def sample_chain_def sample_vendor_def fallthrough_err_def numeral_2_eq_2)

theorem chain_is_ordered_fallback_witness:
  "chain_quote (\<lambda>_. None) sample_chain ''X'' 9 = Inr sample_quote \<and>
   (\<exists>k < 2. pv_quote (cp_providers sample_chain ! k) ''X'' 9 = Inr sample_quote)"
proof -
  have "length (cp_providers sample_chain) = 2" by (simp add: sample_chain_def)
  thus ?thesis
    using chain_is_ordered_fallback[where ctx = "\<lambda>_. None" and c = sample_chain and tk = "''X''" and t = 9] sample_chain_quote by auto
qed

end
