(* ===== verification/Finance_Scoring.thy ===== *)
theory Finance_Scoring
  imports Strategy Market_Data
begin

text \<open>
  \<open>internal/finance\<close>, the pure scoring: the tunable inputs (\<open>config.go\<close>), the strategy lenses
  (\<open>strategy.go\<close>), the sub-scores and the sizing (\<open>score.go\<close>, \<open>scoring.go\<close>), the win
  probability prior (\<open>prior.go\<close>) and the per-goal risk budget (\<open>constraints.go\<close>). All
  numbers are \<open>float64\<close>, computed in the source's order.
\<close>

section \<open>Configuration\<close>

record score_weights =
  sw_ev :: f64
  sw_risk :: f64
  sw_liquidity :: f64
  sw_horizon :: f64

record risk_budget =
  rb_max_portfolio_risk_pct :: f64
  rb_max_position_pct :: f64
  rb_kelly_fraction :: f64
  rb_account_equity :: f64
  rb_max_aggregate_risk_pct :: f64

record scoring_config =
  sg_weights :: score_weights
  sg_risk :: risk_budget
  sg_reward_risk_ratio :: f64

definition default_scoring_config :: scoring_config where
  "default_scoring_config =
     \<lparr>sg_weights = \<lparr>sw_ev = lit (40/100), sw_risk = lit (30/100), sw_liquidity = lit (15/100),
        sw_horizon = lit (15/100)\<rparr>,
      sg_risk = \<lparr>rb_max_portfolio_risk_pct = lit (2/100), rb_max_position_pct = lit (20/100),
        rb_kelly_fraction = lit (25/100), rb_account_equity = 0, rb_max_aggregate_risk_pct = lit (6/100)\<rparr>,
      sg_reward_risk_ratio = lit 2\<rparr>"

definition zero_weights :: "score_weights \<Rightarrow> bool" where
  "zero_weights w \<longleftrightarrow> feq (sw_ev w) 0 \<and> feq (sw_risk w) 0 \<and> feq (sw_liquidity w) 0 \<and> feq (sw_horizon w) 0"

definition default_if_zero :: "f64 \<Rightarrow> f64 \<Rightarrow> f64" where
  "default_if_zero d x = (if feq x 0 then d else x)"

definition normalize_config :: "scoring_config \<Rightarrow> scoring_config" where
  "normalize_config c =
     (let def = default_scoring_config; r = sg_risk c; dr = sg_risk def in
      \<lparr>sg_weights = (if zero_weights (sg_weights c) then sg_weights def else sg_weights c),
       sg_risk = r\<lparr>
         rb_kelly_fraction := default_if_zero (rb_kelly_fraction dr) (rb_kelly_fraction r),
         rb_max_position_pct := default_if_zero (rb_max_position_pct dr) (rb_max_position_pct r),
         rb_max_portfolio_risk_pct := default_if_zero (rb_max_portfolio_risk_pct dr) (rb_max_portfolio_risk_pct r),
         rb_max_aggregate_risk_pct := default_if_zero (rb_max_aggregate_risk_pct dr) (rb_max_aggregate_risk_pct r)\<rparr>,
       sg_reward_risk_ratio =
         (if sg_reward_risk_ratio c \<le> 0 then sg_reward_risk_ratio def else sg_reward_risk_ratio c)\<rparr>)"

section \<open>The win-probability prior\<close>

definition priorFloor :: f64 where "priorFloor = lit (35/100)"
definition priorCeil :: f64 where "priorCeil = lit (65/100)"

text \<open>A component is \<open>None\<close> when its \<open>OK\<close> flag is not set.\<close>

record prior_tilts =
  pt_valuation :: "f64 option"
  pt_quality :: "f64 option"
  pt_momentum :: "f64 option"

definition pe_tilt :: "f64 \<Rightarrow> f64 \<Rightarrow> f64" where
  "pe_tilt pe v =
     (if pe \<le> lit 12 then v + lit (5/100)
      else if pe \<le> lit 16 then v + lit (3/100)
      else if pe \<le> lit 22 then v
      else if pe \<le> lit 30 then v - lit (2/100)
      else v - lit (5/100))"

definition pb_tilt :: "f64 \<Rightarrow> f64 \<Rightarrow> f64" where
  "pb_tilt pb v =
     (if pb \<le> lit (15/10) then v + lit (2/100) else if lit 4 \<le> pb then v - lit (2/100) else v)"

definition cumulative_return :: "f64 list \<Rightarrow> f64 option" where
  "cumulative_return rs =
     (if length rs < 2 then None else Some (foldl (\<lambda>cum r. cum * (1 + r)) 1 rs - 1))"

definition compute_prior_tilts :: "fundamentals \<Rightarrow> f64 list \<Rightarrow> prior_tilts" where
  "compute_prior_tilts f returns =
     (let pe = fu_pe f; pb = fu_pb f; eps = fu_eps f;
          v1 = (if 0 < pe then pe_tilt pe 0 else 0);
          v2 = (if 0 < pb then pb_tilt pb v1 else v1)
      in \<lparr>pt_valuation = (if 0 < pe \<or> 0 < pb then Some v2 else None),
          pt_quality = (if \<not> feq eps 0 then Some (if 0 < eps then 0 + lit (1/100) else 0 - lit (4/100)) else None),
          pt_momentum = (case cumulative_return returns of
             None \<Rightarrow> None
           | Some cum \<Rightarrow> Some (if lit (10/100) \<le> cum then 0 + lit (3/100)
                            else if cum \<le> - lit (10/100) then 0 - lit (3/100) else 0))\<rparr>)"

record prior_weights =
  pw_valuation :: f64
  pw_quality :: f64
  pw_momentum :: f64

definition zero_prior :: "prior_weights \<Rightarrow> bool" where
  "zero_prior w \<longleftrightarrow> feq (pw_valuation w) 0 \<and> feq (pw_quality w) 0 \<and> feq (pw_momentum w) 0"

definition normalize_prior :: "prior_weights \<Rightarrow> prior_weights" where
  "normalize_prior w =
     (if zero_prior w then \<lparr>pw_valuation = lit 1, pw_quality = lit 1, pw_momentum = lit 1\<rparr> else w)"

definition clamp_range :: "f64 \<Rightarrow> f64 \<Rightarrow> f64 \<Rightarrow> f64" where
  "clamp_range x lo hi = (if x < lo then lo else if hi < x then hi else x)"

definition add_tilt :: "f64 \<Rightarrow> f64 option \<Rightarrow> f64 \<Rightarrow> f64" where
  "add_tilt w t acc = (case t of None \<Rightarrow> acc | Some x \<Rightarrow> acc + w * x)"

definition win_prob_prior_weighted :: "prior_tilts \<Rightarrow> prior_weights \<Rightarrow> f64 option" where
  "win_prob_prior_weighted t w =
     (let tilt = add_tilt (pw_momentum w) (pt_momentum t)
                   (add_tilt (pw_quality w) (pt_quality t) (add_tilt (pw_valuation w) (pt_valuation t) 0));
          informed = (pt_valuation t \<noteq> None \<or> pt_quality t \<noteq> None \<or> pt_momentum t \<noteq> None)
      in if \<not> informed \<or> feq tilt 0 then None
         else Some (clamp_range (lit (1/2) + tilt) priorFloor priorCeil))"

definition win_prob_prior :: "fundamentals \<Rightarrow> f64 list \<Rightarrow> f64 option" where
  "win_prob_prior f returns =
     win_prob_prior_weighted (compute_prior_tilts f returns)
       \<lparr>pw_valuation = lit 1, pw_quality = lit 1, pw_momentum = lit 1\<rparr>"

section \<open>Strategy lenses\<close>

record risk_scale =
  rk_kelly :: f64
  rk_per_trade_risk :: f64
  rk_aggregate :: f64

record strategy_params =
  sp_name :: string
  sp_prior :: prior_weights
  sp_weights :: score_weights
  sp_reward_risk_ratio :: f64
  sp_risk_scale :: risk_scale

definition tighten_only :: "f64 \<Rightarrow> f64" where
  "tighten_only v = (if v \<le> 0 \<or> lit 1 \<le> v then lit 1 else v)"

definition strategy_apply :: "strategy_params \<Rightarrow> scoring_config \<Rightarrow> scoring_config" where
  "strategy_apply s base =
     (let out0 = normalize_config base;
          out1 = (if \<not> zero_weights (sp_weights s) then out0\<lparr>sg_weights := sp_weights s\<rparr> else out0);
          out2 = (if 0 < sp_reward_risk_ratio s then out1\<lparr>sg_reward_risk_ratio := sp_reward_risk_ratio s\<rparr> else out1);
          k = rk_kelly (sp_risk_scale s);
          r0 = sg_risk out2;
          r1 = (if 0 < k then r0\<lparr>rb_kelly_fraction := rb_kelly_fraction r0 * k\<rparr> else r0);
          v = tighten_only (rk_per_trade_risk (sp_risk_scale s));
          r2 = (if v < lit 1 then r1\<lparr>rb_max_portfolio_risk_pct := rb_max_portfolio_risk_pct r1 * v,
                                 rb_max_position_pct := rb_max_position_pct r1 * v\<rparr> else r1);
          a = tighten_only (rk_aggregate (sp_risk_scale s));
          r3 = (if a < lit 1 \<and> 0 < rb_max_aggregate_risk_pct r2
                then r2\<lparr>rb_max_aggregate_risk_pct := rb_max_aggregate_risk_pct r2 * a\<rparr> else r2)
      in out2\<lparr>sg_risk := r3\<rparr>)"

definition strategy_merge :: "strategy_params \<Rightarrow> strategy_params \<Rightarrow> strategy_params" where
  "strategy_merge s ov =
     (let pick_pos = (\<lambda>x y. if 0 < x then x else (y :: f64)); sr = sp_risk_scale s; orr = sp_risk_scale ov in
      s\<lparr>sp_prior := (if \<not> zero_prior (sp_prior ov) then sp_prior ov else sp_prior s),
        sp_weights := (if \<not> zero_weights (sp_weights ov) then sp_weights ov else sp_weights s),
        sp_reward_risk_ratio := pick_pos (sp_reward_risk_ratio ov) (sp_reward_risk_ratio s),
        sp_risk_scale := \<lparr>rk_kelly = pick_pos (rk_kelly orr) (rk_kelly sr),
          rk_per_trade_risk = pick_pos (rk_per_trade_risk orr) (rk_per_trade_risk sr),
          rk_aggregate = pick_pos (rk_aggregate orr) (rk_aggregate sr)\<rparr>\<rparr>)"

definition zero_risk_scale :: risk_scale where
  "zero_risk_scale = \<lparr>rk_kelly = 0, rk_per_trade_risk = 0, rk_aggregate = 0\<rparr>"

definition default_strategy_set :: "strategy_params list" where
  "default_strategy_set =
     [\<lparr>sp_name = ''value'',
       sp_prior = \<lparr>pw_valuation = lit (16/10), pw_quality = lit 1, pw_momentum = lit (4/10)\<rparr>,
       sp_weights = \<lparr>sw_ev = lit (45/100), sw_risk = lit (25/100), sw_liquidity = lit (15/100), sw_horizon = lit (15/100)\<rparr>,
       sp_reward_risk_ratio = lit (25/10), sp_risk_scale = zero_risk_scale\<rparr>,
      \<lparr>sp_name = ''momentum'',
       sp_prior = \<lparr>pw_valuation = lit (3/10), pw_quality = lit (7/10), pw_momentum = lit (18/10)\<rparr>,
       sp_weights = \<lparr>sw_ev = lit (50/100), sw_risk = lit (20/100), sw_liquidity = lit (20/100), sw_horizon = lit (10/100)\<rparr>,
       sp_reward_risk_ratio = lit (18/10), sp_risk_scale = zero_risk_scale\<rparr>,
      \<lparr>sp_name = ''defensive'',
       sp_prior = \<lparr>pw_valuation = lit (8/10), pw_quality = lit (16/10), pw_momentum = lit (6/10)\<rparr>,
       sp_weights = \<lparr>sw_ev = lit (25/100), sw_risk = lit (45/100), sw_liquidity = lit (15/100), sw_horizon = lit (15/100)\<rparr>,
       sp_reward_risk_ratio = lit 2,
       sp_risk_scale = \<lparr>rk_kelly = lit (5/10), rk_per_trade_risk = lit (75/100), rk_aggregate = lit (75/100)\<rparr>\<rparr>]"

section \<open>Scores\<close>

record position_size =
  ps_suggested_fraction :: f64
  ps_sizing_method :: string
  ps_binding_cap :: string

record thesis_score =
  ts_ticker :: string
  ts_expected_value_score :: f64
  ts_risk_score :: f64
  ts_liquidity_fit_score :: f64
  ts_horizon_fit_score :: f64
  ts_composite :: f64
  ts_position :: position_size
  ts_explain :: string

definition clamp01 :: "f64 \<Rightarrow> f64" where
  "clamp01 x = (if x < 0 then 0 else if 1 < x then 1 else x)"

definition round2 :: "f64 \<Rightarrow> f64" where
  "round2 x = math_round (x * lit 100) / lit 100"

fun returns_of :: "bar list \<Rightarrow> f64 list" where
  "returns_of (a # b # bs) =
     (if feq (ba_close a) 0 then 0 else (ba_close b - ba_close a) / ba_close a) # returns_of (b # bs)"
| "returns_of _ = []"

definition volatility :: "f64 list \<Rightarrow> f64" where
  "volatility rs =
     (if length rs < 2 then 0
      else
        let mean = foldl (+) 0 rs / f64_of_int (int (length rs));
            ss = foldl (\<lambda>acc r. let d = r - mean in acc + d * d) 0 rs
        in math_sqrt (ss / f64_of_int (int (length rs) - 1)))"

fun drawdown_loop :: "f64 \<Rightarrow> f64 \<Rightarrow> bar list \<Rightarrow> f64" where
  "drawdown_loop peak max_dd [] = max_dd"
| "drawdown_loop peak max_dd (b # bs) =
     (let peak1 = (if peak < ba_close b then ba_close b else peak);
          dd = (peak1 - ba_close b) / peak1
      in drawdown_loop peak1 (if 0 < peak1 \<and> max_dd < dd then dd else max_dd) bs)"

definition max_drawdown :: "bar list \<Rightarrow> f64" where
  "max_drawdown bars = drawdown_loop 0 0 bars"

definition expected_value :: "f64 \<Rightarrow> f64 \<Rightarrow> f64 \<Rightarrow> f64" where
  "expected_value win_prob win_frac loss_frac =
     (let p = clamp01 win_prob in p * win_frac - (1 - p) * loss_frac)"

definition ev_score :: "f64 \<Rightarrow> f64" where
  "ev_score ev = clamp01 (lit (1/2) + ev)"

definition NeutralEVScore :: f64 where "NeutralEVScore = lit (1/2)"

definition risk_score :: "f64 \<Rightarrow> f64 \<Rightarrow> f64" where
  "risk_score vol max_dd = clamp01 (1 - lit (1/2) * vol - lit (1/2) * max_dd)"

definition liquidity_fit :: "f64 \<Rightarrow> f64 \<Rightarrow> f64" where
  "liquidity_fit avg_dollar_volume intended =
     (if intended \<le> 0 then 1 else if avg_dollar_volume \<le> 0 then 0
      else clamp01 ((avg_dollar_volume / intended) / lit 100))"

definition horizon_fit :: "int \<Rightarrow> int \<Rightarrow> f64" where
  "horizon_fit goal_days signal_days =
     (if goal_days \<le> 0 \<or> signal_days \<le> 0 then lit (1/2)
      else
        let diff = \<bar>f64_of_int (goal_days - signal_days)\<bar>;
            denom = math_max (f64_of_int goal_days) (f64_of_int signal_days)
        in clamp01 (1 - diff / denom))"

definition composite :: "thesis_score \<Rightarrow> score_weights \<Rightarrow> f64" where
  "composite s w0 =
     (let sum0 = sw_ev w0 + sw_risk w0 + sw_liquidity w0 + sw_horizon w0;
          w = (if sum0 \<le> 0 then \<lparr>sw_ev = lit 1, sw_risk = lit 1, sw_liquidity = lit 1, sw_horizon = lit 1\<rparr> else w0);
          sum = (if sum0 \<le> 0 then lit 4 else sum0);
          c = (sw_ev w * ts_expected_value_score s + sw_risk w * ts_risk_score s
                + sw_liquidity w * ts_liquidity_fit_score s + sw_horizon w * ts_horizon_fit_score s) / sum
      in round2 (clamp01 c))"

definition composite_to_confidence :: "f64 \<Rightarrow> f64" where
  "composite_to_confidence c = clamp01 c"

definition bucket :: "f64 \<Rightarrow> level" where
  "bucket x = (if lit (66/100) \<le> x then LevelHigh else if lit (33/100) \<le> x then LevelMedium else LevelLow)"

text \<open>Impact, effort and risk.\<close>

definition map_to_levels :: "thesis_score \<Rightarrow> level \<times> level \<times> level" where
  "map_to_levels s =
     (bucket (ts_composite s), bucket (1 - ts_liquidity_fit_score s), bucket (1 - ts_risk_score s))"

section \<open>Sizing\<close>

definition position_cap :: "risk_budget \<Rightarrow> f64 \<times> string \<Rightarrow> f64 \<times> string" where
  "position_cap budget fb =
     (if 0 < rb_max_position_pct budget \<and> rb_max_position_pct budget < fst fb
      then (rb_max_position_pct budget, ''max_position_pct'') else fb)"

definition per_trade_cap :: "f64 \<Rightarrow> risk_budget \<Rightarrow> f64 \<times> string \<Rightarrow> f64 \<times> string" where
  "per_trade_cap stop_distance budget fb =
     (if 0 < rb_max_portfolio_risk_pct budget \<and> 0 < stop_distance \<and>
         rb_max_portfolio_risk_pct budget / stop_distance < fst fb
      then (rb_max_portfolio_risk_pct budget / stop_distance, ''max_portfolio_risk_pct'') else fb)"

definition apply_caps :: "f64 \<Rightarrow> f64 \<Rightarrow> risk_budget \<Rightarrow> f64 \<times> string" where
  "apply_caps f stop_distance budget =
     (let fb = per_trade_cap stop_distance budget (position_cap budget (f, ''''))
      in if fst fb < 0 then (0, snd fb) else fb)"

definition unsized :: "string \<Rightarrow> position_size" where
  "unsized meth = \<lparr>ps_suggested_fraction = 0, ps_sizing_method = meth, ps_binding_cap = ''''\<rparr>"

definition sized :: "string \<Rightarrow> f64 \<times> string \<Rightarrow> position_size" where
  "sized meth fb = \<lparr>ps_suggested_fraction = round2 (fst fb), ps_sizing_method = meth, ps_binding_cap = snd fb\<rparr>"

definition kelly_fraction :: "f64 \<Rightarrow> f64 \<Rightarrow> f64 \<Rightarrow> f64" where
  "kelly_fraction p win_frac loss_frac =
     (let b = win_frac / loss_frac; q = 1 - p; kelly = (b * p - q) / b in if kelly < 0 then 0 else kelly)"

definition position_fraction_kelly :: "f64 \<Rightarrow> f64 \<Rightarrow> f64 \<Rightarrow> risk_budget \<Rightarrow> position_size" where
  "position_fraction_kelly win_prob win_frac loss_frac budget =
     (let p = clamp01 win_prob in
      if loss_frac \<le> 0 \<or> win_frac \<le> 0 then unsized ''fractional_kelly''
      else sized ''fractional_kelly''
        (apply_caps (rb_kelly_fraction budget * kelly_fraction p win_frac loss_frac) loss_frac budget))"

definition position_vol_target :: "f64 \<Rightarrow> f64 \<Rightarrow> risk_budget \<Rightarrow> position_size" where
  "position_vol_target target_vol asset_vol budget =
     (if asset_vol \<le> 0 then unsized ''vol_target''
      else sized ''vol_target''
        (apply_caps (target_vol / asset_vol) (math_max asset_vol (lit (1/10000))) budget))"

section \<open>The goal's risk budget\<close>

definition tighten_drawdown :: "f64 \<Rightarrow> risk_budget \<Rightarrow> risk_budget" where
  "tighten_drawdown dd r =
     (let r1 = (if feq (rb_max_position_pct r) 0 \<or> dd < rb_max_position_pct r
                then r\<lparr>rb_max_position_pct := dd\<rparr> else r);
          per_trade = dd / lit 5;
          r2 = (if feq (rb_max_portfolio_risk_pct r1) 0 \<or> per_trade < rb_max_portfolio_risk_pct r1
                then r1\<lparr>rb_max_portfolio_risk_pct := per_trade\<rparr> else r1)
      in if rb_max_aggregate_risk_pct r2 \<le> 0 \<or> dd < rb_max_aggregate_risk_pct r2
         then r2\<lparr>rb_max_aggregate_risk_pct := dd\<rparr> else r2)"

definition halve_risk :: "risk_budget \<Rightarrow> risk_budget" where
  "halve_risk r = r\<lparr>rb_kelly_fraction := rb_kelly_fraction r * lit (1/2),
                   rb_max_position_pct := rb_max_position_pct r * lit (1/2)\<rparr>"

definition loosen_kelly :: "risk_budget \<Rightarrow> risk_budget" where
  "loosen_kelly r = r\<lparr>rb_kelly_fraction := rb_kelly_fraction r * lit (3/2)\<rparr>"

definition budget_step :: "unicode \<Rightarrow> constr \<Rightarrow> risk_budget \<times> string list \<Rightarrow> risk_budget \<times> string list" where
  "budget_step u c st =
     (let kind = uc_to_lower u (uc_trim_space u (co_kind c)); (out, notes) = st in
      if kind = ''drawdown_limit'' then
        (case constraint_percent c of
           None \<Rightarrow> st
         | Some dd \<Rightarrow>
             if dd \<le> 0 \<or> 1 \<le> dd then st
             else (tighten_drawdown dd out, notes @ [''drawdown_limit '' @ fmt_fixed 0 (dd * lit 100) @ ''%'']))
      else if kind = ''risk_tolerance'' then
        (if conservative_re (constraint_words u c)
         then (halve_risk out, notes @ [''risk_tolerance conservative''])
         else if aggressive_re (constraint_words u c)
         then (loosen_kelly out, notes @ [''risk_tolerance aggressive''])
         else st)
      else st)"

definition effective_risk_budget :: "unicode \<Rightarrow> risk_budget \<Rightarrow> constr list \<Rightarrow> risk_budget \<times> string" where
  "effective_risk_budget u base constraints =
     (let (out, notes) = foldl (\<lambda>st c. budget_step u c st) (base, []) constraints
      in (out, join_strs '', '' notes))"

section \<open>Scores stay in the unit interval\<close>

text \<open>The clamps pass a NaN through, so a score is a NaN or between 0 and 1.\<close>

definition unit_or_NaN :: "f64 \<Rightarrow> bool" where
  "unit_or_NaN x \<longleftrightarrow> x = NaN \<or> (Fin 0 \<le> x \<and> x \<le> Fin 1)"

lemma unit_or_NaN_cases: "unit_or_NaN x \<Longrightarrow> (x = NaN \<Longrightarrow> P) \<Longrightarrow> (\<And>r. x = Fin r \<Longrightarrow> 0 \<le> r \<Longrightarrow> r \<le> 1 \<Longrightarrow> P) \<Longrightarrow> P"
  by (cases x) (auto simp: unit_or_NaN_def)

lemma clamp01_unit [simp]: "unit_or_NaN (clamp01 x)"
  by (cases x) (auto simp: clamp01_def unit_or_NaN_def)

lemma clamp01_id: "unit_or_NaN x \<Longrightarrow> clamp01 x = x"
  by (erule unit_or_NaN_cases) (auto simp: clamp01_def)

lemma clamp_confidence_clamp01: "clamp_confidence x = clamp01 x"
  by (simp add: clamp_confidence_def clamp01_def)

lemma lit_100: "lit 100 = Fin 100"
  using rnd_of_int_small[of 100] by (simp add: lit_def)

lemma rha_range: "0 \<le> x \<Longrightarrow> x \<le> of_int n \<Longrightarrow> 0 \<le> rha x \<and> rha x \<le> n"
  unfolding rha_def by (auto, linarith)

lemma rha_mono: "x \<le> y \<Longrightarrow> rha x \<le> rha y"
proof -
  assume a: "x \<le> y"
  show ?thesis
  proof (cases "0 \<le> x")
    case True
    thus ?thesis using a by (simp add: rha_def floor_mono)
  next
    case False
    show ?thesis
    proof (cases "0 \<le> y")
      case True
      have "0 \<le> \<lfloor>- x + 1 / 2\<rfloor>" "0 \<le> \<lfloor>y + 1 / 2\<rfloor>" using False True by simp_all
      thus ?thesis unfolding rha_def if_not_P[OF False] if_P[OF True] by linarith
    next
      case f: False
      have "\<lfloor>- y + 1 / 2\<rfloor> \<le> \<lfloor>- x + 1 / 2\<rfloor>" using a by (intro floor_mono) simp
      thus ?thesis using False f by (simp add: rha_def)
    qed
  qed
qed

lemma round2_unit: "unit_or_NaN x \<Longrightarrow> unit_or_NaN (round2 x)"
proof (erule unit_or_NaN_cases)
  assume "x = NaN"
  thus ?thesis by (simp add: round2_def unit_or_NaN_def Let_def divide_f64_def)
next
  fix r assume r: "x = Fin r" "0 \<le> r" "r \<le> 1"
  have "Fin 0 \<le> rnd (r * 100)" "rnd (r * 100) \<le> Fin 100"
    using rnd_mono[of 0 "r * 100"] rnd_mono[of "r * 100" 100] rnd_of_int_small[of 100] r by simp_all
  then obtain q where q: "rnd (r * 100) = Fin q" "0 \<le> q" "q \<le> 100" by (cases "rnd (r * 100)") auto
  have "0 \<le> rha q" "rha q \<le> 100" using rha_range[of q 100] q by simp_all
  hence "0 \<le> of_int (rha q) / (100 :: rat)" "of_int (rha q) / (100 :: rat) \<le> 1" by simp_all
  then obtain s where "rnd (of_int (rha q) / 100) = Fin s" "0 \<le> s" "s \<le> 1" using rnd_unit by blast
  thus ?thesis using r q by (simp add: round2_def lit_100 unit_or_NaN_def)
qed

lemma composite_unit: "unit_or_NaN (composite s w)"
  by (simp add: composite_def Let_def round2_unit)

lemma scores_unit:
  "unit_or_NaN (ev_score ev)" "unit_or_NaN (risk_score vol dd)" "unit_or_NaN (liquidity_fit v n)"
  "unit_or_NaN (horizon_fit g d)"
proof -
  have h: "unit_or_NaN (lit (1/2))" "unit_or_NaN 0" "unit_or_NaN 1"
    using rnd_unit[of "1/2"] by (auto simp: unit_or_NaN_def lit_def)
  show "unit_or_NaN (ev_score ev)" "unit_or_NaN (risk_score vol dd)" "unit_or_NaN (liquidity_fit v n)"
    "unit_or_NaN (horizon_fit g d)"
    using h by (simp_all add: ev_score_def risk_score_def liquidity_fit_def horizon_fit_def Let_def)
qed

section \<open>Sizing within the caps\<close>

lemma fle_total: "x \<noteq> NaN \<Longrightarrow> y \<noteq> NaN \<Longrightarrow> x \<le> y \<or> y < (x :: f64)"
  using not_flt by blast

lemma position_cap_le:
  assumes "fst fb \<noteq> NaN" "rb_max_position_pct b \<noteq> NaN"
  shows "fst (position_cap b fb) \<noteq> NaN \<and> fst (position_cap b fb) \<le> fst fb \<and>
    (Fin 0 < rb_max_position_pct b \<longrightarrow> fst (position_cap b fb) \<le> rb_max_position_pct b)"
  using assms fle_total[of "fst fb" "rb_max_position_pct b"]
  by (auto simp: position_cap_def intro: fle_refl flt_imp_fle)

lemma per_trade_cap_le:
  assumes "fst fb \<noteq> NaN" "rb_max_portfolio_risk_pct b / d \<noteq> NaN"
  shows "fst (per_trade_cap d b fb) \<noteq> NaN \<and> fst (per_trade_cap d b fb) \<le> fst fb \<and>
    (Fin 0 < rb_max_portfolio_risk_pct b \<and> Fin 0 < d \<longrightarrow>
       fst (per_trade_cap d b fb) \<le> rb_max_portfolio_risk_pct b / d)"
  using assms fle_total[of "fst fb" "rb_max_portfolio_risk_pct b / d"]
  by (auto simp: per_trade_cap_def intro: fle_refl flt_imp_fle)

lemma div_pos_nonneg: "Fin 0 < x \<Longrightarrow> Fin 0 < d \<Longrightarrow> x / d \<noteq> NaN \<Longrightarrow> Fin 0 \<le> x / d"
  by (cases x; cases d) (auto simp: divide_f64_def rnd_nonneg)

lemma apply_caps_bounds:
  assumes "f \<noteq> NaN" "rb_max_position_pct b \<noteq> NaN" "rb_max_portfolio_risk_pct b / d \<noteq> NaN"
  defines "x \<equiv> fst (apply_caps f d b)"
  shows "Fin 0 \<le> x \<and> (Fin 0 < rb_max_position_pct b \<longrightarrow> x \<le> rb_max_position_pct b) \<and>
    (Fin 0 < rb_max_portfolio_risk_pct b \<and> Fin 0 < d \<longrightarrow> x \<le> rb_max_portfolio_risk_pct b / d)"
proof -
  let ?p = "position_cap b (f, '''')"
  let ?t = "per_trade_cap d b ?p"
  note p = position_cap_le[of "(f, '''')" b, simplified, OF assms(1,2)]
  have pn: "fst ?p \<noteq> NaN" using p by blast
  note t = per_trade_cap_le[OF pn assms(3)]
  show ?thesis
  proof (cases "fst ?t < Fin 0")
    case True
    have "x = Fin 0" using True by (simp add: x_def apply_caps_def Let_def)
    moreover have "Fin 0 < rb_max_portfolio_risk_pct b \<and> Fin 0 < d \<longrightarrow> Fin 0 \<le> rb_max_portfolio_risk_pct b / d"
      using div_pos_nonneg assms(3) by blast
    ultimately show ?thesis by (auto intro: flt_imp_fle)
  next
    case False
    have x: "x = fst ?t" using False by (simp add: x_def apply_caps_def Let_def)
    have "Fin 0 \<le> fst ?t" using False t not_flt[of "fst ?t" "Fin 0"] by simp
    moreover have "Fin 0 < rb_max_position_pct b \<longrightarrow> fst ?t \<le> rb_max_position_pct b"
      using t p fle_trans by blast
    ultimately show ?thesis using t unfolding x by blast
  qed
qed

lemma plus_not_NaN: "x = Fin a \<Longrightarrow> y = Fin b \<Longrightarrow> x + y \<noteq> NaN"
  by simp

text \<open>Kelly's formula on a proper bet is a number.\<close>

lemma kelly_not_NaN:
  assumes "Fin 0 \<le> p" "p \<le> Fin 1" "win / loss = Fin b" "0 < b"
  shows "kelly_fraction p win loss \<noteq> NaN \<and> Fin 0 \<le> kelly_fraction p win loss"
proof -
  obtain r where p: "p = Fin r" "0 \<le> r" "r \<le> 1" using assms(1,2) by (cases p) auto
  obtain q where q: "Fin 1 - p = Fin q" "0 \<le> q"
    using rnd_unit[of "1 - r"] p by (auto simp: minus_f64_def)
  have "Fin b * p \<noteq> NaN" by (simp add: p)
  hence "Fin b * p - Fin q \<noteq> NaN" by (cases "Fin b * p") (auto simp: minus_f64_def)
  hence "(Fin b * p - Fin q) / Fin b \<noteq> NaN" using assms(4) by (intro divide_not_NaN) auto
  thus ?thesis using q assms(3) not_flt[of _ "Fin 0"]
    by (auto simp: kelly_fraction_def Let_def)
qed

text \<open>
  C25: Kelly sizing keeps to the risk budget: for a proper bet the suggested fraction is the
  rounding to two decimals of a fraction that is not negative, within the concentration cap and,
  times the stop distance, within the per-trade risk cap, for every cap that is set. Without
  enough information nothing is suggested.
\<close>

theorem kelly_sizing_within_budget:
  assumes "win_prob \<noteq> NaN" "win / loss = Fin b" "0 < b" "rb_kelly_fraction budget = Fin k" "0 < k"
    "rb_max_position_pct budget \<noteq> NaN" "rb_max_portfolio_risk_pct budget / loss \<noteq> NaN"
  defines "s \<equiv> position_fraction_kelly win_prob win loss budget"
  shows "if loss \<le> Fin 0 \<or> win \<le> Fin 0 then ps_suggested_fraction s = Fin 0
    else \<exists>f. ps_suggested_fraction s = round2 f \<and> Fin 0 \<le> f \<and>
      (Fin 0 < rb_max_position_pct budget \<longrightarrow> f \<le> rb_max_position_pct budget) \<and>
      (Fin 0 < rb_max_portfolio_risk_pct budget \<longrightarrow> f \<le> rb_max_portfolio_risk_pct budget / loss)"
proof (cases "loss \<le> Fin 0 \<or> win \<le> Fin 0")
  case True
  thus ?thesis by (simp add: s_def position_fraction_kelly_def unsized_def)
next
  case False
  let ?p = "clamp01 win_prob"
  have p: "Fin 0 \<le> ?p" "?p \<le> Fin 1" using assms(1) by (cases win_prob; auto simp: clamp01_def)+
  have kn: "kelly_fraction ?p win loss \<noteq> NaN" using kelly_not_NaN[OF p assms(2,3)] by simp
  have "Fin k * kelly_fraction ?p win loss \<noteq> NaN"
    using kn assms(5) by (cases "kelly_fraction ?p win loss") (auto simp: Let_def)
  note c = apply_caps_bounds[OF this assms(6,7)]
  have "loss \<noteq> NaN" using assms(2) by (cases win) (auto simp: divide_f64_def)
  hence "Fin 0 < loss" using False fle_total[of loss "Fin 0"] by auto
  thus ?thesis using c False assms(4) by (auto simp: s_def position_fraction_kelly_def sized_def Let_def)
qed

text \<open>
  The fraction is rounded after the caps, so the suggestion itself can exceed them by up to half a
  percent of equity: a cap of 12.5% is suggested as 13%.
\<close>

lemma rounding_exceeds_cap:
  "ps_suggested_fraction (sized ''fractional_kelly'' (Fin (1/8), ''max_position_pct'')) = lit (13/100) \<and>
   Fin (1/8) < lit (13/100)"
proof -
  have "rnd (25/2) = Fin (25/2)"
    using rnd_representable[of "25/2"] rquant_exact[of 25 "-1"] by (simp add: representable_def power_int_def)
  hence "ps_suggested_fraction (sized ''fractional_kelly'' (Fin (1/8), ''max_position_pct'')) = lit (13/100)"
    unfolding sized_def round2_def lit_100 by (simp add: rha_def) (simp add: lit_def)
  moreover have "rnd (13/100) = Fin (of_int (rne (13/100 * 2 powi 55)) * 2 powi (- 55))"
    using rnd_eval[of "-3" "13/100"] by (simp add: power_int_def power_divide)
  moreover have "\<lfloor>117093590311632896 / 25 :: rat\<rfloor> = 4683743612465315"
    by (rule floor_unique) simp_all
  hence "rne (13/100 * 2 powi 55 :: rat) = 4683743612465316" by (simp add: rne_def Let_def power_int_def)
  ultimately show ?thesis by (simp add: lit_def power_int_def power_divide)
qed

lemma rnd_powi2: "k \<le> 1022 \<Longrightarrow> rnd (2 powi (- int k)) = Fin (2 powi (- int k))"
proof (rule rnd_representable)
  assume "k \<le> 1022"
  hence "rquant (2 powi (- int k)) = 2 powi (- int k)" using rquant_exact[of 1 "- int k"] by simp
  moreover have "(2::rat) powi (- int k) \<le> 1" using powi2_le_iff[of "- int k" 0] by simp
  moreover have "(1::rat) < 2 ^ 1024" by simp
  ultimately show "representable (2 powi (- int k))"
    using powi2_pos[of "- int k"] by (simp add: representable_def)
qed

text \<open>An even coin paying 2 to 1, sized under the caps 20% and 2%, a tenth at risk.\<close>

theorem kelly_sizing_within_budget_witness:
  "\<exists>f. ps_suggested_fraction (position_fraction_kelly (Fin (1/2)) (Fin 2) (Fin 1)
       \<lparr>rb_max_portfolio_risk_pct = Fin (1/4), rb_max_position_pct = Fin (1/8), rb_kelly_fraction = Fin (1/2),
        rb_account_equity = Fin 0, rb_max_aggregate_risk_pct = Fin (1/4)\<rparr>) = round2 f \<and>
     Fin 0 \<le> f \<and> f \<le> Fin (1/8)"
proof -
  have 2: "Fin 2 / Fin 1 = Fin 2" using rnd_of_int_small[of 2] by simp
  have "rnd (1/4) = Fin (1/4)" using rnd_powi2[of 2] by (simp add: power_int_def power_divide)
  thus ?thesis
    using kelly_sizing_within_budget[of "Fin (1/2)" "Fin 2" "Fin 1" 2
        "\<lparr>rb_max_portfolio_risk_pct = Fin (1/4), rb_max_position_pct = Fin (1/8), rb_kelly_fraction = Fin (1/2),
        rb_account_equity = Fin 0, rb_max_aggregate_risk_pct = Fin (1/4)\<rparr>" "1/2"] 2
    by auto
qed

end
