(* ===== verification/Pack.thy ===== *)
theory Pack
  imports Finance_Scoring "HOL-Library.AList"
begin

text \<open>
  Decision-domain packs, \<open>internal/pack\<close>: descriptors, their declarative validation of goals, the
  checks on strategy declarations, the registry and the normalisation of configured domains. The
  opaque \<open>Scoring\<close> fields hold what the built-in packs put there; they are read only by the wiring
  layer. File reading and parsing stay outside, the parsed entries are arguments.
\<close>

section \<open>Descriptors\<close>

definition DefaultDomain :: string where "DefaultDomain = ''generic''"

record vocabulary =
  vo_asset_kinds :: "string list"
  vo_constraint_kinds :: "string list"
  vo_signal_kinds :: "string list"

record evaluator_config =
  ec_confidence_delta :: f64
  ec_ignore_signal_kinds :: "string list"

definition SeverityWarning :: string where "SeverityWarning = ''warning''"
definition SeverityError :: string where "SeverityError = ''error''"

record validation_issue =
  is_field :: string
  is_message :: string
  is_severity :: string

text \<open>An \<open>any\<close> holding nil, a \<open>*ScoringConfig\<close> or a \<open>*StrategyParams\<close>, either of which may be nil.\<close>

datatype opaque = NilAny | ScoringAny "scoring_config option" | ParamsAny "strategy_params option"

record strategy_descriptor =
  sd_id :: string
  sd_name :: string
  sd_regimes :: "string list"
  sd_scoring :: opaque
  sd_prompt_template :: string

record validation_rule =
  ru_check :: string
  ru_kinds :: "string list"
  ru_scopes :: "string list"
  ru_field :: string
  ru_message :: string
  ru_severity :: string

record validation =
  vn_rules :: "validation_rule list"
  vn_warn_unknown_kinds :: bool

record descriptor =
  de_id :: string
  de_name :: string
  de_version :: string
  de_prompt_version :: string
  de_prompt_template :: string
  de_planner_kind :: string
  de_source_kinds :: "string list"
  de_eval :: evaluator_config
  de_scoring :: opaque
  de_vocab :: vocabulary
  de_strategies :: "strategy_descriptor list"
  de_selection_default_on :: bool
  de_validation :: validation

definition zero_descriptor :: descriptor where
  "zero_descriptor =
     \<lparr>de_id = '''', de_name = '''', de_version = '''', de_prompt_version = '''', de_prompt_template = '''',
      de_planner_kind = '''', de_source_kinds = [],
      de_eval = \<lparr>ec_confidence_delta = Fin 0, ec_ignore_signal_kinds = []\<rparr>,
      de_scoring = NilAny, de_vocab = \<lparr>vo_asset_kinds = [], vo_constraint_kinds = [], vo_signal_kinds = []\<rparr>,
      de_strategies = [], de_selection_default_on = False,
      de_validation = \<lparr>vn_rules = [], vn_warn_unknown_kinds = False\<rparr>\<rparr>"

section \<open>Strategy declarations\<close>

fun strategies_loop ::
  "unicode \<Rightarrow> string list \<Rightarrow> bool \<Rightarrow> strategy_descriptor list \<Rightarrow> go_error + bool" where
  "strategies_loop u seen ungated [] = Inr ungated"
| "strategies_loop u seen ungated (s # ss) =
     (if uc_trim_space u (sd_id s) = '''' then Inl (EText ''strategy with empty id'')
      else if sd_id s \<in> set seen then Inl (EText (''duplicate strategy id '' @ uc_quote u (sd_id s)))
      else strategies_loop u (sd_id s # seen) (if sd_regimes s = [] then True else ungated) ss)"

definition validate_strategies :: "unicode \<Rightarrow> descriptor \<Rightarrow> go_error option" where
  "validate_strategies u d =
     (if de_strategies d = [] then None
      else if de_id d = '''' \<or> de_id d = DefaultDomain
        then Some (EText ''the generic domain cannot declare strategies'')
      else case strategies_loop u [] False (de_strategies d) of
        Inl e \<Rightarrow> Some e
      | Inr ungated \<Rightarrow>
          if 2 \<le> length (de_strategies d) \<and> \<not> ungated
          then Some (EText ''every strategy declares regime gates; at least one must stay ungated so gating can never empty the field'')
          else None)"

section \<open>Validation of goals\<close>

definition ScopeAsset :: string where "ScopeAsset = ''asset''"
definition ScopeConstraint :: string where "ScopeConstraint = ''constraint''"
definition CheckRequireMetric :: string where "CheckRequireMetric = ''require_metric''"
definition CheckRequireContext :: string where "CheckRequireContext = ''require_context''"
definition CheckRequireAnyKind :: string where "CheckRequireAnyKind = ''require_any_kind''"

lemmas pack_consts [go_defs] = DefaultDomain_def SeverityWarning_def SeverityError_def ScopeAsset_def
  ScopeConstraint_def CheckRequireMetric_def CheckRequireContext_def CheckRequireAnyKind_def

definition contains_scope :: "string list \<Rightarrow> string \<Rightarrow> bool" where
  "contains_scope scopes s = list_ex (\<lambda>x. x = s) scopes"

definition contains_fold :: "unicode \<Rightarrow> string list \<Rightarrow> string \<Rightarrow> bool" where
  "contains_fold u xs want = list_ex (\<lambda>x. uc_equal_fold u x want) xs"

definition any_kind_present :: "unicode \<Rightarrow> goal \<Rightarrow> string list \<Rightarrow> string list \<Rightarrow> bool" where
  "any_kind_present u g kinds scopes =
     (let check_assets = (scopes = [] \<or> contains_scope scopes ScopeAsset);
          check_constraints = (scopes = [] \<or> contains_scope scopes ScopeConstraint)
      in list_ex (\<lambda>want.
           (check_assets \<and> list_ex (\<lambda>a. uc_equal_fold u (as_kind a) want) (cx_assets (g_context g))) \<or>
           (check_constraints \<and> list_ex (\<lambda>c. uc_equal_fold u (co_kind c) want) (cx_constraints (g_context g))))
         kinds)"

definition satisfied :: "unicode \<Rightarrow> validation_rule \<Rightarrow> goal \<Rightarrow> bool" where
  "satisfied u r g =
     (if ru_check r = CheckRequireMetric then g_metric g \<noteq> ''''
      else if ru_check r = CheckRequireContext
        then 0 < length (cx_assets (g_context g)) \<or> 0 < length (cx_constraints (g_context g))
      else if ru_check r = CheckRequireAnyKind then any_kind_present u g (ru_kinds r) (ru_scopes r)
      else True)"

definition unknown_kind_issues :: "unicode \<Rightarrow> descriptor \<Rightarrow> goal \<Rightarrow> validation_issue list" where
  "unknown_kind_issues u d g =
     map (\<lambda>a. \<lparr>is_field = ''context.assets'',
            is_message = ''unrecognised asset kind '' @ uc_quote u (as_kind a) @ '' for this domain'',
            is_severity = SeverityWarning\<rparr>)
       (filter (\<lambda>a. as_kind a \<noteq> '''' \<and> 0 < length (vo_asset_kinds (de_vocab d)) \<and>
            \<not> contains_fold u (vo_asset_kinds (de_vocab d)) (as_kind a)) (cx_assets (g_context g))) @
     map (\<lambda>c. \<lparr>is_field = ''context.constraints'',
            is_message = ''unrecognised constraint kind '' @ uc_quote u (co_kind c) @ '' for this domain'',
            is_severity = SeverityWarning\<rparr>)
       (filter (\<lambda>c. co_kind c \<noteq> '''' \<and> 0 < length (vo_constraint_kinds (de_vocab d)) \<and>
            \<not> contains_fold u (vo_constraint_kinds (de_vocab d)) (co_kind c)) (cx_constraints (g_context g)))"

definition validate_goal :: "unicode \<Rightarrow> descriptor \<Rightarrow> goal \<Rightarrow> validation_issue list" where
  "validate_goal u d g =
     map (\<lambda>r. \<lparr>is_field = ru_field r, is_message = ru_message r, is_severity = ru_severity r\<rparr>)
       (filter (\<lambda>r. \<not> satisfied u r g) (vn_rules (de_validation d))) @
     (if vn_warn_unknown_kinds (de_validation d) then unknown_kind_issues u d g else [])"

section \<open>The registry\<close>

record registry =
  rg_packs :: "(string \<times> descriptor) list"
  rg_fallback :: descriptor

definition new_registry_from :: "descriptor list \<Rightarrow> descriptor list \<Rightarrow> registry" where
  "new_registry_from builtins extra =
     (let packs = foldl (\<lambda>m d. AList.update (de_id d) d m) [] (builtins @ extra)
      in \<lparr>rg_packs = packs,
          rg_fallback = (case map_of packs DefaultDomain of None \<Rightarrow> zero_descriptor | Some d \<Rightarrow> d)\<rparr>)"

definition registry_get :: "registry \<Rightarrow> string \<Rightarrow> descriptor \<times> bool" where
  "registry_get r key =
     (if key = '''' then (rg_fallback r, True)
      else case map_of (rg_packs r) key of
        None \<Rightarrow> (rg_fallback r, False)
      | Some d \<Rightarrow> (d, True))"

definition registry_known :: "registry \<Rightarrow> string \<Rightarrow> bool" where
  "registry_known r key = (if key = '''' then True else map_of (rg_packs r) key \<noteq> None)"

definition registry_ids :: "registry \<Rightarrow> string list" where
  "registry_ids r = sort_by str_less (map fst (rg_packs r))"

section \<open>Configured domains\<close>

text \<open>
  \<open>read\<close> is \<open>readPromptFile\<close> on the parsed path; \<open>seen\<close> holds the identifiers accepted so far.
\<close>

definition normalise_loaded ::
  "unicode \<Rightarrow> (string \<Rightarrow> go_error + string) \<Rightarrow> registry \<Rightarrow> string \<Rightarrow> string list \<Rightarrow> descriptor \<times> string \<Rightarrow>
   go_error + descriptor" where
  "normalise_loaded u read builtins path seen entry =
     (let (d, prompt_file) = entry in
      if de_id d = '''' then Inl (EText (''pack: domain in '' @ path @ '' has an empty id''))
      else if de_id d = DefaultDomain \<or> registry_known builtins (de_id d)
        then Inl (EText (''pack: domain '' @ uc_quote u (de_id d) @
               '' collides with a built-in; built-ins cannot be overridden from config''))
      else if de_id d \<in> set seen
        then Inl (EText (''pack: domain '' @ uc_quote u (de_id d) @ '' is defined more than once in '' @ path))
      else ebind
        (if prompt_file = '''' then Inr d
         else if de_prompt_template d \<noteq> ''''
           then Inl (EText (''pack: domain '' @ uc_quote u (de_id d) @ '' sets both prompt_file and prompt_template''))
         else case read prompt_file of
           Inl e \<Rightarrow> Inl (EWrap (''pack: domain '' @ uc_quote u (de_id d)) e)
         | Inr tmpl \<Rightarrow> Inr (d\<lparr>de_prompt_template := tmpl\<rparr>))
        (\<lambda>d1.
          let d2 = (if de_version d1 = '''' then d1\<lparr>de_version := ''1''\<rparr> else d1)
          in Inr (if de_prompt_version d2 = '''' then d2\<lparr>de_prompt_version := de_id d2 @ ''-v1''\<rparr> else d2)))"

fun load_loop ::
  "unicode \<Rightarrow> (string \<Rightarrow> go_error + string) \<Rightarrow> registry \<Rightarrow> string \<Rightarrow> string list \<Rightarrow> descriptor list \<Rightarrow>
   (descriptor \<times> string) list \<Rightarrow> go_error + descriptor list" where
  "load_loop u read builtins path seen out [] = Inr out"
| "load_loop u read builtins path seen out (e # es) =
     (case normalise_loaded u read builtins path seen e of
        Inl err \<Rightarrow> Inl err
      | Inr d \<Rightarrow> load_loop u read builtins path (de_id d # seen) (out @ [d]) es)"

section \<open>Lemmas\<close>

lemma update_all_keys:
  "set (map fst (foldl (\<lambda>m d. AList.update (de_id d) d m) m ds)) = set (map fst m) \<union> de_id ` set ds"
  by (induction ds arbitrary: m) (auto simp: dom_update)

lemma update_all_distinct:
  "distinct (map fst m) \<Longrightarrow> distinct (map fst (foldl (\<lambda>m d. AList.update (de_id d) d m) m ds))"
  by (induction ds arbitrary: m) (auto simp: distinct_update)

lemma update_all_last:
  "map_of (foldl (\<lambda>m d. AList.update (de_id d) d m) m ds) k =
     (case List.find (\<lambda>d. de_id d = k) (rev ds) of Some d \<Rightarrow> Some d | None \<Rightarrow> map_of m k)"
  by (induction ds rule: rev_induct) (auto simp: update_conv')

lemma registry_known_iff:
  "registry_known (new_registry_from b x) k \<longleftrightarrow> k = '''' \<or> k \<in> de_id ` set (b @ x)"
proof -
  have "map_of ps k \<noteq> None \<longleftrightarrow> k \<in> set (map fst ps)" for ps :: "(string \<times> descriptor) list"
    by (simp add: map_of_eq_None_iff)
  thus ?thesis
    using update_all_keys[of "[]" "b @ x"] by (simp add: registry_known_def new_registry_from_def Let_def)
qed

lemma normalise_loaded_id:
  "normalise_loaded u read builtins path seen e = Inr d \<Longrightarrow>
   de_id d = de_id (fst e) \<and> de_id d \<noteq> '''' \<and> de_id d \<noteq> DefaultDomain \<and>
   \<not> registry_known builtins (de_id d) \<and> de_id d \<notin> set seen \<and> de_version d \<noteq> '''' \<and> de_prompt_version d \<noteq> ''''"
  by (auto simp: normalise_loaded_def Let_def split: if_splits prod.splits sum.splits dest!: ebind_InrD)

lemma load_loop_ids:
  "load_loop u read builtins path seen out es = Inr ds \<Longrightarrow> distinct (map de_id out) \<Longrightarrow>
   set (map de_id out) \<subseteq> set seen \<Longrightarrow>
   \<exists>new. ds = out @ new \<and> length new = length es \<and> distinct (map de_id ds) \<and>
     (\<forall>d \<in> set new. \<not> registry_known builtins (de_id d) \<and> de_id d \<noteq> DefaultDomain \<and> de_id d \<noteq> '''')"
proof (induction es arbitrary: seen out)
  case (Cons e es)
  then obtain d where d: "normalise_loaded u read builtins path seen e = Inr d"
    "load_loop u read builtins path (de_id d # seen) (out @ [d]) es = Inr ds"
    by (auto split: sum.splits)
  note i = normalise_loaded_id[OF d(1)]
  have "de_id d \<notin> set (map de_id out)" using i Cons.prems(3) by blast
  moreover have "set (map de_id (out @ [d])) \<subseteq> set (de_id d # seen)" using Cons.prems(3) by auto
  ultimately obtain new where
    "ds = (out @ [d]) @ new" "length new = length es" "distinct (map de_id ds)"
    "\<forall>d \<in> set new. \<not> registry_known builtins (de_id d) \<and> de_id d \<noteq> DefaultDomain \<and> de_id d \<noteq> ''''"
    using Cons.IH[OF d(2)] Cons.prems(2) by auto
  with i show ?case by (intro exI[of _ "d # new"]) auto
qed simp

section \<open>Properties\<close>

lemma find_unique:
  "distinct (map f xs) \<Longrightarrow> x \<in> set xs \<Longrightarrow> List.find (\<lambda>y. f y = f x) (rev xs) = Some x"
proof -
  assume d: "distinct (map f xs)" and x: "x \<in> set xs"
  obtain y where y: "List.find (\<lambda>y. f y = f x) (rev xs) = Some y"
    using x by (cases "List.find (\<lambda>y. f y = f x) (rev xs)") (auto simp: find_None_iff)
  hence "y \<in> set xs" "f y = f x" by (auto dest: find_SomeD)
  with d x y show ?thesis by (auto simp: distinct_map dest: inj_onD)
qed

text \<open>
  Domains loaded from configuration extend the registry and never override it: every
  built-in key, and the empty key, resolves as before, every loaded domain resolves to its own
  normalised descriptor, and their identifiers are pairwise different.
\<close>

theorem loaded_domains_extend:
  assumes "load_loop u read (new_registry_from b []) path [] [] es = Inr ds"
    and "DefaultDomain \<in> de_id ` set b"
  shows "distinct (map de_id ds) \<and> length ds = length es \<and>
    (\<forall>d \<in> set ds. registry_get (new_registry_from b ds) (de_id d) = (d, True)) \<and>
    (\<forall>k. registry_known (new_registry_from b []) k \<longrightarrow>
       registry_get (new_registry_from b ds) k = registry_get (new_registry_from b []) k)"
proof -
  let ?m = "\<lambda>xs. foldl (\<lambda>m d. AList.update (de_id d) d m) [] xs"
  have l: "distinct (map de_id ds)" "length ds = length es"
    "\<forall>d \<in> set ds. \<not> registry_known (new_registry_from b []) (de_id d) \<and> de_id d \<noteq> DefaultDomain \<and> de_id d \<noteq> ''''"
    using load_loop_ids[OF assms(1)] by auto
  have split: "map_of (?m (b @ ds)) k = (case List.find (\<lambda>d. de_id d = k) (rev ds) of
      Some d \<Rightarrow> Some d | None \<Rightarrow> map_of (?m b) k)" for k
    using update_all_last[of "?m b" ds k] by simp
  have new: "map_of (?m (b @ ds)) (de_id d) = Some d" if "d \<in> set ds" for d
    unfolding split find_unique[OF l(1) that] by simp
  have old: "map_of (?m (b @ ds)) k = map_of (?m b) k" if "k \<notin> de_id ` set ds" for k
  proof -
    have "List.find (\<lambda>d. de_id d = k) (rev ds) = None" using that by (auto simp: find_None_iff)
    thus ?thesis unfolding split by simp
  qed
  have fb: "rg_fallback (new_registry_from b ds) = rg_fallback (new_registry_from b [])"
  proof -
    have "DefaultDomain \<notin> de_id ` set ds" using l(3) by (auto simp del: registry_known_iff)
    from old[OF this] show ?thesis by (simp add: new_registry_from_def Let_def)
  qed
  have "registry_get (new_registry_from b ds) k = registry_get (new_registry_from b []) k"
    if "registry_known (new_registry_from b []) k" for k
  proof (cases "k = ''''")
    case False
    have "k \<notin> de_id ` set ds" using that l(3) by auto
    from old[OF this] fb show ?thesis
      by (simp add: registry_get_def new_registry_from_def Let_def split: option.split)
  qed (simp add: registry_get_def fb)
  moreover have "registry_get (new_registry_from b ds) (de_id d) = (d, True)" if "d \<in> set ds" for d
    using new[OF that] l(3) that by (simp add: registry_get_def new_registry_from_def Let_def)
  ultimately show ?thesis using l by blast
qed

definition sample_generic :: descriptor where
  "sample_generic = zero_descriptor\<lparr>de_id := DefaultDomain\<rparr>"

definition sample_domain :: descriptor where
  "sample_domain = zero_descriptor\<lparr>de_id := ''ops''\<rparr>"

theorem loaded_domains_extend_witness:
  "fst (registry_get (new_registry_from [sample_generic]
      [sample_domain\<lparr>de_version := ''1'', de_prompt_version := ''ops-v1''\<rparr>]) ''ops'') =
   sample_domain\<lparr>de_version := ''1'', de_prompt_version := ''ops-v1''\<rparr>"
proof -
  let ?d = "sample_domain\<lparr>de_version := ''1'', de_prompt_version := ''ops-v1''\<rparr>"
  have "load_loop ascii_unicode (\<lambda>_. Inl ENotFound) (new_registry_from [sample_generic] []) ''f'' [] []
      [(sample_domain, '''')] = Inr [?d]"
    by (simp add: normalise_loaded_def registry_known_def new_registry_from_def sample_domain_def
        sample_generic_def zero_descriptor_def DefaultDomain_def Let_def)
  from loaded_domains_extend[OF this]
  have "registry_get (new_registry_from [sample_generic] [?d]) (de_id ?d) = (?d, True)"
    by (simp add: sample_generic_def)
  thus ?thesis by (simp add: sample_domain_def)
qed

end
