(* ===== verification/Service.thy ===== *)
theory Service
  imports Storage Engine Pack
begin

text \<open>
  The use cases of \<open>internal/app\<close> (\<open>service.go\<close>, \<open>worker.go\<close>, \<open>notify.go\<close>): the
  state a use case changes (the store, the events handed to the notifier, the metrics), one
  definition per operation, and the asynchronous handler \<open>processReplan\<close> with both of its retry
  loops. Other goroutines may write to the store between any two accesses: \<open>se_other\<close> says what
  they do before the n-th access, and every property quantifies over it.
\<close>

section \<open>Events, metrics and the state of a use case\<close>

definition StatusApplied :: string where "StatusApplied = ''applied''"
definition StatusUnchanged :: string where "StatusUnchanged = ''unchanged''"
definition StatusPending :: string where "StatusPending = ''pending''"
definition StatusFailed :: string where "StatusFailed = ''failed''"

lemmas signal_status_defs [go_defs] =
  StatusApplied_def StatusUnchanged_def StatusPending_def StatusFailed_def

record replan_completed =
  rc_goal_id :: string
  rc_plan_id :: string
  rc_signal_id :: string
  rc_status :: string
  rc_reason :: string
  rc_error :: string
  rc_version :: "plan_version option"

datatype event_payload =
    GoalCreatedPayload goal
  | PlanCreatedPayload string plan_version
  | SignalReceivedPayload signal string
  | ReplanCompletedPayload replan_completed
  | OutcomeRecordedPayload outcome
  | GoalStatusChangedPayload goal goal_status

record event =
  ev_id :: string
  ev_type :: string
  ev_created_at :: time
  ev_payload :: event_payload

definition EventGoalCreated :: string where "EventGoalCreated = ''goal.created''"
definition EventPlanCreated :: string where "EventPlanCreated = ''plan.created''"
definition EventSignalReceived :: string where "EventSignalReceived = ''signal.received''"
definition EventReplanCompleted :: string where "EventReplanCompleted = ''replan.completed''"
definition EventOutcomeRecorded :: string where "EventOutcomeRecorded = ''outcome.recorded''"
definition EventGoalStatusChanged :: string where "EventGoalStatusChanged = ''goal.status_changed''"

datatype metric =
    PlanVersionCreated string
  | ReplanEvaluated string bool
  | ReplanEnqueued string
  | ReplanFailed string

record service =
  sv_repo :: mem_repo
  sv_events :: "event list"
  sv_metrics :: "metric list"
  sv_clock_reads :: nat
  sv_ids_drawn :: nat
  sv_accesses :: nat
  sv_engine_calls :: nat
  sv_ctx_polls :: nat

text \<open>
  What a use case is given: the n-th reading of the clock, the n-th random suffix, the engine as
  it behaves at the n-th call (a planner may answer differently each time), what the other
  goroutines do to the store before the n-th access, and whether the context is done at its n-th
  poll.
\<close>

record service_env =
  se_clock :: "nat \<Rightarrow> time"
  se_random :: "nat \<Rightarrow> string"
  se_engine :: "nat \<Rightarrow> engine"
  se_other :: "nat \<Rightarrow> mem_repo \<Rightarrow> mem_repo"
  se_ctx_err :: "nat \<Rightarrow> go_error option"
  se_registry :: "registry option"
  se_unicode :: unicode
  se_replan_retries :: int

definition read_clock :: "service_env \<Rightarrow> service \<Rightarrow> time \<times> service" where
  "read_clock env s = (se_clock env (sv_clock_reads s), s\<lparr>sv_clock_reads := Suc (sv_clock_reads s)\<rparr>)"

definition new_id :: "service_env \<Rightarrow> string \<Rightarrow> service \<Rightarrow> string \<times> service" where
  "new_id env pre s =
     (pre @ ''_'' @ se_random env (sv_ids_drawn s), s\<lparr>sv_ids_drawn := Suc (sv_ids_drawn s)\<rparr>)"

definition others_act :: "service_env \<Rightarrow> service \<Rightarrow> service" where
  "others_act env s =
     s\<lparr>sv_repo := se_other env (sv_accesses s) (sv_repo s), sv_accesses := Suc (sv_accesses s)\<rparr>"

definition repo_read :: "(mem_repo \<Rightarrow> 'a) \<Rightarrow> service_env \<Rightarrow> service \<Rightarrow> 'a \<times> service" where
  "repo_read f env s = (let s1 = others_act env s in (f (sv_repo s1), s1))"

definition repo_write ::
  "(mem_repo \<Rightarrow> go_error option \<times> mem_repo) \<Rightarrow> service_env \<Rightarrow> service \<Rightarrow> go_error option \<times> service" where
  "repo_write f env s =
     (let s1 = others_act env s; (e, m) = f (sv_repo s1) in (e, s1\<lparr>sv_repo := m\<rparr>))"

definition take_engine :: "service_env \<Rightarrow> service \<Rightarrow> engine \<times> service" where
  "take_engine env s = (se_engine env (sv_engine_calls s), s\<lparr>sv_engine_calls := Suc (sv_engine_calls s)\<rparr>)"

definition poll_ctx :: "service_env \<Rightarrow> service \<Rightarrow> go_error option \<times> service" where
  "poll_ctx env s = (se_ctx_err env (sv_ctx_polls s), s\<lparr>sv_ctx_polls := Suc (sv_ctx_polls s)\<rparr>)"

definition add_metric :: "metric \<Rightarrow> service \<Rightarrow> service" where
  "add_metric x s = s\<lparr>sv_metrics := sv_metrics s @ [x]\<rparr>"

definition emit :: "service_env \<Rightarrow> string \<Rightarrow> event_payload \<Rightarrow> service \<Rightarrow> service" where
  "emit env typ pay s =
     (let (i, s1) = new_id env ''evt'' s; (t, s2) = read_clock env s1
      in s2\<lparr>sv_events := sv_events s2 @ [\<lparr>ev_id = i, ev_type = typ, ev_created_at = t, ev_payload = pay\<rparr>]\<rparr>)"

section \<open>Goals\<close>

record create_goal_input =
  gi_player_id :: string
  gi_domain :: string
  gi_objective :: string
  gi_metric :: string
  gi_target :: string
  gi_context :: goal_context

text \<open>The text of the error lists the registered keys with \<open>%v\<close>: \<open>[a b c]\<close>.\<close>

definition normalize_domain :: "service_env \<Rightarrow> string \<Rightarrow> go_error + string" where
  "normalize_domain env inp =
     (let key = (if inp = DefaultDomain then '''' else inp) in
      case se_registry env of
        None \<Rightarrow> Inr key
      | Some r \<Rightarrow>
          if \<not> registry_known r key
          then Inl (EValidation (''unknown domain '' @ uc_quote (se_unicode env) inp @ ''; valid domains: ['' @
                 join_strs '' '' (registry_ids r) @ '']''))
          else Inr key)"

fun first_error :: "validation_issue list \<Rightarrow> go_error option" where
  "first_error [] = None"
| "first_error (iss # rest) =
     (if is_severity iss = SeverityError
      then Some (EValidation (is_field iss @ '': '' @ is_message iss)) else first_error rest)"

definition validate_goal_domain :: "service_env \<Rightarrow> goal \<Rightarrow> go_error option" where
  "validate_goal_domain env g =
     (case se_registry env of
        None \<Rightarrow> None
      | Some r \<Rightarrow> first_error (validate_goal (se_unicode env) (fst (registry_get r (g_domain g))) g))"

definition svc_create_goal :: "create_goal_input \<Rightarrow> service_env \<Rightarrow> service \<Rightarrow> (go_error + goal) \<times> service" where
  "svc_create_goal inp env s =
     (if gi_objective inp = '''' then (Inl (EValidation ''objective is required''), s)
      else case normalize_domain env (gi_domain inp) of
        Inl err \<Rightarrow> (Inl err, s)
      | Inr key \<Rightarrow>
          let (now, s1) = read_clock env s; (i, s2) = new_id env ''goal'' s1;
              g = zero_goal\<lparr>g_id := i, g_player_id := gi_player_id inp, g_domain := key,
                    g_objective := gi_objective inp, g_metric := gi_metric inp,
                    g_target := gi_target inp, g_context := gi_context inp, g_status := GoalActive,
                    g_created_at := now, g_updated_at := now\<rparr>
          in case validate_goal_domain env g of
               Some err \<Rightarrow> (Inl err, s2)
             | None \<Rightarrow>
                 (case repo_write (create_goal g) env s2 of
                    (Some err, s3) \<Rightarrow> (Inl err, s3)
                  | (None, s3) \<Rightarrow> (Inr g, emit env EventGoalCreated (GoalCreatedPayload g) s3)))"

definition effective_status :: "goal \<Rightarrow> goal_status" where
  "effective_status g = (if g_status g = '''' then GoalActive else g_status g)"

record update_status_input =
  ui_goal_id :: string
  ui_status :: goal_status
  ui_resolution_result :: outcome_result
  ui_resolution_notes :: string

definition resolution_for ::
  "update_status_input \<Rightarrow> service_env \<Rightarrow> service \<Rightarrow> (go_error + resolution option) \<times> service" where
  "resolution_for inp env s =
     (if status_terminal (ui_status inp) then
        (if \<not> outcome_valid (ui_resolution_result inp)
         then (Inl (EValidation ''a resolution result (success, failure, partial, inconclusive) is required to resolve or abandon a goal''), s)
         else let (t, s1) = read_clock env s
              in (Inr (Some \<lparr>re_result = ui_resolution_result inp, re_notes = ui_resolution_notes inp,
                             re_resolved_at = t\<rparr>), s1))
      else if ui_resolution_result inp \<noteq> '''' \<or> ui_resolution_notes inp \<noteq> ''''
        then (Inl (EValidation ''a resolution may only be set when resolving or abandoning a goal''), s)
      else (Inr None, s))"

definition svc_update_goal_status ::
  "update_status_input \<Rightarrow> service_env \<Rightarrow> service \<Rightarrow> (go_error + goal) \<times> service" where
  "svc_update_goal_status inp env s =
     (if ui_goal_id inp = '''' then (Inl (EValidation ''goal_id is required''), s)
      else if \<not> status_valid (ui_status inp)
        then (Inl (EValidation ''status must be one of: active, on_hold, resolved, abandoned''), s)
      else case repo_read (get_goal (ui_goal_id inp)) env s of
        (Inl err, s1) \<Rightarrow> (Inl err, s1)
      | (Inr g, s1) \<Rightarrow>
          let cur = effective_status g in
          if \<not> can_transition_to cur (ui_status inp)
          then (Inl (EValidation (''cannot transition goal from '' @ uc_quote (se_unicode env) cur @ '' to '' @
                  uc_quote (se_unicode env) (ui_status inp))), s1)
          else case resolution_for inp env s1 of
            (Inl err, s2) \<Rightarrow> (Inl err, s2)
          | (Inr res, s2) \<Rightarrow>
              let (now, s3) = read_clock env s2 in
              (case repo_write (update_goal_status (g_id g) (g_status g) (ui_status inp) res now) env s3 of
                 (Some err, s4) \<Rightarrow> (Inl err, s4)
               | (None, s4) \<Rightarrow>
                   let g' = g\<lparr>g_status := ui_status inp, g_resolution := res, g_updated_at := now\<rparr>
                   in (Inr g', emit env EventGoalStatusChanged (GoalStatusChangedPayload g' cur) s4)))"

section \<open>Plans\<close>

definition create_first_version :: "plan \<Rightarrow> plan_version \<Rightarrow> mem_repo \<Rightarrow> go_error option \<times> mem_repo" where
  "create_first_version p v =
     repo_tx (\<lambda>tx. case create_plan p tx of
                     (Some err, tx1) \<Rightarrow> (Some err, tx1)
                   | (None, tx1) \<Rightarrow> create_plan_version v tx1)"

definition commit_plan :: "goal \<Rightarrow> plan_version \<Rightarrow> service_env \<Rightarrow> service \<Rightarrow> (go_error + plan_version) \<times> service" where
  "commit_plan g v env s =
     (let (now, s5) = read_clock env s;
          p = \<lparr>p_id = v_plan_id v, p_goal_id = g_id g, p_current_version = 0,
               p_created_at = now, p_updated_at = now\<rparr>
      in (case repo_write (create_first_version p v) env s5 of
            (Some err, s6) \<Rightarrow> (Inl err, s6)
          | (None, s6) \<Rightarrow>
              (Inr v, emit env EventPlanCreated (PlanCreatedPayload (g_id g) v)
                        (add_metric (PlanVersionCreated (g_domain g)) s6))))"

definition svc_generate_plan :: "string \<Rightarrow> service_env \<Rightarrow> service \<Rightarrow> (go_error + plan_version) \<times> service" where
  "svc_generate_plan gid env s =
     (case repo_read (get_goal gid) env s of
        (Inl err, s1) \<Rightarrow> (Inl err, s1)
      | (Inr g, s1) \<Rightarrow>
          if effective_status g \<noteq> GoalActive then (Inl EGoalNotActive, s1)
          else case repo_read (get_plan_by_goal gid) env s1 of
            (Inr _, s2) \<Rightarrow> (Inl EPlanExists, s2)
          | (Inl err, s2) \<Rightarrow>
              if \<not> errors_is err ENotFound then (Inl err, s2)
              else let (eng, s3) = take_engine env s2; (i, s4) = new_id env ''plan'' s3 in
                case generate_initial_plan eng i g of
                  Inl err \<Rightarrow> (Inl err, s3)
                | Inr v \<Rightarrow> commit_plan g v env s4)"

definition plan_view :: "plan \<Rightarrow> service_env \<Rightarrow> service \<Rightarrow> (go_error + plan \<times> plan_version) \<times> service" where
  "plan_view p env s =
     (case repo_read (get_current_plan_version (p_id p)) env s of
        (Inl err, s2) \<Rightarrow> (Inl err, s2)
      | (Inr v, s2) \<Rightarrow> (Inr (p, v), s2))"

definition svc_get_plan :: "string \<Rightarrow> service_env \<Rightarrow> service \<Rightarrow> (go_error + plan \<times> plan_version) \<times> service" where
  "svc_get_plan pid env s =
     (case repo_read (get_plan pid) env s of
        (Inl err, s1) \<Rightarrow> (Inl err, s1)
      | (Inr p, s1) \<Rightarrow>
          (case repo_read (get_current_plan_version pid) env s1 of
             (Inl err, s2) \<Rightarrow> (Inl err, s2)
           | (Inr v, s2) \<Rightarrow> (Inr (p, v), s2)))"

definition svc_get_goal_plan :: "string \<Rightarrow> service_env \<Rightarrow> service \<Rightarrow> (go_error + plan \<times> plan_version) \<times> service" where
  "svc_get_goal_plan gid env s =
     (case repo_read (get_plan_by_goal gid) env s of
        (Inl err, s1) \<Rightarrow> (Inl err, s1)
      | (Inr p, s1) \<Rightarrow> plan_view p env s1)"

section \<open>The replan worker\<close>

record replan_job =
  jb_goal_id :: string
  jb_plan_id :: string
  jb_domain :: string
  jb_signal_id :: string
  jb_signal_kind :: string
  jb_signal_note :: string
  jb_signal_payload :: payload
  jb_enqueued_at :: time

record replan_outcome =
  ro_processed :: bool
  ro_material :: bool
  ro_reason :: string
  ro_version :: plan_version

definition maxReplanAttempts :: nat where "maxReplanAttempts = 3"

definition is_transient_replan_err :: "go_error \<Rightarrow> bool" where
  "is_transient_replan_err err =
     (if errors_is err ECanceled \<or> errors_is err EDeadlineExceeded then False else \<not> is_validation err)"

text \<open>\<open>50 * time.Millisecond << (attempt - 1)\<close> on 64 bits, capped at two seconds.\<close>

definition retry_backoff :: "nat \<Rightarrow> 64 word" where
  "retry_backoff attempt =
     (let d = push_bit (attempt - 1) (word_of_int (50 * millisecond))
      in if 2 * second < sint d then word_of_int (2 * second) else d)"

text \<open>
  \<open>replanWithRetry\<close>: before each retry the goroutine waits for the context or the timer,
  whichever comes first.
\<close>

function retry_loop ::
  "goal \<Rightarrow> plan_version \<Rightarrow> replan_job \<Rightarrow> service_env \<Rightarrow> int \<Rightarrow> go_error \<Rightarrow> service \<Rightarrow>
   (go_error + replan_result) \<times> service" where
  "retry_loop g cur job env attempt last_err s =
     (if se_replan_retries env < attempt then (Inl last_err, s)
      else
        let (stopped, s1) = (if 0 < attempt then poll_ctx env s else (None, s)) in
        case stopped of
          Some err \<Rightarrow> (Inl err, s1)
        | None \<Rightarrow>
            let (eng, s2) = take_engine env s1 in
            (case replan eng g cur (jb_signal_note job) (jb_signal_kind job) (jb_signal_payload job) of
               Inr r \<Rightarrow> (Inr r, s2)
             | Inl err \<Rightarrow>
                 if \<not> is_transient_replan_err err then (Inl err, s2)
                 else retry_loop g cur job env (attempt + 1) err s2))"
  by pat_completeness auto
termination
  by (relation "measure (\<lambda>(g, cur, job, env, attempt, err, s). nat (se_replan_retries env + 1 - attempt))")
     (auto split: if_splits)

declare retry_loop.simps [simp del]

definition replan_with_retry ::
  "goal \<Rightarrow> plan_version \<Rightarrow> replan_job \<Rightarrow> service_env \<Rightarrow> service \<Rightarrow> (go_error + replan_result) \<times> service" where
  "replan_with_retry g cur job env s = retry_loop g cur job env 0 (EText '''') s"

text \<open>A failure to record the status is only logged.\<close>

definition mark_signal ::
  "string \<Rightarrow> string \<Rightarrow> int \<Rightarrow> string \<Rightarrow> string \<Rightarrow> service_env \<Rightarrow> service \<Rightarrow> service" where
  "mark_signal sid status version reason err_msg env s =
     (let (t, s1) = read_clock env s
      in snd (repo_write (mark_signal_processed sid status version reason err_msg t) env s1))"

definition emit_replan_completed ::
  "replan_job \<Rightarrow> string \<Rightarrow> string \<Rightarrow> string \<Rightarrow> plan_version option \<Rightarrow> service_env \<Rightarrow> service \<Rightarrow> service" where
  "emit_replan_completed job status reason err_msg v env s =
     emit env EventReplanCompleted
       (ReplanCompletedPayload
         \<lparr>rc_goal_id = jb_goal_id job, rc_plan_id = jb_plan_id job, rc_signal_id = jb_signal_id job,
          rc_status = status, rc_reason = reason, rc_error = err_msg, rc_version = v\<rparr>) s"

definition fail_replan ::
  "replan_job \<Rightarrow> go_error \<Rightarrow> service_env \<Rightarrow> service \<Rightarrow> (go_error + replan_outcome) \<times> service" where
  "fail_replan job err env s =
     (let s1 = add_metric (ReplanFailed (jb_domain job)) s;
          s2 = mark_signal (jb_signal_id job) StatusFailed 0 ''replan failed'' (error_text err) env s1
      in (Inl err, emit_replan_completed job StatusFailed ''replan failed'' (error_text err) None env s2))"

definition replan_unchanged ::
  "replan_job \<Rightarrow> plan_version \<Rightarrow> replan_result \<Rightarrow> service_env \<Rightarrow> service \<Rightarrow>
   (go_error + replan_outcome) \<times> service" where
  "replan_unchanged job cur r env s =
     (let s1 = mark_signal (jb_signal_id job) StatusUnchanged (v_version cur) (rr_reason r) '''' env s
      in (Inr \<lparr>ro_processed = True, ro_material = False, ro_reason = rr_reason r, ro_version = cur\<rparr>,
          emit_replan_completed job StatusUnchanged (rr_reason r) '''' (Some cur) env s1))"

definition replan_applied ::
  "replan_job \<Rightarrow> goal \<Rightarrow> replan_result \<Rightarrow> service_env \<Rightarrow> service \<Rightarrow> (go_error + replan_outcome) \<times> service" where
  "replan_applied job g r env s =
     (let s1 = add_metric (PlanVersionCreated (g_domain g)) s;
          s2 = mark_signal (jb_signal_id job) StatusApplied (v_version (rr_candidate r)) (rr_reason r) '''' env s1
      in (Inr \<lparr>ro_processed = True, ro_material = True, ro_reason = rr_reason r, ro_version = rr_candidate r\<rparr>,
          emit_replan_completed job StatusApplied (rr_reason r) '''' (Some (rr_candidate r)) env s2))"

text \<open>The optimistic-concurrency loop; the first argument counts the attempts left.\<close>

fun process_loop ::
  "nat \<Rightarrow> replan_job \<Rightarrow> goal \<Rightarrow> service_env \<Rightarrow> service \<Rightarrow> (go_error + replan_outcome) \<times> service" where
  "process_loop 0 job g env s = fail_replan job EConflict env s"
| "process_loop (Suc n) job g env s =
     (case repo_read (get_current_plan_version (jb_plan_id job)) env s of
        (Inl err, s1) \<Rightarrow> fail_replan job err env s1
      | (Inr cur, s1) \<Rightarrow>
          (case replan_with_retry g cur job env s1 of
             (Inl err, s2) \<Rightarrow> fail_replan job err env s2
           | (Inr r, s2) \<Rightarrow>
               let s3 = add_metric (ReplanEvaluated (g_domain g) (rr_material r)) s2 in
               if \<not> rr_material r then replan_unchanged job cur r env s3
               else (case repo_write (create_plan_version (rr_candidate r)) env s3 of
                       (None, s4) \<Rightarrow> replan_applied job g r env s4
                     | (Some err, s4) \<Rightarrow>
                         if errors_is err EConflict then process_loop n job g env s4
                         else fail_replan job err env s4)))"

definition process_replan :: "replan_job \<Rightarrow> service_env \<Rightarrow> service \<Rightarrow> (go_error + replan_outcome) \<times> service" where
  "process_replan job env s =
     (case repo_read (get_goal (jb_goal_id job)) env s of
        (Inl err, s1) \<Rightarrow> fail_replan job err env s1
      | (Inr g, s1) \<Rightarrow> process_loop maxReplanAttempts job g env s1)"

section \<open>Signals\<close>

record signal_input =
  si_goal_id :: string
  si_kind :: string
  si_description :: string
  si_payload :: payload

record enqueued =
  nq_synchronous :: bool
  nq_outcome :: replan_outcome

definition zero_outcome :: replan_outcome where
  "zero_outcome = \<lparr>ro_processed = False, ro_material = False, ro_reason = '''', ro_version = zero_version\<rparr>"

type_synonym enqueue = "replan_job \<Rightarrow> service_env \<Rightarrow> service \<Rightarrow> (go_error + enqueued) \<times> service"

text \<open>\<open>InlineQueue.Enqueue\<close>, its handler being \<open>processReplan\<close> once the service has started it.\<close>

definition inline_enqueue ::
  "(replan_job \<Rightarrow> service_env \<Rightarrow> service \<Rightarrow> (go_error + replan_outcome) \<times> service) option \<Rightarrow> enqueue" where
  "inline_enqueue handler job env s =
     (case handler of
        None \<Rightarrow> (Inl (EText ''app: inline queue has no handler''), s)
      | Some h \<Rightarrow>
          (case h job env s of
             (Inl err, s1) \<Rightarrow> (Inl err, s1)
           | (Inr out, s1) \<Rightarrow> (Inr \<lparr>nq_synchronous = True, nq_outcome = out\<rparr>, s1)))"

record signal_result =
  sr_signal :: signal
  sr_status :: string
  sr_material :: bool
  sr_reason :: string
  sr_plan_version :: plan_version

definition job_of :: "goal \<Rightarrow> plan \<Rightarrow> signal \<Rightarrow> time \<Rightarrow> replan_job" where
  "job_of g p sig now =
     \<lparr>jb_goal_id = g_id g, jb_plan_id = p_id p, jb_domain = g_domain g, jb_signal_id = s_id sig,
      jb_signal_kind = s_kind sig, jb_signal_note = signal_note sig, jb_signal_payload = s_payload sig,
      jb_enqueued_at = now\<rparr>"

definition apply_result ::
  "signal \<Rightarrow> plan_version \<Rightarrow> enqueued \<Rightarrow> service_env \<Rightarrow> service \<Rightarrow> (go_error + signal_result) \<times> service" where
  "apply_result sig cur enq env s =
     (if \<not> nq_synchronous enq
      then (Inr \<lparr>sr_signal = sig, sr_status = StatusPending, sr_material = False, sr_reason = '''',
                 sr_plan_version = cur\<rparr>,
            emit env EventSignalReceived (SignalReceivedPayload sig StatusPending) s)
      else
        let out = nq_outcome enq;
            status = (if ro_material out then StatusApplied else StatusUnchanged)
        in (Inr \<lparr>sr_signal = sig, sr_status = status, sr_material = ro_material out,
                 sr_reason = ro_reason out, sr_plan_version = ro_version out\<rparr>,
            emit env EventSignalReceived (SignalReceivedPayload sig status) s))"

definition schedule_signal ::
  "signal_input \<Rightarrow> goal \<Rightarrow> plan \<Rightarrow> plan_version \<Rightarrow> enqueue \<Rightarrow> service_env \<Rightarrow> service \<Rightarrow>
   (go_error + signal_result) \<times> service" where
  "schedule_signal inp g p cur enq env s =
     (let (i, s1) = new_id env ''sig'' s; (t, s2) = read_clock env s1;
          sig = zero_signal\<lparr>s_id := i, s_goal_id := si_goal_id inp, s_kind := si_kind inp,
                  s_description := si_description inp, s_payload := si_payload inp,
                  s_created_at := t, s_status := StatusPending\<rparr>
      in case repo_write (create_signal sig) env s2 of
           (Some err, s3) \<Rightarrow> (Inl err, s3)
         | (None, s3) \<Rightarrow>
             let (now, s4) = read_clock env (add_metric (ReplanEnqueued (g_domain g)) s3) in
             (case enq (job_of g p sig now) env s4 of
                (Inl err, s5) \<Rightarrow> (Inl err, s5)
              | (Inr e, s5) \<Rightarrow> apply_result sig cur e env s5))"

definition svc_apply_signal ::
  "enqueue \<Rightarrow> signal_input \<Rightarrow> service_env \<Rightarrow> service \<Rightarrow> (go_error + signal_result) \<times> service" where
  "svc_apply_signal enq inp env s =
     (if si_goal_id inp = '''' \<or> si_kind inp = ''''
      then (Inl (EValidation ''goal_id and kind are required''), s)
      else case repo_read (get_goal (si_goal_id inp)) env s of
        (Inl err, s1) \<Rightarrow> (Inl err, s1)
      | (Inr g, s1) \<Rightarrow>
          if effective_status g \<noteq> GoalActive then (Inl EGoalNotActive, s1)
          else case repo_read (get_plan_by_goal (si_goal_id inp)) env s1 of
            (Inl err, s2) \<Rightarrow> (Inl (if errors_is err ENotFound then ENoPlanForGoal else err), s2)
          | (Inr p, s2) \<Rightarrow>
              (case repo_read (get_current_plan_version (p_id p)) env s2 of
                 (Inl err, s3) \<Rightarrow> (Inl err, s3)
               | (Inr cur, s3) \<Rightarrow> schedule_signal inp g p cur enq env s3))"

definition svc_get_signal :: "string \<Rightarrow> service_env \<Rightarrow> service \<Rightarrow> (go_error + signal) \<times> service" where
  "svc_get_signal i env s = repo_read (get_signal i) env s"

text \<open>\<open>RecoverPending\<close>: the count of the jobs enqueued and the error that stopped the scan.\<close>

definition recoverScanLimit :: int where "recoverScanLimit = 10000"

fun recover_loop ::
  "enqueue \<Rightarrow> int \<Rightarrow> signal list \<Rightarrow> service_env \<Rightarrow> service \<Rightarrow> (int \<times> go_error option) \<times> service" where
  "recover_loop enq n [] env s = ((n, None), s)"
| "recover_loop enq n (sig # sigs) env s =
     (case repo_read (get_goal (s_goal_id sig)) env s of
        (Inl err, s1) \<Rightarrow> recover_loop enq n sigs env s1
      | (Inr g, s1) \<Rightarrow>
          (case repo_read (get_plan_by_goal (s_goal_id sig)) env s1 of
             (Inl err, s2) \<Rightarrow> recover_loop enq n sigs env s2
           | (Inr p, s2) \<Rightarrow>
               let (now, s3) = read_clock env s2 in
               (case enq (job_of g p sig now) env s3 of
                  (Inl err, s4) \<Rightarrow> ((n, Some err), s4)
                | (Inr _, s4) \<Rightarrow> recover_loop enq (n + 1) sigs env s4)))"

definition svc_recover_pending :: "enqueue \<Rightarrow> service_env \<Rightarrow> service \<Rightarrow> (int \<times> go_error option) \<times> service" where
  "svc_recover_pending enq env s =
     (let (pending, s1) = repo_read (list_pending_signals recoverScanLimit) env s
      in recover_loop enq 0 pending env s1)"

section \<open>Outcomes\<close>

record outcome_input =
  oi_goal_id :: string
  oi_plan_version :: int
  oi_move_rank :: int
  oi_result :: outcome_result
  oi_observed_signals :: "string list"
  oi_notes :: string

definition move_by_rank :: "move list \<Rightarrow> int \<Rightarrow> move option" where
  "move_by_rank ms rank = List.find (\<lambda>m. m_rank m = rank) ms"

definition store_outcome ::
  "outcome_input \<Rightarrow> plan_version \<Rightarrow> move \<Rightarrow> service_env \<Rightarrow> service \<Rightarrow> (go_error + outcome) \<times> service" where
  "store_outcome inp v m env s =
     (let (i, s1) = new_id env ''out'' s; (t, s2) = read_clock env s1;
          oc = \<lparr>o_id = i, o_goal_id = oi_goal_id inp, o_plan_version = v_version v,
                o_move_rank = oi_move_rank inp, o_move_title = m_title m, o_result = oi_result inp,
                o_observed_signals = oi_observed_signals inp, o_notes = oi_notes inp, o_created_at = t\<rparr>
      in case repo_write (create_outcome oc) env s2 of
           (Some err, s3) \<Rightarrow> (Inl err, s3)
         | (None, s3) \<Rightarrow> (Inr oc, emit env EventOutcomeRecorded (OutcomeRecordedPayload oc) s3))"

definition svc_record_outcome :: "outcome_input \<Rightarrow> service_env \<Rightarrow> service \<Rightarrow> (go_error + outcome) \<times> service" where
  "svc_record_outcome inp env s =
     (if oi_goal_id inp = '''' then (Inl (EValidation ''goal_id is required''), s)
      else if \<not> outcome_valid (oi_result inp)
        then (Inl (EValidation ''result must be one of: success, failure, partial, inconclusive''), s)
      else if oi_plan_version inp \<le> 0 then (Inl (EValidation ''plan_version is required''), s)
      else case repo_read (get_plan_by_goal (oi_goal_id inp)) env s of
        (Inl err, s1) \<Rightarrow> (Inl (if errors_is err ENotFound then ENoPlanForGoal else err), s1)
      | (Inr p, s1) \<Rightarrow>
          (case repo_read (get_plan_version (p_id p) (oi_plan_version inp)) env s1 of
             (Inl err, s2) \<Rightarrow>
               (Inl (if errors_is err ENotFound
                     then EValidation (''plan version '' @ dec_int (oi_plan_version inp) @ '' not found for goal'')
                     else err), s2)
           | (Inr v, s2) \<Rightarrow>
               (case move_by_rank (v_ranked_moves v) (oi_move_rank inp) of
                  None \<Rightarrow> (Inl (EValidation (''move_rank '' @ dec_int (oi_move_rank inp) @
                             '' not found in plan version '' @ dec_int (v_version v))), s2)
                | Some m \<Rightarrow> store_outcome inp v m env s2)))"

section \<open>The stateless evaluation\<close>

record evaluate_input =
  ei_domain :: string
  ei_objective :: string
  ei_metric :: string
  ei_target :: string
  ei_context :: goal_context
  ei_signal_note :: string

definition svc_evaluate :: "evaluate_input \<Rightarrow> service_env \<Rightarrow> service \<Rightarrow> (go_error + plan_version) \<times> service" where
  "svc_evaluate inp env s =
     (if ei_objective inp = '''' then (Inl (EValidation ''objective is required''), s)
      else case normalize_domain env (ei_domain inp) of
        Inl err \<Rightarrow> (Inl err, s)
      | Inr key \<Rightarrow>
          let (i, s1) = new_id env ''goal'' s; (t, s2) = read_clock env s1;
              g = zero_goal\<lparr>g_id := i, g_domain := key, g_objective := ei_objective inp,
                    g_metric := ei_metric inp, g_target := ei_target inp, g_context := ei_context inp,
                    g_created_at := t\<rparr>
          in case validate_goal_domain env g of
               Some err \<Rightarrow> (Inl err, s2)
             | None \<Rightarrow>
                 let (eng, s3) = take_engine env s2; (pid, s4) = new_id env ''plan'' s3 in
                 (case evaluate eng pid g (ei_signal_note inp) of
                    Inl err \<Rightarrow> (Inl err, s3)
                  | Inr v \<Rightarrow> (Inr v, s4)))"

section \<open>Every use case is a run of repository writes\<close>

text \<open>The other goroutines also go through the repository.\<close>

definition others_ok :: "service_env \<Rightarrow> bool" where
  "others_ok env \<longleftrightarrow> (\<forall>n m. repo_steps m (se_other env n m))"

named_theorems track_intros

definition tracks :: "service_env \<Rightarrow> service \<Rightarrow> 'r \<times> service \<Rightarrow> bool" where
  "tracks env s p \<longleftrightarrow> (others_ok env \<longrightarrow> repo_steps (sv_repo s) (sv_repo (snd p)))"

lemma tracks_same [track_intros]: "sv_repo s' = sv_repo s \<Longrightarrow> tracks env s (r, s')"
  by (simp add: tracks_def)

lemma tracks_bind [track_intros]:
  "tracks env s p \<Longrightarrow> (\<And>a s1. p = (a, s1) \<Longrightarrow> tracks env s1 (k a s1)) \<Longrightarrow>
   tracks env s (case p of (a, s1) \<Rightarrow> k a s1)"
  by (cases p) (auto simp: tracks_def)

lemma tracks_if [track_intros]:
  "(b \<Longrightarrow> tracks env s p) \<Longrightarrow> (\<not> b \<Longrightarrow> tracks env s q) \<Longrightarrow> tracks env s (if b then p else q)"
  by simp

lemma tracks_sum [track_intros]:
  "(\<And>e. x = Inl e \<Longrightarrow> tracks env s (f e)) \<Longrightarrow> (\<And>v. x = Inr v \<Longrightarrow> tracks env s (g v)) \<Longrightarrow>
   tracks env s (case x of Inl e \<Rightarrow> f e | Inr v \<Rightarrow> g v)"
  by (cases x) auto

lemma tracks_option [track_intros]:
  "(x = None \<Longrightarrow> tracks env s p) \<Longrightarrow> (\<And>v. x = Some v \<Longrightarrow> tracks env s (g v)) \<Longrightarrow>
   tracks env s (case x of None \<Rightarrow> p | Some v \<Rightarrow> g v)"
  by (cases x) auto

lemma tracks_from: "sv_repo s' = sv_repo s \<Longrightarrow> tracks env s' p \<Longrightarrow> tracks env s p"
  by (simp add: tracks_def)

lemma tracks_repo_read [track_intros]: "sv_repo s' = sv_repo s \<Longrightarrow> tracks env s (repo_read f env s')"
  by (simp add: tracks_def repo_read_def others_act_def others_ok_def Let_def)

lemma tracks_repo_write:
  "sv_repo s' = sv_repo s \<Longrightarrow> (\<And>m e m'. f m = (e, m') \<Longrightarrow> repo_steps m m') \<Longrightarrow>
   tracks env s (repo_write f env s')"
  by (auto simp: tracks_def repo_write_def others_act_def others_ok_def Let_def split: prod.splits)
     (meson rtranclp_trans)

lemma service_same_repo [simp]:
  "sv_repo (snd (read_clock env s)) = sv_repo s" "sv_repo (snd (new_id env pre s)) = sv_repo s"
  "sv_repo (snd (take_engine env s)) = sv_repo s" "sv_repo (snd (poll_ctx env s)) = sv_repo s"
  "sv_repo (add_metric x s) = sv_repo s" "sv_repo (emit env typ pay s) = sv_repo s"
  by (simp_all add: read_clock_def new_id_def take_engine_def poll_ctx_def add_metric_def emit_def
      Let_def split: prod.splits)

lemma tracks_oracles [track_intros]:
  assumes "sv_repo s' = sv_repo s"
  shows "tracks env s (read_clock env s')" "tracks env s (new_id env pre s')"
    "tracks env s (take_engine env s')" "tracks env s (poll_ctx env s')"
  using assms by (simp_all add: tracks_def)

lemma tracks_writes [track_intros]:
  assumes "sv_repo s' = sv_repo s"
  shows "tracks env s (repo_write (create_goal g) env s')"
    "tracks env s (repo_write (update_goal_status i ex st res tm) env s')"
    "tracks env s (repo_write (create_plan_version v) env s')"
    "tracks env s (repo_write (create_signal sg) env s')"
    "tracks env s (repo_write (mark_signal_processed i st n rs em tm) env s')"
    "tracks env s (repo_write (create_outcome oc) env s')"
  by (rule tracks_repo_write[OF assms], rule r_into_rtranclp,
      erule rs_goal rs_status rs_version rs_signal rs_mark rs_outcome)+

lemma create_first_version_steps:
  assumes "p_current_version p = 0" "create_first_version p v m = (e, m')"
  shows "repo_steps m m'"
proof (cases e)
  case (Some err)
  with repo_tx_cases[OF assms(2)[unfolded create_first_version_def]] show ?thesis by simp
next
  case None
  with repo_tx_cases[OF assms(2)[unfolded create_first_version_def]]
  obtain tx1 where t: "create_plan p m = (None, tx1)" "create_plan_version v tx1 = (None, m')"
    by (auto split: prod.splits option.splits)
  from rs_plan[OF assms(1) t(1)] rs_version[OF t(2)] show ?thesis
    by (meson r_into_rtranclp rtranclp.rtrancl_into_rtrancl)
qed

lemma tracks_first_version [track_intros]:
  "sv_repo s' = sv_repo s \<Longrightarrow> p_current_version p = 0 \<Longrightarrow>
   tracks env s (repo_write (create_first_version p v) env s')"
  by (erule tracks_repo_write) (rule create_first_version_steps)

lemma tracks_trans: "tracks env s (r, s1) \<Longrightarrow> tracks env s1 p \<Longrightarrow> tracks env s p"
  by (auto simp: tracks_def)

subsection \<open>Goals and plans\<close>

lemma tracks_create_goal: "tracks env s (svc_create_goal inp env s)"
  unfolding svc_create_goal_def Let_def by (intro track_intros) simp_all

lemma resolution_for_tracks: "tracks env s (resolution_for inp env s)"
  unfolding resolution_for_def Let_def by (intro track_intros) simp_all

lemmas tracks_resolution_for [track_intros] = tracks_from[OF _ resolution_for_tracks]

lemma tracks_update_goal_status: "tracks env s (svc_update_goal_status inp env s)"
  unfolding svc_update_goal_status_def Let_def by (intro track_intros) simp_all

lemma oracle_same_repo:
  "new_id env pre s = (i, s') \<Longrightarrow> sv_repo s' = sv_repo s"
  "read_clock env s = (t, s') \<Longrightarrow> sv_repo s' = sv_repo s"
  "take_engine env s = (eng, s') \<Longrightarrow> sv_repo s' = sv_repo s"
  by (metis snd_conv service_same_repo)+

lemma commit_plan_tracks: "tracks env s (commit_plan g v env s)"
  unfolding commit_plan_def Let_def by (intro track_intros) simp_all

lemmas tracks_commit_plan [track_intros] = tracks_from[OF _ commit_plan_tracks]

lemma tracks_generate_plan: "tracks env s (svc_generate_plan gid env s)"
  unfolding svc_generate_plan_def Let_def by (intro track_intros) (auto dest: oracle_same_repo)

subsection \<open>The worker\<close>

lemma tracks_retry_loop: "tracks env s (retry_loop g cur job env attempt err s)"
proof (induction g cur job env attempt err s rule: retry_loop.induct)
  case (1 g cur job env attempt err s)
  show ?case
    by (subst retry_loop.simps, unfold Let_def, intro track_intros 1)
       (auto split: if_splits)
qed

lemma replan_with_retry_tracks: "tracks env s (replan_with_retry g cur job env s)"
  by (simp add: replan_with_retry_def tracks_retry_loop)

lemmas tracks_replan_with_retry [track_intros] = tracks_from[OF _ replan_with_retry_tracks]

lemma mark_signal_tracks: "tracks env s ((), mark_signal i st n rs em env s)"
proof -
  have "tracks env s (case read_clock env s of (t, s1) \<Rightarrow>
      repo_write (mark_signal_processed i st n rs em t) env s1)"
    by (intro track_intros) simp_all
  thus ?thesis by (simp add: mark_signal_def tracks_def split: prod.splits)
qed

lemma tracks_after_mark [track_intros]:
  "sv_repo s' = sv_repo (mark_signal i st n rs em env s0) \<Longrightarrow> sv_repo s0 = sv_repo s \<Longrightarrow> tracks env s (r, s')"
  using mark_signal_tracks[of env s0 i st n rs em] by (simp add: tracks_def)

lemma mark_emit_tracks:
  "tracks env s (r, emit_replan_completed job st rs em v env (mark_signal i st' n rs' em' env s))"
  using mark_signal_tracks[of env s i st' n rs' em'] by (simp add: tracks_def emit_replan_completed_def)

lemma fail_replan_tracks: "tracks env s (fail_replan job err env s)"
  using mark_emit_tracks[of env "add_metric (ReplanFailed (jb_domain job)) s"]
  by (simp add: fail_replan_def Let_def tracks_def)

lemmas tracks_fail_replan [track_intros] = tracks_from[OF _ fail_replan_tracks]

lemma replan_unchanged_tracks: "tracks env s (replan_unchanged job cur r env s)"
  using mark_emit_tracks[of env s] by (simp add: replan_unchanged_def Let_def)

lemmas tracks_replan_unchanged [track_intros] = tracks_from[OF _ replan_unchanged_tracks]

lemma replan_applied_tracks: "tracks env s (replan_applied job g r env s)"
  using mark_emit_tracks[of env "add_metric (PlanVersionCreated (g_domain g)) s"]
  by (simp add: replan_applied_def Let_def tracks_def)

lemmas tracks_replan_applied [track_intros] = tracks_from[OF _ replan_applied_tracks]

lemma process_loop_tracks: "tracks env s (process_loop n job g env s)"
proof (induction n arbitrary: s)
  case (Suc n)
  show ?case
    unfolding process_loop.simps Let_def
    by (intro track_intros tracks_from[OF _ Suc]) simp_all
qed (simp add: fail_replan_tracks)

lemmas tracks_process_loop [track_intros] = tracks_from[OF _ process_loop_tracks]

lemma process_replan_tracks: "tracks env s (process_replan job env s)"
  unfolding process_replan_def by (intro track_intros) simp_all

lemmas tracks_process_replan [track_intros] = tracks_from[OF _ process_replan_tracks]

subsection \<open>Signals, outcomes and evaluation\<close>

definition enqueue_tracks :: "enqueue \<Rightarrow> bool" where
  "enqueue_tracks enq \<longleftrightarrow> (\<forall>job env s. tracks env s (enq job env s))"

lemma tracks_inline_enqueue: "enqueue_tracks (inline_enqueue (Some process_replan))"
  unfolding enqueue_tracks_def inline_enqueue_def option.case
  by (intro allI track_intros) simp_all

lemma apply_result_tracks: "tracks env s (apply_result sig cur enq env s)"
  by (simp add: apply_result_def Let_def tracks_def)

lemmas tracks_apply_result [track_intros] = tracks_from[OF _ apply_result_tracks]

lemma tracks_apply_signal:
  assumes "enqueue_tracks enq"
  shows "tracks env s (svc_apply_signal enq inp env s)"
proof -
  have e: "tracks env s (enq job env s)" for job env s
    using assms by (simp add: enqueue_tracks_def)
  show ?thesis
    unfolding svc_apply_signal_def schedule_signal_def Let_def
    by (intro track_intros tracks_from[OF _ e]) simp_all
qed

lemma tracks_recover_loop:
  assumes "enqueue_tracks enq"
  shows "tracks env s (recover_loop enq n sigs env s)"
proof (induction sigs arbitrary: n s)
  case (Cons sig sigs)
  have e: "tracks env s (enq job env s)" for job env s using assms by (simp add: enqueue_tracks_def)
  show ?case
    unfolding recover_loop.simps Let_def by (intro track_intros tracks_from[OF _ e] tracks_from[OF _ Cons]) simp_all
qed (simp add: tracks_def)

lemma tracks_recover_pending:
  assumes "enqueue_tracks enq"
  shows "tracks env s (svc_recover_pending enq env s)"
  unfolding svc_recover_pending_def Let_def
  by (intro track_intros tracks_from[OF _ tracks_recover_loop[OF assms]]) simp_all

lemma tracks_record_outcome: "tracks env s (svc_record_outcome inp env s)"
  unfolding svc_record_outcome_def store_outcome_def Let_def by (intro track_intros) simp_all

lemma tracks_evaluate: "tracks env s (svc_evaluate inp env s)"
  unfolding svc_evaluate_def Let_def by (intro track_intros) (auto dest: oracle_same_repo)

section \<open>The contract of a use case\<close>

text \<open>
  What a caller of any use case may rely on follows from one law: the use case only writes
  through the repository.
\<close>

locale use_case =
  fixes run :: "service_env \<Rightarrow> service \<Rightarrow> 'r \<times> service"
  assumes writes: "tracks env s (run env s)"
begin

lemma run_steps: "others_ok env \<Longrightarrow> repo_steps (sv_repo s) (sv_repo (snd (run env s)))"
  using writes[of env s] by (simp add: tracks_def)

lemma run_keeps_ok: "others_ok env \<Longrightarrow> repo_ok (sv_repo s) \<Longrightarrow> repo_ok (sv_repo (snd (run env s)))"
  by (rule repo_steps_ok[OF run_steps])

lemma run_keeps_version:
  "others_ok env \<Longrightarrow> get_plan_version pid n (sv_repo s) = Inr v \<Longrightarrow>
   get_plan_version pid n (sv_repo (snd (run env s))) = Inr v"
  using vers.run_keeps[OF run_steps, of env s "(pid, n)" v]
  by (auto simp: get_plan_version_look split: option.splits)

lemma run_keeps_goal:
  "others_ok env \<Longrightarrow> look_goal_core (sv_repo s) i = Some g \<Longrightarrow>
   look_goal_core (sv_repo (snd (run env s))) i = Some g"
  by (rule gcore.run_keeps[OF run_steps])

lemma run_keeps_signal:
  "others_ok env \<Longrightarrow> look_signal_core (sv_repo s) k = Some x \<Longrightarrow>
   look_signal_core (sv_repo (snd (run env s))) k = Some x"
  by (rule score.run_keeps[OF run_steps])

end

interpretation uc_create_goal: use_case "svc_create_goal inp" for inp
  by unfold_locales (rule tracks_create_goal)

interpretation uc_status: use_case "svc_update_goal_status inp" for inp
  by unfold_locales (rule tracks_update_goal_status)

interpretation uc_generate: use_case "svc_generate_plan gid" for gid
  by unfold_locales (rule tracks_generate_plan)

interpretation uc_replan: use_case "process_replan job" for job
  by unfold_locales (rule process_replan_tracks)

interpretation uc_signal: use_case "svc_apply_signal (inline_enqueue (Some process_replan)) inp" for inp
  by unfold_locales (rule tracks_apply_signal[OF tracks_inline_enqueue])

interpretation uc_recover: use_case "svc_recover_pending (inline_enqueue (Some process_replan))"
  by unfold_locales (rule tracks_recover_pending[OF tracks_inline_enqueue])

interpretation uc_outcome: use_case "svc_record_outcome inp" for inp
  by unfold_locales (rule tracks_record_outcome)

interpretation uc_evaluate: use_case "svc_evaluate inp" for inp
  by unfold_locales (rule tracks_evaluate)

end
