(* ===== verification/Service_Laws.thy ===== *)
theory Service_Laws
  imports Service
begin

text \<open>
  What the use cases of \<open>Service\<close> guarantee: the laws of the status change, of the first plan,
  of the replan worker (its events, its effect on the store, its retries) and of the recorded
  outcomes, each with a run on a concrete store.
\<close>

section \<open>Reads and writes in a quiet store\<close>

lemma repo_read_eq [simp]:
  "repo_read f env s = (f (se_other env (sv_accesses s) (sv_repo s)), others_act env s)"
  by (simp add: repo_read_def others_act_def Let_def)

lemma sv_repo_others [simp]:
  "sv_repo (others_act env s) = se_other env (sv_accesses s) (sv_repo s)"
  by (simp add: others_act_def)

lemma repo_write_eq:
  "repo_write f env s =
     (fst (f (sv_repo (others_act env s))),
      (others_act env s)\<lparr>sv_repo := snd (f (sv_repo (others_act env s)))\<rparr>)"
  by (simp add: repo_write_def Let_def case_prod_beta)

definition quiet :: "service_env \<Rightarrow> bool" where
  "quiet env \<longleftrightarrow> (\<forall>n m. se_other env n m = m)"

lemma quiet_others [simp]: "quiet env \<Longrightarrow> se_other env n m = m"
  by (simp add: quiet_def)

lemma quiet_ok: "quiet env \<Longrightarrow> others_ok env"
  by (simp add: others_ok_def)

lemma events_same [simp]:
  "sv_events (snd (read_clock env s)) = sv_events s" "sv_events (snd (new_id env pre s)) = sv_events s"
  "sv_events (snd (take_engine env s)) = sv_events s" "sv_events (others_act env s) = sv_events s"
  "sv_events (add_metric x s) = sv_events s"
  by (simp_all add: read_clock_def new_id_def take_engine_def others_act_def add_metric_def)

lemma emit_events:
  "sv_events (emit env typ pay s) = sv_events s @
     [\<lparr>ev_id = fst (new_id env ''evt'' s), ev_type = typ,
       ev_created_at = fst (read_clock env s), ev_payload = pay\<rparr>]"
  by (simp add: emit_def new_id_def read_clock_def Let_def)

section \<open>The store before each access\<close>

text \<open>
  The store as the other goroutines leave it before the k-th access of a use case that has not
  written yet: its last value is the one the use case writes to.
\<close>

lemma repo_steps_others: "others_ok env \<Longrightarrow> repo_steps m (se_other env n m)"
  by (simp add: others_ok_def)

primrec store_at :: "service_env \<Rightarrow> service \<Rightarrow> nat \<Rightarrow> mem_repo" where
  "store_at env s 0 = sv_repo s"
| "store_at env s (Suc k) = se_other env (sv_accesses s + k) (store_at env s k)"

lemma store_at_numerals [simp]:
  "store_at env s 1 = se_other env (sv_accesses s) (sv_repo s)"
  "store_at env s 2 = se_other env (Suc (sv_accesses s)) (store_at env s 1)"
  "store_at env s 3 = se_other env (Suc (Suc (sv_accesses s))) (store_at env s 2)"
  by (simp_all add: numeral_2_eq_2 numeral_3_eq_3)

lemma store_at_quiet [simp]: "quiet env \<Longrightarrow> store_at env s k = sv_repo s"
  by (induction k) simp_all

lemma store_at_steps: "others_ok env \<Longrightarrow> repo_steps (store_at env s j) (store_at env s (j + k))"
proof (induction k)
  case (Suc k)
  from Suc.IH[OF Suc.prems] repo_steps_others[OF Suc.prems] show ?case by (simp) (meson rtranclp_trans)
qed simp

lemma store_at_ok: "others_ok env \<Longrightarrow> repo_ok (sv_repo s) \<Longrightarrow> repo_ok (store_at env s k)"
  using repo_steps_ok[OF store_at_steps[of env s 0 k]] by simp

lemma accesses_same [simp]:
  "sv_accesses (snd (read_clock env s)) = sv_accesses s" "sv_accesses (snd (new_id env pre s)) = sv_accesses s"
  "sv_accesses (snd (take_engine env s)) = sv_accesses s" "sv_accesses (others_act env s) = Suc (sv_accesses s)"
  "sv_accesses (add_metric x s) = sv_accesses s"
  by (simp_all add: read_clock_def new_id_def take_engine_def others_act_def add_metric_def)

subsection \<open>Changing the status of a goal\<close>

lemma resolution_for_same:
  assumes "resolution_for inp env s = (r, s')"
  shows "sv_repo s' = sv_repo s \<and> sv_accesses s' = sv_accesses s \<and> sv_events s' = sv_events s"
  using assms by (auto simp: resolution_for_def read_clock_def split: if_splits)

lemma svc_update_goal_status_cases:
  assumes "svc_update_goal_status inp env s = (Inr g', s')"
  obtains g res now i t where
    "status_valid (ui_status inp)" "get_goal (ui_goal_id inp) (store_at env s 1) = Inr g"
    "can_transition_to (effective_status g) (ui_status inp)"
    "update_goal_status (g_id g) (g_status g) (ui_status inp) res now (store_at env s 2) = (None, sv_repo s')"
    "g' = g\<lparr>g_status := ui_status inp, g_resolution := res, g_updated_at := now\<rparr>"
    "status_terminal (ui_status inp) \<longleftrightarrow> res \<noteq> None"
    "res \<noteq> None \<longrightarrow> outcome_valid (re_result (the res))"
    "sv_events s' = sv_events s @ [\<lparr>ev_id = i, ev_type = EventGoalStatusChanged, ev_created_at = t,
       ev_payload = GoalStatusChangedPayload g' (effective_status g)\<rparr>]"
proof -
  have v: "status_valid (ui_status inp)" using assms by (simp add: svc_update_goal_status_def split: if_splits)
  obtain g where g: "get_goal (ui_goal_id inp) (store_at env s 1) = Inr g"
    "can_transition_to (effective_status g) (ui_status inp)"
    using assms v by (auto simp: svc_update_goal_status_def Let_def split: if_splits sum.splits)
  let ?s1 = "others_act env s"
  obtain res s2 where r: "resolution_for inp env ?s1 = (Inr res, s2)"
    using assms v g by (auto simp: svc_update_goal_status_def Let_def split: if_splits sum.splits prod.splits)
  have res: "status_terminal (ui_status inp) \<longleftrightarrow> res \<noteq> None"
    "res \<noteq> None \<longrightarrow> outcome_valid (re_result (the res))"
    using r by (auto simp: resolution_for_def Let_def split: if_splits prod.splits)
  obtain now s3 where c: "read_clock env s2 = (now, s3)" by fastforce
  have s3: "se_other env (sv_accesses s3) (sv_repo s3) = store_at env s 2" "sv_events s3 = sv_events s"
    using resolution_for_same[OF r] c by (auto simp: read_clock_def)
  let ?f = "update_goal_status (g_id g) (g_status g) (ui_status inp) res now"
  let ?g' = "g\<lparr>g_status := ui_status inp, g_resolution := res, g_updated_at := now\<rparr>"
  obtain e m where w: "?f (store_at env s 2) = (e, m)" by fastforce
  have "e = None \<and> g' = ?g' \<and> s' = emit env EventGoalStatusChanged (GoalStatusChangedPayload g' (effective_status g))
      ((others_act env s3)\<lparr>sv_repo := m\<rparr>)"
    using assms v g r c w s3(1)
    by (auto simp: svc_update_goal_status_def Let_def repo_write_eq split: if_splits option.splits)
  with w s3(2) show thesis
    by (intro that[OF v g _ _ res]) (auto simp: emit_events)
qed

lemma goal_core_update [simp]:
  "goal_core (g\<lparr>g_status := st, g_resolution := res, g_updated_at := tm\<rparr>) = goal_core g"
  by (simp add: goal_core_def)

subsection \<open>Generating the first version\<close>

lemma initial_plan_shape:
  "generate_initial_plan eng i g = Inr v \<Longrightarrow>
   v_plan_id v = i \<and> v_version v = 1 \<and> graph_ok (v_ranked_moves v)"
  using sanitize_ok
  by (auto simp: generate_initial_plan_def evaluate_def build_version_def Let_def split: prod.splits sum.splits)

text \<open>What a stored head with its first version leaves.\<close>

definition with_first_version :: "plan \<Rightarrow> plan_version \<Rightarrow> mem_repo \<Rightarrow> mem_repo" where
  "with_first_version p v m =
     m\<lparr>plans := (plans m)(p_id p \<mapsto> p\<lparr>p_current_version := 1, p_updated_at := v_created_at v\<rparr>),
       by_goal := (by_goal m)(p_goal_id p \<mapsto> p_id p),
       versions := (versions m)(p_id p \<mapsto> AList.update 1 v (case versions m (p_id p) of None \<Rightarrow> [] | Some vs \<Rightarrow> vs))\<rparr>"

lemma create_first_version_exact:
  assumes "create_first_version p v m = (e, m')" "p_id p = v_plan_id v" "p_current_version p = 0" "v_version v = 1"
  shows "if e = None then plans m (p_id p) = None \<and> m' = with_first_version p v m else m' = m"
proof (cases e)
  case None
  with repo_tx_cases[OF assms(1)[unfolded create_first_version_def]]
  obtain tx1 where t: "create_plan p m = (None, tx1)" "create_plan_version v tx1 = (None, m')"
    by (auto split: prod.splits option.splits)
  have n: "plans m (p_id p) = None" using t(1) by (auto simp: create_plan_def split: if_splits)
  have tx1: "tx1 = m\<lparr>plans := (plans m)(p_id p \<mapsto> p), by_goal := (by_goal m)(p_goal_id p \<mapsto> p_id p),
      versions := (versions m)(p_id p \<mapsto> (case versions m (p_id p) of None \<Rightarrow> [] | Some vs \<Rightarrow> vs))\<rparr>"
  proof (cases "versions m (p_id p)")
    case None
    with t(1) n show ?thesis by (auto simp: create_plan_def Let_def)
  next
    case (Some vs)
    hence vs: "(versions m)(p_id p \<mapsto> vs) = versions m" by (rule map_upd_triv)
    have "tx1 = m\<lparr>plans := (plans m)(p_id p \<mapsto> p), by_goal := (by_goal m)(p_goal_id p \<mapsto> p_id p)\<rparr>"
      using t(1) n by (simp add: create_plan_def Let_def Some)
    thus ?thesis unfolding Some option.case vs by simp
  qed
  have "m' = with_first_version p v m"
  proof -
    define vs where "vs = (case versions m (p_id p) of None \<Rightarrow> [] | Some vs \<Rightarrow> vs)"
    have "m' = snd (create_plan_version v tx1)" "fst (create_plan_version v tx1) = None" using t(2) by simp_all
    thus ?thesis
      unfolding tx1 with_first_version_def vs_def[symmetric]
      by (auto simp: create_plan_version_def assms(2)[symmetric] assms(3,4) Let_def)
  qed
  with n None show ?thesis by simp
qed (use repo_tx_cases[OF assms(1)[unfolded create_first_version_def]] in simp)

lemma first_version_reads:
  assumes "p_id p = v_plan_id v"
  shows "get_plan_by_goal (p_goal_id p) (with_first_version p v m) =
      Inr (p\<lparr>p_current_version := 1, p_updated_at := v_created_at v\<rparr>)"
    "get_current_plan_version (p_id p) (with_first_version p v m) = Inr v"
  by (simp_all add: with_first_version_def get_plan_by_goal_def get_current_plan_version_def update_conv')

lemma commit_plan_exact:
  assumes v: "v_version v = 1" and r: "commit_plan g v env s = (r, s')"
  defines "m \<equiv> se_other env (sv_accesses s) (sv_repo s)"
  shows "(\<exists>err. r = Inl err \<and> sv_repo s' = m \<and> sv_events s' = sv_events s) \<or>
    (\<exists>p. r = Inr v \<and> p_id p = v_plan_id v \<and> p_goal_id p = g_id g \<and> plans m (p_id p) = None \<and>
       sv_repo s' = with_first_version p v m \<and>
       (\<exists>i t. sv_events s' = sv_events s @ [\<lparr>ev_id = i, ev_type = EventPlanCreated, ev_created_at = t,
           ev_payload = PlanCreatedPayload (g_id g) v\<rparr>]))"
proof -
  obtain now s5 where c: "read_clock env s = (now, s5)" by fastforce
  have s5: "sv_repo s5 = sv_repo s" "sv_events s5 = sv_events s" "sv_accesses s5 = sv_accesses s"
    using c by (auto simp: read_clock_def)
  define p where "p = \<lparr>p_id = v_plan_id v, p_goal_id = g_id g, p_current_version = 0,
    p_created_at = now, p_updated_at = now\<rparr>"
  have p: "p_id p = v_plan_id v" "p_current_version p = 0" "p_goal_id p = g_id g" by (simp_all add: p_def)
  obtain e m' where w: "create_first_version p v m = (e, m')" by fastforce
  have r': "(case e of Some err \<Rightarrow> (Inl err, (others_act env s5)\<lparr>sv_repo := m'\<rparr>)
      | None \<Rightarrow> (Inr v, emit env EventPlanCreated (PlanCreatedPayload (g_id g) v)
                        (add_metric (PlanVersionCreated (g_domain g)) ((others_act env s5)\<lparr>sv_repo := m'\<rparr>)))) = (r, s')"
    using r c w s5 by (cases e) (simp_all add: commit_plan_def p_def m_def repo_write_eq Let_def)
  from create_first_version_exact[OF w p(1,2) v] r' show ?thesis
    by (cases e) (auto simp: emit_events p(3) s5 intro!: exI[of _ p] p(1))
qed

lemma svc_generate_plan_split:
  assumes r: "svc_generate_plan gid env s = (r, s')"
  obtains (fail) err k where "r = Inl err" "k \<le> 2" "sv_repo s' = store_at env s k" "sv_events s' = sv_events s"
  | (commit) g err v i eng s4 where "get_goal gid (store_at env s 1) = Inr g" "effective_status g = GoalActive"
    "get_plan_by_goal gid (store_at env s 2) = Inl err" "errors_is err ENotFound" "generate_initial_plan eng i g = Inr v"
    "sv_repo s4 = store_at env s 2" "sv_accesses s4 = sv_accesses s + 2" "sv_events s4 = sv_events s"
    "commit_plan g v env s4 = (r, s')"
proof (cases "get_goal gid (store_at env s 1)")
  case (Inl e)
  with r fail[of e 1] show thesis by (auto simp: svc_generate_plan_def)
next
  case (Inr g)
  note g = this
  show thesis
  proof (cases "effective_status g = GoalActive")
    case False
    with r Inr fail[of EGoalNotActive 1] show thesis by (auto simp: svc_generate_plan_def)
  next
    case True
    show thesis
    proof (cases "get_plan_by_goal gid (store_at env s 2)")
      case (Inr p)
      with r g True fail[of EPlanExists 2] show thesis by (auto simp: svc_generate_plan_def)
    next
      case (Inl err)
      show thesis
      proof (cases "errors_is err ENotFound")
        case False
        with r g True Inl fail[of err 2] show thesis by (auto simp: svc_generate_plan_def)
      next
        case nf: True
        obtain eng s3 where s3: "take_engine env (others_act env (others_act env s)) = (eng, s3)" by fastforce
        obtain i s4 where s4: "new_id env ''plan'' s3 = (i, s4)" by fastforce
        have e: "sv_repo s3 = store_at env s 2" "sv_events s3 = sv_events s"
          "sv_repo s4 = store_at env s 2" "sv_events s4 = sv_events s" "sv_accesses s4 = sv_accesses s + 2"
          using s3 s4 by (auto simp: take_engine_def new_id_def)
        show thesis
        proof (cases "generate_initial_plan eng i g")
          case (Inl x)
          with r g \<open>get_plan_by_goal gid (store_at env s 2) = Inl err\<close> True nf s3 s4 e fail[of x 2] show thesis
            by (auto simp: svc_generate_plan_def)
        next
          case (Inr v)
          with r g Inl True nf s3 s4 have "commit_plan g v env s4 = (r, s')"
            by (auto simp: svc_generate_plan_def)
          with commit[OF g True Inl nf Inr e(3,5,4)] show thesis by blast
        qed
      qed
    qed
  qed
qed

lemma svc_generate_plan_cases:
  assumes q: "quiet env" and r: "svc_generate_plan gid env s = (r, s')"
  obtains (fail) err where "r = Inl err" "sv_repo s' = sv_repo s" "sv_events s' = sv_events s"
  | (commit) g err v i eng s4 where "get_goal gid (sv_repo s) = Inr g" "effective_status g = GoalActive"
    "get_plan_by_goal gid (sv_repo s) = Inl err" "generate_initial_plan eng i g = Inr v"
    "sv_repo s4 = sv_repo s" "sv_events s4 = sv_events s" "commit_plan g v env s4 = (r, s')"
proof (cases "get_goal gid (sv_repo s)")
  case (Inl e)
  with q r fail[of e] show thesis by (auto simp: svc_generate_plan_def)
next
  case (Inr g)
  show thesis
  proof (cases "effective_status g = GoalActive \<and> (\<exists>err. get_plan_by_goal gid (sv_repo s) = Inl err \<and> errors_is err ENotFound)")
    case False
    with q r Inr fail show thesis by (auto simp: svc_generate_plan_def split: if_splits sum.splits)
  next
    case True
    then obtain err where t: "effective_status g = GoalActive" "get_plan_by_goal gid (sv_repo s) = Inl err"
      "errors_is err ENotFound" by blast
    obtain eng s3 where s3: "take_engine env (others_act env (others_act env s)) = (eng, s3)" by fastforce
    obtain i s4 where s4: "new_id env ''plan'' s3 = (i, s4)" by fastforce
    have e: "sv_repo s3 = sv_repo s" "sv_events s3 = sv_events s" "sv_repo s4 = sv_repo s" "sv_events s4 = sv_events s"
      using s3 s4 q by (auto simp: take_engine_def new_id_def)
    show thesis
    proof (cases "generate_initial_plan eng i g")
      case (Inl x)
      with q r \<open>get_goal gid (sv_repo s) = Inr g\<close> t s3 s4 e fail[of x] show thesis
        by (auto simp: svc_generate_plan_def)
    next
      case (Inr v)
      with q r \<open>get_goal gid (sv_repo s) = Inr g\<close> t s3 s4 have "commit_plan g v env s4 = (r, s')"
        by (auto simp: svc_generate_plan_def)
      with commit[OF \<open>get_goal gid (sv_repo s) = Inr g\<close> t(1,2) Inr e(3,4)] show thesis by blast
    qed
  qed
qed

section \<open>Properties\<close>

text \<open>
  C7: changing a goal's status is safe under any concurrent writes to a store the repository can
  produce. With \<open>m\<close> the store as it stands at the instant of the write, after everything other
  goroutines did since the read: a change that succeeds is a legal transition from the status the goal
  has in \<open>m\<close> (the compare-and-swap), replaces that goal in \<open>m\<close> by the one returned and nothing else,
  keeps all of the goal but status, resolution and update time, records a resolution exactly when the
  new status is terminal, and is announced once with the status it left.
\<close>

theorem status_change_is_legal:
  assumes "others_ok env" "repo_ok (sv_repo s)" "svc_update_goal_status inp env s = (Inr g', s')"
  defines "m \<equiv> store_at env s 2"
  shows "\<exists>g0. repo_steps (sv_repo s) m \<and> get_goal (ui_goal_id inp) m = Inr g0 \<and>
     can_transition_to (effective_status g0) (ui_status inp) \<and>
     g_status g' = ui_status inp \<and>
     g' = g0\<lparr>g_status := ui_status inp, g_resolution := g_resolution g', g_updated_at := g_updated_at g'\<rparr> \<and>
     (g_resolution g' \<noteq> None \<longleftrightarrow> status_terminal (ui_status inp)) \<and>
     sv_repo s' = m\<lparr>goals := AList.update (ui_goal_id inp) g' (goals m)\<rparr> \<and>
     get_goal (ui_goal_id inp) (sv_repo s') = Inr g' \<and>
     (\<exists>i t. sv_events s' = sv_events s @ [\<lparr>ev_id = i, ev_type = EventGoalStatusChanged, ev_created_at = t,
        ev_payload = GoalStatusChangedPayload g' (effective_status g0)\<rparr>])"
  using assms(3)
proof (cases rule: svc_update_goal_status_cases)
  case (1 g res now i t)
  have steps: "repo_steps (sv_repo s) m" "repo_steps (store_at env s 1) m"
    using store_at_steps[OF assms(1), of s 0 2] store_at_steps[OF assms(1), of s 1 1] by (simp_all add: m_def)
  have i: "g_id g = ui_goal_id inp"
    using 1(2) store_at_ok[OF assms(1,2), of 1] by (auto simp: get_goal_def split: option.splits dest: goal_ids)
  obtain g0 where g0: "map_of (goals m) (ui_goal_id inp) = Some g0" "g_status g0 = g_status g"
    "sv_repo s' = m\<lparr>goals := AList.update (ui_goal_id inp)
       (g0\<lparr>g_status := ui_status inp, g_resolution := res, g_updated_at := now\<rparr>) (goals m)\<rparr>"
    using 1(4) by (auto simp: update_goal_status_def i m_def split: option.splits if_splits)
  have "look_goal_core m (ui_goal_id inp) = Some (goal_core g)"
    using gcore.run_keeps[OF steps(2), of "ui_goal_id inp" "goal_core g"] 1(2)
    by (auto simp: look_goal_core_def get_goal_def split: option.splits)
  hence core: "goal_core g0 = goal_core g" by (simp add: look_goal_core_def g0(1))
  have g': "g' = g0\<lparr>g_status := ui_status inp, g_resolution := res, g_updated_at := now\<rparr>"
    using core 1(5) by (cases g; cases g0) (simp add: goal_core_def)
  have eff: "effective_status g0 = effective_status g" by (simp add: effective_status_def g0(2))
  show ?thesis
    using steps(1) g0 g' eff 1(3,6,8) by (auto simp: get_goal_def update_conv')
qed

definition sample_env :: "move list \<Rightarrow> service_env" where
  "sample_env ms =
     \<lparr>se_clock = (\<lambda>n. int n + 1), se_random = dec_nat, se_engine = (\<lambda>_. sample_engine ms),
      se_other = (\<lambda>_ m. m), se_ctx_err = (\<lambda>_. None), se_registry = None,
      se_unicode = ascii_unicode, se_replan_retries = 2\<rparr>"

definition sample_service :: "mem_repo \<Rightarrow> service" where
  "sample_service m =
     \<lparr>sv_repo = m, sv_events = [], sv_metrics = [], sv_clock_reads = 0, sv_ids_drawn = 0,
      sv_accesses = 0, sv_engine_calls = 0, sv_ctx_polls = 0\<rparr>"

lemma sample_quiet: "quiet (sample_env ms)"
  by (simp add: quiet_def sample_env_def)

definition goal_store :: mem_repo where
  "goal_store = snd (create_goal sample_goal new_memory)"

lemma goal_store_ok: "repo_ok goal_store"
  unfolding goal_store_def
  by (rule create_goal_ok[OF repo_ok_new, of sample_goal "fst (create_goal sample_goal new_memory)"]) simp

lemma goal_store_eqs [simp]:
  "goals goal_store = [(''goal_1'', sample_goal)]" "by_goal goal_store = Map.empty"
  by (simp_all add: goal_store_def create_goal_def sample_goal_def new_memory_def zero_goal_def)

theorem status_change_is_legal_witness:
  "\<exists>g. get_goal ''goal_1'' (sv_repo (snd (svc_update_goal_status
       \<lparr>ui_goal_id = ''goal_1'', ui_status = GoalOnHold, ui_resolution_result = '''', ui_resolution_notes = ''''\<rparr>
       (sample_env []) (sample_service goal_store)))) = Inr g \<and> g_status g = GoalOnHold"
proof -
  let ?i = "\<lparr>ui_goal_id = ''goal_1'', ui_status = GoalOnHold, ui_resolution_result = '''', ui_resolution_notes = ''''\<rparr>"
  let ?s = "sample_service goal_store"
  obtain g' s' where r: "svc_update_goal_status ?i (sample_env []) ?s = (Inr g', s')"
    by (simp add: svc_update_goal_status_def get_goal_def sample_service_def sample_env_def others_act_def
        sample_goal_def effective_status_def status_defs resolution_for_def read_clock_def repo_write_eq
        update_goal_status_def Let_def)
  show ?thesis
    using status_change_is_legal[OF quiet_ok[OF sample_quiet] _ r] goal_store_ok r
    by (auto simp: sample_service_def)
qed

text \<open>
  C8: generating a plan is all or nothing, in any store and whatever other goroutines write before
  each of its three accesses. Either it fails, and the store is exactly as the others left it and
  nothing is announced; or the goal was active and without a plan when they were read, and the store at
  the instant of the write gains, in one step, the goal's plan head and version 1, which is the
  returned well-formed version, and nothing else, announced by exactly one \<open>plan.created\<close> event.
\<close>

theorem generate_plan_all_or_nothing:
  assumes "svc_generate_plan gid env s = (r, s')"
  shows "(\<exists>err k. r = Inl err \<and> k \<le> 3 \<and> sv_repo s' = store_at env s k \<and> sv_events s' = sv_events s) \<or>
    (\<exists>g v p err. r = Inr v \<and> get_goal gid (store_at env s 1) = Inr g \<and> effective_status g = GoalActive \<and>
       get_plan_by_goal gid (store_at env s 2) = Inl err \<and> errors_is err ENotFound \<and>
       v_version v = 1 \<and> graph_ok (v_ranked_moves v) \<and> v_plan_id v = p_id p \<and> p_goal_id p = g_id g \<and>
       plans (store_at env s 3) (p_id p) = None \<and> sv_repo s' = with_first_version p v (store_at env s 3) \<and>
       (\<exists>q. get_plan_by_goal (g_id g) (sv_repo s') = Inr q \<and> p_id q = p_id p \<and> p_current_version q = 1) \<and>
       get_current_plan_version (p_id p) (sv_repo s') = Inr v \<and>
       (\<exists>i t. sv_events s' = sv_events s @ [\<lparr>ev_id = i, ev_type = EventPlanCreated, ev_created_at = t,
           ev_payload = PlanCreatedPayload (g_id g) v\<rparr>]))"
  using assms
proof (cases rule: svc_generate_plan_split)
  case (fail err k)
  thus ?thesis by (intro disjI1 exI[of _ err] exI[of _ k]) simp
next
  case (commit g err v i eng s4)
  have m: "se_other env (sv_accesses s4) (sv_repo s4) = store_at env s 3" using commit(6,7) by simp
  note shape = initial_plan_shape[OF commit(5)]
  from commit_plan_exact[OF _ commit(9), unfolded m] shape
  consider (no) e where "r = Inl e" "sv_repo s' = store_at env s 3" "sv_events s' = sv_events s4"
    | (yes) p where "r = Inr v" "p_id p = v_plan_id v" "p_goal_id p = g_id g" "plans (store_at env s 3) (p_id p) = None"
       "sv_repo s' = with_first_version p v (store_at env s 3)"
       "\<exists>i t. sv_events s' = sv_events s4 @ [\<lparr>ev_id = i, ev_type = EventPlanCreated, ev_created_at = t,
           ev_payload = PlanCreatedPayload (g_id g) v\<rparr>]"
    by blast
  thus ?thesis
  proof cases
    case no
    thus ?thesis using commit(8) by (intro disjI1 exI[of _ e] exI[of _ 3]) simp
  next
    case yes
    show ?thesis
      using yes commit(1-4,8) shape first_version_reads[OF yes(2), of "store_at env s 3"]
      by (intro disjI2 exI[of _ g] exI[of _ v] exI[of _ p] exI[of _ err]) (simp del: store_at_numerals)
  qed
qed

lemma sample_generate:
  "\<exists>v s'. svc_generate_plan ''goal_1'' (sample_env [sample_move ''a'' (Fin 1) []]) (sample_service goal_store) = (Inr v, s')"
  by (simp add: svc_generate_plan_def get_goal_def get_plan_by_goal_def sample_service_def sample_env_def
      others_act_def sample_goal_def effective_status_def status_defs take_engine_def new_id_def
      generate_initial_plan_def evaluate_def commit_plan_def enrich_def sample_engine_def new_engine_def read_clock_def
      repo_write_eq create_first_version_def repo_tx_def create_plan_def create_plan_version_def
      build_version_def goal_store_def create_goal_def new_memory_def zero_goal_def Let_def)

theorem generate_plan_all_or_nothing_witness:
  "\<exists>v p. get_plan_by_goal ''goal_1'' (sv_repo (snd (svc_generate_plan ''goal_1''
      (sample_env [sample_move ''a'' (Fin 1) []]) (sample_service goal_store)))) = Inr p \<and> p_current_version p = 1"
proof -
  obtain v s' where r: "svc_generate_plan ''goal_1'' (sample_env [sample_move ''a'' (Fin 1) []])
      (sample_service goal_store) = (Inr v, s')"
    using sample_generate by blast
  have "get_goal ''goal_1'' (store_at (sample_env [sample_move ''a'' (Fin 1) []]) (sample_service goal_store) 1) = Inr sample_goal"
    unfolding store_at_quiet[OF sample_quiet] by (simp add: get_goal_def sample_service_def)
  moreover have "g_id sample_goal = ''goal_1''" by (simp add: sample_goal_def zero_goal_def)
  ultimately show ?thesis using generate_plan_all_or_nothing[OF r] r by auto
qed

section \<open>The worker: retries, reporting, durability\<close>

lemma retry_loop_spec:
  assumes "retry_loop g cur job env attempt err s = (res, s')" "0 \<le> attempt"
  shows "sv_repo s' = sv_repo s \<and> sv_events s' = sv_events s \<and> sv_accesses s' = sv_accesses s \<and>
    sv_engine_calls s \<le> sv_engine_calls s' \<and>
    int (sv_engine_calls s') \<le> int (sv_engine_calls s) + max 0 (se_replan_retries env + 1 - attempt) \<and>
    (case res of
       Inr r \<Rightarrow> \<exists>k. replan (se_engine env k) g cur (jb_signal_note job) (jb_signal_kind job) (jb_signal_payload job) = Inr r
     | Inl e \<Rightarrow> True)"
  using assms
proof (induction g cur job env attempt err s arbitrary: res s' rule: retry_loop.induct)
  case (1 g cur job env attempt err s)
  let ?rp = "\<lambda>eng. replan eng g cur (jb_signal_note job) (jb_signal_kind job) (jb_signal_payload job)"
  show ?case
  proof (cases "se_replan_retries env < attempt")
    case True
    with 1(2) show ?thesis by (auto simp: retry_loop.simps[of g cur job env attempt err s])
  next
    case go: False
    obtain stopped s1 where st: "(if 0 < attempt then poll_ctx env s else (None, s)) = (stopped, s1)" by fastforce
    hence s1: "sv_repo s1 = sv_repo s" "sv_events s1 = sv_events s" "sv_accesses s1 = sv_accesses s"
      "sv_engine_calls s1 = sv_engine_calls s"
      by (auto simp: poll_ctx_def split: if_splits)
    note body = 1(2)[unfolded retry_loop.simps[of g cur job env attempt err s], unfolded Let_def, unfolded st]
    show ?thesis
    proof (cases stopped)
      case (Some e)
      with body go s1 show ?thesis by auto
    next
      case None
      obtain eng s2 where te: "take_engine env s1 = (eng, s2)" by fastforce
      hence s2: "sv_repo s2 = sv_repo s" "sv_events s2 = sv_events s" "sv_accesses s2 = sv_accesses s"
        "sv_engine_calls s2 = Suc (sv_engine_calls s)" "eng = se_engine env (sv_engine_calls s)"
        using s1 by (auto simp: take_engine_def)
      show ?thesis
      proof (cases "?rp eng")
        case (Inr r)
        with body go None te have "res = Inr r" "s' = s2" by simp_all
        with s2 Inr show ?thesis using go by auto
      next
        case (Inl e)
        show ?thesis
        proof (cases "is_transient_replan_err e")
          case False
          with body go None te Inl have "res = Inl e" "s' = s2" by simp_all
          with s2 go show ?thesis by auto
        next
          case True
          have "retry_loop g cur job env (attempt + 1) e s2 = (res, s')"
            using body go None te Inl True by simp
          from 1(1)[OF go st[symmetric] refl None te[symmetric] refl Inl _ this] True 1(3) go s2
          show ?thesis by auto
        qed
      qed
    qed
  qed
qed

lemma replan_with_retry_spec:
  assumes "replan_with_retry g cur job env s = (res, s')"
  shows "sv_repo s' = sv_repo s" "sv_events s' = sv_events s" "sv_accesses s' = sv_accesses s"
    "int (sv_engine_calls s') \<le> int (sv_engine_calls s) + max 0 (se_replan_retries env + 1)"
    "res = Inr r \<Longrightarrow> \<exists>k. replan (se_engine env k) g cur (jb_signal_note job) (jb_signal_kind job) (jb_signal_payload job) = Inr r"
  using retry_loop_spec[OF assms[unfolded replan_with_retry_def]] by auto

subsection \<open>Reporting\<close>

definition replan_status :: "go_error + replan_outcome \<Rightarrow> string" where
  "replan_status r =
     (case r of Inl _ \<Rightarrow> StatusFailed | Inr o' \<Rightarrow> if ro_material o' then StatusApplied else StatusUnchanged)"

definition completed_payload :: "replan_job \<Rightarrow> go_error + replan_outcome \<Rightarrow> replan_completed" where
  "completed_payload job r =
     \<lparr>rc_goal_id = jb_goal_id job, rc_plan_id = jb_plan_id job, rc_signal_id = jb_signal_id job,
      rc_status = replan_status r,
      rc_reason = (case r of Inl _ \<Rightarrow> ''replan failed'' | Inr o' \<Rightarrow> ro_reason o'),
      rc_error = (case r of Inl e \<Rightarrow> error_text e | Inr _ \<Rightarrow> ''''),
      rc_version = (case r of Inl _ \<Rightarrow> None | Inr o' \<Rightarrow> Some (ro_version o'))\<rparr>"

definition result_version :: "go_error + replan_outcome \<Rightarrow> int" where
  "result_version r = (case r of Inl _ \<Rightarrow> 0 | Inr o' \<Rightarrow> v_version (ro_version o'))"

text \<open>A finished replan first records the signal's status and then announces it.\<close>

definition reported ::
  "replan_job \<Rightarrow> service_env \<Rightarrow> service \<Rightarrow> (go_error + replan_outcome) \<times> service \<Rightarrow> bool" where
  "reported job env s p \<longleftrightarrow>
     (\<exists>i t tm m. sv_events (snd p) = sv_events s @
        [\<lparr>ev_id = i, ev_type = EventReplanCompleted, ev_created_at = t,
          ev_payload = ReplanCompletedPayload (completed_payload job (fst p))\<rparr>] \<and>
        sv_repo (snd p) = snd (mark_signal_processed (jb_signal_id job) (replan_status (fst p))
          (result_version (fst p)) (rc_reason (completed_payload job (fst p)))
          (rc_error (completed_payload job (fst p))) tm m))"

lemma mark_signal_events [simp]: "sv_events (mark_signal i st n rs em env s) = sv_events s"
  by (simp add: mark_signal_def repo_write_eq read_clock_def)

lemma mark_signal_repo:
  "\<exists>tm. sv_repo (mark_signal i st n rs em env s) =
     snd (mark_signal_processed i st n rs em tm (se_other env (sv_accesses s) (sv_repo s)))"
  by (rule exI[of _ "fst (read_clock env s)"]) (simp add: mark_signal_def repo_write_eq read_clock_def)

lemma reported_fail: "sv_events s = sv_events s0 \<Longrightarrow> reported job env s0 (fail_replan job err env s)"
  using mark_signal_repo[of "jb_signal_id job" StatusFailed 0 "''replan failed''" "error_text err" env
      "add_metric (ReplanFailed (jb_domain job)) s"]
  by (auto simp: reported_def fail_replan_def Let_def emit_replan_completed_def emit_events
      completed_payload_def replan_status_def result_version_def)

lemma reported_unchanged: "sv_events s = sv_events s0 \<Longrightarrow> reported job env s0 (replan_unchanged job cur r env s)"
  using mark_signal_repo[of "jb_signal_id job" StatusUnchanged "v_version cur" "rr_reason r" "''''" env s]
  by (auto simp: reported_def replan_unchanged_def Let_def emit_replan_completed_def emit_events
      completed_payload_def replan_status_def result_version_def)

lemma reported_applied: "sv_events s = sv_events s0 \<Longrightarrow> reported job env s0 (replan_applied job g r env s)"
  using mark_signal_repo[of "jb_signal_id job" StatusApplied "v_version (rr_candidate r)" "rr_reason r" "''''" env
      "add_metric (PlanVersionCreated (g_domain g)) s"]
  by (auto simp: reported_def replan_applied_def Let_def emit_replan_completed_def emit_events
      completed_payload_def replan_status_def result_version_def)

lemma repo_write_events [simp]: "repo_write f env s = (e, s') \<Longrightarrow> sv_events s' = sv_events s"
  by (auto simp: repo_write_eq)

lemma reported_process_loop: "sv_events s = sv_events s0 \<Longrightarrow> reported job env s0 (process_loop n job g env s)"
proof (induction n arbitrary: s)
  case (Suc n)
  show ?case
  proof (cases "get_current_plan_version (jb_plan_id job) (sv_repo (others_act env s))")
    case (Inl err)
    with Suc.prems show ?thesis by (simp add: reported_fail)
  next
    case (Inr cur)
    obtain res s2 where r: "replan_with_retry g cur job env (others_act env s) = (res, s2)" by fastforce
    have s2: "sv_events s2 = sv_events s0" using replan_with_retry_spec(2)[OF r] Suc.prems by simp
    show ?thesis
    proof (cases res)
      case (Inl err)
      with r s2 \<open>get_current_plan_version _ _ = Inr cur\<close> show ?thesis by (simp add: reported_fail)
    next
      case (Inr rr)
      let ?s3 = "add_metric (ReplanEvaluated (g_domain g) (rr_material rr)) s2"
      obtain e s4 where w: "repo_write (create_plan_version (rr_candidate rr)) env ?s3 = (e, s4)" by fastforce
      have "sv_events s4 = sv_events s0" using repo_write_events[OF w] s2 by simp
      with r s2 w Inr \<open>get_current_plan_version _ _ = Inr cur\<close> Suc.IH show ?thesis
        by (cases e; cases "rr_material rr")
           (simp_all add: reported_fail reported_unchanged reported_applied Let_def)
    qed
  qed
qed (simp add: reported_fail)

lemma reported_process_replan: "reported job env s (process_replan job env s)"
proof (cases "get_goal (jb_goal_id job) (sv_repo (others_act env s))")
  case (Inl e)
  thus ?thesis by (simp add: process_replan_def reported_fail)
next
  case (Inr g)
  thus ?thesis by (simp add: process_replan_def reported_process_loop)
qed

subsection \<open>Durability\<close>

lemma mark_keeps_versions:
  "versions (snd (mark_signal_processed i st n rs em tm m)) = versions m"
  "plans (snd (mark_signal_processed i st n rs em tm m)) = plans m"
  by (simp_all add: mark_signal_processed_def split: option.splits)

lemma create_plan_version_None:
  "create_plan_version v m = (None, m') \<Longrightarrow> look_version m' (v_plan_id v, v_version v) = Some v"
  by (auto simp: create_plan_version_def look_version_def update_conv' Let_def split: option.splits if_splits)

lemma process_loop_applied:
  assumes "others_ok env" "process_loop n job g env s = (Inr out, s')" "ro_material out"
  shows "\<exists>m cur. repo_steps (sv_repo s) m \<and> get_current_plan_version (jb_plan_id job) m = Inr cur \<and>
     v_plan_id (ro_version out) = v_plan_id cur \<and> v_version (ro_version out) = v_version cur + 1 \<and>
     graph_ok (v_ranked_moves (ro_version out)) \<and>
     look_version (sv_repo s') (v_plan_id (ro_version out), v_version (ro_version out)) = Some (ro_version out)"
  using assms(2)
proof (induction n arbitrary: s)
  case 0
  thus ?case by (simp add: fail_replan_def Let_def)
next
  case (Suc n)
  let ?m = "sv_repo (others_act env s)"
  have st: "repo_steps (sv_repo s) ?m" using repo_steps_others[OF assms(1)] by simp
  obtain cur where cur: "get_current_plan_version (jb_plan_id job) ?m = Inr cur"
    using Suc.prems by (auto simp: fail_replan_def Let_def split: sum.splits)
  obtain res s2 where r: "replan_with_retry g cur job env (others_act env s) = (res, s2)" by fastforce
  then obtain rr where rr: "res = Inr rr"
    using Suc.prems cur by (cases res) (auto simp: fail_replan_def Let_def)
  note s2 = replan_with_retry_spec[OF r]
  have mat: "rr_material rr"
    using Suc.prems assms(3) cur r rr by (auto simp: replan_unchanged_def Let_def split: if_splits)
  obtain k where k: "replan (se_engine env k) g cur (jb_signal_note job) (jb_signal_kind job) (jb_signal_payload job) = Inr rr"
    using s2(5)[OF rr] by blast
  have cand: "v_plan_id (rr_candidate rr) = v_plan_id cur \<and> v_version (rr_candidate rr) = v_version cur + 1 \<and>
      graph_ok (v_ranked_moves (rr_candidate rr))"
    using k
  proof (cases rule: replan_cases)
    case (refused gate)
    with mat show ?thesis by simp
  next
    case planned
    from replan_body_shape[OF planned] show ?thesis using sanitize_ok by auto
  qed
  let ?s3 = "add_metric (ReplanEvaluated (g_domain g) (rr_material rr)) s2"
  obtain e s4 where w: "repo_write (create_plan_version (rr_candidate rr)) env ?s3 = (e, s4)" by fastforce
  have st2: "repo_steps (sv_repo s) (sv_repo s4)"
  proof -
    have "tracks env ?s3 (e, s4)" unfolding w[symmetric] by (intro track_intros) simp
    hence "repo_steps (sv_repo s2) (sv_repo s4)" using assms(1) by (simp add: tracks_def)
    thus ?thesis using st s2(1) by (metis rtranclp_trans)
  qed
  show ?case
  proof (cases e)
    case (Some err)
    hence p: "process_loop n job g env s4 = (Inr out, s')"
      using Suc.prems cur r rr mat w by (auto simp: fail_replan_def Let_def split: if_splits)
    from Suc.IH[OF this] st2 show ?thesis by (meson rtranclp_trans)
  next
    case None
    hence a: "replan_applied job g rr env s4 = (Inr out, s')" using Suc.prems cur r rr mat w by simp
    hence o': "ro_version out = rr_candidate rr" by (auto simp: replan_applied_def Let_def)
    have l: "look_version (sv_repo s4) (v_plan_id (rr_candidate rr), v_version (rr_candidate rr)) = Some (rr_candidate rr)"
      using w None by (auto simp: repo_write_eq intro!: create_plan_version_None prod_eqI)
    have "repo_steps (sv_repo s4) (sv_repo s')"
      using replan_applied_tracks[of env s4 job g rr] a assms(1) by (simp add: tracks_def)
    from vers.run_keeps[OF this l] st cur cand show ?thesis unfolding o' by blast
  qed
qed

subsection \<open>A replan with no other writer\<close>

lemma get_current_cases:
  assumes "repo_ok m" "get_current_plan_version pid m = Inr cur"
  shows "\<exists>p vs. plans m pid = Some p \<and> versions m pid = Some vs \<and> rows_ok pid p vs \<and>
     v_plan_id cur = pid \<and> v_version cur = p_current_version p \<and> map_of vs (p_current_version p) = Some cur"
proof -
  obtain p where p: "plans m pid = Some p"
    using assms(2) by (auto simp: get_current_plan_version_def split: option.splits)
  obtain vs where vs: "versions m pid = Some vs" "rows_ok pid p vs"
    using repo_ok_plan[OF assms(1) p] by blast
  with assms(2) p have "map_of vs (p_current_version p) = Some cur"
    by (auto simp: get_current_plan_version_def split: option.splits)
  with p vs show ?thesis by (auto simp: rows_ok_def dest!: map_of_SomeD)
qed

lemma next_version_free:
  assumes "repo_ok m" "get_current_plan_version pid m = Inr cur"
    "v_plan_id c = v_plan_id cur" "v_version c = v_version cur + 1"
  shows "\<exists>m'. create_plan_version c m = (None, m') \<and> get_current_plan_version pid m' = Inr c \<and>
     (\<forall>k. k \<noteq> (pid, v_version cur + 1) \<longrightarrow> look_version m' k = look_version m k)"
proof -
  obtain p vs where p: "plans m pid = Some p" "versions m pid = Some vs" "rows_ok pid p vs"
    "v_plan_id cur = pid" "v_version cur = p_current_version p"
    using get_current_cases[OF assms(1,2)] by blast
  have "map_of vs (p_current_version p + 1) = None"
  proof (rule ccontr)
    assume "map_of vs (p_current_version p + 1) \<noteq> None"
    then obtain v where "(p_current_version p + 1, v) \<in> set vs" by (auto dest: map_of_SomeD)
    with p(3) show False by (auto simp: rows_ok_def)
  qed
  with p assms(3,4) show ?thesis
    by (auto simp: create_plan_version_def get_current_plan_version_def look_version_def update_conv' Let_def)
qed

text \<open>What the versions look like after a replan of the plan \<open>pid\<close> with result \<open>r\<close>.\<close>

definition replan_effect ::
  "string \<Rightarrow> mem_repo \<Rightarrow> mem_repo \<Rightarrow> go_error + replan_outcome \<Rightarrow> bool" where
  "replan_effect pid m m' r \<longleftrightarrow>
     (case r of
        Inl _ \<Rightarrow> look_version m' = look_version m
      | Inr o' \<Rightarrow>
          get_current_plan_version pid m' = Inr (ro_version o') \<and>
          (if ro_material o'
           then (\<exists>cur. get_current_plan_version pid m = Inr cur \<and>
                   v_version (ro_version o') = v_version cur + 1 \<and>
                   (\<forall>k. k \<noteq> (pid, v_version cur + 1) \<longrightarrow> look_version m' k = look_version m k))
           else look_version m' = look_version m))"

lemma replan_effect_mark:
  "sv_repo s2 = snd (mark_signal_processed i st n rs em tm m1) \<Longrightarrow>
   replan_effect pid m (sv_repo s2) r = replan_effect pid m m1 r"
proof -
  assume a: "sv_repo s2 = snd (mark_signal_processed i st n rs em tm m1)"
  have "look_version (sv_repo s2) = look_version m1"
    unfolding look_version_def a mark_keeps_versions ..
  moreover have "get_current_plan_version pid (sv_repo s2) = get_current_plan_version pid m1"
    unfolding get_current_plan_version_def a mark_keeps_versions ..
  ultimately show ?thesis by (simp add: replan_effect_def split: sum.splits)
qed

lemma quiet_mark:
  assumes "quiet env"
  shows "\<exists>tm. sv_repo (mark_signal i st n rs em env s) = snd (mark_signal_processed i st n rs em tm (sv_repo s))"
  using mark_signal_repo[of i st n rs em env s] assms by simp

lemma effect_fail: "quiet env \<Longrightarrow> sv_repo s = m \<Longrightarrow> replan_effect pid m (sv_repo (snd (fail_replan job err env s))) (fst (fail_replan job err env s))"
proof -
  assume a: "quiet env" "sv_repo s = m"
  obtain tm where "sv_repo (snd (fail_replan job err env s)) =
      snd (mark_signal_processed (jb_signal_id job) StatusFailed 0 ''replan failed'' (error_text err) tm m)"
    using quiet_mark[OF a(1), of "jb_signal_id job" StatusFailed 0 "''replan failed''" "error_text err"
        "add_metric (ReplanFailed (jb_domain job)) s"] a(2)
    by (auto simp: fail_replan_def Let_def emit_replan_completed_def)
  from replan_effect_mark[OF this] show ?thesis
    by (simp add: fail_replan_def Let_def) (simp add: replan_effect_def)
qed

lemma effect_unchanged:
  assumes "quiet env" "sv_repo s = m" "get_current_plan_version pid m = Inr cur"
  shows "replan_effect pid m (sv_repo (snd (replan_unchanged job cur r env s))) (fst (replan_unchanged job cur r env s))"
proof -
  obtain tm where "sv_repo (snd (replan_unchanged job cur r env s)) =
      snd (mark_signal_processed (jb_signal_id job) StatusUnchanged (v_version cur) (rr_reason r) '''' tm m)"
    using quiet_mark[OF assms(1), of "jb_signal_id job" StatusUnchanged "v_version cur" "rr_reason r" "''''" s] assms(2)
    by (auto simp: replan_unchanged_def Let_def emit_replan_completed_def)
  from replan_effect_mark[OF this] assms(3) show ?thesis
    by (simp add: replan_unchanged_def Let_def) (simp add: replan_effect_def)
qed

lemma effect_applied:
  assumes "quiet env" "create_plan_version (rr_candidate r) m = (None, sv_repo s)" "repo_ok m"
    "get_current_plan_version pid m = Inr cur"
    "v_plan_id (rr_candidate r) = v_plan_id cur" "v_version (rr_candidate r) = v_version cur + 1"
  shows "replan_effect pid m (sv_repo (snd (replan_applied job g r env s))) (fst (replan_applied job g r env s))"
proof -
  obtain tm where "sv_repo (snd (replan_applied job g r env s)) =
      snd (mark_signal_processed (jb_signal_id job) StatusApplied (v_version (rr_candidate r)) (rr_reason r) '''' tm (sv_repo s))"
    using quiet_mark[OF assms(1), of "jb_signal_id job" StatusApplied "v_version (rr_candidate r)" "rr_reason r" "''''"
        "add_metric (PlanVersionCreated (g_domain g)) s"]
    by (auto simp: replan_applied_def Let_def emit_replan_completed_def)
  from replan_effect_mark[OF this] next_version_free[OF assms(3-6)] assms(2,4,6) show ?thesis
    by (simp add: replan_applied_def Let_def) (auto simp: replan_effect_def)
qed

lemma replan_candidate:
  assumes "replan e g cur note kind payload = Inr r" "rr_material r"
  shows "v_plan_id (rr_candidate r) = v_plan_id cur" "v_version (rr_candidate r) = v_version cur + 1"
  using assms by (cases rule: replan_cases; auto dest!: replan_body_shape)+

lemma effect_process_loop:
  assumes "quiet env" "sv_repo s = m" "repo_ok m"
  shows "replan_effect (jb_plan_id job) m (sv_repo (snd (process_loop (Suc n) job g env s)))
     (fst (process_loop (Suc n) job g env s))"
proof (cases "get_current_plan_version (jb_plan_id job) m")
  case (Inl err)
  thus ?thesis using effect_fail[OF assms(1), of "others_act env s" m] assms(1,2) by simp
next
  case (Inr cur)
  obtain res s2 where r: "replan_with_retry g cur job env (others_act env s) = (res, s2)" by fastforce
  have s2: "sv_repo s2 = m" using replan_with_retry_spec(1)[OF r] assms(1,2) by simp
  show ?thesis
  proof (cases res)
    case (Inl err)
    with r Inr assms show ?thesis using effect_fail[OF assms(1) s2] by simp
  next
    case (Inr rr)
    note cur = \<open>get_current_plan_version (jb_plan_id job) m = Inr cur\<close>
    let ?s3 = "add_metric (ReplanEvaluated (g_domain g) (rr_material rr)) s2"
    show ?thesis
    proof (cases "rr_material rr")
      case False
      with r Inr cur assms show ?thesis using effect_unchanged[OF assms(1) _ cur, of ?s3 job rr] s2 by simp
    next
      case True
      obtain k where "replan (se_engine env k) g cur (jb_signal_note job) (jb_signal_kind job) (jb_signal_payload job) = Inr rr"
        using replan_with_retry_spec(5)[OF r Inr] by blast
      note cand = replan_candidate[OF this True]
      from next_version_free[OF assms(3) cur cand] obtain m' where
        m': "create_plan_version (rr_candidate rr) m = (None, m')" by blast
      let ?s4 = "(others_act env ?s3)\<lparr>sv_repo := m'\<rparr>"
      have "repo_write (create_plan_version (rr_candidate rr)) env ?s3 = (None, ?s4)"
        using m' s2 assms(1) by (simp add: repo_write_eq)
      with r Inr cur True assms show ?thesis
        using effect_applied[OF assms(1) _ assms(3) cur cand, of ?s4 job g] m' by simp
    qed
  qed
qed

lemma effect_process_replan:
  assumes "quiet env" "repo_ok (sv_repo s)"
  shows "replan_effect (jb_plan_id job) (sv_repo s) (sv_repo (snd (process_replan job env s))) (fst (process_replan job env s))"
proof (cases "get_goal (jb_goal_id job) (sv_repo s)")
  case (Inl e)
  thus ?thesis using effect_fail[OF assms(1), of "others_act env s" "sv_repo s"] assms(1)
    by (simp add: process_replan_def)
next
  case (Inr g)
  thus ?thesis
    using effect_process_loop[OF assms(1), of "others_act env s" "sv_repo s" job 2 g] assms
    by (simp add: process_replan_def maxReplanAttempts_def numeral_3_eq_3 numeral_2_eq_2)
qed

subsection \<open>Backoff\<close>

lemma retry_backoff_table:
  assumes "1 \<le> a" "a \<le> 38"
  shows "uint (retry_backoff a) = min (2 * second) (50 * millisecond * 2 ^ (a - 1))"
proof -
  have "a \<in> set [1..<39]" using assms by auto
  hence "a = 1 \<or> a = 2 \<or> a = 3 \<or> a = 4 \<or> a = 5 \<or> a = 6 \<or> 7 \<le> a" by auto
  moreover have "list_all (\<lambda>a. uint (retry_backoff a) = min (2 * second) (50 * millisecond * 2 ^ (a - 1))) [1..<39]"
    by code_simp
  ultimately show ?thesis using \<open>a \<in> set [1..<39]\<close> by (simp add: list_all_iff)
qed

lemma retry_backoff_overflow:
  assumes "39 \<le> a"
  shows "if a \<in> {40, 46, 48, 53, 54, 55, 56} then sint (retry_backoff a) = 2 * second
    else if 58 \<le> a then sint (retry_backoff a) = 0 else sint (retry_backoff a) < 0"
proof (cases "58 \<le> a")
  case True
  have "push_bit (a - 1) (word_of_int (50 * millisecond)) = (0 :: 64 word)"
  proof -
    have "push_bit (a - 1) (word_of_int (50 * millisecond) :: 64 word) =
        push_bit (a - 58) (push_bit 57 (word_of_int (50 * millisecond)))"
      using True by (simp add: push_bit_push_bit)
    also have "push_bit 57 (word_of_int (50 * millisecond) :: 64 word) = 0" by code_simp
    finally show ?thesis by simp
  qed
  thus ?thesis using True by (auto simp: retry_backoff_def second_def)
next
  case False
  let ?P = "\<lambda>a. if a \<in> {40, 46, 48, 53, 54, 55, 56} then sint (retry_backoff a) = 2 * second
    else sint (retry_backoff a) < 0"
  have "list_all ?P [39..<58]" by code_simp
  moreover have "a \<in> set [39..<58]" unfolding set_upt using assms False by simp
  ultimately have "?P a" unfolding list_all_iff by blast
  thus ?thesis using False by (simp only: if_False)
qed

section \<open>Properties of the worker\<close>


text \<open>
  Every replan reports exactly once: whatever happens, it appends one \<open>replan.completed\<close>
  event whose status, reason, error and version are those of its result (failed, applied or
  unchanged), and its last write to the store records the same status, version and reason on the
  signal.
\<close>

theorem replan_reports_once:
  "reported job env s (process_replan job env s)"
  by (rule reported_process_replan)

text \<open>
  C11: with no other writer a replan changes the plan's versions by nothing, when it fails or
  finds the change immaterial, or by exactly the next version, which becomes the current one;
  the version it returns is the plan's current version afterwards. No conflict retry happens.
\<close>

theorem replan_effect_exact:
  assumes "quiet env" "repo_ok (sv_repo s)"
  shows "replan_effect (jb_plan_id job) (sv_repo s) (sv_repo (snd (process_replan job env s)))
     (fst (process_replan job env s))"
  by (rule effect_process_replan[OF assms])

text \<open>
  C18: the planner retry is bounded: one call of \<open>replanWithRetry\<close> asks the engine at most
  \<open>replanRetries + 1\<close> times and never touches the store or the event log, and the waits of
  attempts 1 to 38 are 50ms doubling up to the two-second cap. From attempt 39 on the 64-bit
  shift overflows: the wait is the cap by chance at attempts 40, 46, 48 and 53 to 56, negative at the
  others up to 57, and zero from 58 on.
\<close>

theorem replan_retries_bounded:
  assumes "replan_with_retry g cur job env s = (res, s')" "0 \<le> se_replan_retries env"
  shows "int (sv_engine_calls s') \<le> int (sv_engine_calls s) + se_replan_retries env + 1 \<and>
    sv_repo s' = sv_repo s \<and> sv_events s' = sv_events s \<and>
    (\<forall>a \<in> {1..38}. uint (retry_backoff a) = min (2 * second) (50 * millisecond * 2 ^ (a - 1))) \<and>
    (\<forall>a \<ge> 39. if a \<in> {40, 46, 48, 53, 54, 55, 56} then sint (retry_backoff a) = 2 * second
       else if 58 \<le> a then sint (retry_backoff a) = 0 else sint (retry_backoff a) < 0)"
  using replan_with_retry_spec(1,2,4)[OF assms(1)] assms(2) retry_backoff_table retry_backoff_overflow by auto

definition replan_store :: mem_repo where
  "replan_store = snd (create_goal sample_goal sample_store)"

definition sample_job :: replan_job where
  "sample_job = \<lparr>jb_goal_id = ''goal_1'', jb_plan_id = ''plan_1'', jb_domain = '''', jb_signal_id = ''sig_1'',
     jb_signal_kind = ''k'', jb_signal_note = '''', jb_signal_payload = [], jb_enqueued_at = 0\<rparr>"

lemma replan_store_steps: "repo_steps new_memory replan_store"
proof -
  have "repo_step sample_store replan_store"
    unfolding replan_store_def
    by (rule rs_goal[of sample_goal _ "fst (create_goal sample_goal sample_store)"]) simp
  with sample_steps show ?thesis by (meson rtranclp.rtrancl_into_rtrancl)
qed

lemma replan_store_ok: "repo_ok replan_store"
  using repo_steps_new[OF replan_store_steps] .

lemma replan_store_reads:
  "get_goal ''goal_1'' replan_store = Inr sample_goal"
  "get_current_plan_version ''plan_1'' replan_store = Inr sample_version"
  "look_version replan_store (''plan_1'', 1) = Some sample_version"
  "get_plan_by_goal ''goal_1'' replan_store = Inr (sample_plan\<lparr>p_current_version := 1, p_updated_at := 0\<rparr>)"
  by (simp_all add: replan_store_def create_goal_def get_goal_def get_current_plan_version_def
      look_version_def get_plan_by_goal_def sample_defs sample_goal_def zero_goal_def zero_time_def)

lemma sample_replan:
  assumes "v_ranked_moves cur = []"
  shows "\<exists>rr. replan (sample_engine ms) g cur note kind payload = Inr rr \<and> rr_material rr"
proof -
  obtain r where r: "replan_body (sample_engine ms) g cur note kind payload = Inr r"
  proof -
    have "en_planner (sample_engine ms) q = Inr (zero_result\<lparr>rs_ranked_moves := ms\<rparr>)" for q
      by (simp add: sample_engine_def new_engine_def)
    from replan_body_planned[OF this] that show thesis by blast
  qed
  have "rr_material r"
    using replan_body_shape[OF r] assms
    by (auto simp: evaluator_for_def sample_engine_def new_engine_def is_material_def)
  moreover have "gate_for (sample_engine ms) g = None"
    by (simp add: gate_for_def sample_engine_def new_engine_def)
  ultimately show ?thesis using r by (auto simp: replan_def)
qed

lemma sample_retry:
  assumes "replan (sample_engine ms) g cur (jb_signal_note job) (jb_signal_kind job) (jb_signal_payload job) = Inr r"
  shows "replan_with_retry g cur job (sample_env ms) s = (Inr r, snd (take_engine (sample_env ms) s))"
proof -
  have "se_engine (sample_env ms) n = sample_engine ms" "se_replan_retries (sample_env ms) = 2" for n
    by (simp_all add: sample_env_def)
  with assms show ?thesis
    unfolding replan_with_retry_def by (subst retry_loop.simps) (simp add: take_engine_def)
qed

lemma sample_process:
  "\<exists>out s'. process_replan sample_job (sample_env ms) (sample_service replan_store) = (Inr out, s') \<and> ro_material out"
proof -
  let ?e = "sample_env ms" and ?s = "sample_service replan_store"
  obtain rr where rr: "replan (sample_engine ms) sample_goal sample_version '''' ''k'' [] = Inr rr" "rr_material rr"
    using sample_replan[of sample_version ms sample_goal "''''" "''k''" "[]"]
    by (auto simp: sample_version_def zero_version_def)
  note cand = replan_candidate[OF rr]
  obtain m' where m': "create_plan_version (rr_candidate rr) replan_store = (None, m')"
    using next_version_free[OF replan_store_ok replan_store_reads(2) cand] by blast
  have q: "se_other ?e n m = m" for n m by (simp add: sample_env_def)
  have r: "replan_with_retry sample_goal sample_version sample_job ?e s = (Inr rr, snd (take_engine ?e s))" for s
    by (rule sample_retry) (use rr in \<open>simp add: sample_job_def\<close>)
  have j: "jb_goal_id sample_job = ''goal_1''" "jb_plan_id sample_job = ''plan_1''"
    by (simp_all add: sample_job_def)
  have repo: "sv_repo (snd (take_engine ?e s)) = sv_repo s" for s by (simp add: take_engine_def)
  have "process_replan sample_job ?e ?s = process_loop 3 sample_job sample_goal ?e (others_act ?e ?s)"
    by (simp add: process_replan_def maxReplanAttempts_def q j replan_store_reads sample_service_def)
  moreover have "\<exists>s'. process_loop 3 sample_job sample_goal ?e (others_act ?e ?s) =
      replan_applied sample_job sample_goal rr ?e s'"
    using rr(2) m'
    by (auto simp: numeral_3_eq_3 q j replan_store_reads sample_service_def r repo repo_write_eq)
  ultimately show ?thesis by (auto simp: replan_applied_def Let_def)
qed


theorem replan_effect_exact_witness:
  "\<exists>out s'. process_replan sample_job (sample_env []) (sample_service replan_store) = (Inr out, s') \<and>
     v_version (ro_version out) = 2 \<and> look_version (sv_repo s') (''plan_1'', 1) = Some sample_version"
proof -
  obtain out s' where r: "process_replan sample_job (sample_env []) (sample_service replan_store) = (Inr out, s')"
    "ro_material out" using sample_process by blast
  have "replan_effect ''plan_1'' replan_store (sv_repo s') (Inr out)"
    using replan_effect_exact[OF sample_quiet[of "[]"], of "sample_service replan_store" sample_job] r replan_store_ok
    by (simp add: sample_service_def) (simp add: sample_job_def)
  thus ?thesis using r replan_store_reads
    by (auto simp: replan_effect_def) (simp_all add: sample_version_def zero_version_def)
qed

theorem replan_retries_bounded_witness:
  "sv_engine_calls (snd (replan_with_retry zero_goal zero_version sample_job (sample_env []) (sample_service new_memory))) \<le> 3"
proof -
  obtain res s' where r: "replan_with_retry zero_goal zero_version sample_job (sample_env []) (sample_service new_memory) = (res, s')"
    by fastforce
  from replan_retries_bounded[OF r] r show ?thesis by (simp add: sample_env_def sample_service_def)
qed

section \<open>Outcomes and signals\<close>

lemma move_by_rank_SomeD: "move_by_rank ms k = Some m \<Longrightarrow> m \<in> set ms \<and> m_rank m = k"
  by (auto simp: move_by_rank_def dest: find_SomeD)

lemma store_outcome_Inr:
  assumes "store_outcome inp v m env s = (Inr oc, s')"
  shows "o_goal_id oc = oi_goal_id inp \<and> o_plan_version oc = v_version v \<and> o_move_rank oc = oi_move_rank inp \<and>
     o_move_title oc = m_title m \<and> o_result oc = oi_result inp \<and>
     sv_repo s' = (se_other env (sv_accesses s) (sv_repo s))\<lparr>outcomes := outcomes (se_other env (sv_accesses s) (sv_repo s)) @ [oc]\<rparr>"
  using assms
  by (auto simp: store_outcome_def Let_def new_id_def read_clock_def repo_write_eq create_outcome_def others_act_def)

lemma repo_ok_version:
  assumes "repo_ok m" "get_plan_version pid n m = Inr v"
  shows "v_plan_id v = pid \<and> v_version v = n"
proof -
  obtain vs where vs: "versions m pid = Some vs" "map_of vs n = Some v"
    using assms(2) by (auto simp: get_plan_version_def split: option.splits)
  then obtain p where "rows_ok pid p vs"
    using repo_ok_row[OF assms(1), of pid] by (auto simp: plan_row_ok_def split: option.splits)
  with vs(2) show ?thesis by (auto simp: rows_ok_def dest!: map_of_SomeD)
qed

lemma goal_plan_stored:
  assumes "repo_ok m" "get_plan_by_goal gid m = Inr p"
  shows "p_goal_id p = gid \<and> get_plan (p_id p) m = Inr p"
proof -
  obtain pid where pid: "by_goal m gid = Some pid"
    using assms(2) by (auto simp: get_plan_by_goal_def split: option.splits)
  then obtain q where q: "plans m pid = Some q" "p_goal_id q = gid"
    using assms(1) unfolding repo_ok_def by_goal_ok_def by blast
  moreover have "p_id q = pid"
    using repo_ok_row[OF assms(1), of pid] q(1) by (auto simp: plan_row_ok_def rows_ok_def split: option.splits)
  ultimately show ?thesis using assms(2) pid by (auto simp: get_plan_by_goal_def get_plan_def)
qed

text \<open>
  C19: a recorded outcome addresses a move of the goal's own plan, whatever other goroutines write to
  a store the repository can produce: it names the version asked for of the plan that was stored for
  the goal when it was read, the first move there with the rank asked for and that move's title; its
  result is the one given, one of the four; it is appended to the store at the instant of the write and
  nothing else changes; and the version can still be read.
\<close>

theorem outcome_addresses_move:
  assumes "others_ok env" "repo_ok (sv_repo s)" "svc_record_outcome inp env s = (Inr oc, s')"
  shows "\<exists>p v m. get_plan_by_goal (oi_goal_id inp) (store_at env s 1) = Inr p \<and> p_goal_id p = oi_goal_id inp \<and>
     get_plan (p_id p) (store_at env s 1) = Inr p \<and>
     get_plan_version (p_id p) (oi_plan_version inp) (store_at env s 2) = Inr v \<and>
     move_by_rank (v_ranked_moves v) (oi_move_rank inp) = Some m \<and>
     o_goal_id oc = oi_goal_id inp \<and> o_plan_version oc = oi_plan_version inp \<and> o_move_rank oc = oi_move_rank inp \<and>
     m \<in> set (v_ranked_moves v) \<and> m_rank m = o_move_rank oc \<and> m_title m = o_move_title oc \<and>
     o_result oc = oi_result inp \<and> outcome_valid (o_result oc) \<and>
     sv_repo s' = (store_at env s 3)\<lparr>outcomes := outcomes (store_at env s 3) @ [oc]\<rparr> \<and>
     get_plan_version (p_id p) (o_plan_version oc) (sv_repo s') = Inr v"
proof -
  let ?s2 = "others_act env (others_act env s)"
  have ok: "repo_ok (store_at env s k)" for k by (rule store_at_ok[OF assms(1,2)])
  obtain p v m where p: "get_plan_by_goal (oi_goal_id inp) (store_at env s 1) = Inr p"
    "get_plan_version (p_id p) (oi_plan_version inp) (store_at env s 2) = Inr v"
    "move_by_rank (v_ranked_moves v) (oi_move_rank inp) = Some m" "outcome_valid (oi_result inp)"
    "store_outcome inp v m env ?s2 = (Inr oc, s')"
    using assms(3) by (auto simp: svc_record_outcome_def split: if_splits sum.splits option.splits)
  have at3: "se_other env (sv_accesses ?s2) (sv_repo ?s2) = store_at env s 3" by simp
  note so = store_outcome_Inr[OF p(5), unfolded at3]
  have ver: "v_version v = oi_plan_version inp" using repo_ok_version[OF ok p(2)] by simp
  have pg: "p_goal_id p = oi_goal_id inp \<and> get_plan (p_id p) (store_at env s 1) = Inr p"
    by (rule goal_plan_stored[OF ok p(1)])
  have "repo_steps (store_at env s 2) (store_at env s 3)"
    using store_at_steps[OF assms(1), of s 2 1] by simp
  from vers.run_keeps[OF this, of "(p_id p, oi_plan_version inp)" v] p(2)
  have "get_plan_version (p_id p) (oi_plan_version inp) (store_at env s 3) = Inr v"
    by (auto simp: get_plan_version_look split: option.splits)
  hence "get_plan_version (p_id p) (oi_plan_version inp) (sv_repo s') = Inr v"
    using so by (simp add: get_plan_version_def)
  with p so ver pg move_by_rank_SomeD[OF p(3)] show ?thesis
    by (intro exI[of _ p] exI[of _ v] exI[of _ m]) (simp del: store_at_numerals)
qed

definition outcome_store :: mem_repo where
  "outcome_store = snd (create_plan_version (sample_version\<lparr>v_ranked_moves := [sample_move ''a'' 1 []]\<rparr>)
     (snd (create_plan sample_plan new_memory)))"

theorem outcome_addresses_move_witness:
  "\<exists>oc s'. svc_record_outcome \<lparr>oi_goal_id = ''goal_1'', oi_plan_version = 1, oi_move_rank = 1,
       oi_result = OutcomeSuccess, oi_observed_signals = [], oi_notes = ''''\<rparr>
     (sample_env []) (sample_service outcome_store) = (Inr oc, s') \<and> oc \<in> set (outcomes (sv_repo s'))"
proof -
  let ?i = "\<lparr>oi_goal_id = ''goal_1'', oi_plan_version = 1, oi_move_rank = 1,
       oi_result = OutcomeSuccess, oi_observed_signals = [], oi_notes = ''''\<rparr>"
  have "repo_ok (snd (create_plan sample_plan new_memory))"
    by (rule create_plan_ok[OF repo_ok_new, of sample_plan "fst (create_plan sample_plan new_memory)"])
       (simp_all add: sample_plan_def zero_plan_def)
  hence ok: "repo_ok outcome_store"
    unfolding outcome_store_def by (rule create_plan_version_ok[OF _ prod.collapse[symmetric]])
  have "\<exists>oc s'. svc_record_outcome ?i (sample_env []) (sample_service outcome_store) = (Inr oc, s')"
    by (simp add: Let_def svc_record_outcome_def outcome_valid_def OutcomeSuccess_def sample_env_def
        sample_service_def others_act_def outcome_store_def get_plan_by_goal_def get_plan_version_def
        sample_defs move_by_rank_def sample_move_def store_outcome_def new_id_def read_clock_def
        repo_write_eq create_outcome_def zero_move_def)
  then obtain oc s' where r: "svc_record_outcome ?i (sample_env []) (sample_service outcome_store) = (Inr oc, s')"
    by blast
  from outcome_addresses_move[OF quiet_ok[OF sample_quiet] _ r] ok r show ?thesis
    by (auto simp: sample_service_def)
qed

text \<open>A signal that was marked is found again under its identifier, with the values it was marked with.\<close>

lemma mark_finds:
  assumes "get_signal i m = Inr sg"
  shows "\<exists>sg'. get_signal i (snd (mark_signal_processed i st n rs em tm m)) = Inr sg' \<and> s_status sg' = st \<and>
     s_result_version sg' = n \<and> s_processed_at sg' = Some tm"
proof -
  obtain k where k: "find_idx (\<lambda>s. s_id s = i) (signals m) = Some k"
    using assms find_idx_NoneD[of "\<lambda>s. s_id s = i" "signals m"]
    by (cases "find_idx (\<lambda>s. s_id s = i) (signals m)")
       (auto simp: get_signal_def split: option.splits dest!: find_SomeD)
  note kd = find_idx_SomeD[OF k]
  let ?x = "(signals m ! k)\<lparr>s_status := st, s_result_version := n, s_reason := rs, s_error := em, s_processed_at := Some tm\<rparr>"
  have "List.find (\<lambda>s. s_id s = i) ((signals m)[k := ?x]) = Some ?x"
    unfolding find_Some_iff
  proof (intro exI[of _ k] conjI allI impI)
    fix j assume "j < k"
    thus "s_id ((signals m)[k := ?x] ! j) \<noteq> i" using kd by simp
  qed (use kd in auto)
  with k show ?thesis by (simp add: mark_signal_processed_def get_signal_def)
qed

end
