(* ===== verification/Replan_Queue.thy ===== *)
theory Replan_Queue
  imports Service_Laws
begin

text \<open>
  \<open>MemoryQueue\<close> of \<open>internal/app/replan_queue.go\<close>: its fields, its critical sections (one
  definition for each stretch of code under \<open>q.mu\<close>) and the interleavings of the goroutines that
  run them, as a step relation. A goroutine that has left the critical section of \<open>Enqueue\<close> but
  has not yet sent on the channel is a step of its own, as is a \<open>Shutdown\<close> that has marked the
  queue closed but not yet closed the channel.
\<close>

section \<open>The queue and its critical sections\<close>

record mem_queue =
  q_workers :: int
  q_max_seen :: int
  q_pending :: "string \<Rightarrow> replan_job list option"
  q_queued :: "string \<Rightarrow> bool option"
  q_seen :: "string set"
  q_seen_fifo :: "string list"
  q_closed :: bool
  q_ch :: "string list"
  q_buffer :: int
  q_ch_closed :: bool

definition defaultMaxSeen :: int where "defaultMaxSeen = 100000"

definition new_memory_queue :: "int \<Rightarrow> int \<Rightarrow> mem_queue" where
  "new_memory_queue workers buffer =
     \<lparr>q_workers = (if workers < 1 then 1 else workers), q_max_seen = defaultMaxSeen,
      q_pending = Map.empty, q_queued = Map.empty, q_seen = {}, q_seen_fifo = [], q_closed = False,
      q_ch = [], q_buffer = (if buffer < 1 then 1 else buffer), q_ch_closed = False\<rparr>"

text \<open>Reading a missing key of a Go map gives the zero value.\<close>

definition fifo_of :: "mem_queue \<Rightarrow> string \<Rightarrow> replan_job list" where
  "fifo_of q p = (case q_pending q p of None \<Rightarrow> [] | Some js \<Rightarrow> js)"

definition is_queued :: "mem_queue \<Rightarrow> string \<Rightarrow> bool" where
  "is_queued q p = (case q_queued q p of None \<Rightarrow> False | Some b \<Rightarrow> b)"

definition mark_seen :: "string \<Rightarrow> mem_queue \<Rightarrow> mem_queue" where
  "mark_seen i q =
     (let q1 = q\<lparr>q_seen := insert i (q_seen q), q_seen_fifo := q_seen_fifo q @ [i]\<rparr>
      in if q_max_seen q < int (length (q_seen_fifo q1))
         then q1\<lparr>q_seen_fifo := tl (q_seen_fifo q1), q_seen := q_seen q1 - {hd (q_seen_fifo q1)}\<rparr>
         else q1)"

text \<open>How \<open>Enqueue\<close> leaves its critical section; \<open>Accepted\<close> carries the flag \<open>push\<close>.\<close>

datatype enqueue_exit = Refused go_error | Duplicate | Accepted bool

definition enqueue_locked :: "replan_job \<Rightarrow> mem_queue \<Rightarrow> enqueue_exit \<times> mem_queue" where
  "enqueue_locked job q =
     (if q_closed q then (Refused EQueueClosed, q)
      else if jb_signal_id job \<in> q_seen q then (Duplicate, q)
      else
        let q1 = mark_seen (jb_signal_id job) q;
            q2 = q1\<lparr>q_pending := (q_pending q1)(jb_plan_id job \<mapsto> fifo_of q1 (jb_plan_id job) @ [job])\<rparr>;
            push = (\<not> is_queued q2 (jb_plan_id job))
        in (Accepted push,
            if push then q2\<lparr>q_queued := (q_queued q2)(jb_plan_id job \<mapsto> True)\<rparr> else q2))"

text \<open>The worker's critical section: the next job of the plan, or the end of the drain.\<close>

definition take_job :: "string \<Rightarrow> mem_queue \<Rightarrow> replan_job option \<times> mem_queue" where
  "take_job p q =
     (case fifo_of q p of
        [] \<Rightarrow> (None, q\<lparr>q_pending := (q_pending q)(p := None), q_queued := (q_queued q)(p \<mapsto> False)\<rparr>)
      | job # rest \<Rightarrow> (Some job, q\<lparr>q_pending := (q_pending q)(p \<mapsto> rest)\<rparr>))"

text \<open>\<open>runJob\<close>: a panic of the handler is recovered and becomes an error.\<close>

datatype 'a handler_call = Returned 'a | Panicked string

definition run_job ::
  "(replan_job \<Rightarrow> (go_error + replan_outcome) handler_call) \<Rightarrow> replan_job \<Rightarrow> go_error option" where
  "run_job handler job =
     (case handler job of
        Returned (Inl err) \<Rightarrow> Some err
      | Returned (Inr _) \<Rightarrow> None
      | Panicked m \<Rightarrow> Some (EText (''replan panicked: '' @ m)))"

section \<open>The goroutines\<close>

text \<open>
  A worker waits on the channel, drains a plan, runs the handler for a job of the plan, or has
  returned. Handlers run outside the lock; what they do to the store is not the queue's.
\<close>

datatype worker = Idle | Draining string | Running string replan_job | Exited

text \<open>
  The queue with its goroutines: the plan ids that goroutines inside \<open>Enqueue\<close> are about to send,
  the goroutine inside \<open>Shutdown\<close> about to close the channel, the workers, and the traces of the
  jobs accepted, of the jobs handed to the handler and of the sends that panicked.
\<close>

record queue_sys =
  y_q :: mem_queue
  y_sending :: "string list"
  y_closing :: bool
  y_ws :: "worker list"
  y_accepted :: "replan_job list"
  y_handed :: "replan_job list"
  y_panicked :: "string list"

definition queue_init :: "int \<Rightarrow> int \<Rightarrow> queue_sys" where
  "queue_init workers buffer =
     \<lparr>y_q = new_memory_queue workers buffer, y_sending = [], y_closing = False, y_ws = [],
      y_accepted = [], y_handed = [], y_panicked = []\<rparr>"

text \<open>\<open>Start\<close>: launches the pool, once.\<close>

definition start_workers :: "queue_sys \<Rightarrow> queue_sys" where
  "start_workers y = (if y_ws y = [] then y\<lparr>y_ws := replicate (nat (q_workers (y_q y))) Idle\<rparr> else y)"

text \<open>\<open>Enqueue\<close> up to the send.\<close>

definition begin_enqueue :: "replan_job \<Rightarrow> queue_sys \<Rightarrow> queue_sys" where
  "begin_enqueue job y =
     (case enqueue_locked job (y_q y) of
        (Accepted push, q) \<Rightarrow>
          y\<lparr>y_q := q, y_accepted := y_accepted y @ [job],
            y_sending := (if push then jb_plan_id job # y_sending y else y_sending y)\<rparr>
      | (_, q) \<Rightarrow> y\<lparr>y_q := q\<rparr>)"

text \<open>\<open>Shutdown\<close> up to \<open>close\<close>; a second call returns at once.\<close>

definition begin_shutdown :: "queue_sys \<Rightarrow> queue_sys" where
  "begin_shutdown y =
     (if q_closed (y_q y) then y
      else y\<lparr>y_q := (y_q y)\<lparr>q_closed := True\<rparr>, y_closing := True\<rparr>)"

definition close_channel :: "queue_sys \<Rightarrow> queue_sys" where
  "close_channel y = y\<lparr>y_q := (y_q y)\<lparr>q_ch_closed := True\<rparr>, y_closing := False\<rparr>"

text \<open>The channel send of \<open>Enqueue\<close>: it panics on a closed channel and blocks on a full one.\<close>

definition send_plan :: "string \<Rightarrow> queue_sys \<Rightarrow> queue_sys" where
  "send_plan p y =
     (let y1 = y\<lparr>y_sending := remove1 p (y_sending y)\<rparr> in
      if q_ch_closed (y_q y) then y1\<lparr>y_panicked := p # y_panicked y\<rparr>
      else y1\<lparr>y_q := (y_q y)\<lparr>q_ch := q_ch (y_q y) @ [p]\<rparr>\<rparr>)"

definition can_send :: "string \<Rightarrow> queue_sys \<Rightarrow> bool" where
  "can_send p y \<longleftrightarrow> p \<in> set (y_sending y) \<and>
     (q_ch_closed (y_q y) \<or> int (length (q_ch (y_q y))) < q_buffer (y_q y))"

text \<open>One move of a worker: what \<open>work\<close> does next, \<open>None\<close> where it blocks or has returned.\<close>

definition worker_move :: "nat \<Rightarrow> queue_sys \<Rightarrow> queue_sys option" where
  "worker_move i y =
     (case y_ws y ! i of
        Idle \<Rightarrow>
          (case q_ch (y_q y) of
             p # rest \<Rightarrow> Some (y\<lparr>y_q := (y_q y)\<lparr>q_ch := rest\<rparr>, y_ws := (y_ws y)[i := Draining p]\<rparr>)
           | [] \<Rightarrow> if q_ch_closed (y_q y) then Some (y\<lparr>y_ws := (y_ws y)[i := Exited]\<rparr>) else None)
      | Draining p \<Rightarrow>
          (case take_job p (y_q y) of
             (None, q) \<Rightarrow> Some (y\<lparr>y_q := q, y_ws := (y_ws y)[i := Idle]\<rparr>)
           | (Some job, q) \<Rightarrow>
               Some (y\<lparr>y_q := q, y_ws := (y_ws y)[i := Running p job], y_handed := y_handed y @ [job]\<rparr>))
      | Running p job \<Rightarrow> Some (y\<lparr>y_ws := (y_ws y)[i := Draining p]\<rparr>)
      | Exited \<Rightarrow> None)"

text \<open>The steps the queue takes by itself, and those its callers take.\<close>

inductive queue_run :: "queue_sys \<Rightarrow> queue_sys \<Rightarrow> bool" where
  run_send: "can_send p y \<Longrightarrow> queue_run y (send_plan p y)"
| run_worker: "i < length (y_ws y) \<Longrightarrow> worker_move i y = Some y' \<Longrightarrow> queue_run y y'"
| run_close: "y_closing y \<Longrightarrow> queue_run y (close_channel y)"

inductive queue_call :: "queue_sys \<Rightarrow> queue_sys \<Rightarrow> bool" where
  call_start: "queue_call y (start_workers y)"
| call_enqueue: "queue_call y (begin_enqueue job y)"
| call_shutdown: "queue_call y (begin_shutdown y)"

inductive queue_step :: "queue_sys \<Rightarrow> queue_sys \<Rightarrow> bool" where
  step_run: "queue_run y y' \<Longrightarrow> queue_step y y'"
| step_call: "queue_call y y' \<Longrightarrow> queue_step y y'"

inductive queue_reachable :: "int \<Rightarrow> int \<Rightarrow> queue_sys \<Rightarrow> bool" for n b where
  reach_init: "queue_reachable n b (queue_init n b)"
| reach_step: "queue_reachable n b y \<Longrightarrow> queue_step y y' \<Longrightarrow> queue_reachable n b y'"

inductive_cases queue_runE: "queue_run y y'"
inductive_cases queue_callE: "queue_call y y'"
inductive_simps queue_step_iff: "queue_step y y'"

section \<open>The invariant\<close>

text \<open>
  A plan's work is announced by a token: its id is about to be sent, in the channel, held by a
  worker, or was lost in a send that panicked.
\<close>

fun holds :: "string \<Rightarrow> worker \<Rightarrow> bool" where
  "holds p Idle = False"
| "holds p Exited = False"
| "holds p (Draining p') = (p = p')"
| "holds p (Running p' _) = (p = p')"

definition tokens :: "queue_sys \<Rightarrow> string \<Rightarrow> nat" where
  "tokens y p = count_list (y_sending y) p + count_list (q_ch (y_q y)) p +
     length (filter (holds p) (y_ws y)) + count_list (y_panicked y) p"

definition jobs_of :: "string \<Rightarrow> replan_job list \<Rightarrow> replan_job list" where
  "jobs_of p js = filter (\<lambda>j. jb_plan_id j = p) js"

definition seen_window :: "queue_sys \<Rightarrow> string list" where
  "seen_window y = drop (length (y_accepted y) - nat (q_max_seen (y_q y))) (map jb_signal_id (y_accepted y))"

definition tokens_ok :: "queue_sys \<Rightarrow> bool" where
  "tokens_ok y \<longleftrightarrow>
     (\<forall>p. tokens y p = (if is_queued (y_q y) p then 1 else 0)) \<and>
     (\<forall>p. fifo_of (y_q y) p \<noteq> [] \<longrightarrow> is_queued (y_q y) p)"

definition fifo_ok :: "queue_sys \<Rightarrow> bool" where
  "fifo_ok y \<longleftrightarrow> (\<forall>p. jobs_of p (y_accepted y) = jobs_of p (y_handed y) @ fifo_of (y_q y) p)"

definition seen_ok :: "queue_sys \<Rightarrow> bool" where
  "seen_ok y \<longleftrightarrow> 0 \<le> q_max_seen (y_q y) \<and> q_seen_fifo (y_q y) = seen_window y \<and>
     q_seen (y_q y) = set (q_seen_fifo (y_q y)) \<and> distinct (q_seen_fifo (y_q y))"

definition close_ok :: "queue_sys \<Rightarrow> bool" where
  "close_ok y \<longleftrightarrow> (q_closed (y_q y) \<longleftrightarrow> q_ch_closed (y_q y) \<or> y_closing y) \<and>
     (y_panicked y \<noteq> [] \<longrightarrow> q_ch_closed (y_q y)) \<and>
     (Exited \<in> set (y_ws y) \<longrightarrow> q_ch_closed (y_q y) \<and> q_ch (y_q y) = []) \<and>
     1 \<le> q_buffer (y_q y) \<and> 1 \<le> q_workers (y_q y)"

definition queue_inv :: "queue_sys \<Rightarrow> bool" where
  "queue_inv y \<longleftrightarrow> tokens_ok y \<and> fifo_ok y \<and> seen_ok y \<and> close_ok y"

lemmas inv_parts = queue_inv_def tokens_ok_def fifo_ok_def seen_ok_def close_ok_def

lemma queue_inv_init: "queue_inv (queue_init n b)"
  by (simp add: inv_parts queue_init_def new_memory_queue_def tokens_def fifo_of_def is_queued_def
      jobs_of_def seen_window_def defaultMaxSeen_def)

lemma fifo_of_upd [simp]:
  "fifo_of (q\<lparr>q_pending := (q_pending q)(p \<mapsto> js)\<rparr>) p' = (if p' = p then js else fifo_of q p')"
  by (simp add: fifo_of_def)

lemma holds_update:
  assumes "i < length ws"
  shows "length (filter (holds p) (ws[i := w])) + (if holds p (ws ! i) then 1 else 0) =
     length (filter (holds p) ws) + (if holds p w then 1 else 0)"
  using assms
proof (induction ws arbitrary: i)
  case (Cons a ws)
  show ?case
  proof (cases i)
    case (Suc j)
    with Cons.IH[of j] Cons.prems show ?thesis by auto
  qed auto
qed simp

lemma count_remove1: "p \<in> set xs \<Longrightarrow> count_list (remove1 p xs) q + (if p = q then 1 else 0) = count_list xs q"
  by (induction xs) auto

text \<open>A step that leaves the tables, the channel and the traces alone keeps most of the invariant.\<close>

lemma inv_frame:
  assumes "queue_inv y" "close_ok y'" "\<And>p. tokens y' p = tokens y p"
    "q_pending (y_q y') = q_pending (y_q y)" "q_queued (y_q y') = q_queued (y_q y)"
    "q_seen (y_q y') = q_seen (y_q y)" "q_seen_fifo (y_q y') = q_seen_fifo (y_q y)"
    "q_max_seen (y_q y') = q_max_seen (y_q y)"
    "y_accepted y' = y_accepted y" "y_handed y' = y_handed y"
  shows "queue_inv y'"
proof -
  have q: "is_queued (y_q y') = is_queued (y_q y)" "fifo_of (y_q y') = fifo_of (y_q y)"
    using assms(4,5) by (simp_all add: is_queued_def fifo_of_def fun_eq_iff)
  have "tokens_ok y'" using assms(1) by (simp add: queue_inv_def tokens_ok_def assms(3) q)
  moreover have "fifo_ok y'" using assms(1) by (simp add: queue_inv_def fifo_ok_def assms(9,10) q)
  moreover have "seen_ok y'" using assms(1)
    unfolding queue_inv_def seen_ok_def seen_window_def by (auto simp: assms(6-9))
  ultimately show ?thesis using assms(2) by (simp add: queue_inv_def)
qed

subsection \<open>Sending\<close>

lemma inv_send:
  assumes "queue_inv y" "can_send p y"
  shows "queue_inv (send_plan p y)"
proof -
  have m: "p \<in> set (y_sending y)" using assms(2) by (simp add: can_send_def)
  have t: "tokens (send_plan p y) q = tokens y q" for q
    using count_remove1[OF m, of q] by (auto simp: tokens_def send_plan_def Let_def)
  have "close_ok (send_plan p y)" using assms(1)
    by (auto simp: queue_inv_def close_ok_def send_plan_def Let_def)
  thus ?thesis by (rule inv_frame[OF assms(1) _ t]) (simp_all add: send_plan_def Let_def)
qed

subsection \<open>Workers\<close>

lemma not_exited_update: "w \<noteq> Exited \<Longrightarrow> Exited \<in> set (ws[i := w]) \<Longrightarrow> Exited \<in> set ws"
  by (auto dest: set_update_subset_insert[THEN subsetD])

lemma close_ok_worker: "close_ok y \<Longrightarrow> w \<noteq> Exited \<Longrightarrow> close_ok (y\<lparr>y_ws := (y_ws y)[i := w]\<rparr>)"
  unfolding close_ok_def by (simp, blast dest: not_exited_update)

lemma inv_worker:
  assumes inv: "queue_inv y" and i: "i < length (y_ws y)" and m: "worker_move i y = Some y'"
  shows "queue_inv y'"
proof (cases "y_ws y ! i")
  case Idle
  show ?thesis
  proof (cases "q_ch (y_q y)")
    case Nil
    with Idle m have y': "y' = y\<lparr>y_ws := (y_ws y)[i := Exited]\<rparr>" and c: "q_ch_closed (y_q y)"
      by (auto simp: worker_move_def split: if_splits)
    have "tokens y' p = tokens y p" for p
      using holds_update[OF i, of p Exited] Idle by (simp add: tokens_def y')
    moreover have "close_ok y'" using inv c Nil by (auto simp: queue_inv_def close_ok_def y')
    ultimately show ?thesis by (intro inv_frame[OF inv]) (simp_all add: y')
  next
    case (Cons p rest)
    with Idle m have y': "y' = y\<lparr>y_q := (y_q y)\<lparr>q_ch := rest\<rparr>, y_ws := (y_ws y)[i := Draining p]\<rparr>"
      by (auto simp: worker_move_def)
    have t: "tokens y' p' = tokens y p'" for p'
      using holds_update[OF i, of p' "Draining p"] Idle Cons by (simp add: tokens_def y')
    have "Exited \<notin> set (y_ws y)" using inv Cons by (simp add: queue_inv_def close_ok_def)
    hence "Exited \<notin> set (y_ws y')" by (auto simp: y' dest: not_exited_update[rotated])
    hence "close_ok y'" using inv unfolding queue_inv_def close_ok_def by (simp add: y')
    thus ?thesis by (rule inv_frame[OF inv _ t]) (simp_all add: y')
  qed
next
  case (Draining p)
  have n0: "i < length (y_ws y) \<Longrightarrow> tokens y p > 0"
  proof -
    have "y_ws y ! i \<in> set (filter (holds p) (y_ws y))" using i Draining nth_mem[OF i] by simp
    hence "length (filter (holds p) (y_ws y)) > 0" by (cases "filter (holds p) (y_ws y)") auto
    thus ?thesis by (simp add: tokens_def)
  qed
  show ?thesis
  proof (cases "fifo_of (y_q y) p")
    case Nil
    let ?q = "(y_q y)\<lparr>q_pending := (q_pending (y_q y))(p := None), q_queued := (q_queued (y_q y))(p \<mapsto> False)\<rparr>"
    have y': "y' = y\<lparr>y_q := ?q, y_ws := (y_ws y)[i := Idle]\<rparr>"
      using Nil Draining m by (simp add: worker_move_def take_job_def)
    have t: "tokens y' p' + (if p' = p then 1 else 0) = tokens y p'" for p'
      using holds_update[OF i, of p' Idle] Draining by (auto simp: tokens_def y')
    have q: "is_queued (y_q y') p' = (p' \<noteq> p \<and> is_queued (y_q y) p')"
        "fifo_of (y_q y') p' = fifo_of (y_q y) p'" for p'
      using Nil by (simp_all add: y' is_queued_def fifo_of_def)
    have "tokens y p = 1" using n0[OF i] inv by (auto simp: inv_parts split: if_splits)
    hence "tokens y' p' = (if is_queued (y_q y') p' then 1 else 0)" for p'
      using t[of p'] inv by (cases "p' = p") (auto simp: inv_parts q)
    moreover have "fifo_of (y_q y') p' \<noteq> [] \<longrightarrow> is_queued (y_q y') p'" for p'
      using inv Nil by (auto simp: inv_parts q)
    ultimately have "tokens_ok y'" by (simp add: tokens_ok_def)
    moreover have "fifo_ok y'" using inv unfolding queue_inv_def fifo_ok_def by (simp add: q(2)) (simp add: y')
    moreover have "seen_ok y'" using inv unfolding queue_inv_def seen_ok_def seen_window_def by (auto simp: y')
    moreover have "close_ok y'" using inv close_ok_worker[of "y\<lparr>y_q := ?q\<rparr>" Idle i]
      by (simp add: y' queue_inv_def close_ok_def)
    ultimately show ?thesis by (simp add: queue_inv_def)
  next
    case (Cons job rest)
    let ?q = "(y_q y)\<lparr>q_pending := (q_pending (y_q y))(p \<mapsto> rest)\<rparr>"
    have y': "y' = y\<lparr>y_q := ?q, y_ws := (y_ws y)[i := Running p job], y_handed := y_handed y @ [job]\<rparr>"
      using Cons Draining m by (simp add: worker_move_def take_job_def)
    have t: "tokens y' p' = tokens y p'" for p'
      using holds_update[OF i, of p' "Running p job"] Draining by (auto simp: tokens_def y')
    have q: "is_queued (y_q y') = is_queued (y_q y)"
      by (simp add: y' is_queued_def fun_eq_iff)
    have f: "fifo_of (y_q y') p' = (if p' = p then rest else fifo_of (y_q y) p')" for p'
      by (simp add: y')
    have "job \<in> set (jobs_of p (y_accepted y))" using inv Cons by (simp add: inv_parts)
    hence "jb_plan_id job = p" by (simp add: jobs_of_def)
    hence "fifo_ok y'" using inv Cons by (auto simp: inv_parts f) (auto simp: y' jobs_of_def)
    moreover have "tokens_ok y'" using inv Cons by (auto simp: inv_parts t q f split: if_splits)
    moreover have "seen_ok y'" using inv by (auto simp: inv_parts y' seen_window_def)
    moreover have "close_ok y'" using inv close_ok_worker[of "y\<lparr>y_q := ?q, y_handed := y_handed y @ [job]\<rparr>" "Running p job" i]
      by (simp add: y' queue_inv_def close_ok_def)
    ultimately show ?thesis by (simp add: queue_inv_def)
  qed
next
  case (Running p job)
  with m have y': "y' = y\<lparr>y_ws := (y_ws y)[i := Draining p]\<rparr>" by (simp add: worker_move_def)
  have t: "tokens y' p' = tokens y p'" for p'
    using holds_update[OF i, of p' "Draining p"] Running by (simp add: tokens_def y')
  have "close_ok y'" using inv close_ok_worker[of y "Draining p" i] by (simp add: y' queue_inv_def)
  thus ?thesis by (rule inv_frame[OF inv _ t]) (simp_all add: y')
qed (use m in \<open>simp add: worker_move_def\<close>)

subsection \<open>Callers\<close>

lemma inv_start:
  assumes "queue_inv y"
  shows "queue_inv (start_workers y)"
proof (cases "y_ws y = []")
  case True
  hence y': "start_workers y = y\<lparr>y_ws := replicate (nat (q_workers (y_q y))) Idle\<rparr>"
    by (simp add: start_workers_def)
  have "close_ok (start_workers y)" using assms by (auto simp: y' queue_inv_def close_ok_def)
  thus ?thesis by (rule inv_frame[OF assms]) (simp_all add: y' tokens_def True)
qed (use assms in \<open>simp add: start_workers_def\<close>)

lemma inv_shutdown:
  assumes "queue_inv y"
  shows "queue_inv (begin_shutdown y)"
proof (cases "q_closed (y_q y)")
  case False
  hence y': "begin_shutdown y = y\<lparr>y_q := (y_q y)\<lparr>q_closed := True\<rparr>, y_closing := True\<rparr>"
    by (simp add: begin_shutdown_def)
  have "close_ok (begin_shutdown y)" using assms False by (auto simp: y' queue_inv_def close_ok_def)
  thus ?thesis by (rule inv_frame[OF assms]) (simp_all add: y' tokens_def)
qed (use assms in \<open>simp add: begin_shutdown_def\<close>)

lemma inv_close:
  assumes "queue_inv y" "y_closing y"
  shows "queue_inv (close_channel y)"
proof -
  have "close_ok (close_channel y)"
    using assms by (auto simp: close_channel_def queue_inv_def close_ok_def)
  thus ?thesis by (rule inv_frame[OF assms(1)]) (simp_all add: close_channel_def tokens_def)
qed

lemma mark_seen_same [simp]:
  "q_pending (mark_seen i q) = q_pending q" "q_queued (mark_seen i q) = q_queued q"
  "q_ch (mark_seen i q) = q_ch q" "q_ch_closed (mark_seen i q) = q_ch_closed q"
  "q_closed (mark_seen i q) = q_closed q" "q_buffer (mark_seen i q) = q_buffer q"
  "q_workers (mark_seen i q) = q_workers q" "q_max_seen (mark_seen i q) = q_max_seen q"
  by (simp_all add: mark_seen_def Let_def)

lemma mark_seen_window:
  assumes "0 \<le> q_max_seen q" "q_seen_fifo q = drop (length ids - nat (q_max_seen q)) ids"
    "q_seen q = set (q_seen_fifo q)" "distinct (q_seen_fifo q)" "i \<notin> q_seen q"
  shows "q_seen_fifo (mark_seen i q) = drop (Suc (length ids) - nat (q_max_seen q)) (ids @ [i])"
    "q_seen (mark_seen i q) = set (q_seen_fifo (mark_seen i q))"
    "distinct (q_seen_fifo (mark_seen i q))"
proof -
  let ?n = "nat (q_max_seen q)"
  have len: "length (q_seen_fifo q) = min (length ids) ?n" using assms(2) by simp
  show 1: "q_seen_fifo (mark_seen i q) = drop (Suc (length ids) - ?n) (ids @ [i])"
  proof (cases "length ids < ?n")
    case True
    hence "\<not> q_max_seen q < int (length (q_seen_fifo q @ [i]))" using len by simp
    with True assms(2) show ?thesis by (simp add: mark_seen_def Let_def)
  next
    case False
    hence "q_max_seen q < int (length (q_seen_fifo q @ [i]))" using len assms(1) by simp
    hence "q_seen_fifo (mark_seen i q) = tl (q_seen_fifo q @ [i])" by (simp add: mark_seen_def Let_def)
    also have "q_seen_fifo q @ [i] = drop (length ids - ?n) (ids @ [i])" using assms(2) by simp
    also have "tl \<dots> = drop (Suc (length ids - ?n)) (ids @ [i])" by (simp only: drop_Suc tl_drop)
    also have "Suc (length ids - ?n) = Suc (length ids) - ?n" using False by simp
    finally show ?thesis .
  qed
  have d: "distinct (q_seen_fifo q @ [i])" using assms(3,4,5) by simp
  show "q_seen (mark_seen i q) = set (q_seen_fifo (mark_seen i q))"
  proof (cases "q_seen_fifo q @ [i]")
    case (Cons a as)
    with d have "a \<notin> set as" by simp
    moreover have "insert i (q_seen q) = insert a (set as)" using assms(3) Cons
      by (metis insert_code(1) list.simps(15) set_append sup_commute insert_is_Un empty_set)
    ultimately show ?thesis using Cons assms(3) by (auto simp: mark_seen_def Let_def)
  qed simp
  show "distinct (q_seen_fifo (mark_seen i q))"
    using d by (auto simp: mark_seen_def Let_def distinct_tl)
qed


lemma inv_enqueue:
  assumes "queue_inv y"
  shows "queue_inv (begin_enqueue job y)"
proof -
  let ?q = "y_q y" and ?p = "jb_plan_id job" and ?i = "jb_signal_id job"
  consider "q_closed ?q" | "\<not> q_closed ?q" "?i \<in> q_seen ?q" | "\<not> q_closed ?q" "?i \<notin> q_seen ?q" by blast
  thus ?thesis
  proof cases
    case 3
    let ?q1 = "mark_seen ?i ?q"
    let ?q2 = "?q1\<lparr>q_pending := (q_pending ?q1)(?p \<mapsto> fifo_of ?q1 ?p @ [job])\<rparr>"
    define y' where "y' = begin_enqueue job y"
    have f: "fifo_of (y_q y') p = fifo_of ?q p @ (if p = ?p then [job] else [])"
      and q: "is_queued (y_q y') p = (p = ?p \<or> is_queued ?q p)"
      and t: "tokens y' p = tokens y p + (if p = ?p \<and> \<not> is_queued ?q p then 1 else 0)" for p
      using 3 by (auto simp: y'_def begin_enqueue_def enqueue_locked_def Let_def fifo_of_def is_queued_def
          tokens_def split: option.splits)
    have acc: "y_accepted y' = y_accepted y @ [job]" "y_handed y' = y_handed y"
      "q_seen (y_q y') = q_seen ?q1" "q_seen_fifo (y_q y') = q_seen_fifo ?q1"
      "q_max_seen (y_q y') = q_max_seen ?q"
      using 3 by (simp_all add: y'_def begin_enqueue_def enqueue_locked_def Let_def)
    have "tokens_ok y'" using assms by (auto simp: inv_parts f q t)
    moreover have "fifo_ok y'" using assms by (auto simp: inv_parts f acc jobs_of_def)
    moreover have "seen_ok y'"
    proof -
      have "0 \<le> q_max_seen ?q" "q_seen_fifo ?q = drop (length (map jb_signal_id (y_accepted y)) - nat (q_max_seen ?q))
          (map jb_signal_id (y_accepted y))" "q_seen ?q = set (q_seen_fifo ?q)" "distinct (q_seen_fifo ?q)"
        using assms unfolding queue_inv_def seen_ok_def seen_window_def by auto
      from mark_seen_window[OF this 3(2)] this(1) show ?thesis
        by (simp add: seen_ok_def seen_window_def acc)
    qed
    moreover have "close_ok y'" using assms 3
      by (auto simp: y'_def begin_enqueue_def enqueue_locked_def Let_def queue_inv_def close_ok_def)
    ultimately show ?thesis by (simp add: queue_inv_def y'_def)
  qed (use assms in \<open>simp_all add: begin_enqueue_def enqueue_locked_def\<close>)
qed

lemma queue_inv_step: "queue_inv y \<Longrightarrow> queue_step y y' \<Longrightarrow> queue_inv y'"
  by (auto simp: queue_step_iff elim!: queue_runE queue_callE
      intro: inv_send inv_worker inv_close inv_start inv_enqueue inv_shutdown)

lemma queue_inv_reachable: "queue_reachable n b y \<Longrightarrow> queue_inv y"
  by (induction rule: queue_reachable.induct) (auto intro: queue_inv_init queue_inv_step)


section \<open>The contract of a job queue\<close>

text \<open>
  What the users of a job queue rely on, whatever its implementation: per key, the jobs handed
  out followed by the jobs waiting are the jobs accepted.
\<close>

locale job_queue =
  fixes reach :: "'s \<Rightarrow> bool" and accepted handed waiting :: "'s \<Rightarrow> 'k \<Rightarrow> 'j list"
  assumes conserve: "reach s \<Longrightarrow> accepted s k = handed s k @ waiting s k"
begin

lemma fifo: "reach s \<Longrightarrow> prefix (handed s k) (accepted s k)"
  by (simp add: conserve)

lemma none_lost: "reach s \<Longrightarrow> set (accepted s k) = set (handed s k) \<union> set (waiting s k)"
  by (simp add: conserve)

lemma none_twice: "reach s \<Longrightarrow> distinct (accepted s k) \<Longrightarrow> distinct (handed s k)"
  by (simp add: conserve)

lemma drained: "reach s \<Longrightarrow> waiting s k = [] \<Longrightarrow> handed s k = accepted s k"
  by (simp add: conserve)

end

interpretation mq: job_queue "queue_reachable n b" "\<lambda>y p. jobs_of p (y_accepted y)"
    "\<lambda>y p. jobs_of p (y_handed y)" "\<lambda>y. fifo_of (y_q y)" for n b
  by unfold_locales (auto dest: queue_inv_reachable simp: queue_inv_def fifo_ok_def)

section \<open>Draining\<close>

text \<open>Every step the queue takes by itself brings it closer to rest.\<close>

fun worker_weight :: "worker \<Rightarrow> nat" where
  "worker_weight Exited = 0"
| "worker_weight Idle = 1"
| "worker_weight (Draining p) = 2"
| "worker_weight (Running p j) = 3"

definition queue_weight :: "queue_sys \<Rightarrow> nat" where
  "queue_weight y = 2 * (length (y_accepted y) - length (y_handed y)) + 3 * length (y_sending y) +
     2 * length (q_ch (y_q y)) + sum_list (map worker_weight (y_ws y)) + (if y_closing y then 1 else 0)"

lemma weight_update:
  "i < length ws \<Longrightarrow>
   sum_list (map worker_weight (ws[i := w])) + worker_weight (ws ! i) =
   sum_list (map worker_weight ws) + worker_weight w"
proof (induction ws arbitrary: i)
  case (Cons a ws)
  show ?case
  proof (cases i)
    case (Suc j)
    with Cons.IH[of j] Cons.prems show ?thesis by simp
  qed simp
qed simp

lemma count_jobs_of: "jb_plan_id j = p \<Longrightarrow> count_list (jobs_of p js) j = count_list js j"
  by (induction js) (auto simp: jobs_of_def)

lemma count_mset_list: "count (mset xs) x = count_list xs x"
  by (induction xs) auto

lemma handed_subset: "fifo_ok y \<Longrightarrow> mset (y_handed y) \<subseteq># mset (y_accepted y)"
proof (rule mset_subset_eqI)
  fix j assume "fifo_ok y"
  hence "count_list (jobs_of (jb_plan_id j) (y_accepted y)) j \<ge> count_list (jobs_of (jb_plan_id j) (y_handed y)) j"
    by (simp add: fifo_ok_def)
  thus "count (mset (y_handed y)) j \<le> count (mset (y_accepted y)) j"
    by (simp add: count_jobs_of count_mset_list)
qed

lemma length_handed: "fifo_ok y \<Longrightarrow> length (y_handed y) \<le> length (y_accepted y)"
  using handed_subset[THEN size_mset_mono] by simp

lemma queue_run_weight:
  assumes inv: "queue_inv y" and r: "queue_run y y'"
  shows "queue_weight y' < queue_weight y"
  using r
proof cases
  case (run_send p)
  hence m: "p \<in> set (y_sending y)" by (simp add: can_send_def)
  then obtain k where k: "length (y_sending y) = Suc k" by (cases "y_sending y") auto
  with m run_send show ?thesis by (simp add: send_plan_def Let_def queue_weight_def length_remove1)
next
  case (run_worker i)
  note 2 = run_worker
  note u = weight_update[OF 2(1)]
  have le: "length (y_handed y') \<le> length (y_accepted y')"
    using length_handed inv_worker[OF inv 2] by (simp add: queue_inv_def)
  show ?thesis
  proof (cases "y_ws y ! i")
    case Idle
    with 2(2) u[of Exited] u[of "Draining (hd (q_ch (y_q y)))"] show ?thesis
      by (cases "q_ch (y_q y)") (auto simp: worker_move_def queue_weight_def split: if_splits)
  next
    case (Draining p)
    with 2(2) le u[of Idle] u[of "Running p (hd (fifo_of (y_q y) p))"] show ?thesis
      by (cases "fifo_of (y_q y) p") (auto simp: worker_move_def take_job_def queue_weight_def)
  next
    case (Running p j)
    with 2(2) u[of "Draining p"] show ?thesis by (auto simp: worker_move_def queue_weight_def)
  qed (use 2(2) in \<open>simp add: worker_move_def\<close>)
next
  case run_close
  thus ?thesis by (simp add: close_channel_def queue_weight_def)
qed

text \<open>A state where the queue can take no step by itself has no work left that a send did not lose.\<close>

lemma worker_stuck:
  "worker_move i y = None \<Longrightarrow>
   y_ws y ! i = Exited \<or> y_ws y ! i = Idle \<and> q_ch (y_q y) = [] \<and> \<not> q_ch_closed (y_q y)"
  by (cases "y_ws y ! i")
     (auto simp: worker_move_def split: list.splits if_splits option.splits prod.splits)

lemma rest_drained:
  assumes inv: "queue_inv y" and ws: "y_ws y \<noteq> []" and rest: "\<And>y'. \<not> queue_run y y'"
    and p: "p \<notin> set (y_panicked y)"
  shows "fifo_of (y_q y) p = []"
proof -
  have stuck: "worker_move i y = None" if "i < length (y_ws y)" for i
    using rest run_worker[OF that] by (cases "worker_move i y") auto
  have h: "\<not> holds p w" if "w \<in> set (y_ws y)" for w
    using that stuck worker_stuck by (metis holds.simps(1,2) in_set_conv_nth)
  have ch: "q_ch (y_q y) = []"
  proof (cases "Exited \<in> set (y_ws y)")
    case False
    have "y_ws y ! 0 \<in> set (y_ws y)" using ws by simp
    with False worker_stuck[OF stuck[of 0]] ws show ?thesis by fastforce
  qed (use inv in \<open>simp add: queue_inv_def close_ok_def\<close>)
  have "\<not> can_send q y" for q using rest run_send by blast
  hence s: "y_sending y = []" using inv ch
    by (cases "y_sending y") (auto simp: can_send_def queue_inv_def close_ok_def)
  have "tokens y p = 0" using p h s ch by (simp add: tokens_def count_list_0_iff filter_empty_conv)
  thus ?thesis using inv unfolding queue_inv_def tokens_ok_def by (metis zero_neq_one)
qed


lemma run_keeps_accepted: "queue_run y y' \<Longrightarrow> y_accepted y' = y_accepted y"
  by (auto elim!: queue_runE simp: send_plan_def close_channel_def worker_move_def Let_def
      split: worker.splits list.splits if_splits option.splits prod.splits)

lemma run_keeps_workers: "queue_run y y' \<Longrightarrow> length (y_ws y') = length (y_ws y)"
  by (auto elim!: queue_runE simp: send_plan_def close_channel_def worker_move_def Let_def
      split: worker.splits list.splits if_splits option.splits prod.splits)

lemma queue_inv_run: "queue_inv y \<Longrightarrow> queue_run y y' \<Longrightarrow> queue_inv y'"
  by (rule queue_inv_step) (auto simp: queue_step_iff)

lemma queue_runs:
  assumes "(queue_run ^^ k) y y'" "queue_inv y"
  shows "queue_inv y' \<and> y_accepted y' = y_accepted y \<and> length (y_ws y') = length (y_ws y) \<and>
     k + queue_weight y' \<le> queue_weight y"
  using assms
proof (induction k arbitrary: y')
  case (Suc k)
  then obtain z where z: "(queue_run ^^ k) y z" "queue_run z y'" by auto
  with Suc show ?case
    using queue_inv_run[OF _ z(2)] run_keeps_accepted[OF z(2)] run_keeps_workers[OF z(2)]
      queue_run_weight[OF _ z(2)] by fastforce
qed simp

section \<open>Properties\<close>

text \<open>
  C6: in every state the goroutines can reach, under any interleaving, no accepted job is lost,
  duplicated or overtaken within its plan (those handed out followed by those waiting are those
  accepted, in order), at most one worker holds a plan, and a plan with waiting work is announced
  by exactly one token: a send about to happen, a channel entry, a worker, or a send that
  panicked.
\<close>

theorem queue_serialises_plans:
  assumes "queue_reachable n b y"
  shows "jobs_of p (y_accepted y) = jobs_of p (y_handed y) @ fifo_of (y_q y) p \<and>
     length (filter (holds p) (y_ws y)) \<le> 1 \<and> (fifo_of (y_q y) p \<noteq> [] \<longrightarrow> tokens y p = 1)"
proof -
  have "tokens y p = (if is_queued (y_q y) p then 1 else 0)"
    using queue_inv_reachable[OF assms] by (simp add: queue_inv_def tokens_ok_def)
  hence "length (filter (holds p) (y_ws y)) \<le> 1" by (simp add: tokens_def split: if_splits)
  moreover have "fifo_of (y_q y) p \<noteq> [] \<longrightarrow> tokens y p = 1"
    using queue_inv_reachable[OF assms] by (auto simp: queue_inv_def tokens_ok_def)
  ultimately show ?thesis using mq.conserve[OF assms] by simp
qed

text \<open>
  C20: the queue drains: from every reachable state with its workers started, the steps the queue
  takes by itself are at most \<open>queue_weight\<close> many, and once none is possible every accepted job
  has been handed out in order, except for plans whose channel send panicked.
\<close>

theorem queue_drains:
  assumes "queue_reachable n b y" "y_ws y \<noteq> []" "(queue_run ^^ k) y y'"
  shows "k \<le> queue_weight y \<and>
     ((\<forall>y''. \<not> queue_run y' y'') \<longrightarrow>
      (\<forall>p. p \<notin> set (y_panicked y') \<longrightarrow> jobs_of p (y_handed y') = jobs_of p (y_accepted y)))"
proof -
  note r = queue_runs[OF assms(3) queue_inv_reachable[OF assms(1)]]
  have "y_ws y' \<noteq> []" using r assms(2) by auto
  have "jobs_of p (y_handed y') = jobs_of p (y_accepted y)"
    if "\<forall>y''. \<not> queue_run y' y''" "p \<notin> set (y_panicked y')" for p
  proof -
    have "fifo_of (y_q y') p = []"
      by (rule rest_drained) (use r that \<open>y_ws y' \<noteq> []\<close> in simp_all)
    with r show ?thesis unfolding queue_inv_def fifo_ok_def by (metis append_Nil2)
  qed
  with r show ?thesis by simp
qed

lemma max_seen_step: "queue_step y y' \<Longrightarrow> q_max_seen (y_q y') = q_max_seen (y_q y)"
  by (auto simp: queue_step_iff send_plan_def close_channel_def worker_move_def take_job_def Let_def
      start_workers_def begin_enqueue_def begin_shutdown_def enqueue_locked_def
      elim!: queue_runE queue_callE split: worker.splits list.splits if_splits option.splits prod.splits)

lemma max_seen_reachable: "queue_reachable n b y \<Longrightarrow> q_max_seen (y_q y) = defaultMaxSeen"
  by (induction rule: queue_reachable.induct)
     (auto simp: max_seen_step queue_init_def new_memory_queue_def)

text \<open>
  The idempotency set is the window of the last \<open>defaultMaxSeen\<close> accepted signal ids, which
  are pairwise different: it never grows past that bound and no signal is accepted twice within
  a window.
\<close>

theorem queue_window:
  assumes "queue_reachable n b y"
  shows "q_seen_fifo (y_q y) = drop (length (y_accepted y) - 100000) (map jb_signal_id (y_accepted y)) \<and>
     distinct (q_seen_fifo (y_q y)) \<and> q_seen (y_q y) = set (q_seen_fifo (y_q y)) \<and>
     length (q_seen_fifo (y_q y)) \<le> 100000"
  using queue_inv_reachable[OF assms] max_seen_reachable[OF assms]
  unfolding queue_inv_def seen_ok_def seen_window_def by (auto simp: defaultMaxSeen_def)

text \<open>
  \<open>Shutdown\<close> returns only after a complete drain: once the workers have all returned, every
  accepted job was handed out in order, except for plans whose channel send is still to come or
  panicked, and no job is accepted any more.
\<close>

theorem shutdown_waits_for_drain:
  assumes "queue_reachable n b y" "set (y_ws y) = {Exited}"
  shows "q_closed (y_q y) \<and> (\<forall>job. begin_enqueue job y = y) \<and>
     (\<forall>p. p \<notin> set (y_sending y) \<union> set (y_panicked y) \<longrightarrow> jobs_of p (y_handed y) = jobs_of p (y_accepted y))"
proof -
  note inv = queue_inv_reachable[OF assms(1)]
  have c: "q_ch_closed (y_q y)" "q_ch (y_q y) = []" "q_closed (y_q y)"
    using inv assms(2) by (auto simp: queue_inv_def close_ok_def)
  have "jobs_of p (y_handed y) = jobs_of p (y_accepted y)"
    if "p \<notin> set (y_sending y) \<union> set (y_panicked y)" for p
  proof -
    have "\<forall>w \<in> set (y_ws y). \<not> holds p w" using assms(2) by simp
    hence "tokens y p = 0" using that c by (simp add: tokens_def count_list_0_iff filter_empty_conv)
    hence "fifo_of (y_q y) p = []" using inv unfolding queue_inv_def tokens_ok_def by (metis zero_neq_one)
    thus ?thesis using mq.drained[OF assms(1)] by simp
  qed
  with c show ?thesis by (simp add: begin_enqueue_def enqueue_locked_def)
qed

lemma reach_run: "queue_reachable n b y \<Longrightarrow> queue_run y y' \<Longrightarrow> queue_reachable n b y'"
  by (erule reach_step) (rule step_run)

lemma reach_call: "queue_reachable n b y \<Longrightarrow> queue_call y y' \<Longrightarrow> queue_reachable n b y'"
  by (erule reach_step) (rule step_call)

text \<open>
  A send can hit the closed channel: with one worker and one job, \<open>Shutdown\<close> may close the
  channel between the critical section of \<open>Enqueue\<close> and its send. The send panics, and the job
  it accepted is never handed out although nothing is left to run.
\<close>

theorem enqueue_races_shutdown:
  "\<exists>y. queue_reachable 1 1 y \<and> y_accepted y = [sample_job] \<and> y_panicked y = [''plan_1''] \<and>
     y_handed y = [] \<and> set (y_ws y) = {Exited}"
proof -
  let ?y0 = "start_workers (queue_init 1 1)"
  let ?y1 = "begin_enqueue sample_job ?y0"
  let ?y2 = "close_channel (begin_shutdown ?y1)"
  let ?y3 = "send_plan ''plan_1'' ?y2"
  have r2: "queue_reachable 1 1 ?y2"
    by (rule reach_run[OF reach_call[OF reach_call[OF reach_call[OF reach_init call_start] call_enqueue]
          call_shutdown] run_close])
       (simp add: begin_shutdown_def begin_enqueue_def enqueue_locked_def start_workers_def queue_init_def
         new_memory_queue_def mark_seen_def defaultMaxSeen_def Let_def)
  note defs = begin_shutdown_def begin_enqueue_def enqueue_locked_def start_workers_def queue_init_def
      new_memory_queue_def mark_seen_def defaultMaxSeen_def Let_def close_channel_def send_plan_def
      is_queued_def fifo_of_def sample_job_def
  have "queue_reachable 1 1 ?y3"
    by (rule reach_run[OF r2 run_send]) (simp add: can_send_def defs)
  hence r4: "queue_reachable 1 1 (?y3\<lparr>y_ws := [Exited]\<rparr>)"
    by (rule reach_run[OF _ run_worker[of 0]]) (simp_all add: worker_move_def defs)
  show ?thesis by (rule exI[of _ "?y3\<lparr>y_ws := [Exited]\<rparr>"], intro conjI, rule r4) (simp_all add: defs)
qed


subsection \<open>A run\<close>

text \<open>One worker, one job: start, enqueue, send, receive, take, finish, end of the drain; then shutdown.\<close>

definition fed_queue :: queue_sys where
  "fed_queue = send_plan ''plan_1'' (begin_enqueue sample_job (start_workers (queue_init 1 1)))"

definition drained_queue :: queue_sys where
  "drained_queue = fed_queue\<lparr>y_q := (y_q fed_queue)\<lparr>q_ch := [], q_pending := Map.empty,
     q_queued := [''plan_1'' \<mapsto> False]\<rparr>, y_handed := [sample_job], y_ws := [Idle]\<rparr>"

definition closed_queue :: queue_sys where
  "closed_queue = (close_channel (begin_shutdown drained_queue))\<lparr>y_ws := [Exited]\<rparr>"

lemmas queue_run_defs = begin_shutdown_def begin_enqueue_def enqueue_locked_def start_workers_def
  queue_init_def new_memory_queue_def mark_seen_def defaultMaxSeen_def Let_def close_channel_def
  send_plan_def is_queued_def fifo_of_def sample_job_def

lemma fed_reachable: "queue_reachable 1 1 fed_queue"
  unfolding fed_queue_def
  by (rule reach_run[OF reach_call[OF reach_call[OF reach_init call_start] call_enqueue] run_send])
     (simp add: can_send_def queue_run_defs)

lemma worker_runs:
  "worker_move i y = Some z \<Longrightarrow> i < length (y_ws y) \<Longrightarrow> (queue_run ^^ k) z y' \<Longrightarrow> (queue_run ^^ Suc k) y y'"
  by (rule relpowp_Suc_I2, rule run_worker)

lemma fed_drains: "(queue_run ^^ 4) fed_queue drained_queue"
proof -
  let ?y1 = "fed_queue\<lparr>y_q := (y_q fed_queue)\<lparr>q_ch := []\<rparr>, y_ws := [Draining ''plan_1'']\<rparr>"
  let ?y2 = "?y1\<lparr>y_q := (y_q ?y1)\<lparr>q_pending := [''plan_1'' \<mapsto> []]\<rparr>, y_ws := [Running ''plan_1'' sample_job],
     y_handed := [sample_job]\<rparr>"
  let ?y3 = "?y2\<lparr>y_ws := [Draining ''plan_1'']\<rparr>"
  have 1: "worker_move 0 fed_queue = Some ?y1" "0 < length (y_ws fed_queue)"
    by (simp_all add: worker_move_def fed_queue_def queue_run_defs)
  have 2: "worker_move 0 ?y1 = Some ?y2"
    by (simp add: worker_move_def take_job_def fed_queue_def queue_run_defs)
  have 3: "worker_move 0 ?y2 = Some ?y3" by (simp add: worker_move_def)
  have 4: "worker_move 0 ?y3 = Some drained_queue"
    by (simp add: worker_move_def take_job_def fed_queue_def drained_queue_def queue_run_defs)
  have "(queue_run ^^ Suc (Suc (Suc (Suc 0)))) fed_queue drained_queue"
    by (rule worker_runs[OF 1 worker_runs[OF 2 _ worker_runs[OF 3 _ worker_runs[OF 4]]]]) simp_all
  thus ?thesis by (simp add: numeral_eq_Suc)
qed

lemma runs_reachable: "(queue_run ^^ k) y y' \<Longrightarrow> queue_reachable n b y \<Longrightarrow> queue_reachable n b y'"
  by (induction k arbitrary: y') (auto intro: reach_run)

lemma drained_reachable: "queue_reachable 1 1 drained_queue"
  by (rule runs_reachable[OF fed_drains fed_reachable])

lemma closed_reachable: "queue_reachable 1 1 closed_queue"
  unfolding closed_queue_def
  by (rule reach_run[OF reach_run[OF reach_call[OF drained_reachable call_shutdown] run_close] run_worker[of 0]])
     (simp_all add: worker_move_def drained_queue_def fed_queue_def queue_run_defs)

theorem queue_serialises_plans_witness:
  "jobs_of ''plan_1'' (y_accepted fed_queue) =
     jobs_of ''plan_1'' (y_handed fed_queue) @ fifo_of (y_q fed_queue) ''plan_1'' \<and>
   tokens fed_queue ''plan_1'' = 1"
  using queue_serialises_plans[OF fed_reachable, of "''plan_1''"]
  by (simp add: fed_queue_def queue_run_defs)

theorem queue_drains_witness: "4 \<le> queue_weight fed_queue"
  using queue_drains[OF fed_reachable _ fed_drains] by (simp add: fed_queue_def queue_run_defs)

theorem queue_window_witness: "q_seen_fifo (y_q drained_queue) = [''sig_1'']"
  using queue_window[OF drained_reachable] by (simp add: drained_queue_def fed_queue_def queue_run_defs)

theorem shutdown_waits_for_drain_witness:
  "jobs_of ''plan_1'' (y_handed closed_queue) = jobs_of ''plan_1'' (y_accepted closed_queue)"
  using shutdown_waits_for_drain[OF closed_reachable]
  by (simp add: closed_queue_def drained_queue_def fed_queue_def queue_run_defs)

end
