(* ===== verification/Llm_Cache.thy ===== *)
theory Llm_Cache
  imports Llm_Plan
begin

text \<open>
  \<open>internal/llm/cache.go\<close>: the LRU \<open>MemoryCache\<close> with its linked list and index as
  explicit pointers, the planner that memoises another one behind the \<open>PlanCache\<close> interface,
  and the cache key. The interface is the locale \<open>plan_cache\<close>; \<open>MemoryCache\<close> provides it.
\<close>

section \<open>MemoryCache\<close>

record cache_entry =
  ce_key :: string
  ce_val :: plan_result
  ce_expires_at :: time

text \<open>
  An element of \<open>container/list\<close> is a pointer: \<open>mc_elems\<close> is the store of the elements,
  \<open>mc_ll\<close> the list of their addresses, front first, \<open>mc_items\<close> the index. The clock is an
  argument of the operations.
\<close>

record memory_cache =
  mc_cap :: int
  mc_ttl :: dur
  mc_ll :: "nat list"
  mc_items :: "string \<Rightarrow> nat option"
  mc_elems :: "nat \<Rightarrow> cache_entry option"
  mc_next :: nat

definition new_memory_cache_ttl :: "int \<Rightarrow> dur \<Rightarrow> memory_cache" where
  "new_memory_cache_ttl capacity ttl =
     \<lparr>mc_cap = (if capacity < 1 then 1 else capacity), mc_ttl = ttl, mc_ll = [],
      mc_items = Map.empty, mc_elems = Map.empty, mc_next = 0\<rparr>"

definition new_memory_cache :: "int \<Rightarrow> memory_cache" where
  "new_memory_cache capacity = new_memory_cache_ttl capacity 0"

definition elem_at :: "memory_cache \<Rightarrow> nat \<Rightarrow> cache_entry" where
  "elem_at m a = (case mc_elems m a of Some e \<Rightarrow> e | None \<Rightarrow> \<lparr>ce_key = '''', ce_val = zero_result, ce_expires_at = 0\<rparr>)"

definition ll_remove :: "nat \<Rightarrow> memory_cache \<Rightarrow> memory_cache" where
  "ll_remove a m = m\<lparr>mc_ll := removeAll a (mc_ll m)\<rparr>"

definition ll_move_to_front :: "nat \<Rightarrow> memory_cache \<Rightarrow> memory_cache" where
  "ll_move_to_front a m = m\<lparr>mc_ll := a # removeAll a (mc_ll m)\<rparr>"

definition expired :: "time \<Rightarrow> cache_entry \<Rightarrow> bool" where
  "expired now e \<longleftrightarrow> ce_expires_at e \<noteq> zero_time \<and> \<not> now < ce_expires_at e"

definition cache_get :: "time \<Rightarrow> string \<Rightarrow> memory_cache \<Rightarrow> plan_result option \<times> memory_cache" where
  "cache_get now key m =
     (case mc_items m key of
        None \<Rightarrow> (None, m)
      | Some el \<Rightarrow>
          let ent = elem_at m el in
          if expired now ent
          then (None, (ll_remove el m)\<lparr>mc_items := (mc_items m)(key := None)\<rparr>)
          else (Some (ce_val ent), ll_move_to_front el m))"

definition evict :: "memory_cache \<Rightarrow> memory_cache" where
  "evict m =
     (if mc_cap m < int (length (mc_ll m)) \<and> mc_ll m \<noteq> []
      then let oldest = last (mc_ll m)
           in (ll_remove oldest m)\<lparr>mc_items := (mc_items m)(ce_key (elem_at m oldest) := None)\<rparr>
      else m)"

definition cache_put :: "time \<Rightarrow> string \<Rightarrow> plan_result \<Rightarrow> memory_cache \<Rightarrow> memory_cache" where
  "cache_put now key r m =
     (let expiry = (if 0 < mc_ttl m then now + mc_ttl m else zero_time) in
      case mc_items m key of
        Some el \<Rightarrow>
          ll_move_to_front el
            (m\<lparr>mc_elems := (mc_elems m)(el \<mapsto> (elem_at m el)\<lparr>ce_val := r, ce_expires_at := expiry\<rparr>)\<rparr>)
      | None \<Rightarrow>
          let el = mc_next m in
          evict (m\<lparr>mc_next := el + 1,
                   mc_elems := (mc_elems m)(el \<mapsto> \<lparr>ce_key = key, ce_val = r, ce_expires_at = expiry\<rparr>),
                   mc_ll := el # mc_ll m, mc_items := (mc_items m)(key \<mapsto> el)\<rparr>))"

section \<open>The memoising planner\<close>

text \<open>
  \<open>cacheKey\<close>: \<open>json.Marshal\<close> of the payload and of the keys and the hexadecimal text of the
  first bytes of \<open>sha256.Sum256\<close> are arguments; NUL separates the parts.
\<close>

record encoders =
  enc_snapshot :: "snapshot_input \<Rightarrow> string"
  enc_payload :: "payload \<Rightarrow> string"
  enc_keys :: "string list \<Rightarrow> string"
  enc_hexsha :: "string \<Rightarrow> string"

definition cache_key :: "encoders \<Rightarrow> string \<Rightarrow> plan_request \<Rightarrow> string" where
  "cache_key enc name req =
     (let payload = enc_payload enc (rq_signal_payload req);
          current = enc_keys enc (map m_key (rq_current_moves req));
          buf = (rq_system_prompt_override req @ [CHR 0x00] @ payload) @ [CHR 0x00] @ current
      in name @ ''|'' @ input_snapshot_id (enc_snapshot enc) (enc_hexsha enc) (rq_goal req) (rq_signal_note req)
         @ ''|'' @ take 24 (enc_hexsha enc buf))"

datatype cache_event = CacheHit string | CacheMiss string

text \<open>
  \<open>CachingPlanner.GeneratePlan\<close> over any cache: the cache's state is passed along, and the
  events are what the observer is told.
\<close>

definition caching_generate ::
  "(string \<Rightarrow> 'c \<Rightarrow> plan_result option \<times> 'c) \<Rightarrow> (string \<Rightarrow> plan_result \<Rightarrow> 'c \<Rightarrow> 'c) \<Rightarrow> (plan_request \<Rightarrow> string) \<Rightarrow>
   planner \<Rightarrow> plan_request \<Rightarrow> 'c \<Rightarrow> (go_error + plan_result) \<times> 'c \<times> cache_event" where
  "caching_generate get put key base req c =
     (case get (key req) c of
        (Some r, c1) \<Rightarrow> (Inr r, c1, CacheHit (g_domain (rq_goal req)))
      | (None, c1) \<Rightarrow>
          (case base req of
             Inl err \<Rightarrow> (Inl err, c1, CacheMiss (g_domain (rq_goal req)))
           | Inr r \<Rightarrow> (Inr r, put (key req) r c1, CacheMiss (g_domain (rq_goal req)))))"

section \<open>The specification of an LRU cache\<close>

text \<open>An LRU cache is its entries, most recently used first.\<close>

definition lru_find :: "string \<Rightarrow> cache_entry list \<Rightarrow> cache_entry option" where
  "lru_find k xs = List.find (\<lambda>e. ce_key e = k) xs"

definition lru_without :: "string \<Rightarrow> cache_entry list \<Rightarrow> cache_entry list" where
  "lru_without k xs = filter (\<lambda>e. ce_key e \<noteq> k) xs"

definition lru_get :: "time \<Rightarrow> string \<Rightarrow> cache_entry list \<Rightarrow> plan_result option \<times> cache_entry list" where
  "lru_get now k xs =
     (case lru_find k xs of
        None \<Rightarrow> (None, xs)
      | Some e \<Rightarrow> if expired now e then (None, lru_without k xs) else (Some (ce_val e), e # lru_without k xs))"

definition lru_put :: "int \<Rightarrow> dur \<Rightarrow> time \<Rightarrow> string \<Rightarrow> plan_result \<Rightarrow> cache_entry list \<Rightarrow> cache_entry list" where
  "lru_put cap ttl now k r xs =
     take (nat cap)
       (\<lparr>ce_key = k, ce_val = r, ce_expires_at = (if 0 < ttl then now + ttl else 0)\<rparr> # lru_without k xs)"

definition entries :: "memory_cache \<Rightarrow> cache_entry list" where
  "entries m = map (elem_at m) (mc_ll m)"

definition cache_ok :: "memory_cache \<Rightarrow> bool" where
  "cache_ok m \<longleftrightarrow> distinct (mc_ll m) \<and> (\<forall>a \<in> set (mc_ll m). mc_elems m a \<noteq> None \<and> a < mc_next m) \<and>
     (\<forall>k a. mc_items m k = Some a \<longleftrightarrow> a \<in> set (mc_ll m) \<and> ce_key (elem_at m a) = k) \<and>
     1 \<le> mc_cap m \<and> int (length (mc_ll m)) \<le> mc_cap m"

lemma cache_ok_new: "cache_ok (new_memory_cache_ttl c t)"
  by (simp add: cache_ok_def new_memory_cache_ttl_def)

lemma cache_okD:
  assumes "cache_ok m"
  shows "distinct (mc_ll m)" "a \<in> set (mc_ll m) \<Longrightarrow> mc_elems m a \<noteq> None \<and> a < mc_next m"
    "1 \<le> mc_cap m" "int (length (mc_ll m)) \<le> mc_cap m"
  using assms unfolding cache_ok_def by blast+

lemma items_iff:
  "cache_ok m \<Longrightarrow> mc_items m k = Some a \<longleftrightarrow> a \<in> set (mc_ll m) \<and> ce_key (elem_at m a) = k"
  unfolding cache_ok_def by blast

lemma items_none: "cache_ok m \<Longrightarrow> mc_items m k = None \<longleftrightarrow> k \<notin> ce_key ` set (entries m)"
proof (cases "mc_items m k")
  case (Some a)
  assume "cache_ok m"
  from items_iff[OF this, THEN iffD1, OF Some] Some show ?thesis by (auto simp: entries_def)
next
  case None
  assume "cache_ok m"
  from items_iff[OF this, of k] None show ?thesis by (auto simp: entries_def)
qed

lemma key_inj:
  assumes "cache_ok m" "a \<in> set (mc_ll m)" "b \<in> set (mc_ll m)" "ce_key (elem_at m a) = ce_key (elem_at m b)"
  shows "a = b"
proof -
  have "mc_items m (ce_key (elem_at m b)) = Some a" using assms by (simp add: items_iff)
  moreover have "mc_items m (ce_key (elem_at m b)) = Some b" using assms by (simp add: items_iff)
  ultimately show ?thesis by simp
qed

lemma entries_distinct: "cache_ok m \<Longrightarrow> distinct (map ce_key (entries m))"
  using cache_okD(1)[of m] by (auto simp: entries_def distinct_map intro!: inj_onI dest: key_inj)

lemma lru_find_entries:
  assumes "cache_ok m"
  shows "lru_find k (entries m) = map_option (elem_at m) (mc_items m k)"
proof (cases "mc_items m k")
  case None
  hence "k \<notin> ce_key ` set (entries m)" using items_none[OF assms] by simp
  thus ?thesis using None by (auto simp: lru_find_def find_None_iff)
next
  case (Some a)
  hence a: "a \<in> set (mc_ll m)" "ce_key (elem_at m a) = k" using items_iff[OF assms] by blast+
  have "lru_find k (entries m) \<noteq> None"
    using a unfolding lru_find_def entries_def find_None_iff by force
  then obtain e where e: "lru_find k (entries m) = Some e" by blast
  then obtain b where b: "b \<in> set (mc_ll m)" "e = elem_at m b" "ce_key e = k"
    by (auto simp: lru_find_def entries_def dest!: find_SomeD)
  have "b = a" using key_inj[OF assms b(1) a(1)] b(2,3) a(2) by simp
  thus ?thesis using e b(2) Some by simp
qed

lemma without_entries:
  assumes "cache_ok m" "mc_items m k = Some a"
  shows "lru_without k (entries m) = map (elem_at m) (removeAll a (mc_ll m))"
proof -
  have a: "a \<in> set (mc_ll m)" "ce_key (elem_at m a) = k" using assms items_iff by blast+
  have "filter (\<lambda>b. ce_key (elem_at m b) \<noteq> k) (mc_ll m) = filter ((\<noteq>) a) (mc_ll m)"
    by (rule filter_cong) (use key_inj[OF assms(1) _ a(1)] a(2) in auto)
  thus ?thesis by (simp add: lru_without_def entries_def filter_map removeAll_filter_not_eq o_def)
qed

lemma without_absent: "cache_ok m \<Longrightarrow> mc_items m k = None \<Longrightarrow> lru_without k (entries m) = entries m"
  unfolding lru_without_def items_none by (rule filter_True) blast

text \<open>Changing the order, dropping an element: what is left to show of the invariant.\<close>

lemma cache_okI:
  assumes "distinct (mc_ll m)" "\<And>a. a \<in> set (mc_ll m) \<Longrightarrow> mc_elems m a \<noteq> None \<and> a < mc_next m"
    "\<And>k a. mc_items m k = Some a \<longleftrightarrow> a \<in> set (mc_ll m) \<and> ce_key (elem_at m a) = k"
    "1 \<le> mc_cap m" "int (length (mc_ll m)) \<le> mc_cap m"
  shows "cache_ok m"
  using assms unfolding cache_ok_def by blast

lemma elem_at_upd [simp]:
  "elem_at (m\<lparr>mc_ll := l, mc_items := i\<rparr>) = elem_at m" "elem_at (m\<lparr>mc_ll := l\<rparr>) = elem_at m"
  "elem_at (m\<lparr>mc_items := i\<rparr>) = elem_at m"
  by (simp_all add: elem_at_def fun_eq_iff)

lemma remove_length: "distinct xs \<Longrightarrow> a \<in> set xs \<Longrightarrow> Suc (length (removeAll a xs)) = length xs"
  by (induction xs) auto

lemma cache_get_refines:
  assumes "cache_ok m"
  shows "fst (cache_get now k m) = fst (lru_get now k (entries m)) \<and>
     entries (snd (cache_get now k m)) = snd (lru_get now k (entries m)) \<and> cache_ok (snd (cache_get now k m)) \<and>
     mc_cap (snd (cache_get now k m)) = mc_cap m \<and> mc_ttl (snd (cache_get now k m)) = mc_ttl m"
proof (cases "mc_items m k")
  case None
  thus ?thesis using assms by (simp add: cache_get_def lru_get_def lru_find_entries)
next
  case (Some a)
  have a: "a \<in> set (mc_ll m)" "ce_key (elem_at m a) = k" using assms Some unfolding cache_ok_def by blast+
  have d: "distinct (mc_ll m)" using assms by (simp add: cache_ok_def)
  note l = remove_length[OF d a(1)]
  show ?thesis
  proof (cases "expired now (elem_at m a)")
    case True
    let ?m = "(ll_remove a m)\<lparr>mc_items := (mc_items m)(k := None)\<rparr>"
    have g: "cache_get now k m = (None, ?m)" using Some True by (simp add: cache_get_def Let_def)
    have "entries ?m = lru_without k (entries m)"
      using without_entries[OF assms Some] by (simp add: entries_def ll_remove_def)
    moreover have "cache_ok ?m"
    proof (rule cache_okI)
      fix k' b
      show "mc_items ?m k' = Some b \<longleftrightarrow> b \<in> set (mc_ll ?m) \<and> ce_key (elem_at ?m b) = k'"
        using key_inj[OF assms _ a(1), of b] a(2) items_iff[OF assms, of k' b] by (auto simp: ll_remove_def)
    qed (use cache_okD[OF assms] l in \<open>simp_all add: ll_remove_def distinct_removeAll\<close>)
    ultimately show ?thesis using Some True by (simp add: g lru_get_def lru_find_entries[OF assms] ll_remove_def)
  next
    case False
    let ?m = "ll_move_to_front a m"
    have g: "cache_get now k m = (Some (ce_val (elem_at m a)), ?m)"
      using Some False by (simp add: cache_get_def Let_def)
    have "entries ?m = elem_at m a # lru_without k (entries m)"
      using without_entries[OF assms Some] by (simp add: entries_def ll_move_to_front_def)
    moreover have "cache_ok ?m"
    proof (rule cache_okI)
      fix k' b
      show "mc_items ?m k' = Some b \<longleftrightarrow> b \<in> set (mc_ll ?m) \<and> ce_key (elem_at ?m b) = k'"
        using items_iff[OF assms, of k' b] a(1) by (auto simp: ll_move_to_front_def)
    next
      fix b assume "b \<in> set (mc_ll ?m)"
      thus "mc_elems ?m b \<noteq> None \<and> b < mc_next ?m"
        using cache_okD(2)[OF assms, of b] a(1) by (auto simp: ll_move_to_front_def)
    qed (use cache_okD[OF assms] l in \<open>simp_all add: ll_move_to_front_def distinct_removeAll\<close>)
    ultimately show ?thesis using Some False
      by (simp add: g lru_get_def lru_find_entries[OF assms] ll_move_to_front_def)
  qed
qed


lemma take_butlast: "int (length xs) = n + 1 \<Longrightarrow> take (nat n) xs = butlast xs"
  unfolding butlast_conv_take by (rule arg_cong[where f = "\<lambda>k. take k xs"]) linarith

text \<open>Evicting the last element of a cache that has one element too many.\<close>

lemma evict_refines:
  assumes d: "distinct (mc_ll m)" and el: "\<And>a. a \<in> set (mc_ll m) \<Longrightarrow> mc_elems m a \<noteq> None \<and> a < mc_next m"
    and it: "\<And>k a. mc_items m k = Some a \<longleftrightarrow> a \<in> set (mc_ll m) \<and> ce_key (elem_at m a) = k"
    and c: "1 \<le> mc_cap m" "int (length (mc_ll m)) \<le> mc_cap m + 1"
  shows "cache_ok (evict m) \<and> entries (evict m) = take (nat (mc_cap m)) (entries m)"
proof (cases "mc_cap m < int (length (mc_ll m))")
  case False
  have "int (length (mc_ll m)) \<le> mc_cap m" using False by simp
  with d el it c(1) have "cache_ok m" by (rule cache_okI)
  moreover have "take (nat (mc_cap m)) (mc_ll m) = mc_ll m" using False by simp
  ultimately show ?thesis using False by (simp add: evict_def entries_def take_map)
next
  case True
  hence ne: "mc_ll m \<noteq> []" and len: "int (length (mc_ll m)) = mc_cap m + 1" using c by auto
  let ?a = "last (mc_ll m)"
  let ?m = "(ll_remove ?a m)\<lparr>mc_items := (mc_items m)(ce_key (elem_at m ?a) := None)\<rparr>"
  have e: "evict m = ?m" using True ne by (simp add: evict_def Let_def)
  have a: "?a \<in> set (mc_ll m)" using ne by simp
  have rm: "removeAll ?a (mc_ll m) = butlast (mc_ll m)"
    using d ne by (metis append_butlast_last_id distinct_butlast not_distinct_conv_prefix
        removeAll.simps removeAll_append removeAll_id append_Nil2)
  have inj: "b = ?a" if "b \<in> set (mc_ll m)" "ce_key (elem_at m b) = ce_key (elem_at m ?a)" for b
    using it[of "ce_key (elem_at m ?a)" b] it[of "ce_key (elem_at m ?a)" ?a] that a by simp
  have "cache_ok ?m"
  proof (rule cache_okI)
    fix k' b
    show "mc_items ?m k' = Some b \<longleftrightarrow> b \<in> set (mc_ll ?m) \<and> ce_key (elem_at ?m b) = k'"
      using inj[of b] it[of k' b] by (auto simp: ll_remove_def)
  qed (use d el c len in \<open>simp_all add: ll_remove_def rm distinct_butlast in_set_butlastD\<close>)
  moreover have "entries ?m = take (nat (mc_cap m)) (entries m)"
    using take_butlast[of "entries m" "mc_cap m"] len
    by (simp add: entries_def ll_remove_def rm map_butlast)
  ultimately show ?thesis using e by simp
qed

lemma cache_put_refines:
  assumes "cache_ok m"
  shows "cache_ok (cache_put now k r m) \<and>
     entries (cache_put now k r m) = lru_put (mc_cap m) (mc_ttl m) now k r (entries m) \<and>
     mc_cap (cache_put now k r m) = mc_cap m \<and> mc_ttl (cache_put now k r m) = mc_ttl m"
proof -
  let ?x = "if 0 < mc_ttl m then now + mc_ttl m else zero_time"
  have t: "mc_cap (evict n) = mc_cap n" "mc_ttl (evict n) = mc_ttl n" for n
    by (simp_all add: evict_def ll_remove_def Let_def)
  show ?thesis
  proof (cases "mc_items m k")
    case None
    let ?a = "mc_next m" and ?e = "\<lparr>ce_key = k, ce_val = r, ce_expires_at = ?x\<rparr>"
    let ?m = "m\<lparr>mc_next := ?a + 1, mc_elems := (mc_elems m)(?a \<mapsto> ?e), mc_ll := ?a # mc_ll m,
       mc_items := (mc_items m)(k \<mapsto> ?a)\<rparr>"
    have new: "?a \<notin> set (mc_ll m)" using cache_okD(2)[OF assms, of ?a] by auto
    have at: "elem_at ?m b = (if b = ?a then ?e else elem_at m b)" for b by (simp add: elem_at_def)
    have p: "cache_put now k r m = evict ?m" using None by (simp add: cache_put_def Let_def)
    have "cache_ok (evict ?m) \<and> entries (evict ?m) = take (nat (mc_cap ?m)) (entries ?m)"
    proof (rule evict_refines)
      fix k' b
      show "mc_items ?m k' = Some b \<longleftrightarrow> b \<in> set (mc_ll ?m) \<and> ce_key (elem_at ?m b) = k'"
        using items_iff[OF assms, of k' b] new None items_iff[OF assms, of k b] unfolding at by auto
    next
      fix b assume "b \<in> set (mc_ll ?m)"
      thus "mc_elems ?m b \<noteq> None \<and> b < mc_next ?m" using cache_okD(2)[OF assms, of b] by auto
    qed (use cache_okD[OF assms] new in simp_all)
    moreover have "entries ?m = ?e # entries m"
      using new unfolding entries_def at by (auto intro!: map_cong)
    ultimately show ?thesis using None
      by (simp add: p t lru_put_def without_absent[OF assms] zero_time_def)
  next
    case (Some a)
    have a: "a \<in> set (mc_ll m)" "ce_key (elem_at m a) = k" using items_iff[OF assms] Some by blast+
    let ?e = "(elem_at m a)\<lparr>ce_val := r, ce_expires_at := ?x\<rparr>"
    let ?m = "ll_move_to_front a (m\<lparr>mc_elems := (mc_elems m)(a \<mapsto> ?e)\<rparr>)"
    have at: "elem_at ?m b = (if b = a then ?e else elem_at m b)" for b
      by (simp add: elem_at_def ll_move_to_front_def)
    have p: "cache_put now k r m = ?m" using Some by (simp add: cache_put_def Let_def)
    note l = remove_length[OF cache_okD(1)[OF assms] a(1)]
    have "cache_ok ?m"
    proof (rule cache_okI)
      fix k' b
      show "mc_items ?m k' = Some b \<longleftrightarrow> b \<in> set (mc_ll ?m) \<and> ce_key (elem_at ?m b) = k'"
        using items_iff[OF assms, of k' b] a unfolding at by (auto simp: ll_move_to_front_def)
    next
      fix b assume "b \<in> set (mc_ll ?m)"
      thus "mc_elems ?m b \<noteq> None \<and> b < mc_next ?m"
        using cache_okD(2)[OF assms, of b] a(1) by (auto simp: ll_move_to_front_def)
    qed (use cache_okD[OF assms] l in \<open>simp_all add: ll_move_to_front_def distinct_removeAll\<close>)
    moreover have "entries ?m = ?e # lru_without k (entries m)"
    proof -
      have "map (elem_at ?m) (removeAll a (mc_ll m)) = map (elem_at m) (removeAll a (mc_ll m))"
        unfolding at by (rule map_cong) auto
      thus ?thesis using at[of a] without_entries[OF assms Some]
        by (simp add: entries_def ll_move_to_front_def)
    qed
    moreover have "?e = \<lparr>ce_key = k, ce_val = r, ce_expires_at = ?x\<rparr>" using a(2) by simp
    moreover have "length (lru_without k (entries m)) < nat (mc_cap m)"
      using without_entries[OF assms Some] l cache_okD(4)[OF assms] by simp
    ultimately show ?thesis by (simp add: p lru_put_def zero_time_def ll_move_to_front_def take_all)
  qed
qed

section \<open>The contract of a plan cache\<close>

text \<open>
  The \<open>PlanCache\<close> interface: what \<open>Get\<close> answers was put under that key, and an operation adds
  nothing but the entry put. An implementation may forget.
\<close>

locale plan_cache =
  fixes get :: "time \<Rightarrow> string \<Rightarrow> 'c \<Rightarrow> plan_result option \<times> 'c"
    and put :: "time \<Rightarrow> string \<Rightarrow> plan_result \<Rightarrow> 'c \<Rightarrow> 'c"
    and ok :: "'c \<Rightarrow> bool"
    and has :: "'c \<Rightarrow> string \<Rightarrow> plan_result \<Rightarrow> bool"
  assumes get_ok: "ok c \<Longrightarrow> ok (snd (get t k c))"
    and put_ok: "ok c \<Longrightarrow> ok (put t k r c)"
    and get_hit: "ok c \<Longrightarrow> fst (get t k c) = Some r \<Longrightarrow> has c k r"
    and get_keeps: "ok c \<Longrightarrow> has (snd (get t k c)) k' r \<Longrightarrow> has c k' r"
    and put_adds: "ok c \<Longrightarrow> has (put t k r c) k' r' \<Longrightarrow> k' = k \<and> r' = r \<or> has c k' r'"
begin

text \<open>Every entry is what the base planner answers to every request with that key.\<close>

definition faithful :: "(plan_request \<Rightarrow> string) \<Rightarrow> planner \<Rightarrow> 'c \<Rightarrow> bool" where
  "faithful key base c \<longleftrightarrow> ok c \<and> (\<forall>k r. has c k r \<longrightarrow> (\<forall>req. key req = k \<longrightarrow> base req = Inr r))"

definition determines :: "(plan_request \<Rightarrow> string) \<Rightarrow> planner \<Rightarrow> bool" where
  "determines key base \<longleftrightarrow> (\<forall>q q'. key q = key q' \<longrightarrow> base q = base q')"

lemma caching_faithful:
  assumes d: "determines key base" and f: "faithful key base c"
    and g: "caching_generate (get t) (put t) key base req c = (res, c', ev)"
  shows "res = base req \<and> faithful key base c'"
proof (cases "get t (key req) c")
  case (Pair o' c1)
  have c1: "faithful key base c1"
    using f get_ok[of c t "key req"] get_keeps[of c t "key req"] Pair unfolding faithful_def by (metis snd_conv)
  show ?thesis
  proof (cases o')
    case (Some r)
    have "has c (key req) r" using get_hit[of c t "key req" r] f Pair Some by (simp add: faithful_def)
    with f have "base req = Inr r" by (auto simp: faithful_def)
    with g c1 Pair Some show ?thesis by (simp add: caching_generate_def)
  next
    case None
    show ?thesis
    proof (cases "base req")
      case (Inl err)
      with g c1 Pair None show ?thesis by (simp add: caching_generate_def)
    next
      case (Inr r)
      have "faithful key base (put t (key req) r c1)"
        using c1 put_ok[of c1] d Inr unfolding faithful_def determines_def
        by (metis put_adds)
      with g Pair None Inr show ?thesis by (simp add: caching_generate_def)
    qed
  qed
qed

end

definition cache_has :: "memory_cache \<Rightarrow> string \<Rightarrow> plan_result \<Rightarrow> bool" where
  "cache_has m k r \<longleftrightarrow> (\<exists>e \<in> set (entries m). ce_key e = k \<and> ce_val e = r)"

lemma lru_find_in: "lru_find k xs = Some e \<Longrightarrow> e \<in> set xs \<and> ce_key e = k"
  by (auto simp: lru_find_def dest: find_SomeD)

lemma lru_get_hit: "fst (lru_get t k xs) = Some r \<Longrightarrow> \<exists>e \<in> set xs. ce_key e = k \<and> ce_val e = r"
  by (auto simp: lru_get_def split: option.splits if_splits dest: lru_find_in)

lemma lru_get_subset: "set (snd (lru_get t k xs)) \<subseteq> set xs"
  by (auto simp: lru_get_def lru_without_def split: option.splits if_splits dest: lru_find_in)

lemma lru_put_subset:
  "e \<in> set (lru_put c l t k r xs) \<Longrightarrow> (ce_key e = k \<and> ce_val e = r) \<or> e \<in> set xs"
  unfolding lru_put_def by (drule in_set_takeD) (auto simp: lru_without_def)

interpretation mc: plan_cache cache_get cache_put cache_ok cache_has
proof unfold_locales
  fix c :: memory_cache and t k r
  assume c: "cache_ok c"
  note g = cache_get_refines[OF c, of t k] and p = cache_put_refines[OF c, of t k r]
  show "cache_ok (snd (cache_get t k c))" using g by simp
  show "cache_ok (cache_put t k r c)" using p by simp
  show "cache_has c k r" if "fst (cache_get t k c) = Some r"
    using lru_get_hit[of t k "entries c" r] that g by (simp add: cache_has_def)
  show "cache_has c k' r" if "cache_has (snd (cache_get t k c)) k' r" for k'
    using that lru_get_subset[of t k "entries c"] g by (auto simp: cache_has_def)
  show "k' = k \<and> r' = r \<or> cache_has c k' r'" if "cache_has (cache_put t k r c) k' r'" for k' r'
    using that lru_put_subset[of _ "mc_cap c" "mc_ttl c" t k r "entries c"] p by (auto simp: cache_has_def)
qed

section \<open>Properties\<close>

text \<open>
  C10: \<open>MemoryCache\<close> refines an LRU list: read through its pointers as the list of its entries,
  most recently used first, \<open>Get\<close> and \<open>Put\<close> are exactly the specification's, and the cache stays
  well formed, without duplicate keys and within its capacity.
\<close>

theorem memory_cache_refines_lru:
  assumes "cache_ok m"
  shows "fst (cache_get now k m) = fst (lru_get now k (entries m)) \<and>
     entries (snd (cache_get now k m)) = snd (lru_get now k (entries m)) \<and>
     entries (cache_put now k r m) = lru_put (mc_cap m) (mc_ttl m) now k r (entries m) \<and>
     cache_ok (snd (cache_get now k m)) \<and> cache_ok (cache_put now k r m) \<and>
     distinct (map ce_key (entries m)) \<and> int (length (entries m)) \<le> mc_cap m"
  using cache_get_refines[OF assms, of now k] cache_put_refines[OF assms, of now k r]
    entries_distinct[OF assms] cache_okD(4)[OF assms]
  by (simp add: entries_def)

theorem memory_cache_refines_lru_witness:
  "entries (cache_put 5 ''k'' zero_result (new_memory_cache_ttl 2 10)) =
     lru_put 2 10 5 ''k'' zero_result []"
  using memory_cache_refines_lru[OF cache_ok_new[of 2 10], of 5 "''k''" zero_result]
  by (simp add: new_memory_cache_ttl_def entries_def)

text \<open>A run of requests, each at its time.\<close>

fun serve ::
  "(plan_request \<Rightarrow> string) \<Rightarrow> planner \<Rightarrow> (time \<times> plan_request) list \<Rightarrow> memory_cache \<Rightarrow>
   (go_error + plan_result) list" where
  "serve key base [] m = []"
| "serve key base ((t, req) # rest) m =
     (case caching_generate (cache_get t) (cache_put t) key base req m of
        (res, m', _) \<Rightarrow> res # serve key base rest m')"

lemma serve_faithful:
  "mc.determines key base \<Longrightarrow> mc.faithful key base m \<Longrightarrow> serve key base reqs m = map (base \<circ> snd) reqs"
proof (induction reqs arbitrary: m)
  case (Cons x reqs)
  obtain t req where x: "x = (t, req)" by force
  obtain res m' ev where g: "caching_generate (cache_get t) (cache_put t) key base req m = (res, m', ev)"
    by (cases "caching_generate (cache_get t) (cache_put t) key base req m") auto
  show ?case using mc.caching_faithful[OF Cons.prems g] Cons.IH[OF Cons.prems(1)] x g by simp
qed simp

text \<open>
  C21: caching is transparent: if requests with the same cache key get the same answer from the
  base planner, then whatever the capacity, the expiry and the times, a \<open>CachingPlanner\<close> over a
  fresh \<open>MemoryCache\<close> answers every request as the base planner would, errors included.
\<close>

theorem caching_planner_transparent:
  assumes "\<forall>q q'. cache_key enc name q = cache_key enc name q' \<longrightarrow> base q = base q'"
  shows "serve (cache_key enc name) base reqs (new_memory_cache_ttl capacity ttl) = map (base \<circ> snd) reqs"
proof (rule serve_faithful)
  show "mc.determines (cache_key enc name) base" unfolding mc.determines_def by (rule assms)
  show "mc.faithful (cache_key enc name) base (new_memory_cache_ttl capacity ttl)"
  proof -
    have "entries (new_memory_cache_ttl capacity ttl) = []" by (simp add: entries_def new_memory_cache_ttl_def)
    thus ?thesis by (simp add: mc.faithful_def cache_ok_new cache_has_def)
  qed
qed


definition sample_encoders :: encoders where
  "sample_encoders =
     \<lparr>enc_snapshot = (\<lambda>s. if sn_domain s = '''' then ''0'' else ''1''), enc_payload = (\<lambda>_. ''{}''),
      enc_keys = (\<lambda>_. ''[]''), enc_hexsha = id\<rparr>"

definition fussy_planner :: planner where
  "fussy_planner q = (if g_domain (rq_goal q) = '''' then Inl (EText ''no domain'') else Inr zero_result)"

theorem caching_planner_transparent_witness:
  "serve (cache_key sample_encoders ''mock'') fussy_planner
     [(1, zero_request), (2, zero_request\<lparr>rq_goal := zero_goal\<lparr>g_domain := ''growth''\<rparr>\<rparr>), (3, zero_request)]
     (new_memory_cache_ttl 1 60) = [Inl (EText ''no domain''), Inr zero_result, Inl (EText ''no domain'')]"
proof -
  have "\<forall>q q'. cache_key sample_encoders ''mock'' q = cache_key sample_encoders ''mock'' q' \<longrightarrow>
      fussy_planner q = fussy_planner q'"
    by (auto simp: cache_key_def input_snapshot_id_def snapshot_of_def sample_encoders_def fussy_planner_def
        Let_def split: if_splits)
  note eq = caching_planner_transparent[OF this]
  show ?thesis unfolding eq
    by (simp add: fussy_planner_def zero_request_def zero_goal_def)
qed

section \<open>What the model sees and the key does not\<close>

text \<open>
  The fields that \<open>planUserPayload\<close> serialises for the model; \<open>json.MarshalIndent\<close> is an argument.
\<close>

record user_payload =
  up_objective :: string
  up_metric :: string
  up_target :: string
  up_context :: goal_context
  up_signal_note :: string
  up_signal_kind :: string
  up_signal_data :: payload
  up_current_plan :: "(string \<times> string) list"

definition user_payload_of :: "plan_request \<Rightarrow> user_payload" where
  "user_payload_of req =
     \<lparr>up_objective = g_objective (rq_goal req), up_metric = g_metric (rq_goal req),
      up_target = g_target (rq_goal req), up_context = g_context (rq_goal req),
      up_signal_note = rq_signal_note req, up_signal_kind = rq_signal_kind req,
      up_signal_data = rq_signal_payload req,
      up_current_plan = map (\<lambda>m. (m_key m, m_title m)) (rq_current_moves req)\<rparr>"

definition plan_user_payload :: "(user_payload \<Rightarrow> go_error + string) \<Rightarrow> plan_request \<Rightarrow> go_error + string" where
  "plan_user_payload marshal req =
     (case marshal (user_payload_of req) of
        Inl err \<Rightarrow> Inl (EWrap ''llm: marshal request'' err)
      | Inr b \<Rightarrow> Inr b)"

text \<open>
  The cache key misses inputs the model reads: whatever the encoders, two requests that
  differ in the kind of the signal or in the titles of the current moves have the same key, but
  are serialised differently for the model.
\<close>

lemma cache_key_omits_inputs:
  "(let q = zero_request\<lparr>rq_signal_kind := ''earnings''\<rparr>; q' = zero_request\<lparr>rq_signal_kind := ''thesis_break''\<rparr>
    in cache_key enc name q = cache_key enc name q' \<and> user_payload_of q \<noteq> user_payload_of q') \<and>
   (let q = zero_request\<lparr>rq_current_moves := [zero_move\<lparr>m_key := ''k'', m_title := ''a''\<rparr>]\<rparr>;
        q' = zero_request\<lparr>rq_current_moves := [zero_move\<lparr>m_key := ''k'', m_title := ''b''\<rparr>]\<rparr>
    in cache_key enc name q = cache_key enc name q' \<and> user_payload_of q \<noteq> user_payload_of q')"
  by (simp add: cache_key_def user_payload_of_def zero_request_def zero_move_def Let_def)

end
