(* ===== verification/Llm_Multi.thy ===== *)
theory Llm_Multi
  imports Llm_Plan
begin

text \<open>
  The composite planners of \<open>internal/llm\<close>: \<open>multi.go\<close> (verify, route, ensemble),
  \<open>router.go\<close> (per-domain dispatch), \<open>guided.go\<close> (prompt guidance) and \<open>comparator.go\<close> (the
  reviewer of competing candidates). A composite asks each of its planners at most once per
  decision, so a planner is a function of the request.
\<close>

section \<open>Planners with a name\<close>

record named_planner =
  np_name :: string
  np_generate :: planner

record plan_verifier =
  vr_name :: string
  vr_verify :: "goal \<Rightarrow> plan_result \<Rightarrow> go_error + verdict \<times> model_invocation"

definition contrib_of :: "plan_result \<Rightarrow> string \<Rightarrow> model_contribution" where
  "contrib_of res role =
     \<lparr>mc_planner = pr_planner (rs_provenance res), mc_model = pr_model (rs_provenance res), mc_role = role,
      mc_prompt_tokens = mi_prompt_tokens (rs_invocation res),
      mc_completion_tokens = mi_completion_tokens (rs_invocation res)\<rparr>"

definition top_confidence :: "plan_result \<Rightarrow> f64" where
  "top_confidence res = (case rs_ranked_moves res of [] \<Rightarrow> 0 | m # _ \<Rightarrow> m_confidence m)"

definition compose_notes :: "string \<Rightarrow> string list \<Rightarrow> string" where
  "compose_notes overall issues =
     (if issues = [] then overall
      else let joined = join_issues issues
           in if overall = '''' then joined else overall @ '' | '' @ joined)"

definition set_provenance :: "(provenance \<Rightarrow> provenance) \<Rightarrow> plan_result \<Rightarrow> plan_result" where
  "set_provenance f res = res\<lparr>rs_provenance := f (rs_provenance res)\<rparr>"

section \<open>Verify\<close>

definition verify_generate :: "planner \<Rightarrow> plan_verifier \<Rightarrow> planner" where
  "verify_generate proposer verifier req =
     (case proposer req of
        Inl err \<Rightarrow> Inl err
      | Inr res0 \<Rightarrow>
          let contrib = contrib_of res0 ''proposer'';
              res = set_provenance (\<lambda>p. p\<lparr>pr_strategy := ''verify''\<rparr>) res0
          in (case vr_verify verifier (rq_goal req) res of
                Inl verr \<Rightarrow>
                  Inr (set_provenance
                         (\<lambda>p. p\<lparr>pr_notes := ''verification skipped: '' @ error_text verr,
                                pr_contributors := [contrib]\<rparr>) res)
              | Inr (verdict, vinv) \<Rightarrow>
                  let original = rs_ranked_moves res;
                      (res1, issues) = apply_verdict res verdict;
                      (res2, issues2) =
                        (if rs_ranked_moves res1 = []
                         then (res1\<lparr>rs_ranked_moves := original\<rparr>,
                               issues @ [''verifier rejected all moves; kept the original proposal''])
                         else (res1, issues))
                  in Inr (set_provenance
                       (\<lambda>p. p\<lparr>pr_notes := compose_notes (ve_overall_note verdict) issues2,
                              pr_contributors :=
                                [contrib,
                                 \<lparr>mc_planner = vr_name verifier, mc_model = mi_model vinv, mc_role = ''verifier'',
                                  mc_prompt_tokens = mi_prompt_tokens vinv,
                                  mc_completion_tokens = mi_completion_tokens vinv\<rparr>]\<rparr>) res2)))"

section \<open>Route\<close>

definition annotate_route :: "plan_result \<Rightarrow> string \<Rightarrow> plan_result" where
  "annotate_route res note =
     (let res1 = set_provenance (\<lambda>p. p\<lparr>pr_strategy := ''route'', pr_notes := note\<rparr>) res
      in set_provenance (\<lambda>p. p\<lparr>pr_contributors := [contrib_of res1 ''router-selected'']\<rparr>) res1)"

record router_planner =
  ro_cheap :: planner
  ro_strong :: planner
  ro_threshold :: f64
  ro_escalate_on_signal :: bool

definition route_generate :: "router_planner \<Rightarrow> planner" where
  "route_generate p req =
     (if ro_escalate_on_signal p \<and> rq_signal_note req \<noteq> '''' then
        (case ro_strong p req of
           Inl err \<Rightarrow> Inl err
         | Inr res \<Rightarrow> Inr (annotate_route res ''routed to strong model: a new signal triggered re-planning''))
      else
        (case ro_cheap p req of
           Inl _ \<Rightarrow>
             (case ro_strong p req of
                Inl err \<Rightarrow> Inl err
              | Inr res \<Rightarrow> Inr (annotate_route res ''routed to strong model: cheap model failed''))
         | Inr res \<Rightarrow>
             if top_confidence res < ro_threshold p then
               (case ro_strong p req of
                  Inr strong_res \<Rightarrow>
                    Inr (annotate_route strong_res
                      (''escalated to strong model: top-move confidence '' @ fmt_fixed 2 (top_confidence res)
                        @ '' below threshold '' @ fmt_fixed 2 (ro_threshold p)))
                | Inl _ \<Rightarrow> Inr (annotate_route res ''kept cheap model: escalation attempt failed''))
             else Inr (annotate_route res ''handled by cheap model: confidence above threshold'')))"

section \<open>Ensemble\<close>

text \<open>The members that answered, and the last error.\<close>

definition member_results :: "(go_error + plan_result) list \<Rightarrow> plan_result list" where
  "member_results rs = concat (map (\<lambda>r. case r of Inl _ \<Rightarrow> [] | Inr x \<Rightarrow> [x]) rs)"

definition last_error :: "(go_error + plan_result) list \<Rightarrow> go_error option" where
  "last_error rs = foldl (\<lambda>l r. case r of Inl err \<Rightarrow> Some err | Inr _ \<Rightarrow> l) None rs"

definition wrap_last :: "string \<Rightarrow> go_error option \<Rightarrow> go_error" where
  "wrap_last pre e = (case e of Some err \<Rightarrow> EWrap pre err | None \<Rightarrow> EText pre)"

definition top_agrees :: "string \<Rightarrow> plan_result \<Rightarrow> bool" where
  "top_agrees title r = (case rs_ranked_moves r of [] \<Rightarrow> False | m # _ \<Rightarrow> m_title m = title)"

definition agreement_ratio :: "string \<Rightarrow> plan_result list \<Rightarrow> f64" where
  "agreement_ratio title rs = f64_of_int (int (length (filter (top_agrees title) rs))) / f64_of_int (int (length rs))"

definition ensemble_generate :: "unicode \<Rightarrow> planner list \<Rightarrow> planner" where
  "ensemble_generate u planners req =
     (if planners = [] then Inl (EText ''llm: ensemble has no planners'')
      else
        let results = map (\<lambda>pl. pl req) planners;
            oks = member_results results
        in case oks of
          [] \<Rightarrow> Inl (wrap_last ''llm: all ensemble members failed'' (last_error results))
        | primary # _ \<Rightarrow>
            (case rs_ranked_moves primary of
               [] \<Rightarrow> Inr primary
             | best # rest \<Rightarrow>
                 let title = m_title best;
                     agree = int (length (filter (top_agrees title) oks));
                     ratio = agreement_ratio title oks;
                     moves = best\<lparr>m_confidence := clamp_confidence (m_confidence best * ratio)\<rparr> # rest
                 in Inr (set_provenance
                      (\<lambda>p. p\<lparr>pr_strategy := ''ensemble'',
                             pr_notes := dec_int agree @ ''/'' @ dec_int (int (length oks))
                               @ '' models agreed on the top move '' @ uc_quote u title @ '' (agreement ''
                               @ fmt_fixed 0 (ratio * lit 100) @ ''%); top-move confidence scaled by agreement.'',
                             pr_contributors := map (\<lambda>r. contrib_of r ''ensemble-member'') oks\<rparr>)
                      (primary\<lparr>rs_ranked_moves := moves\<rparr>))))"

section \<open>Dispatch by domain, guidance and review\<close>

definition planner_router :: "planner \<Rightarrow> (string \<Rightarrow> planner option) \<Rightarrow> planner" where
  "planner_router def routes req =
     (case routes (g_domain (rq_goal req)) of
        Some p \<Rightarrow> if g_domain (rq_goal req) \<noteq> '''' then p req else def req
      | None \<Rightarrow> def req)"

record guided_config =
  gc_pack_id :: string
  gc_pack_version :: string
  gc_prompt_version :: string
  gc_prompt_template :: string

definition effective_system_prompt :: "string \<Rightarrow> string \<Rightarrow> string" where
  "effective_system_prompt base override = (if override = '''' then base else base @ [CHR 10, CHR 10] @ override)"

definition stamp_pack :: "guided_config \<Rightarrow> provenance \<Rightarrow> provenance" where
  "stamp_pack g p =
     (let p1 = p\<lparr>pr_pack_id := gc_pack_id g, pr_pack_version := gc_pack_version g\<rparr>
      in if gc_prompt_version g \<noteq> '''' then
           (if pr_prompt_version p1 \<noteq> ''''
            then p1\<lparr>pr_prompt_version := pr_prompt_version p1 @ ''+'' @ gc_prompt_version g\<rparr>
            else p1\<lparr>pr_prompt_version := gc_prompt_version g\<rparr>)
         else p1)"

definition guided_generate :: "planner \<Rightarrow> guided_config \<Rightarrow> planner" where
  "guided_generate base g req =
     (case base (req\<lparr>rq_system_prompt_override := gc_prompt_template g\<rparr>) of
        Inl err \<Rightarrow> Inl err
      | Inr res \<Rightarrow> Inr (set_provenance (stamp_pack g) res))"

record candidate_reviewer =
  cr_name :: string
  cr_review :: "goal \<Rightarrow> plan_result list \<Rightarrow> go_error + plan_result list \<times> model_contribution list"

fun review_loop ::
  "plan_verifier \<Rightarrow> goal \<Rightarrow> int \<Rightarrow> plan_result list \<Rightarrow> go_error + plan_result list \<times> model_contribution list" where
  "review_loop v g i [] = Inr ([], [])"
| "review_loop v g i (c # cs) =
     (case vr_verify v g c of
        Inl err \<Rightarrow> Inl (EWrap (''llm: comparator verify: candidate '' @ dec_int i) err)
      | Inr (verdict, vinv) \<Rightarrow>
          (case review_loop v g (i + 1) cs of
             Inl err \<Rightarrow> Inl err
           | Inr (out, contribs) \<Rightarrow>
               Inr (fst (apply_verdict c verdict) # out,
                    \<lparr>mc_planner = vr_name v, mc_model = mi_model vinv, mc_role = ''candidate-verifier'',
                     mc_prompt_tokens = mi_prompt_tokens vinv,
                     mc_completion_tokens = mi_completion_tokens vinv\<rparr> # contribs)))"

definition verify_reviewer :: "plan_verifier option \<Rightarrow> candidate_reviewer" where
  "verify_reviewer v =
     \<lparr>cr_name = ''verify'',
      cr_review = (\<lambda>g cands. case v of
          None \<Rightarrow> Inl (EText ''llm: comparator verify: no verifier-capable client configured'')
        | Some w \<Rightarrow> review_loop w g 0 cands)\<rparr>"

section \<open>Lemmas\<close>

definition fails :: "'e + 'a \<Rightarrow> bool" where
  "fails r \<longleftrightarrow> (\<exists>e. r = Inl e)"

lemma fails_simps [simp]: "fails (Inl e)" "\<not> fails (Inr x)"
  by (simp_all add: fails_def)

lemma fails_case [simp]:
  "fails (case r of Inl e \<Rightarrow> Inl (f e) | Inr x \<Rightarrow> Inr (g x)) = fails r"
  by (cases r) auto

lemma member_results_Nil: "member_results rs = [] \<longleftrightarrow> (\<forall>r \<in> set rs. fails r)"
  by (induction rs) (auto simp: member_results_def fails_def split: sum.splits)

lemma set_member_results: "x \<in> set (member_results rs) \<longleftrightarrow> Inr x \<in> set rs"
  by (induction rs) (auto simp: member_results_def split: sum.splits)

lemma verify_fails: "fails (verify_generate p v req) = fails (p req)"
  by (simp add: verify_generate_def Let_def split: sum.split prod.split)

lemma route_fails:
  "fails (route_generate p req) \<longleftrightarrow>
   fails (ro_strong p req) \<and> (ro_escalate_on_signal p \<and> rq_signal_note req \<noteq> '''' \<or> fails (ro_cheap p req))"
  by (auto simp: route_generate_def split: sum.splits)

lemma ensemble_fails: "fails (ensemble_generate u ps req) \<longleftrightarrow> (\<forall>p \<in> set ps. fails (p req))"
proof (cases "ps = []")
  case False
  show ?thesis
  proof (cases "member_results (map (\<lambda>pl. pl req) ps)")
    case Nil
    thus ?thesis using False member_results_Nil[of "map (\<lambda>pl. pl req) ps"]
      by (simp add: ensemble_generate_def Let_def)
  next
    case (Cons a as)
    hence "\<not> (\<forall>r \<in> set (map (\<lambda>pl. pl req) ps). fails r)"
      unfolding member_results_Nil[symmetric] by simp
    thus ?thesis using False Cons by (auto simp: ensemble_generate_def Let_def split: list.splits)
  qed
qed (simp add: ensemble_generate_def)

lemma apply_verdict_nonempty_or_original:
  "verify_generate p v req = Inr r \<Longrightarrow> p req = Inr r0 \<Longrightarrow> rs_ranked_moves r0 \<noteq> [] \<Longrightarrow> rs_ranked_moves r \<noteq> []"
  by (auto simp: verify_generate_def Let_def set_provenance_def split: sum.splits prod.splits if_splits)

lemma review_loop_all:
  "review_loop v g i cs = Inr (out, contribs) \<Longrightarrow>
   length out = length cs \<and> length contribs = length cs \<and>
   (\<forall>k < length cs. \<exists>ve inv. vr_verify v g (cs ! k) = Inr (ve, inv) \<and> out ! k = fst (apply_verdict (cs ! k) ve))"
proof (induction cs arbitrary: i out contribs)
  case (Cons c cs)
  then obtain ve inv out' contribs' where r: "vr_verify v g c = Inr (ve, inv)"
      "review_loop v g (i + 1) cs = Inr (out', contribs')" "out = fst (apply_verdict c ve) # out'"
      "length contribs = Suc (length contribs')"
    by (auto split: sum.splits prod.splits)
  show ?case
    using Cons.IH[OF r(2)] r by (auto simp: less_Suc_eq_0_disj)
qed simp

text \<open>Agreement never raises the confidence.\<close>

lemma f64_of_nat_pos: "n < 2 ^ 53 \<Longrightarrow> f64_of_int (int n) = Fin (of_nat n)"
  using rnd_of_int_small[of "int n"] by (simp add: f64_of_int_def)

lemma agreement_range:
  assumes "rs \<noteq> []" "length rs < 2 ^ 53"
  shows "Fin 0 \<le> agreement_ratio t rs" "agreement_ratio t rs \<le> Fin 1"
    "(\<forall>r \<in> set rs. top_agrees t r) \<Longrightarrow> agreement_ratio t rs = Fin 1"
proof -
  let ?a = "length (filter (top_agrees t) rs)" and ?n = "length rs"
  have le: "?a \<le> ?n" by simp
  have n: "(of_nat ?n :: rat) > 0" using assms(1) by simp
  have a53: "?a < 2 ^ 53" using le assms(2) by linarith
  have e: "agreement_ratio t rs = rnd (of_nat ?a / of_nat ?n)"
    unfolding agreement_ratio_def f64_of_nat_pos[OF a53] f64_of_nat_pos[OF assms(2)] using n by simp
  have "(of_nat ?a / of_nat ?n :: rat) \<le> 1" using n le by (simp add: divide_le_eq)
  from rnd_mono[OF this] show "agreement_ratio t rs \<le> Fin 1" by (simp add: e)
  show "Fin 0 \<le> agreement_ratio t rs" unfolding e by (rule rnd_nonneg) simp
  show "agreement_ratio t rs = Fin 1" if "\<forall>r \<in> set rs. top_agrees t r"
    using that n by (simp add: e)
qed


lemma scale_le:
  assumes "fwf c" "Fin 0 \<le> c" "c \<le> Fin 1" "Fin 0 \<le> q" "q \<le> Fin 1"
  shows "c * q \<le> c" "Fin 0 \<le> c * q"
proof -
  obtain a where a: "c = Fin a" "representable a" "0 \<le> a" using assms(1-3) by (cases c) auto
  obtain b where b: "q = Fin b" "0 \<le> b" "b \<le> 1" using assms(4,5) by (cases q) auto
  have "a * b \<le> a" using a b by (simp add: mult_left_le)
  from rnd_mono[OF this] show "c * q \<le> c" using a b by (simp add: rnd_representable)
  show "Fin 0 \<le> c * q" unfolding a b times_f64.simps by (rule rnd_nonneg) (use a b in simp)
qed

lemma clamp_id: "Fin 0 \<le> c \<Longrightarrow> c \<le> Fin 1 \<Longrightarrow> clamp_confidence c = c"
  by (cases c) (auto simp: clamp_confidence_def)

definition confident_result :: "plan_result \<Rightarrow> bool" where
  "confident_result r \<longleftrightarrow> (\<forall>m \<in> set (rs_ranked_moves r). confidence_wf (m_confidence m))"

section \<open>Properties\<close>

text \<open>
  A composite planner fails only when it has nothing left to answer with: the verifying
  planner exactly when its proposer fails (a failing or all-rejecting reviewer never costs the
  plan), the router exactly when the strong model fails and the cheap one was not asked or fails
  too, the ensemble exactly when every member fails.
\<close>

theorem composite_planner_failures:
  "fails (verify_generate p v req) = fails (p req) \<and>
   fails (route_generate rp req) =
     (fails (ro_strong rp req) \<and>
      (ro_escalate_on_signal rp \<and> rq_signal_note req \<noteq> '''' \<or> fails (ro_cheap rp req))) \<and>
   fails (ensemble_generate u ps req) = list_all (\<lambda>q. fails (q req)) ps"
  by (simp add: verify_fails route_fails ensemble_fails list_all_iff)

text \<open>
  An ensemble answers with the plan of its first member that answered, changed in one place:
  the confidence of the top move is scaled by the share of members that agree on its title. With
  confidences between 0 and 1 the result stays in that range, never exceeds the stated one, and
  equals it when all agree.
\<close>

theorem ensemble_scales_confidence:
  assumes "ensemble_generate u ps req = Inr r" "length ps < 2 ^ 53"
    "list_all (\<lambda>p. \<forall>x. p req = Inr x \<longrightarrow> confident_result x) ps"
  defines "oks \<equiv> member_results (map (\<lambda>p. p req) ps)"
  shows "oks \<noteq> [] \<and>
    (case rs_ranked_moves (hd oks) of
       [] \<Rightarrow> r = hd oks
     | m # ms \<Rightarrow> \<exists>c. rs_ranked_moves r = m\<lparr>m_confidence := c\<rparr> # ms \<and> Fin 0 \<le> c \<and> c \<le> m_confidence m \<and>
         (list_all (top_agrees (m_title m)) oks \<longrightarrow> c = m_confidence m))"
proof -
  have ps: "ps \<noteq> []" using assms(1) by (auto simp: ensemble_generate_def)
  have ne: "oks \<noteq> []"
    using assms(1) ps by (auto simp: ensemble_generate_def oks_def Let_def split: list.splits)
  then obtain pr rest where oks: "oks = pr # rest" by (cases oks) auto
  have len: "length oks < 2 ^ 53"
  proof -
    have "length (member_results rs) \<le> length rs" for rs
      by (induction rs) (auto simp: member_results_def split: sum.splits)
    from this[of "map (\<lambda>p. p req) ps"] assms(2) show ?thesis by (simp add: oks_def)
  qed
  show ?thesis
  proof (cases "rs_ranked_moves pr")
    case Nil
    thus ?thesis using assms(1) ps oks by (simp add: ensemble_generate_def oks_def[symmetric] Let_def)
  next
    case (Cons m ms)
    let ?q = "agreement_ratio (m_title m) oks"
    have mv: "rs_ranked_moves r = m\<lparr>m_confidence := clamp_confidence (m_confidence m * ?q)\<rparr> # ms"
      using assms(1) ps oks Cons
      by (auto simp: ensemble_generate_def oks_def[symmetric] Let_def set_provenance_def)
    have "pr \<in> set (member_results (map (\<lambda>p. p req) ps))" using oks by (simp add: oks_def)
    hence "Inr pr \<in> set (map (\<lambda>p. p req) ps)" unfolding set_member_results .
    hence "confident_result pr" using assms(3) by (auto simp: list_all_iff)
    hence c: "fwf (m_confidence m)" "Fin 0 \<le> m_confidence m" "m_confidence m \<le> Fin 1"
      using Cons by (simp_all add: confident_result_def confidence_wf_def)
    note q = agreement_range[OF ne len, of "m_title m"]
    note s = scale_le[OF c q(1,2)]
    have "m_confidence m * ?q \<le> Fin 1" using s(1) c(3) by (rule fle_trans)
    hence cl: "clamp_confidence (m_confidence m * ?q) = m_confidence m * ?q" using s(2) by (rule clamp_id[rotated])
    have "list_all (top_agrees (m_title m)) oks \<longrightarrow> m_confidence m * ?q = m_confidence m"
      using q(3) fmul_one[OF c(1)] by (auto simp: list_all_iff)
    with mv cl s oks Cons show ?thesis by auto
  qed
qed

definition plan_of :: "move list \<Rightarrow> planner" where
  "plan_of ms req = Inr (zero_result\<lparr>rs_ranked_moves := ms\<rparr>)"

theorem ensemble_scales_confidence_witness:
  "\<exists>r c. ensemble_generate ascii_unicode [plan_of [zero_move\<lparr>m_title := ''a'', m_confidence := 1\<rparr>],
       plan_of [zero_move\<lparr>m_title := ''b''\<rparr>]] zero_request = Inr r \<and>
     rs_ranked_moves r = [zero_move\<lparr>m_title := ''a'', m_confidence := c\<rparr>] \<and> Fin 0 \<le> c \<and> c \<le> Fin 1"
proof -
  let ?ps = "[plan_of [zero_move\<lparr>m_title := ''a'', m_confidence := 1\<rparr>], plan_of [zero_move\<lparr>m_title := ''b''\<rparr>]]"
  have "\<not> fails (ensemble_generate ascii_unicode ?ps zero_request)"
    by (simp add: ensemble_fails plan_of_def)
  then obtain r where r: "ensemble_generate ascii_unicode ?ps zero_request = Inr r"
    by (auto simp: fails_def) (metis obj_sumE)
  have c: "list_all (\<lambda>p. \<forall>x. p zero_request = Inr x \<longrightarrow> confident_result x) ?ps"
    by (auto simp: plan_of_def confident_result_def confidence_wf_def zero_move_def)
  from ensemble_scales_confidence[OF r _ c] r show ?thesis
    by (auto simp: member_results_def plan_of_def)
qed

end
