(* ===== verification/Market_Limiter.thy ===== *)
theory Market_Limiter
  imports Go_Base
begin

text \<open>
  The request limiter (\<open>internal/marketdata/ratelimit.go\<close>): its critical section, the refund of
  a cancelled wait, and the runs of concurrent waiters as a step relation. The clock read under
  the lock never goes back.
\<close>

section \<open>The limiter\<close>

record limiter =
  li_min_interval :: dur
  li_next :: time
  li_daily_cap :: int
  li_used :: int
  li_day :: time

definition new_limiter :: "dur \<Rightarrow> int \<Rightarrow> limiter" where
  "new_limiter min_interval daily_cap =
     \<lparr>li_min_interval = min_interval, li_next = zero_time, li_daily_cap = daily_cap, li_used = 0,
      li_day = zero_time\<rparr>"

text \<open>The window rollover, and the wait the pacing asks for.\<close>

definition roll_day :: "time \<Rightarrow> limiter \<Rightarrow> limiter" where
  "roll_day d l =
     (if 0 < li_daily_cap l \<and> d \<noteq> li_day l then l\<lparr>li_day := d, li_used := 0\<rparr> else l)"

definition pacing_wait :: "time \<Rightarrow> limiter \<Rightarrow> dur" where
  "pacing_wait now l = (if 0 < li_min_interval l \<and> now < li_next l then li_next l - now else 0)"

definition commit_request :: "time \<Rightarrow> limiter \<Rightarrow> limiter" where
  "commit_request now l =
     (let l1 = (if 0 < li_daily_cap l then l\<lparr>li_used := li_used l + 1\<rparr> else l)
      in if 0 < li_min_interval l1
         then (if now < li_next l1 then l1\<lparr>li_next := li_next l1 + li_min_interval l1\<rparr>
               else l1\<lparr>li_next := now + li_min_interval l1\<rparr>)
         else l1)"

definition budget_exhausted :: "int \<Rightarrow> go_error" where
  "budget_exhausted cap =
     EWrap (''marketdata: daily request budget ('' @ dec_int cap @ '') exhausted'') EMarketUnavailable"

fun past_deadline :: "time \<Rightarrow> dur \<Rightarrow> time option \<Rightarrow> bool" where
  "past_deadline now wait (Some dl) \<longleftrightarrow> 0 < wait \<and> dl < now + wait"
| "past_deadline now wait None \<longleftrightarrow> False"

text \<open>\<open>Wait\<close> up to the unlock: the error, or how long to wait.\<close>

definition limiter_wait :: "time \<Rightarrow> time option \<Rightarrow> limiter \<Rightarrow> (go_error + dur) \<times> limiter" where
  "limiter_wait now deadline l =
     (let l1 = roll_day (start_of_day now) l in
      if 0 < li_daily_cap l1 \<and> li_daily_cap l1 \<le> li_used l1
      then (Inl (budget_exhausted (li_daily_cap l1)), l1)
      else
        let wait = pacing_wait now l1 in
        if past_deadline now wait deadline then (Inl EDeadlineExceeded, l1)
        else (Inr wait, commit_request now l1))"

definition limiter_refund :: "time \<Rightarrow> limiter \<Rightarrow> limiter" where
  "limiter_refund charge_day l =
     (let l1 = (if 0 < li_min_interval l then l\<lparr>li_next := li_next l - li_min_interval l\<rparr> else l)
      in if 0 < li_daily_cap l1 \<and> 0 < li_used l1 \<and> li_day l1 = charge_day
         then l1\<lparr>li_used := li_used l1 - 1\<rparr> else l1)"

section \<open>Concurrent waiters\<close>

text \<open>
  A reservation is the instant its request may start and the day it was charged to. \<open>lw_waiting\<close>
  are the goroutines inside their timer, \<open>lw_sent\<close> those whose request started,
  \<open>lw_cancelled\<close> whether any wait was cancelled.
\<close>

type_synonym reservation = "time \<times> time"

record limiter_sys =
  lw_l :: limiter
  lw_now :: time
  lw_waiting :: "reservation list"
  lw_sent :: "reservation list"
  lw_cancelled :: bool

definition limiter_init :: "dur \<Rightarrow> int \<Rightarrow> limiter_sys" where
  "limiter_init iv cap =
     \<lparr>lw_l = new_limiter iv cap, lw_now = 0, lw_waiting = [], lw_sent = [], lw_cancelled = False\<rparr>"

definition call_wait :: "time \<Rightarrow> time option \<Rightarrow> limiter_sys \<Rightarrow> limiter_sys" where
  "call_wait now deadline w =
     (case limiter_wait now deadline (lw_l w) of
        (Inl _, l) \<Rightarrow> w\<lparr>lw_l := l, lw_now := now\<rparr>
      | (Inr wait, l) \<Rightarrow>
          let r = (now + wait, start_of_day now) in
          if wait \<le> 0 then w\<lparr>lw_l := l, lw_now := now, lw_sent := r # lw_sent w\<rparr>
          else w\<lparr>lw_l := l, lw_now := now, lw_waiting := r # lw_waiting w\<rparr>)"

definition timer_fires :: "reservation \<Rightarrow> limiter_sys \<Rightarrow> limiter_sys" where
  "timer_fires r w = w\<lparr>lw_waiting := remove1 r (lw_waiting w), lw_sent := r # lw_sent w\<rparr>"

definition context_done :: "reservation \<Rightarrow> limiter_sys \<Rightarrow> limiter_sys" where
  "context_done r w =
     w\<lparr>lw_waiting := remove1 r (lw_waiting w), lw_l := limiter_refund (snd r) (lw_l w), lw_cancelled := True\<rparr>"

inductive limiter_reach :: "dur \<Rightarrow> int \<Rightarrow> limiter_sys \<Rightarrow> bool" for iv cap where
  lim_init: "limiter_reach iv cap (limiter_init iv cap)"
| lim_call: "limiter_reach iv cap w \<Longrightarrow> lw_now w \<le> now \<Longrightarrow> limiter_reach iv cap (call_wait now dl w)"
| lim_fire: "limiter_reach iv cap w \<Longrightarrow> r \<in> set (lw_waiting w) \<Longrightarrow> limiter_reach iv cap (timer_fires r w)"
| lim_cancel: "limiter_reach iv cap w \<Longrightarrow> r \<in> set (lw_waiting w) \<Longrightarrow> limiter_reach iv cap (context_done r w)"

section \<open>The invariants\<close>

text \<open>The requests charged to a day: those sent and those waiting.\<close>

definition charged :: "limiter_sys \<Rightarrow> time \<Rightarrow> nat" where
  "charged w d = length (filter (\<lambda>r. snd r = d) (lw_sent w)) + length (filter (\<lambda>r. snd r = d) (lw_waiting w))"

definition budget_ok :: "int \<Rightarrow> limiter_sys \<Rightarrow> bool" where
  "budget_ok cap w \<longleftrightarrow>
     li_daily_cap (lw_l w) = cap \<and>
     (0 < cap \<longrightarrow> int (charged w (li_day (lw_l w))) = li_used (lw_l w) \<and> (\<forall>d. int (charged w d) \<le> cap) \<and>
        (\<forall>d > li_day (lw_l w). charged w d = 0) \<and> li_day (lw_l w) \<le> start_of_day (lw_now w))"

definition pacing_ok :: "dur \<Rightarrow> limiter_sys \<Rightarrow> bool" where
  "pacing_ok iv w \<longleftrightarrow>
     li_min_interval (lw_l w) = iv \<and>
     (0 < iv \<longrightarrow> \<not> lw_cancelled w \<longrightarrow>
        (\<forall>r \<in> set (lw_sent w @ lw_waiting w). fst r + iv \<le> li_next (lw_l w)) \<and>
        (\<exists>xs. mset xs = mset (map fst (lw_sent w @ lw_waiting w)) \<and> sorted_wrt (\<lambda>a b. a + iv \<le> b) xs))"

lemma filter_remove1:
  "r \<in> set xs \<Longrightarrow> length (filter P (remove1 r xs)) + (if P r then 1 else 0) = length (filter P xs)"
  by (induction xs) auto

lemma charged_fire: "r \<in> set (lw_waiting w) \<Longrightarrow> charged (timer_fires r w) d = charged w d"
  using filter_remove1[of r "lw_waiting w" "\<lambda>r. snd r = d"] by (auto simp: charged_def timer_fires_def)

lemma charged_cancel:
  "r \<in> set (lw_waiting w) \<Longrightarrow> charged (context_done r w) d + (if snd r = d then 1 else 0) = charged w d"
  using filter_remove1[of r "lw_waiting w" "\<lambda>r. snd r = d"] by (auto simp: charged_def context_done_def)

lemma wait_cases:
  assumes "limiter_wait now dl l = (res, l')"
  obtains (refused) e where "res = Inl e" "l' = roll_day (start_of_day now) l"
    | (granted) "res = Inr (pacing_wait now l)"
        "l' = commit_request now (roll_day (start_of_day now) l)"
        "0 < li_daily_cap l \<Longrightarrow> li_used (roll_day (start_of_day now) l) < li_daily_cap l"
proof -
  let ?l = "roll_day (start_of_day now) l"
  have p: "pacing_wait now ?l = pacing_wait now l" and c: "li_daily_cap ?l = li_daily_cap l"
    by (simp_all add: pacing_wait_def roll_day_def)
  consider (full) "0 < li_daily_cap ?l \<and> li_daily_cap ?l \<le> li_used ?l"
    | (late) "\<not> (0 < li_daily_cap ?l \<and> li_daily_cap ?l \<le> li_used ?l)"
        "past_deadline now (pacing_wait now ?l) dl"
    | (ok) "\<not> (0 < li_daily_cap ?l \<and> li_daily_cap ?l \<le> li_used ?l)"
        "\<not> past_deadline now (pacing_wait now ?l) dl" by blast
  thus thesis
  proof cases
    case full
    have "(res, l') = (Inl (budget_exhausted (li_daily_cap ?l)), ?l)"
      unfolding assms[symmetric] limiter_wait_def Let_def if_P[OF full] ..
    thus thesis by (intro refused) simp_all
  next
    case late
    have "(res, l') = (Inl EDeadlineExceeded, ?l)"
      unfolding assms[symmetric] limiter_wait_def Let_def if_not_P[OF late(1)] if_P[OF late(2)] ..
    thus thesis by (intro refused) simp_all
  next
    case ok
    have "(res, l') = (Inr (pacing_wait now ?l), commit_request now ?l)"
      unfolding assms[symmetric] limiter_wait_def Let_def if_not_P[OF ok(1)] if_not_P[OF ok(2)] ..
    thus thesis using ok(1) by (intro granted) (simp_all add: p c)
  qed
qed

lemma commit_simps [simp]:
  "li_daily_cap (commit_request now l) = li_daily_cap l" "li_day (commit_request now l) = li_day l"
  "li_min_interval (commit_request now l) = li_min_interval l"
  "li_used (commit_request now l) = (if 0 < li_daily_cap l then li_used l + 1 else li_used l)"
  by (simp_all add: commit_request_def Let_def)

lemma roll_simps [simp]:
  "li_daily_cap (roll_day d l) = li_daily_cap l" "li_min_interval (roll_day d l) = li_min_interval l"
  "li_next (roll_day d l) = li_next l"
  "0 < li_daily_cap l \<Longrightarrow> li_day (roll_day d l) = d"
  "0 < li_daily_cap l \<Longrightarrow> li_used (roll_day d l) = (if d = li_day l then li_used l else 0)"
  by (simp_all add: roll_day_def)

lemma charged_call:
  assumes "limiter_wait now dl (lw_l w) = (res, l')"
  shows "charged (call_wait now dl w) d =
     charged w d + (if (\<exists>x. res = Inr x) \<and> start_of_day now = d then 1 else 0)"
proof (cases res)
  case Inl
  thus ?thesis using assms by (simp add: call_wait_def charged_def)
next
  case (Inr x)
  thus ?thesis using assms by (cases "x \<le> 0") (simp_all add: call_wait_def charged_def Let_def)
qed

lemma budget_call:
  assumes b: "budget_ok cap w" and t: "lw_now w \<le> now"
  shows "budget_ok cap (call_wait now dl w)"
proof (cases "0 < cap")
  case False
  obtain res l' where r: "limiter_wait now dl (lw_l w) = (res, l')" by force
  have c: "li_daily_cap (lw_l w) = cap" using b by (simp add: budget_ok_def)
  from r have "li_daily_cap l' = cap" by (cases rule: wait_cases) (simp_all add: c)
  moreover have "lw_l (call_wait now dl w) = l'" using r by (cases res; simp add: call_wait_def Let_def)
  ultimately show ?thesis using False by (simp add: budget_ok_def)
next
  case True
  obtain res l' where r: "limiter_wait now dl (lw_l w) = (res, l')" by force
  let ?w = "call_wait now dl w" and ?d = "start_of_day now"
  have w: "lw_l ?w = l'" "lw_now ?w = now" using r by (cases res; simp add: call_wait_def Let_def)+
  note ch = charged_call[OF r]
  have c: "li_daily_cap (lw_l w) = cap" using b by (simp add: budget_ok_def)
  have le: "li_day (lw_l w) \<le> ?d" using b True start_of_day_mono[OF t] by (auto simp: budget_ok_def)
  from r have day: "li_day l' = ?d" by (cases rule: wait_cases) (simp_all add: c True)
  have before: "int (charged w ?d) = (if ?d = li_day (lw_l w) then li_used (lw_l w) else 0)"
    using b True le by (auto simp: budget_ok_def)
  have le_cap: "int (charged w d) \<le> cap" for d using b True by (simp add: budget_ok_def)
  have later: "charged w d = 0" if "?d < d" for d using b True le that by (auto simp: budget_ok_def)
  from r show ?thesis
  proof (cases rule: wait_cases)
    case (refused e)
    thus ?thesis using True c before le_cap later ch by (simp add: budget_ok_def w)
  next
    case granted
    have "li_used (roll_day ?d (lw_l w)) < cap" using granted(3) True c by simp
    hence "int (charged w ?d) < cap" using before True c by simp
    thus ?thesis using granted True c before le_cap later ch by (auto simp: budget_ok_def w)
  qed
qed

lemma budget_cancel:
  assumes "budget_ok cap w" "r \<in> set (lw_waiting w)"
  shows "budget_ok cap (context_done r w)"
proof -
  note ch = charged_cancel[OF assms(2)]
  have le: "charged (context_done r w) d \<le> charged w d" for d using ch[of d] by (simp split: if_splits)
  have l: "lw_l (context_done r w) = limiter_refund (snd r) (lw_l w)" "lw_now (context_done r w) = lw_now w"
    by (simp_all add: context_done_def)
  have f: "li_daily_cap (limiter_refund d' (lw_l w)) = li_daily_cap (lw_l w)"
      "li_day (limiter_refund d' (lw_l w)) = li_day (lw_l w)" for d'
    by (simp_all add: limiter_refund_def Let_def)
  show ?thesis
  proof (cases "0 < cap")
    case True
    have pos: "0 < charged w (snd r)" using ch[of "snd r"] by simp
    have u: "li_used (limiter_refund (snd r) (lw_l w)) =
        (if li_day (lw_l w) = snd r then li_used (lw_l w) - 1 else li_used (lw_l w))"
      using assms(1) True pos by (auto simp: limiter_refund_def Let_def budget_ok_def)
    have "int (charged (context_done r w) d) \<le> cap" for d
      using le[of d] assms(1) True by (auto simp: budget_ok_def intro: order_trans[of _ "int (charged w d)"])
    moreover have "charged (context_done r w) d = 0" if "li_day (lw_l w) < d" for d
      using le[of d] assms(1) True that by (simp add: budget_ok_def)
    ultimately show ?thesis using assms(1) True u ch[of "li_day (lw_l w)"]
      by (auto simp: budget_ok_def l f split: if_splits)
  qed (use assms(1) in \<open>simp add: budget_ok_def l f\<close>)
qed

lemma budget_reach: "limiter_reach iv cap w \<Longrightarrow> budget_ok cap w"
proof (induction rule: limiter_reach.induct)
  case lim_init
  show ?case by (simp add: budget_ok_def limiter_init_def new_limiter_def charged_def start_of_day_def zero_time_def)
next
  case (lim_fire w r)
  thus ?case by (simp add: budget_ok_def charged_fire[OF lim_fire.hyps(2)])
    (simp add: timer_fires_def)
qed (auto intro: budget_call budget_cancel)

lemma pacing_start: "pacing_wait now l = x \<Longrightarrow> 0 < li_min_interval l \<Longrightarrow>
  li_next l \<le> now + x \<and> li_next (commit_request now l) = now + x + li_min_interval l"
  by (auto simp: pacing_wait_def commit_request_def Let_def)

lemma pacing_call:
  assumes "pacing_ok iv w"
  shows "pacing_ok iv (call_wait now dl w)"
proof -
  obtain res l' where r: "limiter_wait now dl (lw_l w) = (res, l')" by force
  from r show ?thesis
  proof (cases rule: wait_cases)
    case (refused e)
    thus ?thesis using assms r by (simp add: call_wait_def pacing_ok_def)
  next
    case granted
    let ?x = "pacing_wait now (lw_l w)" and ?l = "roll_day (start_of_day now) (lw_l w)"
    let ?s = "now + ?x" and ?w = "call_wait now dl w"
    have x: "pacing_wait now ?l = ?x" by (simp add: pacing_wait_def)
    have iv: "li_min_interval (lw_l w) = iv" using assms by (simp add: pacing_ok_def)
    have w: "lw_l ?w = l'" "lw_cancelled ?w = lw_cancelled w"
      "mset (lw_sent ?w @ lw_waiting ?w) = add_mset (?s, start_of_day now) (mset (lw_sent w @ lw_waiting w))"
      using r granted(1) by (simp_all add: call_wait_def Let_def)
    have set: "set (lw_sent ?w @ lw_waiting ?w) = insert (?s, start_of_day now) (set (lw_sent w @ lw_waiting w))"
      using w(3) by (metis set_mset_add_mset_insert set_mset_mset)
    have "mset (map fst (lw_sent ?w @ lw_waiting ?w)) = add_mset ?s (mset (map fst (lw_sent w @ lw_waiting w)))"
      using w(3) by (metis image_mset_add_mset mset_map fst_conv)
    note ms = this
    show ?thesis
    proof (cases "0 < iv \<and> \<not> lw_cancelled w")
      case True
      have n: "li_next (lw_l w) \<le> ?s" "li_next l' = ?s + iv"
        using pacing_start[OF x] True iv granted(2) by simp_all
      obtain xs where xs: "mset xs = mset (map fst (lw_sent w @ lw_waiting w))" "sorted_wrt (\<lambda>a b. a + iv \<le> b) xs"
        using assms True by (auto simp: pacing_ok_def)
      have le: "fst r + iv \<le> li_next (lw_l w)" if "r \<in> set (lw_sent w @ lw_waiting w)" for r
        using assms True that by (auto simp: pacing_ok_def)
      have "a + iv \<le> ?s" if "a \<in> set xs" for a
      proof -
        have "a \<in> fst ` set (lw_sent w @ lw_waiting w)" using that xs(1) by (metis set_map set_mset_mset)
        thus ?thesis using le n(1) by fastforce
      qed
      hence "sorted_wrt (\<lambda>a b. a + iv \<le> b) (xs @ [?s])" using xs(2) by (simp add: sorted_wrt_append)
      moreover have "mset (xs @ [?s]) = mset (map fst (lw_sent ?w @ lw_waiting ?w))" using ms xs(1) by simp
      moreover have "\<forall>r \<in> set (lw_sent ?w @ lw_waiting ?w). fst r + iv \<le> li_next (lw_l ?w)"
        unfolding set w n(2)
      proof (rule ballI)
        fix r assume "r \<in> insert (?s, start_of_day now) (set (lw_sent w @ lw_waiting w))"
        thus "fst r + iv \<le> ?s + iv" using le[of r] n(1) True by (cases "r = (?s, start_of_day now)") auto
      qed
      moreover have "li_min_interval (lw_l ?w) = iv" using w granted(2) iv by simp
      ultimately show ?thesis unfolding pacing_ok_def by blast
    next
      case False
      thus ?thesis using iv w granted(2) by (auto simp: pacing_ok_def)
    qed
  qed
qed

lemma pacing_reach: "limiter_reach iv cap w \<Longrightarrow> pacing_ok iv w"
proof (induction rule: limiter_reach.induct)
  case lim_init
  show ?case by (auto simp: pacing_ok_def limiter_init_def new_limiter_def intro: exI[of _ "[]"])
next
  case (lim_fire w r)
  have "mset (lw_sent (timer_fires r w) @ lw_waiting (timer_fires r w)) = mset (lw_sent w @ lw_waiting w)"
    using lim_fire.hyps(2) by (simp add: timer_fires_def)
  hence m: "mset (map fst (lw_sent (timer_fires r w) @ lw_waiting (timer_fires r w))) =
      mset (map fst (lw_sent w @ lw_waiting w))"
    "set (lw_sent (timer_fires r w) @ lw_waiting (timer_fires r w)) = set (lw_sent w @ lw_waiting w)"
    by (metis mset_map, metis set_mset_mset)
  have "lw_l (timer_fires r w) = lw_l w" "lw_cancelled (timer_fires r w) = lw_cancelled w"
    by (simp_all add: timer_fires_def)
  thus ?case using lim_fire.IH unfolding pacing_ok_def m by simp
next
  case (lim_cancel w r)
  thus ?case by (simp add: pacing_ok_def context_done_def limiter_refund_def Let_def)
qed (rule pacing_call)

section \<open>The properties\<close>

lemma charged_sent_le: "length (filter (\<lambda>r. snd r = d) (lw_sent w)) \<le> charged w d"
  by (simp add: charged_def)

text \<open>
  C23: However concurrent callers interleave, and whichever waits are cancelled, no more requests
  than the daily budget are ever started against one day's budget; and as long as no wait is
  cancelled the reserved start times, in some order, are each at least the minimum interval apart.
\<close>

theorem limiter_keeps_budget_and_pacing:
  assumes "limiter_reach iv cap w"
  shows "(0 < cap \<longrightarrow> int (length (filter (\<lambda>r. snd r = d) (lw_sent w))) \<le> cap) \<and>
    (0 < iv \<and> \<not> lw_cancelled w \<longrightarrow>
      (\<exists>xs. mset xs = mset (map fst (lw_sent w @ lw_waiting w)) \<and> sorted_wrt (\<lambda>a b. a + iv \<le> b) xs))"
proof (intro conjI impI)
  assume "0 < cap"
  hence "int (charged w d) \<le> cap" using budget_reach[OF assms] by (simp add: budget_ok_def)
  thus "int (length (filter (\<lambda>r. snd r = d) (lw_sent w))) \<le> cap"
    using charged_sent_le[of d w] by linarith
next
  assume "0 < iv \<and> \<not> lw_cancelled w"
  thus "\<exists>xs. mset xs = mset (map fst (lw_sent w @ lw_waiting w)) \<and> sorted_wrt (\<lambda>a b. a + iv \<le> b) xs"
    using pacing_reach[OF assms] by (simp add: pacing_ok_def)
qed

definition limiter_run :: limiter_sys where
  "limiter_run = timer_fires (10, 0) (call_wait 1 None (call_wait 0 None (limiter_init 10 2)))"

lemma limiter_run_reach: "limiter_reach 10 2 limiter_run"
  unfolding limiter_run_def by (intro lim_fire lim_call lim_init) code_simp+

theorem limiter_keeps_budget_and_pacing_witness:
  "int (length (filter (\<lambda>r. snd r = 0) (lw_sent limiter_run))) \<le> 2 \<and>
   length (filter (\<lambda>r. snd r = 0) (lw_sent limiter_run)) = 2 \<and>
   (\<exists>xs. mset xs = mset (map fst (lw_sent limiter_run @ lw_waiting limiter_run)) \<and>
      sorted_wrt (\<lambda>a b. a + 10 \<le> b) xs)"
proof (intro conjI)
  show "int (length (filter (\<lambda>r. snd r = 0) (lw_sent limiter_run))) \<le> 2"
    using limiter_keeps_budget_and_pacing[OF limiter_run_reach] by simp
  show "length (filter (\<lambda>r. snd r = 0) (lw_sent limiter_run)) = 2" by code_simp
  have "\<not> lw_cancelled limiter_run" by code_simp
  thus "\<exists>xs. mset xs = mset (map fst (lw_sent limiter_run @ lw_waiting limiter_run)) \<and>
      sorted_wrt (\<lambda>a b. a + 10 \<le> b) xs"
    using limiter_keeps_budget_and_pacing[OF limiter_run_reach] by simp
qed

text \<open>
  A cancelled wait gives back the last slot, not its own: when a later caller has reserved behind
  it, the next caller is given the start time that caller already holds. The calls at 0, 1 and 1
  reserve 0, 10 and 20; cancelling the second, a call at 2 is given 20 again.
\<close>

lemma refund_doubles_a_slot:
  "\<exists>w. limiter_reach 10 0 w \<and> filter (\<lambda>r. fst r = 20) (lw_sent w) = [(20, 0), (20, 0)]"
proof -
  let ?w = "timer_fires (20, 0) (timer_fires (20, 0) (call_wait 2 None (context_done (10, 0)
    (call_wait 1 None (call_wait 1 None (call_wait 0 None (limiter_init 10 0)))))))"
  have "limiter_reach 10 0 ?w" by (intro lim_fire lim_cancel lim_call lim_init) code_simp+
  moreover have "filter (\<lambda>r. fst r = 20) (lw_sent ?w) = [(20, 0), (20, 0)]" by code_simp
  ultimately show ?thesis by blast
qed

end
