(* ===== verification/Risk_Budget.thy ===== *)
theory Risk_Budget
  imports Finance_Scoring
begin

text \<open>
  What the risk budget promises: from the configuration (\<open>config.go\<close>) through the strategy
  lens (\<open>strategy.go\<close>) and the goal's constraints (\<open>constraints.go\<close>) the caps are only
  tightened, and a stated drawdown limit binds.
\<close>

section \<open>Budgets are only tightened\<close>

text \<open>A cap that is set stays set and is not raised.\<close>

definition tightened :: "f64 \<Rightarrow> f64 \<Rightarrow> bool" where
  "tightened x y \<longleftrightarrow> (Fin 0 < x \<longrightarrow> Fin 0 < y \<and> y \<le> x)"

lemma tightened_refl [simp]: "tightened x x"
  by (cases x) (auto simp: tightened_def)

lemma tightened_trans: "tightened x y \<Longrightarrow> tightened y z \<Longrightarrow> tightened x z"
  by (auto simp: tightened_def intro: fle_trans)

text \<open>
  A cap of at least 2^-k stays well away from the subnormal numbers, where halving could round
  to zero, which reads as "not set".
\<close>

definition at_least :: "nat \<Rightarrow> f64 \<Rightarrow> bool" where
  "at_least k x \<longleftrightarrow> Fin (2 powi (- int k)) \<le> x"

lemma at_least_pos: "at_least k x \<Longrightarrow> Fin 0 < x"
  by (cases x) (auto simp: at_least_def intro: less_le_trans[OF powi2_pos])

lemma at_least_mono: "at_least j x \<Longrightarrow> j \<le> k \<Longrightarrow> at_least k x"
proof -
  assume a: "at_least j x" "j \<le> k"
  have "(2::rat) powi (- int k) \<le> 2 powi (- int j)" unfolding powi2_le_iff using a(2) by simp
  thus ?thesis using a(1) by (cases x) (auto simp: at_least_def)
qed

text \<open>Scaling a cap by a representable factor between 2^-j and 1.\<close>

lemma scale_cap:
  assumes x: "fwf x" "at_least k x" "x \<noteq> PInf" and f: "f = Fin r" "2 powi (- int j) \<le> r" "r \<le> 1" and n: "k + j \<le> 1022"
  shows "x * f \<le> x \<and> at_least (k + j) (x * f)"
proof -
  obtain a where a: "x = Fin a" "2 powi (- int k) \<le> a" using x(2,3) by (cases x) (auto simp: at_least_def)
  have pos: "0 < a" using a(2) powi2_pos[of "- int k"] by linarith
  have "a * r \<le> a" using pos f(3) by (simp add: mult_le_cancel_left1)
  hence "rnd (a * r) \<le> rnd a" by (rule rnd_mono)
  moreover have "rnd a = Fin a" using x(1) a(1) by (simp add: rnd_representable)
  moreover have "2 powi (- int (k + j)) = (2::rat) powi (- int k) * 2 powi (- int j)"
    by (simp add: powi2_mult)
  hence "2 powi (- int (k + j)) \<le> a * r"
    using a(2) f(2) pos by (simp add: mult_mono less_imp_le)
  hence "Fin (2 powi (- int (k + j))) \<le> rnd (a * r)" using rnd_mono rnd_powi2[OF n] by metis
  ultimately show ?thesis by (simp add: a f(1) at_least_def)
qed

lemma lit_half: "lit (1/2) = Fin (1/2)"
  using rnd_powi2[of 1] by (simp add: lit_def power_int_def)

text \<open>The caps of a budget, and how far down they may have come.\<close>

definition cap_ok :: "nat \<Rightarrow> f64 \<Rightarrow> bool" where
  "cap_ok k x \<longleftrightarrow> fwf x \<and> x \<noteq> PInf \<and> x \<noteq> NaN \<and> (Fin 0 < x \<longrightarrow> at_least k x)"

definition caps_ok :: "nat \<Rightarrow> risk_budget \<Rightarrow> bool" where
  "caps_ok k r \<longleftrightarrow> cap_ok k (rb_max_position_pct r) \<and> cap_ok k (rb_max_portfolio_risk_pct r) \<and>
     cap_ok k (rb_max_aggregate_risk_pct r)"

definition budget_tightened :: "risk_budget \<Rightarrow> risk_budget \<Rightarrow> bool" where
  "budget_tightened r r' \<longleftrightarrow>
     tightened (rb_max_position_pct r) (rb_max_position_pct r') \<and>
     tightened (rb_max_portfolio_risk_pct r) (rb_max_portfolio_risk_pct r') \<and>
     tightened (rb_max_aggregate_risk_pct r) (rb_max_aggregate_risk_pct r')"

lemma budget_tightened_refl [simp]: "budget_tightened r r"
  by (simp add: budget_tightened_def)

lemma budget_tightened_trans: "budget_tightened r s \<Longrightarrow> budget_tightened s t \<Longrightarrow> budget_tightened r t"
  unfolding budget_tightened_def using tightened_trans by blast

lemma cap_ok_mono: "cap_ok j x \<Longrightarrow> j \<le> k \<Longrightarrow> cap_ok k x"
  by (auto simp: cap_ok_def intro: at_least_mono)

lemma caps_ok_mono: "caps_ok j r \<Longrightarrow> j \<le> k \<Longrightarrow> caps_ok k r"
  by (auto simp: caps_ok_def intro: cap_ok_mono)

lemma cap_scale:
  assumes "cap_ok k x" "f = Fin r" "2 powi (- int j) \<le> r" "r \<le> 1" "k + j \<le> 1022"
  shows "tightened x (x * f) \<and> cap_ok (k + j) (x * f)"
proof (cases "Fin 0 < x")
  case True
  hence s: "x * f \<le> x \<and> at_least (k + j) (x * f)"
    using assms scale_cap[of x k f r j] by (auto simp: cap_ok_def)
  obtain a where "x = Fin a" using True assms(1) by (cases x) (auto simp: cap_ok_def)
  hence "fwf (x * f)" "x * f \<noteq> PInf" using s assms(2) by (auto dest: fle_not_NaN elim: less_eq_f64.elims)
  thus ?thesis using s at_least_pos by (auto simp: tightened_def cap_ok_def)
next
  case False
  have r: "0 < r" using assms(3) powi2_pos[of "- int j"] by linarith
  have "\<not> Fin 0 < x * f \<and> fwf (x * f) \<and> x * f \<noteq> PInf \<and> x * f \<noteq> NaN"
  proof (cases x)
    case (Fin a)
    hence "a * r \<le> 0" using False r by (simp add: mult_nonpos_nonneg less_imp_le)
    hence "rnd (a * r) \<le> Fin 0" using rnd_mono[of "a * r" 0] by simp
    thus ?thesis using Fin assms(2) by (cases "rnd (a * r)") (auto dest: rnd_Fin_representable)
  qed (use False assms(1,2) r in \<open>auto simp: cap_ok_def Let_def\<close>)
  thus ?thesis using False by (simp add: tightened_def cap_ok_def)
qed

text \<open>Replacing a cap by a smaller stated limit.\<close>

lemma lowered:
  assumes "Fin 0 < d"
  shows "tightened x (if feq x (Fin 0) \<or> d < x then d else x)"
    and "tightened x (if x \<le> Fin 0 \<or> d < x then d else x)"
  using assms by (cases x; cases d; auto simp: tightened_def)+

lemma lower_holds:
  assumes "x \<noteq> NaN" "Fin 0 < d" "d \<noteq> NaN"
  shows "Fin 0 < (if x \<le> Fin 0 \<or> d < x then d else x) \<and> (if x \<le> Fin 0 \<or> d < x then d else x) \<le> d"
  using assms by (cases x; cases d) auto

text \<open>A drawdown limit as \<open>EffectiveRiskBudget\<close> reads it; one that is not below a millionth.\<close>

definition stated_drawdown :: "unicode \<Rightarrow> constr \<Rightarrow> f64 option" where
  "stated_drawdown u c =
     (if uc_to_lower u (uc_trim_space u (co_kind c)) = ''drawdown_limit'' then
        (case constraint_percent c of Some dd \<Rightarrow> if dd \<le> Fin 0 \<or> Fin 1 \<le> dd then None else Some dd | None \<Rightarrow> None)
      else None)"

definition sane_drawdown :: "unicode \<Rightarrow> constr \<Rightarrow> bool" where
  "sane_drawdown u c \<longleftrightarrow> (case stated_drawdown u c of None \<Rightarrow> True | Some dd \<Rightarrow> at_least 20 dd)"

lemma stated_drawdown_bounds:
  assumes "stated_drawdown u c = Some dd"
  shows "fwf dd" "Fin 0 < dd" "dd < Fin 1"
proof -
  have c: "constraint_percent c = Some dd" "\<not> (dd \<le> Fin 0 \<or> Fin 1 \<le> dd)"
    using assms by (auto simp: stated_drawdown_def split: if_splits option.splits)
  obtain s where "parse_percent s = Some dd"
    using c(1) by (auto simp: constraint_percent_def split: option.splits)
  then obtain n where n: "dd = Fin n / lit 100"
    by (auto simp: parse_percent_def parse_decimal_def split: option.splits f64.splits) (metis)
  hence r: "dd = rnd (n / 100)" by (simp add: lit_100)
  thus "fwf dd" by simp
  have "dd \<noteq> NaN" by (simp add: r)
  thus "Fin 0 < dd" "dd < Fin 1" using c(2) fle_total[of dd "Fin 0"] fle_total[of "Fin 1" dd] by auto
qed

lemma drawdown_cap_ok:
  assumes "stated_drawdown u c = Some dd" "sane_drawdown u c" "20 \<le> k"
  shows "cap_ok k dd"
proof -
  note b = stated_drawdown_bounds[OF assms(1)]
  have "at_least k dd" using assms by (auto simp: sane_drawdown_def intro: at_least_mono)
  thus ?thesis using b by (auto simp: cap_ok_def)
qed

lemma lit_5: "lit 5 = Fin 5"
  using rnd_of_int_small[of 5] by (simp add: lit_def)

lemma per_trade_cap_ok:
  assumes "stated_drawdown u c = Some dd" "sane_drawdown u c" "23 \<le> k" "k \<le> 1022"
  shows "cap_ok k (dd / lit 5)" "Fin 0 < dd / lit 5"
proof -
  note b = stated_drawdown_bounds[OF assms(1)]
  obtain a where a: "dd = Fin a" "2 powi (- 20) \<le> a" "a < 1"
    using b assms(1,2) by (cases dd) (auto simp: sane_drawdown_def at_least_def)
  have "(2::rat) powi (- 23) \<le> 2 powi (- 20) / 5" by (simp add: power_int_def power_divide)
  hence "(2::rat) powi (- 23) \<le> a / 5" using a(2) by (simp add: divide_right_mono order_trans)
  hence "Fin (2 powi (- 23)) \<le> rnd (a / 5)" using rnd_mono rnd_powi2[of 23] by fastforce
  hence l: "at_least 23 (dd / lit 5)" by (simp add: at_least_def a(1) lit_5)
  have "rnd (a / 5) \<le> rnd 1" using a(3) by (intro rnd_mono) simp
  hence "dd / lit 5 \<noteq> PInf" by (auto simp: a(1) lit_5)
  moreover have "fwf (dd / lit 5)" by (simp add: a(1) lit_5)
  moreover have "dd / lit 5 \<noteq> NaN" by (simp add: a(1) lit_5)
  ultimately show "cap_ok k (dd / lit 5)" using at_least_mono[OF l assms(3)] by (simp add: cap_ok_def)
  show "Fin 0 < dd / lit 5" by (rule at_least_pos[OF l])
qed

lemma tighten_drawdown_ok:
  assumes b: "caps_ok k r" and d: "cap_ok k dd" "Fin 0 < dd" and p: "cap_ok k (dd / lit 5)" "Fin 0 < dd / lit 5"
  shows "budget_tightened r (tighten_drawdown dd r)" "caps_ok k (tighten_drawdown dd r)"
    "Fin 0 < rb_max_aggregate_risk_pct (tighten_drawdown dd r) \<and> rb_max_aggregate_risk_pct (tighten_drawdown dd r) \<le> dd"
proof -
  let ?r = "tighten_drawdown dd r"
  have e: "rb_max_position_pct ?r = (if feq (rb_max_position_pct r) 0 \<or> dd < rb_max_position_pct r then dd else rb_max_position_pct r)"
    "rb_max_portfolio_risk_pct ?r = (if feq (rb_max_portfolio_risk_pct r) 0 \<or> dd / lit 5 < rb_max_portfolio_risk_pct r
       then dd / lit 5 else rb_max_portfolio_risk_pct r)"
    "rb_max_aggregate_risk_pct ?r = (if rb_max_aggregate_risk_pct r \<le> 0 \<or> dd < rb_max_aggregate_risk_pct r then dd
       else rb_max_aggregate_risk_pct r)"
    by (simp_all add: tighten_drawdown_def Let_def)
  have c: "cap_ok k (rb_max_position_pct r)" "cap_ok k (rb_max_portfolio_risk_pct r)"
    "cap_ok k (rb_max_aggregate_risk_pct r)" using b by (simp_all add: caps_ok_def)
  show "budget_tightened r ?r"
    unfolding budget_tightened_def e fle_Fin using d(2) p(2) by (intro conjI lowered) simp_all
  show "caps_ok k ?r" using c d(1) p(1) by (simp add: caps_ok_def e)
  show "Fin 0 < rb_max_aggregate_risk_pct ?r \<and> rb_max_aggregate_risk_pct ?r \<le> dd"
    unfolding e(3) fle_Fin by (rule lower_holds) (use c(3) d in \<open>simp_all add: cap_ok_def\<close>)
qed

lemma halve_risk_ok:
  assumes "caps_ok k r" "k + 1 \<le> 1022"
  shows "budget_tightened r (halve_risk r)" "caps_ok (k + 1) (halve_risk r)"
proof -
  have "tightened (rb_max_position_pct r) (rb_max_position_pct r * lit (1/2)) \<and>
      cap_ok (k + 1) (rb_max_position_pct r * lit (1/2))"
    by (rule cap_scale[of k _ _ "1/2" 1]) (use assms in \<open>simp_all add: caps_ok_def lit_half power_int_def\<close>)
  thus "budget_tightened r (halve_risk r)" "caps_ok (k + 1) (halve_risk r)"
    using caps_ok_mono[OF assms(1), of "k + 1"] by (simp_all add: budget_tightened_def caps_ok_def halve_risk_def)
qed

lemma budget_step_drawdown:
  assumes "stated_drawdown u c = Some dd"
  shows "fst (budget_step u c st) = tighten_drawdown dd (fst st)"
  using assms
  by (cases st) (auto simp: stated_drawdown_def budget_step_def Let_def split: if_splits option.splits)

lemma budget_step_other:
  assumes "stated_drawdown u c = None"
  shows "fst (budget_step u c st) \<in> {fst st, halve_risk (fst st), loosen_kelly (fst st)}"
  using assms
  by (cases st) (auto simp: stated_drawdown_def budget_step_def Let_def split: if_splits option.splits)

lemma budget_step_ok:
  assumes b: "caps_ok k (fst st)" and s: "sane_drawdown u c" and k: "23 \<le> k" "k + 1 \<le> 1022"
  shows "budget_tightened (fst st) (fst (budget_step u c st)) \<and> caps_ok (k + 1) (fst (budget_step u c st)) \<and>
    (\<forall>dd. stated_drawdown u c = Some dd \<longrightarrow> Fin 0 < rb_max_aggregate_risk_pct (fst (budget_step u c st)) \<and>
       rb_max_aggregate_risk_pct (fst (budget_step u c st)) \<le> dd)"
proof (cases "stated_drawdown u c")
  case None
  have same: "caps_ok (k + 1) (fst st)" using b caps_ok_mono[of k _ "k + 1"] by simp
  have "budget_tightened (fst st) (loosen_kelly (fst st))" "caps_ok (k + 1) (loosen_kelly (fst st))"
    using same by (simp_all add: loosen_kelly_def budget_tightened_def caps_ok_def)
  thus ?thesis
    using None budget_step_other[OF None, of st] halve_risk_ok[OF b k(2)] same by auto
next
  case (Some dd)
  note d = drawdown_cap_ok[OF Some s, of k] stated_drawdown_bounds(2)[OF Some] per_trade_cap_ok[OF Some s k(1)]
  have "cap_ok k dd" "cap_ok k (dd / lit 5)" "Fin 0 < dd / lit 5" using d k by auto
  note t = tighten_drawdown_ok[OF b this(1) stated_drawdown_bounds(2)[OF Some] this(2,3)]
  thus ?thesis using caps_ok_mono[OF t(2), of "k + 1"] Some budget_step_drawdown[OF Some, of st] by simp
qed

lemma budget_loop_ok:
  assumes "caps_ok k (fst st)" "list_all (sane_drawdown u) cs" "23 \<le> k" "k + length cs \<le> 1022"
  shows "budget_tightened (fst st) (fst (foldl (\<lambda>st c. budget_step u c st) st cs)) \<and>
    (\<forall>c \<in> set cs. \<forall>dd. stated_drawdown u c = Some dd \<longrightarrow>
       Fin 0 < rb_max_aggregate_risk_pct (fst (foldl (\<lambda>st c. budget_step u c st) st cs)) \<and>
       rb_max_aggregate_risk_pct (fst (foldl (\<lambda>st c. budget_step u c st) st cs)) \<le> dd)"
  using assms
proof (induction cs arbitrary: k st)
  case (Cons c cs)
  let ?s = "budget_step u c st" and ?o = "fst (foldl (\<lambda>st c. budget_step u c st) (budget_step u c st) cs)"
  have s: "budget_tightened (fst st) (fst ?s)" "caps_ok (k + 1) (fst ?s)"
    "\<And>dd. stated_drawdown u c = Some dd \<Longrightarrow> Fin 0 < rb_max_aggregate_risk_pct (fst ?s) \<and>
       rb_max_aggregate_risk_pct (fst ?s) \<le> dd"
    using budget_step_ok[of k st u c] Cons.prems by auto
  have i: "budget_tightened (fst ?s) ?o"
    "\<forall>c \<in> set cs. \<forall>dd. stated_drawdown u c = Some dd \<longrightarrow>
       Fin 0 < rb_max_aggregate_risk_pct ?o \<and> rb_max_aggregate_risk_pct ?o \<le> dd"
    using Cons.IH[OF s(2)] Cons.prems by auto
  have "Fin 0 < rb_max_aggregate_risk_pct ?o \<and> rb_max_aggregate_risk_pct ?o \<le> dd"
    if "stated_drawdown u c = Some dd" for dd
    using s(3)[OF that] i(1) by (auto simp: budget_tightened_def tightened_def intro: fle_trans)
  thus ?case using budget_tightened_trans[OF s(1) i(1)] i(2) by simp
qed simp

definition sane_scale :: "risk_scale \<Rightarrow> bool" where
  "sane_scale k \<longleftrightarrow> (Fin 0 < rk_per_trade_risk k \<longrightarrow> at_least 20 (rk_per_trade_risk k)) \<and>
     (Fin 0 < rk_aggregate k \<longrightarrow> at_least 20 (rk_aggregate k))"

lemma lit_1: "lit 1 = Fin 1"
  by (simp add: lit_def)

lemma tighten_only_cases:
  assumes "Fin 0 < x \<longrightarrow> at_least 20 x" "tighten_only x < lit 1"
  obtains r where "tighten_only x = Fin r" "2 powi (- 20) \<le> r" "r \<le> 1"
  using assms by (cases x) (auto simp: tighten_only_def lit_1 at_least_def split: if_splits)

lemma strategy_apply_ok:
  assumes b: "caps_ok 20 (sg_risk (normalize_config cfg))" and s: "sane_scale (sp_risk_scale s)"
  shows "budget_tightened (sg_risk (normalize_config cfg)) (sg_risk (strategy_apply s cfg)) \<and>
    caps_ok 40 (sg_risk (strategy_apply s cfg))"
proof -
  let ?r = "sg_risk (normalize_config cfg)" and ?o = "sg_risk (strategy_apply s cfg)"
  let ?v = "tighten_only (rk_per_trade_risk (sp_risk_scale s))" and ?a = "tighten_only (rk_aggregate (sp_risk_scale s))"
  have e: "rb_max_position_pct ?o = (if ?v < lit 1 then rb_max_position_pct ?r * ?v else rb_max_position_pct ?r)"
    "rb_max_portfolio_risk_pct ?o = (if ?v < lit 1 then rb_max_portfolio_risk_pct ?r * ?v else rb_max_portfolio_risk_pct ?r)"
    "rb_max_aggregate_risk_pct ?o = (if ?a < lit 1 \<and> 0 < rb_max_aggregate_risk_pct ?r
       then rb_max_aggregate_risk_pct ?r * ?a else rb_max_aggregate_risk_pct ?r)"
    by (simp_all add: strategy_apply_def Let_def) blast
  have scaled: "tightened x (if m < lit 1 \<and> q then x * m else x) \<and> cap_ok 40 (if m < lit 1 \<and> q then x * m else x)"
    if x: "cap_ok 20 x" and m: "m = tighten_only y" and l: "Fin 0 < y \<longrightarrow> at_least 20 y" for x m y q
  proof (cases "m < lit 1 \<and> q")
    case True
    then obtain r where "m = Fin r" "2 powi (- int 20) \<le> r" "r \<le> 1"
      using tighten_only_cases[OF l] m by auto
    from cap_scale[OF x this] show ?thesis using True by simp
  qed (use x cap_ok_mono[of 20 x 40] in auto)
  have y: "Fin 0 < rk_per_trade_risk (sp_risk_scale s) \<longrightarrow> at_least 20 (rk_per_trade_risk (sp_risk_scale s))"
    "Fin 0 < rk_aggregate (sp_risk_scale s) \<longrightarrow> at_least 20 (rk_aggregate (sp_risk_scale s))"
    using s by (simp_all add: sane_scale_def)
  note c = b[unfolded caps_ok_def]
  show ?thesis
    using scaled[OF conjunct1[OF c] refl y(1), where q = True]
      scaled[OF conjunct1[OF conjunct2[OF c]] refl y(1), where q = True]
      scaled[OF conjunct2[OF conjunct2[OF c]] refl y(2)]
    unfolding budget_tightened_def caps_ok_def e by simp
qed

text \<open>
  C24: risk budgets are only tightened on their way to the sizing: from the configured budget
  through the strategy lens and the goal's own constraints, every cap that is set stays set and is
  not raised, whatever the lens and whatever the constraints say; and every drawdown limit the
  goal states bounds the aggregate cap. (Caps, scales and limits of at least a millionth, at most
  900 constraints: below that, repeated halving underflows to 0, which reads as "not set".)
\<close>

theorem risk_budget_only_tightens:
  assumes "caps_ok 20 (sg_risk (normalize_config cfg))" "sane_scale (sp_risk_scale s)"
    "list_all (sane_drawdown u) cs" "length cs \<le> 900"
  defines "out \<equiv> fst (effective_risk_budget u (sg_risk (strategy_apply s cfg)) cs)"
  shows "budget_tightened (sg_risk (normalize_config cfg)) out \<and>
    (\<forall>c \<in> set cs. \<forall>dd. stated_drawdown u c = Some dd \<longrightarrow>
       Fin 0 < rb_max_aggregate_risk_pct out \<and> rb_max_aggregate_risk_pct out \<le> dd)"
proof -
  have out: "out = fst (foldl (\<lambda>st c. budget_step u c st) (sg_risk (strategy_apply s cfg), []) cs)"
    by (simp add: out_def effective_risk_budget_def split: prod.splits)
  note a = strategy_apply_ok[OF assms(1,2)]
  have "caps_ok 40 (fst (sg_risk (strategy_apply s cfg), [] :: string list))" using a by simp
  from budget_loop_ok[OF this assms(3)] assms(4) a show ?thesis
    unfolding out by (auto intro: budget_tightened_trans)
qed

section \<open>Witnesses\<close>

definition drawdown_10 :: constr where
  "drawdown_10 = \<lparr>co_name = ''at most 10%'', co_kind = ''drawdown_limit'', co_description = ''''\<rparr>"

definition cautious :: constr where
  "cautious = \<lparr>co_name = ''low'', co_kind = ''risk_tolerance'', co_description = ''''\<rparr>"

lemma rnd_tenth: "rnd (1/10) = Fin (of_int 7205759403792794 * 2 powi (- 56))"
proof -
  have "\<lfloor>1/10 * 2 ^ 56 :: rat\<rfloor> = 7205759403792793" by (rule floor_unique) simp_all
  hence "rne (1/10 * 2 ^ 56 :: rat) = 7205759403792794" by (simp add: rne_def Let_def)
  thus ?thesis using rnd_eval[of "-4" "1/10"] by (simp add: power_int_def power_divide)
qed

lemma drawdown_10_stated: "stated_drawdown ascii_unicode drawdown_10 = Some (rnd (1/10))"
proof -
  have "find_percent (co_name drawdown_10) = Some ''10''" by code_simp
  moreover have "decimal_val ''10'' = 10" by code_simp
  moreover have "rnd 10 = Fin 10" using rnd_of_int_small[of 10] by simp
  ultimately have p: "constraint_percent drawdown_10 = Some (rnd (1/10))"
    by (simp add: constraint_percent_def parse_percent_def parse_decimal_def lit_100)
  have "uc_to_lower ascii_unicode (uc_trim_space ascii_unicode (co_kind drawdown_10)) = ''drawdown_limit''"
    by code_simp
  moreover have "Fin 0 < rnd (1/10)" "rnd (1/10) < Fin 1" by (simp_all add: rnd_tenth power_int_def power_divide)
  ultimately show ?thesis using p not_flt by (auto simp: stated_drawdown_def dest: fle_flt_trans)
qed

lemma cautious_stated: "stated_drawdown ascii_unicode cautious = None"
proof -
  have "uc_to_lower ascii_unicode (uc_trim_space ascii_unicode (co_kind cautious)) \<noteq> ''drawdown_limit''"
    by code_simp
  thus ?thesis by (simp add: stated_drawdown_def)
qed

lemma default_cap_ok: "2 powi (- 20) \<le> r \<Longrightarrow> r \<le> 1 \<Longrightarrow> cap_ok 20 (lit r)"
proof -
  assume a: "2 powi (- 20) \<le> r" "r \<le> 1"
  have "Fin (2 powi (- 20)) \<le> rnd r" using rnd_mono[OF a(1)] rnd_powi2[of 20] by simp
  moreover have "rnd r \<le> Fin 1" using rnd_mono[OF a(2)] by simp
  ultimately show ?thesis by (auto simp: cap_ok_def at_least_def lit_def)
qed

lemma default_normalized: "sg_risk (normalize_config default_scoring_config) = sg_risk default_scoring_config"
  by (simp add: normalize_config_def default_if_zero_def Let_def default_scoring_config_def)

theorem risk_budget_only_tightens_witness:
  "Fin 0 < rb_max_aggregate_risk_pct (fst (effective_risk_budget ascii_unicode
      (sg_risk (strategy_apply (default_strategy_set ! 2) default_scoring_config)) [drawdown_10, cautious])) \<and>
   rb_max_aggregate_risk_pct (fst (effective_risk_budget ascii_unicode
      (sg_risk (strategy_apply (default_strategy_set ! 2) default_scoring_config)) [drawdown_10, cautious])) \<le> rnd (1/10)"
proof -
  have "caps_ok 20 (sg_risk (normalize_config default_scoring_config))"
    unfolding caps_ok_def default_normalized
    by (simp add: default_scoring_config_def default_cap_ok power_int_def power_divide)
  moreover have "at_least 20 (lit (75/100))"
    using default_cap_ok[of "75/100"] rnd_pos[of "75/100"] by (simp add: cap_ok_def lit_def power_int_def power_divide)
  hence "sane_scale (sp_risk_scale (default_strategy_set ! 2))"
    by (simp add: sane_scale_def default_strategy_set_def)
  moreover have "at_least 20 (rnd (1/10))"
    using rnd_mono[of "2 powi (- 20)" "1/10"] rnd_powi2[of 20] by (simp add: at_least_def power_int_def power_divide)
  hence "list_all (sane_drawdown ascii_unicode) [drawdown_10, cautious]"
    by (simp add: sane_drawdown_def drawdown_10_stated cautious_stated)
  ultimately show ?thesis
    using risk_budget_only_tightens[of default_scoring_config "default_strategy_set ! 2" ascii_unicode
        "[drawdown_10, cautious]"] drawdown_10_stated by simp
qed

end
