(* ===== verification/Finance_Series.thy ===== *)
theory Finance_Series
  imports Finance_Scoring
begin

text \<open>
  \<open>internal/finance\<close> over price series: free-text horizons (\<open>horizon.go\<close>), volatility
  across holding windows (\<open>timescale.go\<close>), the market regime label (\<open>regime.go\<close>) and the
  correlation-aware aggregate risk (\<open>portfolio.go\<close>).
\<close>

section \<open>Conversions\<close>

text \<open>
  \<open>int(x)\<close> where \<open>x\<close> may be out of range: the language leaves the result to the
  implementation; amd64 gives the smallest integer.
\<close>

definition go_int :: "f64 \<Rightarrow> int" where
  "go_int x = (case int_of_f64 x of Some n \<Rightarrow> n | None \<Rightarrow> - (2 ^ 63))"

text \<open>\<open>t.Sub(u)\<close> saturates; \<open>Duration.Hours\<close>.\<close>

definition time_sub :: "time \<Rightarrow> time \<Rightarrow> dur" where
  "time_sub t u = max (- (2 ^ 63)) (min (2 ^ 63 - 1) (t - u))"

definition dur_hours :: "dur \<Rightarrow> f64" where
  "dur_hours d =
     (let h = (if 0 \<le> d then d div hour else - ((- d) div hour)); ns = d - h * hour
      in f64_of_int h + f64_of_int ns / lit (60 * 60 * 1000000000))"

section \<open>Horizons\<close>

definition horizon_units :: "(string \<times> int) list" where
  "horizon_units =
     [(''day'', 1), (''week'', 7), (''month'', 30), (''quarter'', 91), (''year'', 365), (''yr'', 365),
      (''d'', 1), (''w'', 7), (''mo'', 30), (''y'', 365)]"

definition horizon_at :: "string \<Rightarrow> (string \<times> int) option" where
  "horizon_at s =
     (if takeWhile ascii_digit s = [] then None
      else let (num, r) = number_at s; t = dropWhile re_space r in
        map_option (\<lambda>(unit, days). (num, days))
          (List.find (\<lambda>(unit, days). take (length unit) t = unit) horizon_units))"

fun find_horizon :: "string \<Rightarrow> (string \<times> int) option" where
  "find_horizon [] = None"
| "find_horizon (c # cs) = (case horizon_at (c # cs) of Some m \<Rightarrow> Some m | None \<Rightarrow> find_horizon cs)"

definition parse_horizon_days :: "unicode \<Rightarrow> string \<Rightarrow> int" where
  "parse_horizon_days u s =
     (case find_horizon (uc_to_lower u s) of
        None \<Rightarrow> 0
      | Some (num, days) \<Rightarrow>
          (case parse_decimal num of
             None \<Rightarrow> 0
           | Some n \<Rightarrow> if n \<le> 0 then 0 else go_int (n * f64_of_int days)))"

section \<open>Volatility over time\<close>

definition DefaultHoldingDays :: int where "DefaultHoldingDays = 30"
definition MaxStopHoldingDays :: int where "MaxStopHoldingDays = 90"

definition bar_interval_days :: "bar list \<Rightarrow> f64" where
  "bar_interval_days bars =
     (if length bars < 2 then 0
      else
        let span = dur_hours (time_sub (ba_date (last bars)) (ba_date (hd bars))) / lit 24
        in if span \<le> 0 then 0 else span / f64_of_int (int (length bars) - 1))"

definition scaled_vol :: "f64 \<Rightarrow> f64 \<Rightarrow> int \<Rightarrow> f64" where
  "scaled_vol vol_per_bar interval holding_days =
     (if vol_per_bar \<le> 0 \<or> interval \<le> 0 \<or> holding_days \<le> 0 then vol_per_bar
      else vol_per_bar * math_sqrt (f64_of_int holding_days / interval))"

definition vol_implied_horizon_days :: "f64 \<Rightarrow> f64 \<Rightarrow> f64 \<Rightarrow> int" where
  "vol_implied_horizon_days target vol_per_bar interval =
     (if target \<le> 0 \<or> vol_per_bar \<le> 0 \<or> interval \<le> 0 then 0
      else
        let daily_vol = vol_per_bar / math_sqrt interval; d = target / daily_vol
        in go_int (math_round (d * d)))"

section \<open>Market regimes\<close>

definition RegimeTrend :: string where "RegimeTrend = ''trend''"
definition RegimeRange :: string where "RegimeRange = ''range''"
definition RegimeHighVol :: string where "RegimeHighVol = ''high_vol''"
definition RegimeUnknown :: string where "RegimeUnknown = ''''"

definition regimeMinBars :: nat where "regimeMinBars = 40"
definition regimeWindowBars :: nat where "regimeWindowBars = 126"
definition regimeHighVolMonthly :: f64 where "regimeHighVolMonthly = lit (12/100)"
definition regimeHighVolDrawdown :: f64 where "regimeHighVolDrawdown = lit (20/100)"
definition regimeTrendER :: f64 where "regimeTrendER = lit (30/100)"

record regime_reading =
  rr_regime :: string
  rr_trend_strength :: f64
  rr_monthly_vol :: f64
  rr_note :: string

fun movement :: "f64 \<Rightarrow> bar list \<Rightarrow> f64" where
  "movement acc (a # b # bs) = movement (acc + \<bar>ba_close b - ba_close a\<bar>) (b # bs)"
| "movement acc _ = acc"

definition efficiency_ratio :: "bar list \<Rightarrow> f64" where
  "efficiency_ratio bars =
     (if length bars < 2 then 0
      else
        let mv = movement 0 bars
        in if feq mv 0 then 0 else \<bar>ba_close (last bars) - ba_close (hd bars)\<bar> / mv)"

definition classify_regime :: "bar list \<Rightarrow> regime_reading" where
  "classify_regime bars =
     (if length bars < regimeMinBars
      then \<lparr>rr_regime = RegimeUnknown, rr_trend_strength = 0, rr_monthly_vol = 0,
            rr_note = ''only '' @ dec_int (int (length bars)) @ '' bars; too little history to classify''\<rparr>
      else
        let window = drop (length bars - regimeWindowBars) bars;
            vol = volatility (returns_of window);
            monthly_vol = scaled_vol vol (bar_interval_days window) 21;
            dd = max_drawdown window;
            er = efficiency_ratio window;
            er_note = ''efficiency ratio '' @ fmt_fixed 2 er @ '' over '' @ dec_int (int (length window)) @ '' bars''
        in if regimeHighVolMonthly \<le> monthly_vol \<or> regimeHighVolDrawdown \<le> dd
           then \<lparr>rr_regime = RegimeHighVol, rr_trend_strength = er, rr_monthly_vol = monthly_vol,
                 rr_note = ''monthly vol '' @ fmt_fixed 1 (monthly_vol * lit 100) @ ''%, window drawdown ''
                   @ fmt_fixed 1 (dd * lit 100) @ ''%''\<rparr>
           else \<lparr>rr_regime = (if regimeTrendER \<le> er then RegimeTrend else RegimeRange),
                 rr_trend_strength = er, rr_monthly_vol = monthly_vol, rr_note = er_note\<rparr>)"

fun combine_loop :: "int \<Rightarrow> int \<Rightarrow> regime_reading list \<Rightarrow> string" where
  "combine_loop trend rng [] =
     (if rng < trend then RegimeTrend else if trend < rng then RegimeRange else RegimeUnknown)"
| "combine_loop trend rng (r # rs) =
     (if rr_regime r = RegimeHighVol then RegimeHighVol
      else if rr_regime r = RegimeTrend then combine_loop (trend + 1) rng rs
      else if rr_regime r = RegimeRange then combine_loop trend (rng + 1) rs
      else combine_loop trend rng rs)"

definition combine_regimes :: "regime_reading list \<Rightarrow> string" where
  "combine_regimes rs = combine_loop 0 0 rs"

section \<open>Aggregate risk\<close>

record portfolio_position =
  po_ticker :: string
  po_fraction :: f64
  po_stop_frac :: f64
  po_bars :: "bar list"

fun returns_by_date :: "bar list \<Rightarrow> (time \<Rightarrow> f64 option) \<Rightarrow> time \<Rightarrow> f64 option" where
  "returns_by_date (a # b # bs) m =
     returns_by_date (b # bs)
       (if feq (ba_close a) 0 then m else m(ba_date b \<mapsto> (ba_close b - ba_close a) / ba_close a))"
| "returns_by_date _ m = m"

fun aligned_loop :: "(time \<Rightarrow> f64 option) \<Rightarrow> bar list \<Rightarrow> (f64 \<times> f64) list" where
  "aligned_loop mb (a # b # bs) =
     (if feq (ba_close a) 0 then aligned_loop mb (b # bs)
      else (case mb (ba_date b) of
              None \<Rightarrow> aligned_loop mb (b # bs)
            | Some r \<Rightarrow> ((ba_close b - ba_close a) / ba_close a, r) # aligned_loop mb (b # bs)))"
| "aligned_loop mb _ = []"

definition aligned_returns :: "bar list \<Rightarrow> bar list \<Rightarrow> (f64 \<times> f64) list" where
  "aligned_returns a b = aligned_loop (returns_by_date b (\<lambda>_. None)) a"

definition correlation :: "bar list \<Rightarrow> bar list \<Rightarrow> f64" where
  "correlation a b =
     (let rs = aligned_returns a b; n = length rs in
      if n < 2 then 1
      else
        let mean_a = foldl (+) 0 (map fst rs) / f64_of_int (int n);
            mean_b = foldl (+) 0 (map snd rs) / f64_of_int (int n);
            cov = foldl (\<lambda>acc (x, y). acc + (x - mean_a) * (y - mean_b)) 0 rs;
            var_a = foldl (\<lambda>acc (x, y). acc + (x - mean_a) * (x - mean_a)) 0 rs;
            var_b = foldl (\<lambda>acc (x, y). acc + (y - mean_b) * (y - mean_b)) 0 rs
        in if feq var_a 0 \<or> feq var_b 0 then 1
           else clamp_range (cov / math_sqrt (var_a * var_b)) (- 1) 1)"

definition capital_at_risk :: "portfolio_position \<Rightarrow> f64" where
  "capital_at_risk p = po_fraction p * po_stop_frac p"

definition risk_row :: "portfolio_position list \<Rightarrow> f64 \<Rightarrow> nat \<times> portfolio_position \<Rightarrow> f64" where
  "risk_row ps acc ip =
     (if feq (capital_at_risk (snd ip)) 0 then acc
      else foldl (\<lambda>acc (j, p).
             if feq (capital_at_risk p) 0 then acc
             else acc + capital_at_risk (snd ip) * capital_at_risk p
                    * (if fst ip \<noteq> j then correlation (po_bars (snd ip)) (po_bars p) else lit 1))
           acc (enumerate 0 ps))"

definition aggregate_risk :: "portfolio_position list \<Rightarrow> f64" where
  "aggregate_risk ps =
     (let acc = foldl (risk_row ps) 0 (enumerate 0 ps)
      in if acc \<le> 0 then 0 else math_sqrt acc)"

definition scale_to_risk_cap :: "portfolio_position list \<Rightarrow> f64 \<Rightarrow> f64 \<times> f64" where
  "scale_to_risk_cap ps cap =
     (let agg = aggregate_risk ps
      in if cap \<le> 0 \<or> agg \<le> cap then (1, agg) else (cap / agg, agg))"

section \<open>What the labels and the scale promise\<close>

text \<open>The label is a function of the readings as a bag: high volatility wins, else the majority.\<close>

definition regime_count :: "string \<Rightarrow> regime_reading list \<Rightarrow> int" where
  "regime_count r rs = int (length (filter (\<lambda>x. rr_regime x = r) rs))"

lemma combine_loop_spec:
  "combine_loop t g rs =
     (if \<exists>r \<in> set rs. rr_regime r = RegimeHighVol then RegimeHighVol
      else if g + regime_count RegimeRange rs < t + regime_count RegimeTrend rs then RegimeTrend
      else if t + regime_count RegimeTrend rs < g + regime_count RegimeRange rs then RegimeRange
      else RegimeUnknown)"
  by (induction rs arbitrary: t g)
    (auto simp: regime_count_def RegimeTrend_def RegimeRange_def RegimeHighVol_def RegimeUnknown_def)

lemma combine_regimes_order:
  assumes "mset rs = mset rs'"
  shows "combine_regimes rs = combine_regimes rs'"
proof -
  have "set rs = set rs'" using assms mset_eq_setD by blast
  moreover have "regime_count r rs = regime_count r rs'" for r
    unfolding regime_count_def using assms by (metis mset_filter size_mset)
  ultimately show ?thesis unfolding combine_regimes_def combine_loop_spec by simp
qed

lemma classify_needs_history:
  "rr_regime (classify_regime bars) = RegimeUnknown \<longleftrightarrow> length bars < regimeMinBars"
  by (simp add: classify_regime_def Let_def RegimeTrend_def RegimeRange_def RegimeHighVol_def RegimeUnknown_def)

text \<open>A correlation is a NaN or between -1 and 1; with itself a series never earns more than 1.\<close>

lemma correlation_range: "correlation a b = NaN \<or> Fin (-1) \<le> correlation a b \<and> correlation a b \<le> Fin 1"
proof -
  have "clamp_range x (- Fin 1) (Fin 1) = NaN \<or> Fin (-1) \<le> clamp_range x (- Fin 1) (Fin 1) \<and>
      clamp_range x (- Fin 1) (Fin 1) \<le> Fin 1" for x
    by (cases x) (auto simp: clamp_range_def)
  thus ?thesis by (simp add: correlation_def Let_def)
qed

text \<open>
  The portfolio scale never enlarges a position, and it is 1 exactly when the cap is disabled or
  the aggregate is within it.
\<close>

lemma div_le_one:
  assumes "Fin 0 < c" "c < a"
  shows "Fin 0 \<le> c / a" "c / a \<le> Fin 1"
proof -
  have "Fin 0 \<le> c / a \<and> c / a \<le> Fin 1"
  proof (cases a)
    case (Fin y)
    then obtain x where x: "c = Fin x" using assms by (cases c) auto
    have "0 \<le> x / y" "x / y \<le> 1" using assms Fin x by auto
    then obtain r where "rnd (x / y) = Fin r" "0 \<le> r" "r \<le> 1" using rnd_unit by blast
    thus ?thesis using assms Fin x by simp
  qed (use assms in \<open>cases c; simp add: divide_f64_def\<close>)+
  thus "Fin 0 \<le> c / a" "c / a \<le> Fin 1" by auto
qed

lemma scale_to_risk_cap_unit:
  assumes "aggregate_risk ps \<noteq> NaN" "cap \<noteq> NaN"
  shows "Fin 0 \<le> fst (scale_to_risk_cap ps cap) \<and> fst (scale_to_risk_cap ps cap) \<le> Fin 1"
proof (cases "cap \<le> 0 \<or> aggregate_risk ps \<le> cap")
  case True
  thus ?thesis by (auto simp: scale_to_risk_cap_def Let_def)
next
  case False
  hence "Fin 0 < cap" "cap < aggregate_risk ps"
    using assms not_flt[of "Fin 0" cap] not_flt[of cap "aggregate_risk ps"] by auto
  thus ?thesis using False div_le_one by (simp add: scale_to_risk_cap_def Let_def)
qed

end
