(* ===== verification/Outcome_Fit.thy ===== *)
theory Outcome_Fit
  imports Finance_Scoring
begin

text \<open>
  What \<open>internal/finance\<close> fits from recorded outcomes: the confidence calibration curve
  (\<open>calibrate.go\<close>, binning and pool-adjacent-violators) and the per-strategy utility weights
  (\<open>strategyfit.go\<close>).
\<close>

section \<open>Calibration\<close>

definition calibrationBinCount :: nat where "calibrationBinCount = 5"

record calibration_sample =
  cs_confidence :: f64
  cs_success :: bool

record calibration_bin =
  cb_mid :: f64
  cb_rate :: f64
  cb_n :: int

type_synonym calibration_curve = "calibration_bin list"

fun interpolate :: "f64 \<Rightarrow> calibration_bin list \<Rightarrow> f64 \<Rightarrow> f64" where
  "interpolate conf (lo # hi # bs) end_rate =
     (if conf \<le> cb_mid hi
      then let t = (conf - cb_mid lo) / (cb_mid hi - cb_mid lo) in cb_rate lo + t * (cb_rate hi - cb_rate lo)
      else interpolate conf (hi # bs) end_rate)"
| "interpolate conf _ end_rate = end_rate"

definition curve_apply :: "calibration_curve \<Rightarrow> f64 \<Rightarrow> f64" where
  "curve_apply bins conf0 =
     (if bins = [] then conf0
      else
        let conf = clamp01 conf0 in
        if conf \<le> cb_mid (hd bins) then cb_rate (hd bins)
        else if cb_mid (last bins) \<le> conf then cb_rate (last bins)
        else interpolate conf bins (cb_rate (last bins)))"

text \<open>
  \<open>int(clamp01(c) * 5)\<close>, the last bin closed. A NaN confidence has no index: the source's
  conversion leaves the slice and panics, \<open>None\<close> here.
\<close>

definition bin_index :: "f64 \<Rightarrow> nat option" where
  "bin_index c =
     (case int_of_f64 (clamp01 c * lit (of_nat calibrationBinCount)) of
        None \<Rightarrow> None
      | Some i \<Rightarrow>
          let j = (if i = int calibrationBinCount then i - 1 else i)
          in if 0 \<le> j \<and> j < int calibrationBinCount then Some (nat j) else None)"

text \<open>A bin is its successes and its samples.\<close>

definition count_sample :: "(int \<times> int) list option \<Rightarrow> calibration_sample \<Rightarrow> (int \<times> int) list option" where
  "count_sample bins s =
     (case bins of
        None \<Rightarrow> None
      | Some bs \<Rightarrow>
          (case bin_index (cs_confidence s) of
             None \<Rightarrow> None
           | Some i \<Rightarrow> Some (bs[i := (fst (bs ! i) + (if cs_success s then 1 else 0), snd (bs ! i) + 1)])))"

record block =
  bk_mid :: f64
  bk_rate :: f64
  bk_weight :: f64
  bk_n :: int

definition new_block :: "nat \<Rightarrow> int \<times> int \<Rightarrow> block" where
  "new_block i b =
     \<lparr>bk_mid = (f64_of_int (int i) + lit (1/2)) / lit (of_nat calibrationBinCount),
      bk_rate = f64_of_int (fst b) / f64_of_int (snd b), bk_weight = f64_of_int (snd b), bk_n = snd b\<rparr>"

definition merge_blocks :: "block \<Rightarrow> block \<Rightarrow> block" where
  "merge_blocks a b =
     \<lparr>bk_mid = (bk_mid a * bk_weight a + bk_mid b * bk_weight b) / (bk_weight a + bk_weight b),
      bk_rate = (bk_rate a * bk_weight a + bk_rate b * bk_weight b) / (bk_weight a + bk_weight b),
      bk_weight = bk_weight a + bk_weight b, bk_n = bk_n a + bk_n b\<rparr>"

text \<open>The blocks are kept last first, so that the loop works on the head of the list.\<close>

function pool :: "block list \<Rightarrow> block list" where
  "pool (b # a # bs) = (if bk_rate b < bk_rate a then pool (merge_blocks a b # bs) else b # a # bs)"
| "pool [b] = [b]"
| "pool [] = []"
  by pat_completeness auto
termination by (relation "measure length") auto

fun pava :: "nat \<Rightarrow> (int \<times> int) list \<Rightarrow> block list \<Rightarrow> block list" where
  "pava i [] bs = bs"
| "pava i (b # rest) bs = pava (i + 1) rest (if snd b = 0 then bs else pool (new_block i b # bs))"

definition bin_of_block :: "block \<Rightarrow> calibration_bin" where
  "bin_of_block b = \<lparr>cb_mid = round2 (bk_mid b), cb_rate = round2 (bk_rate b), cb_n = bk_n b\<rparr>"

definition fit_calibration :: "calibration_sample list \<Rightarrow> calibration_curve option" where
  "fit_calibration samples =
     map_option (\<lambda>bins. map bin_of_block (rev (pava 0 bins [])))
       (foldl count_sample (Some (replicate calibrationBinCount (0, 0))) samples)"

section \<open>Strategy weights\<close>

record strategy_sample =
  sr_strategy :: string
  sr_regime :: string
  sr_success :: bool
  sr_comparator :: string

definition strategyFitMinSamples :: int where "strategyFitMinSamples = 5"
definition strategyFitFloor :: f64 where "strategyFitFloor = lit (1/2)"
definition strategyFitCeil :: f64 where "strategyFitCeil = lit (3/2)"

text \<open>A bucket is its samples and its wins; the source walks the keys in order, a map has none.\<close>

definition add_bucket :: "string \<Rightarrow> bool \<Rightarrow> (string \<Rightarrow> (int \<times> int) option) \<Rightarrow> string \<Rightarrow> (int \<times> int) option" where
  "add_bucket key success m =
     (let b = (case m key of None \<Rightarrow> (0, 0) | Some b \<Rightarrow> b)
      in m(key \<mapsto> (fst b + 1, snd b + (if success then 1 else 0))))"

definition count_outcome ::
  "(string \<Rightarrow> (int \<times> int) option) \<Rightarrow> strategy_sample \<Rightarrow> string \<Rightarrow> (int \<times> int) option" where
  "count_outcome m s =
     (if sr_strategy s = '''' then m
      else
        let m1 = add_bucket (weight_key (sr_strategy s) '''') (sr_success s) m
        in if sr_regime s \<noteq> '''' then add_bucket (weight_key (sr_strategy s) (sr_regime s)) (sr_success s) m1 else m1)"

definition bucket_weight :: "int \<times> int \<Rightarrow> f64" where
  "bucket_weight b =
     (let p = (f64_of_int (snd b) + lit 1) / (f64_of_int (fst b) + lit 2)
      in clamp_range (lit 2 * p) strategyFitFloor strategyFitCeil)"

definition fit_strategy_weights :: "strategy_sample list \<Rightarrow> string \<Rightarrow> f64 option" where
  "fit_strategy_weights samples =
     (let buckets = foldl count_outcome (\<lambda>_. None) samples in
      (\<lambda>k. case buckets k of
            None \<Rightarrow> None
          | Some b \<Rightarrow> if fst b < strategyFitMinSamples then None else Some (bucket_weight b)))"

section \<open>The fitted rates\<close>

lemma f64_of_int_Fin: "\<bar>n\<bar> < 2 ^ 53 \<Longrightarrow> f64_of_int n = Fin (of_int n)"
  unfolding f64_of_int_def by (rule rnd_of_int_small)

definition unit_val :: "f64 \<Rightarrow> bool" where
  "unit_val x \<longleftrightarrow> Fin 0 \<le> x \<and> x \<le> Fin 1"

lemma unit_valE:
  assumes "unit_val x"
  obtains r where "x = Fin r" "0 \<le> r" "r \<le> 1"
  using assms by (cases x) (auto simp: unit_val_def)

lemma unit_val_rnd: "0 \<le> x \<Longrightarrow> x \<le> 1 \<Longrightarrow> unit_val (rnd x)"
  using rnd_unit[of x] by (auto simp: unit_val_def)

text \<open>A block holds at least one sample and its rate is a proportion.\<close>

definition block_ok :: "block \<Rightarrow> bool" where
  "block_ok b \<longleftrightarrow> 0 < bk_n b \<and> bk_weight b = f64_of_int (bk_n b) \<and> unit_val (bk_rate b)"

definition samples_in :: "block list \<Rightarrow> int" where
  "samples_in bs = sum_list (map bk_n bs)"

lemma samples_in_Cons [simp]: "samples_in (b # bs) = bk_n b + samples_in bs"
  by (simp add: samples_in_def)

lemma samples_in_nonneg: "list_all block_ok bs \<Longrightarrow> 0 \<le> samples_in bs"
  by (induction bs) (auto simp: samples_in_def block_ok_def)

lemma scaled_rate:
  assumes "0 < n" "n < 2 ^ 53" "unit_val x"
  shows "\<exists>q. x * f64_of_int n = Fin q \<and> 0 \<le> q \<and> q \<le> of_int n"
proof -
  obtain r where r: "x = Fin r" "0 \<le> r" "r \<le> 1" using assms(3) by (rule unit_valE)
  have p: "0 \<le> r * of_int n" "r * of_int n \<le> of_int n"
    using r assms(1) by (simp_all add: mult_left_le_one_le)
  have n: "f64_of_int n = Fin (of_int n)" using assms by (intro f64_of_int_Fin) auto
  have "Fin 0 \<le> rnd (r * of_int n)" "rnd (r * of_int n) \<le> Fin (of_int n)"
    using rnd_mono[OF p(1)] rnd_mono[OF p(2)] rnd_of_int_small[of n] assms by simp_all
  thus ?thesis by (cases "rnd (r * of_int n)") (auto simp: r n)
qed

lemma merge_block_ok:
  assumes a: "block_ok a" and b: "block_ok b" and n: "bk_n a + bk_n b < 2 ^ 53"
  shows "block_ok (merge_blocks a b)"
proof -
  let ?na = "bk_n a" and ?nb = "bk_n b"
  have pos: "0 < ?na" "0 < ?nb" using a b by (auto simp: block_ok_def)
  obtain p where p: "bk_rate a * f64_of_int ?na = Fin p" "0 \<le> p" "p \<le> of_int ?na"
    using scaled_rate[of ?na "bk_rate a"] a n pos by (auto simp: block_ok_def)
  obtain q where q: "bk_rate b * f64_of_int ?nb = Fin q" "0 \<le> q" "q \<le> of_int ?nb"
    using scaled_rate[of ?nb "bk_rate b"] b n pos by (auto simp: block_ok_def)
  have w: "f64_of_int ?na + f64_of_int ?nb = f64_of_int (?na + ?nb)"
    using pos n f64_of_int_Fin[of ?na] f64_of_int_Fin[of ?nb] by (simp add: f64_of_int_def)
  have s: "f64_of_int (?na + ?nb) = Fin (of_int (?na + ?nb))" using pos n by (intro f64_of_int_Fin) auto
  have "0 \<le> p + q" "p + q \<le> of_int (?na + ?nb)" using p q by simp_all
  hence "Fin 0 \<le> rnd (p + q)" "rnd (p + q) \<le> Fin (of_int (?na + ?nb))"
    using rnd_mono[of 0 "p + q"] rnd_mono[of "p + q" "of_int (?na + ?nb)"] s by (simp_all add: f64_of_int_def)
  then obtain t where t: "rnd (p + q) = Fin t" "0 \<le> t" "t \<le> of_int (?na + ?nb)" by (cases "rnd (p + q)") auto
  have z: "(0::rat) < of_int (?na + ?nb)" using pos by simp
  have "unit_val (rnd (t / of_int (?na + ?nb)))" using t z by (intro unit_val_rnd) simp_all
  moreover have "bk_rate (merge_blocks a b) = rnd (t / of_int (?na + ?nb))"
    using a b p(1) q(1) t(1) w s z by (simp add: merge_blocks_def block_ok_def)
  ultimately show ?thesis using a b pos w by (simp add: block_ok_def merge_blocks_def)
qed

text \<open>The stack is sorted: no block's rate is above that of the block pushed after it.\<close>

definition stack_sorted :: "block list \<Rightarrow> bool" where
  "stack_sorted bs \<longleftrightarrow> sorted_wrt (\<lambda>b a. bk_rate a \<le> bk_rate b) bs"

lemma block_rate_not_NaN: "block_ok b \<Longrightarrow> bk_rate b \<noteq> NaN"
  by (auto simp: block_ok_def elim: unit_valE)

lemma pool_ok:
  assumes "list_all block_ok bs" "stack_sorted (tl bs)" "samples_in bs < 2 ^ 53"
  shows "list_all block_ok (pool bs) \<and> stack_sorted (pool bs) \<and> samples_in (pool bs) = samples_in bs"
  using assms
proof (induction bs rule: pool.induct)
  case (1 b a bs)
  show ?case
  proof (cases "bk_rate b < bk_rate a")
    case True
    have "0 \<le> samples_in bs" using 1(2) by (intro samples_in_nonneg) simp
    hence m: "block_ok (merge_blocks a b)" using 1(2,4) by (intro merge_block_ok) simp_all
    have n: "bk_n (merge_blocks a b) = bk_n a + bk_n b" by (simp add: merge_blocks_def)
    have "list_all block_ok (merge_blocks a b # bs)" "stack_sorted bs"
      using m 1(2,3) by (simp_all add: stack_sorted_def)
    with 1(1)[OF True] 1(4) n True show ?thesis by simp
  next
    case False
    have ab: "bk_rate a \<le> bk_rate b"
      using False 1(2) block_rate_not_NaN not_flt by simp
    have "bk_rate c \<le> bk_rate b" if "c \<in> set bs" for c
      using that 1(3) ab by (auto simp: stack_sorted_def intro: fle_trans)
    thus ?thesis using False 1(2,3) ab by (auto simp: stack_sorted_def)
  qed
qed (simp_all add: stack_sorted_def)

definition bin_ok :: "int \<times> int \<Rightarrow> bool" where
  "bin_ok b \<longleftrightarrow> 0 \<le> fst b \<and> fst b \<le> snd b"

lemma new_block_ok:
  assumes "bin_ok b" "snd b \<noteq> 0" "snd b < 2 ^ 53"
  shows "block_ok (new_block i b)"
proof -
  have b: "0 \<le> fst b" "fst b \<le> snd b" "0 < snd b" using assms by (auto simp: bin_ok_def)
  have f: "f64_of_int (fst b) = Fin (of_int (fst b))" "f64_of_int (snd b) = Fin (of_int (snd b))"
    using b assms(3) by (auto intro!: f64_of_int_Fin)
  have "unit_val (rnd (of_int (fst b) / of_int (snd b)))" using b by (intro unit_val_rnd) simp_all
  thus ?thesis using b f by (simp add: block_ok_def new_block_def)
qed

definition bins_total :: "(int \<times> int) list \<Rightarrow> int" where
  "bins_total bins = sum_list (map snd bins)"

lemma bins_total_nonneg: "list_all bin_ok bins \<Longrightarrow> 0 \<le> bins_total bins"
  by (induction bins) (auto simp: bins_total_def bin_ok_def)

lemma pava_ok:
  assumes "list_all bin_ok bins" "list_all block_ok bs" "stack_sorted bs"
    "bins_total bins + samples_in bs < 2 ^ 53"
  shows "list_all block_ok (pava i bins bs) \<and> stack_sorted (pava i bins bs) \<and>
    samples_in (pava i bins bs) = bins_total bins + samples_in bs"
  using assms
proof (induction i bins bs rule: pava.induct)
  case (2 i b rest bs)
  have t: "bins_total (b # rest) = snd b + bins_total rest" "0 \<le> bins_total rest" "0 \<le> samples_in bs"
    using 2(2,3) bins_total_nonneg samples_in_nonneg by (simp_all add: bins_total_def)
  show ?case
  proof (cases "snd b = 0")
    case True
    thus ?thesis using 2 t by simp
  next
    case False
    have "0 \<le> snd b" using 2(2) by (auto simp: bin_ok_def)
    hence n: "block_ok (new_block i b)" using 2(2,5) t False by (intro new_block_ok) simp_all
    have bn: "bk_n (new_block i b) = snd b" by (simp add: new_block_def)
    have p: "list_all block_ok (pool (new_block i b # bs)) \<and> stack_sorted (pool (new_block i b # bs)) \<and>
        samples_in (pool (new_block i b # bs)) = snd b + samples_in bs"
      using pool_ok[of "new_block i b # bs"] 2(3,4,5) n bn t by simp
    show ?thesis using 2(1)[OF ] 2(2,5) p t False by simp
  qed
qed (simp add: bins_total_def)

lemma lit_5_count: "lit (of_nat calibrationBinCount) = Fin 5"
  using rnd_of_int_small[of 5] by (simp add: lit_def calibrationBinCount_def)

lemma bin_index_some:
  assumes "c \<noteq> NaN"
  shows "\<exists>i. bin_index c = Some i \<and> i < calibrationBinCount"
proof -
  have "clamp01 c \<noteq> NaN" using assms by (cases c) (auto simp: clamp01_def)
  then obtain r where r: "clamp01 c = Fin r" "0 \<le> r" "r \<le> 1"
    using unit_or_NaN_cases[OF clamp01_unit[of c]] by metis
  have "Fin 0 \<le> rnd (r * 5)" "rnd (r * 5) \<le> Fin 5"
    using rnd_mono[of 0 "r * 5"] rnd_mono[of "r * 5" 5] rnd_of_int_small[of 5] r by simp_all
  then obtain q where q: "rnd (r * 5) = Fin q" "0 \<le> q" "q \<le> 5" by (cases "rnd (r * 5)") auto
  have f: "0 \<le> \<lfloor>q\<rfloor>" "\<lfloor>q\<rfloor> \<le> 5" using q(2,3) floor_mono[OF q(3)] by simp_all
  define i where "i = \<lfloor>q\<rfloor>"
  have e: "clamp01 c * lit (of_nat calibrationBinCount) = Fin q" by (simp add: r(1) lit_5_count q(1))
  have "int_of_f64 (Fin q) = Some i" using q(2) f by (simp add: Let_def i_def)
  moreover have "0 \<le> i" "i \<le> 5" using f by (simp_all add: i_def)
  ultimately show ?thesis unfolding bin_index_def e
    by (auto simp: Let_def calibrationBinCount_def simp del: int_of_f64.simps)
qed

lemma bins_total_update:
  assumes "i < length bs"
  shows "bins_total (bs[i := (s, snd (bs ! i) + 1)]) = bins_total bs + 1"
  using assms
proof (induction bs arbitrary: i)
  case (Cons b bs)
  thus ?case by (cases i) (simp_all add: bins_total_def)
qed simp

lemma count_samples_ok:
  assumes "\<forall>s \<in> set samples. cs_confidence s \<noteq> NaN" "length bs = calibrationBinCount" "list_all bin_ok bs"
  shows "\<exists>bins. foldl count_sample (Some bs) samples = Some bins \<and> length bins = calibrationBinCount \<and>
    list_all bin_ok bins \<and> bins_total bins = bins_total bs + int (length samples)"
  using assms
proof (induction samples arbitrary: bs)
  case (Cons s samples)
  obtain i where i: "bin_index (cs_confidence s) = Some i" "i < length bs"
    using bin_index_some[of "cs_confidence s"] Cons.prems by auto
  let ?bs = "bs[i := (fst (bs ! i) + (if cs_success s then 1 else 0), snd (bs ! i) + 1)]"
  have "bin_ok (bs ! i)" using Cons.prems(3) i(2) by (simp add: list_all_length)
  hence "bin_ok (fst (bs ! i) + (if cs_success s then 1 else 0), snd (bs ! i) + 1)" by (auto simp: bin_ok_def)
  hence "list_all bin_ok ?bs"
    using Cons.prems(3) set_update_subset_insert[of bs i] unfolding list_all_iff by blast
  moreover have "count_sample (Some bs) s = Some ?bs" by (simp add: count_sample_def i(1))
  moreover have "bins_total ?bs = bins_total bs + 1" by (rule bins_total_update[OF i(2)])
  moreover have "length ?bs = calibrationBinCount" "\<forall>s \<in> set samples. cs_confidence s \<noteq> NaN"
    using Cons.prems by simp_all
  moreover note Cons.IH[of ?bs]
  ultimately show ?case by (auto simp del: if_split)
qed simp

lemma pool_length: "length (pool bs) \<le> length bs"
  by (induction bs rule: pool.induct) auto

lemma pava_length: "length (pava i bins bs) \<le> length bins + length bs"
proof (induction i bins bs rule: pava.induct)
  case (2 i b rest bs)
  have "length (pool (new_block i b # bs)) \<le> Suc (length bs)" using pool_length[of "new_block i b # bs"] by simp
  thus ?case using 2 by (cases "snd b = 0") auto
qed simp

lemma round2_unit_val: "unit_val x \<Longrightarrow> unit_val (round2 x)"
proof -
  assume u: "unit_val x"
  then obtain r where r: "x = Fin r" by (rule unit_valE)
  have "round2 x \<noteq> NaN" by (simp add: r round2_def lit_100) (cases "rnd (r * 100)"; simp add: divide_f64_def)
  thus ?thesis using round2_unit[of x] u by (auto simp: unit_val_def unit_or_NaN_def)
qed

lemma round2_mono:
  assumes "unit_val x" "unit_val y" "x \<le> y"
  shows "round2 x \<le> round2 y"
proof -
  obtain a b where ab: "x = Fin a" "y = Fin b" "a \<le> b" "0 \<le> a" "b \<le> 1"
    using assms by (auto elim!: unit_valE)
  have "rnd (a * 100) \<le> rnd (b * 100)" using ab(3) by (intro rnd_mono) simp
  moreover have "Fin 0 \<le> rnd (a * 100)" "rnd (b * 100) \<le> Fin 100"
    using rnd_mono[of 0 "a * 100"] rnd_mono[of "b * 100" 100] rnd_of_int_small[of 100] ab by simp_all
  ultimately obtain p q where pq: "rnd (a * 100) = Fin p" "rnd (b * 100) = Fin q" "p \<le> q"
    by (cases "rnd (a * 100)"; cases "rnd (b * 100)") auto
  have "of_int (rha p) / (100::rat) \<le> of_int (rha q) / 100" using rha_mono[OF pq(3)] by (simp add: divide_right_mono)
  hence "rnd (of_int (rha p) / 100) \<le> rnd (of_int (rha q) / 100)" by (rule rnd_mono)
  thus ?thesis by (simp add: round2_def ab pq lit_100)
qed

text \<open>
  C26: fitting a calibration curve never fails on numeric confidences, loses no sample and is
  monotone: the fitted success rates lie between 0 and 1 and never decrease from one point of the
  curve to the next, the points' counts add up to the samples, there are at most five points, and
  none exactly when there are no samples.
\<close>

theorem calibration_curve_monotone:
  assumes "\<forall>s \<in> set samples. cs_confidence s \<noteq> NaN" "length samples < 2 ^ 53"
  shows "\<exists>curve. fit_calibration samples = Some curve \<and>
    sorted_wrt (\<lambda>a b. cb_rate a \<le> cb_rate b) curve \<and>
    list_all (\<lambda>b. Fin 0 \<le> cb_rate b \<and> cb_rate b \<le> Fin 1) curve \<and>
    sum_list (map cb_n curve) = int (length samples) \<and> length curve \<le> 5 \<and> (curve = [] \<longleftrightarrow> samples = [])"
proof -
  let ?z = "replicate calibrationBinCount (0 :: int, 0 :: int)"
  have z: "list_all bin_ok ?z" "bins_total ?z = 0" by (simp_all add: list_all_length bin_ok_def bins_total_def sum_list_replicate)
  obtain bins where b: "foldl count_sample (Some ?z) samples = Some bins" "length bins = calibrationBinCount"
      "list_all bin_ok bins" "bins_total bins = int (length samples)"
    using count_samples_ok[OF assms(1), of ?z] z by auto
  let ?bs = "pava 0 bins []" and ?c = "map bin_of_block (rev (pava 0 bins []))"
  have p: "list_all block_ok ?bs" "stack_sorted ?bs" "samples_in ?bs = int (length samples)"
    using pava_ok[OF b(3), of "[]" 0] b(4) assms(2) by (auto simp: stack_sorted_def samples_in_def)
  have ok: "block_ok x" if "x \<in> set ?bs" for x using p(1) that by (auto simp: list_all_iff)
  have u: "unit_val (bk_rate x)" if "x \<in> set ?bs" for x using ok[OF that] by (simp add: block_ok_def)
  have "sorted_wrt (\<lambda>a b. bk_rate a \<le> bk_rate b) (rev ?bs)"
    using p(2) by (simp add: stack_sorted_def sorted_wrt_rev)
  hence "sorted_wrt (\<lambda>a b. cb_rate (bin_of_block a) \<le> cb_rate (bin_of_block b)) (rev ?bs)"
    by (rule sorted_wrt_mono_rel[rotated]) (use u round2_mono in \<open>simp add: bin_of_block_def\<close>)
  moreover have "list_all (\<lambda>b. Fin 0 \<le> cb_rate b \<and> cb_rate b \<le> Fin 1) ?c"
    using u round2_unit_val by (auto simp: list_all_iff bin_of_block_def unit_val_def)
  moreover have "sum_list (map cb_n ?c) = int (length samples)"
    using p(3) by (simp add: samples_in_def bin_of_block_def comp_def rev_map[symmetric])
  moreover have "length ?c \<le> 5" using pava_length[of 0 bins "[]"] b(2) by (simp add: calibrationBinCount_def)
  moreover have "?c = [] \<longleftrightarrow> samples = []"
  proof
    assume "samples = []"
    hence s: "samples_in ?bs = 0" using p(3) by simp
    show "?c = []"
    proof (cases ?bs)
      case (Cons x xs)
      have "0 \<le> samples_in xs" using p(1) Cons by (intro samples_in_nonneg) simp
      thus ?thesis using s Cons p(1) by (simp add: block_ok_def)
    qed simp
  qed (use p(3) in \<open>auto simp: samples_in_def\<close>)
  ultimately show ?thesis using b(1) by (auto simp: fit_calibration_def sorted_wrt_map)
qed

text \<open>Two stated confidences whose outcomes contradict their order: they are pooled.\<close>

definition sample_outcomes :: "calibration_sample list" where
  "sample_outcomes = [\<lparr>cs_confidence = Fin 0, cs_success = True\<rparr>, \<lparr>cs_confidence = Fin 1, cs_success = False\<rparr>]"

theorem calibration_curve_monotone_witness:
  "\<exists>curve. fit_calibration sample_outcomes = Some curve \<and> sorted_wrt (\<lambda>a b. cb_rate a \<le> cb_rate b) curve \<and>
     sum_list (map cb_n curve) = 2 \<and> curve \<noteq> []"
  using calibration_curve_monotone[of sample_outcomes] by (auto simp: sample_outcomes_def)

section \<open>The fitted weights\<close>

lemma lit_2: "lit 2 = Fin 2"
  using rnd_of_int_small[of 2] by (simp add: lit_def)

lemma lit_three_halves: "lit (3/2) = Fin (3/2)"
  using rnd_representable[of "3/2"] rquant_exact[of 3 "-1"] by (simp add: lit_def representable_def power_int_def)

lemma lit_one_half: "lit (1/2) = Fin (1/2)"
  using rnd_powi2[of 1] by (simp add: lit_def power_int_def)

lemma rnd_plus_int:
  assumes "\<bar>m\<bar> < 2 ^ 53" "\<bar>n\<bar> < 2 ^ 53" "\<bar>m + n\<bar> < 2 ^ 53"
  shows "f64_of_int m + lit (of_int n) = Fin (of_int (m + n))"
  using assms rnd_of_int_small[of m] rnd_of_int_small[of n] rnd_of_int_small[of "m + n"]
  by (simp add: f64_of_int_def lit_def)

lemma bucket_weight_eq:
  assumes "0 \<le> w" "w \<le> n" "n < 2 ^ 53 - 2"
  shows "bucket_weight (n, w) = clamp_range (Fin 2 * rnd (of_int (w + 1) / of_int (n + 2))) (Fin (1/2)) (Fin (3/2))"
proof -
  have "f64_of_int w + lit 1 = Fin (of_int (w + 1))" "f64_of_int n + lit 2 = Fin (of_int (n + 2))"
    using rnd_plus_int[of w 1] rnd_plus_int[of n 2] assms by simp_all
  moreover have "(0::rat) < of_int (n + 2)" using assms by simp
  ultimately show ?thesis
    unfolding bucket_weight_def Let_def strategyFitFloor_def strategyFitCeil_def lit_2 lit_three_halves lit_one_half
    by simp
qed

lemma bucket_weight_range: "bucket_weight b = NaN \<or> Fin (1/2) \<le> bucket_weight b \<and> bucket_weight b \<le> Fin (3/2)"
  unfolding bucket_weight_def Let_def strategyFitFloor_def strategyFitCeil_def lit_three_halves lit_one_half
  by (cases "lit 2 * ((f64_of_int (snd b) + lit 1) / (f64_of_int (fst b) + lit 2))") (auto simp: clamp_range_def)

lemma clamp_range_mono:
  assumes "x \<le> y" "Fin l \<le> Fin h"
  shows "clamp_range x (Fin l) (Fin h) \<le> clamp_range y (Fin l) (Fin h)"
  using assms by (cases x; cases y) (auto simp: clamp_range_def)

lemma bucket_weight_mono:
  assumes "0 \<le> w" "w \<le> w'" "w' \<le> n" "n < 2 ^ 53 - 2"
  shows "bucket_weight (n, w) \<le> bucket_weight (n, w')"
proof -
  have p: "(0::rat) < of_int (n + 2)" using assms by simp
  have le: "of_int (w + 1) / of_int (n + 2) \<le> (of_int (w' + 1) / of_int (n + 2) :: rat)"
    using assms p by (intro divide_right_mono) simp_all
  have u: "0 \<le> (of_int (w + 1) / of_int (n + 2) :: rat)" "of_int (w' + 1) / of_int (n + 2) \<le> (1::rat)"
    using assms p by simp_all
  obtain a b where ab: "rnd (of_int (w + 1) / of_int (n + 2)) = Fin a" "rnd (of_int (w' + 1) / of_int (n + 2)) = Fin b"
    using rnd_unit[of "of_int (w + 1) / of_int (n + 2)"] rnd_unit[of "of_int (w' + 1) / of_int (n + 2)"] le u
    by (metis order_trans)
  have "a \<le> b" using rnd_mono[OF le] ab by simp
  hence "Fin 2 * Fin a \<le> Fin 2 * Fin b" by (simp add: rnd_mono)
  thus ?thesis using clamp_range_mono[of "Fin 2 * Fin a" "Fin 2 * Fin b" "1/2" "3/2"] bucket_weight_eq[of w n] bucket_weight_eq[of w' n] assms ab
    by simp
qed

lemma even_record_weight:
  assumes "0 \<le> w" "2 * w < 2 ^ 53 - 2"
  shows "bucket_weight (2 * w, w) = Fin 1"
proof -
  have e: "(of_int (w + 1) / of_int (2 * w + 2) :: rat) = 1/2" using assms by (simp add: field_simps)
  have "bucket_weight (2 * w, w) = clamp_range (Fin 2 * rnd (1/2)) (Fin (1/2)) (Fin (3/2))"
    using bucket_weight_eq[of w "2 * w"] assms unfolding e by simp
  thus ?thesis using lit_one_half by (simp add: lit_def clamp_range_def)
qed

text \<open>The recorded outcomes a key counts: at most one per sample.\<close>

definition hits :: "string \<Rightarrow> strategy_sample \<Rightarrow> bool" where
  "hits k s \<longleftrightarrow> sr_strategy s \<noteq> '''' \<and>
     (k = weight_key (sr_strategy s) '''' \<or> (sr_regime s \<noteq> '''' \<and> k = weight_key (sr_strategy s) (sr_regime s)))"

definition wins_of :: "strategy_sample list \<Rightarrow> int" where
  "wins_of ss = int (length (filter sr_success ss))"

definition bucket_of :: "(int \<times> int) option \<Rightarrow> strategy_sample list \<Rightarrow> (int \<times> int) option" where
  "bucket_of b ss =
     (if ss = [] then b
      else (let (n, w) = (case b of None \<Rightarrow> (0, 0) | Some nw \<Rightarrow> nw) in Some (n + int (length ss), w + wins_of ss)))"

lemma keys_differ: "weight_key i '''' \<noteq> weight_key i r \<or> r = ''''"
  by (simp add: weight_key_def)

lemma count_outcome_hits:
  "count_outcome m s k = (if hits k s then bucket_of (m k) [s] else m k)"
  using keys_differ[of "sr_strategy s" "sr_regime s"]
  by (auto simp: count_outcome_def hits_def bucket_of_def add_bucket_def Let_def wins_of_def split: option.splits)

lemma bucket_of_append: "bucket_of (bucket_of b xs) ys = bucket_of b (xs @ ys)"
  by (auto simp: bucket_of_def wins_of_def split: option.splits)

lemma count_outcomes: "foldl count_outcome m ss k = bucket_of (m k) (filter (hits k) ss)"
proof (induction ss arbitrary: m)
  case (Cons s ss)
  have "foldl count_outcome m (s # ss) k = bucket_of (count_outcome m s k) (filter (hits k) ss)"
    using Cons[of "count_outcome m s"] by simp
  thus ?case using bucket_of_append[of "m k" "[s]" "filter (hits k) ss"]
    unfolding count_outcome_hits by (simp split: if_split_asm)
qed (simp add: bucket_of_def)

text \<open>
  Strategy weights follow the evidence: a key has a weight exactly when at least five recorded
  outcomes count for it, the weight is a number between 0.5 and 1.5, it is exactly 1 for an even
  record, and with as many outcomes more successes never weigh less.
\<close>

theorem strategy_weights_follow_evidence:
  assumes "length samples < 2 ^ 53 - 2"
  defines "n \<equiv> \<lambda>k. int (length (filter (hits k) samples))"
    and "w \<equiv> \<lambda>k. wins_of (filter (hits k) samples)"
  shows "(fit_strategy_weights samples k = None \<longleftrightarrow> n k < 5) \<and>
    (\<forall>x. fit_strategy_weights samples k = Some x \<longrightarrow> Fin (1/2) \<le> x \<and> x \<le> Fin (3/2) \<and>
       (n k = 2 * w k \<longrightarrow> x = Fin 1) \<and>
       (\<forall>j y. fit_strategy_weights samples j = Some y \<and> n j = n k \<and> w j \<le> w k \<longrightarrow> y \<le> x))"
proof -
  have fit: "fit_strategy_weights samples j = (if n j < 5 then None else Some (bucket_weight (n j, w j)))" for j
    by (simp add: fit_strategy_weights_def count_outcomes bucket_of_def strategyFitMinSamples_def n_def w_def
        Let_def wins_of_def)
  have wn: "0 \<le> w j" "w j \<le> n j" "n j < 2 ^ 53 - 2" for j
    using le_less_trans[OF length_filter_le[of "hits j" samples] assms(1)]
      length_filter_le[of sr_success "filter (hits j) samples"]
    by (simp_all add: n_def w_def wins_of_def)
  have "bucket_weight (n j, w j) \<noteq> NaN" for j
    using bucket_weight_mono[of "w j" "w j" "n j"] wn[of j] fle_not_NaN by blast
  thus ?thesis
    using fit bucket_weight_range bucket_weight_mono[OF wn(1), of _ "w k" "n k"] wn[of k] even_record_weight[of "w k"]
    by (auto split: if_splits)
qed

definition five_losses :: "strategy_sample list" where
  "five_losses = replicate 5 \<lparr>sr_strategy = ''value'', sr_regime = '''', sr_success = False, sr_comparator = ''''\<rparr>"

theorem strategy_weights_follow_evidence_witness:
  "\<exists>x. fit_strategy_weights five_losses ''value'' = Some x \<and> Fin (1/2) \<le> x \<and> x \<le> Fin (3/2)"
proof -
  have "length (filter (hits ''value'') five_losses) = 5" by code_simp
  moreover have "length five_losses < 2 ^ 53 - 2" by (simp add: five_losses_def)
  ultimately show ?thesis
    using strategy_weights_follow_evidence[of five_losses "''value''"] by (cases "fit_strategy_weights five_losses ''value''") auto
qed

end
