(* ===== verification/Go_Time.thy ===== *)
theory Go_Time
  imports Go_Base
begin

text \<open>
  The calendar of Go's \<open>time\<close> package in UTC: the proleptic Gregorian date of an instant,
  \<open>time.Date\<close> with its normalisation, \<open>Time.AddDate\<close> and the layout \<open>2006-01-02\<close>. Day 0
  is Go's zero time, 1 January of year 1. The lemmas show that the date of a day and the day of a
  date are inverse.
\<close>

section \<open>Days and dates\<close>

definition leap_year :: "int \<Rightarrow> bool" where
  "leap_year y \<longleftrightarrow> y mod 4 = 0 \<and> (y mod 100 \<noteq> 0 \<or> y mod 400 = 0)"

definition days_before_year :: "int \<Rightarrow> int" where
  "days_before_year y = 365 * (y - 1) + (y - 1) div 4 - (y - 1) div 100 + (y - 1) div 400"

definition month_days :: "bool \<Rightarrow> int list" where
  "month_days leap = [31, if leap then 29 else 28, 31, 30, 31, 30, 31, 31, 30, 31, 30, 31]"

definition year_of_day :: "int \<Rightarrow> int" where
  "year_of_day n =
     (let y = 400 * n div 146097 + 1
      in if n < days_before_year y then y - 1 else if days_before_year (y + 1) \<le> n then y + 1 else y)"

text \<open>Walks the months of a year: the month and the day within it, both from 1.\<close>

fun month_walk :: "int \<Rightarrow> int list \<Rightarrow> int \<Rightarrow> int \<times> int" where
  "month_walk m [] d = (m, d + 1)"
| "month_walk m (l # ls) d = (if d < l then (m, d + 1) else month_walk (m + 1) ls (d - l))"

definition date_of_day :: "int \<Rightarrow> int \<times> int \<times> int" where
  "date_of_day n =
     (let y = year_of_day n; (m, d) = month_walk 1 (month_days (leap_year y)) (n - days_before_year y)
      in (y, m, d))"

text \<open>\<open>time.Date\<close>: a month out of range carries into the year, a day out of range into the month.\<close>

definition day_of_date :: "int \<Rightarrow> int \<Rightarrow> int \<Rightarrow> int" where
  "day_of_date y m d =
     (let y1 = y + (m - 1) div 12; m1 = (m - 1) mod 12
      in days_before_year y1 + sum_list (take (nat m1) (month_days (leap_year y1))) + d - 1)"

definition day_number :: "time \<Rightarrow> int" where
  "day_number t = t div day"

definition add_date :: "int \<Rightarrow> int \<Rightarrow> int \<Rightarrow> time \<Rightarrow> time" where
  "add_date years months days t =
     (case date_of_day (day_number t) of (y, m, d) \<Rightarrow>
        day * day_of_date (y + years) (m + months) (d + days) + t mod day)"

definition pad0 :: "nat \<Rightarrow> int \<Rightarrow> string" where
  "pad0 w n = (if n < 0 then ''-'' @ pad_left w (CHR ''0'') (dec_nat (nat (- n)))
               else pad_left w (CHR ''0'') (dec_nat (nat n)))"

definition format_date :: "time \<Rightarrow> string" where
  "format_date t =
     (case date_of_day (day_number t) of (y, m, d) \<Rightarrow> pad0 4 y @ ''-'' @ pad0 2 m @ ''-'' @ pad0 2 d)"

section \<open>The calendar is one to one\<close>

lemma div_pred:
  assumes "0 < (c :: int)"
  shows "y div c = (y - 1) div c + (if y mod c = 0 then 1 else 0)"
proof (cases "y mod c = 0")
  case True
  have "(y - 1) div c = y div c - 1"
    by (rule int_div_pos_eq[of _ _ _ "c - 1"]) (use True assms mult_div_mod_eq[of c y] in \<open>auto simp: algebra_simps\<close>)
  thus ?thesis using True by simp
next
  case False
  have "(y - 1) div c = y div c"
    by (rule int_div_pos_eq[of _ _ _ "y mod c - 1"])
      (use False assms mult_div_mod_eq[of c y] pos_mod_sign[OF assms, of y] pos_mod_bound[OF assms, of y]
        in \<open>auto simp del: pos_mod_sign\<close>)
  thus ?thesis using False by simp
qed

lemma days_before_year_step: "days_before_year (y + 1) = days_before_year y + (if leap_year y then 366 else 365)"
proof -
  define e :: "int \<Rightarrow> int" where "e c = (if y mod c = 0 then 1 else 0)" for c
  define q where "q c = (y - 1) div c" for c
  have d: "y div c = q c + e c" if "0 < c" for c unfolding e_def q_def by (rule div_pred[OF that])
  have "y mod 400 mod 100 = y mod 100" "y mod 100 mod 4 = y mod 4" by (rule mod_mod_cancel, simp)+
  hence m: "y mod 400 = 0 \<Longrightarrow> y mod 100 = 0" "y mod 100 = 0 \<Longrightarrow> y mod 4 = 0" by (metis mod_0)+
  have l: "(if leap_year y then 366 else 365) = 365 + e 4 - e 100 + e 400"
    unfolding leap_year_def e_def using m
    by (cases "y mod 400 = 0"; cases "y mod 100 = 0"; cases "y mod 4 = 0") simp_all
  have "days_before_year (y + 1) = 365 * y + y div 4 - y div 100 + y div 400"
    by (simp add: days_before_year_def)
  also have "\<dots> = 365 * y + (q 4 + e 4) - (q 100 + e 100) + (q 400 + e 400)" by (simp add: d)
  also have "\<dots> = (365 * (y - 1) + q 4 - q 100 + q 400) + (365 + e 4 - e 100 + e 400)" by (simp add: algebra_simps)
  also have "365 * (y - 1) + q 4 - q 100 + q 400 = days_before_year y" by (simp add: days_before_year_def q_def)
  finally show ?thesis unfolding l .
qed

lemma days_before_year_bounds:
  "146097 * (y - 1) - 699 \<le> 400 * days_before_year y" "400 * days_before_year y \<le> 146097 * (y - 1) + 396"
proof -
  have lo: "146097 * k - 699 \<le> 400 * (365 * k + a - b + c)" if "k \<le> 4 * a + 3" "100 * b \<le> k" "k \<le> 400 * c + 399"
    for k a b c :: int using that by (simp add: algebra_simps)
  have hi: "400 * (365 * k + a - b + c) \<le> 146097 * k + 396" if "4 * a \<le> k" "k \<le> 100 * b + 99" "400 * c \<le> k"
    for k a b c :: int using that by (simp add: algebra_simps)
  let ?k = "y - 1"
  have "4 * (?k div 4) \<le> ?k" "?k \<le> 4 * (?k div 4) + 3" "100 * (?k div 100) \<le> ?k"
    "?k \<le> 100 * (?k div 100) + 99" "400 * (?k div 400) \<le> ?k" "?k \<le> 400 * (?k div 400) + 399" by linarith+
  with lo[of ?k "?k div 4" "?k div 100" "?k div 400"] hi[of "?k div 4" ?k "?k div 100" "?k div 400"]
  show "146097 * (y - 1) - 699 \<le> 400 * days_before_year y" "400 * days_before_year y \<le> 146097 * (y - 1) + 396"
    unfolding days_before_year_def by blast+
qed

lemma year_of_day_bounds:
  "days_before_year (year_of_day n) \<le> n \<and> n < days_before_year (year_of_day n + 1)"
proof -
  define q where "q = 400 * n div 146097"
  define r where "r = 400 * n mod 146097"
  have "400 * n = 146097 * q + r" "0 \<le> r" "r < 146097" by (simp_all add: q_def r_def)
  hence q: "146097 * q \<le> 400 * n" "400 * n < 146097 * (q + 1)" by (simp_all add: algebra_simps)
  have lo: "days_before_year q \<le> n" using days_before_year_bounds(2)[of q] q(1) by (simp add: algebra_simps)
  have hi: "n < days_before_year (q + 1 + 2)" using days_before_year_bounds(1)[of "q + 1 + 2"] q(2) by (simp add: algebra_simps)
  show ?thesis
    using lo hi unfolding year_of_day_def q_def[symmetric] Let_def by (simp add: algebra_simps)
qed

lemma year_of_day_unique:
  assumes "days_before_year y \<le> n" "n < days_before_year (y + 1)"
  shows "year_of_day n = y"
proof -
  have mono: "days_before_year a \<le> days_before_year b" if "a \<le> b" for a b
    using that
  proof (induction "nat (b - a)" arbitrary: b)
    case (Suc k)
    have "days_before_year a \<le> days_before_year (b - 1)" using Suc by simp
    also have "\<dots> \<le> days_before_year b" using days_before_year_step[of "b - 1"] by simp
    finally show ?case .
  qed simp
  note b = year_of_day_bounds[of n]
  have "\<not> year_of_day n < y" using mono[of "year_of_day n + 1" y] assms(1) b by auto
  moreover have "\<not> y < year_of_day n" using mono[of "y + 1" "year_of_day n"] assms(2) b by auto
  ultimately show ?thesis by simp
qed

lemma month_walk_inv:
  assumes "0 \<le> d" "d < sum_list ls" "list_all (\<lambda>l. 0 < l) ls" "month_walk m ls d = (m', d')"
  shows "m \<le> m' \<and> m' < m + int (length ls) \<and> 1 \<le> d' \<and> d' \<le> ls ! nat (m' - m) \<and>
    sum_list (take (nat (m' - m)) ls) + d' - 1 = d"
  using assms
proof (induction m ls d arbitrary: m' d' rule: month_walk.induct)
  case (2 m l ls d)
  show ?case
  proof (cases "d < l")
    case False
    have i: "m + 1 \<le> m' \<and> m' < m + 1 + int (length ls) \<and> 1 \<le> d' \<and> d' \<le> ls ! nat (m' - (m + 1)) \<and>
        sum_list (take (nat (m' - (m + 1))) ls) + d' - 1 = d - l"
      using 2 False by auto
    have "nat (m' - m) = Suc (nat (m' - (m + 1)))" using i by linarith
    thus ?thesis using i by simp
  qed (use 2 in auto)
qed simp

lemma month_days_simps:
  "sum_list (month_days l) = (if l then 366 else 365)" "length (month_days l) = 12"
  "list_all (\<lambda>l. 0 < l) (month_days l)"
  by (simp_all add: month_days_def)

lemma date_of_day_range:
  assumes "date_of_day n = (y, m, d)"
  shows "1 \<le> m \<and> m \<le> 12 \<and> 1 \<le> d \<and> d \<le> month_days (leap_year y) ! nat (m - 1)"
    and "day_of_date y m d = n"
proof -
  let ?y = "year_of_day n"
  have w: "y = ?y" "month_walk 1 (month_days (leap_year ?y)) (n - days_before_year ?y) = (m, d)"
    using assms by (auto simp: date_of_day_def Let_def split: prod.splits)
  note b = year_of_day_bounds[of n] days_before_year_step[of ?y]
  note i = month_walk_inv[OF _ _ month_days_simps(3) w(2)]
  have r: "1 \<le> m \<and> m < 13 \<and> 1 \<le> d \<and> d \<le> month_days (leap_year ?y) ! nat (m - 1) \<and>
      sum_list (take (nat (m - 1)) (month_days (leap_year ?y))) + d - 1 = n - days_before_year ?y"
    using i b by (auto simp: month_days_simps)
  thus "1 \<le> m \<and> m \<le> 12 \<and> 1 \<le> d \<and> d \<le> month_days (leap_year y) ! nat (m - 1)" using w(1) by auto
  have "(m - 1) div 12 = 0" "(m - 1) mod 12 = m - 1" using r by (simp_all add: div_pos_pos_trivial)
  thus "day_of_date y m d = n" using r w(1) unfolding day_of_date_def Let_def by simp
qed

lemma add_date_0 [simp]: "add_date 0 0 0 t = t"
  using date_of_day_range(2) by (cases "date_of_day (day_number t)") (auto simp: add_date_def day_number_def)

lemma add_days: "add_date 0 0 k t = t + k * day"
proof -
  obtain y m d where e: "date_of_day (day_number t) = (y, m, d)" by (cases "date_of_day (day_number t)")
  have "day_of_date y m (d + k) = day_number t + k"
    using date_of_day_range(2)[OF e] unfolding day_of_date_def Let_def by linarith
  moreover have "add_date 0 0 k t = day * day_of_date y m (d + k) + t mod day" by (simp add: add_date_def e)
  moreover have "t = day * day_number t + t mod day" by (simp add: day_number_def)
  ultimately show ?thesis by (simp add: algebra_simps)
qed

text \<open>One year back is between 365 and 366 days back.\<close>

lemma one_year_back: "t - 366 * day \<le> add_date (-1) 0 0 t \<and> add_date (-1) 0 0 t \<le> t - 365 * day"
proof -
  obtain y m d where e: "date_of_day (day_number t) = (y, m, d)" by (cases "date_of_day (day_number t)")
  note r = date_of_day_range[OF e]
  have mm: "(m - 1) div 12 = 0" "(m - 1) mod 12 = m - 1" using r(1) by (simp_all add: div_pos_pos_trivial)
  have step: "days_before_year y = days_before_year (y - 1) + (if leap_year (y - 1) then 366 else 365)"
    using days_before_year_step[of "y - 1"] by simp
  have excl: "\<not> (leap_year y \<and> leap_year (y - 1))"
  proof
    assume l: "leap_year y \<and> leap_year (y - 1)"
    have "y mod 4 = 0" "(y - 1) mod 4 = 0" using l unfolding leap_year_def by blast+
    thus False by presburger
  qed
  let ?s = "\<lambda>y. sum_list (take (nat (m - 1)) (month_days (leap_year y)))"
  have "?s y - ?s (y - 1) = (if 3 \<le> m then (if leap_year y then 1 else 0) - (if leap_year (y - 1) then 1 else 0) else 0)"
  proof -
    have "m \<in> {1,2,3,4,5,6,7,8,9,10,11,12}" using r(1) by (simp, presburger)
    thus ?thesis by (auto simp: month_days_def take_Cons' )
  qed
  hence "day_of_date (y - 1) m d \<in> {day_number t - 366, day_number t - 365}"
    using r(2) excl step unfolding day_of_date_def Let_def mm by (auto split: if_splits)
  moreover have "add_date (-1) 0 0 t = day * day_of_date (y - 1) m d + t mod day" by (simp add: add_date_def e)
  moreover have "t = day * day_number t + t mod day" by (simp add: day_number_def)
  ultimately show ?thesis by (auto simp: algebra_simps day_def hour_def second_def)
qed

end
