(* ===== verification/Market_Signal.thy ===== *)
theory Market_Signal
  imports Finance_Scoring
begin

text \<open>
  Structured investing signals (\<open>internal/finance/marketsignal.go\<close>): the typed payloads, their
  decoding from a raw payload map, and the win probability they hint at.
\<close>

section \<open>Payloads\<close>

record price_move_payload =
  pm_pct_change :: f64
  pm_from_price :: f64
  pm_to_price :: f64
  pm_window_days :: int

record earnings_payload =
  ea_eps_actual :: f64
  ea_eps_estimate :: f64
  ea_surprise :: f64

record macro_payload =
  ma_indicator :: string
  ma_value :: f64
  ma_prior :: f64

record valuation_payload =
  va_metric :: string
  va_value :: f64
  va_fair_value :: f64
  va_gap_pct :: f64

record thesis_break_payload =
  tb_reason :: string
  tb_broken_level :: f64
  tb_hard :: bool

record market_signal =
  ms_kind :: string
  ms_ticker :: string
  ms_price_move :: "price_move_payload option"
  ms_earnings :: "earnings_payload option"
  ms_macro :: "macro_payload option"
  ms_valuation :: "valuation_payload option"
  ms_thesis_break :: "thesis_break_payload option"

definition KindPriceMove :: string where "KindPriceMove = ''price_move''"
definition KindEarnings :: string where "KindEarnings = ''earnings''"
definition KindMacro :: string where "KindMacro = ''macro''"
definition KindValuationChange :: string where "KindValuationChange = ''valuation_change''"
definition KindThesisBreak :: string where "KindThesisBreak = ''thesis_break''"

text \<open>
  The round trip of the payload through \<open>encoding/json\<close>: a number that is not finite cannot be
  marshalled; a field takes the last key that names it, exactly or up to case folding; a null
  leaves it alone, any other value of the wrong type is an error. (A \<open>window_days\<close> of 2^53 or
  more is decoded here exactly, not from its shortest decimal; nothing reads it.)
\<close>

fun json_finite :: "json \<Rightarrow> bool" where
  "json_finite (JNum x) = (case x of Fin _ \<Rightarrow> True | _ \<Rightarrow> False)"
| "json_finite (JArr xs) = list_all json_finite xs"
| "json_finite (JObj kvs) = list_all (\<lambda>kv. json_finite (snd kv)) kvs"
| "json_finite _ = True"

fun read_num :: "json \<Rightarrow> f64 option" where
  "read_num (JNum x) = Some x" | "read_num _ = None"

fun read_str :: "json \<Rightarrow> string option" where
  "read_str (JStr s) = Some s" | "read_str _ = None"

fun read_bool :: "json \<Rightarrow> bool option" where
  "read_bool (JBool b) = Some b" | "read_bool _ = None"

fun read_int :: "json \<Rightarrow> int option" where
  "read_int (JNum (Fin r)) =
     (if of_int \<lfloor>r\<rfloor> = r \<and> - (2 ^ 63) \<le> \<lfloor>r\<rfloor> \<and> \<lfloor>r\<rfloor> < 2 ^ 63 then Some \<lfloor>r\<rfloor> else None)"
| "read_int _ = None"

fun decode_field :: "unicode \<Rightarrow> string \<Rightarrow> (json \<Rightarrow> 'a option) \<Rightarrow> payload \<Rightarrow> 'a \<Rightarrow> 'a option" where
  "decode_field u name rd [] d = Some d"
| "decode_field u name rd ((k, v) # kvs) d =
     (if (k = name \<or> uc_equal_fold u k name) \<and> v \<noteq> JNull then
        (case rd v of None \<Rightarrow> None | Some x \<Rightarrow> decode_field u name rd kvs x)
      else decode_field u name rd kvs d)"

definition decode_price_move :: "unicode \<Rightarrow> payload \<Rightarrow> price_move_payload option" where
  "decode_price_move u p =
     (case (decode_field u ''pct_change'' read_num p 0, decode_field u ''from_price'' read_num p 0,
            decode_field u ''to_price'' read_num p 0, decode_field u ''window_days'' read_int p 0) of
        (Some a, Some b, Some c, Some d) \<Rightarrow>
          Some \<lparr>pm_pct_change = a, pm_from_price = b, pm_to_price = c, pm_window_days = d\<rparr>
      | _ \<Rightarrow> None)"

definition decode_earnings :: "unicode \<Rightarrow> payload \<Rightarrow> earnings_payload option" where
  "decode_earnings u p =
     (case (decode_field u ''eps_actual'' read_num p 0, decode_field u ''eps_estimate'' read_num p 0,
            decode_field u ''surprise'' read_num p 0) of
        (Some a, Some b, Some c) \<Rightarrow> Some \<lparr>ea_eps_actual = a, ea_eps_estimate = b, ea_surprise = c\<rparr>
      | _ \<Rightarrow> None)"

definition decode_macro :: "unicode \<Rightarrow> payload \<Rightarrow> macro_payload option" where
  "decode_macro u p =
     (case (decode_field u ''indicator'' read_str p '''', decode_field u ''value'' read_num p 0,
            decode_field u ''prior'' read_num p 0) of
        (Some a, Some b, Some c) \<Rightarrow> Some \<lparr>ma_indicator = a, ma_value = b, ma_prior = c\<rparr>
      | _ \<Rightarrow> None)"

definition decode_valuation :: "unicode \<Rightarrow> payload \<Rightarrow> valuation_payload option" where
  "decode_valuation u p =
     (case (decode_field u ''metric'' read_str p '''', decode_field u ''value'' read_num p 0,
            decode_field u ''fair_value'' read_num p 0, decode_field u ''gap_pct'' read_num p 0) of
        (Some a, Some b, Some c, Some d) \<Rightarrow>
          Some \<lparr>va_metric = a, va_value = b, va_fair_value = c, va_gap_pct = d\<rparr>
      | _ \<Rightarrow> None)"

definition decode_thesis_break :: "unicode \<Rightarrow> payload \<Rightarrow> thesis_break_payload option" where
  "decode_thesis_break u p =
     (case (decode_field u ''reason'' read_str p '''', decode_field u ''broken_level'' read_num p 0,
            decode_field u ''hard'' read_bool p False) of
        (Some a, Some b, Some c) \<Rightarrow> Some \<lparr>tb_reason = a, tb_broken_level = b, tb_hard = c\<rparr>
      | _ \<Rightarrow> None)"

definition string_field :: "payload \<Rightarrow> string \<Rightarrow> string" where
  "string_field p key = (case map_of p key of Some (JStr s) \<Rightarrow> s | _ \<Rightarrow> '''')"

text \<open>The error of \<open>encoding/json\<close> is an argument: its text is the library's.\<close>

definition parse_market_signal :: "unicode \<Rightarrow> go_error \<Rightarrow> string \<Rightarrow> payload \<Rightarrow> go_error + market_signal" where
  "parse_market_signal u json_err kind p =
     (let ms = \<lparr>ms_kind = kind, ms_ticker = string_field p ''ticker'', ms_price_move = None, ms_earnings = None,
                ms_macro = None, ms_valuation = None, ms_thesis_break = None\<rparr>;
          or_err = (\<lambda>r. case r of None \<Rightarrow> Inl json_err | Some m \<Rightarrow> Inr m)
      in if \<not> list_all (\<lambda>kv. json_finite (snd kv)) p
           then Inl (EWrap ''finance: marshal signal payload'' json_err)
         else if kind = KindPriceMove
           then or_err (map_option (\<lambda>x. ms\<lparr>ms_price_move := Some x\<rparr>) (decode_price_move u p))
         else if kind = KindEarnings
           then or_err (map_option (\<lambda>x. ms\<lparr>ms_earnings := Some x\<rparr>) (decode_earnings u p))
         else if kind = KindMacro
           then or_err (map_option (\<lambda>x. ms\<lparr>ms_macro := Some x\<rparr>) (decode_macro u p))
         else if kind = KindValuationChange
           then or_err (map_option (\<lambda>x. ms\<lparr>ms_valuation := Some x\<rparr>) (decode_valuation u p))
         else if kind = KindThesisBreak
           then or_err (map_option (\<lambda>x. ms\<lparr>ms_thesis_break := Some x\<rparr>) (decode_thesis_break u p))
         else Inl (EText (''finance: unknown signal kind '' @ uc_quote u kind)))"

definition is_thesis_break :: "market_signal \<Rightarrow> bool" where
  "is_thesis_break m \<longleftrightarrow> ms_kind m = KindThesisBreak"

definition win_prob_hint :: "market_signal \<Rightarrow> f64 option" where
  "win_prob_hint m =
     (case ms_valuation m of
        Some v \<Rightarrow> Some (clamp01 (lit (1/2) + va_gap_pct v / lit 2))
      | None \<Rightarrow>
          (case ms_earnings m of
             Some e \<Rightarrow> Some (clamp01 (lit (1/2) + ea_surprise e))
           | None \<Rightarrow>
               (case ms_price_move m of
                  Some x \<Rightarrow> Some (clamp01 (lit (1/2) - pm_pct_change x / lit 4))
                | None \<Rightarrow> None)))"

end
