(* ===== verification/Finance_Planner.thy ===== *)
theory Finance_Planner
  imports Go_Time Market_Signal Finance_Series Outcome_Fit Llm_Multi Llm_Cache
begin

text \<open>
  The numeric investing planner (\<open>internal/llm/finance_planner.go\<close>): scoring each candidate
  ticker, the portfolio pass, rendering and ranking the theses. The market data provider, the
  narrator and the clock's reading are arguments; the clock is in UTC. The properties say what
  the plan contains and in which order.
\<close>

section \<open>The planner\<close>

definition financePromptVersion :: string where "financePromptVersion = ''finance-v1''"
definition intendedNotional :: f64 where "intendedNotional = lit 1000000"
definition minValuationGap :: f64 where "minValuationGap = lit (5/100)"
definition financeDisclaimer :: string where
  "financeDisclaimer =
     ''Educational decision-support only. Not financial advice. Not a recommendation to buy or sell any security.''"

record finance_planner =
  fp_provider :: provider
  fp_scoring :: scoring_config
  fp_inner :: "named_planner option"
  fp_pack_id :: string
  fp_pack_version :: string
  fp_prompt_template :: string
  fp_calibration :: "calibration_curve option"
  fp_strategy_id :: string
  fp_prior_weights :: prior_weights
  fp_conf_weights :: score_weights

definition new_finance_planner :: "finance_planner \<Rightarrow> finance_planner" where
  "new_finance_planner cfg =
     (let scoring = normalize_config (fp_scoring cfg) in
      cfg\<lparr>fp_scoring := scoring,
          fp_pack_id := (if fp_pack_id cfg = '''' then ''investing'' else fp_pack_id cfg),
          fp_prior_weights := normalize_prior (fp_prior_weights cfg),
          fp_conf_weights := (if zero_weights (fp_conf_weights cfg) then sg_weights scoring else fp_conf_weights cfg)\<rparr>)"

definition finance_name :: "finance_planner \<Rightarrow> string" where
  "finance_name p = (if fp_strategy_id p = '''' then ''finance'' else ''finance:'' @ fp_strategy_id p)"

record scored_thesis =
  th_ticker :: string
  th_score :: thesis_score
  th_win_prob :: f64
  th_loss_frac :: f64
  th_bars :: "bar list"
  th_broken :: bool
  th_break_reason :: string

definition add_ticker :: "unicode \<Rightarrow> string list \<Rightarrow> string \<Rightarrow> string list" where
  "add_ticker u out t =
     (let t1 = uc_to_upper u (uc_trim_space u t)
      in if t1 \<noteq> '''' \<and> t1 \<notin> set out then out @ [t1] else out)"

definition candidate_tickers :: "unicode \<Rightarrow> goal \<Rightarrow> market_signal option \<Rightarrow> string list" where
  "candidate_tickers u g sig =
     (let out = foldl (add_ticker u) []
            (map as_name (filter (\<lambda>a. uc_equal_fold u (as_kind a) ''ticker'') (cx_assets (g_context g))))
      in case sig of None \<Rightarrow> out | Some s \<Rightarrow> add_ticker u out (ms_ticker s))"

fun first_horizon :: "unicode \<Rightarrow> (string \<times> string \<times> string) list \<Rightarrow> int" where
  "first_horizon u [] = 0"
| "first_horizon u ((kind, description, name) # xs) =
     (if uc_equal_fold u kind ''time_horizon'' then
        (if 0 < parse_horizon_days u description then parse_horizon_days u description
         else if 0 < parse_horizon_days u name then parse_horizon_days u name
         else first_horizon u xs)
      else first_horizon u xs)"

text \<open>The constraints are searched first, then the assets.\<close>

definition goal_horizon_days :: "unicode \<Rightarrow> goal \<Rightarrow> int" where
  "goal_horizon_days u g =
     first_horizon u (map (\<lambda>c. (co_kind c, co_description c, co_name c)) (cx_constraints (g_context g))
                      @ map (\<lambda>a. (as_kind a, as_description a, as_name a)) (cx_assets (g_context g)))"

definition zero_fundamentals :: fundamentals where
  "zero_fundamentals =
     \<lparr>fu_ticker = '''', fu_pe = 0, fu_pb = 0, fu_market_cap = 0, fu_eps = 0, fu_as_of = zero_time, fu_freshness = ''''\<rparr>"

text \<open>Whether the signal speaks about the ticker: it names no ticker, or this one.\<close>

definition targets :: "unicode \<Rightarrow> market_signal option \<Rightarrow> string \<Rightarrow> bool" where
  "targets u sig ticker =
     (case sig of None \<Rightarrow> False | Some s \<Rightarrow> ms_ticker s = '''' \<or> uc_equal_fold u (ms_ticker s) ticker)"

text \<open>The win probability, and whether anything informed it.\<close>

definition thesis_win_prob ::
  "finance_planner \<Rightarrow> fundamentals \<Rightarrow> f64 list \<Rightarrow> bool \<Rightarrow> market_signal option \<Rightarrow> f64 \<times> bool" where
  "thesis_win_prob p funds returns targeted sig =
     (let prior = (case win_prob_prior_weighted (compute_prior_tilts funds returns) (fp_prior_weights p) of
                     Some x \<Rightarrow> (x, True) | None \<Rightarrow> (lit (1/2), False));
          hint = (if targeted then Option.bind sig win_prob_hint else None)
      in case hint of Some wp \<Rightarrow> (wp, True) | None \<Rightarrow> prior)"

text \<open>The stop distance and the upside.\<close>

definition stop_distance :: "f64 \<Rightarrow> f64 \<Rightarrow> int \<Rightarrow> f64" where
  "stop_distance vol interval goal_days =
     (let h0 = (if goal_days \<le> 0 then DefaultHoldingDays else goal_days);
          h = (if MaxStopHoldingDays < h0 then MaxStopHoldingDays else h0);
          l0 = scaled_vol vol interval h;
          l1 = (if l0 < lit (5/100) then lit (5/100) else l0)
      in if lit (35/100) < l1 then lit (35/100) else l1)"

definition thesis_upside :: "finance_planner \<Rightarrow> f64 \<Rightarrow> bool \<Rightarrow> market_signal option \<Rightarrow> f64" where
  "thesis_upside p loss targeted sig =
     (let ratio = (if sg_reward_risk_ratio (fp_scoring p) \<le> 0 then lit 2 else sg_reward_risk_ratio (fp_scoring p))
      in case (if targeted then Option.bind sig ms_valuation else None) of
           Some v \<Rightarrow>
             if minValuationGap \<le> va_gap_pct v then (if 1 < va_gap_pct v then 1 else va_gap_pct v)
             else ratio * loss
         | None \<Rightarrow> ratio * loss)"

definition ok_or :: "'a \<Rightarrow> go_error + 'a \<Rightarrow> 'a" where
  "ok_or d r = (case r of Inl _ \<Rightarrow> d | Inr x \<Rightarrow> x)"

definition score_thesis ::
  "unicode \<Rightarrow> finance_planner \<Rightarrow> string \<Rightarrow> goal \<Rightarrow> market_signal option \<Rightarrow> time \<Rightarrow> risk_budget \<Rightarrow> scored_thesis" where
  "score_thesis u p ticker g sig as_of budget =
     (let pv = fp_provider p;
          avg_dollar_vol = ok_or 0 (map_sum id qt_avg_dollar_volume (pv_quote pv ticker as_of));
          bars = ok_or [] (pv_bars pv ticker (add_date (-1) 0 0 as_of) as_of);
          returns = returns_of bars;
          vol = volatility returns;
          max_dd = max_drawdown bars;
          interval = bar_interval_days bars;
          funds = ok_or zero_fundamentals (pv_fundamentals pv ticker as_of);
          targeted = targets u sig ticker;
          (win_prob, informed) = thesis_win_prob p funds returns targeted sig;
          goal_days = goal_horizon_days u g;
          loss = stop_distance vol interval goal_days;
          win = thesis_upside p loss targeted sig;
          eq = rb_account_equity budget;
          notional = (if 0 < eq \<and> 0 < rb_max_position_pct budget then eq * rb_max_position_pct budget
                      else intendedNotional);
          ev = (if informed then ev_score (expected_value win_prob win loss) else NeutralEVScore);
          implied = vol_implied_horizon_days win vol interval;
          hfit = (if 0 < goal_days \<and> 0 < implied then horizon_fit goal_days implied else lit (1/2));
          score0 = \<lparr>ts_ticker = ticker, ts_expected_value_score = ev, ts_risk_score = risk_score vol max_dd,
                    ts_liquidity_fit_score = liquidity_fit avg_dollar_vol notional, ts_horizon_fit_score = hfit,
                    ts_composite = 0, ts_position = unsized '''', ts_explain = ''''\<rparr>;
          score = score0\<lparr>ts_composite := composite score0 (sg_weights (fp_scoring p)),
                         ts_position := position_fraction_kelly win_prob win loss budget\<rparr>;
          broken = (case sig of None \<Rightarrow> False | Some s \<Rightarrow> is_thesis_break s \<and> targeted)
      in \<lparr>th_ticker = ticker, th_score = score, th_win_prob = win_prob, th_loss_frac = loss, th_bars = bars,
          th_broken = broken,
          th_break_reason = (if broken then (case Option.bind sig ms_thesis_break of Some b \<Rightarrow> tb_reason b | None \<Rightarrow> '''')
                             else '''')\<rparr>)"

definition cap_suffix :: "string \<Rightarrow> string" where
  "cap_suffix bound = (if bound = '''' then '''' else '', capped by '' @ bound)"

definition explain_score :: "scored_thesis \<Rightarrow> thesis_score \<Rightarrow> f64 \<Rightarrow> f64 \<Rightarrow> f64 \<Rightarrow> string \<Rightarrow> string" where
  "explain_score th score scale aggregate aggregate_cap budget_note =
     ''ev='' @ fmt_fixed 2 (ts_expected_value_score score) @ '' (p='' @ fmt_fixed 2 (th_win_prob th)
     @ '') risk='' @ fmt_fixed 2 (ts_risk_score score) @ '' liq='' @ fmt_fixed 2 (ts_liquidity_fit_score score)
     @ '' horizon='' @ fmt_fixed 2 (ts_horizon_fit_score score) @ '' -> composite='' @ fmt_fixed 2 (ts_composite score)
     @ ''; suggested size '' @ fmt_fixed 1 (ps_suggested_fraction (ts_position score) * lit 100) @ ''% of equity (''
     @ ps_sizing_method (ts_position score) @ cap_suffix (ps_binding_cap (ts_position score)) @ '')''
     @ (if budget_note \<noteq> '''' then ''; risk budget per goal constraints: '' @ budget_note else '''')
     @ (if scale < 1 then ''; portfolio risk cap binds: sizes scaled by '' @ fmt_fixed 2 scale
          @ '' (correlated capital at risk '' @ fmt_fixed 1 (aggregate * lit 100) @ ''% -> ''
          @ fmt_fixed 1 (aggregate_cap * lit 100) @ ''% of equity)'' else '''')"

text \<open>The stated confidence: on the shared yardstick, then through the calibration curve.\<close>

definition calibrated :: "finance_planner \<Rightarrow> f64 \<Rightarrow> f64" where
  "calibrated p raw =
     (case fp_calibration p of None \<Rightarrow> raw | Some c \<Rightarrow> if c \<noteq> [] then curve_apply c raw else raw)"

definition scaled_score :: "f64 \<Rightarrow> thesis_score \<Rightarrow> thesis_score" where
  "scaled_score scale score =
     (let ps = ts_position score in
      if scale < 1 \<and> 0 < ps_suggested_fraction ps
      then score\<lparr>ts_position := ps\<lparr>ps_suggested_fraction := ps_suggested_fraction ps * scale,
                                  ps_binding_cap := ''portfolio_risk''\<rparr>\<rparr>
      else score)"

definition build_move :: "finance_planner \<Rightarrow> scored_thesis \<Rightarrow> f64 \<Rightarrow> f64 \<Rightarrow> f64 \<Rightarrow> string \<Rightarrow> move" where
  "build_move p th scale aggregate aggregate_cap budget_note =
     (let score = scaled_score scale (th_score th);
          explain = explain_score th score scale aggregate aggregate_cap budget_note;
          shared = score\<lparr>ts_composite := composite score (fp_conf_weights p)\<rparr>;
          (impact, effort, risk) = map_to_levels shared;
          raw = composite_to_confidence (ts_composite shared);
          m = \<lparr>m_rank = 0, m_key = ''thesis:'' @ th_ticker th, m_title = ''Thesis: '' @ th_ticker th,
               m_description = ''Position in '' @ th_ticker th
                 @ '' sized to the risk budget; entry on confirmation, exit on thesis invalidation.'',
               m_confidence = clamp_confidence (calibrated p raw), m_raw_confidence = clamp_confidence raw,
               m_expected_impact = impact, m_effort = effort, m_risk = risk, m_rationale = explain,
               m_experiment =
                 \<lparr>ex_title = ''Initiate a starter position in '' @ th_ticker th, ex_duration_days = 30,
                  ex_success_signals = [''Thesis driver confirmed by subsequent data'',
                    ''Position performs in line with the expected-value case''],
                  ex_kill_criteria = [''Price breaches the ~'' @ fmt_fixed 0 (th_loss_frac th * lit 100) @ ''% stop distance'',
                    ''A thesis-invalidation event occurs (the claim is proven wrong)'']\<rparr>,
               m_fallback_moves = [''Reduce to a half-size starter'', ''Wait for a better entry''],
               m_depends_on = [], m_parallel_group = ''portfolio''\<rparr>
      in if th_broken th
         then m\<lparr>m_confidence := 0, m_raw_confidence := 0, m_risk := LevelHigh, m_expected_impact := LevelLow,
                m_rationale := ''Thesis invalidated: '' @ th_break_reason th @ ''. '' @ m_rationale m\<rparr>
         else m)"

definition narration_note :: "string \<Rightarrow> move list \<Rightarrow> string" where
  "narration_note note moves =
     (if note \<noteq> '''' then note @ [CHR 10] else '''')
     @ ''Numeric thesis scores (authoritative; narrate, do not change them):''
     @ concat (map (\<lambda>m. [CHR 10] @ ''- '' @ m_title m @ '': '' @ m_rationale m) moves)"

definition insufficient_data_move :: "unicode \<Rightarrow> goal \<Rightarrow> move" where
  "insufficient_data_move u g =
     zero_move\<lparr>m_key := ''insufficient-market-data'', m_title := ''Insufficient market data'',
       m_description := ''No tickers were provided for '' @ uc_quote u (g_objective g) @ '', so no thesis could be scored.'',
       m_confidence := lit (2/10), m_expected_impact := LevelLow, m_effort := LevelLow, m_risk := LevelLow,
       m_rationale := ''Add assets with kind '' @ quoted ''ticker'' @ '' (or a signal naming a ticker) to enable numeric scoring.'',
       m_experiment :=
         \<lparr>ex_title = ''Specify the investable universe'', ex_duration_days = 1,
          ex_success_signals = [''At least one ticker is available to score''],
          ex_kill_criteria = [''No instruments can be identified for this goal'']\<rparr>,
       m_fallback_moves := [''Use the qualitative investing planner instead'']\<rparr>"

text \<open>
  The order of the theses: lens composite (0 for a broken thesis), then raw confidence, both
  descending, then key. \<open>sort_by\<close> is \<open>sort.SliceStable\<close> for a comparison that orders the
  entries, which this one does unless a score is a NaN.
\<close>

type_synonym ranked_entry = "move \<times> f64"

definition entry_before :: "ranked_entry \<Rightarrow> ranked_entry \<Rightarrow> bool" where
  "entry_before a b =
     (if \<not> feq (snd a) (snd b) then snd b < snd a
      else if \<not> feq (m_raw_confidence (fst a)) (m_raw_confidence (fst b))
        then m_raw_confidence (fst b) < m_raw_confidence (fst a)
      else str_less (m_key (fst a)) (m_key (fst b)))"

definition parse_request_signal :: "unicode \<Rightarrow> go_error \<Rightarrow> plan_request \<Rightarrow> market_signal option" where
  "parse_request_signal u json_err req =
     (if rq_signal_payload req = [] then None
      else
        let kind = (if rq_signal_kind req = '''' then string_field (rq_signal_payload req) ''kind'' else rq_signal_kind req)
        in case parse_market_signal u json_err kind (rq_signal_payload req) of Inl _ \<Rightarrow> None | Inr ms \<Rightarrow> Some ms)"

definition position_of :: "scored_thesis \<Rightarrow> portfolio_position" where
  "position_of th =
     \<lparr>po_ticker = th_ticker th,
      po_fraction = (if th_broken th then 0 else ps_suggested_fraction (ts_position (th_score th))),
      po_stop_frac = th_loss_frac th, po_bars = th_bars th\<rparr>"

definition finance_entries ::
  "unicode \<Rightarrow> finance_planner \<Rightarrow> plan_request \<Rightarrow> market_signal option \<Rightarrow> time \<Rightarrow> ranked_entry list" where
  "finance_entries u p req sig as_of =
     (let g = rq_goal req;
          (budget, budget_note) = effective_risk_budget u (sg_risk (fp_scoring p)) (cx_constraints (g_context g));
          theses = map (\<lambda>t. score_thesis u p t g sig as_of budget) (candidate_tickers u g sig);
          (scale, aggregate) = scale_to_risk_cap (map position_of theses) (rb_max_aggregate_risk_pct budget)
      in map (\<lambda>th. (build_move p th scale aggregate (rb_max_aggregate_risk_pct budget) budget_note,
                    if th_broken th then 0 else ts_composite (th_score th))) theses)"

definition set_rank :: "int \<Rightarrow> move \<Rightarrow> move" where
  "set_rank i m = m\<lparr>m_rank := i\<rparr>"

definition finance_moves ::
  "unicode \<Rightarrow> finance_planner \<Rightarrow> plan_request \<Rightarrow> market_signal option \<Rightarrow> time \<Rightarrow> move list" where
  "finance_moves u p req sig as_of =
     (let moves = map fst (sort_by entry_before (finance_entries u p req sig as_of))
      in number_from set_rank 1 (if moves = [] then [insufficient_data_move u (rq_goal req)] else moves))"

text \<open>What the narrator is asked, shared with the strategy selector, and what it adds.\<close>

definition narration_request :: "string \<Rightarrow> plan_request \<Rightarrow> move list \<Rightarrow> plan_request" where
  "narration_request template req moves =
     zero_request\<lparr>rq_goal := rq_goal req, rq_signal_note := narration_note (rq_signal_note req) moves,
       rq_system_prompt_override :=
         (if rq_system_prompt_override req = '''' then template else rq_system_prompt_override req)\<rparr>"

definition narrate :: "named_planner option \<Rightarrow> string \<Rightarrow> plan_request \<Rightarrow> move list \<Rightarrow> (string \<times> model_contribution) option" where
  "narrate inner template req moves =
     (case inner of
        None \<Rightarrow> None
      | Some q \<Rightarrow>
          (case np_generate q (narration_request template req moves) of
             Inl _ \<Rightarrow> None
           | Inr r \<Rightarrow>
               if rs_summary r = '''' then None
               else Some (rs_summary r,
                 \<lparr>mc_planner = np_name q, mc_model = mi_model (rs_invocation r), mc_role = ''narrator'',
                  mc_prompt_tokens = mi_prompt_tokens (rs_invocation r),
                  mc_completion_tokens = mi_completion_tokens (rs_invocation r)\<rparr>)))"

definition finance_reasoning :: string where
  "finance_reasoning =
     ''Each thesis is scored on expected value, risk (volatility/drawdown), liquidity and horizon fit; ''
     @ ''sizing is illustrative fractional-Kelly bounded by the risk budget.''"

definition finance_generate ::
  "unicode \<Rightarrow> encoders \<Rightarrow> go_error \<Rightarrow> finance_planner \<Rightarrow> time \<Rightarrow> planner" where
  "finance_generate u enc json_err p as_of req =
     (let g = rq_goal req in
      if g_objective g = '''' then Inl (EText ''llm: goal objective is required'')
      else
        let sig = parse_request_signal u json_err req;
            moves = finance_moves u p req sig as_of;
            narration = narrate (fp_inner p) (fp_prompt_template p) req moves
        in Inr \<lparr>rs_summary = ''Ranked, numerically-scored theses toward '' @ uc_quote u (g_objective g) @ ''. ''
                  @ financeDisclaimer,
                rs_ranked_moves = moves,
                rs_provenance = zero_provenance\<lparr>
                  pr_reasoning_summary := (case narration of None \<Rightarrow> finance_reasoning
                    | Some (s, _) \<Rightarrow> s @ '' '' @ finance_reasoning),
                  pr_input_snapshot_id := input_snapshot_id (enc_snapshot enc) (enc_hexsha enc) g (rq_signal_note req),
                  pr_planner := finance_name p, pr_prompt_version := financePromptVersion, pr_model := ''none'',
                  pr_strategy := ''single'', pr_pack_id := fp_pack_id p, pr_pack_version := fp_pack_version p,
                  pr_contributors := (case narration of None \<Rightarrow> [] | Some (_, c) \<Rightarrow> [c])\<rparr>,
                rs_invocation = zero_invocation\<lparr>mi_model := ''none'', mi_prompt_version := financePromptVersion\<rparr>\<rparr>)"

section \<open>The ranked theses\<close>

lemma add_ticker_distinct: "distinct out \<Longrightarrow> distinct (add_ticker u out t)"
  by (simp add: add_ticker_def Let_def)

lemma add_tickers_distinct: "distinct out \<Longrightarrow> distinct (foldl (add_ticker u) out ts)"
  by (induction ts arbitrary: out) (auto intro: add_ticker_distinct)

lemma candidate_tickers_distinct: "distinct (candidate_tickers u g sig)"
  by (auto simp: candidate_tickers_def Let_def intro!: add_ticker_distinct add_tickers_distinct split: option.splits)

lemma score_thesis_simps [simp]:
  "th_ticker (score_thesis u p t g sig as_of budget) = t"
  "th_broken (score_thesis u p t g sig as_of budget) \<longleftrightarrow>
     (\<exists>s. sig = Some s \<and> is_thesis_break s \<and> targets u sig t)"
  by (auto simp: score_thesis_def Let_def split: prod.splits option.splits)

lemma build_move_simps [simp]:
  "m_key (build_move p th scale agg cap note) = ''thesis:'' @ th_ticker th"
  "th_broken th \<Longrightarrow> m_confidence (build_move p th scale agg cap note) = Fin 0"
  "th_broken th \<Longrightarrow> m_risk (build_move p th scale agg cap note) = LevelHigh"
  by (simp_all add: build_move_def Let_def split: prod.splits)

lemma build_move_unit:
  "unit_or_NaN (m_confidence (build_move p th scale agg cap note))"
  "unit_or_NaN (m_raw_confidence (build_move p th scale agg cap note))"
proof -
  have z: "unit_or_NaN (Fin 0)" by (simp add: unit_or_NaN_def)
  show "unit_or_NaN (m_confidence (build_move p th scale agg cap note))"
    "unit_or_NaN (m_raw_confidence (build_move p th scale agg cap note))"
    using z by (simp_all add: build_move_def Let_def clamp_confidence_clamp01 split: prod.splits)
qed

text \<open>Every candidate gives one entry, whose move is its thesis.\<close>

lemma finance_entries_spec:
  "map (\<lambda>e. m_key (fst e)) (finance_entries u p req sig as_of) =
     map (\<lambda>t. ''thesis:'' @ t) (candidate_tickers u (rq_goal req) sig)"
  "e \<in> set (finance_entries u p req sig as_of) \<Longrightarrow>
     unit_or_NaN (m_confidence (fst e)) \<and> unit_or_NaN (m_raw_confidence (fst e))"
  "e \<in> set (finance_entries u p req sig as_of) \<Longrightarrow> sig = Some s \<Longrightarrow> is_thesis_break s \<Longrightarrow>
     m_key (fst e) = ''thesis:'' @ t \<Longrightarrow> targets u sig t \<Longrightarrow>
     m_confidence (fst e) = Fin 0 \<and> m_risk (fst e) = LevelHigh"
  by (auto simp: finance_entries_def Let_def comp_def build_move_unit split: prod.splits)

section \<open>The order\<close>

lemma sorted_insert_by_on:
  assumes "\<And>a b c. a \<in> S \<Longrightarrow> b \<in> S \<Longrightarrow> c \<in> S \<Longrightarrow> \<not> lt b a \<Longrightarrow> \<not> lt c b \<Longrightarrow> \<not> lt c a"
    and "\<And>a b. a \<in> S \<Longrightarrow> b \<in> S \<Longrightarrow> lt a b \<Longrightarrow> \<not> lt b a" and "insert x (set xs) \<subseteq> S"
  shows "sorted_wrt (\<lambda>a b. \<not> lt b a) xs \<Longrightarrow> sorted_wrt (\<lambda>a b. \<not> lt b a) (insert_by lt x xs)"
  using assms(3)
proof (induction xs)
  case (Cons y ys)
  show ?case
  proof (cases "lt y x")
    case True
    hence "\<not> lt x y" using assms(2) Cons.prems by simp
    thus ?thesis using Cons True by auto
  next
    case False
    have "\<not> lt z x" if "z \<in> set ys" for z
      using assms(1)[of x y z] False Cons.prems that by auto
    thus ?thesis using False Cons.prems by auto
  qed
qed simp

lemma sorted_sort_by_on:
  assumes "\<And>a b c. a \<in> S \<Longrightarrow> b \<in> S \<Longrightarrow> c \<in> S \<Longrightarrow> \<not> lt b a \<Longrightarrow> \<not> lt c b \<Longrightarrow> \<not> lt c a"
    and "\<And>a b. a \<in> S \<Longrightarrow> b \<in> S \<Longrightarrow> lt a b \<Longrightarrow> \<not> lt b a" and "set xs \<subseteq> S"
  shows "sorted_wrt (\<lambda>a b. \<not> lt b a) (sort_by lt xs)"
  using assms(3)
proof (induction xs)
  case (Cons x xs)
  show ?case
    unfolding sort_by.simps
  proof (rule sorted_insert_by_on[where S = S, OF assms(1,2)])
    show "insert x (set (sort_by lt xs)) \<subseteq> S" using Cons.prems by simp
    show "sorted_wrt (\<lambda>a b. \<not> lt b a) (sort_by lt xs)" using Cons by simp
  qed
qed simp

definition numeric_entry :: "ranked_entry \<Rightarrow> bool" where
  "numeric_entry e \<longleftrightarrow> snd e \<noteq> NaN \<and> m_raw_confidence (fst e) \<noteq> NaN"

text \<open>One component of the lexicographic comparison.\<close>

lemma lex_not:
  "x \<noteq> NaN \<Longrightarrow> y \<noteq> NaN \<Longrightarrow> \<not> (if \<not> feq y x then x < y else P) \<longleftrightarrow> y < x \<or> (y = x \<and> \<not> P)"
  by (cases x; cases y) auto

lemma lex_trans:
  "y < x \<or> (y = x \<and> P) \<Longrightarrow> z < y \<or> (z = y \<and> Q) \<Longrightarrow> (P \<Longrightarrow> Q \<Longrightarrow> R) \<Longrightarrow> z < (x :: f64) \<or> (z = x \<and> R)"
  by (auto intro: flt_trans)

lemma lex2:
  assumes "x \<noteq> NaN" "y \<noteq> NaN" "p \<noteq> NaN" "q \<noteq> NaN"
  shows "\<not> (if \<not> feq y x then x < y else if \<not> feq q p then p < q else R) \<longleftrightarrow>
    y < x \<or> (y = x \<and> (q < p \<or> (q = p \<and> \<not> R)))"
  unfolding lex_not[OF assms(1,2)] lex_not[OF assms(3,4)] ..

lemma lex2_trans:
  assumes "y < x \<or> (y = x \<and> (q < p \<or> (q = p \<and> P)))" "z < y \<or> (z = y \<and> (r < q \<or> (r = q \<and> Q)))" "P \<Longrightarrow> Q \<Longrightarrow> R"
  shows "z < (x :: f64) \<or> (z = x \<and> (r < (p :: f64) \<or> (r = p \<and> R)))"
  by (rule lex_trans[OF assms(1,2)]) (rule lex_trans, assumption, assumption, rule assms(3))

lemma lex_asym:
  "(if \<not> feq x y then y < x else P) \<Longrightarrow> (P \<Longrightarrow> \<not> Q) \<Longrightarrow> \<not> (if \<not> feq y x then x < (y :: f64) else Q)"
  by (cases x; cases y) auto

text \<open>Not being before, spelled out on numeric entries.\<close>

lemma not_entry_before:
  assumes "numeric_entry a" "numeric_entry b"
  shows "\<not> entry_before b a \<longleftrightarrow> snd b < snd a \<or> (snd b = snd a \<and>
    (m_raw_confidence (fst b) < m_raw_confidence (fst a) \<or>
     (m_raw_confidence (fst b) = m_raw_confidence (fst a) \<and> \<not> str_less (m_key (fst b)) (m_key (fst a)))))"
proof -
  have n: "snd a \<noteq> NaN" "snd b \<noteq> NaN" "m_raw_confidence (fst a) \<noteq> NaN" "m_raw_confidence (fst b) \<noteq> NaN"
    using assms by (simp_all add: numeric_entry_def)
  show ?thesis unfolding entry_before_def by (rule lex2[OF n])
qed

lemma not_str_less_trans: "\<not> str_less b a \<Longrightarrow> \<not> str_less c b \<Longrightarrow> \<not> str_less c a"
proof
  assume h: "\<not> str_less b a" "\<not> str_less c b" "str_less c a"
  hence "a = b \<or> str_less a b" using str_less_total[of a b] by auto
  hence "str_less c b" using h(3) str_less_trans[of c a b] by auto
  thus False using h(2) by simp
qed

lemma entry_order:
  assumes "list_all numeric_entry es"
  shows "sorted_wrt (\<lambda>a b. \<not> entry_before b a) (sort_by entry_before es)"
proof (rule sorted_sort_by_on[where S = "{e. numeric_entry e}"])
  fix a b c assume "a \<in> {e. numeric_entry e}" "b \<in> {e. numeric_entry e}" "c \<in> {e. numeric_entry e}"
    "\<not> entry_before b a" "\<not> entry_before c b"
  thus "\<not> entry_before c a"
    unfolding mem_Collect_eq
    by (simp only: not_entry_before) (rule lex2_trans, assumption, assumption, rule not_str_less_trans)
next
  fix a b assume "entry_before a b"
  thus "\<not> entry_before b a"
    unfolding entry_before_def by (rule lex_asym) (rule lex_asym, assumption, rule str_less_asym)
qed (use assms in \<open>auto simp: list_all_iff\<close>)

section \<open>The plan\<close>

lemma finance_moves_spec:
  fixes u p req sig as_of
  defines "es \<equiv> sort_by entry_before (finance_entries u p req sig as_of)"
    and "ms \<equiv> finance_moves u p req sig as_of"
  shows "map m_rank ms = [1..int (length ms)]"
    and "ms \<noteq> []"
    and "map m_key ms = (if es = [] then [''insufficient-market-data''] else map (\<lambda>e. m_key (fst e)) es)"
    and "m \<in> set ms \<Longrightarrow> (\<exists>e \<in> set es. m = (fst e)\<lparr>m_rank := m_rank m\<rparr>) \<or>
      m = (insufficient_data_move u (rq_goal req))\<lparr>m_rank := m_rank m\<rparr>"
proof -
  let ?l = "if es = [] then [insufficient_data_move u (rq_goal req)] else map fst es"
  have ms: "ms = number_from set_rank 1 ?l" by (simp add: ms_def es_def finance_moves_def Let_def)
  have "map m_rank (number_from set_rank 1 xs) = [1..int (length xs)]" for xs
    by (rule nth_equalityI) (simp_all add: set_rank_def)
  thus "map m_rank ms = [1..int (length ms)]" by (simp add: ms)
  have "length ms = length ?l" by (simp add: ms)
  thus "ms \<noteq> []" by (auto split: if_splits)
  have "map m_key ms = map m_key ?l" unfolding ms by (rule map_number_from) (simp add: set_rank_def)
  thus "map m_key ms = (if es = [] then [''insufficient-market-data''] else map (\<lambda>e. m_key (fst e)) es)"
    by (simp add: insufficient_data_move_def comp_def)
  assume "m \<in> set ms"
  then obtain k where k: "k < length ?l" "m = set_rank (1 + int k) (?l ! k)"
    unfolding ms by (auto simp: in_set_conv_nth simp del: if_split)
  hence m: "m = (?l ! k)\<lparr>m_rank := m_rank m\<rparr>" by (simp add: set_rank_def)
  show "(\<exists>e \<in> set es. m = (fst e)\<lparr>m_rank := m_rank m\<rparr>) \<or>
      m = (insufficient_data_move u (rq_goal req))\<lparr>m_rank := m_rank m\<rparr>"
  proof (cases "es = []")
    case True
    thus ?thesis using k(1) m by simp
  next
    case False
    hence "k < length es" "?l ! k = fst (es ! k)" using k(1) by simp_all
    thus ?thesis using m nth_mem by metis
  qed
qed

text \<open>
  C14: the finance planner fails exactly on a goal without an objective; otherwise its plan ranks
  every candidate ticker exactly once, from 1, never empty (a goal without tickers gets the one
  move that asks for data), in the order of lens composite, raw confidence and key when the scores
  are numbers. Confidences are between 0 and 1 (or a NaN, when the market data makes one), and a
  thesis that the signal breaks has confidence 0 and high risk, whatever its scores.
\<close>

theorem finance_plan_ranks_theses:
  fixes u p req as_of enc je
  defines "sig \<equiv> parse_request_signal u je req"
    and "ts \<equiv> candidate_tickers u (rq_goal req) (parse_request_signal u je req)"
    and "es \<equiv> finance_entries u p req (parse_request_signal u je req) as_of"
  shows "case finance_generate u enc je p as_of req of
     Inl _ \<Rightarrow> g_objective (rq_goal req) = ''''
   | Inr r \<Rightarrow> let ms = rs_ranked_moves r in
       g_objective (rq_goal req) \<noteq> '''' \<and> map m_rank ms = [1..int (length ms)] \<and> distinct (map m_key ms) \<and>
       mset (map m_key ms) = mset (if ts = [] then [''insufficient-market-data''] else map (\<lambda>t. ''thesis:'' @ t) ts) \<and>
       (list_all numeric_entry es \<and> ts \<noteq> [] \<longrightarrow> (\<exists>es'. mset es' = mset es \<and>
          map m_key ms = map (\<lambda>e. m_key (fst e)) es' \<and> sorted_wrt (\<lambda>a b. \<not> entry_before b a) es')) \<and>
       (\<forall>m \<in> set ms. unit_or_NaN (m_confidence m) \<and> unit_or_NaN (m_raw_confidence m) \<and>
          (\<forall>s t. sig = Some s \<and> is_thesis_break s \<and> m_key m = ''thesis:'' @ t \<and> targets u sig t \<longrightarrow>
             m_confidence m = Fin 0 \<and> m_risk m = LevelHigh))"
proof (cases "g_objective (rq_goal req) = ''''")
  case True
  thus ?thesis by (simp add: finance_generate_def)
next
  case False
  let ?ms = "finance_moves u p req sig as_of" and ?s = "sort_by entry_before es"
  obtain r where r: "finance_generate u enc je p as_of req = Inr r" "rs_ranked_moves r = ?ms"
    using False by (simp add: finance_generate_def Let_def sig_def)
  note f = finance_moves_spec[where u = u and p = p and req = req and sig = sig and as_of = as_of]
  have s: "sort_by entry_before (finance_entries u p req sig as_of) = ?s" by (simp add: es_def sig_def)
  have keys: "map (\<lambda>e. m_key (fst e)) es = map (\<lambda>t. ''thesis:'' @ t) ts"
    using finance_entries_spec(1)[of u p req sig as_of] by (simp add: es_def ts_def sig_def)
  have empty: "?s = [] \<longleftrightarrow> ts = []"
  proof -
    have "length ?s = length ts" using arg_cong[OF keys, of length] by simp
    thus ?thesis by (metis length_0_conv)
  qed
  have ks: "mset (map (\<lambda>e. m_key (fst e)) ?s) = mset (map (\<lambda>t. ''thesis:'' @ t) ts)"
    using arg_cong[OF keys, of mset] by (simp only: mset_map mset_sort_by)
  have mk: "map m_key ?ms = (if ts = [] then [''insufficient-market-data''] else map (\<lambda>e. m_key (fst e)) ?s)"
    using f(3) empty unfolding s by simp
  have m: "mset (map m_key ?ms) = mset (if ts = [] then [''insufficient-market-data''] else map (\<lambda>t. ''thesis:'' @ t) ts)"
    using ks unfolding mk by (simp split: if_split)
  have "distinct ts" by (simp add: ts_def candidate_tickers_distinct)
  hence "distinct (if ts = [] then [''insufficient-market-data''] else map (\<lambda>t. ''thesis:'' @ t) ts)"
    by (simp add: distinct_map inj_on_def)
  hence d: "distinct (map m_key ?ms)" using mset_eq_imp_distinct_iff[OF m] by blast
  have srt: "\<exists>es'. mset es' = mset es \<and> map m_key ?ms = map (\<lambda>e. m_key (fst e)) es' \<and>
      sorted_wrt (\<lambda>a b. \<not> entry_before b a) es'" if "list_all numeric_entry es" "ts \<noteq> []"
    using entry_order[OF that(1)] mk that(2) by (intro exI[of _ ?s]) simp
  have "unit_or_NaN (m_confidence x) \<and> unit_or_NaN (m_raw_confidence x) \<and>
      (\<forall>s t. sig = Some s \<and> is_thesis_break s \<and> m_key x = ''thesis:'' @ t \<and> targets u sig t \<longrightarrow>
         m_confidence x = Fin 0 \<and> m_risk x = LevelHigh)" if x: "x \<in> set ?ms" for x
    using f(4)[OF x] unfolding s
  proof
    assume "\<exists>e \<in> set ?s. x = (fst e)\<lparr>m_rank := m_rank x\<rparr>"
    then obtain e where e: "e \<in> set (finance_entries u p req sig as_of)" "x = (fst e)\<lparr>m_rank := m_rank x\<rparr>"
      by (auto simp: es_def sig_def)
    have q: "m_confidence x = m_confidence (fst e)" "m_raw_confidence x = m_raw_confidence (fst e)"
      "m_key x = m_key (fst e)" "m_risk x = m_risk (fst e)" by (subst e(2), simp)+
    show ?thesis unfolding q using finance_entries_spec(2,3)[OF e(1)] by blast
  next
    assume i: "x = (insufficient_data_move u (rq_goal req))\<lparr>m_rank := m_rank x\<rparr>"
    have q: "m_confidence x = lit (2/10)" "m_raw_confidence x = Fin 0" "m_key x = ''insufficient-market-data''"
      by (subst i, simp add: insufficient_data_move_def zero_move_def)+
    show ?thesis unfolding q using rnd_unit[of "2/10"] by (auto simp: unit_or_NaN_def lit_def)
  qed
  thus ?thesis using r False f(1) m d srt by (simp add: Let_def)
qed

text \<open>A vendor outage and a broken thesis on the one ticker of the goal.\<close>

definition outage :: provider where
  "outage = \<lparr>pv_name = ''none'', pv_quote = (\<lambda>_ _. Inl EMarketUnavailable),
     pv_fundamentals = (\<lambda>_ _. Inl EMarketUnavailable), pv_bars = (\<lambda>_ _ _. Inl EMarketUnavailable)\<rparr>"

definition sample_finance_planner :: finance_planner where
  "sample_finance_planner =
     \<lparr>fp_provider = outage, fp_scoring = default_scoring_config, fp_inner = None, fp_pack_id = ''investing'',
      fp_pack_version = ''1'', fp_prompt_template = '''', fp_calibration = None, fp_strategy_id = '''',
      fp_prior_weights = normalize_prior \<lparr>pw_valuation = 0, pw_quality = 0, pw_momentum = 0\<rparr>,
      fp_conf_weights = sg_weights default_scoring_config\<rparr>"

definition broken_request :: plan_request where
  "broken_request =
     zero_request\<lparr>rq_goal := zero_goal\<lparr>g_objective := ''grow'',
         g_context := \<lparr>cx_situation = '''', cx_facts = [],
           cx_assets = [\<lparr>as_name = '' acme '', as_kind = ''ticker'', as_description = ''''\<rparr>], cx_constraints = []\<rparr>\<rparr>,
       rq_signal_kind := ''thesis_break'', rq_signal_payload := [(''reason'', JStr ''fraud'')]\<rparr>"

definition sample_json_err :: go_error where "sample_json_err = EText ''json''"

definition break_signal :: market_signal where
  "break_signal = \<lparr>ms_kind = ''thesis_break'', ms_ticker = '''', ms_price_move = None, ms_earnings = None,
     ms_macro = None, ms_valuation = None,
     ms_thesis_break = Some \<lparr>tb_reason = ''fraud'', tb_broken_level = 0, tb_hard = False\<rparr>\<rparr>"

lemma broken_request_signal: "parse_request_signal ascii_unicode sample_json_err broken_request = Some break_signal"
  by code_simp

lemma broken_request_tickers: "candidate_tickers ascii_unicode (rq_goal broken_request) (Some break_signal) = [''ACME'']"
  by code_simp

lemma broken_entries_numeric:
  assumes "list_all (\<lambda>t. \<exists>s. sig = Some s \<and> is_thesis_break s \<and> targets u sig t) (candidate_tickers u (rq_goal req) sig)"
  shows "list_all numeric_entry (finance_entries u p req sig as_of)"
proof -
  have "numeric_entry (build_move p th scale agg cap nt, 0)" if "th_broken th" for th scale agg cap nt
    using that by (simp add: numeric_entry_def build_move_def Let_def split: prod.splits)
  thus ?thesis using assms by (auto simp: finance_entries_def Let_def list_all_iff split: prod.splits)
qed

theorem finance_plan_ranks_theses_witness:
  "\<exists>r. finance_generate ascii_unicode sample_encoders sample_json_err sample_finance_planner 0 broken_request = Inr r \<and>
     map m_key (rs_ranked_moves r) = [''thesis:ACME''] \<and> map m_rank (rs_ranked_moves r) = [1] \<and>
     list_all (\<lambda>m. m_confidence m = Fin 0 \<and> m_risk m = LevelHigh) (rs_ranked_moves r) \<and>
     (\<exists>es. map (\<lambda>e. m_key (fst e)) es = [''thesis:ACME''] \<and> sorted_wrt (\<lambda>a b. \<not> entry_before b a) es)"
proof -
  have t: "is_thesis_break break_signal \<and> targets ascii_unicode (Some break_signal) t" for t
    by (simp add: is_thesis_break_def break_signal_def KindThesisBreak_def targets_def)
  hence n: "list_all numeric_entry (finance_entries ascii_unicode sample_finance_planner broken_request (Some break_signal) 0)"
    by (intro broken_entries_numeric) (simp add: list_all_iff)
  have obj: "g_objective (rq_goal broken_request) \<noteq> ''''" by (simp add: broken_request_def)
  then obtain r where r: "finance_generate ascii_unicode sample_encoders sample_json_err sample_finance_planner 0 broken_request = Inr r"
    by (simp add: finance_generate_def Let_def)
  note f = finance_plan_ranks_theses[where u = ascii_unicode and enc = sample_encoders and je = sample_json_err
      and p = sample_finance_planner and as_of = 0 and req = broken_request, unfolded broken_request_signal broken_request_tickers r Let_def sum.case]
  have "mset (map m_key (rs_ranked_moves r)) = {#''thesis:ACME''#}" using f by (simp del: mset_map)
  hence k: "map m_key (rs_ranked_moves r) = [''thesis:ACME'']" by (simp only: mset_single_iff)
  then obtain m where m: "rs_ranked_moves r = [m]" "m_key m = ''thesis:'' @ ''ACME''" by auto
  hence b: "m_confidence m = Fin 0 \<and> m_risk m = LevelHigh" using f t by auto
  obtain es where "map m_key (rs_ranked_moves r) = map (\<lambda>e. m_key (fst e)) es" "sorted_wrt (\<lambda>a b. \<not> entry_before b a) es"
    using f n by (elim conjE impE) (simp, blast)
  hence "\<exists>es. map (\<lambda>e. m_key (fst e)) es = [''thesis:ACME''] \<and> sorted_wrt (\<lambda>a b. \<not> entry_before b a) es"
    using k by (intro exI[of _ es]) simp
  moreover have "map m_rank (rs_ranked_moves r) = [1]" using f m by simp
  ultimately show ?thesis using r k b m by auto
qed

end
