(* ===== verification/Selector.thy ===== *)
theory Selector
  imports Strategy Finance_Planner
begin

text \<open>
  The strategy selector (\<open>internal/llm/selector.go\<close>): competing children, regime gating, the
  all-or-nothing review, the selection, the disagreement haircut, narration and the audit trail.
  The children run concurrently on the same request and write disjoint slots, so their results
  are the list of their answers.
\<close>

section \<open>The selector\<close>

record strategy_child =
  ch_id :: string
  ch_planner :: "named_planner option"  \<comment> \<open>\<open>None\<close> for a nil interface\<close>
  ch_regimes :: "string list"

definition defaultPenaltyStep :: f64 where "defaultPenaltyStep = lit (5/100)"

record selector_planner =
  sl_children :: "strategy_child list"
  sl_weights :: "string \<Rightarrow> f64 option"
  sl_regime :: "(goal \<Rightarrow> go_error + string) option"
  sl_step :: f64
  sl_margin :: f64
  sl_inner :: "named_planner option"
  sl_prompt :: string
  sl_reviewer :: "candidate_reviewer option"

fun check_children :: "unicode \<Rightarrow> string list \<Rightarrow> strategy_child list \<Rightarrow> go_error option" where
  "check_children u seen [] = None"
| "check_children u seen (c # cs) =
     (if ch_id c = '''' \<or> ch_planner c = None
        then Some (EText ''llm: selector child needs an ID and a planner'')
      else if ch_id c \<in> set seen
        then Some (EText (''llm: duplicate selector child ID '' @ uc_quote u (ch_id c)))
      else check_children u (ch_id c # seen) cs)"

text \<open>The configuration is the selector before its defaults are filled in.\<close>

definition new_selector_planner :: "unicode \<Rightarrow> selector_planner \<Rightarrow> go_error + selector_planner" where
  "new_selector_planner u cfg =
     (if length (sl_children cfg) < 2
      then Inl (EText (''llm: selector needs at least 2 strategy children, got '' @ dec_int (int (length (sl_children cfg)))))
      else case check_children u [] (sl_children cfg) of
        Some err \<Rightarrow> Inl err
      | None \<Rightarrow>
          let stp = (if feq (sl_step cfg) 0 then defaultPenaltyStep else sl_step cfg);
              margin = (if feq (sl_margin cfg) 0 then stp else sl_margin cfg)
          in Inr (cfg\<lparr>sl_step := stp, sl_margin := margin\<rparr>))"

definition eligible_children :: "selector_planner \<Rightarrow> string \<Rightarrow> strategy_child list" where
  "eligible_children p regime =
     (if regime = '''' then sl_children p
      else filter (\<lambda>c. ch_regimes c = [] \<or> regime \<in> set (ch_regimes c)) (sl_children p))"

definition current_regime :: "selector_planner \<Rightarrow> goal \<Rightarrow> string" where
  "current_regime p g =
     (case sl_regime p of
        None \<Rightarrow> ''''
      | Some f \<Rightarrow> (case f g of Inl _ \<Rightarrow> '''' | Inr r \<Rightarrow> r))"

text \<open>The competitors, and the note when gating would have emptied the field.\<close>

definition competitors :: "unicode \<Rightarrow> selector_planner \<Rightarrow> string \<Rightarrow> strategy_child list \<times> string" where
  "competitors u p regime =
     (let el = eligible_children p regime
      in if el = []
         then (sl_children p, ''regime '' @ uc_quote u regime @ '' gated out every strategy; competing all instead'')
         else (el, ''''))"

text \<open>A nil planner cannot be called; the constructor refuses it.\<close>

definition run_child :: "plan_request \<Rightarrow> strategy_child \<Rightarrow> go_error + plan_result" where
  "run_child req c =
     (case ch_planner c of
        None \<Rightarrow> Inl (EText ''runtime error: invalid memory address or nil pointer dereference'')
      | Some q \<Rightarrow> np_generate q req)"

definition child_results :: "plan_request \<Rightarrow> strategy_child list \<Rightarrow> (go_error + plan_result) list" where
  "child_results req cs = map (run_child (req\<lparr>rq_current_strategy := ''''\<rparr>)) cs"

text \<open>
  The adjusted results go back to the slots of the children that answered. A reviewer owes one
  result per candidate; with fewer the source would panic, and the slots keep their raw results
  here.
\<close>

fun put_back :: "(go_error + plan_result) list \<Rightarrow> plan_result list \<Rightarrow> (go_error + plan_result) list" where
  "put_back (Inl e # rs) adjusted = Inl e # put_back rs adjusted"
| "put_back (Inr x # rs) (a # adjusted) = Inr a # put_back rs adjusted"
| "put_back rs _ = rs"

text \<open>The results that compete, the comparator's name, the review note and its contributions.\<close>

definition review ::
  "selector_planner \<Rightarrow> goal \<Rightarrow> (go_error + plan_result) list
     \<Rightarrow> (go_error + plan_result) list \<times> string \<times> string \<times> model_contribution list" where
  "review p g results =
     (case sl_reviewer p of
        None \<Rightarrow> (results, ''utility'', '''', [])
      | Some r \<Rightarrow>
          (case cr_review r g (member_results results) of
             Inl rerr \<Rightarrow> (results, ''utility'',
               ''comparator '' @ cr_name r @ '' degraded to utility: '' @ error_text rerr, [])
           | Inr (adjusted, contribs) \<Rightarrow> (put_back results adjusted, cr_name r, '''', contribs)))"

definition candidate_of :: "strategy_child \<Rightarrow> go_error + plan_result \<Rightarrow> candidate" where
  "candidate_of c r =
     \<lparr>ca_id = ch_id c, ca_planner_name = (case ch_planner c of None \<Rightarrow> '''' | Some q \<Rightarrow> np_name q),
      ca_moves = (case r of Inl _ \<Rightarrow> [] | Inr x \<Rightarrow> rs_ranked_moves x),
      ca_err = (case r of Inl err \<Rightarrow> Some err | Inr _ \<Rightarrow> None)\<rparr>"

definition haircut :: "f64 \<Rightarrow> move list \<Rightarrow> move list" where
  "haircut penalty moves =
     (if 0 < penalty then map (\<lambda>m. m\<lparr>m_confidence := clamp_confidence (m_confidence m - penalty)\<rparr>) moves else moves)"

definition build_contributors :: "(go_error + plan_result) list \<Rightarrow> nat \<Rightarrow> model_contribution list" where
  "build_contributors results w =
     concat (map (\<lambda>(i, r). case r of
         Inl _ \<Rightarrow> []
       | Inr x \<Rightarrow> [contrib_of x (if i = w then ''strategy-selected'' else ''strategy-candidate'')])
       (enumerate 0 results))"

definition build_candidate_audit :: "scored list \<Rightarrow> candidate list \<Rightarrow> strategy_candidate list" where
  "build_candidate_audit sc cands =
     map (\<lambda>(s, c). \<lparr>sc_strategy_id = sd_id s, sc_planner = ca_planner_name c, sc_utility_score = sd_utility s,
            sc_weight = sd_weight s, sc_top_move_key = sd_top_move_key s, sc_top_confidence = sd_top_confidence s,
            sc_filtered = sd_filtered s, sc_reason = sd_reason s\<rparr>) (zip sc cands)"

definition compose_selector_notes :: "string \<Rightarrow> string \<Rightarrow> string \<Rightarrow> f64 \<Rightarrow> string" where
  "compose_selector_notes reason gate_note review_note penalty =
     join_strs '' | ''
       ([reason] @ (if gate_note \<noteq> '''' then [gate_note] else [])
        @ (if review_note \<noteq> '''' then [review_note] else [])
        @ (if 0 < penalty then [''strategy disagreement: confidence reduced by '' @ fmt_fixed 2 penalty] else []))"

definition selector_options :: "selector_planner \<Rightarrow> string \<Rightarrow> plan_request \<Rightarrow> select_options" where
  "selector_options p regime req =
     \<lparr>so_weights = sl_weights p, so_regime = regime, so_incumbent = rq_current_strategy req,
      so_incumbent_margin = sl_margin p\<rparr>"

definition selector_generate :: "unicode \<Rightarrow> selector_planner \<Rightarrow> planner" where
  "selector_generate u p req =
     (let g = rq_goal req;
          regime = current_regime p g;
          (cs, gate_note) = competitors u p regime;
          raw = child_results req cs;
          failed = length (filter (\<lambda>r. case r of Inl _ \<Rightarrow> True | Inr _ \<Rightarrow> False) raw)
      in if failed = length cs
         then Inl (wrap_last (''llm: all '' @ dec_int (int failed) @ '' strategy children failed'') (last_error raw))
      else
        let (results, comparator, review_note, review_contribs) = review p g raw;
            cands = map (\<lambda>(c, r). candidate_of c r) (zip cs results)
        in case select u g cands (selector_options p regime req) of
          Inl err \<Rightarrow> Inl (EWrap ''llm: strategy selection'' err)
        | Inr sel \<Rightarrow>
            let w = se_winner sel;
                winner = ok_or zero_result (results ! w);
                penalty = disagreement_penalty (se_scored sel) (sd_top_move_key (se_scored sel ! w)) (sl_step p);
                moves = haircut penalty (rs_ranked_moves winner);
                narration = narrate (sl_inner p) (sl_prompt p) req moves;
                contributors = build_contributors results w @ review_contribs
                  @ (case narration of None \<Rightarrow> [] | Some (_, c) \<Rightarrow> [c]);
                prov = rs_provenance winner
            in Inr (winner\<lparr>rs_ranked_moves := moves, rs_provenance := prov\<lparr>
                 pr_reasoning_summary := (case narration of None \<Rightarrow> pr_reasoning_summary prov
                    | Some (s, _) \<Rightarrow> s @ '' '' @ pr_reasoning_summary prov),
                 pr_strategy := ''selector'', pr_selected_strategy := sd_id (se_scored sel ! w),
                 pr_comparator := comparator, pr_regime := regime,
                 pr_strategy_candidates := build_candidate_audit (se_scored sel) cands,
                 pr_contributors := contributors,
                 pr_notes := compose_selector_notes (se_reason sel) gate_note review_note penalty\<rparr>\<rparr>))"

section \<open>The winner\<close>

text \<open>The scan returns an admissible candidate when there is one, whatever the utilities.\<close>

lemma scan_admissible:
  "case foldl (pick_step sc ca incl) None [0..<n] of
     None \<Rightarrow> \<forall>i < n. \<not> admissible sc ca incl i
   | Some w \<Rightarrow> w < n \<and> admissible sc ca incl w"
proof (induction n)
  case (Suc n)
  thus ?case
    by (auto simp: pick_step_def admissible_def less_Suc_eq split: option.splits)
qed simp

lemma pick_admissible:
  assumes "pick sc ca incl = Some w" "\<exists>i < length sc. admissible sc ca incl i"
  shows "w < length sc \<and> admissible sc ca incl w"
  using assms scan_admissible[where sc = "sc" and ca = ca and incl = incl and n = "length sc"]
  by (auto simp: pick_def Let_def split: option.splits if_splits)

lemma pick_none: "pick sc ca incl = None \<Longrightarrow> \<not> incl \<and> (\<forall>i < length sc. \<not> admissible sc ca incl i)"
  using scan_admissible[where sc = "sc" and ca = ca and incl = incl and n = "length sc"]
  by (auto simp: pick_def Let_def split: option.splits if_splits)

lemma score_candidate_id [simp]: "sd_id (score_candidate u g opts c) = ca_id c"
  by (auto simp: score_candidate_def Let_def split: option.splits prod.splits)

lemma select_winner:
  assumes "select u g cands opts = Inr sel" "\<exists>i < length cands. ca_err (cands ! i) = None"
  shows "se_winner sel < length cands \<and> ca_err (cands ! se_winner sel) = None \<and>
    se_scored sel = map (score_candidate u g opts) cands"
proof -
  let ?sc = "map (score_candidate u g opts) cands"
  have ne: "cands \<noteq> []" using assms(1) by (auto simp: select_def)
  define w0 where "w0 = (case pick ?sc cands False of Some i \<Rightarrow> i | None \<Rightarrow> the (pick ?sc cands True))"
  define d where "d \<longleftrightarrow> pick ?sc cands False = None"
  obtain w reason where st: "settle u ?sc opts d w0 = (w, reason)" by force
  have sel: "se_scored sel = ?sc" "se_winner sel = w"
    using assms(1) ne st by (auto simp: select_def Let_def w0_def d_def split: prod.splits)
  have w0: "w0 < length cands \<and> ca_err (cands ! w0) = None"
  proof (cases "pick ?sc cands False")
    case None
    obtain b where b: "pick ?sc cands True = Some b" using pick_none[of ?sc cands True] by (cases "pick ?sc cands True") auto
    have "\<exists>i < length ?sc. admissible ?sc cands True i" using assms(2) by (auto simp: admissible_def)
    from pick_admissible[OF b this] show ?thesis using None b by (simp add: w0_def admissible_def)
  next
    case (Some b)
    have "\<exists>i < length ?sc. admissible ?sc cands False i"
      using Some scan_admissible[where sc = "?sc" and ca = cands and incl = False and n = "length ?sc"]
      by (auto simp: pick_def Let_def split: option.splits if_splits)
    from pick_admissible[OF Some this] show ?thesis using Some by (simp add: w0_def admissible_def)
  qed
  have "w < length cands \<and> ca_err (cands ! w) = None"
    using settle_cases[OF st] w0 incumbent_SomeD[of ?sc "so_incumbent opts" w] unfiltered_no_error[of u g opts "cands ! w"]
    by auto
  thus ?thesis using sel by simp
qed

section \<open>The competition\<close>

lemma put_back_spec:
  "length (put_back rs as) = length rs \<and> (\<forall>i < length rs. fails (put_back rs as ! i) = fails (rs ! i))"
proof (induction rs as rule: put_back.induct)
  case (1 e rs as)
  thus ?case by (auto simp: less_Suc_eq_0_disj)
next
  case (2 x rs a as)
  thus ?case by (auto simp: less_Suc_eq_0_disj)
qed simp_all

lemma review_spec:
  assumes "review p g rs = (results, comparator, nt, contribs)"
  shows "length results = length rs \<and> (\<forall>i < length rs. fails (results ! i) = fails (rs ! i))"
  using assms put_back_spec[of rs] by (auto simp: review_def split: option.splits sum.splits prod.splits)

lemma all_failed:
  fixes rs :: "('e + 'r) list"
  shows "length (filter (\<lambda>r. case r of Inl _ \<Rightarrow> True | Inr _ \<Rightarrow> False) rs) = length rs \<longleftrightarrow> (\<forall>r \<in> set rs. fails r)"
proof -
  have "length (filter P rs) = length rs \<longleftrightarrow> (\<forall>x \<in> set rs. P x)" for P
    using filter_id_conv[of P rs] by (metis length_filter_less less_irrefl)
  moreover have "(case r of Inl _ \<Rightarrow> True | Inr _ \<Rightarrow> False) = fails r" for r :: "'e + 'r"
    by (cases r) simp_all
  ultimately show ?thesis by simp
qed

lemma select_total: "cands \<noteq> [] \<Longrightarrow> \<exists>sel. select u g cands opts = Inr sel"
  by (simp add: select_def Let_def split_beta)

lemma haircut_spec:
  "length (haircut pen ms) = length ms \<and>
   (\<forall>i < length ms. haircut pen ms ! i = (ms ! i)\<lparr>m_confidence := m_confidence (haircut pen ms ! i)\<rparr>)"
  by (simp add: haircut_def)

lemma haircut_le:
  assumes "confidence_wf c" "0 < pen"
  shows "Fin 0 \<le> clamp_confidence (c - pen) \<and> clamp_confidence (c - pen) \<le> c"
proof -
  obtain r where r: "c = Fin r" "0 \<le> r" "r \<le> 1" "representable r"
    using assms(1) by (cases c) (auto simp: confidence_wf_def)
  show ?thesis
  proof (cases pen)
    case (Fin q)
    have "rnd (r - q) \<le> rnd r" using assms(2) Fin by (intro rnd_mono) simp
    hence "rnd (r - q) \<le> Fin r" using r(4) by (simp add: rnd_representable)
    thus ?thesis using r Fin by (cases "rnd (r - q)") (auto simp: clamp_confidence_def minus_f64_def)
  qed (use r assms(2) in \<open>auto simp: clamp_confidence_def minus_f64_def\<close>)
qed

text \<open>
  C13: a competition fails exactly when every competing strategy fails, and gating never empties
  the field. Otherwise the plan is that of one of the competitors that answered (after the
  review), named in the provenance, with nothing of its moves changed but the confidences, which
  the disagreement haircut can only lower within [0, 1]; and the audit trail has one record per
  competitor, in the order of the children, the planner's failure included.
\<close>

theorem selector_returns_a_competitor:
  fixes u p req
  defines "cs \<equiv> fst (competitors u p (current_regime p (rq_goal req)))"
    and "raw \<equiv> child_results req (fst (competitors u p (current_regime p (rq_goal req))))"
  assumes "sl_children p \<noteq> []"
  shows "cs \<noteq> [] \<and> set cs \<subseteq> set (sl_children p) \<and>
    (case selector_generate u p req of
       Inl _ \<Rightarrow> \<forall>r \<in> set raw. fails r
     | Inr plan \<Rightarrow> \<exists>i x. i < length cs \<and> \<not> fails (raw ! i) \<and>
         fst (review p (rq_goal req) raw) ! i = Inr x \<and>
         pr_selected_strategy (rs_provenance plan) = ch_id (cs ! i) \<and>
         length (rs_ranked_moves plan) = length (rs_ranked_moves x) \<and>
         (\<forall>k < length (rs_ranked_moves x).
            rs_ranked_moves plan ! k = (rs_ranked_moves x ! k)\<lparr>m_confidence := m_confidence (rs_ranked_moves plan ! k)\<rparr> \<and>
            (confidence_wf (m_confidence (rs_ranked_moves x ! k)) \<longrightarrow>
               Fin 0 \<le> m_confidence (rs_ranked_moves plan ! k) \<and>
               m_confidence (rs_ranked_moves plan ! k) \<le> m_confidence (rs_ranked_moves x ! k))) \<and>
         map sc_strategy_id (pr_strategy_candidates (rs_provenance plan)) = map ch_id cs)"
proof -
  let ?reg = "current_regime p (rq_goal req)"
  have "set (eligible_children p r) \<subseteq> set (sl_children p)" for r by (auto simp: eligible_children_def)
  hence field: "cs \<noteq> [] \<and> set cs \<subseteq> set (sl_children p)"
    using assms(3) by (auto simp: cs_def competitors_def Let_def)
  obtain gn where cp: "competitors u p ?reg = (cs, gn)" by (cases "competitors u p ?reg") (simp add: cs_def)
  have raw: "raw = child_results req cs" "length raw = length cs" by (simp_all add: raw_def cs_def child_results_def)
  obtain results comp nt contribs where rv: "review p (rq_goal req) raw = (results, comp, nt, contribs)"
    by (metis surj_pair)
  note rs = review_spec[OF rv]
  let ?failed = "length (filter (\<lambda>r. case r of Inl _ \<Rightarrow> True | Inr _ \<Rightarrow> False) raw)"
  show ?thesis
  proof (cases "?failed = length cs")
    case True
    hence "\<exists>e. selector_generate u p req = Inl e" unfolding selector_generate_def Let_def cp raw(1) by simp
    thus ?thesis using field True all_failed[of raw] raw(2) by auto
  next
    case False
    let ?cands = "map (\<lambda>(c, r). candidate_of c r) (zip cs results)"
    have len: "length ?cands = length cs" "length results = length cs" using rs raw(2) by simp_all
    have nth: "?cands ! i = candidate_of (cs ! i) (results ! i)" if "i < length cs" for i using that len by simp
    have "?failed \<noteq> length raw" using False raw(2) by simp
    then obtain r where "r \<in> set raw" "\<not> fails r" using all_failed[of raw] by blast
    then obtain j where j: "j < length raw" "\<not> fails (raw ! j)" by (auto simp: in_set_conv_nth)
    have ok: "\<exists>i < length ?cands. ca_err (?cands ! i) = None"
      using j rs raw(2) len nth[of j] by (intro exI[of _ j]) (auto simp: candidate_of_def fails_def split: sum.splits)
    hence "?cands \<noteq> []" by (cases "?cands") auto
    then obtain sel where sel: "select u (rq_goal req) ?cands (selector_options p ?reg req) = Inr sel"
      using select_total by blast
    note w = select_winner[OF sel ok]
    let ?w = "se_winner sel"
    have wl: "?w < length cs" using w len by simp
    then obtain x where x: "results ! ?w = Inr x"
      using w nth[OF wl] by (auto simp: candidate_of_def split: sum.splits)
    have nf: "\<not> fails (raw ! ?w)" using rs x wl raw(2) by (metis fails_simps(2))
    have sid: "sd_id (se_scored sel ! ?w) = ch_id (cs ! ?w)" using w wl nth[OF wl] len by (simp add: candidate_of_def)
    have audit: "map sc_strategy_id (build_candidate_audit (se_scored sel) ?cands) = map ch_id cs"
      by (rule nth_equalityI) (use w len nth in \<open>simp_all add: build_candidate_audit_def candidate_of_def\<close>)
    define pen where "pen = disagreement_penalty (se_scored sel) (sd_top_move_key (se_scored sel ! ?w)) (sl_step p)"
    obtain plan where plan: "selector_generate u p req = Inr plan"
      "rs_ranked_moves plan = haircut pen (rs_ranked_moves x)"
      "pr_selected_strategy (rs_provenance plan) = sd_id (se_scored sel ! ?w)"
      "pr_strategy_candidates (rs_provenance plan) = build_candidate_audit (se_scored sel) ?cands"
      unfolding selector_generate_def Let_def cp raw(1)[symmetric] prod.case if_not_P[OF False] rv sel sum.case x
      by (simp add: ok_or_def pen_def)
    have low: "Fin 0 \<le> m_confidence (haircut pen (rs_ranked_moves x) ! k) \<and>
        m_confidence (haircut pen (rs_ranked_moves x) ! k) \<le> m_confidence (rs_ranked_moves x ! k)"
      if "k < length (rs_ranked_moves x)" "confidence_wf (m_confidence (rs_ranked_moves x ! k))" for k
      using that haircut_le[OF that(2), of pen]
      by (cases "m_confidence (rs_ranked_moves x ! k)") (auto simp: haircut_def confidence_wf_def)
    show ?thesis
      unfolding plan(1) sum.case plan(2,3,4) sid audit rv fst_conv
      using field wl nf x haircut_spec[of pen "rs_ranked_moves x"] low by blast
  qed
qed

definition sample_selector :: selector_planner where
  "sample_selector =
     \<lparr>sl_children = [\<lparr>ch_id = ''down'', ch_planner = Some \<lparr>np_name = ''p1'', np_generate = (\<lambda>_. Inl (EText ''down''))\<rparr>, ch_regimes = []\<rparr>,
        \<lparr>ch_id = ''up'', ch_planner = Some \<lparr>np_name = ''p2'', np_generate = plan_of [zero_move\<lparr>m_title := ''a'', m_confidence := 1\<rparr>]\<rparr>, ch_regimes = []\<rparr>],
      sl_weights = (\<lambda>_. None), sl_regime = None, sl_step = 0, sl_margin = 0, sl_inner = None, sl_prompt = '''', sl_reviewer = None\<rparr>"

theorem selector_returns_a_competitor_witness:
  "\<exists>plan. selector_generate ascii_unicode sample_selector zero_request = Inr plan \<and>
     pr_selected_strategy (rs_provenance plan) = ''up'' \<and>
     map sc_strategy_id (pr_strategy_candidates (rs_provenance plan)) = [''down'', ''up'']"
proof -
  let ?p = "sample_selector" and ?u = ascii_unicode and ?q = zero_request
  have cs: "fst (competitors ?u ?p (current_regime ?p (rq_goal ?q))) = sl_children ?p"
    by (simp add: competitors_def eligible_children_def current_regime_def sample_selector_def)
  have ne: "sl_children ?p \<noteq> []" by (simp add: sample_selector_def)
  have raw: "child_results ?q (sl_children ?p) =
      [Inl (EText ''down''), plan_of [zero_move\<lparr>m_title := ''a'', m_confidence := 1\<rparr>] (?q\<lparr>rq_current_strategy := ''''\<rparr>)]"
    by (simp add: child_results_def run_child_def sample_selector_def)
  note main = selector_returns_a_competitor[OF ne, where u = ?u and req = ?q, unfolded cs]
  have ids: "map ch_id (sl_children ?p) = [''down'', ''up'']" by (simp add: sample_selector_def)
  show ?thesis
  proof (cases "selector_generate ?u ?p ?q")
    case (Inl e)
    thus ?thesis using main by (simp add: raw plan_of_def)
  next
    case (Inr plan)
    obtain i where i: "i < length (sl_children ?p)" "\<not> fails (child_results ?q (sl_children ?p) ! i)"
        "pr_selected_strategy (rs_provenance plan) = ch_id (sl_children ?p ! i)"
        "map sc_strategy_id (pr_strategy_candidates (rs_provenance plan)) = map ch_id (sl_children ?p)"
      using main Inr by auto
    have "i = 1" using i(1,2) unfolding raw by (cases i) (auto simp: sample_selector_def)
    thus ?thesis using Inr i ids by (simp add: sample_selector_def)
  qed
qed

end
