(* ===== verification/Sources.thy ===== *)
theory Sources
  imports Engine "HOL-Library.AList"
begin

text \<open>
  The external-data layer, \<open>internal/source\<close>: results and deltas, the adapters (HTTP, MCP, agent,
  in-process read-model), the last-good cache, the composite and the enricher the engine calls
  before planning. What an adapter calls (an HTTP client, an MCP server, an agent, the JSON
  decoder) is an argument. A \<open>Fetch\<close> returns a result and an error, or panics.
\<close>

section \<open>Results\<close>

record source_descriptor =
  dr_name :: string
  dr_domain :: string
  dr_description :: string
  dr_input_schema :: payload

record source_query =
  qy_goal :: goal
  qy_signal_kind :: string
  qy_payload :: payload
  qy_as_of :: time

record context_delta =
  dl_facts :: "string list"
  dl_assets :: "asset list"
  dl_constraints :: "constr list"

definition no_delta :: context_delta where
  "no_delta = \<lparr>dl_facts = [], dl_assets = [], dl_constraints = []\<rparr>"

definition delta_empty :: "context_delta \<Rightarrow> bool" where
  "delta_empty d \<longleftrightarrow> length (dl_facts d) = 0 \<and> length (dl_assets d) = 0 \<and> length (dl_constraints d) = 0"

record source_result =
  sx_source_name :: string
  sx_delta :: context_delta
  sx_raw :: string
  sx_fetched_at :: time
  sx_stale :: bool
  sx_err :: string

definition zero_source_result :: source_result where
  "zero_source_result =
     \<lparr>sx_source_name = '''', sx_delta = no_delta, sx_raw = '''', sx_fetched_at = zero_time,
      sx_stale = False, sx_err = ''''\<rparr>"

datatype fetched = Fetched source_result "go_error option" | FetchPanic string

record data_source =
  ds_describe :: source_descriptor
  ds_fetch :: "source_query \<Rightarrow> fetched"

definition stale_result :: "string \<Rightarrow> string \<Rightarrow> source_result" where
  "stale_result name err = zero_source_result\<lparr>sx_source_name := name, sx_stale := True, sx_err := err\<rparr>"

section \<open>Adapters\<close>

text \<open>The in-process read-model: a miss is an empty, fresh result.\<close>

definition memory_source :: "string \<Rightarrow> string \<Rightarrow> (source_query \<Rightarrow> context_delta option) option \<Rightarrow> data_source" where
  "memory_source name0 domn lookup =
     (let name = (if name0 = '''' then ''memory'' else name0)
      in \<lparr>ds_describe = \<lparr>dr_name = name, dr_domain = domn, dr_description = ''in-process read-model'', dr_input_schema = []\<rparr>,
          ds_fetch = (\<lambda>q. Fetched
            (case lookup of
               None \<Rightarrow> zero_source_result\<lparr>sx_source_name := name\<rparr>
             | Some f \<Rightarrow> (case f q of
                   None \<Rightarrow> zero_source_result\<lparr>sx_source_name := name\<rparr>
                 | Some d \<Rightarrow> zero_source_result\<lparr>sx_source_name := name, sx_delta := d\<rparr>)) None)\<rparr>)"

text \<open>The agent: a run gives a delta, a transcript and an error.\<close>

record agent_config =
  ag_name :: string
  ag_domain :: string
  ag_description :: string
  ag_run :: "(source_query \<Rightarrow> context_delta \<times> string \<times> go_error option) option"

definition agent_fetch :: "string \<Rightarrow> agent_config \<Rightarrow> source_query \<Rightarrow> source_result" where
  "agent_fetch name cfg q =
     (case ag_run cfg of
        None \<Rightarrow> stale_result name ''agent: no researcher configured''
      | Some run \<Rightarrow>
          (case run q of (delta, transcript, err) \<Rightarrow>
             (case err of
                Some e \<Rightarrow> (stale_result name (''agent run: '' @ error_text e))\<lparr>sx_raw := transcript\<rparr>
              | None \<Rightarrow> zero_source_result\<lparr>sx_source_name := name, sx_delta := delta, sx_raw := transcript\<rparr>)))"

definition agent_source :: "agent_config \<Rightarrow> data_source" where
  "agent_source cfg =
     (let name = (if ag_name cfg = '''' then ''agent'' else ag_name cfg);
          desc = (if ag_description cfg = '''' then ''autonomous research agent'' else ag_description cfg)
      in \<lparr>ds_describe = \<lparr>dr_name = name, dr_domain = ag_domain cfg, dr_description = desc, dr_input_schema = []\<rparr>,
          ds_fetch = (\<lambda>q. Fetched (agent_fetch name cfg q) None)\<rparr>)"

text \<open>The MCP tool call; \<open>decode\<close> is \<open>json.Unmarshal\<close> into \<open>wireDelta\<close>.\<close>

record mcp_config =
  mp_name :: string
  mp_domain :: string
  mp_tool :: string
  mp_input_schema :: payload
  mp_invoke :: "(string \<Rightarrow> payload \<Rightarrow> go_error + string) option"
  mp_args_for :: "(source_query \<Rightarrow> payload) option"

definition mcp_fetch :: "(string \<Rightarrow> go_error + context_delta) \<Rightarrow> string \<Rightarrow> mcp_config \<Rightarrow> source_query \<Rightarrow> source_result" where
  "mcp_fetch decode name cfg q =
     (case mp_invoke cfg of
        None \<Rightarrow> stale_result name ''mcp: no invoker configured''
      | Some invoke \<Rightarrow>
          let args = (case mp_args_for cfg of None \<Rightarrow> [] | Some f \<Rightarrow> f q)
          in (case invoke (mp_tool cfg) args of
                Inl err \<Rightarrow> stale_result name (''mcp call: '' @ error_text err)
              | Inr raw \<Rightarrow>
                  (case decode raw of
                     Inl err \<Rightarrow> (stale_result name (''mcp decode: '' @ error_text err))\<lparr>sx_raw := raw\<rparr>
                   | Inr wd \<Rightarrow> zero_source_result\<lparr>sx_source_name := name, sx_delta := wd, sx_raw := raw\<rparr>)))"

definition mcp_source :: "(string \<Rightarrow> go_error + context_delta) \<Rightarrow> mcp_config \<Rightarrow> data_source" where
  "mcp_source decode cfg =
     (let name = (if mp_name cfg = '''' then ''mcp:'' @ mp_tool cfg else mp_name cfg)
      in \<lparr>ds_describe = \<lparr>dr_name = name, dr_domain = mp_domain cfg, dr_description = ''MCP tool '' @ mp_tool cfg,
            dr_input_schema = mp_input_schema cfg\<rparr>,
          ds_fetch = (\<lambda>q. Fetched (mcp_fetch decode name cfg q) None)\<rparr>)"

text \<open>
  The HTTP source. A request is its endpoint, query parameters and headers. The client, with its
  timeout, is an argument: it returns a transport error or a status with the first MiB of the
  body, the reading of which may fail.
\<close>

record http_request =
  hr_endpoint :: string
  hr_params :: "(string \<times> string) list"
  hr_headers :: "(string \<times> string) list"

record http_config =
  hc_name :: string
  hc_domain :: string
  hc_endpoint :: string
  hc_api_key :: string

record http_client =
  ht_build :: "string \<Rightarrow> go_error option"
  ht_do :: "http_request \<Rightarrow> go_error + (int \<times> (go_error + string))"

definition http_request_for :: "http_config \<Rightarrow> source_query \<Rightarrow> http_request" where
  "http_request_for cfg q =
     \<lparr>hr_endpoint = hc_endpoint cfg,
      hr_params = (if g_id (qy_goal q) \<noteq> '''' then [(''goal_id'', g_id (qy_goal q))] else [])
        @ (if qy_signal_kind q \<noteq> '''' then [(''signal_kind'', qy_signal_kind q)] else []),
      hr_headers = (if hc_api_key cfg \<noteq> '''' then [(''Authorization'', ''Bearer '' @ hc_api_key cfg)] else [])\<rparr>"

definition http_fetch ::
  "http_client \<Rightarrow> (string \<Rightarrow> go_error + context_delta) \<Rightarrow> string \<Rightarrow> http_config \<Rightarrow> source_query \<Rightarrow> source_result" where
  "http_fetch client decode name cfg q =
     (case ht_build client (hc_endpoint cfg) of
        Some err \<Rightarrow> stale_result name (''build request: '' @ error_text err)
      | None \<Rightarrow>
          (case ht_do client (http_request_for cfg q) of
             Inl err \<Rightarrow> stale_result name (''request failed: '' @ error_text err)
           | Inr (status, Inl err) \<Rightarrow> stale_result name (''read body: '' @ error_text err)
           | Inr (status, Inr body) \<Rightarrow>
               if status \<noteq> 200 then stale_result name (''status '' @ dec_int status)
               else (case decode body of
                       Inl err \<Rightarrow> stale_result name (''decode body: '' @ error_text err)
                     | Inr wd \<Rightarrow> zero_source_result\<lparr>sx_source_name := name, sx_delta := wd, sx_raw := body\<rparr>)))"

definition http_source :: "http_client \<Rightarrow> (string \<Rightarrow> go_error + context_delta) \<Rightarrow> http_config \<Rightarrow> data_source" where
  "http_source client decode cfg =
     (let name = (if hc_name cfg = '''' then ''http'' else hc_name cfg)
      in \<lparr>ds_describe = \<lparr>dr_name = name, dr_domain = hc_domain cfg,
            dr_description = ''REST data source returning a ContextDelta JSON document'', dr_input_schema = []\<rparr>,
          ds_fetch = (\<lambda>q. Fetched (http_fetch client decode name cfg q) None)\<rparr>)"

section \<open>The composite\<close>

definition append_delta :: "context_delta \<Rightarrow> context_delta \<Rightarrow> context_delta" where
  "append_delta a b =
     \<lparr>dl_facts = dl_facts a @ dl_facts b, dl_assets = dl_assets a @ dl_assets b,
      dl_constraints = dl_constraints a @ dl_constraints b\<rparr>"

text \<open>The loop over the members, with the merged result and the raw payloads by name so far.\<close>

fun composite_loop ::
  "source_query \<Rightarrow> source_result \<Rightarrow> (string \<times> string) list \<Rightarrow> data_source list \<Rightarrow>
   string + (source_result \<times> (string \<times> string) list)" where
  "composite_loop q merged raw [] = Inr (merged, raw)"
| "composite_loop q merged raw (s # ss) =
     (case ds_fetch s q of
        FetchPanic m \<Rightarrow> Inl m
      | Fetched out (Some err) \<Rightarrow> composite_loop q (merged\<lparr>sx_stale := True\<rparr>) raw ss
      | Fetched out None \<Rightarrow>
          let merged1 = merged\<lparr>sx_delta := append_delta (sx_delta merged) (sx_delta out)\<rparr>;
              merged2 = (if sx_stale out then merged1\<lparr>sx_stale := True\<rparr> else merged1);
              name = (if sx_source_name out = '''' then dr_name (ds_describe s) else sx_source_name out)
          in composite_loop q merged2
               (if 0 < length (sx_raw out) then AList.update name (sx_raw out) raw else raw) ss)"

text \<open>\<open>marshal\<close> encodes the raw payloads, keys sorted; it fails on an invalid payload.\<close>

definition composite_fetch ::
  "((string \<times> string) list \<Rightarrow> string option) \<Rightarrow> string \<Rightarrow> data_source list \<Rightarrow> source_query \<Rightarrow> fetched" where
  "composite_fetch marshal name sources q =
     (case composite_loop q (zero_source_result\<lparr>sx_source_name := name\<rparr>) [] sources of
        Inl m \<Rightarrow> FetchPanic m
      | Inr (merged, raw) \<Rightarrow>
          Fetched (if 0 < length raw
                   then (case marshal (sort_by (\<lambda>a b. str_less (fst a) (fst b)) raw) of
                           Some b \<Rightarrow> merged\<lparr>sx_raw := b\<rparr>
                         | None \<Rightarrow> merged)
                   else merged) None)"

definition composite_source :: "((string \<times> string) list \<Rightarrow> string option) \<Rightarrow> string \<Rightarrow> data_source list \<Rightarrow> data_source" where
  "composite_source marshal name sources =
     \<lparr>ds_describe = \<lparr>dr_name = name, dr_domain = '''', dr_description = ''composite data source'', dr_input_schema = []\<rparr>,
      ds_fetch = composite_fetch marshal name sources\<rparr>"

section \<open>The last-good cache\<close>

text \<open>
  The primary's answer arrives first; one critical section then stores it or looks up the last
  good one. Concurrent fetches therefore act on the map one after another, in any order.
\<close>

type_synonym last_good = "string \<Rightarrow> source_result option"

definition source_cache_key :: "source_query \<Rightarrow> string" where
  "source_cache_key q = g_domain (qy_goal q) @ [CHR 0x00] @ g_id (qy_goal q)"

definition caching_fetch ::
  "source_query \<Rightarrow> source_result \<times> go_error option \<Rightarrow> last_good \<Rightarrow> (source_result \<times> go_error option) \<times> last_good" where
  "caching_fetch q answer good =
     (let key = source_cache_key q; (out, err) = answer
      in if err = None \<and> \<not> sx_stale out then ((out, None), good(key \<mapsto> out))
         else case good key of
           None \<Rightarrow> ((out, err), good)
         | Some prev \<Rightarrow>
             ((prev\<lparr>sx_stale := True, sx_err :=
                (case err of
                   Some e \<Rightarrow> ''served last-good after error: '' @ error_text e
                 | None \<Rightarrow> if sx_err out \<noteq> '''' then ''served last-good after: '' @ sx_err out
                           else ''served last-good (primary stale)'')\<rparr>, None), good))"

fun caching_run ::
  "last_good \<Rightarrow> (source_query \<times> source_result \<times> go_error option) list \<Rightarrow> (source_result \<times> go_error option) list" where
  "caching_run good [] = []"
| "caching_run good ((q, answer) # es) =
     (let (r, good') = caching_fetch q answer good in r # caching_run good' es)"

section \<open>The enricher\<close>

text \<open>\<open>now\<close> is the clock's reading when the result is completed.\<close>

definition fetch_one :: "data_source \<Rightarrow> source_query \<Rightarrow> time \<Rightarrow> source_result" where
  "fetch_one s q now =
     (let name = dr_name (ds_describe s) in
      case ds_fetch s q of
        FetchPanic m \<Rightarrow> (stale_result name (''source panicked: '' @ m))\<lparr>sx_fetched_at := now\<rparr>
      | Fetched out (Some err) \<Rightarrow> (stale_result name (error_text err))\<lparr>sx_fetched_at := now\<rparr>
      | Fetched out None \<Rightarrow>
          let out1 = (if sx_source_name out = '''' then out\<lparr>sx_source_name := name\<rparr> else out)
          in if sx_fetched_at out1 = zero_time then out1\<lparr>sx_fetched_at := now\<rparr> else out1)"

definition fold_into :: "goal_context \<Rightarrow> context_delta \<Rightarrow> goal_context" where
  "fold_into c d =
     (if delta_empty d then c
      else
        let c1 = (if 0 < length (dl_facts d) then c\<lparr>cx_facts := cx_facts c @ dl_facts d\<rparr> else c);
            c2 = (if 0 < length (dl_assets d) then c1\<lparr>cx_assets := cx_assets c1 @ dl_assets d\<rparr> else c1)
        in if 0 < length (dl_constraints d) then c2\<lparr>cx_constraints := cx_constraints c2 @ dl_constraints d\<rparr> else c2)"

definition summarize :: "context_delta \<Rightarrow> string" where
  "summarize d =
     (if delta_empty d then ''''
      else ''+'' @ dec_int (int (length (dl_facts d))) @ '' facts, +'' @ dec_int (int (length (dl_assets d))) @
           '' assets, +'' @ dec_int (int (length (dl_constraints d))) @ '' constraints'')"

definition to_contribution :: "source_result \<Rightarrow> time \<Rightarrow> source_contribution" where
  "to_contribution r fallback =
     \<lparr>so_source_name = sx_source_name r,
      so_fetched_at = (if sx_fetched_at r = zero_time then fallback else sx_fetched_at r),
      so_stale = sx_stale r, so_err = sx_err r, so_raw = sx_raw r, so_delta_summary = summarize (sx_delta r)\<rparr>"

text \<open>\<open>clk\<close> gives the successive readings of the clock: two for each source.\<close>

fun enrich_loop ::
  "(nat \<Rightarrow> time) \<Rightarrow> nat \<Rightarrow> source_query \<Rightarrow> data_source list \<Rightarrow> goal \<Rightarrow> source_contribution list \<Rightarrow>
   goal \<times> source_contribution list" where
  "enrich_loop clk n q [] g contribs = (g, contribs)"
| "enrich_loop clk n q (s # ss) g contribs =
     (let res = fetch_one s q (clk n)
      in enrich_loop clk (n + 2) q ss (g\<lparr>g_context := fold_into (g_context g) (sx_delta res)\<rparr>)
           (contribs @ [to_contribution res (clk (n + 1))]))"

definition enrich_with :: "data_source list \<Rightarrow> (nat \<Rightarrow> time) \<Rightarrow> enricher" where
  "enrich_with sources clk g kind payload =
     (if sources = [] then (g, [])
      else enrich_loop clk 1 \<lparr>qy_goal = g, qy_signal_kind = kind, qy_payload = payload, qy_as_of = clk 0\<rparr> sources g [])"

section \<open>Deltas form a monoid acting on contexts\<close>

lemma append_delta_simps [simp]:
  "dl_facts (append_delta a b) = dl_facts a @ dl_facts b"
  "dl_assets (append_delta a b) = dl_assets a @ dl_assets b"
  "dl_constraints (append_delta a b) = dl_constraints a @ dl_constraints b"
  by (simp_all add: append_delta_def)

lemma append_delta_monoid [simp]:
  "append_delta no_delta d = d" "append_delta d no_delta = d"
  "append_delta (append_delta a b) c = append_delta a (append_delta b c)"
  by (simp_all add: append_delta_def no_delta_def)

definition delta_on :: "goal_context \<Rightarrow> context_delta \<Rightarrow> goal_context" where
  "delta_on c d =
     c\<lparr>cx_facts := cx_facts c @ dl_facts d, cx_assets := cx_assets c @ dl_assets d,
       cx_constraints := cx_constraints c @ dl_constraints d\<rparr>"

lemma fold_into_eq: "fold_into c d = delta_on c d"
  by (cases c; cases d) (auto simp: fold_into_def delta_on_def delta_empty_def Let_def)

lemma delta_on_act [simp]:
  "delta_on c no_delta = c" "delta_on (delta_on c a) b = delta_on c (append_delta a b)"
  by (simp_all add: delta_on_def no_delta_def append_delta_def)

definition sum_deltas :: "context_delta list \<Rightarrow> context_delta" where
  "sum_deltas ds = foldr append_delta ds no_delta"

lemma sum_deltas_simps [simp]:
  "sum_deltas [] = no_delta" "sum_deltas (d # ds) = append_delta d (sum_deltas ds)"
  by (simp_all add: sum_deltas_def)

lemma enrich_loop_eq:
  "enrich_loop clk n q ss g contribs =
     (g\<lparr>g_context := delta_on (g_context g)
         (sum_deltas (map (\<lambda>(i, s). sx_delta (fetch_one s q (clk (n + 2 * i)))) (enumerate 0 ss)))\<rparr>,
      contribs @ map (\<lambda>(i, s). to_contribution (fetch_one s q (clk (n + 2 * i))) (clk (n + 2 * i + 1))) (enumerate 0 ss))"
proof (induction ss arbitrary: n g contribs)
  case (Cons s ss)
  have e: "map (\<lambda>(i, s). f (n + 2 * i) s) (enumerate (Suc 0) ss) = map (\<lambda>(i, s). f (n + 2 + 2 * i) s) (enumerate 0 ss)"
    for f :: "nat \<Rightarrow> data_source \<Rightarrow> 'b"
    by (rule nth_equalityI) (simp_all add: nth_enumerate_eq)
  show ?case
    using e[of "\<lambda>k s. sx_delta (fetch_one s q (clk k))"]
      e[of "\<lambda>k s. to_contribution (fetch_one s q (clk k)) (clk (k + 1))"]
    by (simp add: Cons.IH Let_def fold_into_eq)
qed simp

section \<open>What the cache serves\<close>

definition fresh_answer :: "source_result \<times> go_error option \<Rightarrow> bool" where
  "fresh_answer a \<longleftrightarrow> snd a = None \<and> \<not> sx_stale (fst a)"

text \<open>The last good answer for the decision of \<open>q\<close> in a history of fetches.\<close>

definition last_fresh :: "source_query \<Rightarrow> (source_query \<times> source_result \<times> go_error option) list \<Rightarrow> source_result option" where
  "last_fresh q es =
     map_option (\<lambda>(q', out, err). out)
       (List.find (\<lambda>(q', a). source_cache_key q' = source_cache_key q \<and> fresh_answer a) (rev es))"

lemma last_fresh_snoc:
  "last_fresh q (es @ [(q', a)]) =
     (if source_cache_key q' = source_cache_key q \<and> fresh_answer a then Some (fst a) else last_fresh q es)"
  by (cases a) (simp add: last_fresh_def)

lemma length_caching_run [simp]: "length (caching_run good es) = length es"
  by (induction good es rule: caching_run.induct) (auto split: prod.splits)

lemma caching_step:
  "snd (caching_fetch q a good) = (if fresh_answer a then good(source_cache_key q \<mapsto> fst a) else good)"
  by (cases a) (auto simp: caching_fetch_def fresh_answer_def Let_def split: option.splits)

definition good_after :: "last_good \<Rightarrow> (source_query \<times> source_result \<times> go_error option) list \<Rightarrow> last_good" where
  "good_after good es = foldl (\<lambda>g (q, a). snd (caching_fetch q a g)) good es"

lemma caching_run_append:
  "caching_run good (es @ es') = caching_run good es @ caching_run (good_after good es) es'"
  by (induction good es rule: caching_run.induct) (auto simp: good_after_def split: prod.splits)

lemma good_after_spec:
  "good_after Map.empty es (source_cache_key q) = last_fresh q es"
proof (induction es rule: rev_induct)
  case Nil
  show ?case by (simp add: good_after_def last_fresh_def)
next
  case (snoc e es)
  thus ?case by (cases e) (simp add: good_after_def last_fresh_snoc caching_step)
qed

lemma caching_run_nth:
  assumes "i < length es"
  shows "caching_run Map.empty es ! i = fst (caching_fetch (fst (es ! i)) (snd (es ! i)) (good_after Map.empty (take i es)))"
proof -
  have "caching_run Map.empty es ! i = caching_run Map.empty (take i es @ es ! i # drop (Suc i) es) ! i"
    using assms by (simp add: id_take_nth_drop[symmetric])
  also have "\<dots> = fst (caching_fetch (fst (es ! i)) (snd (es ! i)) (good_after Map.empty (take i es)))"
    using assms unfolding caching_run_append by (cases "es ! i") (simp add: nth_append split: prod.splits)
  finally show ?thesis .
qed

lemma cache_key_identifies:
  assumes "CHR 0x00 \<notin> set (g_domain (qy_goal q))" "CHR 0x00 \<notin> set (g_domain (qy_goal q'))"
  shows "source_cache_key q = source_cache_key q' \<longleftrightarrow>
     g_domain (qy_goal q) = g_domain (qy_goal q') \<and> g_id (qy_goal q) = g_id (qy_goal q')"
proof -
  have "a = c \<and> b = d" if nul: "x \<notin> set a" "x \<notin> set c" and e: "a @ x # b = c @ x # d" for a b c d and x :: char
  proof -
    have t: "takeWhile (\<lambda>y. y \<noteq> x) (z @ x # w) = z" if "x \<notin> set z" for z w
      using that by (induction z) auto
    have "a = c" using t[OF nul(1), of b] t[OF nul(2), of d] unfolding e by simp
    thus ?thesis using e by simp
  qed
  from this[of "CHR 0x00"] assms show ?thesis unfolding source_cache_key_def append_Cons append_Nil by metis
qed

text \<open>
  C27: in any interleaving of fetches the last-good cache never passes an old value off as
  current. A fresh answer of the primary is returned as it is. Otherwise the caller gets the most
  recent fresh answer for the same decision, changed only by being marked stale with a reason; or,
  if there is none, the primary's own answer and error. Two queries share an entry exactly when
  domain and goal agree, domains being free of NUL.
\<close>

theorem last_good_is_marked:
  assumes "i < length es" "es ! i = (q, out, err)" "caching_run Map.empty es ! i = (r, rerr)"
    and nul: "\<And>q' a. (q', a) \<in> set es \<Longrightarrow> CHR 0x00 \<notin> set (g_domain (qy_goal q'))"
  shows "(fresh_answer (out, err) \<longrightarrow> r = out \<and> rerr = None) \<and>
    (\<not> fresh_answer (out, err) \<longrightarrow>
       (case last_fresh q (take i es) of
          None \<Rightarrow> r = out \<and> rerr = err
        | Some prev \<Rightarrow> rerr = None \<and> sx_stale r \<and> sx_err r \<noteq> '''' \<and>
            r = prev\<lparr>sx_stale := True, sx_err := sx_err r\<rparr> \<and>
            (\<exists>j < i. \<exists>q'. es ! j = (q', prev, None) \<and> \<not> sx_stale prev \<and>
               g_domain (qy_goal q') = g_domain (qy_goal q) \<and> g_id (qy_goal q') = g_id (qy_goal q) \<and>
               (\<forall>k. j < k \<and> k < i \<and> source_cache_key (fst (es ! k)) = source_cache_key q \<longrightarrow>
                  \<not> fresh_answer (snd (es ! k))))))"
proof -
  let ?good = "good_after Map.empty (take i es)"
  have good: "caching_run Map.empty es ! i = fst (caching_fetch q (out, err) ?good)"
    "?good (source_cache_key q) = last_fresh q (take i es)"
    using caching_run_nth[OF assms(1)] assms(2) by (simp_all add: good_after_spec)
  have src: "\<exists>j < i. \<exists>q'. es ! j = (q', prev, None) \<and> \<not> sx_stale prev \<and>
       g_domain (qy_goal q') = g_domain (qy_goal q) \<and> g_id (qy_goal q') = g_id (qy_goal q) \<and>
       (\<forall>k. j < k \<and> k < i \<and> source_cache_key (fst (es ! k)) = source_cache_key q \<longrightarrow> \<not> fresh_answer (snd (es ! k)))"
    if p: "last_fresh q (take i es) = Some prev" for prev
  proof -
    let ?P = "\<lambda>(q', a). source_cache_key q' = source_cache_key q \<and> fresh_answer a"
    obtain e where e: "List.find ?P (rev (take i es)) = Some e" using p by (auto simp: last_fresh_def)
    then obtain m where m: "m < length (take i es)" "?P (rev (take i es) ! m)"
      "e = rev (take i es) ! m" "\<forall>k < m. \<not> ?P (rev (take i es) ! k)"
      unfolding find_Some_iff by auto
    let ?j = "i - Suc m"
    have nth: "rev (take i es) ! k = es ! (i - Suc k)" if "k < i" for k using that assms(1) by (simp add: rev_nth)
    have mi: "m < i" using m(1) assms(1) by simp
    obtain q' o' e' where ej: "es ! ?j = (q', o', e')" by (cases "es ! ?j")
    have j: "o' = prev" "e' = None" "\<not> sx_stale prev" "source_cache_key q' = source_cache_key q"
      using p e m(2,3) ej nth[OF mi] by (auto simp: last_fresh_def fresh_answer_def)
    have mem: "es ! ?j \<in> set es" "es ! i \<in> set es" using assms(1) mi by auto
    have dm: "g_domain (qy_goal q') = g_domain (qy_goal q) \<and> g_id (qy_goal q') = g_id (qy_goal q)"
      using cache_key_identifies[of q' q] nul[of q'] nul[of q] mem ej assms(2) j(4) by (metis prod.collapse)
    have "\<not> fresh_answer (snd (es ! k))" if "?j < k" "k < i" "source_cache_key (fst (es ! k)) = source_cache_key q" for k
    proof -
      have "i - Suc k < m" "i - Suc (i - Suc k) = k" using that mi by linarith+
      with m(4) nth[of "i - Suc k"] that show ?thesis by (auto simp: case_prod_beta)
    qed
    thus ?thesis using j dm ej mi by (intro exI[of _ ?j]) auto
  qed
  show ?thesis
  proof (cases "fresh_answer (out, err)")
    case True
    thus ?thesis using good assms(3) by (simp add: caching_fetch_def fresh_answer_def)
  next
    case False
    show ?thesis
    proof (cases "last_fresh q (take i es)")
      case None
      thus ?thesis using False good assms(3) by (auto simp: caching_fetch_def fresh_answer_def)
    next
      case (Some prev)
      have "r = prev\<lparr>sx_stale := True, sx_err := sx_err r\<rparr> \<and> rerr = None \<and> sx_err r \<noteq> ''''"
        using False good Some assms(3) by (auto simp: caching_fetch_def fresh_answer_def split: option.splits)
      hence "sx_stale r" by (metis source_result.select_convs(5) source_result.update_convs(5,6) source_result.surjective)
      thus ?thesis using False Some src[OF Some] \<open>r = _ \<and> rerr = None \<and> _\<close> by simp
    qed
  qed
qed

section \<open>What enrichment contributes\<close>

text \<open>The delta a member contributes: nothing when its fetch fails or panics.\<close>

definition member_delta :: "source_query \<Rightarrow> data_source \<Rightarrow> context_delta" where
  "member_delta q s = (case ds_fetch s q of Fetched out None \<Rightarrow> sx_delta out | _ \<Rightarrow> no_delta)"

definition member_failed :: "source_query \<Rightarrow> data_source \<Rightarrow> bool" where
  "member_failed q s \<longleftrightarrow> (case ds_fetch s q of Fetched out None \<Rightarrow> False | _ \<Rightarrow> True)"

definition member_panics :: "source_query \<Rightarrow> data_source \<Rightarrow> bool" where
  "member_panics q s \<longleftrightarrow> (case ds_fetch s q of FetchPanic _ \<Rightarrow> True | _ \<Rightarrow> False)"

lemma fetch_one_delta [simp]: "sx_delta (fetch_one s q t) = member_delta q s"
  by (auto simp: fetch_one_def member_delta_def stale_result_def zero_source_result_def Let_def
      split: fetched.splits option.splits)

lemma fetch_one_audit:
  "sx_stale (fetch_one s q t) \<longleftrightarrow> member_failed q s \<or> (\<exists>out. ds_fetch s q = Fetched out None \<and> sx_stale out)"
  "\<not> member_failed q s \<Longrightarrow> \<exists>out. ds_fetch s q = Fetched out None \<and>
     sx_raw (fetch_one s q t) = sx_raw out \<and> sx_err (fetch_one s q t) = sx_err out"
  "member_failed q s \<Longrightarrow> sx_source_name (fetch_one s q t) = dr_name (ds_describe s)"
  by (auto simp: fetch_one_def member_failed_def stale_result_def zero_source_result_def Let_def
      split: fetched.splits option.splits)

lemma sum_deltas_fields:
  "dl_facts (sum_deltas ds) = concat (map dl_facts ds)"
  "dl_assets (sum_deltas ds) = concat (map dl_assets ds)"
  "dl_constraints (sum_deltas ds) = concat (map dl_constraints ds)"
  by (induction ds) (simp_all add: no_delta_def)

definition query_of :: "(nat \<Rightarrow> time) \<Rightarrow> goal \<Rightarrow> string \<Rightarrow> payload \<Rightarrow> source_query" where
  "query_of clk g kind payload = \<lparr>qy_goal = g, qy_signal_kind = kind, qy_payload = payload, qy_as_of = clk 0\<rparr>"

lemma fst_enrich_with:
  "fst (enrich_with srcs clk g kind payload) =
     g\<lparr>g_context := delta_on (g_context g) (sum_deltas (map (member_delta (query_of clk g kind payload)) srcs))\<rparr>"
proof -
  have "map (\<lambda>(i, s). member_delta q s) (enumerate 0 srcs) = map (member_delta q) srcs" for q
    by (rule nth_equalityI) (simp_all add: nth_enumerate_eq)
  thus ?thesis by (simp add: enrich_with_def enrich_loop_eq query_of_def)
qed

lemma composite_loop_spec:
  "(\<exists>s \<in> set ss. member_panics q s) \<and> (\<exists>m. composite_loop q merged raw ss = Inl m) \<or>
   \<not> (\<exists>s \<in> set ss. member_panics q s) \<and>
     (\<exists>merged' raw'. composite_loop q merged raw ss = Inr (merged', raw') \<and>
        sx_delta merged' = append_delta (sx_delta merged) (sum_deltas (map (member_delta q) ss)))"
proof (induction ss arbitrary: merged raw)
  case (Cons s ss)
  show ?case
  proof (cases "ds_fetch s q")
    case (Fetched out err)
    have np: "\<not> member_panics q s" using Fetched by (simp add: member_panics_def)
    show ?thesis
    proof (cases err)
      case None
      obtain m2 r2 where "composite_loop q merged raw (s # ss) = composite_loop q m2 r2 ss"
        "sx_delta m2 = append_delta (sx_delta merged) (sx_delta out)"
        using Fetched None by (simp add: Let_def)
      moreover have "member_delta q s = sx_delta out" using Fetched None by (simp add: member_delta_def)
      ultimately show ?thesis using Cons[of m2 r2] np by simp
    next
      case (Some e)
      show ?thesis using Cons[of "merged\<lparr>sx_stale := True\<rparr>" raw] Fetched Some np by (simp add: member_delta_def)
    qed
  qed (simp add: member_panics_def)
qed simp

lemma composite_member:
  "member_delta q (composite_source marshal name srcs) =
     (if \<exists>s \<in> set srcs. member_panics q s then no_delta else sum_deltas (map (member_delta q) srcs))"
  using composite_loop_spec[of srcs q "zero_source_result\<lparr>sx_source_name := name\<rparr>" "[]"]
  by (auto simp: member_delta_def composite_source_def composite_fetch_def zero_source_result_def split: option.splits)

text \<open>
  Enrichment cannot fail, whatever the sources do: it returns the goal with only the facts,
  assets and constraints extended, by the deltas of the sources that answered, in the order of the
  sources, each asked about the goal as it came in. The audit has one record per source, in
  order; a source that failed or panicked is recorded stale, under the name it describes itself
  by, and contributed nothing.
\<close>

theorem enrichment_only_appends:
  assumes "enrich_with srcs clk g kind payload = (g', contribs)"
  defines "q \<equiv> query_of clk g kind payload"
  shows "g' = g\<lparr>g_context := (g_context g)\<lparr>
        cx_facts := cx_facts (g_context g) @ concat (map (dl_facts \<circ> member_delta q) srcs),
        cx_assets := cx_assets (g_context g) @ concat (map (dl_assets \<circ> member_delta q) srcs),
        cx_constraints := cx_constraints (g_context g) @ concat (map (dl_constraints \<circ> member_delta q) srcs)\<rparr>\<rparr> \<and>
    length contribs = length srcs \<and>
    (\<forall>i < length srcs.
       (so_stale (contribs ! i) \<longleftrightarrow>
          member_failed q (srcs ! i) \<or> (\<exists>out. ds_fetch (srcs ! i) q = Fetched out None \<and> sx_stale out)) \<and>
       so_delta_summary (contribs ! i) = summarize (member_delta q (srcs ! i)) \<and>
       (member_failed q (srcs ! i) \<longrightarrow>
          so_source_name (contribs ! i) = dr_name (ds_describe (srcs ! i)) \<and> so_delta_summary (contribs ! i) = '''') \<and>
       (\<not> member_failed q (srcs ! i) \<longrightarrow>
          (\<exists>out. ds_fetch (srcs ! i) q = Fetched out None \<and> so_raw (contribs ! i) = sx_raw out \<and>
             so_err (contribs ! i) = sx_err out)))"
proof -
  have g': "g' = fst (enrich_with srcs clk g kind payload)" using assms(1) by simp
  have cs: "contribs = map (\<lambda>(i, s). to_contribution (fetch_one s q (clk (1 + 2 * i))) (clk (1 + 2 * i + 1))) (enumerate 0 srcs)"
    using assms(1) by (auto simp: enrich_with_def enrich_loop_eq q_def query_of_def split: if_splits)
  have nth: "contribs ! i = to_contribution (fetch_one (srcs ! i) q (clk (1 + 2 * i))) (clk (1 + 2 * i + 1))"
    if "i < length srcs" for i using that by (simp add: cs nth_enumerate_eq)
  have none: "summarize (member_delta q s) = ''''" if "member_failed q s" for s
    using that by (auto simp: member_failed_def member_delta_def summarize_def delta_empty_def no_delta_def
        split: fetched.splits option.splits)
  show ?thesis
    unfolding g' fst_enrich_with q_def[symmetric]
    using fetch_one_audit[where q = q] none
    by (simp add: nth to_contribution_def delta_on_def sum_deltas_fields comp_def cs[THEN arg_cong[of _ _ length]] o_def)
qed

definition sample_source :: "string \<Rightarrow> fetched \<Rightarrow> data_source" where
  "sample_source name f =
     \<lparr>ds_describe = \<lparr>dr_name = name, dr_domain = '''', dr_description = '''', dr_input_schema = []\<rparr>, ds_fetch = (\<lambda>_. f)\<rparr>"

definition sample_result :: source_result where
  "sample_result = zero_source_result\<lparr>sx_delta := no_delta\<lparr>dl_facts := [''price 10'']\<rparr>\<rparr>"

theorem enrichment_only_appends_witness:
  "\<exists>g' contribs. enrich_with [sample_source ''down'' (FetchPanic ''nil map''), sample_source ''up'' (Fetched sample_result None)]
       (\<lambda>_. 5) zero_goal '''' [] = (g', contribs) \<and>
     cx_facts (g_context g') = [''price 10''] \<and> map so_stale contribs = [True, False]"
proof -
  let ?s = "[sample_source ''down'' (FetchPanic ''nil map''), sample_source ''up'' (Fetched sample_result None)]"
  obtain g' cs where e: "enrich_with ?s (\<lambda>_. 5) zero_goal '''' [] = (g', cs)" by force
  note p = enrichment_only_appends[OF e]
  have l: "length cs = 2" using p by simp
  have st: "\<forall>i < 2. so_stale (cs ! i) \<longleftrightarrow> (member_failed (query_of (\<lambda>_. 5) zero_goal '''' []) (?s ! i) \<or>
      (\<exists>out. ds_fetch (?s ! i) (query_of (\<lambda>_. 5) zero_goal '''' []) = Fetched out None \<and> sx_stale out))"
    using p by simp
  have "map so_stale cs = [so_stale (cs ! 0), so_stale (cs ! 1)]"
    using l by (intro nth_equalityI) (auto simp: less_2_cases_iff)
  also have "\<dots> = [True, False]"
    using st by (simp add: less_2_cases_iff member_failed_def sample_source_def sample_result_def zero_source_result_def)
  finally have "map so_stale cs = [True, False]" .
  moreover have "cx_facts (g_context g') = [''price 10'']"
    using p by (simp add: member_delta_def sample_source_def sample_result_def zero_source_result_def no_delta_def
        zero_goal_def zero_context_def)
  ultimately show ?thesis using e by (intro exI[of _ g'] exI[of _ cs]) simp
qed

text \<open>
  Consulting several sources through a composite gives the planner the same goal as
  consulting them one by one, as long as none of them panics; a panic, which the composite does
  not recover from, loses the contributions of all its members.
\<close>

theorem composite_enriches_alike:
  "fst (enrich_with [composite_source marshal name srcs] clk g kind payload) =
     (if \<exists>s \<in> set srcs. member_panics (query_of clk g kind payload) s then g
      else fst (enrich_with srcs clk g kind payload))"
  by (simp add: fst_enrich_with composite_member)

theorem last_good_is_marked_witness:
  "\<exists>r. caching_run Map.empty
       [(query_of (\<lambda>_. 1) zero_goal '''' [], sample_result, None),
        (query_of (\<lambda>_. 2) zero_goal '''' [], zero_source_result, Some (EText ''down''))] ! 1 = (r, None) \<and>
     sx_stale r \<and> sx_delta r = sx_delta sample_result"
proof -
  let ?q = "\<lambda>t. query_of (\<lambda>_. t) zero_goal '''' []"
  let ?es = "[(?q 1, sample_result, None), (?q 2, zero_source_result, Some (EText ''down''))]"
  obtain r e where r: "caching_run Map.empty ?es ! 1 = (r, e)" by force
  have k: "source_cache_key (?q t) = source_cache_key (?q s)" for t s by (simp add: source_cache_key_def query_of_def)
  have l: "last_fresh (?q 2) (take 1 ?es) = Some sample_result"
    by (simp add: last_fresh_def fresh_answer_def sample_result_def zero_source_result_def k[of 1 2])
  have "CHR 0x00 \<notin> set (g_domain (qy_goal q'))" if "(q', a) \<in> set ?es" for q' a
    using that by (auto simp: query_of_def zero_goal_def)
  with last_good_is_marked[of 1 ?es "?q 2" zero_source_result "Some (EText ''down'')" r e] r l
  have "e = None \<and> sx_stale r \<and> r = sample_result\<lparr>sx_stale := True, sx_err := sx_err r\<rparr>"
    by (auto simp: fresh_answer_def)
  hence "e = None" "sx_stale r" "sx_delta r = sx_delta sample_result" by (metis, metis, metis source_result.select_convs(2) source_result.update_convs(5,6) source_result.surjective)
  thus ?thesis using r by auto
qed

end
