(* ===== verification/Pack_Builtin.thy ===== *)
theory Pack_Builtin
  imports Pack
begin

text \<open>
  The built-in packs (\<open>internal/pack/generic.go\<close>, \<open>investing.go\<close>, \<open>growth.go\<close>, \<open>career.go\<close>) and the
  registry over them (\<open>registry.go\<close>).
\<close>

section \<open>Prompt templates\<close>

definition em_dash :: string where "em_dash = [CHR 0xE2, CHR 0x80, CHR 0x94]"

definition lines_of :: "string list \<Rightarrow> string" where "lines_of ls = join_strs [CHR 10] ls"

definition investingPromptTemplate :: string where
  \<open>investingPromptTemplate = lines_of
     [''DOMAIN: INVESTING'',
      '''',
      ''Treat each move as a falsifiable investment thesis, not a tip. For every move:'',
      ''- State the thesis in one sentence: the specific, checkable claim about the asset.'',
      ''- Give entry and exit conditions (price, valuation, or event triggers). Keep them'',
      ''  qualitative here; precise numeric levels are produced by a separate scorer.'',
      ''- Express conviction as a relative position size (starter / half / full), never as'',
      ''  a dollar amount, and keep it consistent with the confidence you report.'',
      ''- Make kill_criteria concrete thesis-invalidation events '' @ em_dash @ '' the facts that, if true,'',
      ''  prove the thesis wrong '' @ em_dash @ '' not merely "the price went down".'',
      ''- State a time horizon (e.g. weeks, quarters, years) and the dominant risk'',
      ''  (valuation, execution, macro, liquidity).'',
      '''',
      ''Confidence must read as a calibrated probability that the thesis plays out over the'',
      ''stated horizon. Do not inflate it; uncertainty is normal and expected.'',
      '''',
      ''You MUST include verbatim in the plan summary: "Educational decision-support only.'',
      ''Not financial advice. Not a recommendation to buy or sell any security."'']\<close>

definition growthPromptTemplate :: string where
  \<open>growthPromptTemplate = lines_of
     [''DOMAIN: GROWTH'',
      '''',
      ''Treat each move as a growth experiment or loop aimed at one primary metric. For'',
      ''every move:'',
      ''- Name the funnel stage it targets (acquisition, activation, retention, revenue,'',
      ''  referral) and the single metric it should move.'',
      ''- Prefer cheap, reversible bets with short feedback cycles over large commitments.'',
      ''- Distinguish leading indicators (early signal) from lagging ones (the goal metric).'',
      ''- Make kill_criteria the failure to move the targeted metric within the window.'',
      '''',
      ''Be honest about channel saturation and cost; a move that cannot scale past a small'',
      ''audience should say so.'']\<close>

definition growthExpandTemplate :: string where
  \<open>growthExpandTemplate = lines_of
     [''STRATEGY LENS: EXPANSION-FIRST'',
      '''',
      ''Bias every move toward NEW demand: untapped channels, new segments, new'',
      ''geographies. Treat current channels as near saturation unless the context'',
      ''proves otherwise. A move that only optimises an existing funnel stage must'',
      ''justify why expansion would not beat it. State explicitly what new audience'',
      ''each move reaches and the cheapest test that proves the channel works.'']\<close>

definition growthRetainTemplate :: string where
  \<open>growthRetainTemplate = lines_of
     [''STRATEGY LENS: RETENTION-EFFICIENCY'',
      '''',
      ''Bias every move toward keeping and deepening EXISTING demand: activation,'',
      ''retention, expansion revenue, and unit economics. Treat acquisition spend as'',
      ''suspect until churn and payback are understood. A move that buys new traffic'',
      ''must justify why fixing the leaky bucket would not beat it. State explicitly'',
      ''which cohort each move improves and the retention metric that proves it.'']\<close>

definition growthExperimentTemplate :: string where
  \<open>growthExperimentTemplate = lines_of
     [''STRATEGY LENS: EXPERIMENT-DRIVEN'',
      '''',
      ''Bias every move toward LEARNING RATE: the portfolio should maximise validated'',
      ''information per week, not any single bet. Prefer several small, parallel,'',
      ''reversible tests over one committed push, even when the committed push has'',
      ''higher expected value on paper. State explicitly the hypothesis each move'',
      ''tests, what result would falsify it, and what the next experiment is in'',
      ''either outcome.'']\<close>

definition careerPromptTemplate :: string where
  \<open>careerPromptTemplate = lines_of
     [''DOMAIN: CAREER'',
      '''',
      ''Treat each move as a career-positioning bet. For every move:'',
      ''- Identify the leverage it builds: skill, visibility, network, or reputation.'',
      ''- Favour moves whose value compounds and that preserve optionality.'',
      ''- Respect limited bandwidth: time-box effort to what fits alongside current work.'',
      ''- Make kill_criteria the absence of a concrete signal (interview, recognition,'',
      ''  demonstrable skill) within the window.'',
      '''',
      ''Be realistic about timelines; senior transitions usually take quarters, not weeks.'']\<close>

definition careerMasteryTemplate :: string where
  \<open>careerMasteryTemplate = lines_of
     [''STRATEGY LENS: COMPOUNDING MASTERY'',
      '''',
      ''Bias every move toward DEPTH in one valuable, durable skill. Treat scattered'',
      ''effort as the default failure mode. A move that broadens must justify why it'',
      ''beats deepening the strongest existing skill. State explicitly which skill'',
      ''each move compounds and the demonstrable artifact (talk, project, credential)'',
      ''that proves the depth gained.'']\<close>

definition careerOptionalityTemplate :: string where
  \<open>careerOptionalityTemplate = lines_of
     [''STRATEGY LENS: OPTIONALITY'',
      '''',
      ''Bias every move toward keeping FUTURE PATHS open: transferable skills,'',
      ''multiple live opportunities, low switching costs. Treat any move that locks'',
      ''years into one employer, stack or city as suspect until the lock-in is paid'',
      ''for. State explicitly which options each move creates or preserves and what'',
      ''it would cost to change course afterwards.'']\<close>

definition careerNetworkTemplate :: string where
  \<open>careerNetworkTemplate = lines_of
     [''STRATEGY LENS: NETWORK LEVERAGE'',
      '''',
      ''Bias every move toward RELATIONSHIPS and VISIBILITY: who will know this work'',
      ''exists, and who can act on it. Treat skill-building without an audience as'',
      ''incomplete. A move done alone must justify why it beats the same effort done'',
      ''with or in front of the right people. State explicitly which relationship or'',
      ''audience each move builds and the concrete signal (introduction, invitation,'',
      ''referral) that proves it worked.'']\<close>

section \<open>The packs\<close>

definition warn_rule :: "string \<Rightarrow> string list \<Rightarrow> string list \<Rightarrow> string \<Rightarrow> string \<Rightarrow> validation_rule" where
  "warn_rule check kinds scopes field message =
     \<lparr>ru_check = check, ru_kinds = kinds, ru_scopes = scopes, ru_field = field, ru_message = message,
      ru_severity = SeverityWarning\<rparr>"

definition generic_pack :: descriptor where
  "generic_pack =
     zero_descriptor\<lparr>de_id := DefaultDomain, de_name := ''Generic'', de_version := ''1'', de_prompt_version := ''generic-v1'',
       de_prompt_template := '''',
       de_eval := \<lparr>ec_confidence_delta = lit (10/100), ec_ignore_signal_kinds = []\<rparr>,
       de_vocab := \<lparr>vo_asset_kinds = [''skill'', ''data'', ''network'', ''product'', ''capital''],
         vo_constraint_kinds = [''budget'', ''time'', ''geography'', ''policy'', ''risk''],
         vo_signal_kinds = [''competitor'', ''customer'', ''internal'', ''external'']\<rparr>,
       de_validation := \<lparr>vn_rules = [warn_rule CheckRequireContext [] [] ''context''
           ''no assets or constraints provided; plans will be generic''], vn_warn_unknown_kinds = False\<rparr>\<rparr>"

definition strategy_regimes :: "string \<Rightarrow> string list" where
  "strategy_regimes name =
     (if name = ''value'' then [''trend'', ''range''] else if name = ''momentum'' then [''trend''] else [])"

definition investing_strategies :: "strategy_descriptor list" where
  "investing_strategies =
     map (\<lambda>params. \<lparr>sd_id = sp_name params, sd_name = sp_name params, sd_regimes = strategy_regimes (sp_name params),
            sd_scoring = ParamsAny (Some params), sd_prompt_template = ''''\<rparr>) default_strategy_set"

definition investing_pack :: descriptor where
  "investing_pack =
     zero_descriptor\<lparr>de_id := ''investing'', de_name := ''Investing'', de_version := ''1'', de_prompt_version := ''investing-v1'',
       de_prompt_template := investingPromptTemplate, de_planner_kind := ''finance'',
       de_eval := \<lparr>ec_confidence_delta = lit (5/100), ec_ignore_signal_kinds = []\<rparr>,
       de_scoring := ScoringAny (Some default_scoring_config),
       de_strategies := investing_strategies, de_selection_default_on := True,
       de_vocab := \<lparr>vo_asset_kinds = [''capital'', ''edge'', ''information'', ''conviction'', ''liquidity'', ''time_horizon''],
         vo_constraint_kinds = [''risk_tolerance'', ''liquidity'', ''time_horizon'', ''drawdown_limit'', ''mandate'', ''tax''],
         vo_signal_kinds = [''price_move'', ''earnings'', ''macro'', ''valuation_change'', ''thesis_break'']\<rparr>,
       de_validation := \<lparr>vn_rules =
          [warn_rule CheckRequireAnyKind [''risk_tolerance'', ''drawdown_limit''] [ScopeConstraint] ''context.constraints''
             ''no risk_tolerance or drawdown_limit constraint; sizing will fall back to conservative defaults'',
           warn_rule CheckRequireAnyKind [''time_horizon''] [ScopeAsset, ScopeConstraint] ''context''
             ''no time_horizon given; thesis horizon-fit cannot be assessed''], vn_warn_unknown_kinds = False\<rparr>\<rparr>"

definition text_strategy :: "string \<Rightarrow> string \<Rightarrow> string \<Rightarrow> strategy_descriptor" where
  "text_strategy i name template =
     \<lparr>sd_id = i, sd_name = name, sd_regimes = [], sd_scoring = NilAny, sd_prompt_template = template\<rparr>"

definition growth_pack :: descriptor where
  "growth_pack =
     zero_descriptor\<lparr>de_id := ''growth'', de_name := ''Growth'', de_version := ''1'', de_prompt_version := ''growth-v1'',
       de_prompt_template := growthPromptTemplate,
       de_eval := \<lparr>ec_confidence_delta = lit (10/100), ec_ignore_signal_kinds = []\<rparr>,
       de_strategies :=
         [text_strategy ''expand'' ''Expansion-first'' growthExpandTemplate,
          text_strategy ''retain'' ''Retention-efficiency'' growthRetainTemplate,
          text_strategy ''experiment'' ''Experiment-driven'' growthExperimentTemplate],
       de_vocab := \<lparr>vo_asset_kinds = [''product'', ''channel'', ''audience'', ''data'', ''brand'', ''team''],
         vo_constraint_kinds = [''budget'', ''runway'', ''team_bandwidth'', ''channel_saturation'', ''compliance''],
         vo_signal_kinds = [''metric_change'', ''channel_performance'', ''cohort'', ''competitor'', ''customer_feedback'']\<rparr>,
       de_validation := \<lparr>vn_rules = [warn_rule CheckRequireMetric [] [] ''metric''
           ''no growth metric set; experiments cannot be scored against a target''], vn_warn_unknown_kinds = False\<rparr>\<rparr>"

definition career_pack :: descriptor where
  "career_pack =
     zero_descriptor\<lparr>de_id := ''career'', de_name := ''Career'', de_version := ''1'', de_prompt_version := ''career-v1'',
       de_prompt_template := careerPromptTemplate,
       de_eval := \<lparr>ec_confidence_delta = lit (10/100), ec_ignore_signal_kinds = []\<rparr>,
       de_strategies :=
         [text_strategy ''mastery'' ''Compounding mastery'' careerMasteryTemplate,
          text_strategy ''optionality'' ''Optionality'' careerOptionalityTemplate,
          text_strategy ''network'' ''Network leverage'' careerNetworkTemplate],
       de_vocab := \<lparr>vo_asset_kinds = [''skill'', ''network'', ''reputation'', ''experience'', ''credential''],
         vo_constraint_kinds = [''time'', ''geography'', ''compensation_floor'', ''risk_tolerance'', ''family''],
         vo_signal_kinds = [''interview_outcome'', ''feedback'', ''market_demand'', ''internal_signal'', ''offer'']\<rparr>,
       de_validation := \<lparr>vn_rules = [warn_rule CheckRequireAnyKind [''time''] [ScopeConstraint] ''context.constraints''
           ''no time constraint; career moves are bandwidth-bound and should state available time''],
         vn_warn_unknown_kinds = False\<rparr>\<rparr>"

definition builtin_packs :: "descriptor list" where
  "builtin_packs = [generic_pack, investing_pack, growth_pack, career_pack]"

definition new_registry :: "descriptor list \<Rightarrow> registry" where
  "new_registry extra = new_registry_from builtin_packs extra"

section \<open>Loading configured domains\<close>

text \<open>
  The file system and the decoders are arguments: \<open>rel\<close> joins a path to the directory of the
  configuration file.
\<close>

definition read_prompt_file ::
  "(string \<Rightarrow> go_error + string) \<Rightarrow> (string \<Rightarrow> bool) \<Rightarrow> (string \<Rightarrow> string \<Rightarrow> string) \<Rightarrow> string \<Rightarrow> string \<Rightarrow>
   go_error + string" where
  "read_prompt_file read_file is_abs rel config_path prompt_file =
     (let path = (if is_abs prompt_file then prompt_file else rel config_path prompt_file) in
      case read_file path of
        Inl err \<Rightarrow> Inl (EWrap (''read prompt_file '' @ path) err)
      | Inr b \<Rightarrow> Inr b)"

definition load_descriptors ::
  "unicode \<Rightarrow> (string \<Rightarrow> go_error + string) \<Rightarrow> (string \<Rightarrow> bool) \<Rightarrow> (string \<Rightarrow> string \<Rightarrow> string) \<Rightarrow>
   (string \<Rightarrow> go_error + (descriptor \<times> string) list) \<Rightarrow> (string \<Rightarrow> go_error + (descriptor \<times> string) list) \<Rightarrow>
   string \<Rightarrow> go_error + descriptor list" where
  "load_descriptors u read_file is_abs rel parse_json parse_yaml path =
     (if path = '''' then Inr []
      else case read_file path of
        Inl err \<Rightarrow> Inl (EWrap (''pack: read domains '' @ path) err)
      | Inr data \<Rightarrow>
          (case (if suffix ''.json'' path then parse_json data else parse_yaml data) of
             Inl err \<Rightarrow> Inl (EWrap (''pack: parse domains '' @ path) err)
           | Inr es \<Rightarrow> load_loop u (read_prompt_file read_file is_abs rel path) (new_registry []) path [] [] es))"

section \<open>What the built-ins declare\<close>

lemma builtin_ids: "map de_id builtin_packs = [''generic'', ''investing'', ''growth'', ''career'']"
  by (simp add: builtin_packs_def generic_pack_def investing_pack_def growth_pack_def career_pack_def DefaultDomain_def)

lemma builtin_packs_in: "builtin_packs ! 0 = generic_pack" "set builtin_packs = {generic_pack, investing_pack, growth_pack, career_pack}"
  by (simp_all add: builtin_packs_def)

lemma builtin_kinds:
  "de_planner_kind generic_pack = ''''" "de_planner_kind investing_pack = ''finance''"
  "de_planner_kind growth_pack = ''''" "de_planner_kind career_pack = ''''"
  by (simp_all add: generic_pack_def investing_pack_def growth_pack_def career_pack_def zero_descriptor_def)

lemma builtin_strategies:
  "de_strategies generic_pack = []"
  "map sd_id (de_strategies investing_pack) = [''value'', ''momentum'', ''defensive'']"
  "map sd_regimes (de_strategies investing_pack) = [[''trend'', ''range''], [''trend''], []]"
  "map sd_id (de_strategies growth_pack) = [''expand'', ''retain'', ''experiment'']"
  "map sd_id (de_strategies career_pack) = [''mastery'', ''optionality'', ''network'']"
  "map sd_prompt_template (de_strategies growth_pack) = [growthExpandTemplate, growthRetainTemplate, growthExperimentTemplate]"
  "map sd_prompt_template (de_strategies career_pack) = [careerMasteryTemplate, careerOptionalityTemplate, careerNetworkTemplate]"
  by (simp_all add: generic_pack_def investing_pack_def growth_pack_def career_pack_def zero_descriptor_def
      investing_strategies_def default_strategy_set_def strategy_regimes_def text_strategy_def)

text \<open>The lens templates of a pack differ already in their first line.\<close>

definition first_line :: "string \<Rightarrow> string" where
  "first_line s = takeWhile (\<lambda>c. c \<noteq> CHR 10) s"

lemma first_line_lines [simp]:
  "CHR 10 \<notin> set l \<Longrightarrow> first_line (lines_of (l # m # ls)) = l"
  by (induction l) (auto simp: lines_of_def first_line_def)

lemma lens_first_lines:
  "map first_line [growthExpandTemplate, growthRetainTemplate, growthExperimentTemplate] =
     [''STRATEGY LENS: EXPANSION-FIRST'', ''STRATEGY LENS: RETENTION-EFFICIENCY'', ''STRATEGY LENS: EXPERIMENT-DRIVEN'']"
  "map first_line [careerMasteryTemplate, careerOptionalityTemplate, careerNetworkTemplate] =
     [''STRATEGY LENS: COMPOUNDING MASTERY'', ''STRATEGY LENS: OPTIONALITY'', ''STRATEGY LENS: NETWORK LEVERAGE'']"
  by (simp_all add: growthExpandTemplate_def growthRetainTemplate_def growthExperimentTemplate_def
    careerMasteryTemplate_def careerOptionalityTemplate_def careerNetworkTemplate_def)

lemma lens_templates_distinct:
  "distinct [growthExpandTemplate, growthRetainTemplate, growthExperimentTemplate]"
  "distinct [careerMasteryTemplate, careerOptionalityTemplate, careerNetworkTemplate]"
proof -
  have d: "distinct (map first_line ts) \<Longrightarrow> distinct ts" for ts by (simp add: distinct_map)
  show "distinct [growthExpandTemplate, growthRetainTemplate, growthExperimentTemplate]"
    by (rule d) (simp only: lens_first_lines, simp)
  show "distinct [careerMasteryTemplate, careerOptionalityTemplate, careerNetworkTemplate]"
    by (rule d) (simp only: lens_first_lines, simp)
qed

end
