(* ===== verification/Policy.thy ===== *)
theory Policy
  imports Pack Outcome_Fit
begin

text \<open>
  Per-domain operational tunables, \<open>internal/policy/policy.go\<close>: the overrides a policy file may
  give and the checks made when it is loaded. The decoders and the file system are arguments. Go
  maps are association lists, listed in the order in which \<open>range\<close> happens to visit them; which
  error \<open>Validate\<close> reports may depend on it, whether it reports one does not.
\<close>

section \<open>Overrides\<close>

record planner_spec =
  pn_planner :: string
  pn_multi_mode :: string
  pn_multi_providers :: "string list"
  pn_model :: string

record strategy_selection =
  sn_enabled :: "bool option"
  sn_disable :: "string list"
  sn_weights :: "(string \<times> f64) list"
  sn_incumbent_margin :: "f64 option"
  sn_params :: "(string \<times> strategy_params option) list"
  sn_comparator :: string

record domain_policy =
  dy_confidence_delta :: "f64 option"
  dy_scoring :: "scoring_config option"
  dy_ignore_signal_kinds :: "string list option"
  dy_planner :: "planner_spec option"
  dy_source_kinds :: "string list option"
  dy_calibration :: "calibration_curve option"
  dy_strategy :: "strategy_selection option"

definition zero_domain_policy :: domain_policy where
  "zero_domain_policy =
     \<lparr>dy_confidence_delta = None, dy_scoring = None, dy_ignore_signal_kinds = None, dy_planner = None,
      dy_source_kinds = None, dy_calibration = None, dy_strategy = None\<rparr>"

definition zero_selection :: strategy_selection where
  "zero_selection =
     \<lparr>sn_enabled = None, sn_disable = [], sn_weights = [], sn_incumbent_margin = None, sn_params = [],
      sn_comparator = ''''\<rparr>"

type_synonym policy = "(string \<times> domain_policy) list"

definition policy_for :: "policy \<Rightarrow> string \<Rightarrow> domain_policy option" where
  "policy_for p key = map_of p key"

section \<open>Validation\<close>

text \<open>The first error of a loop whose body may return one.\<close>

fun first_err :: "('a \<Rightarrow> go_error option) \<Rightarrow> 'a list \<Rightarrow> go_error option" where
  "first_err f [] = None"
| "first_err f (x # xs) = (case f x of Some e \<Rightarrow> Some e | None \<Rightarrow> first_err f xs)"

definition or_else :: "go_error option \<Rightarrow> go_error option \<Rightarrow> go_error option" where
  "or_else a b = (case a of Some e \<Rightarrow> Some e | None \<Rightarrow> b)"

definition singleBackends :: "string list" where
  "singleBackends = [''mock'', ''anthropic'', ''openai'', ''deepseek'']"

definition spec_validate :: "unicode \<Rightarrow> planner_spec \<Rightarrow> go_error option" where
  "spec_validate u s =
     (if (pn_multi_mode s \<noteq> '''' \<or> 0 < length (pn_multi_providers s)) \<and> pn_planner s \<noteq> ''multi''
        then Some (EText ''multi_mode/multi_providers require planner: multi'')
      else if pn_planner s = '''' then None
      else if pn_planner s \<noteq> ''multi'' then
        (if pn_planner s \<notin> set singleBackends
         then Some (EText (''unknown backend '' @ uc_quote u (pn_planner s) @ '' (want mock|anthropic|openai|deepseek|multi)''))
         else None)
      else if pn_multi_mode s \<notin> {''verify'', ''route'', ''ensemble''}
        then Some (EText (''invalid multi_mode '' @ uc_quote u (pn_multi_mode s) @ '' (want verify|route|ensemble)''))
      else if length (pn_multi_providers s) < 2 then Some (EText ''multi needs at least 2 multi_providers'')
      else or_else
        (first_err (\<lambda>m. if m \<notin> set singleBackends
             then Some (EText (''invalid multi_providers entry '' @ uc_quote u m)) else None) (pn_multi_providers s))
        (if pn_multi_mode s = ''verify'' \<and> pn_multi_providers s ! 1 = ''mock''
         then Some (EText ''multi_mode verify needs a real verifier; mock cannot verify'') else None))"

text \<open>\<open>show_v\<close> is the verb \<open>%v\<close> on a float.\<close>

definition selection_validate :: "unicode \<Rightarrow> (f64 \<Rightarrow> string) \<Rightarrow> strategy_selection \<Rightarrow> go_error option" where
  "selection_validate u show_v s =
     or_else (first_err (\<lambda>(key, w).
         if uc_trim_space u key = '''' then Some (EText ''weights: empty strategy key'')
         else if w \<le> 0 then Some (EText (''weights['' @ uc_quote u key @ '']: must be > 0, got '' @ show_v w))
         else None) (sn_weights s))
    (or_else (first_err (\<lambda>i. if uc_trim_space u i = '''' then Some (EText ''disable: empty strategy id'') else None)
         (sn_disable s))
    (or_else (first_err (\<lambda>(i, params).
         if uc_trim_space u i = '''' then Some (EText ''params: empty strategy id'')
         else if params = None then Some (EText (''params['' @ uc_quote u i @ '']: null override''))
         else None) (sn_params s))
    (or_else (case sn_incumbent_margin s of
         Some m \<Rightarrow> if m < 0 then Some (EText (''incumbent_margin: must be >= 0, got '' @ show_v m)) else None
       | None \<Rightarrow> None)
     (if sn_comparator s \<in> {'''', ''utility'', ''verify''} then None
      else if sn_comparator s = ''judge'' then Some (EText ''comparator judge is reserved but not implemented yet'')
      else Some (EText (''unknown comparator '' @ uc_quote u (sn_comparator s) @ '' (want utility|verify)''))))))"

definition domain_validate :: "unicode \<Rightarrow> (f64 \<Rightarrow> string) \<Rightarrow> string \<times> domain_policy \<Rightarrow> go_error option" where
  "domain_validate u show_v e =
     (let (i, dp) = e in
      or_else
        (case dy_planner dp of None \<Rightarrow> None
         | Some p \<Rightarrow> map_option (EWrap (''domain '' @ uc_quote u i @ '' planner'')) (spec_validate u p))
        (case dy_strategy dp of None \<Rightarrow> None
         | Some s \<Rightarrow> or_else
             (map_option (EWrap (''domain '' @ uc_quote u i @ '' strategy'')) (selection_validate u show_v s))
             (case dy_planner dp of
                Some p \<Rightarrow> if sn_comparator s = ''verify'' \<and> pn_multi_mode p = ''verify''
                  then Some (EText (''domain '' @ uc_quote u i @
                    '': comparator verify with a multi_mode verify planner double-verifies every candidate''))
                  else None
              | None \<Rightarrow> None)))"

definition policy_validate :: "unicode \<Rightarrow> (f64 \<Rightarrow> string) \<Rightarrow> policy \<Rightarrow> go_error option" where
  "policy_validate u show_v p = first_err (domain_validate u show_v) p"

definition policy_load ::
  "unicode \<Rightarrow> (f64 \<Rightarrow> string) \<Rightarrow> (string \<Rightarrow> go_error + string) \<Rightarrow> (string \<Rightarrow> go_error + policy) \<Rightarrow>
   (string \<Rightarrow> go_error + policy) \<Rightarrow> string \<Rightarrow> go_error + policy" where
  "policy_load u show_v read_file parse_json parse_yaml path =
     (if path = '''' then Inr []
      else case read_file path of
        Inl err \<Rightarrow> Inl (EWrap (''policy: read '' @ path) err)
      | Inr data \<Rightarrow>
          (case (if suffix ''.json'' path then parse_json data else parse_yaml data) of
             Inl err \<Rightarrow> Inl (EWrap (''policy: parse '' @ path) err)
           | Inr p \<Rightarrow>
               (case policy_validate u show_v p of
                  Some err \<Rightarrow> Inl (EWrap (''policy: '' @ path) err)
                | None \<Rightarrow> Inr p)))"

section \<open>What a loaded policy satisfies\<close>

lemma first_err_None: "first_err f xs = None \<longleftrightarrow> (\<forall>x \<in> set xs. f x = None)"
  by (induction xs) (auto split: option.splits)

lemma or_else_None [simp]: "or_else a b = None \<longleftrightarrow> a = None \<and> b = None"
  by (simp add: or_else_def split: option.splits)

definition spec_ok :: "planner_spec \<Rightarrow> bool" where
  "spec_ok s \<longleftrightarrow>
     (if pn_planner s = ''multi''
      then pn_multi_mode s \<in> {''verify'', ''route'', ''ensemble''} \<and> 2 \<le> length (pn_multi_providers s) \<and>
           set (pn_multi_providers s) \<subseteq> set singleBackends \<and>
           (pn_multi_mode s = ''verify'' \<longrightarrow> pn_multi_providers s ! 1 \<noteq> ''mock'')
      else pn_planner s \<in> insert '''' (set singleBackends) \<and> pn_multi_mode s = '''' \<and> pn_multi_providers s = [])"

lemma spec_validate_None: "spec_validate u s = None \<longleftrightarrow> spec_ok s"
proof -
  have multi: "pn_planner s = ''multi'' \<Longrightarrow> ?thesis"
    by (auto simp: spec_validate_def spec_ok_def first_err_None or_else_None subset_iff not_less)
  have other: "pn_planner s \<noteq> ''multi'' \<Longrightarrow> ?thesis"
    by (auto simp: spec_validate_def spec_ok_def singleBackends_def)
  show ?thesis using multi other by blast
qed

definition selection_ok :: "unicode \<Rightarrow> strategy_selection \<Rightarrow> bool" where
  "selection_ok u s \<longleftrightarrow>
     (\<forall>(k, w) \<in> set (sn_weights s). uc_trim_space u k \<noteq> '''' \<and> \<not> w \<le> 0) \<and>
     (\<forall>i \<in> set (sn_disable s). uc_trim_space u i \<noteq> '''') \<and>
     (\<forall>(i, p) \<in> set (sn_params s). uc_trim_space u i \<noteq> '''' \<and> p \<noteq> None) \<and>
     (\<forall>m. sn_incumbent_margin s = Some m \<longrightarrow> \<not> m < 0) \<and>
     sn_comparator s \<in> {'''', ''utility'', ''verify''}"

lemma selection_validate_None: "selection_validate u f s = None \<longleftrightarrow> selection_ok u s"
proof -
  have w: "(case e of (key, w) \<Rightarrow> if uc_trim_space u key = '''' then Some e1 else if w \<le> 0 then Some (g key w) else None) = None
      \<longleftrightarrow> (case e of (k, w) \<Rightarrow> uc_trim_space u k \<noteq> '''' \<and> \<not> w \<le> (0::f64))" for e and e1 :: go_error and g
    by (cases e) simp
  have p: "(case e of (i, params) \<Rightarrow> if uc_trim_space u i = '''' then Some e1 else if params = None then Some (g i) else None) = None
      \<longleftrightarrow> (case e of (i, p) \<Rightarrow> uc_trim_space u i \<noteq> '''' \<and> p \<noteq> (None :: strategy_params option))" for e and e1 :: go_error and g
    by (cases e) simp
  have m: "(case sn_incumbent_margin s of Some m \<Rightarrow> if m < 0 then Some (g m) else None | None \<Rightarrow> None) = None
      \<longleftrightarrow> (\<forall>m. sn_incumbent_margin s = Some m \<longrightarrow> \<not> m < 0)" for g :: "f64 \<Rightarrow> go_error"
    by (cases "sn_incumbent_margin s") auto
  show ?thesis
    unfolding selection_validate_def or_else_None first_err_None w p m selection_ok_def by auto
qed

definition domain_ok :: "unicode \<Rightarrow> domain_policy \<Rightarrow> bool" where
  "domain_ok u dp \<longleftrightarrow>
     (\<forall>p. dy_planner dp = Some p \<longrightarrow> spec_ok p) \<and>
     (\<forall>s. dy_strategy dp = Some s \<longrightarrow> selection_ok u s) \<and>
     \<not> (\<exists>s p. dy_strategy dp = Some s \<and> dy_planner dp = Some p \<and> sn_comparator s = ''verify'' \<and> pn_multi_mode p = ''verify'')"

lemma domain_validate_None: "domain_validate u f (i, dp) = None \<longleftrightarrow> domain_ok u dp"
  by (cases "dy_planner dp"; cases "dy_strategy dp")
    (auto simp: domain_validate_def domain_ok_def spec_validate_None selection_validate_None)

text \<open>
  A policy is accepted exactly when every planner override names a known backend or a multi
  composition of at least two known backends whose verifier can verify, every strategy override has
  non-blank keys, weights and a margin that are not non-positive and negative, no null parameters
  and a known comparator, and no domain verifies twice; whatever the order in which the maps are
  visited.
\<close>

theorem policy_validation_exact:
  "policy_validate u show_v p = None \<longleftrightarrow> list_all (\<lambda>(i, dp). domain_ok u dp) p"
  by (auto simp: policy_validate_def first_err_None domain_validate_None list_all_iff)

text \<open>The check on the weights lets NaN through: it compares with \<open>w <= 0\<close>.\<close>

lemma nan_weight_accepted:
  assumes "uc_trim_space u ''value'' \<noteq> ''''"
  shows "selection_validate u f (zero_selection\<lparr>sn_weights := [(''value'', NaN)]\<rparr>) = None"
  using assms by (simp add: selection_validate_None selection_ok_def zero_selection_def)

end
