(* ===== verification/Wire.thy ===== *)
theory Wire
  imports Engine Selector Sources Pack_Builtin Policy
begin

text \<open>
  The composition layer, \<open>internal/wire\<close>: the resolvers the engine consults per domain
  (\<open>evaluator.go\<close>, \<open>gate.go\<close>, \<open>source.go\<close>) and the planner router (\<open>planner.go\<close>,
  \<open>builders.go\<close>). The objects the router is made of are a datatype of planner nodes, as the code
  wires them; \<open>plan_with\<close> gives a node its meaning as a planner.
\<close>

section \<open>Resolvers\<close>

definition effective_delta :: "descriptor \<Rightarrow> policy \<Rightarrow> f64" where
  "effective_delta d pol =
     (case policy_for pol (de_id d) of
        Some dp \<Rightarrow> (case dy_confidence_delta dp of Some x \<Rightarrow> x | None \<Rightarrow> ec_confidence_delta (de_eval d))
      | None \<Rightarrow> ec_confidence_delta (de_eval d))"

definition effective_ignore_kinds :: "descriptor \<Rightarrow> policy \<Rightarrow> string list" where
  "effective_ignore_kinds d pol =
     (case policy_for pol (de_id d) of
        Some dp \<Rightarrow> (case dy_ignore_signal_kinds dp of Some ks \<Rightarrow> ks | None \<Rightarrow> ec_ignore_signal_kinds (de_eval d))
      | None \<Rightarrow> ec_ignore_signal_kinds (de_eval d))"

definition effective_source_kinds :: "descriptor \<Rightarrow> policy \<Rightarrow> string list" where
  "effective_source_kinds d pol =
     (case policy_for pol (de_id d) of
        Some dp \<Rightarrow> (case dy_source_kinds dp of Some ks \<Rightarrow> ks | None \<Rightarrow> de_source_kinds d)
      | None \<Rightarrow> de_source_kinds d)"

text \<open>A resolver: the collaborator of each domain of the registry, and the default one.\<close>

definition by_domain :: "registry \<Rightarrow> (descriptor \<Rightarrow> 'a) \<Rightarrow> string \<Rightarrow> 'a option" where
  "by_domain reg f = foldl (\<lambda>m i. m(i \<mapsto> f (fst (registry_get reg i)))) Map.empty (registry_ids reg)"

definition resolve :: "(string \<Rightarrow> 'a option) \<Rightarrow> 'a \<Rightarrow> string \<Rightarrow> 'a" where
  "resolve m def key = (case m key of Some x \<Rightarrow> if key \<noteq> '''' then x else def | None \<Rightarrow> def)"

definition new_evaluator_resolver :: "unicode \<Rightarrow> registry \<Rightarrow> policy \<Rightarrow> string \<Rightarrow> evaluator" where
  "new_evaluator_resolver u reg pol =
     resolve (by_domain reg (\<lambda>d. is_material u (effective_delta d pol)))
       (is_material u (effective_delta (fst (registry_get reg DefaultDomain)) pol))"

definition fold_kind :: "unicode \<Rightarrow> string \<Rightarrow> string" where
  "fold_kind u k = uc_to_lower u (uc_trim_space u k)"

definition kind_gate :: "unicode \<Rightarrow> string list \<Rightarrow> replan_gate" where
  "kind_gate u kinds g signal_kind payload moves =
     (if fold_kind u signal_kind \<in> set (map (fold_kind u) kinds)
      then (False, ''signal kind '' @ [CHR 34] @ signal_kind @ [CHR 34] @ '' is not material for this domain'')
      else (True, ''''))"

definition new_gate_resolver :: "unicode \<Rightarrow> registry \<Rightarrow> policy \<Rightarrow> string \<Rightarrow> replan_gate option" where
  "new_gate_resolver u reg pol key =
     Some (resolve (by_domain reg (\<lambda>d. kind_gate u (effective_ignore_kinds d pol)))
       (kind_gate u (effective_ignore_kinds (fst (registry_get reg DefaultDomain)) pol)) key)"

text \<open>A source key that is not wired, or wired to nil, is skipped.\<close>

definition sources_of :: "(string \<Rightarrow> data_source option) \<Rightarrow> string list \<Rightarrow> data_source list" where
  "sources_of wired keys = List.map_filter wired keys"

definition new_source_resolver ::
  "registry \<Rightarrow> policy \<Rightarrow> (string \<Rightarrow> data_source option) \<Rightarrow> (nat \<Rightarrow> time) \<Rightarrow> string \<Rightarrow> enricher option" where
  "new_source_resolver reg pol wired clk key =
     Some (resolve
       (\<lambda>i. case by_domain reg (\<lambda>d. sources_of wired (effective_source_kinds d pol)) i of
              Some srcs \<Rightarrow> if 0 < length srcs then Some (enrich_with srcs clk) else None
            | None \<Rightarrow> None)
       (\<lambda>g kind payload. (g, [])) key)"

section \<open>Planner nodes\<close>

text \<open>A base model client may also be able to verify plans (the type assertion to \<open>PlanVerifier\<close>).\<close>

record base_planner =
  ba_planner :: named_planner
  ba_verifier :: "plan_verifier option"

datatype cache_kind = TextCache | FinanceCache

datatype node =
    NBase base_planner
  | NCaching cache_kind node
  | NGuided guided_config node
  | NFinance finance_planner
  | NSelector selector_planner "(string \<times> node \<times> string list) list"

text \<open>
  What the planners of a node share: Unicode tables, encoders, the JSON decoder's error, the
  finance clock, and what a caching planner makes of its base.
\<close>

record plan_env =
  pe_unicode :: unicode
  pe_encoders :: encoders
  pe_json_error :: go_error
  pe_finance_now :: time
  pe_caching :: "cache_kind \<Rightarrow> named_planner \<Rightarrow> named_planner"

fun plan_with :: "plan_env \<Rightarrow> node \<Rightarrow> named_planner" where
  "plan_with env (NBase b) = ba_planner b"
| "plan_with env (NCaching k n) = pe_caching env k (plan_with env n)"
| "plan_with env (NGuided cfg n) =
     \<lparr>np_name = np_name (plan_with env n), np_generate = guided_generate (np_generate (plan_with env n)) cfg\<rparr>"
| "plan_with env (NFinance p) =
     \<lparr>np_name = finance_name p,
      np_generate = finance_generate (pe_unicode env) (pe_encoders env) (pe_json_error env) p (pe_finance_now env)\<rparr>"
| "plan_with env (NSelector sel children) =
     \<lparr>np_name = ''multi:selector'',
      np_generate = selector_generate (pe_unicode env)
        (sel\<lparr>sl_children := map (\<lambda>(i, n, regimes). \<lparr>ch_id = i, ch_planner = Some (plan_with env n), ch_regimes = regimes\<rparr>) children\<rparr>)\<rparr>"

record planner_deps =
  pd_base :: base_planner
  pd_base_for :: "(string \<Rightarrow> base_planner option) option"
  pd_market_data :: "provider option"   \<comment> \<open>\<open>DataSources["marketdata"].(marketdata.Provider)\<close>\<close>
  pd_cache :: bool
  pd_finance_cache :: bool
  pd_finance_inner :: "named_planner option"

section \<open>Finance builders\<close>

definition effective_scoring :: "descriptor \<Rightarrow> policy \<Rightarrow> scoring_config" where
  "effective_scoring d pol =
     (case Option.bind (policy_for pol (de_id d)) dy_scoring of
        Some sc \<Rightarrow> sc
      | None \<Rightarrow> (case de_scoring d of
            ScoringAny (Some sc) \<Rightarrow> sc
          | _ \<Rightarrow> \<lparr>sg_weights = \<lparr>sw_ev = 0, sw_risk = 0, sw_liquidity = 0, sw_horizon = 0\<rparr>,
                 sg_risk = \<lparr>rb_max_portfolio_risk_pct = 0, rb_max_position_pct = 0, rb_kelly_fraction = 0,
                   rb_account_equity = 0, rb_max_aggregate_risk_pct = 0\<rparr>, sg_reward_risk_ratio = 0\<rparr>))"

definition no_weights :: score_weights where
  "no_weights = \<lparr>sw_ev = 0, sw_risk = 0, sw_liquidity = 0, sw_horizon = 0\<rparr>"

definition no_prior :: prior_weights where
  "no_prior = \<lparr>pw_valuation = 0, pw_quality = 0, pw_momentum = 0\<rparr>"

definition cached_finance :: "planner_deps \<Rightarrow> finance_planner \<Rightarrow> node" where
  "cached_finance deps p = (if pd_finance_cache deps then NCaching FinanceCache (NFinance p) else NFinance p)"

definition build_finance_planner :: "descriptor \<Rightarrow> policy \<Rightarrow> planner_deps \<Rightarrow> node option" where
  "build_finance_planner d pol deps =
     (case pd_market_data deps of
        None \<Rightarrow> None
      | Some provider \<Rightarrow>
          Some (cached_finance deps (new_finance_planner
            \<lparr>fp_provider = provider, fp_scoring = effective_scoring d pol, fp_inner = pd_finance_inner deps,
             fp_pack_id = de_id d, fp_pack_version = de_version d, fp_prompt_template = de_prompt_template d,
             fp_calibration = Option.bind (policy_for pol (de_id d)) dy_calibration, fp_strategy_id = '''',
             fp_prior_weights = no_prior, fp_conf_weights = no_weights\<rparr>)))"

definition strategy_params_of :: "strategy_descriptor \<Rightarrow> domain_policy option \<Rightarrow> strategy_params" where
  "strategy_params_of s dp =
     (let params = (case sd_scoring s of
            ParamsAny (Some p) \<Rightarrow> p
          | _ \<Rightarrow> \<lparr>sp_name = sd_id s, sp_prior = no_prior, sp_weights = no_weights, sp_reward_risk_ratio = 0,
                 sp_risk_scale = zero_risk_scale\<rparr>)
      in case Option.bind dp dy_strategy of
           Some sel \<Rightarrow> (case map_of (sn_params sel) (sd_id s) of
               Some (Some p) \<Rightarrow> strategy_merge params p
             | _ \<Rightarrow> params)
         | None \<Rightarrow> params)"

definition build_finance_child ::
  "descriptor \<Rightarrow> policy \<Rightarrow> planner_deps \<Rightarrow> provider \<Rightarrow> strategy_descriptor \<Rightarrow> named_planner option \<Rightarrow> node" where
  "build_finance_child d pol deps provider s inner =
     (let dp = policy_for pol (de_id d);
          params = strategy_params_of s dp;
          base = normalize_config (effective_scoring d pol)
      in cached_finance deps (new_finance_planner
           \<lparr>fp_provider = provider, fp_scoring = strategy_apply params base, fp_inner = inner,
            fp_pack_id = de_id d, fp_pack_version = de_version d, fp_prompt_template = de_prompt_template d,
            fp_calibration = Option.bind dp dy_calibration, fp_strategy_id = sd_id s,
            fp_prior_weights = sp_prior params, fp_conf_weights = sg_weights base\<rparr>))"

definition finance_regime_fn :: "unicode \<Rightarrow> provider \<Rightarrow> time \<Rightarrow> goal \<Rightarrow> go_error + string" where
  "finance_regime_fn u provider as_of g =
     Inr (combine_regimes
       (List.map_filter (\<lambda>a.
          if \<not> uc_equal_fold u (as_kind a) ''ticker'' then None
          else (case pv_bars provider (uc_to_upper u (uc_trim_space u (as_name a))) (add_date (-1) 0 0 as_of) as_of of
                  Inl _ \<Rightarrow> None
                | Inr bars \<Rightarrow> Some (classify_regime bars))) (cx_assets (g_context g))))"

section \<open>Strategy selection\<close>

definition selection_enabled :: "descriptor \<Rightarrow> policy \<Rightarrow> bool" where
  "selection_enabled d pol =
     (case Option.bind (Option.bind (policy_for pol (de_id d)) dy_strategy) sn_enabled of
        Some b \<Rightarrow> b
      | None \<Rightarrow> de_selection_default_on d)"

definition active_strategies :: "descriptor \<Rightarrow> policy \<Rightarrow> strategy_descriptor list" where
  "active_strategies d pol =
     (let disabled = (case Option.bind (policy_for pol (de_id d)) dy_strategy of Some s \<Rightarrow> sn_disable s | None \<Rightarrow> [])
      in filter (\<lambda>s. strategy_descriptor.sd_id s \<notin> set disabled) (de_strategies d))"

definition raw_base :: "planner_deps \<Rightarrow> string \<Rightarrow> base_planner" where
  "raw_base deps i =
     (case pd_base_for deps of
        Some f \<Rightarrow> (case f i of Some b \<Rightarrow> b | None \<Rightarrow> pd_base deps)
      | None \<Rightarrow> pd_base deps)"

text \<open>
  The wrappers are shared per base planner; a wrapper has no state of its own, so sharing it is
  not visible.
\<close>

definition cache_wrap :: "planner_deps \<Rightarrow> base_planner \<Rightarrow> node" where
  "cache_wrap deps b = (if pd_cache deps then NCaching TextCache (NBase b) else NBase b)"

definition text_child :: "planner_deps \<Rightarrow> descriptor \<Rightarrow> strategy_descriptor \<Rightarrow> node" where
  "text_child deps d s =
     NGuided \<lparr>gc_pack_id = de_id d, gc_pack_version = de_version d,
         gc_prompt_version = de_prompt_version d @ ''+'' @ sd_id s,
         gc_prompt_template = de_prompt_template d @ [CHR 10, CHR 10] @ sd_prompt_template s\<rparr>
       (cache_wrap deps (raw_base deps (de_id d)))"

definition finance_labels :: "string list" where
  "finance_labels = [RegimeTrend, RegimeRange, RegimeHighVol]"

text \<open>The first strategy with an undeclared regime label, with the label.\<close>

definition bad_regime :: "string list \<Rightarrow> strategy_descriptor list \<Rightarrow> (string \<times> string) option" where
  "bad_regime labels ss =
     List.find (\<lambda>(i, r). r \<notin> set labels) (concat (map (\<lambda>s. map (\<lambda>r. (strategy_descriptor.sd_id s, r)) (sd_regimes s)) ss))"

fun template_check :: "unicode \<Rightarrow> (string \<times> string) list \<Rightarrow> strategy_descriptor list \<Rightarrow> go_error option" where
  "template_check u seen [] = None"
| "template_check u seen (s # ss) =
     (if uc_trim_space u (sd_prompt_template s) = ''''
        then Some (EText (''text strategy '' @ uc_quote u (sd_id s) @ '' declares no prompt template''))
      else case map_of seen (sd_prompt_template s) of
        Some prev \<Rightarrow> Some (EText (''text strategies '' @ uc_quote u prev @ '' and '' @ uc_quote u (sd_id s) @ '' share one prompt template''))
      | None \<Rightarrow> template_check u ((sd_prompt_template s, sd_id s) # seen) ss)"

definition show_labels :: "string list \<Rightarrow> string" where
  "show_labels ls = ''['' @ join_strs '' '' ls @ '']''"

definition selector_config ::
  "unicode \<Rightarrow> plan_env \<Rightarrow> descriptor \<Rightarrow> policy \<Rightarrow> planner_deps \<Rightarrow> (goal \<Rightarrow> go_error + string) option \<Rightarrow>
   named_planner option \<Rightarrow> strategy_child list \<Rightarrow> selector_planner" where
  "selector_config u env d pol deps regime narrator children =
     (let sel = Option.bind (policy_for pol (de_id d)) dy_strategy in
      \<lparr>sl_children = children,
       sl_weights = (case sel of Some s \<Rightarrow> map_of (sn_weights s) | None \<Rightarrow> (\<lambda>_. None)),
       sl_regime = regime, sl_step = effective_delta d pol,
       sl_margin = (case Option.bind sel sn_incumbent_margin of Some m \<Rightarrow> m | None \<Rightarrow> 0),
       sl_inner = narrator, sl_prompt = de_prompt_template d,
       sl_reviewer = (case sel of
           Some s \<Rightarrow> if sn_comparator s = ''verify'' then Some (verify_reviewer (ba_verifier (raw_base deps (de_id d)))) else None
         | None \<Rightarrow> None)\<rparr>)"

text \<open>
  A domain whose kind is \<open>finance\<close> has a kit, available when market data is wired; the empty kind
  has none and its strategies are prompt variants. \<open>None\<close> declines.
\<close>

definition build_strategy_selector ::
  "plan_env \<Rightarrow> descriptor \<Rightarrow> policy \<Rightarrow> planner_deps \<Rightarrow> go_error + node option" where
  "build_strategy_selector env d pol deps =
     (let u = pe_unicode env; ss = active_strategies d pol in
      if \<not> selection_enabled d pol \<or> length ss = 0 then Inr None
      else case validate_strategies u d of
        Some err \<Rightarrow> Inl err
      | None \<Rightarrow>
          let kit = (de_planner_kind d = ''finance'') in
          if de_planner_kind d \<noteq> '''' \<and> \<not> kit
            then Inl (EText (''domain kind '' @ uc_quote u (de_planner_kind d) @ '' declares strategies but registers no strategy kit''))
          else if kit \<and> pd_market_data deps = None then Inr None
          else
            let labels = (if kit then finance_labels else []);
                regime = (if kit then Some (finance_regime_fn u (the (pd_market_data deps)) (pe_finance_now env)) else None)
            in case bad_regime labels ss of
              Some (i, r) \<Rightarrow> Inl (EText (''strategy '' @ uc_quote u i @ '' declares unknown regime '' @ uc_quote u r @
                  '' (valid: '' @ show_labels labels @ '')''))
            | None \<Rightarrow>
                (case (if kit then None else template_check u [] ss) of
                   Some err \<Rightarrow> Inl err
                 | None \<Rightarrow>
                     let build = (\<lambda>s inner. if kit then build_finance_child d pol deps (the (pd_market_data deps)) s inner
                                            else text_child deps d s);
                         narrator = (if kit then pd_finance_inner deps else None)
                     in if length ss = 1 then Inr (Some (build (ss ! 0) narrator))
                        else
                          let children = map (\<lambda>s. (sd_id s, build s None, sd_regimes s)) ss;
                              cfg = selector_config u env d pol deps regime narrator
                                (map (\<lambda>(i, n, regimes). \<lparr>ch_id = i, ch_planner = Some (plan_with env n), ch_regimes = regimes\<rparr>) children)
                          in (case new_selector_planner u cfg of
                                Inl err \<Rightarrow> Inl err
                              | Inr sel \<Rightarrow> Inr (Some (NSelector sel children)))))"

section \<open>The router\<close>

definition build_route :: "plan_env \<Rightarrow> descriptor \<Rightarrow> policy \<Rightarrow> planner_deps \<Rightarrow> string \<Rightarrow> go_error + node" where
  "build_route env d pol deps i =
     (case build_strategy_selector env d pol deps of
        Inl err \<Rightarrow> Inl (EWrap (''wire: domain '' @ uc_quote (pe_unicode env) i) err)
      | Inr (Some p) \<Rightarrow> Inr p
      | Inr None \<Rightarrow>
          (case (if de_planner_kind d = ''finance'' then build_finance_planner d pol deps else None) of
             Some p \<Rightarrow> Inr p
           | None \<Rightarrow>
               if i = DefaultDomain then Inr (cache_wrap deps (raw_base deps i))
               else Inr (NGuided \<lparr>gc_pack_id = de_id d, gc_pack_version = de_version d,
                           gc_prompt_version = de_prompt_version d, gc_prompt_template = de_prompt_template d\<rparr>
                         (cache_wrap deps (raw_base deps i)))))"

fun build_routes ::
  "plan_env \<Rightarrow> registry \<Rightarrow> policy \<Rightarrow> planner_deps \<Rightarrow> string list \<Rightarrow> go_error + (string \<times> node) list" where
  "build_routes env reg pol deps [] = Inr []"
| "build_routes env reg pol deps (i # ks) =
     ebind (build_route env (fst (registry_get reg i)) pol deps i)
       (\<lambda>n. ebind (build_routes env reg pol deps ks) (\<lambda>rs. Inr ((i, n) # rs)))"

definition build_planner_router ::
  "plan_env \<Rightarrow> registry \<Rightarrow> policy \<Rightarrow> planner_deps \<Rightarrow> go_error + node \<times> (string \<times> node) list" where
  "build_planner_router env reg pol deps =
     ebind (build_routes env reg pol deps (registry_ids reg))
       (\<lambda>routes. Inr (cache_wrap deps (raw_base deps DefaultDomain), routes))"

definition router_planner_of :: "plan_env \<Rightarrow> node \<times> (string \<times> node) list \<Rightarrow> planner" where
  "router_planner_of env r =
     planner_router (np_generate (plan_with env (fst r)))
       (\<lambda>k. map_option (\<lambda>n. np_generate (plan_with env n)) (map_of (snd r) k))"

section \<open>Resolvers read the registry\<close>

lemma map_upd_foldl:
  "foldl (\<lambda>m i. m(i \<mapsto> f i)) m ks k = (if k \<in> set ks then Some (f k) else m k)"
  by (induction ks arbitrary: m) auto

lemma by_domain_eq:
  "by_domain reg f k = (if k \<in> set (map fst (rg_packs reg)) then Some (f (fst (registry_get reg k))) else None)"
  by (simp add: by_domain_def map_upd_foldl registry_ids_def)

lemma registry_get_unknown: "k \<notin> set (map fst (rg_packs reg)) \<Longrightarrow> fst (registry_get reg k) = rg_fallback reg"
  by (auto simp: registry_get_def map_of_eq_None_iff[THEN iffD2])

lemma new_registry_packs:
  "fst ` set (rg_packs (new_registry extra)) = de_id ` (set builtin_packs \<union> set extra)"
  using update_all_keys[of "[]" "builtin_packs @ extra"] by (simp add: new_registry_def new_registry_from_def Let_def)

lemma new_registry_default: "fst (registry_get (new_registry extra) DefaultDomain) = rg_fallback (new_registry extra)"
  by (simp add: registry_get_def new_registry_def new_registry_from_def Let_def split: option.splits)

lemma resolve_registry:
  "resolve (by_domain (new_registry extra) f) (f (fst (registry_get (new_registry extra) DefaultDomain))) key =
     f (fst (registry_get (new_registry extra) key))"
proof (cases "key = '''' \<or> key \<notin> set (map fst (rg_packs (new_registry extra)))")
  case True
  hence "fst (registry_get (new_registry extra) key) = rg_fallback (new_registry extra)"
    using registry_get_unknown[of key "new_registry extra"] by (auto simp: registry_get_def)
  thus ?thesis using True by (auto simp: resolve_def by_domain_eq new_registry_default split: option.splits if_splits)
qed (auto simp: resolve_def by_domain_eq)

text \<open>
  The wired engine gates and judges every goal by the pack its domain resolves to, the
  generic one for an empty or unknown domain, with a policy override replacing the pack's value:
  a signal whose kind, up to case and surrounding space, the domain ignores leaves the plan alone
  without asking the planner; any other signal is planned, and the candidate is judged by the
  materiality threshold of the domain.
\<close>

theorem wired_resolvers_follow_pack:
  "let d = fst (registry_get (new_registry extra) (g_domain g));
       e' = e\<lparr>en_resolver := Some (new_evaluator_resolver u (new_registry extra) pol),
              en_gate_resolver := Some (new_gate_resolver u (new_registry extra) pol)\<rparr>
   in (if fold_kind u kind \<in> fold_kind u ` set (effective_ignore_kinds d pol)
       then \<exists>reason. replan e' g cur msg kind payload =
              Inr \<lparr>rr_material = False, rr_reason = reason, rr_candidate = zero_version\<rparr>
       else replan e' g cur msg kind payload = replan_body e' g cur msg kind payload) \<and>
     evaluator_for e' g = is_material u (effective_delta d pol)"
proof -
  let ?d = "fst (registry_get (new_registry extra) (g_domain g))"
  let ?e = "e\<lparr>en_resolver := Some (new_evaluator_resolver u (new_registry extra) pol),
              en_gate_resolver := Some (new_gate_resolver u (new_registry extra) pol)\<rparr>"
  have gate: "gate_for ?e g = Some (kind_gate u (effective_ignore_kinds ?d pol))"
    using resolve_registry[of extra "\<lambda>d. kind_gate u (effective_ignore_kinds d pol)" "g_domain g"]
    by (simp add: gate_for_def new_gate_resolver_def)
  have ev: "evaluator_for ?e g = is_material u (effective_delta ?d pol)"
    using resolve_registry[of extra "\<lambda>d. is_material u (effective_delta d pol)" "g_domain g"]
    by (simp add: evaluator_for_def new_evaluator_resolver_def)
  show ?thesis using gate ev by (simp add: Let_def replan_def kind_gate_def)
qed

section \<open>Well-formed routes\<close>

text \<open>
  The text cache sits directly on a model client, below the guidance; the finance cache directly
  on a finance planner; a selector is under no cache.
\<close>

fun text_ok :: "node \<Rightarrow> bool" where
  "text_ok (NBase b) = True"
| "text_ok (NCaching k n) = (k = TextCache \<and> (case n of NBase b \<Rightarrow> True | _ \<Rightarrow> False))"
| "text_ok _ = False"

fun finance_ok :: "node \<Rightarrow> bool" where
  "finance_ok (NFinance p) = True"
| "finance_ok (NCaching k n) = (k = FinanceCache \<and> (case n of NFinance p \<Rightarrow> True | _ \<Rightarrow> False))"
| "finance_ok _ = False"

fun guided_ok :: "node \<Rightarrow> bool" where
  "guided_ok (NGuided cfg n) = text_ok n"
| "guided_ok _ = False"

text \<open>What makes a child's cache key its own: the planner's name, or the prompt override.\<close>

fun child_key :: "node \<Rightarrow> string" where
  "child_key (NGuided cfg n) = gc_prompt_template cfg"
| "child_key (NFinance p) = finance_name p"
| "child_key (NCaching k n) = child_key n"
| "child_key _ = ''''"

fun route_ok :: "node \<Rightarrow> bool" where
  "route_ok (NSelector sel cs) =
     (2 \<le> length cs \<and> distinct (map fst cs) \<and>
      (list_all (\<lambda>(i, n, regimes). finance_ok n) cs \<or> list_all (\<lambda>(i, n, regimes). guided_ok n) cs) \<and>
      distinct (map (\<lambda>(i, n, regimes). child_key n) cs))"
| "route_ok n = (finance_ok n \<or> guided_ok n)"

lemma text_ok_wrap [simp]: "text_ok (cache_wrap deps b)"
  by (simp add: cache_wrap_def)

lemma finance_ok_cached [simp]: "finance_ok (cached_finance deps p)"
  by (simp add: cached_finance_def)

lemma child_key_cached [simp]: "child_key (cached_finance deps p) = finance_name p"
  by (simp add: cached_finance_def)

lemma finance_ok_child [simp]: "finance_ok (build_finance_child d pol deps pv s inner)"
  by (simp add: build_finance_child_def Let_def)

lemma finance_key_child [simp]: "child_key (build_finance_child d pol deps pv s inner) =
     (if strategy_descriptor.sd_id s = '''' then ''finance'' else ''finance:'' @ strategy_descriptor.sd_id s)"
  by (simp add: build_finance_child_def Let_def finance_name_def new_finance_planner_def)

lemma text_child_simps [simp]:
  "guided_ok (text_child deps d s)"
  "child_key (text_child deps d s) = de_prompt_template d @ [CHR 10, CHR 10] @ sd_prompt_template s"
  by (simp_all add: text_child_def)

lemma route_ok_single: "finance_ok n \<or> guided_ok n \<Longrightarrow> route_ok n"
  by (cases n) auto

lemma template_check_None:
  "template_check u seen ss = None \<longleftrightarrow>
     (\<forall>s \<in> set ss. uc_trim_space u (sd_prompt_template s) \<noteq> '''' \<and> sd_prompt_template s \<notin> fst ` set seen) \<and>
     distinct (map sd_prompt_template ss)"
proof (induction ss arbitrary: seen)
  case (Cons s ss)
  have img: "sd_prompt_template s \<in> sd_prompt_template ` set ss \<longleftrightarrow> (\<exists>x \<in> set ss. sd_prompt_template x = sd_prompt_template s)"
    by (auto simp: image_iff) metis
  show ?case
  proof (cases "sd_prompt_template s \<in> fst ` set seen")
    case True
    then obtain v where "map_of seen (sd_prompt_template s) = Some v"
      by (metis map_of_eq_None_iff not_None_eq)
    thus ?thesis using True by simp
  next
    case False
    hence "map_of seen (sd_prompt_template s) = None" by (simp add: map_of_eq_None_iff)
    thus ?thesis using False img Cons.IH[of "(sd_prompt_template s, sd_id s) # seen"] by auto
  qed
qed simp

lemma check_children_None:
  "check_children u seen cs = None \<longleftrightarrow>
     (\<forall>c \<in> set cs. ch_id c \<noteq> '''' \<and> ch_planner c \<noteq> None \<and> ch_id c \<notin> set seen) \<and> distinct (map ch_id cs)"
proof (induction cs arbitrary: seen)
  case (Cons c cs)
  have "ch_id c \<in> ch_id ` set cs \<longleftrightarrow> (\<exists>x \<in> set cs. ch_id x = ch_id c)" by (auto simp: image_iff) metis
  thus ?case using Cons.IH[of "ch_id c # seen"] by auto
qed simp

lemma new_selector_ok:
  "(\<exists>p. new_selector_planner u cfg = Inr p) \<longleftrightarrow>
     2 \<le> length (sl_children cfg) \<and> (\<forall>c \<in> set (sl_children cfg). ch_id c \<noteq> '''' \<and> ch_planner c \<noteq> None) \<and>
     distinct (map ch_id (sl_children cfg))"
  using check_children_None[of u "[]" "sl_children cfg"]
  by (cases "check_children u [] (sl_children cfg)") (auto simp: new_selector_planner_def Let_def)

lemma strategies_ids:
  "strategies_loop u seen b ss = Inr b' \<Longrightarrow>
     (\<forall>s \<in> set ss. uc_trim_space u (strategy_descriptor.sd_id s) \<noteq> '''' \<and> strategy_descriptor.sd_id s \<notin> set seen) \<and>
     distinct (map strategy_descriptor.sd_id ss)"
  by (induction u seen b ss rule: strategies_loop.induct) (auto split: if_splits)

lemma validated_ids:
  "validate_strategies u d = None \<Longrightarrow> de_strategies d \<noteq> [] \<Longrightarrow> distinct (map strategy_descriptor.sd_id (de_strategies d))"
  by (auto simp: validate_strategies_def dest!: strategies_ids split: if_splits sum.splits)

lemma active_ids:
  "distinct (map strategy_descriptor.sd_id (de_strategies d)) \<Longrightarrow>
   distinct (map strategy_descriptor.sd_id (active_strategies d pol))"
  by (simp add: active_strategies_def Let_def distinct_map_filter)

lemma finance_names_distinct:
  assumes "distinct (map strategy_descriptor.sd_id ss)"
  shows "distinct (map (\<lambda>s. if strategy_descriptor.sd_id s = '''' then ''finance'' else ''finance:'' @ strategy_descriptor.sd_id s) ss)"
proof -
  have "inj (\<lambda>i. if i = '''' then ''finance'' else ''finance:'' @ i)" by (auto simp: inj_def)
  from assms distinct_map[THEN iffD2, OF conjI, OF assms inj_on_subset[OF this subset_UNIV]] show ?thesis
    by (simp add: comp_def)
qed

lemma selector_route_ok:
  assumes "build_strategy_selector env d pol deps = Inr (Some n)"
  shows "route_ok n"
proof -
  let ?u = "pe_unicode env" and ?ss = "active_strategies d pol" and ?kit = "de_planner_kind d = ''finance''"
  let ?build = "\<lambda>s inner. if ?kit then build_finance_child d pol deps (the (pd_market_data deps)) s inner else text_child deps d s"
  have ne: "?ss \<noteq> []" "validate_strategies ?u d = None"
    using assms by (auto simp: build_strategy_selector_def Let_def split: if_splits option.splits)
  have tmpl: "\<not> ?kit \<Longrightarrow> template_check ?u [] ?ss = None"
    using assms by (auto simp: build_strategy_selector_def Let_def split: if_splits option.splits)
  have ids: "distinct (map strategy_descriptor.sd_id ?ss)"
  proof (rule active_ids, rule validated_ids[OF ne(2)])
    show "de_strategies d \<noteq> []" using ne(1) by (auto simp: active_strategies_def)
  qed
  have one: "finance_ok (?build s inner) \<or> guided_ok (?build s inner)" for s inner by simp
  show ?thesis
  proof (cases "length ?ss = 1")
    case True
    hence "\<exists>inner. n = ?build (?ss ! 0) inner"
      using assms by (auto simp: build_strategy_selector_def Let_def split: if_splits option.splits)
    thus ?thesis using one route_ok_single by blast
  next
    case False
    then obtain sel where n: "n = NSelector sel (map (\<lambda>s. (strategy_descriptor.sd_id s, ?build s None, sd_regimes s)) ?ss)"
      using assms by (auto simp: build_strategy_selector_def Let_def split: if_splits option.splits sum.splits)
    have len: "2 \<le> length ?ss" using False ne(1) by (cases ?ss) (auto simp: Suc_le_eq)
    have keys: "distinct (map (\<lambda>s. child_key (?build s None)) ?ss)"
    proof (cases ?kit)
      case True
      thus ?thesis using finance_names_distinct[OF ids] by simp
    next
      case False
      have "distinct (map sd_prompt_template ?ss)" using tmpl[OF False] by (simp add: template_check_None)
      hence "distinct (map (\<lambda>t. de_prompt_template d @ [CHR 10, CHR 10] @ t) (map sd_prompt_template ?ss))"
        by (subst distinct_map) (auto simp: inj_on_def)
      thus ?thesis using False by (simp add: comp_def)
    qed
    show ?thesis unfolding n using len ids keys by (auto simp: comp_def case_prod_beta list_all_iff)
  qed
qed

lemma build_route_ok:
  "build_route env d pol deps i = Inr n \<Longrightarrow> route_ok n \<or> (i = DefaultDomain \<and> text_ok n)"
  by (auto simp: build_route_def build_finance_planner_def route_ok_single selector_route_ok
      split: sum.splits option.splits if_splits)

lemma build_routes_ok:
  "build_routes env reg pol deps ks = Inr rs \<Longrightarrow>
   map fst rs = ks \<and> (\<forall>(i, n) \<in> set rs. build_route env (fst (registry_get reg i)) pol deps i = Inr n)"
  by (induction ks arbitrary: rs) (auto dest!: ebind_InrD)

text \<open>
  C28: every router that can be built has one route per registered domain, in which the caches sit
  where they must: the text cache directly on a model client and below the domain's guidance, so
  the prompt override is in the key, the expiring cache directly on a finance planner, and no
  cache around a competition. The children of a competition are at least two, differently named,
  and told apart by their cache keys: different planner names or different prompts.
\<close>

theorem routes_well_formed:
  assumes "build_planner_router env reg pol deps = Inr (def, routes)"
  shows "text_ok def \<and> map fst routes = registry_ids reg \<and>
    (\<forall>(i, n) \<in> set routes. route_ok n \<or> (i = DefaultDomain \<and> text_ok n))"
proof -
  obtain rs where "build_routes env reg pol deps (registry_ids reg) = Inr rs"
    "def = cache_wrap deps (raw_base deps DefaultDomain)" "routes = rs"
    using assms by (auto simp: build_planner_router_def dest!: ebind_InrD)
  thus ?thesis using build_routes_ok[of env reg pol deps "registry_ids reg" rs] build_route_ok by fastforce
qed

section \<open>Unset thresholds\<close>

text \<open>
  A policy margin of 0 is valid but the constructor reads it as unset: the hysteresis falls back
  to the penalty step and cannot be switched off. A threshold of 0 has two defaults: the
  evaluator uses 0.10, the selector's penalty step is 0.05, so a haircut of one step is not
  material.
\<close>

lemma zero_margin_is_unset:
  "new_selector_planner u cfg = Inr p \<Longrightarrow> sl_margin cfg = 0 \<Longrightarrow> sl_margin p = sl_step p"
  by (auto simp: new_selector_planner_def Let_def split: if_splits option.splits)

lemma unset_delta_defaults_differ:
  "new_selector_planner u cfg = Inr p \<Longrightarrow> sl_step cfg = 0 \<Longrightarrow>
   sl_step p = lit (5/100) \<and> confidence_delta 0 = lit (10/100)"
  by (auto simp: new_selector_planner_def Let_def defaultPenaltyStep_def confidence_delta_def DefaultConfidenceDelta_def
      split: if_splits option.splits)

section \<open>The built-in packs always wire\<close>

text \<open>\<open>TrimSpace\<close> removes white space only: a string with an ASCII letter does not become empty.\<close>

definition keeps_letters :: "unicode \<Rightarrow> bool" where
  "keeps_letters u \<longleftrightarrow> (\<forall>s. (\<exists>c \<in> set s. ascii_letter c) \<longrightarrow> uc_trim_space u s \<noteq> '''')"

lemma keeps_lettersD: "keeps_letters u \<Longrightarrow> c \<in> set s \<Longrightarrow> ascii_letter c \<Longrightarrow> uc_trim_space u s \<noteq> ''''"
  by (auto simp: keeps_letters_def)

lemma keeps_first_line:
  "keeps_letters u \<Longrightarrow> c \<in> set (first_line t) \<Longrightarrow> ascii_letter c \<Longrightarrow> uc_trim_space u t \<noteq> ''''"
  unfolding first_line_def by (blast dest: set_takeWhileD keeps_lettersD)

definition wireable :: "unicode \<Rightarrow> descriptor \<Rightarrow> bool" where
  "wireable u d \<longleftrightarrow>
     validate_strategies u d = None \<and> de_planner_kind d \<in> {'''', ''finance''} \<and>
     (\<forall>s \<in> set (de_strategies d). strategy_descriptor.sd_id s \<noteq> '''') \<and>
     (if de_planner_kind d = ''finance'' then \<forall>s \<in> set (de_strategies d). set (sd_regimes s) \<subseteq> set finance_labels
      else (\<forall>s \<in> set (de_strategies d). sd_regimes s = [] \<and> uc_trim_space u (sd_prompt_template s) \<noteq> '''') \<and>
           distinct (map sd_prompt_template (de_strategies d)))"

lemma wireable_maps:
  "wireable u d \<longleftrightarrow>
     validate_strategies u d = None \<and> de_planner_kind d \<in> {'''', ''finance''} \<and>
     (\<forall>i \<in> set (map strategy_descriptor.sd_id (de_strategies d)). i \<noteq> '''') \<and>
     (if de_planner_kind d = ''finance'' then \<forall>r \<in> set (map sd_regimes (de_strategies d)). set r \<subseteq> set finance_labels
      else (\<forall>r \<in> set (map sd_regimes (de_strategies d)). r = []) \<and>
           (\<forall>t \<in> set (map sd_prompt_template (de_strategies d)). uc_trim_space u t \<noteq> '''') \<and>
           distinct (map sd_prompt_template (de_strategies d)))"
  by (simp only: wireable_def set_map ball_simps ball_conj_distrib conj_assoc)

lemma active_subset: "set (active_strategies d pol) \<subseteq> set (de_strategies d)"
  by (auto simp: active_strategies_def)

lemma bad_regime_None: "bad_regime labels ss = None \<longleftrightarrow> (\<forall>s \<in> set ss. set (sd_regimes s) \<subseteq> set labels)"
  by (auto simp: bad_regime_def find_None_iff)

lemma wireable_selector:
  assumes "wireable (pe_unicode env) d"
  shows "\<exists>r. build_strategy_selector env d pol deps = Inr r"
proof -
  let ?u = "pe_unicode env" and ?ss = "active_strategies d pol" and ?kit = "de_planner_kind d = ''finance''"
  note w = assms[unfolded wireable_def] and sub = active_subset[of d pol]
  have regimes: "bad_regime (if ?kit then finance_labels else []) ?ss = None"
    using w sub by (auto simp: bad_regime_None split: if_splits)
  have tmpl: "(if ?kit then None else template_check ?u [] ?ss) = None"
  proof (cases ?kit)
    case False
    hence "distinct (map sd_prompt_template ?ss)" using w by (auto simp: active_strategies_def Let_def distinct_map_filter)
    thus ?thesis using False w sub by (auto simp: template_check_None)
  qed simp
  have kind: "\<not> (de_planner_kind d \<noteq> '''' \<and> \<not> ?kit)" using w by auto
  show ?thesis
  proof (cases "\<not> selection_enabled d pol \<or> length ?ss = 0 \<or> length ?ss = 1 \<or> (?kit \<and> pd_market_data deps = None)")
    case True
    thus ?thesis using w kind regimes tmpl unfolding build_strategy_selector_def Let_def by (auto split: if_splits)
  next
    case False
    hence len: "2 \<le> length ?ss" by (cases ?ss) (auto simp: Suc_le_eq)
    hence ne: "de_strategies d \<noteq> []" using sub by (cases ?ss) auto
    have ids: "distinct (map strategy_descriptor.sd_id ?ss)" using w ne by (intro active_ids validated_ids) auto
    have sel: "\<exists>p. new_selector_planner ?u (selector_config ?u env d pol deps regime narrator
        (map (\<lambda>(i, n, regimes). \<lparr>ch_id = i, ch_planner = Some (plan_with env n), ch_regimes = regimes\<rparr>)
           (map (\<lambda>s. (strategy_descriptor.sd_id s, b s, sd_regimes s)) ?ss))) = Inr p" for regime narrator b
      unfolding new_selector_ok selector_config_def Let_def using len ids w sub by (auto simp: comp_def)
    show ?thesis
      using False w kind regimes tmpl sel unfolding build_strategy_selector_def Let_def
      by (auto split: sum.splits) (metis sum.distinct(1))+
  qed
qed

lemma builtin_wireable:
  assumes "keeps_letters u" "d \<in> set builtin_packs"
  shows "wireable u d"
proof -
  have ids: "uc_trim_space u i \<noteq> ''''" if "hd i \<in> set ''vmdeormn''" "i \<noteq> ''''" for i
    by (rule keeps_lettersD[OF assms(1), where c = "hd i"]) (use that in \<open>auto simp: ascii_letter_def\<close>)
  have tmpl: "uc_trim_space u t \<noteq> ''''" if "hd (first_line t) = CHR ''S''" "first_line t \<noteq> ''''" for t
    using keeps_first_line[OF assms(1) hd_in_set[OF that(2)]] that(1) by (simp add: ascii_letter_def)
  have val: "validate_strategies u d = None" if v1: "map strategy_descriptor.sd_id (de_strategies d) = [a, b, c]"
      and v2: "distinct [a, b, c]" "set [hd a, hd b, hd c] \<subseteq> set ''vmdeormn''" "'''' \<notin> set [a, b, c]"
      "sd_regimes (de_strategies d ! 2) = []" "de_id d \<notin> {'''', DefaultDomain}" for d a b c
  proof -
    obtain x y z where e: "de_strategies d = [x, y, z]" "strategy_descriptor.sd_id x = a"
      "strategy_descriptor.sd_id y = b" "strategy_descriptor.sd_id z = c" using v1 by (auto simp: map_eq_Cons_conv)
    have n: "a \<noteq> ''''" "b \<noteq> ''''" "c \<noteq> ''''" using v2(3) by auto
    have t: "uc_trim_space u a \<noteq> ''''" "uc_trim_space u b \<noteq> ''''" "uc_trim_space u c \<noteq> ''''"
      using ids[of a] ids[of b] ids[of c] n v2(2) by (simp_all del: set_simps list.set add: subset_iff, simp_all)
    have "a \<noteq> b" "a \<noteq> c" "b \<noteq> c" "sd_regimes z = []" using v2(1,4) e by auto
    with e t v2(5) show ?thesis by (simp add: validate_strategies_def)
  qed
  have third: "sd_regimes (de_strategies investing_pack ! 2) = []" "sd_regimes (de_strategies growth_pack ! 2) = []"
      "sd_regimes (de_strategies career_pack ! 2) = []"
      "de_id investing_pack = ''investing''" "de_id growth_pack = ''growth''" "de_id career_pack = ''career''"
    by (simp_all add: investing_pack_def growth_pack_def career_pack_def zero_descriptor_def
          investing_strategies_def default_strategy_set_def strategy_regimes_def text_strategy_def)
  have val_investing: "validate_strategies u investing_pack = None"
    by (rule val[OF builtin_strategies(2)]; simp add: third DefaultDomain_def)
  have val_growth: "validate_strategies u growth_pack = None"
    by (rule val[OF builtin_strategies(4)]; simp add: third DefaultDomain_def)
  have val_career: "validate_strategies u career_pack = None"
    by (rule val[OF builtin_strategies(5)]; simp add: third DefaultDomain_def)
  have val_generic: "validate_strategies u generic_pack = None" by (simp add: validate_strategies_def builtin_strategies(1))
  have "first_line t \<noteq> '''' \<and> hd (first_line t) = CHR ''S''"
    if "t \<in> set [growthExpandTemplate, growthRetainTemplate, growthExperimentTemplate,
        careerMasteryTemplate, careerOptionalityTemplate, careerNetworkTemplate]" for t
    using that lens_first_lines by auto
  hence blank: "uc_trim_space u t \<noteq> ''''"
    if "t \<in> set [growthExpandTemplate, growthRetainTemplate, growthExperimentTemplate,
        careerMasteryTemplate, careerOptionalityTemplate, careerNetworkTemplate]" for t
    using that tmpl by blast
  have ungated: "map sd_regimes (de_strategies growth_pack) = [[], [], []]" "map sd_regimes (de_strategies career_pack) = [[], [], []]"
    by (simp_all add: growth_pack_def career_pack_def zero_descriptor_def text_strategy_def)
  have "wireable u generic_pack"
    using val_generic by (simp add: wireable_def builtin_strategies(1) builtin_kinds)
  moreover have "wireable u investing_pack"
    unfolding wireable_maps builtin_strategies(2,3) using val_investing
    by (simp add: builtin_kinds finance_labels_def RegimeTrend_def RegimeRange_def RegimeHighVol_def)
  moreover have "wireable u growth_pack"
    unfolding wireable_maps builtin_strategies(4,6) ungated using val_growth lens_templates_distinct(1) blank
    by (simp add: builtin_kinds)
  moreover have "wireable u career_pack"
    unfolding wireable_maps builtin_strategies(5,7) ungated using val_career lens_templates_distinct(2) blank
    by (simp add: builtin_kinds)
  ultimately show ?thesis using assms(2) by (auto simp: builtin_packs_in)
qed

lemma builtin_registry:
  "registry_ids (new_registry []) = [''career'', ''generic'', ''growth'', ''investing'']"
  "i \<in> set (registry_ids (new_registry [])) \<Longrightarrow> fst (registry_get (new_registry []) i) \<in> set builtin_packs"
proof -
  have p: "rg_packs (new_registry []) =
      [(''generic'', generic_pack), (''investing'', investing_pack), (''growth'', growth_pack), (''career'', career_pack)]"
    using builtin_ids by (simp add: new_registry_def new_registry_from_def builtin_packs_def Let_def)
  show ids: "registry_ids (new_registry []) = [''career'', ''generic'', ''growth'', ''investing'']"
    by (simp add: registry_ids_def p)
  show "fst (registry_get (new_registry []) i) \<in> set builtin_packs" if "i \<in> set (registry_ids (new_registry []))"
    using that unfolding ids by (auto simp: registry_get_def p builtin_packs_def)
qed

lemma build_routes_total:
  "(\<And>i. i \<in> set ks \<Longrightarrow> wireable (pe_unicode env) (fst (registry_get reg i))) \<Longrightarrow>
   \<exists>rs. build_routes env reg pol deps ks = Inr rs"
proof (induction ks)
  case (Cons i ks)
  obtain r where r: "build_strategy_selector env (fst (registry_get reg i)) pol deps = Inr r"
    using wireable_selector Cons.prems by fastforce
  have "\<exists>n. build_route env (fst (registry_get reg i)) pol deps i = Inr n"
    unfolding build_route_def r by (auto split: option.splits)
  thus ?case using Cons by auto
qed simp

text \<open>
  With the built-in packs the wiring succeeds under every policy and whatever is wired: no
  override can make startup fail, and every built-in domain gets its route.
\<close>

theorem builtin_wiring_total:
  assumes "keeps_letters (pe_unicode env)"
  shows "\<exists>def routes. build_planner_router env (new_registry []) pol deps = Inr (def, routes) \<and>
    map fst routes = [''career'', ''generic'', ''growth'', ''investing'']"
proof -
  obtain rs where rs: "build_routes env (new_registry []) pol deps (registry_ids (new_registry [])) = Inr rs"
    using build_routes_total[of _ env "new_registry []"] builtin_wireable[OF assms] builtin_registry(2) by blast
  moreover have "map fst rs = registry_ids (new_registry [])" using build_routes_ok[OF rs] by simp
  ultimately show ?thesis by (simp add: build_planner_router_def builtin_registry(1))
qed

definition sample_env :: plan_env where
  "sample_env =
     \<lparr>pe_unicode = ascii_unicode, pe_encoders = sample_encoders, pe_json_error = EText ''json'', pe_finance_now = 0,
      pe_caching = (\<lambda>_ p. p)\<rparr>"

definition sample_deps :: planner_deps where
  "sample_deps =
     \<lparr>pd_base = \<lparr>ba_planner = \<lparr>np_name = ''mock'', np_generate = plan_of []\<rparr>, ba_verifier = None\<rparr>, pd_base_for = None,
      pd_market_data = None, pd_cache = True, pd_finance_cache = True, pd_finance_inner = None\<rparr>"

lemma ascii_keeps_letters: "keeps_letters ascii_unicode"
proof -
  have "trim_by ascii_space s \<noteq> ''''" if "c \<in> set s" "ascii_letter c" for c s
  proof -
    have c: "\<not> ascii_space c" using that(2) by (auto simp: ascii_letter_def ascii_space_def)
    have "c \<in> set (dropWhile ascii_space xs)" if "c \<in> set xs" for xs
      using that c by (induction xs) auto
    hence "c \<in> set (trim_by ascii_space s)" using \<open>c \<in> set s\<close> by (simp add: trim_by_def)
    thus ?thesis by auto
  qed
  thus ?thesis by (auto simp: keeps_letters_def ascii_unicode_def)
qed

theorem builtin_wiring_total_witness:
  "\<exists>def routes. build_planner_router sample_env (new_registry []) [] sample_deps = Inr (def, routes) \<and> length routes = 4"
proof -
  have "keeps_letters (pe_unicode sample_env)" by (simp add: sample_env_def ascii_keeps_letters)
  from builtin_wiring_total[OF this, where pol = "[]" and deps = sample_deps] obtain r
    where r: "build_planner_router sample_env (new_registry []) [] sample_deps = Inr r"
      "map fst (snd r) = [''career'', ''generic'', ''growth'', ''investing'']" by auto
  have "length (snd r) = 4" using arg_cong[OF r(2), of length] unfolding length_map by simp
  thus ?thesis using r(1) by (cases r) auto
qed

theorem routes_well_formed_witness:
  "\<exists>def routes. build_planner_router sample_env (new_registry []) [] sample_deps = Inr (def, routes) \<and> text_ok def"
proof -
  have "wireable (pe_unicode sample_env) (fst (registry_get (new_registry []) i))"
    if "i \<in> set (registry_ids (new_registry []))" for i
    using builtin_wireable[OF _ builtin_registry(2)[OF that]] ascii_keeps_letters by (simp add: sample_env_def)
  from build_routes_total[where env = sample_env and reg = "new_registry []" and pol = "[]" and deps = sample_deps, OF this]
  obtain rs where "build_routes sample_env (new_registry []) [] sample_deps (registry_ids (new_registry [])) = Inr rs" by blast
  then obtain def routes where r: "build_planner_router sample_env (new_registry []) [] sample_deps = Inr (def, routes)"
    by (auto simp: build_planner_router_def)
  with routes_well_formed[OF r] show ?thesis by auto
qed

end
