(* ===== verification/Float_Bounds.thy ===== *)
theory Float_Bounds
  imports Go_Float
begin

text \<open>
  Error bounds for chains of \<open>float64\<close> operations: \<open>near x a d\<close> says that the float is finite
  and within \<open>d\<close> of the rational \<open>a\<close>. Every operation whose result stays below 128 adds at
  most \<open>eps\<close> to the error, half a unit in the last place there. With an error below one half,
  rounding to an integer is exact, which is how two-decimal confidences are computed exactly.
\<close>

definition eps :: rat where "eps = 1 / 2 ^ 46"

definition near :: "f64 \<Rightarrow> rat \<Rightarrow> rat \<Rightarrow> bool" where
  "near x a d \<longleftrightarrow> (\<exists>q. x = Fin q \<and> \<bar>q - a\<bar> \<le> d)"

lemma rne_close: "\<bar>of_int (rne z) - z\<bar> \<le> 1 / 2"
proof -
  have "of_int \<lfloor>z\<rfloor> \<le> z" "z < of_int \<lfloor>z\<rfloor> + 1" by linarith+
  thus ?thesis by (cases "z - of_int \<lfloor>z\<rfloor> < 1 / 2"; cases "1 / 2 < z - of_int \<lfloor>z\<rfloor>")
      (auto simp: rne_def Let_def abs_le_iff)
qed

lemma rquant_close:
  assumes "\<bar>y\<bar> < 128"
  shows "\<bar>rquant y - y\<bar> \<le> eps / 2"
proof (cases "y = 0")
  case False
  let ?e = "ulp_exp y"
  have y: "0 < \<bar>y\<bar>" using False by simp
  have "(2::rat) powi (ilog2 \<bar>y\<bar>) < 2 powi 7" using ilog2_bounds[OF y] assms by simp
  hence "ilog2 \<bar>y\<bar> < 7" unfolding powi2_less_iff .
  hence e: "?e \<le> - 46" by (simp add: ulp_exp_def)
  have inv: "(2::rat) powi (- ?e) * 2 powi ?e = 1" by (simp add: power_int_add[symmetric])
  have "rquant y - y = (of_int (rne (y * 2 powi (- ?e))) - y * 2 powi (- ?e)) * 2 powi ?e"
    using False inv by (simp add: rquant_def left_diff_distrib mult.assoc)
  hence "\<bar>rquant y - y\<bar> = \<bar>of_int (rne (y * 2 powi (- ?e))) - y * 2 powi (- ?e)\<bar> * 2 powi ?e"
    by (simp add: abs_mult)
  also have "\<dots> \<le> 1 / 2 * 2 powi (- 46)"
    using rne_close powi2_le_iff[of ?e "- 46"] e by (intro mult_mono) auto
  also have "\<dots> = eps / 2" by (simp add: eps_def power_int_minus)
  finally show ?thesis .
qed (simp add: rquant_def eps_def)

lemma eps_pos: "0 < eps" and eps_small: "eps < 1 / 1000000"
  by (simp_all add: eps_def)

lemma near_rnd: "\<bar>y - a\<bar> \<le> d \<Longrightarrow> \<bar>a\<bar> + d < 128 \<Longrightarrow> near (rnd y) a (d + eps)"
proof -
  assume *: "\<bar>y - a\<bar> \<le> d" "\<bar>a\<bar> + d < 128"
  hence y: "\<bar>y\<bar> < 128" by linarith
  note c = rquant_close[OF y]
  hence "\<bar>rquant y\<bar> < 129" using y eps_small by linarith
  moreover have "(129::rat) < 2 ^ 1024" by (simp add: power_strict_increasing)
  ultimately have "rquant y < 2 ^ 1024" "- (2 ^ 1024) < rquant y" by linarith+
  hence "rnd y = Fin (rquant y)" by (simp add: rnd_def Let_def)
  moreover have "\<bar>rquant y - a\<bar> \<le> d + eps" using c * eps_pos by linarith
  ultimately show ?thesis by (simp add: near_def)
qed

lemma near_lit: "\<bar>a\<bar> < 128 \<Longrightarrow> near (lit a) a eps"
  using near_rnd[of a a 0] by (simp add: lit_def)

lemma near_mono: "near x a d \<Longrightarrow> d \<le> d' \<Longrightarrow> near x a d'"
  by (auto simp: near_def)

lemma near_plus: "near x a d \<Longrightarrow> near y b e \<Longrightarrow> \<bar>a + b\<bar> + d + e < 128 \<Longrightarrow> near (x + y) (a + b) (d + e + eps)"
proof -
  assume "near x a d" "near y b e" and s: "\<bar>a + b\<bar> + d + e < 128"
  then obtain p q where pq: "x = Fin p" "y = Fin q" "\<bar>p - a\<bar> \<le> d" "\<bar>q - b\<bar> \<le> e" by (auto simp: near_def)
  hence "\<bar>(p + q) - (a + b)\<bar> \<le> d + e" by linarith
  from near_rnd[OF this] s show ?thesis by (simp add: pq)
qed

lemma near_uminus: "near x a d \<Longrightarrow> near (- x) (- a) d"
  by (auto simp: near_def abs_minus_commute)

lemma near_minus: "near x a d \<Longrightarrow> near y b e \<Longrightarrow> \<bar>a - b\<bar> + d + e < 128 \<Longrightarrow> near (x - y) (a - b) (d + e + eps)"
  using near_plus[of x a d "- y" "- b" e] near_uminus by (simp add: minus_f64_def)

lemma near_times_100: "near x a d \<Longrightarrow> \<bar>a\<bar> * 100 + 100 * d < 128 \<Longrightarrow> near (x * Fin 100) (a * 100) (100 * d + eps)"
proof -
  assume "near x a d" and s: "\<bar>a\<bar> * 100 + 100 * d < 128"
  then obtain p where p: "x = Fin p" "\<bar>p - a\<bar> \<le> d" by (auto simp: near_def)
  hence "\<bar>p * 100 - a * 100\<bar> \<le> 100 * d" by (simp add: abs_if split: if_splits)
  from near_rnd[OF this] s show ?thesis by (simp add: p abs_mult)
qed

lemma rha_near: "\<bar>q - of_int n\<bar> < 1 / 2 \<Longrightarrow> rha q = n"
proof (cases "0 \<le> q")
  case True
  assume "\<bar>q - of_int n\<bar> < 1 / 2"
  hence "\<lfloor>q + 1 / 2\<rfloor> = n" by (intro floor_unique) linarith+
  thus ?thesis using True by (simp add: rha_def)
next
  case False
  assume "\<bar>q - of_int n\<bar> < 1 / 2"
  hence "of_int (- n) \<le> - q + 1 / 2" "- q + 1 / 2 < of_int (- n) + 1" unfolding of_int_minus by linarith+
  hence "\<lfloor>- q + 1 / 2\<rfloor> = - n" by (rule floor_unique)
  thus ?thesis using False by (simp add: rha_def)
qed

text \<open>Rounding to two decimals recovers a percentage exactly.\<close>

lemma round_hundredths:
  assumes "near x (of_int n / 100) d" "d \<le> 1 / 1000" "\<bar>n\<bar> \<le> 100"
  shows "math_round (x * lit 100) / lit 100 = lit (of_int n / 100)"
proof -
  have l: "lit 100 = Fin 100" using rnd_of_int_small[of 100] by (simp add: lit_def)
  have n: "\<bar>of_int n :: rat\<bar> \<le> 100" using assms(3) by linarith
  hence b: "\<bar>of_int n / 100 :: rat\<bar> * 100 + 100 * d < 128" using assms(2) by simp
  have "near (x * Fin 100) (of_int n) (100 * d + eps)" using near_times_100[OF assms(1) b] by simp
  then obtain q where q: "x * Fin 100 = Fin q" "\<bar>q - of_int n\<bar> \<le> 100 * d + eps" by (auto simp: near_def)
  hence "rha q = n" using assms(2) eps_small by (intro rha_near) linarith
  hence "math_round (x * Fin 100) / Fin 100 = rnd (of_int n / 100)" by (simp add: q(1))
  thus ?thesis unfolding l by (simp add: lit_def)
qed

lemma near_abs: "near x a d \<Longrightarrow> near \<bar>x\<bar> \<bar>a\<bar> d"
  by (auto simp: near_def)

lemma near_less: "near x a d \<Longrightarrow> near y b e \<Longrightarrow> a + d < b - e \<Longrightarrow> x < y"
  by (auto simp: near_def)

end
