(* ===== verification/Llm_Mock.thy ===== *)
theory Llm_Mock
  imports Engine Llm_Cache Float_Bounds "HOL-Library.Word"
begin

text \<open>
  The deterministic planner of \<open>internal/llm/mock.go\<close>: three moves built from the goal's first
  asset and constraint, whose confidences come from the first byte of a hash of the goal and the
  context, less a fixed penalty when there is a signal. The JSON encoder and SHA-256 are
  arguments. The confidences are computed exactly from the float error bounds, which settles
  when the planner's replans are material under the engine's default policy.
\<close>

section \<open>The planner\<close>

definition mockPromptVersion :: string where "mockPromptVersion = ''mock-v1''"
definition signalUncertaintyPenalty :: f64 where "signalUncertaintyPenalty = lit (15 / 100)"

record hashing =
  ha_encoders :: encoders
  ha_first_byte :: "string \<Rightarrow> 8 word"   \<comment> \<open>byte 0 of \<open>sha256.Sum256\<close>\<close>

definition mock_round2 :: "f64 \<Rightarrow> f64" where
  "mock_round2 f = math_round (f * lit 100) / lit 100"

fun first_asset_name :: "asset list \<Rightarrow> string \<Rightarrow> string" where
  "first_asset_name [] fallback = fallback"
| "first_asset_name (a # as) fallback = (if as_name a \<noteq> '''' then as_name a else first_asset_name as fallback)"

fun first_constraint_name :: "constr list \<Rightarrow> string \<Rightarrow> string" where
  "first_constraint_name [] fallback = fallback"
| "first_constraint_name (c # cs) fallback =
     (if co_name c \<noteq> '''' then co_name c else first_constraint_name cs fallback)"

text \<open>The seed leaves out the domain and the signal note.\<close>

definition base_seed :: "hashing \<Rightarrow> goal \<Rightarrow> 8 word" where
  "base_seed h g =
     ha_first_byte h (enc_snapshot (ha_encoders h)
       \<lparr>sn_domain = '''', sn_objective = g_objective g, sn_metric = g_metric g, sn_target = g_target g,
        sn_context = g_context g, sn_signal_note = ''''\<rparr>)"

definition mock_base :: "hashing \<Rightarrow> goal \<Rightarrow> string \<Rightarrow> f64" where
  "mock_base h g note =
     (let base = lit (70 / 100) + f64_of_int (uint (base_seed h g mod 16)) / lit 100
      in if note \<noteq> '''' then base - signalUncertaintyPenalty else base)"

definition mock_asset :: "goal \<Rightarrow> string" where
  "mock_asset g = first_asset_name (cx_assets (g_context g)) ''your strongest current asset''"

definition mock_constraint :: "goal \<Rightarrow> string" where
  "mock_constraint g = first_constraint_name (cx_constraints (g_context g)) ''your most binding constraint''"

definition mock_metric :: "goal \<Rightarrow> string" where
  "mock_metric g = (if g_metric g = '''' then ''the goal metric'' else g_metric g)"

definition double_down :: "goal \<Rightarrow> f64 \<Rightarrow> move" where
  "double_down g base =
     (let asset = mock_asset g; constraint = mock_constraint g; metric = mock_metric g in
      zero_move
        \<lparr>m_rank := 1, m_key := ''double-down:'' @ asset, m_title := ''Double down on '' @ asset,
         m_description := ''Concentrate effort and resources on '' @ asset
           @ '' to make measurable progress toward: '' @ g_objective g @ ''.'',
         m_confidence := mock_round2 base,
         m_expected_impact := LevelHigh, m_effort := LevelMedium, m_risk := LevelLow,
         m_rationale := ''This is the lowest-risk path to impact: it exploits an existing advantage ('' @ asset
           @ '') rather than building a new capability, so it can move '' @ metric @ '' quickly.'',
         m_experiment :=
           \<lparr>ex_title = ''Focused 7-day push leveraging '' @ asset, ex_duration_days = 7,
            ex_success_signals = [''Measurable upward movement in '' @ metric,
                                  ''Positive qualitative feedback from the first cohort''],
            ex_kill_criteria = [''No movement in '' @ metric @ '' after the full window'',
                                ''Effort required exceeds the available budget or time'']\<rparr>,
         m_fallback_moves := [''Reallocate effort to the second-strongest asset''],
         m_depends_on := [''validation-experiment'', ''neutralise:'' @ constraint],
         m_parallel_group := ''commit''\<rparr>)"

definition neutralise :: "goal \<Rightarrow> f64 \<Rightarrow> move" where
  "neutralise g base =
     (let constraint = mock_constraint g in
      zero_move
        \<lparr>m_rank := 2, m_key := ''neutralise:'' @ constraint, m_title := ''Neutralise '' @ constraint,
         m_description := ''Reduce or remove the limiting effect of '' @ constraint
           @ '' so that higher-impact moves become viable.'',
         m_confidence := mock_round2 (base - lit (12 / 100)),
         m_expected_impact := LevelMedium, m_effort := LevelMedium, m_risk := LevelMedium,
         m_rationale := ''Progress is currently gated by '' @ constraint
           @ ''. Relaxing it unlocks options that are otherwise blocked, at moderate cost and risk.'',
         m_experiment :=
           \<lparr>ex_title = ''Two-week effort to relax '' @ constraint, ex_duration_days = 14,
            ex_success_signals = [''The constraint no longer blocks the top-ranked move'',
                                  ''Lead time or cost associated with '' @ constraint @ '' drops measurably''],
            ex_kill_criteria = [''The constraint proves structural and cannot be relaxed in the window'',
                                ''Cost of relaxing it exceeds the value it unlocks'']\<rparr>,
         m_fallback_moves := [''Design the plan to work within '' @ constraint @ '' instead of removing it''],
         m_parallel_group := ''discover''\<rparr>)"

definition em_dash :: string where "em_dash = [CHR 0xE2, CHR 0x80, CHR 0x94]"

definition validate_cheaply :: "unicode \<Rightarrow> goal \<Rightarrow> f64 \<Rightarrow> move" where
  "validate_cheaply u g base =
     zero_move
       \<lparr>m_rank := 3, m_key := ''validation-experiment'', m_title := ''Run a low-cost validation experiment'',
        m_description := ''Test the riskiest assumption behind '' @ uc_quote u (g_objective g)
          @ '' with a small, time-boxed experiment before committing further.'',
        m_confidence := mock_round2 (base - lit (22 / 100)),
        m_expected_impact := LevelMedium, m_effort := LevelLow, m_risk := LevelLow,
        m_rationale := ''When the path is uncertain, buying information cheaply is higher expected value than committing to a single bet. This keeps optionality open.'',
        m_experiment :=
          \<lparr>ex_title = ''Five-day assumption test'', ex_duration_days = 5,
           ex_success_signals = [''The core assumption holds under a real, if small, test'',
                                 ''Clear signal on which direction to scale next''],
           ex_kill_criteria = [''The assumption fails the test'',
                               ''Results are inconclusive after the window '' @ em_dash @ '' pivot the question'']\<rparr>,
        m_fallback_moves := [''Escalate to a slightly larger experiment if the first is inconclusive''],
        m_parallel_group := ''discover''\<rparr>"

definition mock_moves :: "unicode \<Rightarrow> goal \<Rightarrow> f64 \<Rightarrow> move list" where
  "mock_moves u g base = [double_down g base, neutralise g base, validate_cheaply u g base]"

definition mock_reasoning :: "goal \<Rightarrow> string \<Rightarrow> string" where
  "mock_reasoning g note =
     ''Ranked by expected impact against risk and effort. The top path exploits an existing asset ('' @ mock_asset g
     @ '') for fast, low-risk movement; the second removes the binding constraint ('' @ mock_constraint g
     @ ''); the third buys information cheaply where the path is uncertain.''
     @ (if note \<noteq> '''' then '' Re-evaluated in response to a new signal ('' @ note @ '').'' else '''')"

definition mock_generate :: "unicode \<Rightarrow> hashing \<Rightarrow> planner" where
  "mock_generate u h req =
     (let g = rq_goal req; note = rq_signal_note req; e = ha_encoders h in
      if g_objective g = '''' then Inl (EText ''llm: goal objective is required'')
      else Inr
        \<lparr>rs_summary = ''Three ranked action paths toward '' @ uc_quote u (g_objective g)
           @ '', prioritising exploitation of '' @ mock_asset g @ '' while de-risking '' @ mock_constraint g @ ''.'',
         rs_ranked_moves = mock_moves u g (mock_base h g note),
         rs_provenance = zero_provenance
           \<lparr>pr_reasoning_summary := mock_reasoning g note,
            pr_input_snapshot_id := input_snapshot_id (enc_snapshot e) (enc_hexsha e) g note,
            pr_planner := ''mock'', pr_prompt_version := mockPromptVersion, pr_model := ''none''\<rparr>,
         rs_invocation = zero_invocation\<lparr>mi_model := ''none'', mi_prompt_version := mockPromptVersion\<rparr>\<rparr>)"

section \<open>The confidences\<close>

definition mock_percent :: "hashing \<Rightarrow> goal \<Rightarrow> string \<Rightarrow> int" where
  "mock_percent h g note = 70 + uint (base_seed h g mod 16) - (if note \<noteq> '''' then 15 else 0)"

lemma seed_range: "0 \<le> uint (base_seed h g mod 16)" "uint (base_seed h g mod 16) \<le> 15"
proof -
  have "uint (base_seed h g mod 16) = uint (base_seed h g) mod 16" by (simp add: uint_mod)
  thus "uint (base_seed h g mod 16) \<le> 15" by simp
qed simp

lemma percent_range: "55 \<le> mock_percent h g note" "mock_percent h g note \<le> 85"
  using seed_range[of h g] by (auto simp: mock_percent_def)

lemma near_hundredth: "\<bar>n\<bar> \<le> 100 \<Longrightarrow> near (f64_of_int n / lit 100) (of_int n / 100) eps"
proof -
  assume n: "\<bar>n\<bar> \<le> 100"
  have l: "lit 100 = Fin 100" using rnd_of_int_small[of 100] by (simp add: lit_def)
  have "\<bar>of_int n / 100 :: rat\<bar> < 128" using n by simp
  hence "near (rnd (of_int n / 100)) (of_int n / 100) eps" using near_lit by (simp add: lit_def)
  moreover have "f64_of_int n = Fin (of_int n)" using n by (simp add: f64_of_int_def rnd_of_int_small)
  ultimately show ?thesis by (simp add: l)
qed

lemma base_near: "near (mock_base h g note) (of_int (mock_percent h g note) / 100) (5 * eps)"
proof -
  let ?k = "uint (base_seed h g mod 16)"
  have k1: "\<bar>?k\<bar> \<le> 100" using seed_range[of h g] by linarith
  have "rat_of_int 0 \<le> of_int ?k" "rat_of_int ?k \<le> of_int 15"
    by (rule iffD2[OF of_int_le_iff seed_range(1)], rule iffD2[OF of_int_le_iff seed_range(2)])
  note k = this[unfolded of_int_0 of_int_numeral]
  have a: "near (lit (70 / 100)) (70 / 100) eps" by (rule near_lit) simp
  have s: "near (lit (70 / 100) + f64_of_int ?k / lit 100) (70 / 100 + of_int ?k / 100) (eps + eps + eps)"
    using near_plus[OF a near_hundredth[OF k1]] k eps_small eps_pos by (simp add: abs_le_iff)
  have p: "near signalUncertaintyPenalty (15 / 100) eps"
    unfolding signalUncertaintyPenalty_def by (rule near_lit) simp
  have "near (lit (70 / 100) + f64_of_int ?k / lit 100 - signalUncertaintyPenalty)
      (70 / 100 + of_int ?k / 100 - 15 / 100) (eps + eps + eps + eps + eps)"
    by (rule near_minus[OF s p]) (use k eps_small eps_pos in \<open>simp add: abs_le_iff\<close>)
  moreover have "70 / 100 + of_int ?k / 100 - 15 / 100 = (of_int (70 + ?k - 15) / 100 :: rat)"
    unfolding of_int_add of_int_diff of_int_numeral by (simp only: add_divide_distrib diff_divide_distrib)
  moreover have "eps + eps + eps + eps + eps = 5 * eps" by simp
  ultimately have penalised: "near (lit (70 / 100) + f64_of_int ?k / lit 100 - signalUncertaintyPenalty)
      (of_int (70 + ?k - 15) / 100) (5 * eps)" by (simp only:)
  have "70 / 100 + of_int ?k / 100 = (of_int (70 + ?k - 0) / 100 :: rat)"
    unfolding of_int_add of_int_diff of_int_numeral of_int_0 by (simp only: add_divide_distrib diff_zero)
  hence "near (lit (70 / 100) + f64_of_int ?k / lit 100) (of_int (70 + ?k - 0) / 100) (5 * eps)"
    using near_mono[OF s, of "5 * eps"] eps_pos by (simp only:)
  note both = this penalised
  show ?thesis using both unfolding mock_base_def mock_percent_def Let_def by (cases "note = ''''") (simp_all only: if_True if_False not_False_eq_True not_True_eq_False refl)
qed

lemma round_base:
  "mock_round2 (mock_base h g note) = lit (of_int (mock_percent h g note) / 100)"
  unfolding mock_round2_def
  by (rule round_hundredths[OF base_near]) (use percent_range[of h g "note"] eps_small in auto)

lemma round_below_base:
  assumes "0 \<le> k" "k \<le> 55"
  shows "mock_round2 (mock_base h g note - lit (of_int k / 100)) = lit (of_int (mock_percent h g note - k) / 100)"
proof -
  let ?p = "mock_percent h g note"
  have p: "(55 :: rat) \<le> of_int ?p" "of_int ?p \<le> (85 :: rat)" "(0 :: rat) \<le> of_int k" "of_int k \<le> (55 :: rat)"
    using percent_range[of h g "note"] assms by simp_all
  have l: "near (lit (of_int k / 100)) (of_int k / 100) eps" by (rule near_lit) (use p in simp)
  have "near (mock_base h g note - lit (of_int k / 100)) (of_int ?p / 100 - of_int k / 100) (5 * eps + eps + eps)"
    by (rule near_minus[OF base_near l]) (use p eps_small eps_pos in \<open>simp add: abs_le_iff\<close>)
  hence "near (mock_base h g note - lit (of_int k / 100)) (of_int (?p - k) / 100) (5 * eps + eps + eps)"
    by (simp add: diff_divide_distrib)
  thus ?thesis unfolding mock_round2_def
    by (rule round_hundredths) (use percent_range[of h g "note"] assms eps_small in auto)
qed

lemma mock_confidences:
  "map m_confidence (mock_moves u g (mock_base h g note)) =
     (let p = mock_percent h g note
      in [lit (of_int p / 100), lit (of_int (p - 12) / 100), lit (of_int (p - 22) / 100)])"
  using round_below_base[of 12 h g "note"] round_below_base[of 22 h g "note"]
  by (simp add: mock_moves_def double_down_def neutralise_def validate_cheaply_def Let_def round_base)

section \<open>When a signal changes the plan\<close>

lemma mock_keys:
  "map m_key (mock_moves u g base) =
     [''double-down:'' @ mock_asset g, ''neutralise:'' @ mock_constraint g, ''validation-experiment'']"
  by (simp add: mock_moves_def double_down_def neutralise_def validate_cheaply_def Let_def)

lemma mock_deps:
  "map m_depends_on (mock_moves u g base) =
     [[''validation-experiment'', ''neutralise:'' @ mock_constraint g], [], []]"
  by (simp add: mock_moves_def double_down_def neutralise_def validate_cheaply_def Let_def zero_move_def)

lemma mock_groups: "map m_parallel_group (mock_moves u g base) = [''commit'', ''discover'', ''discover'']"
  by (simp add: mock_moves_def double_down_def neutralise_def validate_cheaply_def Let_def)

lemma mock_length: "length (mock_moves u g base) = 3"
  by (simp add: mock_moves_def)

lemma mock_graph_ok: "graph_ok (mock_moves u g base)"
proof -
  let ?ms = "mock_moves u g base"
  have dep: "m_depends_on (?ms ! i) =
      (if i = 0 then [''validation-experiment'', ''neutralise:'' @ mock_constraint g] else [])" if "i < 3" for i
    using arg_cong[OF mock_deps[of u g base], of "\<lambda>xs. xs ! i"] that
    by (auto simp: mock_length less_Suc_eq numeral_3_eq_3)
  have keys: "m_key ` set ?ms =
      {''double-down:'' @ mock_asset g, ''neutralise:'' @ mock_constraint g, ''validation-experiment''}"
    using arg_cong[OF mock_keys[of u g base], of set] by simp
  have k0: "m_key (?ms ! 0) = ''double-down:'' @ mock_asset g" by (simp add: mock_moves_def double_down_def Let_def)
  have "refs_ok ?ms i (m_depends_on (?ms ! i))" if "i < length ?ms" for i
    using that by (simp add: dep mock_length refs_ok_def keys k0)
  moreover have "dep_edges ?ms \<subseteq> less_than"
  proof (rule subsetI)
    fix e assume e: "e \<in> dep_edges ?ms"
    then obtain i j where ij: "e = (i, j)" "i < 3" "j < length ?ms" "m_key (?ms ! j) \<in> set (m_depends_on (?ms ! i))"
      by (auto simp: dep_edges_def key_indices_def mock_length split: if_splits)
    hence "i = 0" by (simp add: dep split: if_splits)
    moreover have "j \<noteq> 0" using ij \<open>i = 0\<close> by (cases "j = 0") (auto simp: dep k0)
    ultimately show "e \<in> less_than" using ij by simp
  qed
  hence "acyclic (dep_edges ?ms)" using acyclic_subset wf_acyclic[OF wf_less_than] by blast
  ultimately show ?thesis by (simp add: graph_ok_def)
qed

lemma mock_move_keys: "map (eng_move_key u) (mock_moves u g base) = map m_key (mock_moves u g base)"
  by (simp add: eng_move_key_def mock_moves_def double_down_def neutralise_def validate_cheaply_def Let_def)

lemma mock_unique_keys: "unique_keys u (mock_moves u g base)"
  unfolding unique_keys_def mock_move_keys mock_keys by simp

lemma mock_same_steps: "list_all2 (same_step u) (mock_moves u g b) (mock_moves u g b')"
  by (simp add: same_step_def eng_move_key_def mock_moves_def double_down_def neutralise_def validate_cheaply_def
      Let_def zero_move_def)

lemma mock_top: "m_confidence (hd (mock_moves u g (mock_base h g note))) = lit (of_int (mock_percent h g note) / 100)"
  by (simp add: mock_moves_def double_down_def Let_def round_base)

lemma mock_shift:
  assumes "n1 \<noteq> ''''"
  shows "DefaultConfidenceDelta \<le> \<bar>lit (of_int (mock_percent h g '''') / 100) - lit (of_int (mock_percent h g n1) / 100)\<bar>"
proof -
  let ?p = "mock_percent h g ''''" and ?q = "mock_percent h g n1"
  have d: "rat_of_int ?p = of_int ?q + 15" using assms by (simp add: mock_percent_def)
  have r: "(55 :: rat) \<le> of_int ?q" "of_int ?q \<le> (85 :: rat)"
    using percent_range[of h g n1] by simp_all
  have p: "near (lit (of_int ?p / 100)) (of_int ?p / 100) eps" by (rule near_lit) (use d r in simp)
  have q: "near (lit (of_int ?q / 100)) (of_int ?q / 100) eps" by (rule near_lit) (use r in simp)
  have "near (lit (of_int ?p / 100) - lit (of_int ?q / 100)) (of_int ?p / 100 - of_int ?q / 100) (eps + eps + eps)"
    by (rule near_minus[OF p q]) (use d eps_small in \<open>simp add: add_divide_distrib\<close>)
  from near_abs[OF this] have "near \<bar>lit (of_int ?p / 100) - lit (of_int ?q / 100)\<bar> (15 / 100) (eps + eps + eps)"
    using d by (simp add: add_divide_distrib)
  moreover have "near DefaultConfidenceDelta (1 / 10) eps" unfolding DefaultConfidenceDelta_def by (rule near_lit) simp
  ultimately show ?thesis using near_less eps_small flt_imp_fle by fastforce
qed

lemma mock_answers:
  "g_objective (rq_goal req) \<noteq> '''' \<Longrightarrow>
   \<exists>res. mock_generate u h req = Inr res \<and>
     rs_ranked_moves res = mock_moves u (rq_goal req) (mock_base h (rq_goal req) (rq_signal_note req))"
  by (simp add: mock_generate_def Let_def)

lemma mock_replan:
  assumes "g_objective g \<noteq> ''''"
  shows "\<exists>r. replan (new_engine u (mock_generate u h) now) g cur note kind payload = Inr r \<and>
     v_version (rr_candidate r) = v_version cur + 1 \<and>
     v_ranked_moves (rr_candidate r) = mock_moves u g (mock_base h g note) \<and>
     rr_material r = fst (is_material u DefaultConfidenceDelta (v_ranked_moves cur) (mock_moves u g (mock_base h g note)))"
proof -
  let ?e = "new_engine u (mock_generate u h) now"
  have e: "gate_for ?e g = None" "enrich ?e g kind payload = (g, [])"
    by (simp_all add: new_engine_def gate_for_def enrich_def)
  obtain res where res: "mock_generate u h (replan_request g cur note kind payload) = Inr res"
    "rs_ranked_moves res = mock_moves u g (mock_base h g note)"
    using mock_answers[of "replan_request g cur note kind payload" u h] assms by (auto simp: replan_request_def)
  hence "\<exists>r. replan_body ?e g cur note kind payload = Inr r"
    using replan_body_planned[of ?e g kind payload cur "note" res] e by (simp add: new_engine_def)
  then obtain r where r: "replan_body ?e g cur note kind payload = Inr r" by blast
  have ev: "evaluator_for ?e g = is_material u DefaultConfidenceDelta"
    by (simp add: evaluator_for_def new_engine_def)
  show ?thesis
    using r replan_body_shape[OF r] e res sanitize_id[OF mock_graph_ok] ev
    by (auto simp: replan_def new_engine_def fst_def split: prod.splits)
qed

text \<open>
  The mock planner makes the replanning loop observable once: after an initial plan, the first
  signal lowers the top confidence by the fixed penalty and is material, so version 2 is proposed
  with a well-formed graph; but any further signal proposes the very same moves and is immaterial,
  although the comment on the penalty says that a signal reliably triggers a new plan version.
\<close>

theorem mock_replans_once:
  assumes "g_objective g \<noteq> ''''" "n1 \<noteq> ''''" "n2 \<noteq> ''''"
  shows "let e = new_engine u (mock_generate u h) now in
    \<exists>v1 r1 r2. generate_initial_plan e pid g = Inr v1 \<and>
    replan e g v1 n1 k1 p1 = Inr r1 \<and> rr_material r1 \<and>
    v_version (rr_candidate r1) = 2 \<and> graph_ok (v_ranked_moves (rr_candidate r1)) \<and>
    replan e g (rr_candidate r1) n2 k2 p2 = Inr r2 \<and> \<not> rr_material r2"
proof -
  define e where "e = new_engine u (mock_generate u h) now"
  let ?m = "\<lambda>n. mock_moves u g (mock_base h g n)"
  obtain res where res: "mock_generate u h (zero_request\<lparr>rq_goal := g, rq_signal_note := ''''\<rparr>) = Inr res"
    "rs_ranked_moves res = ?m ''''"
    using mock_answers[of "zero_request\<lparr>rq_goal := g, rq_signal_note := ''''\<rparr>" u h] assms by auto
  obtain v1 where v1: "generate_initial_plan e pid g = Inr v1" "v_ranked_moves v1 = ?m ''''" "v_version v1 = 1"
    using res sanitize_id[OF mock_graph_ok]
    by (simp add: generate_initial_plan_def evaluate_def e_def new_engine_def enrich_def build_version_def
        with_contribs_def)
  obtain r1 where r1: "replan e g v1 n1 k1 p1 = Inr r1" "v_version (rr_candidate r1) = v_version v1 + 1"
    "v_ranked_moves (rr_candidate r1) = ?m n1"
    "rr_material r1 = fst (is_material u DefaultConfidenceDelta (v_ranked_moves v1) (?m n1))"
    using mock_replan[OF assms(1)] unfolding e_def by blast
  obtain r2 where r2: "replan e g (rr_candidate r1) n2 k2 p2 = Inr r2"
    "rr_material r2 = fst (is_material u DefaultConfidenceDelta (?m n1) (?m n2))"
    using mock_replan[OF assms(1), of u h now "rr_candidate r1"] r1(3) unfolding e_def by metis
  note mat = is_material_unique[OF mock_unique_keys graph_ok_distinct[OF mock_graph_ok], of u DefaultConfidenceDelta]
  have cd: "confidence_delta DefaultConfidenceDelta = DefaultConfidenceDelta" by (simp add: confidence_delta_def)
  have "fst (is_material u DefaultConfidenceDelta (?m '''') (?m n1))"
    using mat[of "?m ''''" g "mock_base h g n1"] mock_shift[OF assms(2), of h g] by (simp add: mock_top cd)
  moreover have "?m n2 = ?m n1" using assms by (simp add: mock_base_def)
  moreover have "\<not> fst (is_material u DefaultConfidenceDelta (?m n1) (?m n1))"
    using not_material_refl[OF mock_unique_keys graph_ok_distinct[OF mock_graph_ok]] mock_length
    by (metis list.size(3) zero_neq_numeral)
  ultimately show ?thesis using v1 r1 r2 mock_graph_ok unfolding Let_def e_def[symmetric] by auto
qed

theorem mock_replans_once_witness:
  "\<exists>v1 r1. generate_initial_plan (new_engine ascii_unicode (mock_generate ascii_unicode
        \<lparr>ha_encoders = sample_encoders, ha_first_byte = (\<lambda>_. 200)\<rparr>) 7) ''plan_1'' (zero_goal\<lparr>g_objective := ''grow''\<rparr>) = Inr v1 \<and>
     replan (new_engine ascii_unicode (mock_generate ascii_unicode
        \<lparr>ha_encoders = sample_encoders, ha_first_byte = (\<lambda>_. 200)\<rparr>) 7) (zero_goal\<lparr>g_objective := ''grow''\<rparr>)
        v1 ''prices fell'' ''macro'' [] = Inr r1 \<and> rr_material r1"
  using mock_replans_once[where g = "zero_goal\<lparr>g_objective := ''grow''\<rparr>" and ?n1.0 = "''prices fell''"
      and ?n2.0 = "''x''"] unfolding Let_def by fastforce

end
