(* ===== verification/Backtest.thy ===== *)
theory Backtest
  imports Wire Llm_Mock Strategy Outcome_Fit Finance_Planner
begin

text \<open>
  \<open>internal/backtest\<close>: the harness that replays a scenario through an engine driven by a
  simulated clock, the quality metrics it computes, the scoring and strategy comparison runs, and
  the walk-forward evaluations. The mutable clock becomes an argument: the harness holds the
  engine as a function of the instant. Fixture directories are read by a parameter; rendering the
  tables as text is left out.
\<close>

section \<open>Scenarios and reports\<close>

record timeline_event =
  te_at :: time
  te_kind :: string
  te_payload :: payload
  te_should_kill :: bool

record scenario =
  sk_name :: string
  sk_start_at :: time
  sk_goal :: goal
  sk_events :: "timeline_event list"
  sk_fixture_dir :: string

record decision =
  dn_at :: time
  dn_kind :: string
  dn_material :: bool
  dn_reason :: string
  dn_top_move :: string
  dn_top_confidence :: f64
  dn_top_raw_confidence :: f64
  dn_should_kill :: bool
  dn_forward_return :: f64
  dn_label :: f64
  dn_selected_strategy :: string
  dn_regime :: string
  dn_candidates :: "strategy_candidate list"

record report =
  rp_scenario :: string
  rp_decisions :: "decision list"
  rp_versions_created :: int
  rp_kill_precision :: f64
  rp_kill_recall :: f64
  rp_brier_score :: f64
  rp_noise_robustness :: f64
  rp_hypothetical_pnl :: f64
  rp_strategy_share :: "string \<Rightarrow> int option"
  rp_strategy_flips :: int

section \<open>The harness\<close>

record harness =
  hs_engine :: "time \<Rightarrow> engine"
  hs_provider :: provider

definition backtest_deps :: "unicode \<Rightarrow> hashing \<Rightarrow> provider \<Rightarrow> planner_deps" where
  "backtest_deps u h p =
     \<lparr>pd_base = \<lparr>ba_planner = \<lparr>np_name = ''mock'', np_generate = mock_generate u h\<rparr>, ba_verifier = None\<rparr>,
      pd_base_for = None, pd_market_data = Some p, pd_cache = False, pd_finance_cache = False,
      pd_finance_inner = None\<rparr>"

text \<open>
  The engine at an instant: the router is built once and reads the clock, so it is the one built
  with the finance clock at that instant.
\<close>

definition engine_at :: "plan_env \<Rightarrow> hashing \<Rightarrow> registry \<Rightarrow> policy \<Rightarrow> provider \<Rightarrow> time \<Rightarrow> engine" where
  "engine_at env h reg pol p t =
     (let u = pe_unicode env; env_t = env\<lparr>pe_finance_now := t\<rparr>;
          planner = (case build_planner_router env_t reg pol (backtest_deps u h p) of
                       Inl err \<Rightarrow> (\<lambda>_. Inl err)
                     | Inr r \<Rightarrow> router_planner_of env_t r)
      in (new_engine u planner t)
           \<lparr>en_resolver := Some (new_evaluator_resolver u reg pol),
            en_gate_resolver := Some (new_gate_resolver u reg pol)\<rparr>)"

definition new_harness :: "plan_env \<Rightarrow> hashing \<Rightarrow> registry \<Rightarrow> policy \<Rightarrow> provider \<Rightarrow> go_error + harness" where
  "new_harness env h reg pol p =
     (case build_planner_router (env\<lparr>pe_finance_now := zero_time\<rparr>) reg pol (backtest_deps (pe_unicode env) h p) of
        Inl err \<Rightarrow> Inl err
      | Inr _ \<Rightarrow> Inr \<lparr>hs_engine = engine_at env h reg pol p, hs_provider = p\<rparr>)"

definition top_move :: "plan_version \<Rightarrow> move" where
  "top_move v = (case v_ranked_moves v of [] \<Rightarrow> zero_move | m # _ \<Rightarrow> m)"

definition ticker_from_title :: "string \<Rightarrow> string" where
  "ticker_from_title title =
     (if take 8 title = ''Thesis: '' then drop 8 title else '''')"

definition ticker_return :: "provider \<Rightarrow> string \<Rightarrow> time \<Rightarrow> time \<Rightarrow> f64 option" where
  "ticker_return p ticker from to =
     (if ticker = '''' then None
      else case pv_quote p ticker from of
        Inl _ \<Rightarrow> None
      | Inr sq \<Rightarrow>
          if feq (qt_price sq) 0 then None
          else (case pv_quote p ticker to of
                  Inl _ \<Rightarrow> None
                | Inr eq \<Rightarrow> Some ((qt_price eq - qt_price sq) / qt_price sq)))"

text \<open>The variables of the replay loop.\<close>

record replay =
  ry_current :: plan_version
  ry_decisions :: "decision list"
  ry_share :: "string \<Rightarrow> int option"
  ry_flips :: int
  ry_versions :: int
  ry_reacts :: int
  ry_correct :: int
  ry_kills :: int
  ry_noise :: int
  ry_noise_reacts :: int

definition event_note :: "timeline_event \<Rightarrow> string" where
  "event_note ev =
     (case map_of (te_payload ev) ''reason'' of
        Some (JStr reason) \<Rightarrow> if reason \<noteq> '''' then te_kind ev @ '': '' @ reason else te_kind ev
      | _ \<Rightarrow> te_kind ev)"

definition decide :: "timeline_event \<Rightarrow> replan_result \<Rightarrow> decision" where
  "decide ev res =
     (let top = top_move (rr_candidate res); prov = v_provenance (rr_candidate res) in
      \<lparr>dn_at = te_at ev, dn_kind = te_kind ev, dn_material = rr_material res, dn_reason = rr_reason res,
       dn_top_move = m_title top, dn_top_confidence = m_confidence top, dn_top_raw_confidence = m_raw_confidence top,
       dn_should_kill = te_should_kill ev, dn_forward_return = 0, dn_label = 0,
       dn_selected_strategy = pr_selected_strategy prov, dn_regime = pr_regime prov,
       dn_candidates = pr_strategy_candidates prov\<rparr>)"

definition count_share :: "string \<Rightarrow> replay \<Rightarrow> replay" where
  "count_share s r =
     (if s = '''' then r
      else
        let prev = (case rev (ry_decisions r) of _ # d # _ \<Rightarrow> dn_selected_strategy d | _ \<Rightarrow> '''')
        in r\<lparr>ry_share := (ry_share r)(s \<mapsto> (case ry_share r s of None \<Rightarrow> 1 | Some n \<Rightarrow> n + 1)),
             ry_flips := ry_flips r + (if prev \<noteq> '''' \<and> prev \<noteq> s then 1 else 0)\<rparr>)"

definition count_event :: "timeline_event \<Rightarrow> replan_result \<Rightarrow> replay \<Rightarrow> replay" where
  "count_event ev res r0 =
     (let r = (if te_should_kill ev then r0\<lparr>ry_kills := ry_kills r0 + 1\<rparr>
               else r0\<lparr>ry_noise := ry_noise r0 + 1,
                       ry_noise_reacts := ry_noise_reacts r0 + (if rr_material res then 1 else 0)\<rparr>)
      in if rr_material res
         then r\<lparr>ry_reacts := ry_reacts r + 1, ry_versions := ry_versions r + 1,
                ry_correct := ry_correct r + (if te_should_kill ev then 1 else 0),
                ry_current := rr_candidate res\<rparr>
         else r)"

fun replay_events :: "harness \<Rightarrow> goal \<Rightarrow> timeline_event list \<Rightarrow> replay \<Rightarrow> go_error + replay" where
  "replay_events h g [] r = Inr r"
| "replay_events h g (ev # evs) r =
     (case replan (hs_engine h (te_at ev)) g (ry_current r) (event_note ev) (te_kind ev) (te_payload ev) of
        Inl err \<Rightarrow> Inl err
      | Inr res \<Rightarrow>
          let d = decide ev res;
              r1 = count_share (dn_selected_strategy d) (r\<lparr>ry_decisions := ry_decisions r @ [d]\<rparr>)
          in replay_events h g evs (count_event ev res r1))"

definition start_replay :: "plan_version \<Rightarrow> replay" where
  "start_replay v =
     \<lparr>ry_current = v, ry_decisions = [], ry_share = (\<lambda>_. None), ry_flips = 0, ry_versions = 0, ry_reacts = 0,
      ry_correct = 0, ry_kills = 0, ry_noise = 0, ry_noise_reacts = 0\<rparr>"

definition label_of :: "f64 option \<Rightarrow> decision \<Rightarrow> time \<Rightarrow> f64" where
  "label_of fr d endt =
     (if \<not> dn_at d < endt then (if \<not> dn_should_kill d then 1 else 0)
      else case fr of
        Some r \<Rightarrow> if 0 < r then 1 else 0
      | None \<Rightarrow> if \<not> dn_should_kill d then 1 else 0)"

definition attribute :: "provider \<Rightarrow> time \<Rightarrow> decision \<Rightarrow> decision" where
  "attribute p endt d =
     (let fr = ticker_return p (ticker_from_title (dn_top_move d)) (dn_at d) endt
      in d\<lparr>dn_forward_return := (case fr of Some r \<Rightarrow> r | None \<Rightarrow> dn_forward_return d),
           dn_label := label_of fr d endt\<rparr>)"

definition squared_error :: "f64 \<Rightarrow> f64 \<Rightarrow> f64" where
  "squared_error confidence label = (let diff = confidence - label in diff * diff)"

definition mean :: "f64 list \<Rightarrow> f64" where
  "mean xs = foldl (+) 0 xs / f64_of_int (int (length xs))"

definition brier :: "decision list \<Rightarrow> f64" where
  "brier ds = (if ds = [] then 0 else mean (map (\<lambda>d. squared_error (dn_top_confidence d) (dn_label d)) ds))"

definition ratio :: "int \<Rightarrow> int \<Rightarrow> f64" where
  "ratio a b = f64_of_int a / f64_of_int b"

definition scenario_start :: "scenario \<Rightarrow> time" where
  "scenario_start sc =
     (if sk_start_at sc = zero_time \<and> 0 < length (sk_events sc) then te_at (sk_events sc ! 0) else sk_start_at sc)"

text \<open>Where the simulated clock stands after the replay.\<close>

definition scenario_end :: "scenario \<Rightarrow> time" where
  "scenario_end sc = (if sk_events sc = [] then scenario_start sc else te_at (last (sk_events sc)))"

definition report_of :: "provider \<Rightarrow> scenario \<Rightarrow> replay \<Rightarrow> report" where
  "report_of p sc r =
     (let ds = map (attribute p (scenario_end sc)) (ry_decisions r) in
      \<lparr>rp_scenario = sk_name sc, rp_decisions = ds, rp_versions_created = ry_versions r,
       rp_kill_precision = (if 0 < ry_reacts r then ratio (ry_correct r) (ry_reacts r) else 0),
       rp_kill_recall = (if 0 < ry_kills r then ratio (ry_correct r) (ry_kills r) else 0),
       rp_brier_score = brier ds,
       rp_noise_robustness = (if 0 < ry_noise r then 1 - ratio (ry_noise_reacts r) (ry_noise r) else 1),
       rp_hypothetical_pnl =
         (case ticker_return p (ticker_from_title (m_title (top_move (ry_current r)))) (scenario_start sc) (scenario_end sc) of
            Some x \<Rightarrow> x | None \<Rightarrow> 0),
       rp_strategy_share = ry_share r, rp_strategy_flips = ry_flips r\<rparr>)"

definition run_scenario :: "harness \<Rightarrow> string \<Rightarrow> scenario \<Rightarrow> go_error + report" where
  "run_scenario h fresh sc =
     (case evaluate (hs_engine h (scenario_start sc)) fresh (sk_goal sc) '''' of
        Inl err \<Rightarrow> Inl err
      | Inr v \<Rightarrow>
          (case replay_events h (sk_goal sc) (sk_events sc) (start_replay v) of
             Inl err \<Rightarrow> Inl err
           | Inr r \<Rightarrow> Inr (report_of (hs_provider h) sc r)))"

section \<open>Comparison runs\<close>

record matrix_cell =
  mx_scenario :: string
  mx_config :: string
  mx_report :: report

text \<open>
  What a comparison run works with: the planner environment, the hash functions, the registry, the
  offline provider of a fixture directory, and the identifier drawn for an initial plan.
\<close>

record lab =
  lb_env :: plan_env
  lb_hashing :: hashing
  lb_registry :: registry
  lb_provider_for :: "string \<Rightarrow> go_error + provider"
  lb_fresh :: string

definition update_investing :: "(domain_policy \<Rightarrow> domain_policy) \<Rightarrow> policy \<Rightarrow> policy" where
  "update_investing f pol =
     AList.update ''investing''
       (f (case map_of pol ''investing'' of Some dp \<Rightarrow> dp | None \<Rightarrow> zero_domain_policy)) pol"

definition override_scoring :: "policy \<Rightarrow> scoring_config \<Rightarrow> policy" where
  "override_scoring pol cfg = update_investing (\<lambda>dp. dp\<lparr>dy_scoring := Some cfg\<rparr>) pol"

definition override_strategy :: "policy \<Rightarrow> strategy_selection \<Rightarrow> policy" where
  "override_strategy pol sel = update_investing (\<lambda>dp. dp\<lparr>dy_strategy := Some sel\<rparr>) pol"

definition run_cell :: "lab \<Rightarrow> string \<Rightarrow> policy \<Rightarrow> scenario \<Rightarrow> go_error + matrix_cell" where
  "run_cell l name pol sc =
     ebind (lb_provider_for l (sk_fixture_dir sc)) (\<lambda>p.
     ebind (new_harness (lb_env l) (lb_hashing l) (lb_registry l) pol p) (\<lambda>h.
       case run_scenario h (lb_fresh l) sc of
         Inl err \<Rightarrow> Inl (EWrap (''backtest: config '' @ uc_quote (pe_unicode (lb_env l)) name @ '' scenario ''
                              @ uc_quote (pe_unicode (lb_env l)) (sk_name sc)) err)
       | Inr rep \<Rightarrow> Inr \<lparr>mx_scenario = sk_name sc, mx_config = name, mx_report = rep\<rparr>))"

fun collect :: "('a \<Rightarrow> 'e + 'b) \<Rightarrow> 'a list \<Rightarrow> 'e + 'b list" where
  "collect f [] = Inr []"
| "collect f (x # xs) = ebind (f x) (\<lambda>y. ebind (collect f xs) (\<lambda>ys. Inr (y # ys)))"

definition run_configs :: "lab \<Rightarrow> (string \<times> policy) list \<Rightarrow> scenario list \<Rightarrow> go_error + matrix_cell list" where
  "run_configs l cfgs scs =
     collect (\<lambda>((name, pol), sc). run_cell l name pol sc) (List.product cfgs scs)"

definition run_matrix ::
  "lab \<Rightarrow> policy \<Rightarrow> scenario list \<Rightarrow> (string \<times> scoring_config) list \<Rightarrow> go_error + matrix_cell list" where
  "run_matrix l base scs configs =
     (let names = sort_by str_less (map fst configs)
      in run_configs l (map (\<lambda>n. (n, override_scoring base (the (map_of configs n)))) names) scs)"

definition strategy_configs :: "descriptor \<Rightarrow> policy \<Rightarrow> (string \<times> policy) list" where
  "strategy_configs d base =
     [(''single'', override_strategy base (zero_selection\<lparr>sn_enabled := Some False\<rparr>))]
     @ map (\<lambda>s. (strategy_descriptor.sd_id s @ ''-only'',
            override_strategy base (zero_selection\<lparr>sn_enabled := Some True,
              sn_disable := filter (\<lambda>i. i \<noteq> strategy_descriptor.sd_id s) (map strategy_descriptor.sd_id (de_strategies d))\<rparr>)))
         (de_strategies d)
     @ [(''selector'', override_strategy base (zero_selection\<lparr>sn_enabled := Some True\<rparr>))]"

definition run_strategy_matrix :: "lab \<Rightarrow> policy \<Rightarrow> scenario list \<Rightarrow> go_error + matrix_cell list" where
  "run_strategy_matrix l base scs =
     (let (d, ok) = registry_get (lb_registry l) ''investing'' in
      if \<not> ok then Inl (EText ''backtest: no investing pack in registry'')
      else if de_strategies d = [] then Inl (EText ''backtest: investing pack declares no strategies'')
      else run_configs l (strategy_configs d base) scs)"

section \<open>Walk-forward evaluation\<close>

record walk_forward_result =
  wk_train_decisions :: int
  wk_eval_decisions :: int
  wk_brier_raw :: f64
  wk_brier_calibrated :: f64
  wk_curve :: calibration_curve

record walk_strategies_result =
  ws_train_decisions :: int
  ws_eval_decisions :: int
  ws_brier_unweighted :: f64
  ws_brier_weighted :: f64
  ws_weights :: "string \<Rightarrow> f64 option"

definition raw_confidence :: "decision \<Rightarrow> f64" where
  "raw_confidence d = (if 0 < dn_top_raw_confidence d then dn_top_raw_confidence d else dn_top_confidence d)"

definition effective_matrix_scoring :: "policy \<Rightarrow> scoring_config" where
  "effective_matrix_scoring pol =
     (case Option.bind (policy_for pol ''investing'') dy_scoring of Some sc \<Rightarrow> sc | None \<Rightarrow> default_scoring_config)"

definition recorded_winner :: "decision \<Rightarrow> nat option" where
  "recorded_winner d =
     List.find (\<lambda>i. sc_strategy_id (dn_candidates d ! i) = dn_selected_strategy d) [0..<length (dn_candidates d)]"

definition candidate_confidence :: "strategy_candidate list \<Rightarrow> nat option \<Rightarrow> f64" where
  "candidate_confidence cands i =
     (case i of
        None \<Rightarrow> lit (1 / 2)
      | Some i \<Rightarrow> if length cands \<le> i then lit (1 / 2) else sc_top_confidence (cands ! i))"

definition pick_recorded :: "decision \<Rightarrow> (string \<Rightarrow> f64 option) \<Rightarrow> nat option" where
  "pick_recorded d w =
     (case re_weigh (dn_candidates d) w (dn_regime d) of Some i \<Rightarrow> Some i | None \<Rightarrow> recorded_winner d)"

definition split_error :: "nat \<Rightarrow> int \<Rightarrow> go_error option" where
  "split_error n train_n =
     (if train_n \<le> 0 \<or> int n \<le> train_n
      then Some (EText (''backtest: trainN must split '' @ dec_int (int n) @ '' decisions, got '' @ dec_int train_n))
      else None)"

text \<open>\<open>None\<close> is the panic of fitting a curve to a NaN confidence.\<close>

definition walk_forward ::
  "lab \<Rightarrow> policy \<Rightarrow> scenario list \<Rightarrow> int \<Rightarrow> (go_error + walk_forward_result) option" where
  "walk_forward l pol scs train_n =
     (case run_matrix l pol scs [(''walkforward'', effective_matrix_scoring pol)] of
        Inl err \<Rightarrow> Some (Inl err)
      | Inr cells \<Rightarrow>
          let ds = concat (map (rp_decisions \<circ> mx_report) cells) in
          (case split_error (length ds) train_n of
             Some err \<Rightarrow> Some (Inl err)
           | None \<Rightarrow>
               let train = take (nat train_n) ds; held_out = drop (nat train_n) ds in
               (case fit_calibration
                       (map (\<lambda>d. \<lparr>cs_confidence = raw_confidence d, cs_success = feq (dn_label d) 1\<rparr>) train) of
                  None \<Rightarrow> None
                | Some curve \<Rightarrow>
                    Some (Inr \<lparr>wk_train_decisions = int (length train), wk_eval_decisions = int (length held_out),
                      wk_brier_raw = mean (map (\<lambda>d. squared_error (raw_confidence d) (dn_label d)) held_out),
                      wk_brier_calibrated =
                        mean (map (\<lambda>d. squared_error (curve_apply curve (raw_confidence d)) (dn_label d)) held_out),
                      wk_curve = curve\<rparr>))))"

definition walk_forward_strategies ::
  "lab \<Rightarrow> policy \<Rightarrow> scenario list \<Rightarrow> int \<Rightarrow> go_error + walk_strategies_result" where
  "walk_forward_strategies l pol scs train_n =
     (case run_strategy_matrix l (override_strategy pol (zero_selection\<lparr>sn_enabled := Some True\<rparr>)) scs of
        Inl err \<Rightarrow> Inl err
      | Inr cells \<Rightarrow>
          let ds = filter (\<lambda>d. dn_candidates d \<noteq> [])
                     (concat (map (rp_decisions \<circ> mx_report) (filter (\<lambda>c. mx_config c = ''selector'') cells))) in
          (case split_error (length ds) train_n of
             Some err \<Rightarrow> Inl err
           | None \<Rightarrow>
               let train = take (nat train_n) ds; held_out = drop (nat train_n) ds;
                   weights = fit_strategy_weights
                     (map (\<lambda>d. \<lparr>sr_strategy = dn_selected_strategy d, sr_regime = dn_regime d,
                                 sr_success = feq (dn_label d) 1, sr_comparator = ''''\<rparr>) train);
                   error_of = (\<lambda>w d. squared_error (candidate_confidence (dn_candidates d) (pick_recorded d w)) (dn_label d))
               in Inr \<lparr>ws_train_decisions = int (length train), ws_eval_decisions = int (length held_out),
                    ws_brier_unweighted = mean (map (error_of (\<lambda>_. None)) held_out),
                    ws_brier_weighted = mean (map (error_of weights) held_out), ws_weights = weights\<rparr>))"

section \<open>Metrics stay in the unit interval\<close>

lemma unit_val_Fin: "unit_val x \<longleftrightarrow> (\<exists>q. x = Fin q \<and> 0 \<le> q \<and> q \<le> 1)"
  by (cases x) (auto simp: unit_val_def)

lemma rnd_unit_val: "0 \<le> q \<Longrightarrow> q \<le> 1 \<Longrightarrow> unit_val (rnd q)"
  using rnd_unit[of q] by (auto simp: unit_val_Fin)

lemma ratio_unit:
  assumes "0 \<le> a" "a \<le> b" "0 < b" "b < 2 ^ 53"
  shows "unit_val (ratio a b)" "unit_val (1 - ratio a b)"
proof -
  have f: "f64_of_int a = Fin (of_int a)" "f64_of_int b = Fin (of_int b)"
    using assms by (simp_all add: f64_of_int_def rnd_of_int_small)
  have q: "0 \<le> (of_int a / of_int b :: rat)" "(of_int a / of_int b :: rat) \<le> 1" using assms by simp_all
  have e: "ratio a b = rnd (of_int a / of_int b)" using assms by (simp add: ratio_def f)
  show "unit_val (ratio a b)" unfolding e by (rule rnd_unit_val[OF q])
  then obtain r where r: "ratio a b = Fin r" "0 \<le> r" "r \<le> 1" by (auto simp: unit_val_Fin)
  show "unit_val (1 - ratio a b)" using rnd_unit_val[of "1 - r"] r by (simp add: minus_f64_def)
qed

lemma sum_units:
  assumes "list_all unit_val xs" "0 \<le> s" "s \<le> of_int k" "0 \<le> k" "k + int (length xs) < 2 ^ 53"
  shows "\<exists>t. foldl (+) (Fin s) xs = Fin t \<and> 0 \<le> t \<and> t \<le> of_int (k + int (length xs))"
  using assms
proof (induction xs arbitrary: s k)
  case (Cons x xs)
  then obtain q where q: "x = Fin q" "0 \<le> q" "q \<le> 1" by (auto simp: unit_val_Fin)
  have "Fin 0 \<le> rnd (s + q)" by (rule rnd_nonneg) (use Cons.prems q in simp)
  moreover have "rnd (s + q) \<le> Fin (of_int (k + 1))"
    using rnd_mono[of "s + q" "of_int (k + 1)"] rnd_of_int_small[of "k + 1"] Cons.prems q by simp
  ultimately obtain t where t: "rnd (s + q) = Fin t" "0 \<le> t" "t \<le> of_int (k + 1)"
    by (cases "rnd (s + q)") auto
  from Cons.IH[of t "k + 1"] t Cons.prems show ?case by (simp add: q algebra_simps)
qed simp

lemma mean_unit:
  assumes "list_all unit_val xs" "xs \<noteq> []" "length xs < 2 ^ 53"
  shows "unit_val (mean xs)"
proof -
  have l: "int (length xs) < 2 ^ 53" using assms(3) by (metis of_nat_less_iff of_nat_numeral of_nat_power)
  obtain t where t: "foldl (+) (Fin 0) xs = Fin t" "0 \<le> t" "t \<le> of_int (int (length xs))"
    using sum_units[OF assms(1), of 0 0] l by auto
  have "f64_of_int (int (length xs)) = Fin (of_nat (length xs))"
    using rnd_of_int_small[of "int (length xs)"] l by (simp add: f64_of_int_def)
  hence "mean xs = rnd (t / of_nat (length xs))" using t assms(2) by (simp add: mean_def)
  moreover have "0 \<le> t / of_nat (length xs)" "t / of_nat (length xs) \<le> 1"
    using t assms(2) by (simp_all add: divide_le_eq)
  ultimately show ?thesis using rnd_unit_val by simp
qed

definition is_label :: "f64 \<Rightarrow> bool" where
  "is_label x \<longleftrightarrow> x = 0 \<or> x = 1"

lemma squared_error_unit:
  assumes "unit_val c" "is_label l"
  shows "unit_val (squared_error c l)"
proof -
  obtain q where q: "c = Fin q" "0 \<le> q" "q \<le> 1" using assms(1) by (auto simp: unit_val_Fin)
  obtain m where m: "l = Fin m" "m = 0 \<or> m = 1" using assms(2) by (auto simp: is_label_def)
  have "Fin (- 1) \<le> rnd (q - m)" "rnd (q - m) \<le> Fin 1"
    using rnd_mono[of "- 1" "q - m"] rnd_mono[of "q - m" 1] rnd_of_int_small[of "- 1"] q m by auto
  then obtain d where d: "rnd (q - m) = Fin d" "- 1 \<le> d" "d \<le> 1" by (cases "rnd (q - m)") auto
  have "0 \<le> d * d" "d * d \<le> 1" using d abs_le_iff[of d 1] mult_mono[of "\<bar>d\<bar>" 1 "\<bar>d\<bar>" 1] by (simp_all add: abs_mult)
  thus ?thesis using rnd_unit_val[of "d * d"] d by (simp add: squared_error_def Let_def q m minus_f64_def)
qed

lemma label_is_label: "is_label (label_of fr d endt)"
  by (auto simp: label_of_def is_label_def split: option.splits)

section \<open>What a replay counts\<close>

definition tally :: "(decision \<Rightarrow> bool) \<Rightarrow> decision list \<Rightarrow> int" where
  "tally P ds = int (length (filter P ds))"

lemma tally_simps [simp]: "tally P [] = 0" "tally P (d # ds) = (if P d then 1 else 0) + tally P ds"
  by (simp_all add: tally_def)

lemma tally_append [simp]: "tally P (ds @ es) = tally P ds + tally P es"
  by (simp add: tally_def)

lemma tally_range: "0 \<le> tally P ds" "(\<And>d. P d \<Longrightarrow> Q d) \<Longrightarrow> tally P ds \<le> tally Q ds" "tally P ds \<le> int (length ds)"
  by (induction ds) auto

definition occasion :: "timeline_event \<Rightarrow> time \<times> string \<times> bool" where
  "occasion ev = (te_at ev, te_kind ev, te_should_kill ev)"

definition occasion_of :: "decision \<Rightarrow> time \<times> string \<times> bool" where
  "occasion_of d = (dn_at d, dn_kind d, dn_should_kill d)"

text \<open>The counters of a replay agree with the decisions it recorded.\<close>

definition counted :: "replay \<Rightarrow> bool" where
  "counted r \<longleftrightarrow>
     ry_versions r = tally dn_material (ry_decisions r) \<and> ry_reacts r = tally dn_material (ry_decisions r) \<and>
     ry_correct r = tally (\<lambda>d. dn_material d \<and> dn_should_kill d) (ry_decisions r) \<and>
     ry_kills r = tally dn_should_kill (ry_decisions r) \<and>
     ry_noise r = tally (\<lambda>d. \<not> dn_should_kill d) (ry_decisions r) \<and>
     ry_noise_reacts r = tally (\<lambda>d. dn_material d \<and> \<not> dn_should_kill d) (ry_decisions r)"

lemma count_share_keeps [simp]:
  "ry_current (count_share s r) = ry_current r" "ry_decisions (count_share s r) = ry_decisions r"
  "ry_versions (count_share s r) = ry_versions r" "ry_reacts (count_share s r) = ry_reacts r"
  "ry_correct (count_share s r) = ry_correct r" "ry_kills (count_share s r) = ry_kills r"
  "ry_noise (count_share s r) = ry_noise r" "ry_noise_reacts (count_share s r) = ry_noise_reacts r"
  by (simp_all add: count_share_def Let_def)

lemma count_event_decisions [simp]: "ry_decisions (count_event ev res r) = ry_decisions r"
  by (simp add: count_event_def Let_def)

lemma decide_fields [simp]:
  "dn_material (decide ev res) = rr_material res" "dn_should_kill (decide ev res) = te_should_kill ev"
  "occasion_of (decide ev res) = occasion ev"
  by (simp_all add: decide_def Let_def occasion_of_def occasion_def)

lemma count_event_counted:
  assumes "counted r"
  shows "counted (count_event ev res (count_share s (r\<lparr>ry_decisions := ry_decisions r @ [decide ev res]\<rparr>)))"
  using assms by (simp add: counted_def count_event_def Let_def)

lemma replay_recorded:
  assumes "replay_events h g evs r = Inr r'" "counted r"
  shows "counted r' \<and> map occasion_of (ry_decisions r') = map occasion_of (ry_decisions r) @ map occasion evs"
  using assms
proof (induction evs arbitrary: r)
  case (Cons ev evs)
  then obtain res where "replan (hs_engine h (te_at ev)) g (ry_current r) (event_note ev) (te_kind ev) (te_payload ev) = Inr res"
    "replay_events h g evs (count_event ev res (count_share (dn_selected_strategy (decide ev res))
       (r\<lparr>ry_decisions := ry_decisions r @ [decide ev res]\<rparr>))) = Inr r'"
    by (auto simp: Let_def split: sum.splits)
  from Cons.IH[OF this(2) count_event_counted[OF Cons.prems(2)]] show ?case by simp
qed simp

lemma start_counted: "counted (start_replay v)" "ry_decisions (start_replay v) = []"
  by (simp_all add: counted_def start_replay_def)

lemma attribute_keeps [simp]:
  "dn_material (attribute p t d) = dn_material d" "dn_should_kill (attribute p t d) = dn_should_kill d"
  "dn_top_confidence (attribute p t d) = dn_top_confidence d" "occasion_of (attribute p t d) = occasion_of d"
  "is_label (dn_label (attribute p t d))"
  by (simp_all add: attribute_def Let_def occasion_of_def label_is_label)

lemma tally_attribute [simp]:
  "tally dn_material (map (attribute p t) ds) = tally dn_material ds"
  "tally dn_should_kill (map (attribute p t) ds) = tally dn_should_kill ds"
  "tally (\<lambda>d. \<not> dn_should_kill d) (map (attribute p t) ds) = tally (\<lambda>d. \<not> dn_should_kill d) ds"
  "tally (\<lambda>d. dn_material d \<and> dn_should_kill d) (map (attribute p t) ds) = tally (\<lambda>d. dn_material d \<and> dn_should_kill d) ds"
  "tally (\<lambda>d. dn_material d \<and> \<not> dn_should_kill d) (map (attribute p t) ds) = tally (\<lambda>d. dn_material d \<and> \<not> dn_should_kill d) ds"
  by (induction ds) auto

text \<open>The metrics of a report, from its decisions alone.\<close>

definition share_of :: "(decision \<Rightarrow> bool) \<Rightarrow> (decision \<Rightarrow> bool) \<Rightarrow> decision list \<Rightarrow> f64 option" where
  "share_of P Q ds = (if tally Q ds = 0 then None else Some (ratio (tally (\<lambda>d. P d \<and> Q d) ds) (tally Q ds)))"

lemma share_unit:
  assumes "length ds < 2 ^ 53" "share_of P Q ds = Some x"
  shows "unit_val x \<and> unit_val (1 - x)"
proof -
  have "int (length ds) < 2 ^ 53" using assms(1) by (metis of_nat_less_iff of_nat_numeral of_nat_power)
  hence "tally Q ds < 2 ^ 53" "0 < tally Q ds"
    using tally_range(1,3)[of Q ds] assms(2) by (auto simp: share_of_def split: if_splits)
  thus ?thesis using ratio_unit[OF tally_range(1) tally_range(2)[of "\<lambda>d. P d \<and> Q d" Q ds]] assms(2)
    by (auto simp: share_of_def split: if_splits)
qed

lemma run_scenario_Inr:
  "evaluate (hs_engine h (scenario_start sc)) fresh (sk_goal sc) '''' = Inr v \<Longrightarrow>
   replay_events h (sk_goal sc) (sk_events sc) (start_replay v) = Inr r \<Longrightarrow>
   run_scenario h fresh sc = Inr (report_of (hs_provider h) sc r)"
  by (simp add: run_scenario_def)

lemma run_report:
  assumes "run_scenario h fresh sc = Inr rep"
  shows "map occasion_of (rp_decisions rep) = map occasion (sk_events sc) \<and>
    rp_versions_created rep = tally dn_material (rp_decisions rep) \<and>
    rp_kill_precision rep = (case share_of dn_should_kill dn_material (rp_decisions rep) of None \<Rightarrow> 0 | Some x \<Rightarrow> x) \<and>
    rp_kill_recall rep = (case share_of dn_material dn_should_kill (rp_decisions rep) of None \<Rightarrow> 0 | Some x \<Rightarrow> x) \<and>
    rp_noise_robustness rep =
      (case share_of dn_material (\<lambda>d. \<not> dn_should_kill d) (rp_decisions rep) of None \<Rightarrow> 1 | Some x \<Rightarrow> 1 - x) \<and>
    rp_brier_score rep = brier (rp_decisions rep) \<and> list_all (is_label \<circ> dn_label) (rp_decisions rep)"
proof -
  obtain v r where r: "replay_events h (sk_goal sc) (sk_events sc) (start_replay v) = Inr r"
    and rep: "rep = report_of (hs_provider h) sc r"
    using assms by (auto simp: run_scenario_def split: sum.splits)
  have c: "counted r" "map occasion_of (ry_decisions r) = map occasion (sk_events sc)"
    using replay_recorded[OF r start_counted(1)] by (simp_all add: start_counted(2))
  have pos: "0 < tally P ds \<longleftrightarrow> tally P ds \<noteq> 0" for P ds using tally_range(1)[of P ds] by linarith
  have swap: "tally (\<lambda>d. dn_should_kill d \<and> dn_material d) ds = tally (\<lambda>d. dn_material d \<and> dn_should_kill d) ds" for ds
    by (induction ds) auto
  show ?thesis
    using c by (simp add: rep report_of_def Let_def counted_def share_of_def pos swap comp_def list_all_iff)
qed

section \<open>Ignored noise\<close>

text \<open>The decision recorded for a signal that the gate refused.\<close>

definition ignored :: "decision \<Rightarrow> bool" where
  "ignored d \<longleftrightarrow> \<not> dn_material d \<and> \<not> dn_should_kill d \<and> dn_top_move d = '''' \<and> dn_top_confidence d = 0"

lemma zero_version_top: "top_move zero_version = zero_move"
  by (simp add: top_move_def zero_version_def)

lemma refused_replay:
  assumes "replay_events h g evs r = Inr r'"
    and "\<And>ev cur msg. ev \<in> set evs \<Longrightarrow> \<exists>reason. replan (hs_engine h (te_at ev)) g cur msg (te_kind ev) (te_payload ev) =
           Inr \<lparr>rr_material = False, rr_reason = reason, rr_candidate = zero_version\<rparr> \<and> \<not> te_should_kill ev"
    and "list_all ignored (ry_decisions r)"
  shows "list_all ignored (ry_decisions r')"
  using assms
proof (induction evs arbitrary: r)
  case (Cons ev evs)
  obtain reason where res: "replan (hs_engine h (te_at ev)) g (ry_current r) (event_note ev) (te_kind ev) (te_payload ev) =
      Inr \<lparr>rr_material = False, rr_reason = reason, rr_candidate = zero_version\<rparr>" "\<not> te_should_kill ev"
    using Cons.prems(2)[of ev] by auto
  have "ignored (decide ev \<lparr>rr_material = False, rr_reason = reason, rr_candidate = zero_version\<rparr>)"
    using res(2) by (simp add: ignored_def decide_def Let_def zero_version_top) (simp add: zero_move_def)
  thus ?case using Cons.IH[OF _ Cons.prems(2)] Cons.prems(1,3) res(1) by (simp add: Let_def)
qed simp

lemma replay_refused_ends:
  assumes "\<And>ev cur msg. ev \<in> set evs \<Longrightarrow> \<exists>reason. replan (hs_engine h (te_at ev)) g cur msg (te_kind ev) (te_payload ev) =
           Inr \<lparr>rr_material = False, rr_reason = reason, rr_candidate = zero_version\<rparr> \<and> \<not> te_should_kill ev"
  shows "\<exists>r'. replay_events h g evs r = Inr r'"
  using assms
proof (induction evs arbitrary: r)
  case (Cons ev evs)
  obtain reason where res: "replan (hs_engine h (te_at ev)) g (ry_current r) (event_note ev) (te_kind ev) (te_payload ev) =
      Inr \<lparr>rr_material = False, rr_reason = reason, rr_candidate = zero_version\<rparr>"
    using Cons.prems[of ev] by auto
  show ?case using Cons.IH[OF Cons.prems] res by (simp add: Let_def)
qed simp

lemma ignored_label:
  "ignored d \<Longrightarrow> dn_label (attribute p t d) = 1 \<and> dn_top_confidence (attribute p t d) = 0"
  by (simp add: ignored_def attribute_def Let_def ticker_from_title_def ticker_return_def label_of_def)

lemma ignored_confidence: "ignored d \<Longrightarrow> dn_top_confidence d = 0"
  by (simp add: ignored_def)

lemma sum_ones: "0 \<le> k \<Longrightarrow> k + int n < 2 ^ 53 \<Longrightarrow> foldl (+) (Fin (of_int k)) (replicate n (Fin 1)) = Fin (of_int (k + int n))"
proof (induction n arbitrary: k)
  case (Suc n)
  have "rnd (of_int k + 1) = Fin (of_int (k + 1))" using rnd_of_int_small[of "k + 1"] Suc.prems by simp
  with Suc.IH[of "k + 1"] Suc.prems show ?case by (simp add: algebra_simps)
qed simp

lemma mean_ones: "0 < n \<Longrightarrow> int n < 2 ^ 53 \<Longrightarrow> mean (replicate n 1) = 1"
proof -
  assume n: "0 < n" "int n < 2 ^ 53"
  have "foldl (+) (Fin 0) (replicate n (Fin 1)) = Fin (of_nat n)" using sum_ones[of 0 n] n by simp
  moreover have "f64_of_int (int n) = Fin (of_nat n)" using rnd_of_int_small[of "int n"] n by (simp add: f64_of_int_def)
  ultimately show ?thesis using n by (simp add: mean_def)
qed

lemma brier_ignored:
  assumes "list_all ignored ds" "ds \<noteq> []" "int (length ds) < 2 ^ 53"
  shows "brier (map (attribute p t) ds) = 1"
proof -
  have "map (\<lambda>d. squared_error (dn_top_confidence d) (dn_label d)) (map (attribute p t) ds) = replicate (length ds) 1"
    unfolding map_map comp_def using assms(1)
    by (induction ds) (simp_all add: ignored_label ignored_confidence squared_error_def Let_def minus_f64_def rnd_of_int_small[of "- 1", simplified])
  thus ?thesis using mean_ones[of "length ds"] assms by (simp add: brier_def)
qed

lemma gated_replan:
  assumes "new_harness env h (new_registry extra) pol p = Inr hs"
    and "fold_kind (pe_unicode env) kind \<in> fold_kind (pe_unicode env) `
           set (effective_ignore_kinds (fst (registry_get (new_registry extra) (g_domain g))) pol)"
  shows "\<exists>reason. replan (hs_engine hs t) g cur msg kind payload =
           Inr \<lparr>rr_material = False, rr_reason = reason, rr_candidate = zero_version\<rparr>"
proof -
  let ?d = "fst (registry_get (new_registry extra) (g_domain g))"
  have e: "hs_engine hs = engine_at env h (new_registry extra) pol p"
    using assms(1) by (auto simp: new_harness_def split: sum.splits)
  have "gate_for (hs_engine hs t) g = Some (kind_gate (pe_unicode env) (effective_ignore_kinds ?d pol))"
    using resolve_registry[of extra "\<lambda>d. kind_gate (pe_unicode env) (effective_ignore_kinds d pol)" "g_domain g"]
    by (simp add: e engine_at_def Let_def gate_for_def new_gate_resolver_def)
  thus ?thesis using assms(2) by (simp add: replan_def kind_gate_def)
qed

section \<open>The clock and the wiring\<close>

text \<open>Whether the router can be built does not depend on the clock, so the harness never holds a failing one.\<close>

lemma check_children_cong:
  "list_all2 (\<lambda>c c'. ch_id c = ch_id c' \<and> (ch_planner c = None \<longleftrightarrow> ch_planner c' = None)) cs cs' \<Longrightarrow>
   check_children u seen cs = check_children u seen cs'"
  by (induction arbitrary: seen rule: list_all2_induct) auto

lemma selector_built_anytime:
  "isl (build_strategy_selector (env\<lparr>pe_finance_now := t\<rparr>) d pol deps) = isl (build_strategy_selector env d pol deps)"
proof -
  let ?u = "pe_unicode env" and ?ss = "active_strategies d pol"
  have n: "isl (case new_selector_planner ?u cfg of Inl err \<Rightarrow> Inl err | Inr sel \<Rightarrow> Inr (Some (NSelector sel ch))) =
      isl (case new_selector_planner ?u cfg' of Inl err \<Rightarrow> Inl err | Inr sel \<Rightarrow> Inr (Some (NSelector sel ch)))"
    if "list_all2 (\<lambda>c c'. ch_id c = ch_id c' \<and> (ch_planner c = None \<longleftrightarrow> ch_planner c' = None)) (sl_children cfg) (sl_children cfg')"
    for cfg cfg' ch
    using check_children_cong[OF that, of ?u "[]"] list_all2_lengthD[OF that]
    by (simp add: new_selector_planner_def Let_def split: option.splits)
  show ?thesis
    by (auto simp: build_strategy_selector_def Let_def split: option.splits
        intro!: n simp: selector_config_def list_all2_map1 list_all2_map2 list_all2_same case_prod_beta)
qed

lemma isl_route:
  "isl (build_route env d pol deps i) = isl (build_strategy_selector env d pol deps)"
  by (auto simp: build_route_def split: sum.splits option.splits)

lemma isl_ebind: "isl (ebind r (\<lambda>x. Inr (f x))) = isl r"
  by (cases r) simp_all

lemma isl_routes:
  "isl (build_routes env reg pol deps ks) \<longleftrightarrow>
     (\<exists>i \<in> set ks. isl (build_strategy_selector env (fst (registry_get reg i)) pol deps))"
proof (induction ks)
  case (Cons i ks)
  show ?case
    using Cons.IH isl_route[of env "fst (registry_get reg i)" pol deps i]
    by (cases "build_route env (fst (registry_get reg i)) pol deps i") (auto simp: isl_ebind)
qed simp

lemma router_built_anytime:
  "isl (build_planner_router (env\<lparr>pe_finance_now := t\<rparr>) reg pol deps) = isl (build_planner_router env reg pol deps)"
  by (simp add: build_planner_router_def isl_ebind isl_routes selector_built_anytime)

lemma harness_engine_built:
  assumes "new_harness env h reg pol p = Inr hs"
  shows "\<exists>r. build_planner_router (env\<lparr>pe_finance_now := t\<rparr>) reg pol (backtest_deps (pe_unicode env) h p) = Inr r"
proof -
  have "\<not> isl (build_planner_router (env\<lparr>pe_finance_now := zero_time\<rparr>) reg pol (backtest_deps (pe_unicode env) h p))"
    using assms by (auto simp: new_harness_def split: sum.splits)
  thus ?thesis unfolding router_built_anytime by (metis (full_types) isl_def router_built_anytime sum.exhaust)
qed

section \<open>The configurations of a strategy comparison\<close>

lemma override_investing [simp]:
  "policy_for (override_strategy pol sel) ''investing'' =
     Some ((case policy_for pol ''investing'' of Some dp \<Rightarrow> dp | None \<Rightarrow> zero_domain_policy)\<lparr>dy_strategy := Some sel\<rparr>)"
  by (simp add: policy_for_def override_strategy_def update_investing_def update_conv)

lemma override_other: "i \<noteq> ''investing'' \<Longrightarrow> policy_for (override_strategy pol sel) i = policy_for pol i"
  by (simp add: policy_for_def override_strategy_def update_investing_def update_conv)

lemma override_enabled:
  "de_id d = ''investing'' \<Longrightarrow> selection_enabled d (override_strategy pol sel) =
     (case sn_enabled sel of Some b \<Rightarrow> b | None \<Rightarrow> de_selection_default_on d)"
  by (simp add: selection_enabled_def)

lemma override_active:
  "de_id d = ''investing'' \<Longrightarrow> active_strategies d (override_strategy pol sel) =
     filter (\<lambda>s. strategy_descriptor.sd_id s \<notin> set (sn_disable sel)) (de_strategies d)"
  by (simp add: active_strategies_def)

lemma zero_selection_disable: "sn_disable zero_selection = []"
  by (simp add: zero_selection_def)

lemma only_lens:
  assumes "distinct (map strategy_descriptor.sd_id ss)" "s \<in> set ss"
  shows "filter (\<lambda>x. strategy_descriptor.sd_id x \<notin>
           set (filter (\<lambda>i. i \<noteq> strategy_descriptor.sd_id s) (map strategy_descriptor.sd_id ss))) ss = [s]"
proof -
  have "filter (\<lambda>x. strategy_descriptor.sd_id x \<notin> set (filter (\<lambda>i. i \<noteq> strategy_descriptor.sd_id s)
      (map strategy_descriptor.sd_id ss))) ss = filter (\<lambda>x. strategy_descriptor.sd_id x = strategy_descriptor.sd_id s) ss"
    by (rule filter_cong[OF refl]) auto
  also have "\<dots> = [s]"
    using assms by (induction ss) (auto simp: filter_empty_conv, metis imageI)
  finally show ?thesis .
qed

lemma collect_length: "collect f xs = Inr ys \<Longrightarrow> list_all2 (\<lambda>x y. f x = Inr y) xs ys"
  by (induction xs arbitrary: ys) (auto dest!: ebind_InrD)

lemma run_cell_names: "run_cell l name pol sc = Inr c \<Longrightarrow> mx_config c = name \<and> mx_scenario c = sk_name sc"
  by (auto simp: run_cell_def dest!: ebind_InrD split: sum.splits)

lemma run_configs_cells:
  assumes "run_configs l cfgs scs = Inr cells"
  shows "map (\<lambda>c. (mx_config c, mx_scenario c)) cells = List.product (map fst cfgs) (map sk_name scs)"
proof -
  have "list_all2 (\<lambda>x c. (mx_config c, mx_scenario c) = (fst (fst x), sk_name (snd x))) (List.product cfgs scs) cells"
    using collect_length[OF assms[unfolded run_configs_def]]
    by (rule list_all2_mono) (auto dest: run_cell_names)
  hence "map (\<lambda>c. (mx_config c, mx_scenario c)) cells = map (\<lambda>x. (fst (fst x), sk_name (snd x))) (List.product cfgs scs)"
    by (induction rule: list_all2_induct) auto
  also have "\<dots> = List.product (map fst cfgs) (map sk_name scs)"
    by (induction cfgs) (auto simp: comp_def)
  finally show ?thesis .
qed

section \<open>Properties\<close>

text \<open>
  A backtest report is exact: one decision per event, in order; the number of versions, the
  precision and recall of reactions and the robustness to noise are the shares of the recorded
  decisions they are documented as, with their stated values when there is nothing to divide by.
  They lie in the unit interval, and so does the Brier score when the recorded confidences do.
\<close>

theorem backtest_metrics_exact:
  assumes "run_scenario h fresh sc = Inr rep" "length (sk_events sc) < 2 ^ 53"
  shows "map occasion_of (rp_decisions rep) = map occasion (sk_events sc) \<and>
    rp_versions_created rep = tally dn_material (rp_decisions rep) \<and>
    rp_kill_precision rep = (case share_of dn_should_kill dn_material (rp_decisions rep) of None \<Rightarrow> 0 | Some x \<Rightarrow> x) \<and>
    rp_kill_recall rep = (case share_of dn_material dn_should_kill (rp_decisions rep) of None \<Rightarrow> 0 | Some x \<Rightarrow> x) \<and>
    rp_noise_robustness rep =
      (case share_of dn_material (\<lambda>d. \<not> dn_should_kill d) (rp_decisions rep) of None \<Rightarrow> 1 | Some x \<Rightarrow> 1 - x) \<and>
    unit_val (rp_kill_precision rep) \<and> unit_val (rp_kill_recall rep) \<and> unit_val (rp_noise_robustness rep) \<and>
    (list_all (unit_val \<circ> dn_top_confidence) (rp_decisions rep) \<longrightarrow> unit_val (rp_brier_score rep))"
proof -
  note run = run_report[OF assms(1)]
  have len: "length (rp_decisions rep) < 2 ^ 53" using run assms(2) by (metis length_map)
  have z: "unit_val 0" "unit_val 1" by (simp_all add: unit_val_Fin)
  note share = share_unit[OF len]
  have "unit_val (rp_kill_precision rep)" "unit_val (rp_kill_recall rep)" "unit_val (rp_noise_robustness rep)"
    using run share z by (auto split: option.splits)
  moreover have "unit_val (brier (rp_decisions rep))" if "list_all (unit_val \<circ> dn_top_confidence) (rp_decisions rep)"
  proof (cases "rp_decisions rep = []")
    case False
    have "list_all unit_val (map (\<lambda>d. squared_error (dn_top_confidence d) (dn_label d)) (rp_decisions rep))"
      using that run squared_error_unit by (auto simp: list_all_iff)
    thus ?thesis using mean_unit[of "map (\<lambda>d. squared_error (dn_top_confidence d) (dn_label d)) (rp_decisions rep)"] False len
      by (simp add: brier_def)
  qed (use z(1) in \<open>simp add: brier_def\<close>)
  ultimately show ?thesis using run by simp
qed

definition sample_harness :: harness where
  "sample_harness = \<lparr>hs_engine = (\<lambda>_. sample_engine [sample_move ''a'' 1 []]), hs_provider = outage\<rparr>"

definition sample_scenario :: scenario where
  "sample_scenario =
     \<lparr>sk_name = ''noise'', sk_start_at = 5, sk_goal = zero_goal,
      sk_events = [\<lparr>te_at = 6, te_kind = ''news'', te_payload = [], te_should_kill = False\<rparr>], sk_fixture_dir = ''''\<rparr>"

theorem backtest_metrics_exact_witness:
  "\<exists>rep. run_scenario sample_harness ''plan_1'' sample_scenario = Inr rep \<and>
     map occasion_of (rp_decisions rep) = [(6, ''news'', False)] \<and> unit_val (rp_noise_robustness rep)"
proof -
  have e: "\<exists>v. evaluate (hs_engine sample_harness t) ''plan_1'' zero_goal '''' = Inr v" for t
    by (simp add: sample_harness_def sample_engine_def new_engine_def evaluate_def enrich_def)
  have "\<exists>r. replan (hs_engine sample_harness t) zero_goal cur msg kind [] = Inr r" for t cur msg kind
    using replan_body_planned[of "sample_engine [sample_move ''a'' 1 []]" zero_goal kind "[]" cur msg]
    by (simp add: sample_harness_def replan_def gate_for_def sample_engine_def new_engine_def)
  hence step: "\<exists>r'. replay_events sample_harness zero_goal [ev] r = Inr r'" if "te_payload ev = []" for ev r
    using that by (auto simp: Let_def split: sum.splits) (metis Inr_Inl_False)
  have "\<exists>r'. replay_events sample_harness zero_goal (sk_events sample_scenario) r = Inr r'" for r
    using step by (simp only: sample_scenario_def scenario.select_convs timeline_event.select_convs)
  moreover obtain v where "evaluate (hs_engine sample_harness (scenario_start sample_scenario)) ''plan_1''
      (sk_goal sample_scenario) '''' = Inr v"
    using e by (simp add: sample_scenario_def) blast
  ultimately have "\<exists>rep. run_scenario sample_harness ''plan_1'' sample_scenario = Inr rep"
    using run_scenario_Inr[of sample_harness sample_scenario] by (metis (full_types) sample_scenario_def scenario.select_convs(3))
  then obtain rep where rep: "run_scenario sample_harness ''plan_1'' sample_scenario = Inr rep" by blast
  have "length (sk_events sample_scenario) < 2 ^ 53" by (simp add: sample_scenario_def)
  from backtest_metrics_exact[OF rep this]
  have "map occasion_of (rp_decisions rep) = map occasion (sk_events sample_scenario)"
    "unit_val (rp_noise_robustness rep)" by blast+
  moreover have "map occasion (sk_events sample_scenario) = [(6, ''news'', False)]"
    by (simp add: sample_scenario_def occasion_def)
  ultimately show ?thesis using rep by auto
qed

text \<open>
  Ignoring noise perfectly is scored as the worst calibration. When every event is noise that
  the domain's gate refuses, no version is created and the robustness to noise is 1, but the Brier
  score is 1 too, the worst there is: the refused decisions are recorded with the confidence 0 of a
  plan without moves and labelled a success.
\<close>

theorem ignored_noise_scores_worst:
  assumes "new_harness env h (new_registry extra) pol p = Inr hs"
    and "evaluate (hs_engine hs (scenario_start sc)) fresh (sk_goal sc) '''' = Inr v"
    and "sk_events sc \<noteq> []" "int (length (sk_events sc)) < 2 ^ 53"
    and noise: "\<And>ev. ev \<in> set (sk_events sc) \<Longrightarrow> \<not> te_should_kill ev \<and>
      fold_kind (pe_unicode env) (te_kind ev) \<in> fold_kind (pe_unicode env) `
        set (effective_ignore_kinds (fst (registry_get (new_registry extra) (g_domain (sk_goal sc)))) pol)"
  shows "\<exists>rep. run_scenario hs fresh sc = Inr rep \<and> rp_versions_created rep = 0 \<and>
    rp_noise_robustness rep = 1 \<and> rp_brier_score rep = 1"
proof -
  have ref: "\<exists>reason. replan (hs_engine hs (te_at ev)) (sk_goal sc) cur msg (te_kind ev) (te_payload ev) =
      Inr \<lparr>rr_material = False, rr_reason = reason, rr_candidate = zero_version\<rparr> \<and> \<not> te_should_kill ev"
    if "ev \<in> set (sk_events sc)" for ev cur msg
    using gated_replan[OF assms(1)] noise[OF that] by fastforce
  obtain r where r: "replay_events hs (sk_goal sc) (sk_events sc) (start_replay v) = Inr r"
    using replay_refused_ends[OF ref] by blast
  have ig: "list_all ignored (ry_decisions r)"
    using refused_replay[OF r ref] by (simp add: start_counted)
  have c: "counted r" "map occasion_of (ry_decisions r) = map occasion (sk_events sc)"
    using replay_recorded[OF r start_counted(1)] by (simp_all add: start_counted(2))
  have len: "length (ry_decisions r) = length (sk_events sc)" using arg_cong[OF c(2), of length] by simp
  have t: "tally dn_material (ry_decisions r) = 0" "tally (\<lambda>d. dn_material d \<and> \<not> dn_should_kill d) (ry_decisions r) = 0"
    using ig by (auto simp: tally_def ignored_def list_all_iff filter_empty_conv)
  have "1 - ratio 0 (ry_noise r) = 1" if "0 < ry_noise r"
  proof -
    have "ry_noise r < 2 ^ 53" using c(1) tally_range(3)[of "\<lambda>d. \<not> dn_should_kill d" "ry_decisions r"] len assms(4)
      by (simp add: counted_def)
    hence "f64_of_int (ry_noise r) = Fin (of_int (ry_noise r))" "f64_of_int 0 = Fin 0"
      using that rnd_of_int_small[of "ry_noise r"] by (simp_all add: f64_of_int_def)
    thus ?thesis using that by (simp add: ratio_def minus_f64_def)
  qed
  moreover have "brier (map (attribute (hs_provider hs) (scenario_end sc)) (ry_decisions r)) = 1"
  proof -
    have "ry_decisions r \<noteq> []" using len assms(3) by auto
    thus ?thesis using brier_ignored[OF ig] len assms(4) by simp
  qed
  ultimately show ?thesis using assms(2) r c(1) t by (auto simp: run_scenario_def report_of_def Let_def counted_def)
qed

definition noise_policy :: policy where
  "noise_policy = [(''generic'', zero_domain_policy\<lparr>dy_ignore_signal_kinds := Some [''noise'']\<rparr>)]"

definition noise_scenario :: scenario where
  "noise_scenario =
     \<lparr>sk_name = ''noise'', sk_start_at = 5, sk_goal = zero_goal\<lparr>g_objective := ''grow''\<rparr>,
      sk_events = [\<lparr>te_at = 6, te_kind = ''noise'', te_payload = [], te_should_kill = False\<rparr>], sk_fixture_dir = ''''\<rparr>"

definition sample_hashing :: hashing where
  "sample_hashing = \<lparr>ha_encoders = sample_encoders, ha_first_byte = (\<lambda>_. 200)\<rparr>"

lemma sample_router:
  "\<exists>rs. build_planner_router (sample_env\<lparr>pe_finance_now := t\<rparr>) (new_registry []) pol (backtest_deps ascii_unicode sample_hashing p) =
     Inr (NBase \<lparr>ba_planner = \<lparr>np_name = ''mock'', np_generate = mock_generate ascii_unicode sample_hashing\<rparr>, ba_verifier = None\<rparr>, rs)"
proof -
  let ?env = "sample_env\<lparr>pe_finance_now := t\<rparr>"
  have "wireable (pe_unicode ?env) (fst (registry_get (new_registry []) i))"
    if "i \<in> set (registry_ids (new_registry []))" for i
    using builtin_wireable[OF _ builtin_registry(2)[OF that]] ascii_keeps_letters by (simp add: sample_env_def)
  then obtain rs where "build_routes ?env (new_registry []) pol (backtest_deps ascii_unicode sample_hashing p)
      (registry_ids (new_registry [])) = Inr rs"
    using build_routes_total[of "registry_ids (new_registry [])" ?env "new_registry []"] by blast
  thus ?thesis by (simp add: build_planner_router_def cache_wrap_def raw_base_def backtest_deps_def)
qed

lemma builtin_fallback: "de_id (rg_fallback (new_registry [])) = ''generic''"
  by (simp add: new_registry_def new_registry_from_def Let_def builtin_packs_def generic_pack_def investing_pack_def
      growth_pack_def career_pack_def DefaultDomain_def)

lemma sample_initial:
  assumes "new_harness sample_env sample_hashing (new_registry []) pol p = Inr hs"
    and "g_objective g \<noteq> ''''" "g_domain g = ''''"
  shows "\<exists>v. evaluate (hs_engine hs t) fresh g '''' = Inr v"
proof -
  have e: "hs_engine hs = engine_at sample_env sample_hashing (new_registry []) pol p"
    using assms(1) by (auto simp: new_harness_def split: sum.splits)
  obtain rs where rs: "build_planner_router (sample_env\<lparr>pe_finance_now := t\<rparr>) (new_registry []) pol
      (backtest_deps ascii_unicode sample_hashing p) = Inr (NBase \<lparr>ba_planner = \<lparr>np_name = ''mock'',
        np_generate = mock_generate ascii_unicode sample_hashing\<rparr>, ba_verifier = None\<rparr>, rs)"
    using sample_router by blast
  let ?req = "zero_request\<lparr>rq_goal := g, rq_signal_note := ''''\<rparr>"
  have "pe_unicode sample_env = ascii_unicode" by (simp add: sample_env_def)
  hence "en_planner (hs_engine hs t) ?req = mock_generate ascii_unicode sample_hashing ?req"
    using assms(3) by (simp add: e engine_at_def Let_def rs new_engine_def router_planner_of_def planner_router_def
        split: option.split)
  moreover obtain res where "mock_generate ascii_unicode sample_hashing ?req = Inr res"
    using mock_answers[of ?req ascii_unicode sample_hashing] assms(2) by auto
  moreover have "enrich (hs_engine hs t) g '''' [] = (g, [])"
    by (simp add: e engine_at_def Let_def new_engine_def enrich_def)
  ultimately show ?thesis by (simp add: evaluate_def)
qed

theorem ignored_noise_scores_worst_witness:
  "\<exists>hs rep. new_harness sample_env sample_hashing (new_registry []) noise_policy outage = Inr hs \<and>
     run_scenario hs ''plan_1'' noise_scenario = Inr rep \<and> rp_noise_robustness rep = 1 \<and> rp_brier_score rep = 1"
proof -
  obtain hs where hs: "new_harness sample_env sample_hashing (new_registry []) noise_policy outage = Inr hs"
    using sample_router[of zero_time noise_policy outage]
    by (auto simp: new_harness_def sample_env_def)
  obtain v where v: "evaluate (hs_engine hs (scenario_start noise_scenario)) ''plan_1'' (sk_goal noise_scenario) '''' = Inr v"
    using sample_initial[OF hs, of "sk_goal noise_scenario"] by (auto simp: noise_scenario_def zero_goal_def)
  have d: "effective_ignore_kinds (fst (registry_get (new_registry []) (g_domain (sk_goal noise_scenario)))) noise_policy = [''noise'']"
    using builtin_fallback
    by (simp add: noise_scenario_def zero_goal_def registry_get_def effective_ignore_kinds_def
        noise_policy_def policy_for_def)
  have ev: "sk_events noise_scenario \<noteq> []" "int (length (sk_events noise_scenario)) < 2 ^ 53"
    "\<And>ev. ev \<in> set (sk_events noise_scenario) \<Longrightarrow> \<not> te_should_kill ev \<and>
      fold_kind (pe_unicode sample_env) (te_kind ev) \<in> fold_kind (pe_unicode sample_env) `
        set (effective_ignore_kinds (fst (registry_get (new_registry []) (g_domain (sk_goal noise_scenario)))) noise_policy)"
    unfolding d by (simp_all add: noise_scenario_def)
  from ignored_noise_scores_worst[OF hs v ev] hs show ?thesis by blast
qed

text \<open>
  A strategy comparison isolates the lenses. Its configurations are the single planner with
  selection off, then for each declared strategy a run in which exactly that lens is active, then
  the full competition; no other domain's policy changes, and the cells of a finished run are the
  scenarios in order under each configuration in turn.
\<close>

theorem strategy_matrix_isolates_lens:
  assumes "de_id d = ''investing''" "distinct (map strategy_descriptor.sd_id (de_strategies d))"
  shows "map (\<lambda>(n, pol). (n, selection_enabled d pol, active_strategies d pol)) (strategy_configs d base) =
      (''single'', False, de_strategies d)
      # map (\<lambda>s. (strategy_descriptor.sd_id s @ ''-only'', True, [s])) (de_strategies d)
      @ [(''selector'', True, de_strategies d)] \<and>
    (\<forall>(n, pol) \<in> set (strategy_configs d base). \<forall>i. i \<noteq> ''investing'' \<longrightarrow> policy_for pol i = policy_for base i) \<and>
    (\<forall>l scs cells. registry_get (lb_registry l) ''investing'' = (d, True) \<longrightarrow> run_strategy_matrix l base scs = Inr cells \<longrightarrow>
       map (\<lambda>c. (mx_config c, mx_scenario c)) cells = List.product (map fst (strategy_configs d base)) (map sk_name scs))"
proof -
  have "map (\<lambda>s. (strategy_descriptor.sd_id s @ ''-only'', True,
        filter (\<lambda>x. strategy_descriptor.sd_id x \<notin> set (filter (\<lambda>i. i \<noteq> strategy_descriptor.sd_id s)
          (map strategy_descriptor.sd_id (de_strategies d)))) (de_strategies d))) (de_strategies d) =
      map (\<lambda>s. (strategy_descriptor.sd_id s @ ''-only'', True, [s])) (de_strategies d)"
    using only_lens[OF assms(2)] by (intro map_cong refl) simp
  hence "map (\<lambda>(n, pol). (n, selection_enabled d pol, active_strategies d pol)) (strategy_configs d base) =
      (''single'', False, de_strategies d)
      # map (\<lambda>s. (strategy_descriptor.sd_id s @ ''-only'', True, [s])) (de_strategies d)
      @ [(''selector'', True, de_strategies d)]"
    by (simp add: strategy_configs_def override_enabled[OF assms(1)] override_active[OF assms(1)] comp_def
        zero_selection_disable del: set_filter)
  moreover have "\<forall>(n, pol) \<in> set (strategy_configs d base). \<forall>i. i \<noteq> ''investing'' \<longrightarrow> policy_for pol i = policy_for base i"
    by (auto simp: strategy_configs_def override_other)
  moreover have "map (\<lambda>c. (mx_config c, mx_scenario c)) cells = List.product (map fst (strategy_configs d base)) (map sk_name scs)"
    if "registry_get (lb_registry l) ''investing'' = (d, True)" "run_strategy_matrix l base scs = Inr cells" for l scs cells
    using that run_configs_cells by (auto simp: run_strategy_matrix_def split: if_splits)
  ultimately show ?thesis by blast
qed

theorem strategy_matrix_isolates_lens_witness:
  "map fst (strategy_configs investing_pack []) =
     [''single'', ''value-only'', ''momentum-only'', ''defensive-only'', ''selector''] \<and>
   map (\<lambda>(n, pol). length (active_strategies investing_pack pol)) (strategy_configs investing_pack []) = [3, 1, 1, 1, 3]"
proof -
  have i: "de_id investing_pack = ''investing''" "distinct (map strategy_descriptor.sd_id (de_strategies investing_pack))"
    using builtin_ids by (simp_all add: builtin_packs_def builtin_strategies)
  obtain a b c where s: "de_strategies investing_pack = [a, b, c]"
    using arg_cong[OF builtin_strategies(2), of length] by (auto simp: length_Suc_conv numeral_3_eq_3)
  have n: "strategy_descriptor.sd_id a = ''value''" "strategy_descriptor.sd_id b = ''momentum''"
    "strategy_descriptor.sd_id c = ''defensive''" using builtin_strategies(2) unfolding s by simp_all
  have m: "map (\<lambda>(n, pol). (n, selection_enabled investing_pack pol, active_strategies investing_pack pol))
      (strategy_configs investing_pack []) =
      [(''single'', False, [a, b, c]), (''value-only'', True, [a]), (''momentum-only'', True, [b]),
       (''defensive-only'', True, [c]), (''selector'', True, [a, b, c])]"
    using strategy_matrix_isolates_lens[OF i, of "[]"] unfolding s by (simp add: n)
  from arg_cong[OF m, of "map fst"] arg_cong[OF m, of "map (\<lambda>x. length (snd (snd x)))"]
  show ?thesis by (simp add: case_prod_unfold comp_def numeral_3_eq_3)
qed

section \<open>Held-out evaluation\<close>

lemma run_configs_labels:
  assumes "run_configs l cfgs scs = Inr cells"
  shows "list_all (is_label \<circ> dn_label) (concat (map (rp_decisions \<circ> mx_report) cells))"
proof -
  have cell: "list_all (is_label \<circ> dn_label) (rp_decisions (mx_report c))" if r: "run_cell l name pol sc = Inr c" for name pol sc c
  proof -
    obtain h rep where "run_scenario h (lb_fresh l) sc = Inr rep" "mx_report c = rep"
      using r by (auto simp: run_cell_def dest!: ebind_InrD split: sum.splits)
    thus ?thesis using run_report by blast
  qed
  have "list_all2 (\<lambda>x c. list_all (is_label \<circ> dn_label) (rp_decisions (mx_report c))) (List.product cfgs scs) cells"
    using collect_length[OF assms[unfolded run_configs_def]] by (rule list_all2_mono) (auto dest: cell)
  hence "\<forall>c \<in> set cells. list_all (is_label \<circ> dn_label) (rp_decisions (mx_report c))"
    by (induction rule: list_all2_induct) (auto simp: comp_def)
  thus ?thesis by (induction cells) auto
qed

lemma mean_squared_unit:
  assumes "list_all (unit_val \<circ> f) ds" "list_all (is_label \<circ> dn_label) ds" "ds \<noteq> []" "length ds < 2 ^ 53"
  shows "unit_val (mean (map (\<lambda>d. squared_error (f d) (dn_label d)) ds))"
  by (rule mean_unit) (use assms squared_error_unit in \<open>auto simp: list_all_iff\<close>)

lemma split_error_None: "split_error n k = None \<longleftrightarrow> 0 < k \<and> k < int n"
  by (auto simp: split_error_def)

lemma list_all_drop: "list_all P xs \<Longrightarrow> list_all P (drop n xs)"
  by (auto simp: list_all_iff dest: in_set_dropD)

lemma count_samples_None: "foldl count_sample None ss = None"
  by (induction ss) (simp_all add: count_sample_def)

lemma count_samples_NaN:
  "s \<in> set ss \<Longrightarrow> cs_confidence s = NaN \<Longrightarrow> foldl count_sample b ss = None"
proof (induction ss arbitrary: b)
  case (Cons x ss)
  show ?case
  proof (cases "x = s")
    case True
    have "bin_index NaN = None" by (simp add: bin_index_def clamp01_def lit_5_count)
    hence "count_sample b x = None" using True Cons.prems(2) by (simp add: count_sample_def split: option.split)
    thus ?thesis by (simp add: count_samples_None)
  qed (use Cons in simp)
qed simp

text \<open>Fitting panics exactly when a confidence is not a number.\<close>

lemma fit_calibration_None: "fit_calibration ss = None \<longleftrightarrow> (\<exists>s \<in> set ss. cs_confidence s = NaN)"
proof (cases "\<exists>s \<in> set ss. cs_confidence s = NaN")
  case True
  thus ?thesis using count_samples_NaN by (auto simp: fit_calibration_def)
next
  case False
  let ?z = "replicate calibrationBinCount (0 :: int, 0 :: int)"
  have z: "list_all bin_ok ?z" by (simp add: list_all_length bin_ok_def)
  obtain bins where "foldl count_sample (Some ?z) ss = Some bins"
    using count_samples_ok[of ss ?z] z False by auto
  thus ?thesis using False by (simp add: fit_calibration_def)
qed

text \<open>
  C29: a walk-forward evaluation is out of sample. It fails with the replay's error when a scenario
  does not replay, and otherwise works on the decisions of the scenarios in order: it is then
  refused exactly when the split would leave no decision to train on or none to evaluate, and it
  panics exactly when the confidence of a training decision is not a number. A result's curve is
  fitted on the first decisions alone, and both scores, the raw one and the calibrated one, are
  the mean squared error over the remaining decisions alone, at least one, against labels that are
  0 or 1; the raw score lies in the unit interval when the recorded confidences do.
\<close>

theorem walk_forward_holds_out:
  "case run_matrix l pol scs [(''walkforward'', effective_matrix_scoring pol)] of
     Inl err \<Rightarrow> walk_forward l pol scs n = Some (Inl err)
   | Inr cells \<Rightarrow>
      let ds = concat (map (rp_decisions \<circ> mx_report) cells); train = take (nat n) ds; held_out = drop (nat n) ds in
      map mx_scenario cells = map sk_name scs \<and>
      ((\<exists>err. walk_forward l pol scs n = Some (Inl err)) \<longleftrightarrow> n \<le> 0 \<or> int (length ds) \<le> n) \<and>
      (walk_forward l pol scs n = None \<longleftrightarrow>
         0 < n \<and> n < int (length ds) \<and> (\<exists>d \<in> set train. raw_confidence d = NaN)) \<and>
      (\<forall>res. walk_forward l pol scs n = Some (Inr res) \<longrightarrow>
         wk_train_decisions res = n \<and> wk_train_decisions res + wk_eval_decisions res = int (length ds) \<and>
         0 < wk_eval_decisions res \<and>
         fit_calibration (map (\<lambda>d. \<lparr>cs_confidence = raw_confidence d, cs_success = dn_label d = 1\<rparr>) train) =
           Some (wk_curve res) \<and>
         wk_brier_raw res = mean (map (\<lambda>d. squared_error (raw_confidence d) (dn_label d)) held_out) \<and>
         wk_brier_calibrated res =
           mean (map (\<lambda>d. squared_error (curve_apply (wk_curve res) (raw_confidence d)) (dn_label d)) held_out) \<and>
         list_all (\<lambda>d. dn_label d = 0 \<or> dn_label d = 1) ds \<and>
         (list_all (unit_val \<circ> raw_confidence) ds \<and> length ds < 2 ^ 53 \<longrightarrow> unit_val (wk_brier_raw res)))"
proof (cases "run_matrix l pol scs [(''walkforward'', effective_matrix_scoring pol)]")
  case (Inl err)
  thus ?thesis by (simp add: walk_forward_def)
next
  case (Inr cells)
  define ds where "ds = concat (map (rp_decisions \<circ> mx_report) cells)"
  have run: "run_configs l [(''walkforward'', override_scoring pol (effective_matrix_scoring pol))] scs = Inr cells"
    using Inr by (simp add: run_matrix_def Let_def)
  have names: "map mx_scenario cells = map sk_name scs"
    using arg_cong[OF run_configs_cells[OF run], of "map snd"] by (simp add: comp_def)
  have lab: "list_all (is_label \<circ> dn_label) ds" unfolding ds_def by (rule run_configs_labels[OF run])
  hence labels: "list_all (\<lambda>d. dn_label d = 0 \<or> dn_label d = 1) ds" by (auto simp: list_all_iff is_label_def)
  have samples: "map (\<lambda>d. \<lparr>cs_confidence = raw_confidence d, cs_success = feq (dn_label d) 1\<rparr>) (take (nat n) ds) =
      map (\<lambda>d. \<lparr>cs_confidence = raw_confidence d, cs_success = dn_label d = 1\<rparr>) (take (nat n) ds)"
    by (rule map_cong[OF refl]) (use labels in \<open>auto simp: list_all_iff feq_iff dest!: in_set_takeD\<close>)
  have unit: "unit_val (mean (map (\<lambda>d. squared_error (raw_confidence d) (dn_label d)) (drop (nat n) ds)))"
    if "list_all (unit_val \<circ> raw_confidence) ds" "length ds < 2 ^ 53" "0 < n" "n < int (length ds)"
    by (rule mean_squared_unit) (use that lab in \<open>auto intro: list_all_drop\<close>)
  let ?fit = "fit_calibration (map (\<lambda>d. \<lparr>cs_confidence = raw_confidence d, cs_success = dn_label d = 1\<rparr>) (take (nat n) ds))"
  have wf: "walk_forward l pol scs n = (case split_error (length ds) n of Some err \<Rightarrow> Some (Inl err)
      | None \<Rightarrow> (case ?fit of
          None \<Rightarrow> None
        | Some curve \<Rightarrow> Some (Inr \<lparr>wk_train_decisions = int (length (take (nat n) ds)), wk_eval_decisions = int (length (drop (nat n) ds)),
            wk_brier_raw = mean (map (\<lambda>d. squared_error (raw_confidence d) (dn_label d)) (drop (nat n) ds)),
            wk_brier_calibrated = mean (map (\<lambda>d. squared_error (curve_apply curve (raw_confidence d)) (dn_label d)) (drop (nat n) ds)),
            wk_curve = curve\<rparr>)))"
    unfolding samples[symmetric] by (simp only: walk_forward_def Inr sum.case Let_def ds_def)
  have nan: "?fit = None \<longleftrightarrow> (\<exists>d \<in> set (take (nat n) ds). raw_confidence d = NaN)"
    by (simp add: fit_calibration_None)
  show ?thesis
  proof (cases "split_error (length ds) n")
    case None
    hence n: "0 < n" "n < int (length ds)" by (simp_all add: split_error_None)
    have len: "int (length (take (nat n) ds)) = n" "int (length (drop (nat n) ds)) = int (length ds) - n" using n by auto
    show ?thesis
    proof (cases ?fit)
      case N: None
      hence r: "walk_forward l pol scs n = None" unfolding wf None by simp
      show ?thesis using nan N n names unfolding Inr sum.case Let_def ds_def[symmetric] r by simp
    next
      case (Some curve)
      hence r: "walk_forward l pol scs n = Some (Inr \<lparr>wk_train_decisions = n, wk_eval_decisions = int (length ds) - n,
            wk_brier_raw = mean (map (\<lambda>d. squared_error (raw_confidence d) (dn_label d)) (drop (nat n) ds)),
            wk_brier_calibrated = mean (map (\<lambda>d. squared_error (curve_apply curve (raw_confidence d)) (dn_label d)) (drop (nat n) ds)),
            wk_curve = curve\<rparr>)" unfolding wf None len by simp
      show ?thesis using nan Some n names labels unit unfolding Inr sum.case Let_def ds_def[symmetric] r by auto
    qed
  next
    case (Some err)
    hence n: "n \<le> 0 \<or> int (length ds) \<le> n" by (auto simp: split_error_def split: if_splits)
    have r: "walk_forward l pol scs n = Some (Inl err)" unfolding wf Some by simp
    show ?thesis using n names unfolding Inr sum.case Let_def ds_def[symmetric] r by auto
  qed
qed

definition sample_lab :: lab where
  "sample_lab =
     \<lparr>lb_env = sample_env, lb_hashing = sample_hashing, lb_registry = new_registry [], lb_provider_for = (\<lambda>_. Inr outage),
      lb_fresh = ''plan_1''\<rparr>"

lemma sample_cell:
  "\<exists>c. run_cell sample_lab name (override_scoring noise_policy cfg) noise_scenario = Inr c \<and>
     length (rp_decisions (mx_report c)) = 1"
proof -
  let ?pol = "override_scoring noise_policy cfg"
  obtain hs where hs: "new_harness sample_env sample_hashing (new_registry []) ?pol outage = Inr hs"
    using sample_router[of zero_time ?pol outage] by (auto simp: new_harness_def sample_env_def)
  obtain v where v: "evaluate (hs_engine hs (scenario_start noise_scenario)) ''plan_1'' (sk_goal noise_scenario) '''' = Inr v"
    using sample_initial[OF hs, of "sk_goal noise_scenario"] by (auto simp: noise_scenario_def zero_goal_def)
  have pol: "policy_for ?pol ''generic'' = policy_for noise_policy ''generic''"
    by (simp add: policy_for_def override_scoring_def update_investing_def update_conv)
  have k: "effective_ignore_kinds (fst (registry_get (new_registry []) (g_domain (sk_goal noise_scenario)))) ?pol = [''noise'']"
    using builtin_fallback
    by (simp add: noise_scenario_def zero_goal_def registry_get_def effective_ignore_kinds_def pol)
       (simp add: noise_policy_def policy_for_def)
  have ref: "\<exists>reason. replan (hs_engine hs (te_at ev)) (sk_goal noise_scenario) cur msg (te_kind ev) (te_payload ev) =
      Inr \<lparr>rr_material = False, rr_reason = reason, rr_candidate = zero_version\<rparr> \<and> \<not> te_should_kill ev"
    if "ev \<in> set (sk_events noise_scenario)" for ev cur msg
    using gated_replan[OF hs, of "te_kind ev" "sk_goal noise_scenario", unfolded k] that by (simp add: noise_scenario_def)
  obtain r where r: "replay_events hs (sk_goal noise_scenario) (sk_events noise_scenario) (start_replay v) = Inr r"
    using replay_refused_ends[OF ref] by blast
  have len: "length (ry_decisions r) = 1"
    using replay_recorded[OF r start_counted(1)] arg_cong[of _ _ length]
    by (fastforce simp: start_counted(2) noise_scenario_def)
  show ?thesis
    using hs run_scenario_Inr[OF v r] len
    by (simp add: run_cell_def sample_lab_def report_of_def Let_def noise_scenario_def)
qed

theorem walk_forward_holds_out_witness:
  "\<exists>d1 d2 err. walk_forward sample_lab noise_policy [noise_scenario, noise_scenario] 2 = Some (Inl err) \<and>
     (\<forall>err. walk_forward sample_lab noise_policy [noise_scenario, noise_scenario] 1 \<noteq> Some (Inl err)) \<and>
     (\<forall>res. walk_forward sample_lab noise_policy [noise_scenario, noise_scenario] 1 = Some (Inr res) \<longrightarrow>
        fit_calibration [\<lparr>cs_confidence = raw_confidence d1, cs_success = dn_label d1 = 1\<rparr>] = Some (wk_curve res) \<and>
        wk_brier_calibrated res = mean [squared_error (curve_apply (wk_curve res) (raw_confidence d2)) (dn_label d2)])"
proof -
  let ?cfg = "effective_matrix_scoring noise_policy"
  obtain c where c: "run_cell sample_lab ''walkforward'' (override_scoring noise_policy ?cfg) noise_scenario = Inr c"
    "length (rp_decisions (mx_report c)) = 1" using sample_cell by blast
  hence m: "run_matrix sample_lab noise_policy [noise_scenario, noise_scenario] [(''walkforward'', ?cfg)] = Inr [c, c]"
    by (simp add: run_matrix_def run_configs_def)
  obtain d where d: "rp_decisions (mx_report c) = [d]" using c(2) by (auto simp: length_Suc_conv)
  note w = walk_forward_holds_out[of sample_lab noise_policy "[noise_scenario, noise_scenario]", unfolded m sum.case Let_def]
  show ?thesis using w[of 2] w[of 1] by (intro exI[of _ d]) (simp add: d)
qed

end
