(* ===== verification/Market_Cache.thy ===== *)
theory Market_Cache
  imports Market_Data Go_Time "HOL-Library.AList"
begin

text \<open>
  \<open>internal/marketdata/cache.go\<close>: the caching decorator of a market data provider. Every
  keyed read (a quote, fundamentals, or one range of bars) is a task that a caller takes through
  the lookup, the flight shared with concurrent callers of the key, the vendor and the store. The
  sections a mutex protects are single steps and any number of callers interleave, so the lemmas
  hold for every schedule. Vendors are a relation between tasks and the answers they may give; a
  vendor may also panic. Go's map iteration order is an argument of the eviction.
\<close>

section \<open>Configuration and keys\<close>

record cache_config =
  cg_quote_ttl :: dur
  cg_fundamentals_ttl :: dur
  cg_bars_ttl :: dur
  cg_max_entries :: int

definition with_defaults :: "cache_config \<Rightarrow> cache_config" where
  "with_defaults c = (if cg_max_entries c \<le> 0 then c\<lparr>cg_max_entries := 4096\<rparr> else c)"

datatype answer = AQuote quote | AFunds fundamentals | ABars "bar list"

text \<open>The last argument of a range of bars is the instant before which history is immutable.\<close>

datatype task = QuoteTask string time | FundsTask string time | BarsTask string time time time

definition unix_seconds :: "time \<Rightarrow> int" where
  "unix_seconds t = t div second - 62135596800"

definition truncate_to :: "dur \<Rightarrow> time \<Rightarrow> time" where
  "truncate_to d t = t - t mod d"

fun task_ttl :: "cache_config \<Rightarrow> task \<Rightarrow> dur" where
  "task_ttl cfg (QuoteTask _ _) = cg_quote_ttl cfg"
| "task_ttl cfg (FundsTask _ _) = cg_fundamentals_ttl cfg"
| "task_ttl cfg (BarsTask _ _ _ _) = cg_bars_ttl cfg"

fun task_key :: "cache_config \<Rightarrow> task \<Rightarrow> string" where
  "task_key cfg (QuoteTask ticker t) =
     ''quote|'' @ ticker @ ''|'' @ dec_int (unix_seconds (truncate_to (cg_quote_ttl cfg) t))"
| "task_key cfg (FundsTask ticker t) =
     ''funds|'' @ ticker @ ''|'' @ dec_int (unix_seconds (truncate_to (cg_fundamentals_ttl cfg) t))"
| "task_key cfg (BarsTask ticker from to settled) =
     ''bars|'' @ ticker @ ''|'' @ format_date from @ ''|'' @ format_date to"

text \<open>The lookahead guard: whether a value found under the key may be served to this task.\<close>

fun serves :: "task \<Rightarrow> answer \<Rightarrow> bool" where
  "serves (QuoteTask _ t) (AQuote q) = (\<not> t < qt_as_of q)"
| "serves (FundsTask _ t) (AFunds f) = (\<not> t < fu_as_of f)"
| "serves (BarsTask _ _ _ _) (ABars _) = True"
| "serves _ _ = False"

definition cacheable_err :: "go_error \<Rightarrow> bool" where
  "cacheable_err err =
     (if errors_is err EMarketUnavailable then False
      else errors_is err EMarketNotFound \<or> errors_is err EMarketNotSupported)"

text \<open>How long an answer is kept; 0 is forever.\<close>

fun keep_for :: "cache_config \<Rightarrow> task \<Rightarrow> go_error + answer \<Rightarrow> dur" where
  "keep_for cfg (BarsTask _ _ to settled) (Inr _) = (if to < settled then 0 else cg_bars_ttl cfg)"
| "keep_for cfg t _ = task_ttl cfg t"

section \<open>The entries\<close>

record market_entry =
  ce_result :: "go_error + answer"
  ce_expires :: "time option"

type_synonym entries = "(string \<times> market_entry) list"

definition expired :: "time \<Rightarrow> market_entry \<Rightarrow> bool" where
  "expired now e = (case ce_expires e of None \<Rightarrow> False | Some x \<Rightarrow> x < now)"

definition lookup_entry :: "time \<Rightarrow> string \<Rightarrow> entries \<Rightarrow> market_entry option \<times> entries" where
  "lookup_entry now key es =
     (case map_of es key of
        None \<Rightarrow> (None, es)
      | Some e \<Rightarrow> if expired now e then (None, AList.delete key es) else (Some e, es))"

fun evict_until :: "int \<Rightarrow> string list \<Rightarrow> entries \<Rightarrow> entries" where
  "evict_until max_entries [] es = es"
| "evict_until max_entries (k # ks) es =
     (if int (length es) < max_entries then es else evict_until max_entries ks (AList.delete k es))"

definition reclaim :: "time \<Rightarrow> entries \<Rightarrow> entries" where
  "reclaim now es = filter (\<lambda>(k, e). \<not> expired now e) es"

text \<open>\<open>order\<close> is the order in which the second loop happens to visit the keys.\<close>

definition store_entry :: "cache_config \<Rightarrow> time \<Rightarrow> string list \<Rightarrow> string \<Rightarrow> go_error + answer \<Rightarrow> dur \<Rightarrow> entries \<Rightarrow> entries" where
  "store_entry cfg now order key r ttl es =
     (let es1 = (if cg_max_entries cfg \<le> int (length es)
                 then evict_until (cg_max_entries cfg) order (reclaim now es) else es)
      in AList.update key \<lparr>ce_result = r, ce_expires = (if 0 < ttl then Some (now + ttl) else None)\<rparr> es1)"

section \<open>Callers\<close>

datatype phase =
    Idle
  | Looking task
  | Entering task
  | Leading task nat
  | Fetching task nat
  | Storing task nat "go_error + answer"
  | Retiring task nat "go_error + answer"
  | Waiting task nat
  | Finishing task "go_error + answer"
  | Asking task
  | Returned task "go_error + answer"
  | Crashed task nat

record market_cache =
  mc_now :: time
  mc_entries :: entries
  mc_inflight :: "string \<Rightarrow> nat option"
  mc_next :: nat
  mc_done :: "nat \<Rightarrow> (go_error + answer) option"
  mc_phase :: "nat \<Rightarrow> phase"

definition new_caching_provider :: "time \<Rightarrow> market_cache" where
  "new_caching_provider now =
     \<lparr>mc_now = now, mc_entries = [], mc_inflight = (\<lambda>_. None), mc_next = 0, mc_done = (\<lambda>_. None),
      mc_phase = (\<lambda>_. Idle)\<rparr>"

definition set_phase :: "nat \<Rightarrow> phase \<Rightarrow> market_cache \<Rightarrow> market_cache" where
  "set_phase c p s = s\<lparr>mc_phase := (mc_phase s)(c := p)\<rparr>"

definition after_hit :: "task \<Rightarrow> market_entry option \<Rightarrow> phase" where
  "after_hit t hit =
     (case hit of
        None \<Rightarrow> Entering t
      | Some e \<Rightarrow> (case ce_result e of
            Inl err \<Rightarrow> Returned t (Inl err)
          | Inr a \<Rightarrow> if serves t a then Returned t (Inr a) else Entering t))"

definition storable :: "go_error + answer \<Rightarrow> bool" where
  "storable r = (case r of Inl err \<Rightarrow> cacheable_err err | Inr _ \<Rightarrow> True)"

definition finish :: "task \<Rightarrow> go_error + answer \<Rightarrow> phase" where
  "finish t r =
     (case r of
        Inl err \<Rightarrow> Returned t (Inl err)
      | Inr a \<Rightarrow> if serves t a then Returned t (Inr a) else Asking t)"

text \<open>
  One step of a caller, None when it has none: \<open>order\<close> is the iteration order of an eviction and
  \<open>reply\<close> what the vendor answers, if this step asks it.
\<close>

definition advance :: "cache_config \<Rightarrow> nat \<Rightarrow> string list \<Rightarrow> go_error + answer \<Rightarrow> market_cache \<Rightarrow> market_cache option" where
  "advance cfg c order reply s =
     (case mc_phase s c of
        Idle \<Rightarrow> None
      | Looking t \<Rightarrow>
          (case lookup_entry (mc_now s) (task_key cfg t) (mc_entries s) of
             (hit, es) \<Rightarrow> Some (set_phase c (after_hit t hit) (s\<lparr>mc_entries := es\<rparr>)))
      | Entering t \<Rightarrow>
          (case mc_inflight s (task_key cfg t) of
             Some f \<Rightarrow> Some (set_phase c (Waiting t f) s)
           | None \<Rightarrow> Some (set_phase c (Leading t (mc_next s))
               (s\<lparr>mc_inflight := (mc_inflight s)(task_key cfg t \<mapsto> mc_next s), mc_next := mc_next s + 1\<rparr>)))
      | Leading t f \<Rightarrow>
          (case lookup_entry (mc_now s) (task_key cfg t) (mc_entries s) of
             (hit, es) \<Rightarrow> Some (set_phase c
               (case hit of Some e \<Rightarrow> Retiring t f (ce_result e) | None \<Rightarrow> Fetching t f) (s\<lparr>mc_entries := es\<rparr>)))
      | Fetching t f \<Rightarrow>
          Some (set_phase c (if storable reply then Storing t f reply else Retiring t f reply) s)
      | Storing t f r \<Rightarrow>
          Some (set_phase c (Retiring t f r)
            (s\<lparr>mc_entries := store_entry cfg (mc_now s) order (task_key cfg t) r (keep_for cfg t r) (mc_entries s)\<rparr>))
      | Retiring t f r \<Rightarrow>
          Some (set_phase c (Finishing t r)
            (s\<lparr>mc_inflight := (mc_inflight s)(task_key cfg t := None), mc_done := (mc_done s)(f \<mapsto> r)\<rparr>))
      | Waiting t f \<Rightarrow> map_option (\<lambda>r. set_phase c (Finishing t r) s) (mc_done s f)
      | Finishing t r \<Rightarrow> Some (set_phase c (finish t r) s)
      | Asking t \<Rightarrow> Some (set_phase c (Returned t reply) s)
      | Returned t r \<Rightarrow> None
      | Crashed t f \<Rightarrow> None)"

text \<open>What the vendor is asked in a phase.\<close>

fun asked :: "phase \<Rightarrow> task option" where
  "asked (Fetching t f) = Some t"
| "asked (Asking t) = Some t"
| "asked _ = None"

text \<open>
  A step of the whole: time passes, a caller starts a read (bypassing the cache when the method's
  caching is off), a caller advances, or the vendor panics under the leader of a flight.
\<close>

inductive cache_step :: "cache_config \<Rightarrow> (task \<Rightarrow> go_error + answer \<Rightarrow> bool) \<Rightarrow> market_cache \<Rightarrow> market_cache \<Rightarrow> bool"
  for cfg vendor where
  tick: "mc_now s \<le> t \<Longrightarrow> cache_step cfg vendor s (s\<lparr>mc_now := t\<rparr>)"
| start: "mc_phase s c = Idle \<Longrightarrow>
    cache_step cfg vendor s (set_phase c (if task_ttl cfg t \<le> 0 then Asking t else Looking t) s)"
| move: "advance cfg c order reply s = Some s' \<Longrightarrow> set order = fst ` set (mc_entries s) \<Longrightarrow>
    (\<And>t. asked (mc_phase s c) = Some t \<Longrightarrow> vendor t reply) \<Longrightarrow> cache_step cfg vendor s s'"
| panic: "mc_phase s c = Fetching t f \<Longrightarrow> cache_step cfg vendor s (set_phase c (Crashed t f) s)"

inductive_cases cache_stepE: "cache_step cfg vendor s s'"

inductive cache_reach :: "cache_config \<Rightarrow> (task \<Rightarrow> go_error + answer \<Rightarrow> bool) \<Rightarrow> market_cache \<Rightarrow> bool"
  for cfg vendor where
  reach_new: "cache_reach cfg vendor (new_caching_provider now)"
| reach_step: "cache_reach cfg vendor s \<Longrightarrow> cache_step cfg vendor s s' \<Longrightarrow> cache_reach cfg vendor s'"

section \<open>Flights\<close>

text \<open>The flight a caller leads.\<close>

fun holds :: "phase \<Rightarrow> (task \<times> nat) option" where
  "holds (Leading t f) = Some (t, f)"
| "holds (Fetching t f) = Some (t, f)"
| "holds (Storing t f r) = Some (t, f)"
| "holds (Retiring t f r) = Some (t, f)"
| "holds (Crashed t f) = Some (t, f)"
| "holds _ = None"

fun awaited :: "phase \<Rightarrow> (task \<times> nat) option" where
  "awaited (Waiting t f) = Some (t, f)"
| "awaited _ = None"

text \<open>
  A leader's flight is the one in progress under its key, unresolved; every flight in progress has
  exactly one leader; and a flight somebody waits for is in progress or resolved.
\<close>

definition flights_ok :: "cache_config \<Rightarrow> market_cache \<Rightarrow> bool" where
  "flights_ok cfg s \<longleftrightarrow>
     (\<forall>c t f. holds (mc_phase s c) = Some (t, f) \<longrightarrow>
        mc_inflight s (task_key cfg t) = Some f \<and> mc_done s f = None \<and> f < mc_next s) \<and>
     (\<forall>c c' t t' f. holds (mc_phase s c) = Some (t, f) \<longrightarrow> holds (mc_phase s c') = Some (t', f) \<longrightarrow> c = c') \<and>
     (\<forall>k f. mc_inflight s k = Some f \<longrightarrow> (\<exists>c t. holds (mc_phase s c) = Some (t, f) \<and> task_key cfg t = k)) \<and>
     (\<forall>c t f. awaited (mc_phase s c) = Some (t, f) \<longrightarrow>
        mc_done s f \<noteq> None \<or> mc_inflight s (task_key cfg t) = Some f) \<and>
     (\<forall>f. mc_next s \<le> f \<longrightarrow> mc_done s f = None)"

lemma set_phase_simps [simp]:
  "mc_now (set_phase c p s) = mc_now s" "mc_entries (set_phase c p s) = mc_entries s"
  "mc_inflight (set_phase c p s) = mc_inflight s" "mc_next (set_phase c p s) = mc_next s"
  "mc_done (set_phase c p s) = mc_done s" "mc_phase (set_phase c p s) = (mc_phase s)(c := p)"
  by (simp_all add: set_phase_def)

lemma flights_frame:
  assumes "flights_ok cfg s" "holds p = holds (mc_phase s c)" "awaited p = None"
  shows "flights_ok cfg (set_phase c p (s\<lparr>mc_entries := es\<rparr>))"
proof -
  have h: "holds (((mc_phase s)(c := p)) x) = holds (mc_phase s x)" for x using assms(2) by simp
  have w: "awaited (((mc_phase s)(c := p)) x) = Some y \<Longrightarrow> awaited (mc_phase s x) = Some y" for x y
    using assms(3) by (simp split: if_splits)
  have f: "mc_phase (s\<lparr>mc_entries := es\<rparr>) = mc_phase s" "mc_inflight (s\<lparr>mc_entries := es\<rparr>) = mc_inflight s"
    "mc_done (s\<lparr>mc_entries := es\<rparr>) = mc_done s" "mc_next (s\<lparr>mc_entries := es\<rparr>) = mc_next s" by simp_all
  show ?thesis using assms(1) w unfolding flights_ok_def set_phase_simps f h by blast
qed

lemma flights_phase:
  "flights_ok cfg s \<Longrightarrow> holds p = holds (mc_phase s c) \<Longrightarrow> awaited p = None \<Longrightarrow> flights_ok cfg (set_phase c p s)"
  using flights_frame[of cfg s p c "mc_entries s"] by simp

lemma flights_wait:
  assumes "flights_ok cfg s" "mc_phase s c = Entering t" "mc_inflight s (task_key cfg t) = Some f"
  shows "flights_ok cfg (set_phase c (Waiting t f) s)"
proof -
  have h: "holds (((mc_phase s)(c := Waiting t f)) x) = holds (mc_phase s x)" for x using assms(2) by simp
  have "mc_done s f = None"
    using assms(1,3) unfolding flights_ok_def by blast
  thus ?thesis using assms unfolding flights_ok_def set_phase_simps h by (auto split: if_splits)
qed

lemma flights_lead:
  assumes "flights_ok cfg s" "mc_phase s c = Entering t" "mc_inflight s (task_key cfg t) = None"
  shows "flights_ok cfg (set_phase c (Leading t (mc_next s))
    (s\<lparr>mc_inflight := (mc_inflight s)(task_key cfg t \<mapsto> mc_next s), mc_next := mc_next s + 1\<rparr>))"
proof -
  have h1: "\<And>x u f. holds (mc_phase s x) = Some (u, f) \<Longrightarrow> mc_inflight s (task_key cfg u) = Some f \<and> mc_done s f = None \<and> f < mc_next s"
    and h2: "\<And>x x' u u' f. holds (mc_phase s x) = Some (u, f) \<Longrightarrow> holds (mc_phase s x') = Some (u', f) \<Longrightarrow> x = x'"
    and h3: "\<And>k f. mc_inflight s k = Some f \<Longrightarrow> \<exists>x u. holds (mc_phase s x) = Some (u, f) \<and> task_key cfg u = k"
    and h4: "\<And>x u f. awaited (mc_phase s x) = Some (u, f) \<Longrightarrow> mc_done s f \<noteq> None \<or> mc_inflight s (task_key cfg u) = Some f"
    and h5: "\<And>f. mc_next s \<le> f \<Longrightarrow> mc_done s f = None"
    using assms(1) unfolding flights_ok_def by blast+
  have ne: "holds (mc_phase s x) = Some (u, f) \<Longrightarrow> x \<noteq> c" for x u f using assms(2) by auto
  let ?s = "s\<lparr>mc_inflight := (mc_inflight s)(task_key cfg t \<mapsto> mc_next s), mc_next := mc_next s + 1\<rparr>"
  have f: "mc_phase ?s = mc_phase s" "mc_done ?s = mc_done s" "mc_next ?s = mc_next s + 1"
    "mc_inflight ?s = (mc_inflight s)(task_key cfg t \<mapsto> mc_next s)" by simp_all
  show ?thesis
    unfolding flights_ok_def set_phase_simps f
  proof (intro conjI allI impI)
    fix x u f assume "holds (((mc_phase s)(c := Leading t (mc_next s))) x) = Some (u, f)"
    thus "((mc_inflight s)(task_key cfg t \<mapsto> mc_next s)) (task_key cfg u) = Some f"
      using h1[of x u f] assms(3) by (auto split: if_splits)
  next
    fix x u f assume "holds (((mc_phase s)(c := Leading t (mc_next s))) x) = Some (u, f)"
    thus "mc_done s f = None" using h1[of x u f] h5 by (auto split: if_splits)
  next
    fix x u f assume "holds (((mc_phase s)(c := Leading t (mc_next s))) x) = Some (u, f)"
    thus "f < mc_next s + 1" using h1[of x u f] by (auto split: if_splits)
  next
    fix x x' u u' f assume "holds (((mc_phase s)(c := Leading t (mc_next s))) x) = Some (u, f)"
      "holds (((mc_phase s)(c := Leading t (mc_next s))) x') = Some (u', f)"
    thus "x = x'" using h1 h2 by (auto split: if_splits)
  next
    fix k f assume a: "((mc_inflight s)(task_key cfg t \<mapsto> mc_next s)) k = Some f"
    show "\<exists>x u. holds (((mc_phase s)(c := Leading t (mc_next s))) x) = Some (u, f) \<and> task_key cfg u = k"
    proof (cases "k = task_key cfg t")
      case True thus ?thesis using a by (intro exI[of _ c] exI[of _ t]) simp
    next
      case False
      then obtain x u where "holds (mc_phase s x) = Some (u, f)" "task_key cfg u = k" using a h3 by fastforce
      thus ?thesis using ne by (intro exI[of _ x] exI[of _ u]) auto
    qed
  next
    fix x u f assume "awaited (((mc_phase s)(c := Leading t (mc_next s))) x) = Some (u, f)"
    hence "mc_done s f \<noteq> None \<or> mc_inflight s (task_key cfg u) = Some f" using h4[of x u f] by (auto split: if_splits)
    thus "mc_done s f \<noteq> None \<or> ((mc_inflight s)(task_key cfg t \<mapsto> mc_next s)) (task_key cfg u) = Some f"
      using assms(3) by auto
  next
    fix f assume "mc_next s + 1 \<le> f"
    thus "mc_done s f = None" using h5 by simp
  qed
qed

lemma flights_retire:
  assumes "flights_ok cfg s" "mc_phase s c = Retiring t f r"
  shows "flights_ok cfg (set_phase c (Finishing t r)
    (s\<lparr>mc_inflight := (mc_inflight s)(task_key cfg t := None), mc_done := (mc_done s)(f \<mapsto> r)\<rparr>))"
proof -
  have h1: "\<And>x u g. holds (mc_phase s x) = Some (u, g) \<Longrightarrow> mc_inflight s (task_key cfg u) = Some g \<and> mc_done s g = None \<and> g < mc_next s"
    and h2: "\<And>x x' u u' g. holds (mc_phase s x) = Some (u, g) \<Longrightarrow> holds (mc_phase s x') = Some (u', g) \<Longrightarrow> x = x'"
    and h3: "\<And>k g. mc_inflight s k = Some g \<Longrightarrow> \<exists>x u. holds (mc_phase s x) = Some (u, g) \<and> task_key cfg u = k"
    and h4: "\<And>x u g. awaited (mc_phase s x) = Some (u, g) \<Longrightarrow> mc_done s g \<noteq> None \<or> mc_inflight s (task_key cfg u) = Some g"
    and h5: "\<And>g. mc_next s \<le> g \<Longrightarrow> mc_done s g = None"
    using assms(1) unfolding flights_ok_def by blast+
  have me: "mc_inflight s (task_key cfg t) = Some f" "f < mc_next s" using h1[of c t f] assms(2) by simp_all
  have other: "g \<noteq> f \<and> task_key cfg u \<noteq> task_key cfg t" if "x \<noteq> c" "holds (mc_phase s x) = Some (u, g)" for x u g
  proof -
    have "g \<noteq> f" using h2[of x u g c t] that assms(2) by auto
    thus ?thesis using h1[OF that(2)] me by auto
  qed
  let ?s = "s\<lparr>mc_inflight := (mc_inflight s)(task_key cfg t := None), mc_done := (mc_done s)(f \<mapsto> r)\<rparr>"
  have f: "mc_phase ?s = mc_phase s" "mc_next ?s = mc_next s" "mc_done ?s = (mc_done s)(f \<mapsto> r)"
    "mc_inflight ?s = (mc_inflight s)(task_key cfg t := None)" by simp_all
  show ?thesis
    unfolding flights_ok_def set_phase_simps f
  proof (intro conjI allI impI)
    fix x u g assume "holds (((mc_phase s)(c := Finishing t r)) x) = Some (u, g)"
    hence x: "x \<noteq> c" "holds (mc_phase s x) = Some (u, g)" by (auto split: if_splits)
    show "((mc_inflight s)(task_key cfg t := None)) (task_key cfg u) = Some g" using other[OF x] h1[OF x(2)] by simp
    show "((mc_done s)(f \<mapsto> r)) g = None" using other[OF x] h1[OF x(2)] by simp
    show "g < mc_next s" using h1[OF x(2)] by simp
  next
    fix x x' u u' g assume "holds (((mc_phase s)(c := Finishing t r)) x) = Some (u, g)"
      "holds (((mc_phase s)(c := Finishing t r)) x') = Some (u', g)"
    thus "x = x'" using h2 by (auto split: if_splits)
  next
    fix k g assume a: "((mc_inflight s)(task_key cfg t := None)) k = Some g"
    hence k: "k \<noteq> task_key cfg t" "mc_inflight s k = Some g" by (auto split: if_splits)
    then obtain x u where x: "holds (mc_phase s x) = Some (u, g)" "task_key cfg u = k" using h3 by blast
    hence "x \<noteq> c" using assms(2) k by auto
    thus "\<exists>x u. holds (((mc_phase s)(c := Finishing t r)) x) = Some (u, g) \<and> task_key cfg u = k"
      using x by (intro exI[of _ x] exI[of _ u]) simp
  next
    fix x u g assume "awaited (((mc_phase s)(c := Finishing t r)) x) = Some (u, g)"
    hence "mc_done s g \<noteq> None \<or> mc_inflight s (task_key cfg u) = Some g" using h4[of x u g] by (auto split: if_splits)
    thus "((mc_done s)(f \<mapsto> r)) g \<noteq> None \<or> ((mc_inflight s)(task_key cfg t := None)) (task_key cfg u) = Some g"
      using me by auto
  next
    fix g assume "mc_next s \<le> g"
    thus "((mc_done s)(f \<mapsto> r)) g = None" using h5 me by auto
  qed
qed

lemma flights_step:
  assumes "cache_step cfg vendor s s'" "flights_ok cfg s"
  shows "flights_ok cfg s'"
  using assms(1)
proof (cases rule: cache_step.cases)
  case (tick t)
  thus ?thesis using assms(2) by (simp add: flights_ok_def)
next
  case (start c t)
  thus ?thesis using flights_phase[OF assms(2)] by simp
next
  case (panic c t f)
  thus ?thesis using flights_phase[OF assms(2)] by simp
next
  case (move c order reply)
  note adv = move(1)[unfolded advance_def]
  show ?thesis
  proof (cases "mc_phase s c")
    case (Looking t)
    have a: "holds (after_hit t hit) = None" "awaited (after_hit t hit) = None" for hit
      by (auto simp: after_hit_def split: option.splits sum.splits)
    show ?thesis using adv Looking flights_frame[OF assms(2), of "after_hit t _" c] a
      by (auto split: prod.splits)
  next
    case (Entering t)
    show ?thesis using adv Entering flights_wait[OF assms(2) Entering] flights_lead[OF assms(2) Entering]
      by (auto split: option.splits)
  next
    case (Leading t f)
    show ?thesis using adv Leading flights_frame[OF assms(2), of "Retiring t f _" c] flights_frame[OF assms(2), of "Fetching t f" c]
      by (auto split: prod.splits option.splits)
  next
    case (Fetching t f)
    show ?thesis using adv Fetching flights_phase[OF assms(2), of _ c] by (auto split: if_splits)
  next
    case (Storing t f r)
    show ?thesis using adv Storing flights_frame[OF assms(2), of "Retiring t f r" c] by auto
  next
    case (Retiring t f r)
    show ?thesis using adv Retiring flights_retire[OF assms(2) Retiring] by auto
  next
    case (Waiting t f)
    show ?thesis using adv Waiting flights_phase[OF assms(2), of _ c] by auto
  next
    case (Finishing t r)
    have "holds (finish t r) = None" "awaited (finish t r) = None"
      by (auto simp: finish_def split: sum.splits)
    thus ?thesis using adv Finishing flights_phase[OF assms(2), of "finish t r" c] by auto
  next
    case (Asking t)
    show ?thesis using adv Asking flights_phase[OF assms(2), of _ c] by auto
  qed (use adv in auto)
qed

lemma flights_reach: "cache_reach cfg vendor s \<Longrightarrow> flights_ok cfg s"
proof (induction rule: cache_reach.induct)
  case (reach_new now)
  show ?case by (simp add: flights_ok_def new_caching_provider_def)
qed (rule flights_step)

section \<open>Entries and answers\<close>

text \<open>A result that the vendor gave to some task with this key.\<close>

definition granted :: "cache_config \<Rightarrow> (task \<Rightarrow> go_error + answer \<Rightarrow> bool) \<Rightarrow> string \<Rightarrow> go_error + answer \<Rightarrow> bool" where
  "granted cfg vendor k r \<longleftrightarrow> (\<exists>t. task_key cfg t = k \<and> vendor t r)"

definition entries_ok :: "cache_config \<Rightarrow> (task \<Rightarrow> go_error + answer \<Rightarrow> bool) \<Rightarrow> entries \<Rightarrow> bool" where
  "entries_ok cfg vendor es \<longleftrightarrow>
     distinct (map fst es) \<and> int (length es) \<le> cg_max_entries cfg \<and>
     (\<forall>(k, e) \<in> set es. storable (ce_result e) \<and> granted cfg vendor k (ce_result e))"

fun phase_ok ::
  "cache_config \<Rightarrow> (task \<Rightarrow> go_error + answer \<Rightarrow> bool) \<Rightarrow> (nat \<Rightarrow> (go_error + answer) option) \<Rightarrow> phase \<Rightarrow> bool" where
  "phase_ok cfg vendor dn (Storing t f r) \<longleftrightarrow> granted cfg vendor (task_key cfg t) r \<and> storable r"
| "phase_ok cfg vendor dn (Retiring t f r) \<longleftrightarrow> granted cfg vendor (task_key cfg t) r"
| "phase_ok cfg vendor dn (Finishing t r) \<longleftrightarrow> granted cfg vendor (task_key cfg t) r \<and> (\<exists>f. dn f = Some r)"
| "phase_ok cfg vendor dn (Asking t) \<longleftrightarrow>
     task_ttl cfg t \<le> 0 \<or>
     (\<exists>f a. dn f = Some (Inr a) \<and> granted cfg vendor (task_key cfg t) (Inr a) \<and> \<not> serves t a)"
| "phase_ok cfg vendor dn (Returned t r) \<longleftrightarrow>
     granted cfg vendor (task_key cfg t) r \<and> (\<forall>a. r = Inr a \<longrightarrow> serves t a \<or> vendor t r)"
| "phase_ok cfg vendor dn (Waiting t f) \<longleftrightarrow> (\<forall>r. dn f = Some r \<longrightarrow> granted cfg vendor (task_key cfg t) r)"
| "phase_ok cfg vendor dn p \<longleftrightarrow> True"

definition cache_ok :: "cache_config \<Rightarrow> (task \<Rightarrow> go_error + answer \<Rightarrow> bool) \<Rightarrow> market_cache \<Rightarrow> bool" where
  "cache_ok cfg vendor s \<longleftrightarrow>
     flights_ok cfg s \<and> entries_ok cfg vendor (mc_entries s) \<and>
     (\<forall>c. phase_ok cfg vendor (mc_done s) (mc_phase s c))"

lemma delete_subset: "set (AList.delete k es) \<subseteq> set es"
  by (auto simp: AList.delete_eq)

lemma delete_length: "length (AList.delete k es) \<le> length es"
  by (simp add: AList.delete_eq)

lemma entries_ok_subset:
  assumes "entries_ok cfg vendor es" "set es' \<subseteq> set es" "distinct (map fst es')" "length es' \<le> length es"
  shows "entries_ok cfg vendor es'"
  using assms by (fastforce simp: entries_ok_def)

lemma lookup_ok:
  assumes "entries_ok cfg vendor es" "lookup_entry now k es = (hit, es')"
  shows "entries_ok cfg vendor es' \<and> (\<forall>e. hit = Some e \<longrightarrow> granted cfg vendor k (ce_result e) \<and> storable (ce_result e))"
proof -
  have "entries_ok cfg vendor (AList.delete k es)"
    using entries_ok_subset[OF assms(1) delete_subset _ delete_length] assms(1)
    by (simp add: entries_ok_def distinct_delete)
  moreover have "granted cfg vendor k (ce_result e) \<and> storable (ce_result e)" if "map_of es k = Some e" for e
    using assms(1) map_of_SomeD[OF that] by (auto simp: entries_ok_def)
  ultimately show ?thesis using assms by (auto simp: lookup_entry_def split: option.splits if_splits)
qed

lemma evict_until_part:
  "distinct (map fst es) \<Longrightarrow>
   set (evict_until n ks es) \<subseteq> set es \<and> distinct (map fst (evict_until n ks es)) \<and> length (evict_until n ks es) \<le> length es"
proof (induction ks arbitrary: es)
  case (Cons k ks)
  from Cons.IH[of "AList.delete k es"] Cons.prems delete_subset[of k es] delete_length[of k es] show ?case
    by (auto simp: distinct_delete)
qed simp

lemma evict_until_fits:
  "0 < n \<Longrightarrow> fst ` set es \<subseteq> set ks \<Longrightarrow> int (length (evict_until n ks es)) < n"
proof (induction ks arbitrary: es)
  case (Cons k ks)
  have "fst ` set (AList.delete k es) \<subseteq> set ks" using Cons.prems(2) by (auto simp: AList.delete_eq)
  thus ?case using Cons.IH[OF Cons.prems(1)] by simp
qed simp

lemma update_parts:
  "length (AList.update k v es) \<le> length es + 1"
  "x \<in> set (AList.update k v es) \<Longrightarrow> x \<in> set es \<or> x = (k, v)"
  by (induction es) (auto split: if_splits)

lemma store_ok:
  assumes "entries_ok cfg vendor es" "0 < cg_max_entries cfg" "set order = fst ` set es"
    and "storable r" "granted cfg vendor k r"
  shows "entries_ok cfg vendor (store_entry cfg now order k r ttl es)"
proof -
  let ?m = "cg_max_entries cfg" and ?re = "reclaim now es"
  let ?es1 = "if ?m \<le> int (length es) then evict_until ?m order ?re else es"
  have d: "distinct (map fst es)" using assms(1) by (simp add: entries_ok_def)
  have re: "set ?re \<subseteq> set es" "distinct (map fst ?re)" "length ?re \<le> length es"
    using d by (auto simp: reclaim_def distinct_map_filter)
  have part: "set ?es1 \<subseteq> set es" "distinct (map fst ?es1)"
    using evict_until_part[OF re(2), of ?m order] re(1) d by auto
  have fits: "int (length ?es1) < ?m"
  proof (cases "?m \<le> int (length es)")
    case True
    have "fst ` set ?re \<subseteq> set order" using re(1) assms(3) by auto
    from evict_until_fits[OF assms(2) this] True show ?thesis by simp
  qed simp
  let ?e = "\<lparr>ce_result = r, ce_expires = (if 0 < ttl then Some (now + ttl) else None)\<rparr>"
  let ?u = "AList.update k ?e ?es1"
  have len: "length ?u \<le> length ?es1 + 1" by (rule update_parts(1))
  have mem: "x \<in> set ?es1 \<or> x = (k, ?e)" if "x \<in> set ?u" for x
    using that by (rule update_parts(2))
  have "storable (ce_result (snd x)) \<and> granted cfg vendor (fst x) (ce_result (snd x))" if "x \<in> set ?u" for x
  proof (rule disjE[OF mem[OF that]])
    assume "x \<in> set ?es1"
    hence "x \<in> set es" by (rule subsetD[OF part(1)])
    thus ?thesis using assms(1) by (auto simp: entries_ok_def)
  qed (use assms(4,5) in simp)
  thus ?thesis
    using len fits distinct_update[OF part(2), of k ?e] by (auto simp: entries_ok_def store_entry_def Let_def)
qed

lemma phases_upd:
  "(\<forall>x. phase_ok cfg vendor dn (ph x)) \<Longrightarrow> phase_ok cfg vendor dn p \<Longrightarrow> \<forall>x. phase_ok cfg vendor dn ((ph(c := p)) x)"
  by simp

lemma cache_ok_step:
  assumes "cache_step cfg vendor s s'" "cache_ok cfg vendor s" "0 < cg_max_entries cfg"
  shows "cache_ok cfg vendor s'"
proof -
  note ok = assms(2)[unfolded cache_ok_def]
  have fl: "flights_ok cfg s'" using flights_step[OF assms(1)] ok by simp
  have es: "entries_ok cfg vendor (mc_entries s)" using ok by simp
  have ph: "\<forall>x. phase_ok cfg vendor (mc_done s) (mc_phase s x)" using ok by simp
  have keep: "cache_ok cfg vendor s'"
    if "s' = set_phase c p (s\<lparr>mc_entries := es'\<rparr>)" "entries_ok cfg vendor es'" "phase_ok cfg vendor (mc_done s) p" for c p es'
    using fl that phases_upd[OF ph that(3), of c] by (simp add: cache_ok_def)
  have move_phase: "cache_ok cfg vendor s'" if "s' = set_phase c p s" "phase_ok cfg vendor (mc_done s) p" for c p
    using keep[of c p "mc_entries s"] that es by simp
  show ?thesis
    using assms(1)
  proof (cases rule: cache_step.cases)
    case (tick t)
    thus ?thesis using fl es ph by (simp add: cache_ok_def)
  next
    case (start c t)
    show ?thesis by (rule move_phase[OF start(1)]) simp
  next
    case (panic c t f)
    show ?thesis by (rule move_phase[OF panic(1)]) simp
  next
    case (move c order reply)
    note adv = move(1)[unfolded advance_def]
    have me: "phase_ok cfg vendor (mc_done s) (mc_phase s c)" using ph by simp
    show ?thesis
    proof (cases "mc_phase s c")
      case (Looking t)
      obtain hit es' where l: "lookup_entry (mc_now s) (task_key cfg t) (mc_entries s) = (hit, es')" by fastforce
      note lo = lookup_ok[OF es l]
      have "phase_ok cfg vendor (mc_done s) (after_hit t hit)"
        using lo by (auto simp: after_hit_def split: option.splits sum.splits)
      thus ?thesis using keep[of c "after_hit t hit" es'] adv Looking l lo by simp
    next
      case (Entering t)
      show ?thesis
      proof (cases "mc_inflight s (task_key cfg t)")
        case None
        thus ?thesis using adv Entering fl es phases_upd[OF ph, of "Leading t (mc_next s)" c] by (auto simp: cache_ok_def)
      next
        case (Some f)
        have "mc_done s f = None" using ok Some unfolding flights_ok_def by blast
        thus ?thesis using move_phase[of c "Waiting t f"] adv Entering Some by simp
      qed
    next
      case (Leading t f)
      obtain hit es' where l: "lookup_entry (mc_now s) (task_key cfg t) (mc_entries s) = (hit, es')" by fastforce
      note lo = lookup_ok[OF es l]
      show ?thesis
        using keep[of c "Fetching t f" es'] keep[of c "Retiring t f _" es'] adv Leading l lo
        by (cases hit) auto
    next
      case (Fetching t f)
      have "vendor t reply" using move(3) Fetching by simp
      hence "granted cfg vendor (task_key cfg t) reply" by (auto simp: granted_def)
      thus ?thesis
        using move_phase[of c "if storable reply then Storing t f reply else Retiring t f reply"] adv Fetching by simp
    next
      case (Storing t f r)
      have "granted cfg vendor (task_key cfg t) r" "storable r" using me Storing by simp_all
      thus ?thesis using keep[of c "Retiring t f r"] store_ok[OF es assms(3) move(2)] adv Storing by auto
    next
      case (Retiring t f r)
      have g: "granted cfg vendor (task_key cfg t) r" using me Retiring by simp
      have nd: "mc_done s f = None"
        and uniq: "\<And>x u. holds (mc_phase s x) = Some (u, f) \<Longrightarrow> x = c"
        and some: "\<And>k. mc_inflight s k = Some f \<Longrightarrow> \<exists>x u. holds (mc_phase s x) = Some (u, f) \<and> task_key cfg u = k"
        using ok Retiring unfolding flights_ok_def by (metis holds.simps(4))+
      have key: "k = task_key cfg t" if "mc_inflight s k = Some f" for k
        using some[OF that] uniq Retiring by fastforce
      have s': "mc_phase s' = (mc_phase s)(c := Finishing t r)" "mc_done s' = (mc_done s)(f \<mapsto> r)" "mc_entries s' = mc_entries s"
        using adv Retiring by auto
      have old: "mc_done s' g = Some r'" if "mc_done s g = Some r'" for g r'
        using that nd by (auto simp: s')
      have "phase_ok cfg vendor (mc_done s') (mc_phase s' x)" for x
      proof (cases "x = c")
        case False
        have p: "phase_ok cfg vendor (mc_done s) (mc_phase s x)" using ph by simp
        show ?thesis
        proof (cases "mc_phase s x")
          case (Waiting u g')
          have "mc_done s g' \<noteq> None \<or> mc_inflight s (task_key cfg u) = Some g'"
            using ok Waiting unfolding flights_ok_def by (metis awaited.simps(1))
          thus ?thesis using False p Waiting key g nd by (auto simp: s')
        next
          case (Finishing u r')
          thus ?thesis using False p old by (auto simp: s'(1))
        next
          case (Asking u)
          thus ?thesis using False p old by (auto simp: s'(1))
        qed (use False p in \<open>auto simp: s'\<close>)
      next
        case True
        have "\<exists>h. mc_done s' h = Some r" by (intro exI[of _ f]) (simp add: s')
        thus ?thesis using True g by (simp add: s'(1))
      qed
      thus ?thesis using fl es by (simp add: cache_ok_def s')
    next
      case (Waiting t f)
      thus ?thesis using move_phase[of c "Finishing t _"] adv me by auto
    next
      case (Finishing t r)
      have "phase_ok cfg vendor (mc_done s) (finish t r)" using me Finishing by (auto simp: finish_def split: sum.splits)
      thus ?thesis using move_phase[of c "finish t r"] adv Finishing by simp
    next
      case (Asking t)
      have "vendor t reply" using move(3) Asking by simp
      hence "phase_ok cfg vendor (mc_done s) (Returned t reply)" by (auto simp: granted_def)
      thus ?thesis using move_phase[of c "Returned t reply"] adv Asking by simp
    qed (use adv in auto)
  qed
qed

lemma cache_ok_reach:
  assumes "cache_reach cfg vendor s" "0 < cg_max_entries cfg"
  shows "cache_ok cfg vendor s"
  using assms(1)
proof (induction rule: cache_reach.induct)
  case (reach_new now)
  have "flights_ok cfg (new_caching_provider now)" using flights_reach cache_reach.reach_new by blast
  thus ?case using assms(2) by (simp add: cache_ok_def entries_ok_def new_caching_provider_def)
qed (rule cache_ok_step[OF _ _ assms(2)])

section \<open>Ranges of bars\<close>

text \<open>
  \<open>HistoricalBars\<close>: \<open>read\<close> is \<open>barsRange\<close>, a keyed read of one range, and \<open>next_bars\<close> the
  wrapped provider.
\<close>

definition split_bars ::
  "(time \<Rightarrow> time \<Rightarrow> time \<Rightarrow> go_error + bar list) \<Rightarrow> time \<Rightarrow> time \<Rightarrow> time \<Rightarrow> go_error + bar list" where
  "split_bars read fetch_from to settled =
     (case read fetch_from (settled - nanosecond) settled of
        Inl err \<Rightarrow> if errors_is err EMarketNotFound then read settled to settled else Inl err
      | Inr past \<Rightarrow>
          (case read settled to settled of
             Inl err \<Rightarrow> if errors_is err EMarketNotFound \<and> past \<noteq> [] then Inr past else Inl err
           | Inr recent \<Rightarrow> Inr (past @ recent)))"

definition historical_bars ::
  "cache_config \<Rightarrow> (string \<Rightarrow> time \<Rightarrow> time \<Rightarrow> go_error + bar list) \<Rightarrow>
   (string \<Rightarrow> time \<Rightarrow> time \<Rightarrow> time \<Rightarrow> go_error + bar list) \<Rightarrow> time \<Rightarrow> string \<Rightarrow> time \<Rightarrow> time \<Rightarrow> go_error + bar list" where
  "historical_bars cfg next_bars read now ticker from to =
     (if cg_bars_ttl cfg \<le> 0 then next_bars ticker from to
      else
        let fetch_from = start_of_day from; settled = add_date 0 0 (- 1) (start_of_day now)
        in ebind (if fetch_from < settled \<and> \<not> to < settled then split_bars (read ticker) fetch_from to settled
                  else read ticker fetch_from to settled)
             (\<lambda>bars. let out = filter (in_range from to) bars
                     in if out = [] then Inl (EWrap ''marketdata: no bars in range'' EMarketNotFound) else Inr out))"

text \<open>What a range of a fixed history is.\<close>

definition range_of :: "bar list \<Rightarrow> time \<Rightarrow> time \<Rightarrow> go_error + bar list" where
  "range_of hist from to =
     (let bs = filter (in_range from to) hist in if bs = [] then Inl EMarketNotFound else Inr bs)"

lemma in_range_iff: "in_range from to b \<longleftrightarrow> from \<le> ba_date b \<and> ba_date b \<le> to"
  by (auto simp: in_range_def)

lemma filter_split:
  assumes "sorted (map ba_date hist)" "lo \<le> mid" "mid \<le> hi"
  shows "filter (in_range lo (mid - 1)) hist @ filter (in_range mid hi) hist = filter (in_range lo hi) hist"
  using assms(1)
proof (induction hist)
  case (Cons b bs)
  have IH: "filter (in_range lo (mid - 1)) bs @ filter (in_range mid hi) bs = filter (in_range lo hi) bs"
    using Cons by simp
  show ?case
  proof (cases "ba_date b < mid")
    case True
    hence "in_range lo (mid - 1) b = in_range lo hi b" "\<not> in_range mid hi b" using assms(3) by (auto simp: in_range_iff)
    thus ?thesis using IH by simp
  next
    case False
    hence "\<forall>x \<in> set (b # bs). mid \<le> ba_date x" using Cons.prems by auto
    hence "filter (in_range lo (mid - 1)) (b # bs) = []" by (auto simp: filter_empty_conv in_range_iff)
    moreover have "filter (in_range mid hi) (b # bs) = filter (in_range lo hi) (b # bs)"
      using \<open>\<forall>x \<in> set (b # bs). mid \<le> ba_date x\<close> assms(2)
      by (intro filter_cong refl) (auto simp: in_range_iff)
    ultimately show ?thesis by simp
  qed
qed simp

lemma split_bars_history:
  assumes "sorted (map ba_date hist)" "lo < settled" "settled \<le> to"
  shows "split_bars (\<lambda>f t _. range_of hist f t) lo to settled = range_of hist lo to"
  using filter_split[OF assms(1), of lo settled to] assms(2,3)
  by (auto simp: split_bars_def range_of_def Let_def nanosecond_def)

lemma filter_narrow:
  "lo \<le> from \<Longrightarrow> filter (in_range from to) (filter (in_range lo to) hist) = filter (in_range from to) hist"
  by (auto intro!: filter_cong simp: in_range_iff)

text \<open>
  Only the start of the range is moved to a day boundary. The end is not, although the key holds
  its day alone: a shorter range fetched earlier that day is served to a longer one, and for good
  when the range lies in the immutable past.
\<close>

lemma bars_key_ignores_end_time:
  assumes "day_number to = day_number to'"
  shows "task_key cfg (BarsTask ticker from to settled) = task_key cfg (BarsTask ticker from to' settled') \<and>
    after_hit (BarsTask ticker from to' settled') (Some \<lparr>ce_result = Inr (ABars bs), ce_expires = None\<rparr>) =
      Returned (BarsTask ticker from to' settled') (Inr (ABars bs)) \<and>
    (to < settled \<longrightarrow> keep_for cfg (BarsTask ticker from to settled) (Inr (ABars bs)) = 0)"
  using assms by (simp add: format_date_def after_hit_def)

section \<open>Properties\<close>


text \<open>
  C30: the cache stays within its bounds under every schedule: at most the configured number of
  entries, one per key, transient failures never among them; and of the flights that concurrent
  misses share at most one fetches from the vendor under any key. Outside a flight a caller asks
  the vendor itself, possibly several at once, only when its method's caching is off or when the
  answer that some flight of its key brought is newer than the instant it asked for (with a vendor
  that never looks ahead, a flight for another instant); its answer is then not stored.
\<close>

theorem cache_is_bounded_single_flight:
  assumes "cache_reach cfg vendor s" "0 < cg_max_entries cfg"
  shows "int (length (mc_entries s)) \<le> cg_max_entries cfg \<and> distinct (map fst (mc_entries s)) \<and>
    (\<forall>k e err. (k, e) \<in> set (mc_entries s) \<longrightarrow> ce_result e = Inl err \<longrightarrow> cacheable_err err \<and> \<not> errors_is err EMarketUnavailable) \<and>
    (\<forall>c c' t t' f f'. mc_phase s c = Fetching t f \<longrightarrow> mc_phase s c' = Fetching t' f' \<longrightarrow>
       task_key cfg t = task_key cfg t' \<longrightarrow> c = c') \<and>
    (\<forall>c t. asked (mc_phase s c) = Some t \<longrightarrow> (\<exists>f. mc_phase s c = Fetching t f) \<or>
       mc_phase s c = Asking t \<and>
       (task_ttl cfg t \<le> 0 \<or>
        (\<exists>f a t'. mc_done s f = Some (Inr a) \<and> task_key cfg t' = task_key cfg t \<and> vendor t' (Inr a) \<and> \<not> serves t a)) \<and>
       (\<forall>order reply s'. advance cfg c order reply s = Some s' \<longrightarrow> mc_entries s' = mc_entries s))"
proof -
  note ok = cache_ok_reach[OF assms, unfolded cache_ok_def]
  have "c = c'" if p: "mc_phase s c = Fetching t f" "mc_phase s c' = Fetching t' f'" "task_key cfg t = task_key cfg t'" for c c' t t' f f'
  proof -
    have h: "holds (mc_phase s c) = Some (t, f)" "holds (mc_phase s c') = Some (t', f')" using p by simp_all
    have "mc_inflight s (task_key cfg t) = Some f" "mc_inflight s (task_key cfg t') = Some f'"
      using ok h unfolding flights_ok_def by blast+
    hence "f = f'" using p(3) by simp
    thus ?thesis using ok h unfolding flights_ok_def by blast
  qed
  moreover have "cacheable_err err" if "(k, e) \<in> set (mc_entries s)" "ce_result e = Inl err" for k e err
    using ok that by (fastforce simp: entries_ok_def storable_def)
  moreover have "(\<exists>f. mc_phase s c = Fetching t f) \<or> mc_phase s c = Asking t \<and>
       (task_ttl cfg t \<le> 0 \<or>
        (\<exists>f a t'. mc_done s f = Some (Inr a) \<and> task_key cfg t' = task_key cfg t \<and> vendor t' (Inr a) \<and> \<not> serves t a)) \<and>
       (\<forall>order reply s'. advance cfg c order reply s = Some s' \<longrightarrow> mc_entries s' = mc_entries s)"
    if a: "asked (mc_phase s c) = Some t" for c t
  proof (cases "mc_phase s c")
    case (Asking u)
    have "phase_ok cfg vendor (mc_done s) (mc_phase s c)" using ok by blast
    thus ?thesis using a Asking by (auto simp: granted_def advance_def)
  qed (use a in simp_all)
  ultimately show ?thesis using ok by (fastforce simp: entries_ok_def cacheable_err_def)
qed

text \<open>How many steps a caller may still take.\<close>

fun steps_left :: "phase \<Rightarrow> nat" where
  "steps_left (Looking t) = 8"
| "steps_left (Entering t) = 7"
| "steps_left (Leading t f) = 6"
| "steps_left (Fetching t f) = 5"
| "steps_left (Storing t f r) = 4"
| "steps_left (Retiring t f r) = 3"
| "steps_left (Waiting t f) = 3"
| "steps_left (Finishing t r) = 2"
| "steps_left (Asking t) = 1"
| "steps_left p = 0"

definition unfinished :: "phase \<Rightarrow> bool" where
  "unfinished p \<longleftrightarrow> 0 < steps_left p"

text \<open>
  C31: reads make progress: every step brings its caller nearer to its answer, at most eight steps
  from the start, without touching another caller's read; and while some read is unfinished some
  caller can always move, so no schedule deadlocks, unless the vendor panicked under a leader.
\<close>

theorem reads_make_progress:
  assumes "cache_reach cfg vendor s" "unfinished (mc_phase s c)" "\<And>x t f. mc_phase s x \<noteq> Crashed t f"
  shows "(\<exists>x. \<forall>order reply. advance cfg x order reply s \<noteq> None) \<and>
    (\<forall>x order reply s'. advance cfg x order reply s = Some s' \<longrightarrow>
       steps_left (mc_phase s' x) < steps_left (mc_phase s x) \<and> steps_left (mc_phase s x) \<le> 8 \<and>
       (\<forall>y. y \<noteq> x \<longrightarrow> mc_phase s' y = mc_phase s y))"
proof -
  note ok = flights_reach[OF assms(1), unfolded flights_ok_def]
  have able: "advance cfg x order reply s \<noteq> None"
    if "unfinished (mc_phase s x)" "awaited (mc_phase s x) = None" for x order reply
    using that by (cases "mc_phase s x") (auto simp: advance_def unfinished_def split: prod.splits option.splits)
  have "\<exists>x. \<forall>order reply. advance cfg x order reply s \<noteq> None"
  proof (cases "awaited (mc_phase s c)")
    case None
    thus ?thesis using able[OF assms(2)] by blast
  next
    case (Some tf)
    then obtain t f where w: "mc_phase s c = Waiting t f" by (cases "mc_phase s c") auto
    show ?thesis
    proof (cases "mc_done s f")
      case None
      hence "mc_inflight s (task_key cfg t) = Some f" using ok w by (metis awaited.simps(1))
      then obtain x u where x: "holds (mc_phase s x) = Some (u, f)" using ok by blast
      hence "unfinished (mc_phase s x)" "awaited (mc_phase s x) = None"
        using assms(3)[of x u f] by (cases "mc_phase s x"; auto simp: unfinished_def)+
      thus ?thesis using able by blast
    next
      case (Some r)
      thus ?thesis using w by (intro exI[of _ c]) (simp add: advance_def)
    qed
  qed
  moreover have "steps_left (mc_phase s' x) < steps_left (mc_phase s x) \<and> steps_left (mc_phase s x) \<le> 8 \<and>
      (\<forall>y. y \<noteq> x \<longrightarrow> mc_phase s' y = mc_phase s y)" if "advance cfg x order reply s = Some s'" for x order reply s'
    using that by (cases "mc_phase s x")
      (auto simp: advance_def after_hit_def finish_def split: prod.splits option.splits sum.splits if_splits)
  ultimately show ?thesis by blast
qed

text \<open>
  A vendor that panics wedges its key for good: the flight is never removed nor resolved, so
  whatever happens afterwards every caller waiting for it waits forever, and every later caller
  that misses the cache under that key joins them.
\<close>

theorem panic_wedges_key:
  assumes "cache_reach cfg vendor s" "mc_phase s c = Crashed t f" "(cache_step cfg vendor)\<^sup>*\<^sup>* s s'"
  shows "(\<forall>x u order reply. mc_phase s' x = Waiting u f \<longrightarrow> advance cfg x order reply s' = None) \<and>
    (\<forall>x u order reply. mc_phase s' x = Entering u \<longrightarrow> task_key cfg u = task_key cfg t \<longrightarrow>
       advance cfg x order reply s' = Some (set_phase x (Waiting u f) s'))"
proof -
  have crashed: "mc_phase w c = Crashed t f" if "(cache_step cfg vendor)\<^sup>*\<^sup>* s w" for w
    using that
  proof (induction rule: rtranclp_induct)
    case base thus ?case by (rule assms(2))
  next
    case (step v w)
    have adv: "mc_phase w c = Crashed t f" if "advance cfg x order reply v = Some w" for x order reply
      using that step.IH by (cases "mc_phase v x"; cases "x = c")
        (auto simp: advance_def split: prod.splits option.splits)
    show ?case using step.hyps(2)
    proof (cases rule: cache_step.cases)
      case (tick n) thus ?thesis using step.IH by simp
    next
      case (start x u) thus ?thesis using step.IH by auto
    next
      case (panic x u g) thus ?thesis using step.IH by auto
    next
      case (move x order reply) thus ?thesis using adv by blast
    qed
  qed
  have reach: "cache_reach cfg vendor w" if "(cache_step cfg vendor)\<^sup>*\<^sup>* s w" for w
    using that assms(1) by (induction rule: rtranclp_induct) (auto intro: cache_reach.reach_step)
  have "holds (mc_phase s' c) = Some (t, f)" using crashed[OF assms(3)] by simp
  hence "mc_inflight s' (task_key cfg t) = Some f" "mc_done s' f = None"
    using flights_reach[OF reach[OF assms(3)]] unfolding flights_ok_def by blast+
  thus ?thesis by (simp add: advance_def)
qed

text \<open>
  Splitting a range of bars at the start of yesterday is invisible. When the keyed reads answer
  from one dated history, a caller gets exactly the bars of its range in that history, in order,
  or a not-found error when there are none, wherever the range lies.
\<close>

theorem bars_split_invisible:
  assumes "sorted (map ba_date hist)" "0 < cg_bars_ttl cfg"
  shows "case historical_bars cfg next_bars (\<lambda>_ f t _. range_of hist f t) now ticker from to of
      Inr bs \<Rightarrow> bs = filter (in_range from to) hist \<and> bs \<noteq> []
    | Inl err \<Rightarrow> filter (in_range from to) hist = [] \<and> errors_is err EMarketNotFound"
proof -
  let ?lo = "start_of_day from" and ?settled = "add_date 0 0 (- 1) (start_of_day now)"
  have "(if ?lo < ?settled \<and> \<not> to < ?settled then split_bars (\<lambda>f t _. range_of hist f t) ?lo to ?settled
      else range_of hist ?lo to) = range_of hist ?lo to"
    using split_bars_history[OF assms(1), of ?lo ?settled to] by simp
  hence "historical_bars cfg next_bars (\<lambda>_ f t _. range_of hist f t) now ticker from to =
      ebind (range_of hist ?lo to) (\<lambda>bars. let out = filter (in_range from to) bars
        in if out = [] then Inl (EWrap ''marketdata: no bars in range'' EMarketNotFound) else Inr out)"
    using assms(2) by (simp add: historical_bars_def Let_def)
  also have "\<dots> = (if filter (in_range ?lo to) hist = [] then Inl EMarketNotFound
      else if filter (in_range from to) hist = [] then Inl (EWrap ''marketdata: no bars in range'' EMarketNotFound)
      else Inr (filter (in_range from to) hist))"
    using filter_narrow[OF start_of_day_le(1), of "from" to hist] by (simp add: range_of_def Let_def)
  finally have e: "historical_bars cfg next_bars (\<lambda>_ f t _. range_of hist f t) now ticker from to = \<dots>" .
  have "filter (in_range ?lo to) hist = [] \<Longrightarrow> filter (in_range from to) hist = []"
    using filter_narrow[OF start_of_day_le(1), of "from" to hist] by (metis filter.simps(1))
  thus ?thesis unfolding e by auto
qed

section \<open>A sample run\<close>

definition sample_cache_config :: cache_config where
  "sample_cache_config = \<lparr>cg_quote_ttl = second, cg_fundamentals_ttl = second, cg_bars_ttl = second, cg_max_entries = 2\<rparr>"

definition sample_quote :: quote where
  "sample_quote = \<lparr>qt_ticker = ''ACME'', qt_price = 1, qt_avg_dollar_volume = 1, qt_as_of = 5\<rparr>"

definition sample_task :: task where
  "sample_task = QuoteTask ''ACME'' 7"

definition sample_vendor :: "task \<Rightarrow> go_error + answer \<Rightarrow> bool" where
  "sample_vendor t r \<longleftrightarrow> (case r of Inl err \<Rightarrow> err = EMarketUnavailable | Inr a \<Rightarrow> serves t a)"

definition fetching :: market_cache where
  "fetching = (new_caching_provider 0)
     \<lparr>mc_inflight := (\<lambda>_. None)(task_key sample_cache_config sample_task \<mapsto> 0), mc_next := 1,
      mc_phase := (\<lambda>_. Idle)(0 := Fetching sample_task 0)\<rparr>"

lemmas sample_run_defs = advance_def lookup_entry_def after_hit_def fetching_def new_caching_provider_def set_phase_def

lemma fetching_reached: "cache_reach sample_cache_config sample_vendor fetching"
proof -
  let ?cfg = sample_cache_config and ?t = sample_task
  have ttl: "\<not> task_ttl ?cfg ?t \<le> 0" by (simp add: sample_cache_config_def sample_task_def second_def)
  have s1: "cache_reach ?cfg sample_vendor (set_phase 0 (Looking ?t) (new_caching_provider 0))"
    using cache_reach.reach_step[OF cache_reach.reach_new cache_step.start, of 0 0 ?cfg sample_vendor ?t] ttl
    by (simp add: new_caching_provider_def)
  have s2: "cache_reach ?cfg sample_vendor (set_phase 0 (Entering ?t) (new_caching_provider 0))"
    by (rule cache_reach.reach_step[OF s1], rule cache_step.move[where c = 0 and order = "[]" and reply = "Inl ENotFound"])
       (simp_all add: sample_run_defs)
  have s3: "cache_reach ?cfg sample_vendor (set_phase 0 (Leading ?t 0) ((new_caching_provider 0)
      \<lparr>mc_inflight := (\<lambda>_. None)(task_key ?cfg ?t \<mapsto> 0), mc_next := 1\<rparr>))"
    by (rule cache_reach.reach_step[OF s2], rule cache_step.move[where c = 0 and order = "[]" and reply = "Inl ENotFound"])
       (simp_all add: sample_run_defs)
  show ?thesis
    by (rule cache_reach.reach_step[OF s3], rule cache_step.move[where c = 0 and order = "[]" and reply = "Inl ENotFound"])
       (simp_all add: sample_run_defs)
qed

lemma quote_returned:
  "\<exists>s. cache_reach sample_cache_config sample_vendor s \<and> mc_phase s 0 = Returned sample_task (Inr (AQuote sample_quote)) \<and>
     length (mc_entries s) = 1"
proof -
  let ?cfg = sample_cache_config and ?t = sample_task and ?r = "Inr (AQuote sample_quote)"
  have sv: "serves ?t (AQuote sample_quote)" by (simp add: sample_task_def sample_quote_def)
  have s1: "cache_reach ?cfg sample_vendor (set_phase 0 (Storing ?t 0 ?r) fetching)"
    by (rule cache_reach.reach_step[OF fetching_reached], rule cache_step.move[where c = 0 and order = "[]" and reply = ?r])
       (simp_all add: sample_run_defs storable_def sample_vendor_def sv)
  let ?es = "[(task_key ?cfg ?t, \<lparr>ce_result = ?r, ce_expires = Some second\<rparr>)]"
  have s2: "cache_reach ?cfg sample_vendor (set_phase 0 (Retiring ?t 0 ?r) (fetching\<lparr>mc_entries := ?es\<rparr>))"
    by (rule cache_reach.reach_step[OF s1], rule cache_step.move[where c = 0 and order = "[]" and reply = ?r])
       (simp_all add: sample_run_defs store_entry_def Let_def sample_cache_config_def sample_task_def second_def)
  let ?s = "fetching\<lparr>mc_entries := ?es, mc_inflight := (\<lambda>_. None), mc_done := (\<lambda>_. None)(0 \<mapsto> ?r)\<rparr>"
  have s3: "cache_reach ?cfg sample_vendor (set_phase 0 (Finishing ?t ?r) ?s)"
    by (rule cache_reach.reach_step[OF s2], rule cache_step.move[where c = 0 and order = "[task_key ?cfg ?t]" and reply = ?r])
       (auto simp: sample_run_defs fun_upd_def fun_eq_iff)
  have "cache_reach ?cfg sample_vendor (set_phase 0 (Returned ?t ?r) ?s)"
    by (rule cache_reach.reach_step[OF s3], rule cache_step.move[where c = 0 and order = "[task_key ?cfg ?t]" and reply = ?r])
       (simp_all add: sample_run_defs finish_def sv)
  thus ?thesis by (intro exI conjI, assumption) (simp_all add: fetching_def)
qed


theorem cache_is_bounded_single_flight_witness:
  "\<exists>s. cache_reach sample_cache_config sample_vendor s \<and> length (mc_entries s) = 1 \<and> int (length (mc_entries s)) \<le> 2"
proof -
  have max: "0 < cg_max_entries sample_cache_config" "cg_max_entries sample_cache_config = 2"
    by (simp_all add: sample_cache_config_def)
  show ?thesis using quote_returned cache_is_bounded_single_flight[OF _ max(1)] max(2) by metis
qed

theorem reads_make_progress_witness:
  "\<exists>x. \<forall>order reply. advance sample_cache_config x order reply fetching \<noteq> None"
proof -
  have "unfinished (mc_phase fetching 0)" "\<And>x t f. mc_phase fetching x \<noteq> Crashed t f"
    by (simp_all add: fetching_def unfinished_def)
  from reads_make_progress[OF fetching_reached this] show ?thesis by blast
qed

theorem panic_wedges_key_witness:
  "\<exists>s. cache_reach sample_cache_config sample_vendor s \<and> mc_phase s 0 = Crashed sample_task 0 \<and>
     mc_phase s 1 = Entering sample_task \<and>
     advance sample_cache_config 1 [] (Inl ENotFound) s = Some (set_phase 1 (Waiting sample_task 0) s)"
proof -
  let ?cfg = sample_cache_config
  have c: "cache_reach ?cfg sample_vendor (set_phase 0 (Crashed sample_task 0) fetching)"
    by (rule cache_reach.reach_step[OF fetching_reached], rule cache_step.panic) (simp add: fetching_def)
  have ttl: "\<not> task_ttl ?cfg sample_task \<le> 0" by (simp add: sample_cache_config_def sample_task_def second_def)
  let ?l = "set_phase 1 (Looking sample_task) (set_phase 0 (Crashed sample_task 0) fetching)"
  let ?e = "set_phase 1 (Entering sample_task) (set_phase 0 (Crashed sample_task 0) fetching)"
  have l: "cache_step ?cfg sample_vendor (set_phase 0 (Crashed sample_task 0) fetching) ?l"
    using cache_step.start[of "set_phase 0 (Crashed sample_task 0) fetching" 1 ?cfg sample_vendor sample_task] ttl
    by (simp add: fetching_def)
  have e: "cache_step ?cfg sample_vendor ?l ?e"
    by (rule cache_step.move[where c = 1 and order = "[]" and reply = "Inl ENotFound"]) (simp_all add: sample_run_defs)
  have r: "(cache_step ?cfg sample_vendor)\<^sup>*\<^sup>* (set_phase 0 (Crashed sample_task 0) fetching) ?e"
    by (rule converse_rtranclp_into_rtranclp[OF l r_into_rtranclp[where r = "cache_step ?cfg sample_vendor", OF e]])
  have p: "mc_phase ?e 0 = Crashed sample_task 0" "mc_phase ?e 1 = Entering sample_task" by simp_all
  have "advance ?cfg 1 [] (Inl ENotFound) ?e = Some (set_phase 1 (Waiting sample_task 0) ?e)"
    using panic_wedges_key[OF c _ r, of 0 sample_task 0] p(2) by simp
  moreover have "cache_reach ?cfg sample_vendor ?e" using c l e cache_reach.reach_step by blast
  ultimately show ?thesis using p by blast
qed

theorem bars_split_invisible_witness:
  "case historical_bars sample_cache_config (\<lambda>_ _ _. Inl ENotFound) (\<lambda>_ f t _. range_of [] f t) 100 ''ACME'' 1 50 of
     Inr bs \<Rightarrow> False | Inl err \<Rightarrow> errors_is err EMarketNotFound"
proof -
  have "sorted (map ba_date [])" "0 < cg_bars_ttl sample_cache_config"
    by (simp_all add: sample_cache_config_def second_def)
  note all_ranges = bars_split_invisible[OF this, where next_bars = "\<lambda>_ _ _. Inl ENotFound" and now = 100 and ticker = "''ACME''"]
  show ?thesis using all_ranges[of 1 50] by (auto split: sum.splits)
qed

end
