(* ===== verification/Webhook.thy ===== *)
theory Webhook
  imports Service "HOL-Library.Multiset" "HOL-Library.Word"
begin

text \<open>
  \<open>internal/webhook/dispatcher.go\<close>: events are queued in a bounded buffer, delivered by workers
  with bounded retries, and dropped when the buffer is full or the dispatcher is shut down. The
  sections under the mutex and the channel operations are steps that interleave freely; a
  delivery touches no shared state but its metric, so it is one step with the replies of the
  receiver as an argument. The JSON encoder and HMAC-SHA256 are arguments; the log lines are the
  metric with its event.
\<close>

section \<open>Configuration\<close>

record webhook_config =
  wc_url :: string
  wc_secret :: string
  wc_timeout :: dur
  wc_retries :: int
  wc_events :: "string list"
  wc_queue_size :: int
  wc_workers :: int

definition webhook_defaults :: "webhook_config \<Rightarrow> webhook_config" where
  "webhook_defaults c =
     c\<lparr>wc_timeout := (if wc_timeout c \<le> 0 then 5 * second else wc_timeout c),
       wc_queue_size := (if wc_queue_size c \<le> 0 then 1024 else wc_queue_size c),
       wc_workers := (if wc_workers c \<le> 0 then 2 else wc_workers c)\<rparr>"

datatype delivery_worker = Ready | Delivering event | Exited

record dispatcher =
  wb_cfg :: webhook_config
  wb_closed :: bool
  wb_queue :: "event list"
  wb_workers :: "delivery_worker list"
  wb_metrics :: "(event \<times> string) list"

definition new_dispatcher :: "webhook_config \<Rightarrow> dispatcher" where
  "new_dispatcher c0 =
     (let c = webhook_defaults c0
      in \<lparr>wb_cfg = c, wb_closed = False, wb_queue = [], wb_workers = replicate (nat (wc_workers c)) Ready, wb_metrics = []\<rparr>)"

section \<open>Emitting\<close>

definition event_allowed :: "webhook_config \<Rightarrow> event \<Rightarrow> bool" where
  "event_allowed c e \<longleftrightarrow> wc_events c = [] \<or> ev_type e \<in> set (wc_events c)"

definition record_metric :: "event \<Rightarrow> string \<Rightarrow> dispatcher \<Rightarrow> dispatcher" where
  "record_metric e result d = d\<lparr>wb_metrics := wb_metrics d @ [(e, result)]\<rparr>"

definition webhook_drop :: "event \<Rightarrow> dispatcher \<Rightarrow> dispatcher" where
  "webhook_drop e d = record_metric e ''dropped'' d"

definition webhook_emit :: "event \<Rightarrow> dispatcher \<Rightarrow> dispatcher" where
  "webhook_emit e d =
     (if \<not> event_allowed (wb_cfg d) e then d
      else if wb_closed d then webhook_drop e d
      else if int (length (wb_queue d)) < wc_queue_size (wb_cfg d) then d\<lparr>wb_queue := wb_queue d @ [e]\<rparr>
      else webhook_drop e d)"

text \<open>
  \<open>Shutdown\<close> closes the channel once and then waits. It may return nil once the workers have exited,
  and the error of its context once that is done, whichever the \<open>select\<close> takes when both are ready.
\<close>

definition webhook_shutdown :: "dispatcher \<Rightarrow> dispatcher" where
  "webhook_shutdown d = (if wb_closed d then d else d\<lparr>wb_closed := True\<rparr>)"

definition shutdown_returns :: "go_error option \<Rightarrow> dispatcher \<Rightarrow> go_error option \<Rightarrow> bool" where
  "shutdown_returns ctx d res \<longleftrightarrow>
     (case res of None \<Rightarrow> list_all (\<lambda>w. w = Exited) (wb_workers d) | Some err \<Rightarrow> ctx = Some err)"

section \<open>Delivering\<close>

text \<open>A request that cannot be built, a transport error, or the status of the response.\<close>

datatype http_reply = BadRequest go_error | NoResponse go_error | Status int

definition delivery_headers :: "(string \<Rightarrow> string \<Rightarrow> string) \<Rightarrow> webhook_config \<Rightarrow> event \<Rightarrow> string \<Rightarrow> (string \<times> string) list" where
  "delivery_headers hex_hmac c e body =
     [(''Content-Type'', ''application/json''), (''User-Agent'', ''dde-webhook/1.0''),
      (''X-DDE-Event'', ev_type e), (''X-DDE-Delivery'', ev_id e)]
     @ (if wc_secret c \<noteq> '''' then [(''X-DDE-Signature'', ''sha256='' @ hex_hmac (wc_secret c) body)] else [])"

fun attempt_result :: "http_reply \<Rightarrow> bool \<times> string" where
  "attempt_result (BadRequest err) = (False, error_text err)"
| "attempt_result (NoResponse err) = (True, error_text err)"
| "attempt_result (Status code) =
     (if 200 \<le> code \<and> code < 300 then (False, '''')
      else if code = 429 \<or> 500 \<le> code then (True, ''status '' @ dec_int code)
      else (False, ''status '' @ dec_int code))"

text \<open>The loop over the attempts: whether one succeeded, and how many were made.\<close>

function deliver_loop :: "int \<Rightarrow> (int \<Rightarrow> http_reply) \<Rightarrow> int \<Rightarrow> bool \<times> int" where
  "deliver_loop retries reply attempt =
     (if retries < attempt then (False, attempt)
      else case attempt_result (reply attempt) of
        (retryable, msg) \<Rightarrow>
          if msg = '''' then (True, attempt + 1)
          else if \<not> retryable then (False, attempt + 1)
          else deliver_loop retries reply (attempt + 1))"
  by auto
termination by (relation "measure (\<lambda>(retries, _, attempt). nat (retries + 1 - attempt))") auto

declare deliver_loop.simps [simp del]

text \<open>\<open>None\<close> is an event that does not serialise, which is not sent at all.\<close>

definition deliver :: "webhook_config \<Rightarrow> (event \<Rightarrow> string option) \<Rightarrow> (int \<Rightarrow> http_reply) \<Rightarrow> event \<Rightarrow> string" where
  "deliver c marshal reply e =
     (case marshal e of
        None \<Rightarrow> ''failure''
      | Some body \<Rightarrow> if fst (deliver_loop (wc_retries c) reply 0) then ''success'' else ''failure'')"

text \<open>
  The pause before a retry: 250 ms shifted on 64 bits, capped at 5 s, times a random factor;
  \<open>r\<close> is what \<open>rand.Float64\<close> draws. The last conversion truncates; \<open>None\<close> is out of range.
\<close>

definition backoff_base :: "nat \<Rightarrow> 64 word" where
  "backoff_base attempt =
     (let d = push_bit (attempt - 1) (word_of_int (250 * millisecond))
      in if 5 * second < sint d then word_of_int (5 * second) else d)"

definition delivery_backoff :: "nat \<Rightarrow> f64 \<Rightarrow> int option" where
  "delivery_backoff attempt r = int_of_f64 (f64_of_int (sint (backoff_base attempt)) * (lit (1 / 2) + r))"

section \<open>Interleavings\<close>

definition worker_take :: "nat \<Rightarrow> dispatcher \<Rightarrow> dispatcher option" where
  "worker_take i d =
     (if wb_workers d ! i = Ready
      then (case wb_queue d of
              e # q \<Rightarrow> Some (d\<lparr>wb_queue := q, wb_workers := (wb_workers d)[i := Delivering e]\<rparr>)
            | [] \<Rightarrow> if wb_closed d then Some (d\<lparr>wb_workers := (wb_workers d)[i := Exited]\<rparr>) else None)
      else None)"

definition worker_deliver :: "nat \<Rightarrow> (event \<Rightarrow> string option) \<Rightarrow> (int \<Rightarrow> http_reply) \<Rightarrow> dispatcher \<Rightarrow> dispatcher option" where
  "worker_deliver i marshal reply d =
     (case wb_workers d ! i of
        Delivering e \<Rightarrow>
          Some (record_metric e (deliver (wb_cfg d) marshal reply e) (d\<lparr>wb_workers := (wb_workers d)[i := Ready]\<rparr>))
      | _ \<Rightarrow> None)"

text \<open>The steps of the workers, and those of the callers, which extend the list of emitted events.\<close>

inductive worker_step :: "dispatcher \<Rightarrow> dispatcher \<Rightarrow> bool" where
  take_step: "i < length (wb_workers d) \<Longrightarrow> worker_take i d = Some d' \<Longrightarrow> worker_step d d'"
| deliver_step: "i < length (wb_workers d) \<Longrightarrow> worker_deliver i marshal reply d = Some d' \<Longrightarrow> worker_step d d'"

inductive webhook_reach :: "webhook_config \<Rightarrow> event list \<Rightarrow> dispatcher \<Rightarrow> bool" for c where
  start: "webhook_reach c [] (new_dispatcher c)"
| emitted: "webhook_reach c es d \<Longrightarrow> webhook_reach c (es @ [e]) (webhook_emit e d)"
| shut: "webhook_reach c es d \<Longrightarrow> webhook_reach c es (webhook_shutdown d)"
| worked: "webhook_reach c es d \<Longrightarrow> worker_step d d' \<Longrightarrow> webhook_reach c es d'"

inductive_cases worker_stepE: "worker_step d d'"

section \<open>Every event is settled once\<close>

definition in_delivery :: "delivery_worker list \<Rightarrow> event multiset" where
  "in_delivery ws = (\<Sum>w \<in># mset ws. case w of Delivering e \<Rightarrow> {#e#} | _ \<Rightarrow> {#})"

definition settled_events :: "dispatcher \<Rightarrow> event multiset" where
  "settled_events d = mset (map fst (wb_metrics d))"

definition dispatcher_ok :: "webhook_config \<Rightarrow> event list \<Rightarrow> dispatcher \<Rightarrow> bool" where
  "dispatcher_ok c es d \<longleftrightarrow>
     wb_cfg d = webhook_defaults c \<and>
     mset (filter (event_allowed (wb_cfg d)) es) = mset (wb_queue d) + in_delivery (wb_workers d) + settled_events d \<and>
     int (length (wb_queue d)) \<le> wc_queue_size (wb_cfg d) \<and>
     (Exited \<in> set (wb_workers d) \<longrightarrow> wb_closed d \<and> wb_queue d = [])"

lemma in_delivery_update:
  assumes "i < length ws"
  shows "in_delivery (ws[i := w]) + (case ws ! i of Delivering e \<Rightarrow> {#e#} | _ \<Rightarrow> {#}) =
    in_delivery ws + (case w of Delivering e \<Rightarrow> {#e#} | _ \<Rightarrow> {#})"
proof -
  have "mset (ws[i := w]) + {#ws ! i#} = mset ws + {#w#}"
    using assms by (simp add: mset_update)
  from arg_cong[OF this, of "\<lambda>m. \<Sum>w \<in># m. case w of Delivering e \<Rightarrow> {#e#} | _ \<Rightarrow> {#}"]
  show ?thesis by (simp add: in_delivery_def add.commute)
qed

lemma queue_size_pos: "0 < wc_queue_size (webhook_defaults c)"
  by (simp add: webhook_defaults_def)

lemma record_metric_simps [simp]:
  "wb_cfg (record_metric e x d) = wb_cfg d" "wb_closed (record_metric e x d) = wb_closed d"
  "wb_queue (record_metric e x d) = wb_queue d" "wb_workers (record_metric e x d) = wb_workers d"
  "settled_events (record_metric e x d) = settled_events d + {#e#}"
  by (simp_all add: record_metric_def settled_events_def)

lemma emit_ok: "dispatcher_ok c es d \<Longrightarrow> dispatcher_ok c (es @ [e]) (webhook_emit e d)"
  by (auto simp: dispatcher_ok_def webhook_emit_def webhook_drop_def record_metric_def settled_events_def)

lemma take_ok:
  assumes "dispatcher_ok c es d" "i < length (wb_workers d)" "worker_take i d = Some d'"
  shows "dispatcher_ok c es d'"
proof -
  have w: "wb_workers d ! i = Ready" using assms(3) by (auto simp: worker_take_def split: if_splits)
  show ?thesis
  proof (cases "wb_queue d")
    case Nil
    hence d': "d' = d\<lparr>wb_workers := (wb_workers d)[i := Exited]\<rparr>" "wb_closed d"
      using assms(3) w by (auto simp: worker_take_def split: if_splits)
    show ?thesis using assms(1) in_delivery_update[OF assms(2), of Exited] w Nil d'(2)
      by (auto simp: d'(1) dispatcher_ok_def settled_events_def)
  next
    case (Cons e q)
    hence d': "d' = d\<lparr>wb_queue := q, wb_workers := (wb_workers d)[i := Delivering e]\<rparr>"
      using assms(3) w by (auto simp: worker_take_def)
    have "Exited \<notin> set (wb_workers d)" using assms(1) Cons by (auto simp: dispatcher_ok_def)
    hence "Exited \<notin> set ((wb_workers d)[i := Delivering e])" using set_update_subset_insert[of "wb_workers d" i] by blast
    thus ?thesis using assms(1) in_delivery_update[OF assms(2), of "Delivering e"] w Cons
      by (auto simp: d' dispatcher_ok_def settled_events_def)
  qed
qed

lemma deliver_ok:
  assumes "dispatcher_ok c es d" "i < length (wb_workers d)" "worker_deliver i marshal reply d = Some d'"
  shows "dispatcher_ok c es d'"
proof -
  obtain e where w: "wb_workers d ! i = Delivering e"
    and d': "d' = record_metric e (deliver (wb_cfg d) marshal reply e) (d\<lparr>wb_workers := (wb_workers d)[i := Ready]\<rparr>)"
    using assms(3) by (auto simp: worker_deliver_def split: delivery_worker.splits)
  have "Exited \<in> set ((wb_workers d)[i := Ready]) \<Longrightarrow> Exited \<in> set (wb_workers d)"
    using set_update_subset_insert[of "wb_workers d" i Ready] by blast
  moreover have "settled_events d' = settled_events d + {#e#}"
    by (simp add: d') (simp add: settled_events_def)
  ultimately show ?thesis
    using assms(1) in_delivery_update[OF assms(2), of Ready] w
    by (auto simp: d' dispatcher_ok_def record_metric_def settled_events_def)
qed

lemma dispatcher_reach_ok: "webhook_reach c es d \<Longrightarrow> dispatcher_ok c es d"
proof (induction rule: webhook_reach.induct)
  case start
  have "in_delivery (replicate n Ready) = {#}" for n by (induction n) (simp_all add: in_delivery_def)
  thus ?case using queue_size_pos[of c]
    by (auto simp: dispatcher_ok_def new_dispatcher_def Let_def settled_events_def)
next
  case (emitted es d e) thus ?case by (blast intro: emit_ok)
next
  case (shut es d) thus ?case by (auto simp: dispatcher_ok_def webhook_shutdown_def settled_events_def)
next
  case (worked es d d')
  from worked(2,3) show ?case by (cases rule: worker_step.cases) (blast intro: take_ok deliver_ok)+
qed

section \<open>Attempts\<close>

definition attempt_ok :: "http_reply \<Rightarrow> bool" where
  "attempt_ok r \<longleftrightarrow> snd (attempt_result r) = ''''"

definition retryable :: "http_reply \<Rightarrow> bool" where
  "retryable r \<longleftrightarrow> fst (attempt_result r) \<and> snd (attempt_result r) \<noteq> ''''"

lemma deliver_loop_spec:
  assumes "deliver_loop retries reply a = (ok, n)" "a \<le> retries"
  shows "a < n \<and> n \<le> retries + 1 \<and> (\<forall>k. a \<le> k \<and> k < n - 1 \<longrightarrow> retryable (reply k)) \<and>
    (ok \<longleftrightarrow> attempt_ok (reply (n - 1))) \<and> (\<not> ok \<longrightarrow> \<not> retryable (reply (n - 1)) \<or> n = retries + 1)"
  using assms
proof (induction retries reply a rule: deliver_loop.induct)
  case (1 retries reply a)
  obtain rt msg where m: "attempt_result (reply a) = (rt, msg)" by fastforce
  note step = "1.prems"(1)[unfolded deliver_loop.simps[of retries reply a] m]
  show ?case
  proof (cases "msg = '''' \<or> \<not> rt")
    case True
    thus ?thesis using step "1.prems"(2) m by (auto simp: attempt_ok_def retryable_def split: if_splits)
  next
    case False
    hence r: "retryable (reply a)" "\<not> attempt_ok (reply a)" using m by (simp_all add: retryable_def attempt_ok_def)
    have rec: "deliver_loop retries reply (a + 1) = (ok, n)" using step "1.prems"(2) False by simp
    show ?thesis
    proof (cases "a + 1 \<le> retries")
      case True
      have IH: "a + 1 < n \<and> n \<le> retries + 1 \<and> (\<forall>k. a + 1 \<le> k \<and> k < n - 1 \<longrightarrow> retryable (reply k)) \<and>
          (ok \<longleftrightarrow> attempt_ok (reply (n - 1))) \<and> (\<not> ok \<longrightarrow> \<not> retryable (reply (n - 1)) \<or> n = retries + 1)"
        using "1.IH"[OF _ m[symmetric]] rec True False "1.prems"(2) by auto
      have "retryable (reply k)" if "a \<le> k" "k < n - 1" for k using IH r that by (cases "k = a") auto
      thus ?thesis using IH by auto
    next
      case False
      hence "ok = False" "n = a + 1" "a = retries"
        using rec "1.prems"(2) by (simp_all add: deliver_loop.simps[of retries reply "a + 1"])
      thus ?thesis using r by auto
    qed
  qed
qed

lemma backoff_table:
  assumes "1 \<le> a" "a \<le> 36"
  shows "sint (backoff_base a) = min (5 * second) (250 * millisecond * 2 ^ (a - 1))"
proof -
  have "list_all (\<lambda>a. sint (backoff_base a) = min (5 * second) (250 * millisecond * 2 ^ (a - 1))) [1..<37]"
    by code_simp
  thus ?thesis using assms by (simp add: list_all_iff)
qed

section \<open>Draining\<close>

fun worker_work :: "delivery_worker \<Rightarrow> nat" where
  "worker_work Ready = 1"
| "worker_work (Delivering e) = 2"
| "worker_work Exited = 0"

definition drain_work :: "dispatcher \<Rightarrow> nat" where
  "drain_work d = 3 * length (wb_queue d) + sum_list (map worker_work (wb_workers d))"

lemma work_update:
  "i < length ws \<Longrightarrow> sum_list (map worker_work (ws[i := w])) + worker_work (ws ! i) = sum_list (map worker_work ws) + worker_work w"
proof (induction ws arbitrary: i)
  case (Cons x ws)
  thus ?case by (cases i) auto
qed simp

lemma take_drains:
  "i < length (wb_workers d) \<Longrightarrow> worker_take i d = Some d' \<Longrightarrow> drain_work d' < drain_work d"
  using work_update[of i "wb_workers d" Exited] work_update[of i "wb_workers d" "Delivering (hd (wb_queue d))"]
  by (cases "wb_queue d") (auto simp: worker_take_def drain_work_def split: if_splits)

lemma deliver_drains:
  "i < length (wb_workers d) \<Longrightarrow> worker_deliver i marshal reply d = Some d' \<Longrightarrow> drain_work d' < drain_work d"
  using work_update[of i "wb_workers d" Ready]
  by (auto simp: worker_deliver_def drain_work_def record_metric_def split: delivery_worker.splits)

lemma workers_kept: "webhook_reach c es d \<Longrightarrow> length (wb_workers d) = nat (wc_workers (webhook_defaults c))"
proof (induction rule: webhook_reach.induct)
  case (worked es d d')
  from worked(2,3) show ?case
    by (cases rule: worker_step.cases)
      (auto simp: worker_take_def worker_deliver_def record_metric_def split: if_splits list.splits delivery_worker.splits)
qed (auto simp: new_dispatcher_def Let_def webhook_emit_def webhook_drop_def record_metric_def webhook_shutdown_def)

section \<open>Properties\<close>

text \<open>
  C32: every event the filter lets through is accounted for exactly once under every interleaving
  of emitters, workers and shutdown: it waits in the buffer, is being delivered, or has had its
  one metric, success, failure or dropped. The buffer never exceeds its size. When \<open>Shutdown\<close> returns
  nil, whatever its context, every such event has been settled; a context that ends first makes it
  return earlier, with the context's error.
\<close>

theorem webhook_settles_each_event:
  assumes "webhook_reach c es d"
  shows "mset (filter (event_allowed (webhook_defaults c)) es) =
      mset (wb_queue d) + in_delivery (wb_workers d) + mset (map fst (wb_metrics d)) \<and>
    int (length (wb_queue d)) \<le> wc_queue_size (webhook_defaults c) \<and>
    (shutdown_returns ctx d None \<longrightarrow> wb_closed d \<and>
       mset (filter (event_allowed (webhook_defaults c)) es) = mset (map fst (wb_metrics d)))"
proof -
  note ok = dispatcher_reach_ok[OF assms, unfolded dispatcher_ok_def settled_events_def]
  have acc: "mset (filter (event_allowed (webhook_defaults c)) es) =
      mset (wb_queue d) + in_delivery (wb_workers d) + mset (map fst (wb_metrics d))"
    using ok by metis
  have "wb_closed d \<and> wb_queue d = [] \<and> in_delivery (wb_workers d) = {#}" if s: "shutdown_returns ctx d None"
  proof -
    have all: "\<forall>w \<in> set (wb_workers d). w = Exited" using s by (simp add: shutdown_returns_def list_all_iff)
    have "wb_workers d \<noteq> []" using workers_kept[OF assms] by (auto simp: webhook_defaults_def split: if_splits)
    hence "Exited \<in> set (wb_workers d)" using all hd_in_set by metis
    moreover have "in_delivery ws = {#}" if "\<forall>w \<in> set ws. w = Exited" for ws
      using that by (induction ws) (auto simp: in_delivery_def)
    ultimately show ?thesis using ok all by blast
  qed
  thus ?thesis using acc ok by auto
qed

definition sample_webhook :: webhook_config where
  "sample_webhook =
     \<lparr>wc_url = ''http://hook'', wc_secret = '''', wc_timeout = 0, wc_retries = 2, wc_events = [], wc_queue_size = 1, wc_workers = 1\<rparr>"

definition sample_event :: event where
  "sample_event = \<lparr>ev_id = ''evt_1'', ev_type = EventGoalCreated, ev_created_at = 0, ev_payload = GoalCreatedPayload zero_goal\<rparr>"

theorem webhook_settles_each_event_witness:
  "\<exists>d. webhook_reach sample_webhook [sample_event, sample_event] d \<and> length (wb_queue d) = 1 \<and>
     map snd (wb_metrics d) = [''dropped''] \<and> mset (wb_queue d) + mset (map fst (wb_metrics d)) = {#sample_event, sample_event#}"
proof -
  let ?d1 = "webhook_emit sample_event (new_dispatcher sample_webhook)"
  let ?d2 = "webhook_emit sample_event ?d1"
  have r: "webhook_reach sample_webhook [sample_event, sample_event] ?d2"
    using webhook_reach.emitted[OF webhook_reach.emitted[OF webhook_reach.start[of sample_webhook], of sample_event], of sample_event]
    by simp
  have d: "length (wb_queue ?d2) = 1" "map snd (wb_metrics ?d2) = [''dropped'']" "wb_workers ?d2 = [Ready]"
    by (simp_all add: webhook_emit_def new_dispatcher_def sample_webhook_def webhook_defaults_def Let_def
        event_allowed_def webhook_drop_def record_metric_def)
  obtain d where d': "webhook_reach sample_webhook [sample_event, sample_event] d" "length (wb_queue d) = 1"
    "map snd (wb_metrics d) = [''dropped'']" "wb_workers d = [Ready]" by (rule that[OF r d])
  have all: "event_allowed (webhook_defaults sample_webhook) = (\<lambda>_. True)"
    by (simp add: fun_eq_iff event_allowed_def webhook_defaults_def sample_webhook_def)
  have "mset (filter (\<lambda>_. True) [sample_event, sample_event]) = mset (wb_queue d) + in_delivery [Ready] + mset (map fst (wb_metrics d))"
    using conjunct1[OF webhook_settles_each_event[OF d'(1)]] unfolding all d'(4) .
  hence "mset (wb_queue d) + mset (map fst (wb_metrics d)) = {#sample_event, sample_event#}"
    by (simp add: in_delivery_def)
  thus ?thesis by (intro exI[of _ d] conjI d')
qed

text \<open>
  C33: the workers drain the buffer: each of their steps uses up part of a bounded amount of work,
  so only finitely many can follow without new events, and after a shutdown some worker can
  always move until all have exited.
\<close>

theorem webhook_shutdown_drains:
  "(\<forall>d'. worker_step d d' \<longrightarrow> drain_work d' < drain_work d) \<and>
   (wb_closed d \<and> \<not> shutdown_returns ctx d None \<longrightarrow> (\<exists>d'. worker_step d d'))"
proof -
  have "\<exists>d'. worker_step d d'" if c: "wb_closed d" "\<not> shutdown_returns ctx d None"
  proof -
    obtain i where i: "i < length (wb_workers d)" "wb_workers d ! i \<noteq> Exited"
      using c(2) by (auto simp: shutdown_returns_def list_all_length)
    show ?thesis
    proof (cases "wb_workers d ! i")
      case Ready
      hence "\<exists>d'. worker_take i d = Some d'" using c(1) by (cases "wb_queue d") (auto simp: worker_take_def)
      thus ?thesis using i worker_step.take_step by blast
    next
      case (Delivering e)
      hence "\<exists>d'. worker_deliver i (\<lambda>_. None) (\<lambda>_. Status 200) d = Some d'" by (simp add: worker_deliver_def)
      thus ?thesis using i worker_step.deliver_step by blast
    qed (use i in simp)
  qed
  moreover have "drain_work d' < drain_work d" if "worker_step d d'" for d'
    using that by (cases rule: worker_step.cases) (blast intro: take_drains deliver_drains)+
  ultimately show ?thesis by blast
qed

theorem webhook_shutdown_drains_witness:
  "\<exists>d'. worker_step (webhook_shutdown (new_dispatcher sample_webhook)) d'"
proof -
  have "wb_closed (webhook_shutdown (new_dispatcher sample_webhook))"
    "\<not> shutdown_returns None (webhook_shutdown (new_dispatcher sample_webhook)) None"
    by (simp_all add: webhook_shutdown_def new_dispatcher_def Let_def shutdown_returns_def sample_webhook_def webhook_defaults_def)
  thus ?thesis using webhook_shutdown_drains by blast
qed

text \<open>
  A delivery makes between one and \<open>Retries\<close>+1 attempts, every one before the last a retryable
  failure (no response, 429 or a 5xx); it succeeds exactly when the last attempt did, and gives up
  only on a failure that is not worth retrying or when the attempts are used up. The pauses double
  up to five seconds for the first 36 retries; the shift overflows from the 37th on.
\<close>

theorem delivery_attempts_bounded:
  assumes "0 \<le> retries" "deliver_loop retries reply 0 = (ok, n)"
  shows "1 \<le> n \<and> n \<le> retries + 1 \<and> (\<forall>k. 0 \<le> k \<and> k < n - 1 \<longrightarrow> retryable (reply k)) \<and>
    (ok \<longleftrightarrow> attempt_ok (reply (n - 1))) \<and> (\<not> ok \<longrightarrow> \<not> retryable (reply (n - 1)) \<or> n = retries + 1) \<and>
    (\<forall>code. retryable (Status code) \<longleftrightarrow> code = 429 \<or> 500 \<le> code) \<and>
    (\<forall>code. attempt_ok (Status code) \<longleftrightarrow> 200 \<le> code \<and> code < 300) \<and>
    (\<forall>a \<in> {1..36}. sint (backoff_base a) = min (5 * second) (250 * millisecond * 2 ^ (a - 1))) \<and>
    sint (backoff_base 37) < 0"
proof -
  have "sint (backoff_base 37) < 0" by code_simp
  moreover have "retryable (Status code) \<longleftrightarrow> code = 429 \<or> 500 \<le> code"
    "attempt_ok (Status code) \<longleftrightarrow> 200 \<le> code \<and> code < 300" for code
    by (auto simp: retryable_def attempt_ok_def)
  ultimately show ?thesis using deliver_loop_spec[OF assms(2,1)] backoff_table by auto
qed

theorem delivery_attempts_bounded_witness:
  "\<exists>ok n. deliver_loop 2 (\<lambda>k. if k = 0 then Status 503 else Status 200) 0 = (ok, n) \<and> 1 \<le> n \<and> n \<le> 3"
proof -
  obtain ok n where r: "deliver_loop 2 (\<lambda>k. if k = 0 then Status 503 else Status 200) 0 = (ok, n)" by fastforce
  show ?thesis using r delivery_attempts_bounded[OF _ r] by auto
qed

end
