(* ===== verification/Learning.thy ===== *)
theory Learning
  imports Service_Laws Outcome_Fit
begin

text \<open>
  What the service learns from (\<open>internal/app/service.go\<close>, \<open>CalibrationSamples\<close> and
  \<open>StrategySamples\<close>): the recorded outcomes, paired with what the plan version they address said
  when the decision was made. Both walk the goals and, for each goal, its outcomes, page by page;
  the loop ends on a short page and nothing bounds it otherwise, so it is a partial function, and
  that it returns on a store at rest is proved.
\<close>

section \<open>The paging loop\<close>

text \<open>
  \<open>for { rows := list(page); ...; if len(rows) < page.Limit { return }; page.Offset += page.Limit }\<close>,
  with the listing, the body that treats a page, and what the body accumulates as arguments.
\<close>

partial_function (option) paged ::
  "(page \<Rightarrow> service \<Rightarrow> (go_error + 'r list) \<times> service) \<Rightarrow>
   ('r list \<Rightarrow> 'a \<Rightarrow> service \<Rightarrow> ((go_error + 'a) \<times> service) option) \<Rightarrow>
   page \<Rightarrow> 'a \<Rightarrow> service \<Rightarrow> ((go_error + 'a) \<times> service) option" where
  "paged fetch body pg acc s =
     (case fetch pg s of
        (Inl err, s1) \<Rightarrow> Some (Inl err, s1)
      | (Inr rows, s1) \<Rightarrow>
          Option.bind (body rows acc s1) (\<lambda>(r, s2).
            case r of
              Inl err \<Rightarrow> Some (Inl err, s2)
            | Inr acc' \<Rightarrow>
                if int (length rows) < pg_limit pg then Some (Inr acc', s2)
                else paged fetch body (pg\<lparr>pg_offset := pg_offset pg + pg_limit pg\<rparr>) acc' s2))"

definition first_page :: page where
  "first_page = \<lparr>pg_limit = MaxPageLimit, pg_offset = 0\<rparr>"

section \<open>The outcomes of a goal\<close>

text \<open>Success and failure carry a label, partial and inconclusive outcomes none.\<close>

definition decisive :: "outcome \<Rightarrow> bool option" where
  "decisive oc =
     (if o_result oc = OutcomeSuccess then Some True
      else if o_result oc = OutcomeFailure then Some False
      else None)"

definition keep :: "'a option \<Rightarrow> 'a list \<Rightarrow> 'a list" where
  "keep x xs = (case x of None \<Rightarrow> xs | Some y \<Rightarrow> xs @ [y])"

text \<open>The versions read so far are kept in a map, so each is read once.\<close>

type_synonym 'a collected = "(int \<Rightarrow> plan_version option) \<times> 'a list"

fun sample_outcomes ::
  "(plan_version \<Rightarrow> outcome \<Rightarrow> bool \<Rightarrow> 'a option) \<Rightarrow> string \<Rightarrow> service_env \<Rightarrow>
   outcome list \<Rightarrow> 'a collected \<Rightarrow> service \<Rightarrow> (go_error + 'a collected) \<times> service" where
  "sample_outcomes smp pid env [] acc s = (Inr acc, s)"
| "sample_outcomes smp pid env (oc # ocs) (vs, xs) s =
     (case decisive oc of
        None \<Rightarrow> sample_outcomes smp pid env ocs (vs, xs) s
      | Some success \<Rightarrow>
          (case vs (o_plan_version oc) of
             Some v \<Rightarrow> sample_outcomes smp pid env ocs (vs, keep (smp v oc success) xs) s
           | None \<Rightarrow>
               (case repo_read (get_plan_version pid (o_plan_version oc)) env s of
                  (Inl err, s1) \<Rightarrow>
                    if errors_is err ENotFound then sample_outcomes smp pid env ocs (vs, xs) s1
                    else (Inl err, s1)
                | (Inr v, s1) \<Rightarrow>
                    sample_outcomes smp pid env ocs
                      (vs(o_plan_version oc \<mapsto> v), keep (smp v oc success) xs) s1)))"

definition goal_samples ::
  "(plan_version \<Rightarrow> outcome \<Rightarrow> bool \<Rightarrow> 'a option) \<Rightarrow> string \<Rightarrow> service_env \<Rightarrow> service \<Rightarrow>
   ((go_error + 'a list) \<times> service) option" where
  "goal_samples smp gid env s =
     (case repo_read (get_plan_by_goal gid) env s of
        (Inl err, s1) \<Rightarrow> Some (if errors_is err ENotFound then Inr [] else Inl err, s1)
      | (Inr p, s1) \<Rightarrow>
          map_option (\<lambda>(r, s2). (map_sum id snd r, s2))
            (paged (\<lambda>pg. repo_read (\<lambda>m. Inr (list_outcomes gid pg m)) env)
                   (\<lambda>ocs acc t. Some (sample_outcomes smp (p_id p) env ocs acc t))
                   first_page (Map.empty, []) s1))"

section \<open>The goals of a domain\<close>

fun sample_goals ::
  "(plan_version \<Rightarrow> outcome \<Rightarrow> bool \<Rightarrow> 'a option) \<Rightarrow> string \<Rightarrow> service_env \<Rightarrow>
   goal list \<Rightarrow> 'a list \<Rightarrow> service \<Rightarrow> ((go_error + 'a list) \<times> service) option" where
  "sample_goals smp key env [] xs s = Some (Inr xs, s)"
| "sample_goals smp key env (g # gs) xs s =
     (if g_domain g \<noteq> key then sample_goals smp key env gs xs s
      else Option.bind (goal_samples smp (g_id g) env s) (\<lambda>(r, s1).
             case r of
               Inl err \<Rightarrow> Some (Inl err, s1)
             | Inr ys \<Rightarrow> sample_goals smp key env gs (xs @ ys) s1))"

definition domain_samples ::
  "(plan_version \<Rightarrow> outcome \<Rightarrow> bool \<Rightarrow> 'a option) \<Rightarrow> string \<Rightarrow> service_env \<Rightarrow> service \<Rightarrow>
   ((go_error + 'a list) \<times> service) option" where
  "domain_samples smp key env s =
     paged (\<lambda>pg. repo_read (\<lambda>m. Inr (list_goals '''' pg m)) env)
           (sample_goals smp key env) first_page [] s"

text \<open>
  The confidence before calibration where the plan recorded one, else the stated one; the move
  may be gone from the version.
\<close>

definition calibration_of :: "plan_version \<Rightarrow> outcome \<Rightarrow> bool \<Rightarrow> calibration_sample option" where
  "calibration_of v oc success =
     (case move_by_rank (v_ranked_moves v) (o_move_rank oc) of
        None \<Rightarrow> None
      | Some mv \<Rightarrow>
          Some \<lparr>cs_confidence = (if 0 < m_raw_confidence mv then m_raw_confidence mv else m_confidence mv),
                cs_success = success\<rparr>)"

text \<open>A plan that predates the selector names no strategy.\<close>

definition strategy_of :: "plan_version \<Rightarrow> outcome \<Rightarrow> bool \<Rightarrow> strategy_sample option" where
  "strategy_of v oc success =
     (if pr_selected_strategy (v_provenance v) = '''' then None
      else Some \<lparr>sr_strategy = pr_selected_strategy (v_provenance v), sr_regime = pr_regime (v_provenance v),
                 sr_success = success, sr_comparator = pr_comparator (v_provenance v)\<rparr>)"

definition calibration_samples ::
  "string \<Rightarrow> service_env \<Rightarrow> service \<Rightarrow> ((go_error + calibration_sample list) \<times> service) option" where
  "calibration_samples = domain_samples calibration_of"

definition strategy_samples ::
  "string \<Rightarrow> service_env \<Rightarrow> service \<Rightarrow> ((go_error + strategy_sample list) \<times> service) option" where
  "strategy_samples = domain_samples strategy_of"

section \<open>What the loops return on a store at rest\<close>

lemma paged_exact:
  assumes fetch: "\<And>n t. P t \<Longrightarrow>
      \<exists>t1. fetch \<lparr>pg_limit = MaxPageLimit, pg_offset = int n\<rparr> t =
             (Inr (take (nat MaxPageLimit) (drop n rows)), t1) \<and> P t1"
    and body: "\<And>seen rs acc t. set rs \<subseteq> set rows \<Longrightarrow> P t \<Longrightarrow> R seen acc \<Longrightarrow>
      \<exists>acc' t1. body rs acc t = Some (Inr acc', t1) \<and> R (seen @ rs) acc' \<and> P t1"
    and "P s" "R (take n rows) acc"
  shows "\<exists>acc' s'. paged fetch body \<lparr>pg_limit = MaxPageLimit, pg_offset = int n\<rparr> acc s = Some (Inr acc', s') \<and>
    R rows acc' \<and> P s'"
  using assms(3,4)
proof (induction "length rows - n" arbitrary: n acc s rule: less_induct)
  case less
  let ?pg = "\<lparr>pg_limit = MaxPageLimit, pg_offset = int n\<rparr>" and ?L = "nat MaxPageLimit"
  let ?rs = "take ?L (drop n rows)"
  have L: "MaxPageLimit = 200" "?L = 200" by (simp_all add: MaxPageLimit_def)
  obtain t1 where t1: "fetch ?pg s = (Inr ?rs, t1)" "P t1" using fetch[OF less.prems(1)] by blast
  have "set ?rs \<subseteq> set rows" by (meson order_trans set_drop_subset set_take_subset)
  from body[OF this t1(2) less.prems(2)]
  obtain acc' t2 where t2: "body ?rs acc t1 = Some (Inr acc', t2)" "R (take n rows @ ?rs) acc'" "P t2"
    by blast
  have seen: "take n rows @ ?rs = take (n + ?L) rows" by (simp add: take_add)
  have step: "paged fetch body ?pg acc s =
      (if length ?rs < ?L then Some (Inr acc', t2)
       else paged fetch body \<lparr>pg_limit = MaxPageLimit, pg_offset = int (n + ?L)\<rparr> acc' t2)"
  proof -
    have "int (length ?rs) < MaxPageLimit \<longleftrightarrow> length ?rs < ?L" "int (n + ?L) = int n + MaxPageLimit"
      by (simp_all add: L)
    with paged.simps[of fetch body ?pg acc s] t1(1) t2(1) show ?thesis
      by (simp del: length_take)
  qed
  show ?case
  proof (cases "length ?rs < ?L")
    case True
    hence "take (n + ?L) rows = rows" by simp
    with step True t2 seen show ?thesis by auto
  next
    case False
    hence "length rows - (n + ?L) < length rows - n" using L by simp
    from less.hyps[OF this t2(3), of acc'] t2(2) step False seen show ?thesis by auto
  qed
qed

text \<open>
  The reference: the label of every decisive outcome whose version is still there, in the order
  of the listing.
\<close>

definition outcome_rows :: "string \<Rightarrow> mem_repo \<Rightarrow> outcome list" where
  "outcome_rows gid m = map clone_outcome (filter (\<lambda>oc. o_goal_id oc = gid) (rev (outcomes m)))"

definition outcome_sample ::
  "(plan_version \<Rightarrow> outcome \<Rightarrow> bool \<Rightarrow> 'a option) \<Rightarrow> string \<Rightarrow> mem_repo \<Rightarrow> outcome \<Rightarrow> 'a option" where
  "outcome_sample smp pid m oc =
     (case decisive oc of
        None \<Rightarrow> None
      | Some success \<Rightarrow>
          (case get_plan_version pid (o_plan_version oc) m of Inl err \<Rightarrow> None | Inr v \<Rightarrow> smp v oc success))"

definition learned ::
  "(plan_version \<Rightarrow> outcome \<Rightarrow> bool \<Rightarrow> 'a option) \<Rightarrow> mem_repo \<Rightarrow> goal \<Rightarrow> 'a list" where
  "learned smp m g =
     (case get_plan_by_goal (g_id g) m of
        Inl err \<Rightarrow> []
      | Inr p \<Rightarrow> List.map_filter (outcome_sample smp (p_id p) m) (outcome_rows (g_id g) m))"

definition learned_in ::
  "(plan_version \<Rightarrow> outcome \<Rightarrow> bool \<Rightarrow> 'a option) \<Rightarrow> string \<Rightarrow> mem_repo \<Rightarrow> 'a list" where
  "learned_in smp key m = concat (map (learned smp m) (filter (\<lambda>g. g_domain g = key) (goal_rows '''' m)))"

lemma list_outcomes_page:
  "list_outcomes gid \<lparr>pg_limit = MaxPageLimit, pg_offset = int n\<rparr> m =
     take (nat MaxPageLimit) (drop n (outcome_rows gid m))"
  by (simp add: list_outcomes_def outcome_rows_def page_normalize_id paginate_eq MaxPageLimit_def)

lemma list_goals_page:
  "list_goals want \<lparr>pg_limit = MaxPageLimit, pg_offset = int n\<rparr> m =
     take (nat MaxPageLimit) (drop n (goal_rows want m))"
  by (simp add: list_goals_rows page_normalize_id paginate_eq MaxPageLimit_def)

lemma get_plan_version_Inl: "get_plan_version pid n m = Inl err \<Longrightarrow> err = ENotFound"
  by (auto simp: get_plan_version_def split: option.splits)

lemma get_plan_by_goal_Inl: "get_plan_by_goal gid m = Inl err \<Longrightarrow> err = ENotFound"
  by (auto simp: get_plan_by_goal_def split: option.splits)

lemma map_filter_snoc: "List.map_filter f (xs @ [x]) = keep (f x) (List.map_filter f xs)"
  by (simp add: List.map_filter_def keep_def split: option.splits)

text \<open>The state left alone: the store and the events.\<close>

definition left_alone :: "mem_repo \<Rightarrow> event list \<Rightarrow> service \<Rightarrow> bool" where
  "left_alone m evs t \<longleftrightarrow> sv_repo t = m \<and> sv_events t = evs"

lemma left_alone_others [simp]: "quiet env \<Longrightarrow> left_alone m evs (others_act env t) = left_alone m evs t"
  by (simp add: left_alone_def)

text \<open>What has been collected from the outcomes seen, and the cached versions being the stored ones.\<close>

definition collected_ok ::
  "(plan_version \<Rightarrow> outcome \<Rightarrow> bool \<Rightarrow> 'a option) \<Rightarrow> string \<Rightarrow> mem_repo \<Rightarrow> outcome list \<Rightarrow> 'a collected \<Rightarrow> bool" where
  "collected_ok smp pid m seen acc \<longleftrightarrow>
     snd acc = List.map_filter (outcome_sample smp pid m) seen \<and>
     (\<forall>n v. fst acc n = Some v \<longrightarrow> get_plan_version pid n m = Inr v)"

lemma sample_outcomes_exact:
  assumes "quiet env" "left_alone m evs t" "collected_ok smp pid m seen acc"
  shows "\<exists>acc' t1. sample_outcomes smp pid env ocs acc t = (Inr acc', t1) \<and>
    collected_ok smp pid m (seen @ ocs) acc' \<and> left_alone m evs t1"
  using assms(2,3)
proof (induction ocs arbitrary: seen acc t)
  case (Cons oc ocs)
  obtain vs xs where acc: "acc = (vs, xs)" by (cases acc) auto
  have repo: "sv_repo t = m" using Cons.prems(1) by (simp add: left_alone_def)
  have step: "collected_ok smp pid m (seen @ [oc]) (vs', keep (outcome_sample smp pid m oc) xs)"
    if "\<And>n v. vs' n = Some v \<Longrightarrow> get_plan_version pid n m = Inr v" for vs'
    using Cons.prems(2) that by (simp add: collected_ok_def acc map_filter_snoc)
  have vs: "vs n = Some v \<Longrightarrow> get_plan_version pid n m = Inr v" for n v
    using Cons.prems(2) by (simp add: collected_ok_def acc)
  have next_step: "\<exists>acc' t1. sample_outcomes smp pid env ocs (vs', keep (outcome_sample smp pid m oc) xs) t' = (Inr acc', t1) \<and>
      collected_ok smp pid m (seen @ oc # ocs) acc' \<and> left_alone m evs t1"
    if "left_alone m evs t'" "\<And>n v. vs' n = Some v \<Longrightarrow> get_plan_version pid n m = Inr v" for vs' t'
    using Cons.IH[OF that(1) step[OF that(2)]] by simp
  show ?case
  proof (cases "decisive oc")
    case None
    hence "outcome_sample smp pid m oc = None" by (simp add: outcome_sample_def)
    with next_step[OF Cons.prems(1) vs] None show ?thesis by (simp add: acc keep_def)
  next
    case (Some success)
    show ?thesis
    proof (cases "vs (o_plan_version oc)")
      case (Some v)
      hence "outcome_sample smp pid m oc = smp v oc success"
        using vs[OF Some] \<open>decisive oc = Some success\<close> by (simp add: outcome_sample_def)
      with next_step[OF Cons.prems(1) vs] Some \<open>decisive oc = Some success\<close> show ?thesis by (simp add: acc)
    next
      case None
      have t1: "left_alone m evs (others_act env t)" using Cons.prems(1) assms(1) by simp
      show ?thesis
      proof (cases "get_plan_version pid (o_plan_version oc) m")
        case (Inl err)
        hence "outcome_sample smp pid m oc = None" "err = ENotFound"
          using \<open>decisive oc = Some success\<close> by (simp_all add: outcome_sample_def get_plan_version_Inl)
        with next_step[OF t1 vs] Inl None \<open>decisive oc = Some success\<close> assms(1) repo show ?thesis
          by (simp add: acc keep_def)
      next
        case (Inr v)
        hence e: "outcome_sample smp pid m oc = smp v oc success"
          using \<open>decisive oc = Some success\<close> by (simp add: outcome_sample_def)
        have "(vs(o_plan_version oc \<mapsto> v)) n = Some w \<Longrightarrow> get_plan_version pid n m = Inr w" for n w
          using vs Inr by (auto split: if_splits)
        from next_step[of _ "vs(o_plan_version oc \<mapsto> v)", OF t1 this, unfolded e] Inr None \<open>decisive oc = Some success\<close> assms(1) repo show ?thesis
          by (simp add: acc)
      qed
    qed
  qed
qed simp

lemma goal_samples_exact:
  assumes "quiet env" "left_alone m evs t"
  shows "\<exists>t1. goal_samples smp (g_id g) env t = Some (Inr (learned smp m g), t1) \<and> left_alone m evs t1"
proof -
  have repo: "sv_repo t = m" using assms(2) by (simp add: left_alone_def)
  have t1: "left_alone m evs (others_act env t)" using assms by simp
  show ?thesis
  proof (cases "get_plan_by_goal (g_id g) m")
    case (Inl err)
    thus ?thesis using assms(1) repo t1 get_plan_by_goal_Inl[OF Inl]
      by (simp add: goal_samples_def learned_def)
  next
    case (Inr p)
    let ?fetch = "\<lambda>pg. repo_read (\<lambda>m. Inr (list_outcomes (g_id g) pg m)) env"
    let ?body = "\<lambda>ocs acc t. Some (sample_outcomes smp (p_id p) env ocs acc t)"
    have "\<exists>acc' s'. paged ?fetch ?body \<lparr>pg_limit = MaxPageLimit, pg_offset = int 0\<rparr> (Map.empty, []) (others_act env t) =
        Some (Inr acc', s') \<and> collected_ok smp (p_id p) m (outcome_rows (g_id g) m) acc' \<and> left_alone m evs s'"
    proof (rule paged_exact[where P = "left_alone m evs" and R = "collected_ok smp (p_id p) m"])
      fix n t assume "left_alone m evs t"
      thus "\<exists>t1. ?fetch \<lparr>pg_limit = MaxPageLimit, pg_offset = int n\<rparr> t =
          (Inr (take (nat MaxPageLimit) (drop n (outcome_rows (g_id g) m))), t1) \<and> left_alone m evs t1"
        using assms(1) by (simp add: list_outcomes_page left_alone_def)
    next
      fix seen rs and acc :: "'a collected" and t
      assume "left_alone m evs t" "collected_ok smp (p_id p) m seen acc"
      from sample_outcomes_exact[OF assms(1) this] show "\<exists>acc' t1. ?body rs acc t = Some (Inr acc', t1) \<and>
          collected_ok smp (p_id p) m (seen @ rs) acc' \<and> left_alone m evs t1" by simp
    qed (use t1 in \<open>simp_all add: collected_ok_def\<close>)
    then obtain acc' s' where r: "paged ?fetch ?body first_page (Map.empty, []) (others_act env t) = Some (Inr acc', s')"
        "snd acc' = List.map_filter (outcome_sample smp (p_id p) m) (outcome_rows (g_id g) m)" "left_alone m evs s'"
      by (auto simp: first_page_def collected_ok_def)
    from Inr repo assms(1) r show ?thesis by (simp add: goal_samples_def learned_def)
  qed
qed

lemma sample_goals_exact:
  assumes "quiet env" "left_alone m evs t"
  shows "\<exists>t1. sample_goals smp key env gs xs t =
      Some (Inr (xs @ concat (map (learned smp m) (filter (\<lambda>g. g_domain g = key) gs))), t1) \<and> left_alone m evs t1"
  using assms(2)
proof (induction gs arbitrary: xs t)
  case (Cons g gs)
  show ?case
  proof (cases "g_domain g = key")
    case True
    obtain t1 where "goal_samples smp (g_id g) env t = Some (Inr (learned smp m g), t1)" "left_alone m evs t1"
      using goal_samples_exact[OF assms(1) Cons.prems] by blast
    with Cons.IH[OF this(2), of "xs @ learned smp m g"] True show ?thesis by simp
  qed (use Cons in simp)
qed simp

lemma domain_samples_exact:
  assumes "quiet env"
  shows "\<exists>s'. domain_samples smp key env s = Some (Inr (learned_in smp key (sv_repo s)), s') \<and>
    sv_repo s' = sv_repo s \<and> sv_events s' = sv_events s"
proof -
  let ?m = "sv_repo s" and ?evs = "sv_events s"
  let ?fetch = "\<lambda>pg. repo_read (\<lambda>m. Inr (list_goals '''' pg m)) env"
  let ?R = "\<lambda>seen xs. xs = concat (map (learned smp ?m) (filter (\<lambda>g. g_domain g = key) seen))"
  have "left_alone ?m ?evs s" by (simp add: left_alone_def)
  hence "\<exists>acc' s'. paged ?fetch (sample_goals smp key env) \<lparr>pg_limit = MaxPageLimit, pg_offset = int 0\<rparr> [] s =
      Some (Inr acc', s') \<and> ?R (goal_rows '''' ?m) acc' \<and> left_alone ?m ?evs s'"
  proof (rule paged_exact[where P = "left_alone ?m ?evs" and R = ?R, rotated 2])
    fix n t assume "left_alone ?m ?evs t"
    thus "\<exists>t1. ?fetch \<lparr>pg_limit = MaxPageLimit, pg_offset = int n\<rparr> t =
        (Inr (take (nat MaxPageLimit) (drop n (goal_rows '''' ?m))), t1) \<and> left_alone ?m ?evs t1"
      using assms by (simp add: list_goals_page left_alone_def)
  next
    fix seen rs xs t assume "left_alone ?m ?evs t" "?R seen xs"
    with sample_goals_exact[OF assms this(1), of smp key rs xs]
    show "\<exists>acc' t1. sample_goals smp key env rs xs t = Some (Inr acc', t1) \<and> ?R (seen @ rs) acc' \<and> left_alone ?m ?evs t1"
      by auto
  qed simp
  thus ?thesis by (auto simp: domain_samples_def first_page_def learned_in_def left_alone_def)
qed

section \<open>Properties\<close>

text \<open>
  The decided outcomes of a domain, each with the version it addresses: those that succeeded or
  failed, of the domain's planned goals, whose version is stored; goal by goal and outcome by
  outcome in the order of the listings.
\<close>

definition decided :: "string \<Rightarrow> mem_repo \<Rightarrow> (plan_version \<times> outcome) list" where
  "decided key m =
     concat (map (\<lambda>g. case get_plan_by_goal (g_id g) m of
         Inl err \<Rightarrow> []
       | Inr p \<Rightarrow> [(v, oc). oc \<leftarrow> outcome_rows (g_id g) m,
                       o_result oc = OutcomeSuccess \<or> o_result oc = OutcomeFailure,
                       Inr v \<leftarrow> [get_plan_version (p_id p) (o_plan_version oc) m]])
       (filter (\<lambda>g. g_domain g = key) (goal_rows '''' m)))"

lemma map_filter_concat: "List.map_filter f (concat xss) = concat (map (List.map_filter f) xss)"
  by (induction xss) (simp_all add: List.map_filter_def)

lemma map_filter_Cons: "List.map_filter f (x # xs) = (case f x of None \<Rightarrow> [] | Some y \<Rightarrow> [y]) @ List.map_filter f xs"
  by (simp add: List.map_filter_def split: option.split)

lemma map_filter_Nil: "List.map_filter f [] = []"
  by (simp add: List.map_filter_def)

lemma learned_in_decided:
  "learned_in smp key m =
     List.map_filter (\<lambda>(v, oc). smp v oc (o_result oc = OutcomeSuccess)) (decided key m)"
proof -
  have rows: "List.map_filter (outcome_sample smp pid m) ocs =
      List.map_filter (\<lambda>(v, oc). smp v oc (o_result oc = OutcomeSuccess))
        [(v, oc). oc \<leftarrow> ocs, o_result oc = OutcomeSuccess \<or> o_result oc = OutcomeFailure,
           Inr v \<leftarrow> [get_plan_version pid (o_plan_version oc) m]]" for pid ocs
    by (induction ocs)
       (auto simp: map_filter_Cons map_filter_Nil outcome_sample_def decisive_def outcome_defs split: sum.splits option.splits)
  have "learned smp m = (\<lambda>g. List.map_filter (\<lambda>(v, oc). smp v oc (o_result oc = OutcomeSuccess))
      (case get_plan_by_goal (g_id g) m of
         Inl err \<Rightarrow> []
       | Inr p \<Rightarrow> [(v, oc). oc \<leftarrow> outcome_rows (g_id g) m,
                       o_result oc = OutcomeSuccess \<or> o_result oc = OutcomeFailure,
                       Inr v \<leftarrow> [get_plan_version (p_id p) (o_plan_version oc) m]]))"
    (is "_ = ?by_goal")
  proof (rule ext)
    fix g show "learned smp m g = ?by_goal g"
      by (cases "get_plan_by_goal (g_id g) m") (simp_all add: learned_def rows map_filter_Nil)
  qed
  thus ?thesis by (simp only: learned_in_def decided_def map_filter_concat map_map comp_def)
qed

lemma map_filter_eq: "List.map_filter f xs = map (the \<circ> f) (filter (\<lambda>x. f x \<noteq> None) xs)"
  by (simp add: List.map_filter_def comp_def)

lemma calibration_learned:
  "learned_in calibration_of key m =
     map (\<lambda>(v, oc). let mv = the (move_by_rank (v_ranked_moves v) (o_move_rank oc)) in
            \<lparr>cs_confidence = (if 0 < m_raw_confidence mv then m_raw_confidence mv else m_confidence mv),
             cs_success = (o_result oc = OutcomeSuccess)\<rparr>)
       (filter (\<lambda>(v, oc). move_by_rank (v_ranked_moves v) (o_move_rank oc) \<noteq> None) (decided key m))"
  unfolding learned_in_decided map_filter_eq
  by (intro map_cong filter_cong) (auto simp: calibration_of_def split: option.splits)

lemma strategy_learned:
  "learned_in strategy_of key m =
     map (\<lambda>(v, oc). \<lparr>sr_strategy = pr_selected_strategy (v_provenance v), sr_regime = pr_regime (v_provenance v),
            sr_success = (o_result oc = OutcomeSuccess), sr_comparator = pr_comparator (v_provenance v)\<rparr>)
       (filter (\<lambda>(v, oc). pr_selected_strategy (v_provenance v) \<noteq> '''') (decided key m))"
  unfolding learned_in_decided map_filter_eq
  by (intro map_cong filter_cong) (auto simp: strategy_of_def split: if_splits)

text \<open>
  C34: on a store no other goroutine touches, both scans return, whatever the number of goals and
  outcomes, and leave the store and the events alone. They walk the decided outcomes, those that
  succeeded or failed, of the domain's planned goals, whose version is stored, in the order of the
  listings. The calibration scan returns one sample for each whose move is in the version, with
  the confidence before any curve was applied, or the stated one where none is recorded; the
  strategy scan one for each whose version names a selected strategy, with the strategy, the
  regime and the comparator the version recorded; and the others give none.
\<close>

theorem learning_scans_complete:
  assumes "quiet env"
  shows "(\<exists>s'. calibration_samples key env s =
            Some (Inr
              (map (\<lambda>(v, oc). let mv = the (move_by_rank (v_ranked_moves v) (o_move_rank oc)) in
                      \<lparr>cs_confidence = (if 0 < m_raw_confidence mv then m_raw_confidence mv else m_confidence mv),
                       cs_success = (o_result oc = OutcomeSuccess)\<rparr>)
                 (filter (\<lambda>(v, oc). move_by_rank (v_ranked_moves v) (o_move_rank oc) \<noteq> None) (decided key (sv_repo s)))), s') \<and>
            sv_repo s' = sv_repo s \<and> sv_events s' = sv_events s) \<and>
         (\<exists>s'. strategy_samples key env s =
            Some (Inr
              (map (\<lambda>(v, oc). \<lparr>sr_strategy = pr_selected_strategy (v_provenance v), sr_regime = pr_regime (v_provenance v),
                      sr_success = (o_result oc = OutcomeSuccess), sr_comparator = pr_comparator (v_provenance v)\<rparr>)
                 (filter (\<lambda>(v, oc). pr_selected_strategy (v_provenance v) \<noteq> '''') (decided key (sv_repo s)))), s') \<and>
            sv_repo s' = sv_repo s \<and> sv_events s' = sv_events s)"
  unfolding calibration_learned[symmetric] strategy_learned[symmetric]
  by (simp only: calibration_samples_def strategy_samples_def domain_samples_exact[OF assms] simp_thms)

definition sample_result :: "outcome_result \<Rightarrow> int \<Rightarrow> outcome" where
  "sample_result r rank =
     \<lparr>o_id = ''out_1'', o_goal_id = ''goal_1'', o_plan_version = 1, o_move_rank = rank, o_move_title = '''',
      o_result = r, o_observed_signals = [], o_notes = '''', o_created_at = 0\<rparr>"

text \<open>A success of move 1, a partial result of it, and a failure of a move that is not there.\<close>

definition learning_store :: mem_repo where
  "learning_store = outcome_store\<lparr>goals := [(''goal_1'', sample_goal)],
     outcomes := [sample_result OutcomeSuccess 1, sample_result OutcomePartial 1, sample_result OutcomeFailure 9]\<rparr>"

theorem learning_scans_complete_witness:
  "\<exists>s'. calibration_samples '''' (sample_env []) (sample_service learning_store) =
     Some (Inr [\<lparr>cs_confidence = 1, cs_success = True\<rparr>], s') \<and> length (decided '''' learning_store) = 2"
proof -
  have l: "learned_in calibration_of '''' learning_store = [\<lparr>cs_confidence = 1, cs_success = True\<rparr>]"
    by (simp add: learned_in_def goal_rows_def learning_store_def goal_matches_status_def sample_goal_def
        zero_goal_def learned_def get_plan_by_goal_def outcome_store_def sample_defs outcome_rows_def
        sample_result_def clone_outcome_def List.map_filter_def outcome_sample_def decisive_def outcome_defs
        get_plan_version_def calibration_of_def move_by_rank_def sample_move_def zero_move_def zero_time_def)
  have "length (decided '''' learning_store) = 2"
    by (simp add: decided_def goal_rows_def learning_store_def goal_matches_status_def sample_goal_def
        zero_goal_def get_plan_by_goal_def outcome_store_def sample_defs outcome_rows_def
        sample_result_def clone_outcome_def outcome_defs get_plan_version_def sample_move_def zero_move_def zero_time_def)
  thus ?thesis
    using learning_scans_complete[of "sample_env []" "''''" "sample_service learning_store", OF sample_quiet] l
    unfolding calibration_learned by (auto simp: sample_service_def)
qed

end
