(* ===== verification/Llm_Byok.thy ===== *)
theory Llm_Byok
  imports Llm_Mock
begin

text \<open>
  Bring-your-own-key planning: \<open>internal/llm/byok.go\<close> with the middleware of
  \<open>internal/api/middleware.go\<close> that puts the caller's credentials on the request. The two vendor
  constructors (\<open>NewAnthropicPlanner\<close>, \<open>NewOpenAIPlanner\<close>) build HTTP clients and are arguments
  here (\<open>Llm_Clients\<close> holds them); a built planner is a value of any type \<open>'p\<close>.
\<close>

record credentials =
  cr_provider :: string
  cr_key :: string

type_synonym headers = "string \<Rightarrow> string"

text \<open>The middleware leaves the request alone when the key header is empty.\<close>

definition llm_credentials_middleware :: "headers \<Rightarrow> credentials option \<Rightarrow> credentials option" where
  "llm_credentials_middleware hdr ctx =
     (if hdr ''X-LLM-Key'' \<noteq> ''''
      then Some \<lparr>cr_provider = hdr ''X-LLM-Provider'', cr_key = hdr ''X-LLM-Key''\<rparr>
      else ctx)"

definition credentials_from_context :: "unicode \<Rightarrow> credentials option \<Rightarrow> credentials option" where
  "credentials_from_context u ctx =
     (case ctx of
        None \<Rightarrow> None
      | Some c \<Rightarrow> if uc_trim_space u (cr_key c) = '''' then None else Some c)"

definition PlannerName :: string where "PlannerName = ''byok''"

definition defaultByokCacheSize :: int where "defaultByokCacheSize = 256"

text \<open>What the two constructors are given.\<close>

record llm_vendor_config =
  vd_provider :: string
  vd_api_key :: string
  vd_model :: string
  vd_base_url :: string
  vd_max_tokens :: int

record 'p vendors =
  vn_anthropic :: "llm_vendor_config \<Rightarrow> 'p"
  vn_openai :: "llm_vendor_config \<Rightarrow> 'p"

record byok_config =
  bc_fallback :: "planner option"
  bc_model :: string
  bc_base_url :: string
  bc_max_tokens :: int
  bc_max_cached :: int

record 'p byok =
  by_fallback :: planner
  by_model :: string
  by_base_url :: string
  by_max_tokens :: int
  by_max_cached :: int
  by_cache :: "(string \<times> 'p) list"

definition new_byok_planner :: "planner \<Rightarrow> byok_config \<Rightarrow> 'p byok" where
  "new_byok_planner mock cfg =
     \<lparr>by_fallback = (case bc_fallback cfg of None \<Rightarrow> mock | Some f \<Rightarrow> f),
      by_model = bc_model cfg, by_base_url = bc_base_url cfg, by_max_tokens = bc_max_tokens cfg,
      by_max_cached = (if bc_max_cached cfg \<le> 0 then defaultByokCacheSize else bc_max_cached cfg),
      by_cache = []\<rparr>"

definition byok_cache_key :: "(string \<Rightarrow> string) \<Rightarrow> string \<Rightarrow> string \<Rightarrow> string \<Rightarrow> string" where
  "byok_cache_key hexsha provider key model =
     hexsha (provider @ [CHR 0x00] @ key @ [CHR 0x00] @ model)"

text \<open>The Anthropic constructor is given neither a provider nor a base URL.\<close>

definition byok_build ::
  "unicode \<Rightarrow> 'p vendors \<Rightarrow> 'p byok \<Rightarrow> string \<Rightarrow> string \<Rightarrow> go_error + 'p" where
  "byok_build u vn b provider key =
     (if provider = ''anthropic''
      then Inr (vn_anthropic vn
        \<lparr>vd_provider = '''', vd_api_key = key, vd_model = by_model b, vd_base_url = '''',
         vd_max_tokens = by_max_tokens b\<rparr>)
      else if provider = ''openai'' \<or> provider = ''deepseek''
      then Inr (vn_openai vn
        \<lparr>vd_provider = provider, vd_api_key = key, vd_model = by_model b, vd_base_url = by_base_url b,
         vd_max_tokens = by_max_tokens b\<rparr>)
      else Inl (EWrapAfter EUnsupportedProvider (uc_quote u provider)))"

definition byok_provider :: "unicode \<Rightarrow> credentials \<Rightarrow> string" where
  "byok_provider u c =
     (let p = uc_to_lower u (uc_trim_space u (cr_provider c)) in if p = '''' then ''anthropic'' else p)"

text \<open>The state is the memo; it is dropped wholesale once full, before the new planner goes in.\<close>

definition byok_planner_for ::
  "unicode \<Rightarrow> (string \<Rightarrow> string) \<Rightarrow> 'p vendors \<Rightarrow> credentials \<Rightarrow> 'p byok \<Rightarrow> (go_error + 'p) \<times> 'p byok" where
  "byok_planner_for u hexsha vn c b =
     (let provider = byok_provider u c; key = byok_cache_key hexsha provider (cr_key c) (by_model b) in
      case map_of (by_cache b) key of
        Some pl \<Rightarrow> (Inr pl, b)
      | None \<Rightarrow>
          (case byok_build u vn b provider (cr_key c) of
             Inl err \<Rightarrow> (Inl err, b)
           | Inr pl \<Rightarrow>
               let cache = (if by_max_cached b \<le> int (length (by_cache b)) then [] else by_cache b)
               in (Inr pl, b\<lparr>by_cache := (key, pl) # cache\<rparr>)))"

definition byok_generate ::
  "unicode \<Rightarrow> (string \<Rightarrow> string) \<Rightarrow> planner vendors \<Rightarrow> credentials option \<Rightarrow> plan_request \<Rightarrow>
   planner byok \<Rightarrow> (go_error + plan_result) \<times> planner byok" where
  "byok_generate u hexsha vn ctx req b =
     (case credentials_from_context u ctx of
        None \<Rightarrow> (by_fallback b req, b)
      | Some c \<Rightarrow>
          (case byok_planner_for u hexsha vn c b of
             (Inl err, b1) \<Rightarrow> (Inl err, b1)
           | (Inr pl, b1) \<Rightarrow> (pl req, b1)))"

text \<open>The planner after the requests that carried these contexts.\<close>

fun byok_serve ::
  "unicode \<Rightarrow> (string \<Rightarrow> string) \<Rightarrow> planner vendors \<Rightarrow> (credentials option \<times> plan_request) list \<Rightarrow>
   planner byok \<Rightarrow> planner byok" where
  "byok_serve u hexsha vn [] b = b"
| "byok_serve u hexsha vn ((ctx, req) # rs) b =
     byok_serve u hexsha vn rs (snd (byok_generate u hexsha vn ctx req b))"

section \<open>What the memo holds\<close>

definition byok_text :: "unicode \<Rightarrow> string \<Rightarrow> credentials \<Rightarrow> string" where
  "byok_text u model c = byok_provider u c @ [CHR 0x00] @ cr_key c @ [CHR 0x00] @ model"

definition same_config :: "'p byok \<Rightarrow> 'p byok \<Rightarrow> bool" where
  "same_config b b' \<longleftrightarrow>
     by_fallback b' = by_fallback b \<and> by_model b' = by_model b \<and> by_base_url b' = by_base_url b \<and>
     by_max_tokens b' = by_max_tokens b \<and> by_max_cached b' = by_max_cached b"

text \<open>Every entry is the planner built for some credentials that were served, under their key.\<close>

definition byok_ok ::
  "unicode \<Rightarrow> (string \<Rightarrow> string) \<Rightarrow> 'p vendors \<Rightarrow> credentials set \<Rightarrow> 'p byok \<Rightarrow> bool" where
  "byok_ok u hexsha vn cs b \<longleftrightarrow>
     0 < by_max_cached b \<and> int (length (by_cache b)) \<le> by_max_cached b \<and>
     list_all (\<lambda>(k, pl). \<exists>c\<in>cs. k = hexsha (byok_text u (by_model b) c) \<and>
        byok_build u vn b (byok_provider u c) (cr_key c) = Inr pl) (by_cache b)"

lemma byok_build_cong: "same_config b b' \<Longrightarrow> byok_build u vn b' = byok_build u vn b"
  by (simp add: same_config_def byok_build_def fun_eq_iff)

lemma byok_build_Inr:
  "byok_build u vn b p k = Inr pl \<Longrightarrow> p \<in> {''anthropic'', ''openai'', ''deepseek''}"
  by (simp add: byok_build_def split: if_splits)

lemma byok_build_Inl:
  "byok_build u vn b p k = Inl err \<longleftrightarrow>
     p \<notin> {''anthropic'', ''openai'', ''deepseek''} \<and> err = EWrapAfter EUnsupportedProvider (uc_quote u p)"
  by (auto simp: byok_build_def)

text \<open>A header value holds no NUL, so the text determines provider and key.\<close>

lemma byok_text_inj:
  assumes "byok_text u model c = byok_text u model c'"
    and "CHR 0x00 \<notin> set (byok_provider u c)" "CHR 0x00 \<notin> set (byok_provider u c')"
  shows "byok_provider u c = byok_provider u c' \<and> cr_key c = cr_key c'"
proof -
  have split: "xs = xs' \<and> ys = ys'"
    if "xs @ [a] @ ys = xs' @ [a] @ ys'" "a \<notin> set xs" "a \<notin> set xs'" for a :: char and xs xs' ys ys'
    using that by (auto simp: append_eq_append_conv2 append_eq_Cons_conv Cons_eq_append_conv)
  from split[OF assms(1)[unfolded byok_text_def] assms(2,3)] show ?thesis by simp
qed

definition collision_free :: "unicode \<Rightarrow> (string \<Rightarrow> string) \<Rightarrow> string \<Rightarrow> credentials set \<Rightarrow> bool" where
  "collision_free u hexsha model cs \<longleftrightarrow>
     inj_on hexsha (byok_text u model ` cs) \<and> (\<forall>c\<in>cs. CHR 0x00 \<notin> set (byok_provider u c))"

lemma byok_planner_for_step:
  assumes ok: "byok_ok u hexsha vn cs b" and cf: "collision_free u hexsha (by_model b) (insert c cs)"
    and r: "byok_planner_for u hexsha vn c b = (r, b')"
  shows "r = byok_build u vn b (byok_provider u c) (cr_key c) \<and> same_config b b' \<and>
    byok_ok u hexsha vn (insert c cs) b' \<and>
    (byok_provider u c \<notin> {''anthropic'', ''openai'', ''deepseek''} \<longrightarrow> b' = b)"
proof -
  let ?p = "byok_provider u c" and ?t = "byok_text u (by_model b)"
  have key: "byok_cache_key hexsha ?p (cr_key c) (by_model b) = hexsha (?t c)"
    by (simp add: byok_cache_key_def byok_text_def)
  have weaken: "byok_ok u hexsha vn (insert c cs) b"
    using ok by (auto simp: byok_ok_def list_all_iff)
  show ?thesis
  proof (cases "map_of (by_cache b) (hexsha (?t c))")
    case (Some pl)
    hence "(hexsha (?t c), pl) \<in> set (by_cache b)" by (rule map_of_SomeD)
    then obtain c' where c': "c' \<in> cs" "hexsha (?t c) = hexsha (?t c')"
        "byok_build u vn b (byok_provider u c') (cr_key c') = Inr pl"
      using ok by (auto simp: byok_ok_def list_all_iff)
    have "?t c = ?t c'"
      using cf c'(1,2) by (auto simp: collision_free_def dest: inj_onD)
    hence "?p = byok_provider u c' \<and> cr_key c = cr_key c'"
      by (rule byok_text_inj) (use cf c'(1) in \<open>auto simp: collision_free_def\<close>)
    moreover have "r = Inr pl \<and> b' = b" using r Some by (simp add: byok_planner_for_def key Let_def)
    ultimately show ?thesis using c'(3) weaken by (simp add: same_config_def)
  next
    case None
    show ?thesis
    proof (cases "byok_build u vn b ?p (cr_key c)")
      case (Inl err)
      with None r weaken show ?thesis
        by (auto simp: byok_planner_for_def key Let_def same_config_def)
    next
      case (Inr pl)
      let ?cache = "if by_max_cached b \<le> int (length (by_cache b)) then [] else by_cache b"
      have b': "r = Inr pl" "b' = b\<lparr>by_cache := (hexsha (?t c), pl) # ?cache\<rparr>"
        using None r Inr by (auto simp: byok_planner_for_def key Let_def)
      have same: "same_config b b'" by (simp add: b' same_config_def)
      have "int (length (by_cache b')) \<le> by_max_cached b'" "0 < by_max_cached b'"
        using ok by (auto simp: b' byok_ok_def)
      moreover have "list_all (\<lambda>(k, pl). \<exists>c\<in>insert c cs. k = hexsha (byok_text u (by_model b') c) \<and>
          byok_build u vn b' (byok_provider u c) (cr_key c) = Inr pl) (by_cache b')"
        unfolding byok_build_cong[OF same] using weaken Inr
        by (auto simp: b'(2) byok_ok_def)
      ultimately have "byok_ok u hexsha vn (insert c cs) b'" by (simp add: byok_ok_def)
      with same b'(1) Inr byok_build_Inr[OF Inr] show ?thesis by auto
    qed
  qed
qed

fun served :: "unicode \<Rightarrow> (credentials option \<times> plan_request) list \<Rightarrow> credentials set" where
  "served u [] = {}"
| "served u ((ctx, req) # rs) =
     (case credentials_from_context u ctx of None \<Rightarrow> {} | Some c \<Rightarrow> {c}) \<union> served u rs"

lemma collision_free_mono:
  "collision_free u hexsha model cs \<Longrightarrow> cs' \<subseteq> cs \<Longrightarrow> collision_free u hexsha model cs'"
  unfolding collision_free_def by (meson image_mono inj_on_subset subsetD)

lemma byok_serve_ok:
  assumes "byok_ok u hexsha vn cs b" "collision_free u hexsha (by_model b) (cs \<union> served u rs)"
  shows "byok_ok u hexsha vn (cs \<union> served u rs) (byok_serve u hexsha vn rs b) \<and>
    same_config b (byok_serve u hexsha vn rs b)"
  using assms
proof (induction rs arbitrary: b cs)
  case (Cons r rs)
  obtain ctx req where r: "r = (ctx, req)" by (cases r)
  show ?case
  proof (cases "credentials_from_context u ctx")
    case None
    with Cons show ?thesis by (simp add: r byok_generate_def)
  next
    case (Some c)
    obtain res b' where p: "byok_planner_for u hexsha vn c b = (res, b')" by fastforce
    have "collision_free u hexsha (by_model b) (insert c cs)"
      by (rule collision_free_mono[OF Cons.prems(2)]) (auto simp: r Some)
    note step = byok_planner_for_step[OF Cons.prems(1) this p]
    have "snd (byok_generate u hexsha vn ctx req b) = b'"
      by (simp add: byok_generate_def Some p split: sum.splits)
    moreover have "collision_free u hexsha (by_model b') (insert c cs \<union> served u rs)"
      using Cons.prems(2) step by (simp add: r Some same_config_def)
    ultimately show ?thesis
      using Cons.IH[of "insert c cs" b'] step by (auto simp: r Some same_config_def)
  qed
qed (simp add: same_config_def)

section \<open>Properties\<close>

text \<open>
  C15: whatever requests a bring-your-own-key planner served before, a request with a key runs the
  planner built from that request's own provider and key, never one built for another caller's; an
  unsupported provider is \<open>ErrUnsupportedProvider\<close> and stores nothing; a request without a key, or
  with a blank one, runs the fallback; and the memo never exceeds its bound. The hash is assumed
  not to collide on the credentials served, and header values hold no NUL.
\<close>

theorem byok_uses_own_key:
  assumes "collision_free u hexsha (bc_model cfg) (served u ((ctx, req) # rs))"
  shows "let b = byok_serve u hexsha vn rs (new_byok_planner mock cfg);
             (r, b') = byok_generate u hexsha vn ctx req b in
    int (length (by_cache b')) \<le> by_max_cached b \<and>
    (case credentials_from_context u ctx of
       None \<Rightarrow> r = (case bc_fallback cfg of None \<Rightarrow> mock | Some f \<Rightarrow> f) req \<and> b' = b
     | Some c \<Rightarrow>
         if byok_provider u c \<notin> {''anthropic'', ''openai'', ''deepseek''}
         then (\<exists>err. r = Inl err \<and> errors_is err EUnsupportedProvider) \<and> b' = b
         else \<exists>pl. byok_build u vn (new_byok_planner mock cfg) (byok_provider u c) (cr_key c) = Inr pl \<and>
                r = pl req)"
proof -
  let ?b0 = "new_byok_planner mock cfg"
  define b where "b = byok_serve u hexsha vn rs ?b0"
  obtain r b' where g: "byok_generate u hexsha vn ctx req b = (r, b')" by fastforce
  have "byok_ok u hexsha vn {} ?b0" by (auto simp: byok_ok_def new_byok_planner_def defaultByokCacheSize_def)
  moreover have "collision_free u hexsha (by_model ?b0) ({} \<union> served u rs)"
    by (rule collision_free_mono[of _ _ _ "served u ((ctx, req) # rs)"])
       (use assms in \<open>auto simp: new_byok_planner_def\<close>)
  ultimately have b: "byok_ok u hexsha vn (served u rs) b" "same_config ?b0 b"
    using byok_serve_ok[of u hexsha vn "{}" ?b0 rs] by (auto simp: b_def)
  show ?thesis
  proof (cases "credentials_from_context u ctx")
    case None
    have "by_fallback b = (case bc_fallback cfg of None \<Rightarrow> mock | Some f \<Rightarrow> f)"
      using b(2) by (simp add: same_config_def new_byok_planner_def)
    moreover have "int (length (by_cache b)) \<le> by_max_cached b" using b(1) by (simp add: byok_ok_def)
    ultimately show ?thesis
      using None by (simp add: byok_generate_def b_def[symmetric])
  next
    case (Some c)
    obtain res b1 where p: "byok_planner_for u hexsha vn c b = (res, b1)" by fastforce
    have "collision_free u hexsha (by_model b) (insert c (served u rs))"
      using assms Some b(2) by (simp add: same_config_def new_byok_planner_def)
    note step = byok_planner_for_step[OF b(1) this p]
    have res: "res = byok_build u vn ?b0 (byok_provider u c) (cr_key c)"
      using step byok_build_cong[OF b(2)] by metis
    have b1: "b' = b1" using g by (simp add: byok_generate_def Some p split: sum.splits)
    have len: "int (length (by_cache b1)) \<le> by_max_cached b"
      using step by (auto simp: byok_ok_def same_config_def)
    show ?thesis
    proof (cases res)
      case (Inl err)
      with res have "byok_provider u c \<notin> {''anthropic'', ''openai'', ''deepseek''}"
          "err = EWrapAfter EUnsupportedProvider (uc_quote u (byok_provider u c))"
        by (metis byok_build_Inl)+
      moreover have "r = Inl err" using g by (simp add: byok_generate_def Some p Inl)
      moreover have "b1 = b" using step calculation(1) by simp
      ultimately show ?thesis using g b1 len Some by (simp add: b_def[symmetric])
    next
      case (Inr pl)
      with res have "byok_provider u c \<in> {''anthropic'', ''openai'', ''deepseek''}"
        by (metis byok_build_Inr)
      moreover have "r = pl req" using g by (simp add: byok_generate_def Some p Inr)
      ultimately show ?thesis using g b1 len Some res[symmetric] Inr by (simp add: b_def[symmetric])
    qed
  qed
qed

definition echo_vendors :: "planner vendors" where
  "echo_vendors =
     \<lparr>vn_anthropic = (\<lambda>v req. Inr (zero_result\<lparr>rs_summary := vd_api_key v\<rparr>)),
      vn_openai = (\<lambda>v req. Inr (zero_result\<lparr>rs_summary := vd_provider v @ ''/'' @ vd_api_key v\<rparr>))\<rparr>"

definition alice :: "credentials option" where
  "alice = llm_credentials_middleware (\<lambda>h. if h = ''X-LLM-Key'' then ''ka'' else '''') None"

definition bob :: "credentials option" where
  "bob = llm_credentials_middleware (\<lambda>h. if h = ''X-LLM-Key'' then ''kb'' else '' OpenAI '') None"

lemma alice_bob:
  "credentials_from_context ascii_unicode alice = Some \<lparr>cr_provider = '''', cr_key = ''ka''\<rparr>"
  "credentials_from_context ascii_unicode bob = Some \<lparr>cr_provider = '' OpenAI '', cr_key = ''kb''\<rparr>"
  "byok_provider ascii_unicode \<lparr>cr_provider = '''', cr_key = ''ka''\<rparr> = ''anthropic''"
  "byok_provider ascii_unicode \<lparr>cr_provider = '' OpenAI '', cr_key = ''kb''\<rparr> = ''openai''"
  by code_simp+

theorem byok_uses_own_key_witness:
  "fst (byok_generate ascii_unicode id echo_vendors bob zero_request
      (byok_serve ascii_unicode id echo_vendors [(alice, zero_request)]
        (new_byok_planner (\<lambda>q. Inr zero_result)
          \<lparr>bc_fallback = None, bc_model = '''', bc_base_url = '''', bc_max_tokens = 0, bc_max_cached = 1\<rparr>)))
    = Inr (zero_result\<lparr>rs_summary := ''openai/kb''\<rparr>)"
proof -
  let ?cfg = "\<lparr>bc_fallback = None, bc_model = '''', bc_base_url = '''', bc_max_tokens = 0, bc_max_cached = 1\<rparr>"
  have "collision_free ascii_unicode id (bc_model ?cfg) (served ascii_unicode ((bob, zero_request) # [(alice, zero_request)]))"
    by (simp add: collision_free_def alice_bob)
  from byok_uses_own_key[OF this, of echo_vendors "\<lambda>q. Inr zero_result"] show ?thesis
    by (auto simp: alice_bob Let_def case_prod_beta byok_build_def echo_vendors_def)
qed

end
