(* ===== verification/Go_Text.thy ===== *)
theory Go_Text
  imports Constraint_Text Go_Time
begin

text \<open>
  Reading text back: \<open>strconv.Atoi\<close>, \<open>strings.Split\<close> on one byte, \<open>strings.Contains\<close> and
  \<open>time.ParseInLocation\<close> with the layout \<open>2006-01-02\<close>, each with its round trip through the printer
  the source uses.
\<close>

section \<open>Integers\<close>

text \<open>\<open>strconv.Atoi\<close>: an optional sign, decimal digits, the range of \<open>int\<close>.\<close>

definition atoi :: "string \<Rightarrow> int option" where
  "atoi s =
     (let (neg, ds) = (case s of
            [] \<Rightarrow> (False, [])
          | c # cs \<Rightarrow>
              if c = CHR ''-'' then (True, cs) else if c = CHR ''+'' then (False, cs) else (False, c # cs))
      in if ds = [] \<or> \<not> list_all ascii_digit ds then None
         else
           let v = (if neg then - int (digits_val ds) else int (digits_val ds))
           in if - (2 ^ 63) \<le> v \<and> v < 2 ^ 63 then Some v else None)"

section \<open>Splitting and searching\<close>

fun split_on :: "char \<Rightarrow> string \<Rightarrow> string list" where
  "split_on c [] = [[]]"
| "split_on c (x # xs) =
     (if x = c then [] # split_on c xs
      else case split_on c xs of [] \<Rightarrow> [[x]] | w # ws \<Rightarrow> (x # w) # ws)"

definition str_contains :: "string \<Rightarrow> string \<Rightarrow> bool" where
  "str_contains s sub \<longleftrightarrow> list_ex (\<lambda>i. take (length sub) (drop i s) = sub) [0..<Suc (length s)]"

lemma split_on_ne [simp]: "split_on c s \<noteq> []"
  by (induction s) (auto split: list.splits)

lemma split_on_no_sep: "w \<in> set (split_on c s) \<Longrightarrow> c \<notin> set w"
  by (induction s arbitrary: w) (auto split: if_splits list.splits)

lemma split_join: "\<forall>w \<in> set ws. c \<notin> set w \<Longrightarrow> ws \<noteq> [] \<Longrightarrow> split_on c (join_strs [c] ws) = ws"
proof (induction ws)
  case (Cons w ws)
  have plain: "split_on c v = [v]" if "c \<notin> set v" for v
    using that by (induction v) auto
  have pre: "split_on c (v @ c # s) = v # split_on c s" if "c \<notin> set v" for v s
    using that by (induction v) auto
  from Cons show ?case by (cases ws) (simp_all add: plain pre)
qed simp

section \<open>Printing and parsing integers\<close>

lemma digit_char_digit: "d < 10 \<Longrightarrow> ascii_digit (digit_char d) \<and> digit_val (digit_char d) = d"
  by (simp add: ascii_digit_def digit_val_def)

lemma digits_val_snoc: "digits_val (s @ [c]) = 10 * digits_val s + digit_val c"
  by (simp add: digits_val_def)

lemma dec_nat_parse: "dec_nat n \<noteq> [] \<and> list_all ascii_digit (dec_nat n) \<and> digits_val (dec_nat n) = n"
proof (induction n rule: dec_nat.induct)
  case (1 n)
  show ?case
  proof (cases "n < 10")
    case True
    thus ?thesis using digit_char_digit[OF True] digits_val_snoc[of "[]" "digit_char n"]
      by (subst (1 2 3) dec_nat.simps) (simp add: digits_val_def del: digit_char.simps)
  next
    case False
    with 1 digit_char_digit[of "n mod 10"] show ?thesis
      by (subst (1 2 3) dec_nat.simps) (simp add: digits_val_snoc del: digit_char.simps)
  qed
qed

lemma atoi_digits:
  assumes "ds \<noteq> []" "list_all ascii_digit ds" "int (digits_val ds) < 2 ^ 63"
  shows "atoi ds = Some (int (digits_val ds))"
proof -
  obtain c cs where ds: "ds = c # cs" using assms(1) by (cases ds) auto
  have "c \<noteq> CHR ''-''" "c \<noteq> CHR ''+''" using assms(2) by (auto simp: ds ascii_digit_def)
  with assms show ?thesis by (simp add: atoi_def ds)
qed

lemma atoi_dec_int:
  assumes "- (2 ^ 63) \<le> n" "n < 2 ^ 63"
  shows "atoi (dec_int n) = Some n"
proof (cases "n < 0")
  case True
  with assms dec_nat_parse[of "nat (- n)"] show ?thesis by (simp add: dec_int_def atoi_def)
next
  case False
  with assms dec_nat_parse[of "nat n"] atoi_digits[of "dec_nat (nat n)"] show ?thesis
    by (simp add: dec_int_def)
qed

lemma atoi_range: "atoi s = Some n \<Longrightarrow> - (2 ^ 63) \<le> n \<and> n < 2 ^ 63"
  by (auto simp: atoi_def Let_def split: prod.splits if_splits list.splits)

section \<open>Dates\<close>

text \<open>
  Four digits, two and two with dashes between, the month and the day in range; anything before or
  after is an error.
\<close>

definition days_in_month :: "int \<Rightarrow> int \<Rightarrow> int" where
  "days_in_month y m = month_days (leap_year y) ! nat (m - 1)"

definition parse_date :: "string \<Rightarrow> time option" where
  "parse_date s =
     (let ys = take 4 s; ms = take 2 (drop 5 s); ds = drop 8 s;
          y = int (digits_val ys); m = int (digits_val ms); d = int (digits_val ds)
      in if length s = 10 \<and> s ! 4 = CHR ''-'' \<and> s ! 7 = CHR ''-'' \<and>
            list_all ascii_digit ys \<and> list_all ascii_digit ms \<and> list_all ascii_digit ds \<and>
            1 \<le> m \<and> m \<le> 12 \<and> 1 \<le> d \<and> d \<le> days_in_month y m
         then Some (day * day_of_date y m d) else None)"

lemma digits_val_pad: "digits_val (replicate k (CHR ''0'') @ s) = digits_val s"
  by (induction k) (simp_all add: digits_val_def digit_val_def)

lemma pad0_parse:
  assumes "0 \<le> n" "length (dec_nat (nat n)) \<le> w"
  shows "length (pad0 w n) = w \<and> list_all ascii_digit (pad0 w n) \<and> int (digits_val (pad0 w n)) = n"
proof -
  have "ascii_digit (CHR ''0'')" by (simp add: ascii_digit_def)
  hence "list_all ascii_digit (replicate k (CHR ''0''))" for k by (induction k) auto
  thus ?thesis
    using assms dec_nat_parse[of "nat n"] by (simp add: pad0_def pad_left_def digits_val_pad)
qed

lemma length_dec_nat: "n < 10 ^ k \<Longrightarrow> 0 < k \<Longrightarrow> length (dec_nat n) \<le> k"
proof (induction n arbitrary: k rule: dec_nat.induct)
  case (1 n)
  show ?case
  proof (cases "n < 10")
    case True
    thus ?thesis using "1.prems" by (subst dec_nat.simps) simp
  next
    case False
    then obtain j where k: "k = Suc j" "0 < j" using "1.prems" by (cases k; cases "k - 1") auto
    have "n div 10 < 10 ^ j" using "1.prems"(1) by (simp add: k less_mult_imp_div_less mult.commute)
    from "1.IH"[OF False this k(2)] False show ?thesis by (subst dec_nat.simps) (simp add: k)
  qed
qed

text \<open>From year 0 to year 9999 parsing inverts printing, up to the time of day.\<close>

lemma month_length: "1 \<le> m \<Longrightarrow> m \<le> 12 \<Longrightarrow> days_in_month y m \<le> 31"
proof -
  assume "1 \<le> m" "m \<le> 12"
  hence "nat (m - 1) < length (month_days (leap_year y))" by (simp add: month_days_simps)
  hence "month_days (leap_year y) ! nat (m - 1) \<in> set (month_days (leap_year y))" by simp
  thus ?thesis unfolding days_in_month_def by (auto simp: month_days_def split: if_splits)
qed

lemma parse_date_format:
  assumes "date_of_day (day_number t) = (y, m, d)" "0 \<le> y" "y \<le> 9999"
  shows "parse_date (format_date t) = Some (start_of_day t)"
proof -
  note r = date_of_day_range[OF assms(1)]
  have "d \<le> 31" using r(1) month_length[of m y] by (auto simp: days_in_month_def)
  have len: "length (dec_nat (nat n)) \<le> w" if "0 \<le> n" "n < 10 ^ w" "0 < w" for n :: int and w
    using length_dec_nat[of "nat n" w] that by (metis nat_less_iff nat_numeral nat_power_eq of_nat_numeral of_nat_power zero_le_numeral)
  have y: "length (pad0 4 y) = 4" "list_all ascii_digit (pad0 4 y)" "int (digits_val (pad0 4 y)) = y"
    using pad0_parse[OF assms(2) len[of y 4]] assms(2,3) by simp_all
  have m: "length (pad0 2 m) = 2" "list_all ascii_digit (pad0 2 m)" "int (digits_val (pad0 2 m)) = m"
    using pad0_parse[of m 2, OF _ len[of m 2]] r(1) by simp_all
  have d: "length (pad0 2 d) = 2" "list_all ascii_digit (pad0 2 d)" "int (digits_val (pad0 2 d)) = d"
    using pad0_parse[of d 2, OF _ len[of d 2]] r(1) \<open>d \<le> 31\<close> by simp_all
  have "parse_date (pad0 4 y @ ''-'' @ pad0 2 m @ ''-'' @ pad0 2 d) = Some (day * day_of_date y m d)"
    using y m d r(1) by (simp add: parse_date_def Let_def nth_append days_in_month_def)
  moreover have "day * day_of_date y m d = start_of_day t"
    using r(2) by (simp add: start_of_day_def day_number_def minus_mod_eq_mult_div)
  ultimately show ?thesis using assms(1) by (simp add: format_date_def)
qed

end
