(* ===== verification/Api.thy ===== *)
theory Api
  imports Service_Laws Go_Text
begin

text \<open>
  The two transports over the application service: the REST adapter (\<open>internal/api\<close>:
  \<open>handlers.go\<close>, \<open>dto.go\<close>, \<open>errors.go\<close>, the table of \<open>routes.go\<close>) and the MCP tools
  (\<open>internal/mcp\<close>: \<open>tools.go\<close>, \<open>errors.go\<close>). The HTTP router, the JSON codec and the MCP
  library are outside: a request is the endpoint it was routed to with its path and query
  parameters and what decoding its body gave, a response is its status and the value encoded.
\<close>

section \<open>The reads of the service\<close>

definition svc_get_goal :: "string \<Rightarrow> service_env \<Rightarrow> service \<Rightarrow> (go_error + goal) \<times> service" where
  "svc_get_goal gid env s = repo_read (get_goal gid) env s"

definition svc_list_goals ::
  "goal_status \<Rightarrow> page \<Rightarrow> service_env \<Rightarrow> service \<Rightarrow> (go_error + goal list) \<times> service" where
  "svc_list_goals want pg env s = repo_read (\<lambda>m. Inr (list_goals want pg m)) env s"

definition svc_list_plan_versions ::
  "string \<Rightarrow> page \<Rightarrow> service_env \<Rightarrow> service \<Rightarrow> (go_error + plan_version list) \<times> service" where
  "svc_list_plan_versions pid pg env s = repo_read (list_plan_versions pid pg) env s"

section \<open>Responses\<close>

record problem_detail =
  pb_type :: string
  pb_title :: string
  pb_status :: int
  pb_detail :: string

datatype body =
    BStatus string
  | BGoal goal
  | BGoals "goal list"
  | BVersion plan_version
  | BPlan plan plan_version
  | BVersions "plan_version list"
  | BSignal signal
  | BSignalResult signal_result
  | BOutcome outcome
  | BProblem problem_detail

record response =
  rp_status :: int
  rp_body :: body

definition write_json :: "int \<Rightarrow> body \<Rightarrow> response" where
  "write_json st v = \<lparr>rp_status = st, rp_body = v\<rparr>"

text \<open>\<open>http.StatusText\<close> of the codes the server sends with a problem.\<close>

definition status_text :: "int \<Rightarrow> string" where
  "status_text st =
     (if st = 400 then ''Bad Request''
      else if st = 404 then ''Not Found''
      else if st = 409 then ''Conflict''
      else if st = 500 then ''Internal Server Error''
      else if st = 503 then ''Service Unavailable''
      else '''')"

definition write_error :: "int \<Rightarrow> string \<Rightarrow> response" where
  "write_error st detail =
     write_json st (BProblem \<lparr>pb_type = ''about:blank'', pb_title = status_text st, pb_status = st, pb_detail = detail\<rparr>)"

text \<open>\<open>errors.As\<close> for a \<open>*ValidationError\<close>: the message of the first one in the tree.\<close>

fun validation_msg :: "go_error \<Rightarrow> string option" and validation_msgs :: "go_error list \<Rightarrow> string option" where
  "validation_msg (EValidation m) = Some m"
| "validation_msg (EWrap s e) = validation_msg e"
| "validation_msg (EWrapAfter e s) = validation_msg e"
| "validation_msg (EJoin es) = validation_msgs es"
| "validation_msg _ = None"
| "validation_msgs [] = None"
| "validation_msgs (e # es) = (case validation_msg e of Some m \<Rightarrow> Some m | None \<Rightarrow> validation_msgs es)"

definition write_service_error :: "go_error \<Rightarrow> response" where
  "write_service_error err =
     (case validation_msg err of
        Some m \<Rightarrow> write_error 400 m
      | None \<Rightarrow>
          if errors_is err EUnsupportedProvider
          then write_error 400 ''unsupported LLM provider; use anthropic, openai, or deepseek''
          else if errors_is err ENotFound then write_error 404 ''resource not found''
          else if errors_is err EPlanExists then write_error 409 ''a plan already exists for this goal''
          else if errors_is err ENoPlanForGoal
          then write_error 409 ''no plan exists for this goal; create one first''
          else if errors_is err EGoalNotActive
          then write_error 409 ''goal is not active; resume it before sending signals or generating plans''
          else if errors_is err EConflict then write_error 409 ''resource conflict''
          else write_error 500 ''internal error'')"

section \<open>Requests\<close>

text \<open>What decoding a body gave; an empty body is \<open>io.EOF\<close>.\<close>

datatype 'a decoded = DecodeEOF | DecodeError string | Decoded 'a

definition decode_json :: "'a decoded \<Rightarrow> string + 'a" where
  "decode_json d =
     (case d of
        DecodeEOF \<Rightarrow> Inl ''request body is empty''
      | DecodeError msg \<Rightarrow> Inl msg
      | Decoded v \<Rightarrow> Inr v)"

definition parse_page :: "string \<Rightarrow> string \<Rightarrow> page" where
  "parse_page limit off =
     (let p0 = \<lparr>pg_limit = 0, pg_offset = 0\<rparr>;
          p1 = (case atoi limit of Some v \<Rightarrow> p0\<lparr>pg_limit := v\<rparr> | None \<Rightarrow> p0);
          p2 = (case atoi off of Some v \<Rightarrow> p1\<lparr>pg_offset := v\<rparr> | None \<Rightarrow> p1)
      in page_normalize p2)"

text \<open>The bodies of the requests are the inputs of the use cases, except the status change.\<close>

record status_request =
  us_status :: goal_status
  us_resolution_result :: outcome_result
  us_resolution_notes :: string

text \<open>The endpoints of \<open>routes.go\<close> with what the handlers read of the request.\<close>

datatype request =
    HealthLive
  | HealthReady "go_error option"          \<comment> \<open>what the storage ping answers\<close>
  | PostGoals "create_goal_input decoded"
  | GetGoals string string string          \<comment> \<open>status, limit, offset\<close>
  | GetGoal string
  | PatchGoalStatus string "status_request decoded"
  | PostGoalPlans string
  | GetGoalPlans string
  | GetPlan string
  | GetPlanVersions string string string   \<comment> \<open>id, limit, offset\<close>
  | PostSignals "signal_input decoded"
  | GetSignal string
  | PostOutcomes "outcome_input decoded"
  | PostEvaluate "evaluate_input decoded"

section \<open>The REST handlers\<close>

definition handle_ready :: "go_error option \<Rightarrow> response" where
  "handle_ready ping =
     (case ping of
        Some err \<Rightarrow> write_error 503 ''storage not ready''
      | None \<Rightarrow> write_json 200 (BStatus ''ready''))"

text \<open>The last lines every handler shares: the error, or the value with its status.\<close>

definition respond :: "int \<Rightarrow> ('a \<Rightarrow> body) \<Rightarrow> (go_error + 'a) \<times> service \<Rightarrow> response \<times> service" where
  "respond st enc rs =
     (case rs of
        (Inl err, s1) \<Rightarrow> (write_service_error err, s1)
      | (Inr v, s1) \<Rightarrow> (write_json st (enc v), s1))"

definition handle_create_goal :: "create_goal_input decoded \<Rightarrow> service_env \<Rightarrow> service \<Rightarrow> response \<times> service" where
  "handle_create_goal d env s =
     (case decode_json d of
        Inl msg \<Rightarrow> (write_error 400 msg, s)
      | Inr rq \<Rightarrow> respond 201 BGoal (svc_create_goal rq env s))"

definition handle_get_goal :: "string \<Rightarrow> service_env \<Rightarrow> service \<Rightarrow> response \<times> service" where
  "handle_get_goal gid env s = respond 200 BGoal (svc_get_goal gid env s)"

definition handle_list_goals :: "string \<Rightarrow> string \<Rightarrow> string \<Rightarrow> service_env \<Rightarrow> service \<Rightarrow> response \<times> service" where
  "handle_list_goals raw limit off env s =
     (if raw \<noteq> '''' \<and> \<not> status_valid raw
      then (write_error 400 ''status must be one of: active, on_hold, resolved, abandoned'', s)
      else respond 200 BGoals (svc_list_goals raw (parse_page limit off) env s))"

definition handle_update_goal_status ::
  "string \<Rightarrow> status_request decoded \<Rightarrow> service_env \<Rightarrow> service \<Rightarrow> response \<times> service" where
  "handle_update_goal_status gid d env s =
     (case decode_json d of
        Inl msg \<Rightarrow> (write_error 400 msg, s)
      | Inr rq \<Rightarrow> respond 200 BGoal (svc_update_goal_status
          \<lparr>ui_goal_id = gid, ui_status = us_status rq, ui_resolution_result = us_resolution_result rq,
           ui_resolution_notes = us_resolution_notes rq\<rparr> env s))"

definition handle_create_plan :: "string \<Rightarrow> service_env \<Rightarrow> service \<Rightarrow> response \<times> service" where
  "handle_create_plan gid env s = respond 201 BVersion (svc_generate_plan gid env s)"

definition handle_get_goal_plan :: "string \<Rightarrow> service_env \<Rightarrow> service \<Rightarrow> response \<times> service" where
  "handle_get_goal_plan gid env s = respond 200 (\<lambda>(p, v). BPlan p v) (svc_get_goal_plan gid env s)"

definition handle_get_plan :: "string \<Rightarrow> service_env \<Rightarrow> service \<Rightarrow> response \<times> service" where
  "handle_get_plan pid env s = respond 200 (\<lambda>(p, v). BPlan p v) (svc_get_plan pid env s)"

definition handle_list_plan_versions ::
  "string \<Rightarrow> string \<Rightarrow> string \<Rightarrow> service_env \<Rightarrow> service \<Rightarrow> response \<times> service" where
  "handle_list_plan_versions pid limit off env s =
     respond 200 BVersions (svc_list_plan_versions pid (parse_page limit off) env s)"

text \<open>A signal accepted for later is 202, one replanned inline 200.\<close>

definition handle_create_signal ::
  "enqueue \<Rightarrow> signal_input decoded \<Rightarrow> service_env \<Rightarrow> service \<Rightarrow> response \<times> service" where
  "handle_create_signal enq d env s =
     (case decode_json d of
        Inl msg \<Rightarrow> (write_error 400 msg, s)
      | Inr rq \<Rightarrow>
          (case svc_apply_signal enq rq env s of
             (Inl err, s1) \<Rightarrow> (write_service_error err, s1)
           | (Inr r, s1) \<Rightarrow>
               (write_json (if sr_status r = StatusPending then 202 else 200) (BSignalResult r), s1)))"

definition handle_get_signal :: "string \<Rightarrow> service_env \<Rightarrow> service \<Rightarrow> response \<times> service" where
  "handle_get_signal i env s = respond 200 BSignal (svc_get_signal i env s)"

definition handle_create_outcome :: "outcome_input decoded \<Rightarrow> service_env \<Rightarrow> service \<Rightarrow> response \<times> service" where
  "handle_create_outcome d env s =
     (case decode_json d of
        Inl msg \<Rightarrow> (write_error 400 msg, s)
      | Inr rq \<Rightarrow> respond 201 BOutcome (svc_record_outcome rq env s))"

definition handle_evaluate :: "evaluate_input decoded \<Rightarrow> service_env \<Rightarrow> service \<Rightarrow> response \<times> service" where
  "handle_evaluate d env s =
     (case decode_json d of
        Inl msg \<Rightarrow> (write_error 400 msg, s)
      | Inr rq \<Rightarrow> respond 200 BVersion (svc_evaluate rq env s))"

fun serve :: "enqueue \<Rightarrow> request \<Rightarrow> service_env \<Rightarrow> service \<Rightarrow> response \<times> service" where
  "serve enq HealthLive env s = (write_json 200 (BStatus ''ok''), s)"
| "serve enq (HealthReady ping) env s = (handle_ready ping, s)"
| "serve enq (PostGoals d) env s = handle_create_goal d env s"
| "serve enq (GetGoals raw limit off) env s = handle_list_goals raw limit off env s"
| "serve enq (GetGoal gid) env s = handle_get_goal gid env s"
| "serve enq (PatchGoalStatus gid d) env s = handle_update_goal_status gid d env s"
| "serve enq (PostGoalPlans gid) env s = handle_create_plan gid env s"
| "serve enq (GetGoalPlans gid) env s = handle_get_goal_plan gid env s"
| "serve enq (GetPlan pid) env s = handle_get_plan pid env s"
| "serve enq (GetPlanVersions pid limit off) env s = handle_list_plan_versions pid limit off env s"
| "serve enq (PostSignals d) env s = handle_create_signal enq d env s"
| "serve enq (GetSignal i) env s = handle_get_signal i env s"
| "serve enq (PostOutcomes d) env s = handle_create_outcome d env s"
| "serve enq (PostEvaluate d) env s = handle_evaluate d env s"

section \<open>The MCP tools\<close>

definition map_err :: "go_error \<Rightarrow> string" where
  "map_err err =
     (case validation_msg err of
        Some m \<Rightarrow> ''invalid input: '' @ m
      | None \<Rightarrow>
          if errors_is err ENotFound then ''not found''
          else if errors_is err EPlanExists then ''conflict: a plan already exists for this goal''
          else if errors_is err ENoPlanForGoal
          then ''conflict: no plan exists for this goal; call generate_plan first''
          else if errors_is err EGoalNotActive
          then ''conflict: goal is not active; resume it before sending signals or generating plans''
          else if errors_is err EConflict then ''conflict: resource conflict, retry''
          else ''internal error'')"

datatype tool_call =
    EvaluateTool evaluate_input
  | CreateGoalTool create_goal_input
  | GetGoalTool string
  | ListGoalsTool string int int
  | UpdateGoalStatusTool string status_request
  | GeneratePlanTool string
  | GetPlanTool string string              \<comment> \<open>plan id, goal id\<close>
  | ListPlanVersionsTool string int int
  | SubmitSignalTool signal_input
  | RecordOutcomeTool outcome_input

text \<open>A tool answers an error text or a value.\<close>

definition answer :: "('a \<Rightarrow> body) \<Rightarrow> (go_error + 'a) \<times> service \<Rightarrow> (string + body) \<times> service" where
  "answer enc rs = (case rs of (Inl err, s1) \<Rightarrow> (Inl (map_err err), s1) | (Inr v, s1) \<Rightarrow> (Inr (enc v), s1))"

definition list_goals_tool ::
  "string \<Rightarrow> int \<Rightarrow> int \<Rightarrow> service_env \<Rightarrow> service \<Rightarrow> (string + body) \<times> service" where
  "list_goals_tool raw limit off env s =
     (if raw \<noteq> '''' \<and> \<not> status_valid raw
      then (Inl ''invalid input: status must be one of: active, on_hold, resolved, abandoned'', s)
      else answer BGoals (svc_list_goals raw \<lparr>pg_limit = limit, pg_offset = off\<rparr> env s))"

definition get_plan_tool :: "string \<Rightarrow> string \<Rightarrow> service_env \<Rightarrow> service \<Rightarrow> (string + body) \<times> service" where
  "get_plan_tool pid gid env s =
     (if (pid = '''') = (gid = '''') then (Inl ''invalid input: provide exactly one of plan_id or goal_id'', s)
      else answer (\<lambda>(p, v). BPlan p v)
             (if pid \<noteq> '''' then svc_get_plan pid env s else svc_get_goal_plan gid env s))"

fun call_tool :: "enqueue \<Rightarrow> tool_call \<Rightarrow> service_env \<Rightarrow> service \<Rightarrow> (string + body) \<times> service" where
  "call_tool enq (EvaluateTool inp) env s = answer BVersion (svc_evaluate inp env s)"
| "call_tool enq (CreateGoalTool inp) env s = answer BGoal (svc_create_goal inp env s)"
| "call_tool enq (GetGoalTool gid) env s = answer BGoal (svc_get_goal gid env s)"
| "call_tool enq (ListGoalsTool raw limit off) env s = list_goals_tool raw limit off env s"
| "call_tool enq (UpdateGoalStatusTool gid rq) env s =
     answer BGoal (svc_update_goal_status
       \<lparr>ui_goal_id = gid, ui_status = us_status rq, ui_resolution_result = us_resolution_result rq,
        ui_resolution_notes = us_resolution_notes rq\<rparr> env s)"
| "call_tool enq (GeneratePlanTool gid) env s = answer BVersion (svc_generate_plan gid env s)"
| "call_tool enq (GetPlanTool pid gid) env s = get_plan_tool pid gid env s"
| "call_tool enq (ListPlanVersionsTool pid limit off) env s =
     answer BVersions (svc_list_plan_versions pid \<lparr>pg_limit = limit, pg_offset = off\<rparr> env s)"
| "call_tool enq (SubmitSignalTool inp) env s = answer BSignalResult (svc_apply_signal enq inp env s)"
| "call_tool enq (RecordOutcomeTool inp) env s = answer BOutcome (svc_record_outcome inp env s)"

section \<open>Printing and parsing the page\<close>

lemma parse_page_dec:
  assumes "- (2 ^ 63) \<le> l" "l < 2 ^ 63" "- (2 ^ 63) \<le> k" "k < 2 ^ 63"
  shows "parse_page (dec_int l) (dec_int k) = page_normalize \<lparr>pg_limit = l, pg_offset = k\<rparr>"
  using assms by (simp add: parse_page_def atoi_dec_int)

section \<open>Errors\<close>

lemma write_service_error_shape:
  "\<exists>p. rp_body (write_service_error err) = BProblem p \<and> rp_status (write_service_error err) = pb_status p \<and>
     400 \<le> pb_status p"
  by (simp add: write_service_error_def write_error_def write_json_def split: option.splits)

definition unsupported_text :: string where
  "unsupported_text = ''unsupported LLM provider; use anthropic, openai, or deepseek''"

definition conflict_texts :: "(string \<times> string) list" where
  "conflict_texts =
     [(''a plan already exists for this goal'', ''conflict: a plan already exists for this goal''),
      (''no plan exists for this goal; create one first'',
       ''conflict: no plan exists for this goal; call generate_plan first''),
      (''goal is not active; resume it before sending signals or generating plans'',
       ''conflict: goal is not active; resume it before sending signals or generating plans''),
      (''resource conflict'', ''conflict: resource conflict, retry'')]"

text \<open>
  The text of a tool for a problem: that of its class, with the message of an invalid input and the
  reason of a conflict. An unsupported provider is the one problem without a text of its own: over
  REST it is a 400 that names the providers, through a tool it has the text of whatever else the
  error matches, an internal error as a rule.
\<close>

definition mirrors :: "problem_detail \<Rightarrow> string \<Rightarrow> bool" where
  "mirrors p msg \<longleftrightarrow>
     (if pb_status p = 400
      then msg = ''invalid input: '' @ pb_detail p \<or>
        pb_detail p = unsupported_text \<and> msg \<in> {''internal error'', ''not found''} \<union> snd ` set conflict_texts
      else if pb_status p = 404 then msg = ''not found''
      else if pb_status p = 409 then (pb_detail p, msg) \<in> set conflict_texts
      else pb_status p = 500 \<and> msg = ''internal error'')"

lemma map_err_mirrors:
  assumes "rp_body (write_service_error err) = BProblem p"
  shows "mirrors p (map_err err)"
  using assms
  by (cases "validation_msg err")
     (auto simp: write_service_error_def write_error_def write_json_def map_err_def mirrors_def
       unsupported_text_def conflict_texts_def split: if_splits)

section \<open>What a request leaves behind\<close>

definition undisturbed :: "service \<Rightarrow> service \<Rightarrow> bool" where
  "undisturbed s s' \<longleftrightarrow> sv_repo s' = sv_repo s \<and> sv_events s' = sv_events s"

lemma create_goal_fails: "create_goal g m = (Some e, m') \<Longrightarrow> m' = m"
  by (auto simp: create_goal_def split: if_splits option.splits)

lemma update_goal_status_fails: "update_goal_status i ex st res tm m = (Some e, m') \<Longrightarrow> m' = m"
  by (auto simp: update_goal_status_def split: if_splits option.splits)

lemma create_outcome_fails: "create_outcome oc m = (Some e, m') \<Longrightarrow> m' = m"
  by (auto simp: create_outcome_def split: if_splits option.splits)

lemma create_first_version_fails: "create_first_version p v m = (Some e, m') \<Longrightarrow> m' = m"
  unfolding create_first_version_def using repo_tx_cases by fastforce

text \<open>A write that fails leaves the store as the others left it.\<close>

lemma repo_write_fails:
  assumes "quiet env" "\<And>e m m'. f m = (Some e, m') \<Longrightarrow> m' = m" "repo_write f env s = (Some err, s')"
  shows "sv_repo s' = sv_repo s \<and> sv_events s' = sv_events s"
proof -
  obtain m' where "f (sv_repo s) = (Some err, m')" "s' = (others_act env s)\<lparr>sv_repo := m'\<rparr>"
    using assms(1,3) by (cases "f (sv_repo s)") (auto simp: repo_write_eq)
  with assms(2)[OF this(1)] show ?thesis by simp
qed

lemma failed_writes:
  assumes "quiet env"
  shows "repo_write (create_goal g) env s = (Some err, s') \<Longrightarrow> sv_repo s' = sv_repo s \<and> sv_events s' = sv_events s"
    and "repo_write (update_goal_status i ex st res tm) env s = (Some err, s') \<Longrightarrow>
      sv_repo s' = sv_repo s \<and> sv_events s' = sv_events s"
    and "repo_write (create_outcome oc) env s = (Some err, s') \<Longrightarrow> sv_repo s' = sv_repo s \<and> sv_events s' = sv_events s"
    and "repo_write (create_first_version p v) env s = (Some err, s') \<Longrightarrow>
      sv_repo s' = sv_repo s \<and> sv_events s' = sv_events s"
  by (erule repo_write_fails[OF assms, rotated];
      erule create_goal_fails update_goal_status_fails create_outcome_fails create_first_version_fails)+

lemma svc_create_goal_fails:
  assumes "quiet env" "svc_create_goal inp env s = (Inl err, s')"
  shows "undisturbed s s'"
  using assms(2)
  by (auto simp: svc_create_goal_def undisturbed_def read_clock_def new_id_def Let_def
      dest!: failed_writes[OF assms(1)] split: if_splits sum.splits option.splits prod.splits)

lemma svc_record_outcome_fails:
  assumes "quiet env" "svc_record_outcome inp env s = (Inl err, s')"
  shows "undisturbed s s'"
  using assms
  by (auto simp: svc_record_outcome_def store_outcome_def undisturbed_def read_clock_def new_id_def Let_def
      dest!: failed_writes[OF assms(1)] split: if_splits sum.splits option.splits prod.splits)

lemma svc_update_goal_status_fails:
  assumes "quiet env" "svc_update_goal_status inp env s = (Inl err, s')"
  shows "undisturbed s s'"
  using assms
  by (auto simp: svc_update_goal_status_def resolution_for_def undisturbed_def read_clock_def Let_def
      dest!: failed_writes[OF assms(1)] split: if_splits sum.splits option.splits prod.splits)

lemma svc_generate_plan_fails:
  assumes "quiet env" "svc_generate_plan gid env s = (Inl err, s')"
  shows "undisturbed s s'"
  using assms
proof (cases rule: svc_generate_plan_cases)
  case (commit g e v i eng s4)
  thus ?thesis
    by (auto simp: commit_plan_def undisturbed_def read_clock_def Let_def
        dest!: failed_writes[OF assms(1)] split: option.splits prod.splits)
qed (simp add: undisturbed_def)

lemma svc_evaluate_undisturbed:
  "undisturbed s (snd (svc_evaluate inp env s))"
  by (auto simp: svc_evaluate_def undisturbed_def read_clock_def new_id_def take_engine_def Let_def
      split: sum.splits option.splits)

lemma reads_undisturbed:
  assumes "quiet env"
  shows "undisturbed s (snd (svc_get_goal gid env s))" "undisturbed s (snd (svc_list_goals want pg env s))"
    "undisturbed s (snd (svc_list_plan_versions pid pg env s))" "undisturbed s (snd (svc_get_signal i env s))"
    "undisturbed s (snd (svc_get_plan pid env s))" "undisturbed s (snd (svc_get_goal_plan gid env s))"
  using assms
  by (auto simp: undisturbed_def svc_get_goal_def svc_list_goals_def svc_list_plan_versions_def
      svc_get_signal_def svc_get_plan_def svc_get_goal_plan_def plan_view_def split: sum.splits)

lemma undisturbed_refl: "undisturbed s s" by (simp add: undisturbed_def)

lemma snd_respond [simp]: "snd (respond st enc rs) = snd rs"
  by (simp add: respond_def split: prod.splits sum.splits)

lemma respond_fails:
  "respond st enc rs = (resp, s') \<Longrightarrow> 400 \<le> rp_status resp \<Longrightarrow> st < 400 \<Longrightarrow> \<exists>err. rs = (Inl err, s')"
  by (auto simp: respond_def write_json_def split: prod.splits sum.splits)

definition read_only :: "request \<Rightarrow> bool" where
  "read_only rq =
     (case rq of
        HealthLive \<Rightarrow> True | HealthReady _ \<Rightarrow> True | GetGoals _ _ _ \<Rightarrow> True | GetGoal _ \<Rightarrow> True
      | GetGoalPlans _ \<Rightarrow> True | GetPlan _ \<Rightarrow> True | GetPlanVersions _ _ _ \<Rightarrow> True | GetSignal _ \<Rightarrow> True
      | PostEvaluate _ \<Rightarrow> True | _ \<Rightarrow> False)"

fun posts_signal :: "request \<Rightarrow> bool" where
  "posts_signal (PostSignals _) = True"
| "posts_signal _ = False"

lemma read_only_undisturbed:
  assumes "quiet env" "read_only rq"
  shows "undisturbed s (snd (serve enq rq env s))"
  using assms(2)
  by (cases rq)
     (simp_all add: read_only_def undisturbed_refl handle_list_goals_def handle_get_goal_def
       handle_get_goal_plan_def handle_get_plan_def handle_list_plan_versions_def handle_get_signal_def
       handle_evaluate_def reads_undisturbed[OF assms(1)] svc_evaluate_undisturbed split: sum.splits)

lemma failed_undisturbed:
  assumes q: "quiet env" and "serve enq rq env s = (resp, s')" "400 \<le> rp_status resp"
    "\<not> read_only rq" "\<not> posts_signal rq"
  shows "undisturbed s s'"
  using assms(2-5)
  by (cases rq)
     (auto simp: read_only_def handle_create_goal_def handle_update_goal_status_def handle_create_plan_def
       handle_create_outcome_def undisturbed_refl dest!: respond_fails
       dest: svc_create_goal_fails[OF q] svc_update_goal_status_fails[OF q] svc_generate_plan_fails[OF q]
         svc_record_outcome_fails[OF q]
       split: sum.splits)

text \<open>A response and a tool's answer that say the same and leave the same service behind.\<close>

definition same_answer :: "response \<times> service \<Rightarrow> (string + body) \<times> service \<Rightarrow> bool" where
  "same_answer x y \<longleftrightarrow>
     snd x = snd y \<and>
     (case fst y of
        Inr b \<Rightarrow> rp_status (fst x) \<in> {200, 201, 202} \<and> rp_body (fst x) = b
      | Inl msg \<Rightarrow> \<exists>p. rp_body (fst x) = BProblem p \<and> rp_status (fst x) = pb_status p \<and> mirrors p msg)"

lemma respond_answer:
  assumes "st \<in> {200, 201, 202}"
  shows "same_answer (respond st enc rs) (answer enc rs)"
proof (cases rs)
  case (Pair r s1)
  show ?thesis
  proof (cases r)
    case (Inl err)
    obtain p where p: "rp_body (write_service_error err) = BProblem p"
        "rp_status (write_service_error err) = pb_status p"
      using write_service_error_shape by blast
    with map_err_mirrors[OF p(1)] show ?thesis by (simp add: Pair Inl respond_def answer_def same_answer_def)
  next
    case (Inr v)
    thus ?thesis using assms by (simp add: Pair respond_def answer_def write_json_def same_answer_def)
  qed
qed

lemma create_signal_answer:
  "same_answer (handle_create_signal enq (Decoded inp) env s) (answer BSignalResult (svc_apply_signal enq inp env s))"
proof -
  let ?x = "svc_apply_signal enq inp env s"
  have "\<exists>st\<in>{200, 201, 202}. handle_create_signal enq (Decoded inp) env s = respond st BSignalResult ?x"
  proof (cases ?x)
    case (Pair r s1)
    show ?thesis
      by (cases r) (auto simp: Pair handle_create_signal_def decode_json_def respond_def)
  qed
  thus ?thesis using respond_answer by metis
qed

text \<open>The REST request of a tool call; asking for a plan by both identifiers or none has none.\<close>

fun rest_of :: "tool_call \<Rightarrow> request option" where
  "rest_of (EvaluateTool inp) = Some (PostEvaluate (Decoded inp))"
| "rest_of (CreateGoalTool inp) = Some (PostGoals (Decoded inp))"
| "rest_of (GetGoalTool gid) = Some (GetGoal gid)"
| "rest_of (ListGoalsTool raw limit off) = Some (GetGoals raw (dec_int limit) (dec_int off))"
| "rest_of (UpdateGoalStatusTool gid rq) = Some (PatchGoalStatus gid (Decoded rq))"
| "rest_of (GeneratePlanTool gid) = Some (PostGoalPlans gid)"
| "rest_of (GetPlanTool pid gid) =
     (if (pid = '''') = (gid = '''') then None else Some (if pid \<noteq> '''' then GetPlan pid else GetGoalPlans gid))"
| "rest_of (ListPlanVersionsTool pid limit off) = Some (GetPlanVersions pid (dec_int limit) (dec_int off))"
| "rest_of (SubmitSignalTool inp) = Some (PostSignals (Decoded inp))"
| "rest_of (RecordOutcomeTool inp) = Some (PostOutcomes (Decoded inp))"

definition go_int_range :: "int \<Rightarrow> bool" where
  "go_int_range n \<longleftrightarrow> - (2 ^ 63) \<le> n \<and> n < 2 ^ 63"

fun tool_ints :: "tool_call \<Rightarrow> int list" where
  "tool_ints (ListGoalsTool raw limit off) = [limit, off]"
| "tool_ints (ListPlanVersionsTool pid limit off) = [limit, off]"
| "tool_ints _ = []"

lemma list_plan_versions_normalized: "list_plan_versions pid (page_normalize pg) m = list_plan_versions pid pg m"
  unfolding list_plan_versions_def page_normalize_idem ..

lemma svc_lists_normalized:
  "svc_list_goals want (page_normalize pg) = svc_list_goals want pg"
  "svc_list_plan_versions pid (page_normalize pg) = svc_list_plan_versions pid pg"
  by (simp_all add: svc_list_goals_def svc_list_plan_versions_def list_goals_def list_plan_versions_normalized fun_eq_iff
      repo_read_def)

lemma parse_page_tool:
  "go_int_range l \<Longrightarrow> go_int_range k \<Longrightarrow>
   parse_page (dec_int l) (dec_int k) = page_normalize \<lparr>pg_limit = l, pg_offset = k\<rparr>"
  by (rule parse_page_dec) (simp_all add: go_int_range_def)

section \<open>Properties\<close>

text \<open>An unsupported provider, and nothing else.\<close>

definition only_unsupported :: "go_error \<Rightarrow> bool" where
  "only_unsupported err \<longleftrightarrow>
     validation_msg err = None \<and> errors_is err EUnsupportedProvider \<and>
     list_all (\<lambda>e. \<not> errors_is err e) [ENotFound, EPlanExists, ENoPlanForGoal, EGoalNotActive, EConflict]"

lemma only_unsupported_texts:
  "only_unsupported err \<Longrightarrow> write_service_error err = write_error 400 unsupported_text \<and> map_err err = ''internal error''"
  by (simp add: only_unsupported_def write_service_error_def map_err_def unsupported_text_def)

lemma tool_answers:
  assumes "list_all go_int_range (tool_ints t)" "rest_of t = Some rq"
  shows "same_answer (serve enq rq env s) (call_tool enq t env s)"
proof (cases t)
  case (ListGoalsTool raw l k)
  with assms have rq: "rq = GetGoals raw (dec_int l) (dec_int k)"
      "parse_page (dec_int l) (dec_int k) = page_normalize \<lparr>pg_limit = l, pg_offset = k\<rparr>"
    by (simp_all add: parse_page_tool)
  show ?thesis
  proof (cases "raw \<noteq> '''' \<and> \<not> status_valid raw")
    case True
    thus ?thesis
      by (simp add: ListGoalsTool rq handle_list_goals_def list_goals_tool_def write_error_def write_json_def
          mirrors_def same_answer_def)
  next
    case False
    have "serve enq rq env s = respond 200 BGoals (svc_list_goals raw \<lparr>pg_limit = l, pg_offset = k\<rparr> env s)"
      using False by (simp only: rq serve.simps handle_list_goals_def svc_lists_normalized if_False)
    moreover have "call_tool enq t env s = answer BGoals (svc_list_goals raw \<lparr>pg_limit = l, pg_offset = k\<rparr> env s)"
      using False by (simp only: ListGoalsTool call_tool.simps list_goals_tool_def if_False)
    ultimately show ?thesis using respond_answer[of 200 BGoals] by simp
  qed
next
  case (ListPlanVersionsTool pid l k)
  with assms have "rq = GetPlanVersions pid (dec_int l) (dec_int k)"
      "parse_page (dec_int l) (dec_int k) = page_normalize \<lparr>pg_limit = l, pg_offset = k\<rparr>"
    by (simp_all add: parse_page_tool)
  with ListPlanVersionsTool show ?thesis
    by (simp add: handle_list_plan_versions_def svc_lists_normalized respond_answer)
next
  case (GetPlanTool pid gid)
  with assms show ?thesis
    by (auto simp: get_plan_tool_def handle_get_plan_def handle_get_goal_plan_def intro: respond_answer split: if_splits)
qed (use assms in \<open>auto simp: handle_evaluate_def handle_create_goal_def handle_get_goal_def
      handle_update_goal_status_def handle_create_plan_def handle_create_outcome_def decode_json_def
      intro: respond_answer create_signal_answer\<close>)

text \<open>
  C35: the MCP tools are the REST endpoints in another dress. A tool call and the request it
  corresponds to (page numbers printed in the query) leave the service in the same state; the
  tool returns a value exactly when the response is a success, and it is the value of the response
  body; a failure is a problem whose class, message of an invalid input and reason of a conflict
  the tool's text repeats. The exception is an unsupported provider: a 400 that names the providers
  over REST, an internal error through a tool. Only \<open>get_plan\<close> with both identifiers, or with none,
  has no REST counterpart.
\<close>

theorem mcp_mirrors_rest:
  assumes "list_all go_int_range (tool_ints t)" "rest_of t = Some rq"
  shows "same_answer (serve enq rq env s) (call_tool enq t env s) \<and>
    (\<forall>err. only_unsupported err \<longrightarrow>
       write_service_error err = write_error 400 unsupported_text \<and> map_err err = ''internal error'')"
  using tool_answers[OF assms] only_unsupported_texts by blast

theorem mcp_mirrors_rest_witness:
  "\<exists>gs. call_tool (inline_enqueue None) (ListGoalsTool '''' 1 0) (sample_env []) (sample_service goal_store) =
     (Inr (BGoals gs), snd (serve (inline_enqueue None) (GetGoals '''' ''1'' ''0'') (sample_env []) (sample_service goal_store))) \<and>
     rp_body (fst (serve (inline_enqueue None) (GetGoals '''' ''1'' ''0'') (sample_env []) (sample_service goal_store))) = BGoals gs"
proof -
  have p: "dec_int 1 = ''1''" "dec_int 0 = ''0''" by code_simp+
  have "\<exists>gs s'. call_tool (inline_enqueue None) (ListGoalsTool '''' 1 0) (sample_env []) (sample_service goal_store) = (Inr (BGoals gs), s')"
    by (simp add: list_goals_tool_def svc_list_goals_def answer_def)
  with mcp_mirrors_rest[of "ListGoalsTool '''' 1 0" "GetGoals '''' ''1'' ''0''" "inline_enqueue None" "sample_env []" "sample_service goal_store"]
  show ?thesis by (auto simp: p go_int_range_def same_answer_def)
qed

text \<open>
  C36: requests that must not change decision state do not. With no other writer, whatever the
  engine answers, a read or an evaluation leaves the store and the event log as they were, and so
  does every request answered with an error status: a goal, a status change, a plan or an outcome
  is recorded and announced or nothing is. Only a signal, which is stored before it is replanned, is
  exempt.
\<close>

theorem failed_requests_leave_no_trace:
  assumes "quiet env" "serve enq rq env s = (resp, s')" "read_only rq \<or> (400 \<le> rp_status resp \<and> \<not> posts_signal rq)"
  shows "sv_repo s' = sv_repo s \<and> sv_events s' = sv_events s"
  using read_only_undisturbed[OF assms(1), of rq s enq] failed_undisturbed[OF assms(1,2)] assms(2,3)
  by (cases "read_only rq") (auto simp: undisturbed_def)

theorem failed_requests_leave_no_trace_witness:
  "rp_status (fst (serve (inline_enqueue None) (PostGoalPlans ''nope'') (sample_env []) (sample_service goal_store))) = 404 \<and>
   sv_repo (snd (serve (inline_enqueue None) (PostGoalPlans ''nope'') (sample_env []) (sample_service goal_store))) = goal_store"
proof -
  obtain resp s' where r: "serve (inline_enqueue None) (PostGoalPlans ''nope'') (sample_env []) (sample_service goal_store) = (resp, s')"
    by fastforce
  hence "rp_status resp = 404"
    by (auto simp: handle_create_plan_def svc_generate_plan_def sample_service_def sample_env_def get_goal_def
        respond_def write_service_error_def write_error_def write_json_def)
  with failed_requests_leave_no_trace[OF sample_quiet r] r show ?thesis
    by (simp add: sample_service_def)
qed

text \<open>
  C37: paging over HTTP round-trips. Printing a limit from 1 to \<open>MaxPageLimit\<close> and the offsets of
  the successive pages into the query string, and parsing them back with \<open>strconv.Atoi\<close>, yields, page
  by page, the complete listing of the goals in its order; and no query string, however malformed or
  out of range, makes a page that is empty by limit, larger than the maximum or at a negative offset.
\<close>

theorem http_paging_round_trip:
  assumes "quiet env" "0 < l" "l \<le> MaxPageLimit" "int (length (goals (sv_repo s))) \<le> int k * l" "int k * l < 2 ^ 63"
  shows "concat (map (\<lambda>i. case rp_body (fst (serve enq (GetGoals '''' (dec_int l) (dec_int (int i * l))) env s)) of
       BGoals gs \<Rightarrow> gs | _ \<Rightarrow> []) [0..<k]) = goal_rows '''' (sv_repo s) \<and>
    (\<forall>lim off. 0 < pg_limit (parse_page lim off) \<and> pg_limit (parse_page lim off) \<le> MaxPageLimit \<and>
       0 \<le> pg_offset (parse_page lim off) \<and> pg_offset (parse_page lim off) < 2 ^ 63)"
proof -
  have page: "(case rp_body (fst (serve enq (GetGoals '''' (dec_int l) (dec_int (int i * l))) env s)) of
       BGoals gs \<Rightarrow> gs | _ \<Rightarrow> []) = list_goals '''' \<lparr>pg_limit = l, pg_offset = int i * l\<rparr> (sv_repo s)" if "i < k" for i
  proof -
    have "int i * l \<le> int k * l" "0 \<le> int i * l" using that assms(2) by (simp_all add: mult_right_mono)
    hence "- (2 ^ 63) \<le> int i * l" "int i * l < 2 ^ 63" using assms(5) by linarith+
    moreover have "- (2 ^ 63) \<le> l" "l < 2 ^ 63" using assms(2,3) by (simp_all add: MaxPageLimit_def)
    ultimately have "parse_page (dec_int l) (dec_int (int i * l)) = page_normalize \<lparr>pg_limit = l, pg_offset = int i * l\<rparr>"
      by (intro parse_page_dec)
    thus ?thesis
      using assms(1) by (simp add: handle_list_goals_def svc_lists_normalized respond_def write_json_def svc_list_goals_def)
  qed
  have "concat (map (\<lambda>i. list_goals '''' \<lparr>pg_limit = l, pg_offset = int i * l\<rparr> (sv_repo s)) [0..<k]) =
      goal_rows '''' (sv_repo s)"
    by (rule goal_pages[OF assms(2,3,4)])
  moreover have "map (\<lambda>i. case rp_body (fst (serve enq (GetGoals '''' (dec_int l) (dec_int (int i * l))) env s)) of
       BGoals gs \<Rightarrow> gs | _ \<Rightarrow> []) [0..<k] =
      map (\<lambda>i. list_goals '''' \<lparr>pg_limit = l, pg_offset = int i * l\<rparr> (sv_repo s)) [0..<k]"
    by (intro map_cong refl page) simp
  moreover have "pg_offset (parse_page lim off) < 2 ^ 63" for lim off
    using atoi_range[of off] by (auto simp: parse_page_def page_normalize_def Let_def split: option.splits)
  moreover have "0 < pg_limit (parse_page lim off)" "pg_limit (parse_page lim off) \<le> MaxPageLimit"
    "0 \<le> pg_offset (parse_page lim off)" for lim off
    by (simp_all add: parse_page_def Let_def page_normalize_bounds)
  ultimately show ?thesis by (metis (no_types, lifting))
qed

theorem http_paging_round_trip_witness:
  "(case rp_body (fst (serve (inline_enqueue None) (GetGoals '''' ''1'' ''0'') (sample_env []) (sample_service goal_store))) of
      BGoals gs \<Rightarrow> gs | _ \<Rightarrow> []) = goal_rows '''' goal_store"
proof -
  have p: "dec_int 1 = ''1''" "dec_int 0 = ''0''" by code_simp+
  have r: "sv_repo (sample_service goal_store) = goal_store" by (simp add: sample_service_def)
  have "length (goals goal_store) = 1" by simp
  hence n: "int (length (goals (sv_repo (sample_service goal_store)))) \<le> int 1 * 1" by (simp add: r)
  have "(0::int) < 1" "1 \<le> MaxPageLimit" "int 1 * (1::int) < 2 ^ 63" by (simp_all add: MaxPageLimit_def)
  from http_paging_round_trip[OF sample_quiet this(1,2) n this(3), of "inline_enqueue None" "[]"]
  have "concat (map (\<lambda>i. case rp_body (fst (serve (inline_enqueue None) (GetGoals '''' (dec_int 1) (dec_int (int i * 1))) (sample_env [])
       (sample_service goal_store))) of BGoals gs \<Rightarrow> gs | _ \<Rightarrow> []) [0..<1]) = goal_rows '''' goal_store"
    unfolding r by (rule conjunct1)
  thus ?thesis by (simp del: serve.simps add: p)
qed

end
