(* ===== verification/Market_Vendors.thy ===== *)
theory Market_Vendors
  imports Market_Data Go_Text
begin

text \<open>
  The vendor adapters of \<open>internal/marketdata\<close>: the shared transport (\<open>httpx.go\<close>), Financial
  Modeling Prep (\<open>fmp.go\<close>), Stooq (\<open>stooq.go\<close>), the registry (\<open>vendors.go\<close>) and the chain built
  from a specification (\<open>NewChainFromSpec\<close>). What a vendor answers, the clock, the limiter
  (\<open>Market_Limiter\<close>), the decoders of \<open>encoding/json\<close> and \<open>encoding/csv\<close> and \<open>net/url\<close> are
  arguments; every adapter method is a function of the state it changes: how often the clock was
  read, the limiter asked, which requests were made, and the memo.
\<close>

section \<open>The world of an adapter\<close>

text \<open>The path is the decoded one, as errors show it; the parameters are those of the query.\<close>

record vendor_request =
  vq_path :: string
  vq_params :: "string \<Rightarrow> string option"

datatype vendor_reply =
    BadRequest go_error        \<comment> \<open>\<open>NewRequestWithContext\<close> fails\<close>
  | TransportFailed go_error   \<comment> \<open>\<open>client.Do\<close> fails; the text may quote the whole URL\<close>
  | BodyFailed go_error        \<comment> \<open>reading the body fails\<close>
  | Reply int string           \<comment> \<open>status and body\<close>

record fmp_quote =
  fq_symbol :: string
  fq_price :: f64
  fq_eps :: f64
  fq_pe :: f64
  fq_market_cap :: f64
  fq_avg_volume :: f64
  fq_timestamp :: int

record fmp_bar =
  fb_date :: string
  fb_open :: f64
  fb_high :: f64
  fb_low :: f64
  fb_close :: f64
  fb_volume :: f64

record vendor_env =
  ve_now :: "nat \<Rightarrow> time"
  ve_wait :: "nat \<Rightarrow> go_error option"
  ve_http :: "nat \<Rightarrow> vendor_request \<Rightarrow> vendor_reply"
  ve_parse_url :: "string \<Rightarrow> go_error + string"          \<comment> \<open>\<open>url.Parse\<close>: the decoded path\<close>
  ve_path_escape :: "string \<Rightarrow> string"
  ve_quotes :: "string \<Rightarrow> fmp_quote list option"
  ve_ratios :: "string \<Rightarrow> f64 list option"
  ve_history :: "string \<Rightarrow> fmp_bar list option"
  ve_csv :: "string \<Rightarrow> string list list option"
  ve_parse_float :: "string \<Rightarrow> f64 \<times> bool"               \<comment> \<open>value and whether it parsed\<close>
  ve_rfc3339 :: "time \<Rightarrow> string"
  ve_unicode :: unicode

record vendor_state =
  vs_clock :: nat
  vs_waits :: nat
  vs_requests :: "vendor_request list"
  vs_memo :: "(string \<times> fmp_quote \<times> time) list"

definition vendor_now :: "vendor_env \<Rightarrow> vendor_state \<Rightarrow> time \<times> vendor_state" where
  "vendor_now env s = (ve_now env (vs_clock s), s\<lparr>vs_clock := Suc (vs_clock s)\<rparr>)"

text \<open>
  \<open>vendorHTTP.get\<close>. The texts hold the vendor, the path and the status; the texts of a transport
  or body error are dropped, and only the cause of a request that cannot be built is wrapped.
\<close>

definition vendor_get ::
  "vendor_env \<Rightarrow> string \<Rightarrow> vendor_request \<Rightarrow> vendor_state \<Rightarrow> (go_error + string) \<times> vendor_state" where
  "vendor_get env vendor q s =
     (let s1 = s\<lparr>vs_waits := Suc (vs_waits s)\<rparr>; pre = ''marketdata: '' @ vendor @ '': '' in
      case ve_wait env (vs_waits s) of
        Some err \<Rightarrow> (Inl err, s1)
      | None \<Rightarrow>
          let s2 = s1\<lparr>vs_requests := vs_requests s @ [q]\<rparr> in
          (case ve_http env (length (vs_requests s)) q of
             BadRequest err \<Rightarrow> (Inl (EWrap (pre @ ''build request for '' @ vq_path q) err), s2)
           | TransportFailed err \<Rightarrow>
               (Inl (EWrap (pre @ ''request to '' @ vq_path q @ '' failed'') EMarketUnavailable), s2)
           | BodyFailed err \<Rightarrow> (Inl (EWrap (pre @ ''read body from '' @ vq_path q) EMarketUnavailable), s2)
           | Reply st body \<Rightarrow>
               if st = 200 then (Inr body, s2)
               else if st = 404 then (Inl (EWrap (pre @ vq_path q) EMarketNotFound), s2)
               else if st = 401 \<or> st = 403
               then (Inl (EWrap (pre @ vq_path q @ '': auth rejected, status '' @ dec_int st @ '' (check API key)'')
                            EMarketUnavailable), s2)
               else (Inl (EWrap (pre @ vq_path q @ '': status '' @ dec_int st) EMarketUnavailable), s2)))"

section \<open>Quotes from daily bars\<close>

definition barLookbackDays :: int where "barLookbackDays = 40"
definition avgDollarVolumeWindow :: nat where "avgDollarVolumeWindow = 20"

definition last_bar :: "bar list \<Rightarrow> time \<Rightarrow> nat option" where
  "last_bar bars t = List.find (\<lambda>i. \<not> t < ba_date (bars ! i)) (rev [0..<length bars])"

definition quote_from_bars :: "string \<Rightarrow> bar list \<Rightarrow> time \<Rightarrow> go_error + quote" where
  "quote_from_bars ticker bars t =
     (case last_bar bars t of
        None \<Rightarrow> Inl (EWrap (''marketdata: no bar at or before '' @ format_date t) EMarketNotFound)
      | Some l \<Rightarrow>
          let start = Suc l - avgDollarVolumeWindow;
              total = foldl (\<lambda>acc b. acc + ba_close b * ba_volume b) 0 (take (Suc l - start) (drop start bars))
          in Inr \<lparr>qt_ticker = ticker, qt_price = ba_close (bars ! l),
                  qt_avg_dollar_volume = total / f64_of_int (int (Suc l - start)),
                  qt_as_of = ba_date (bars ! l)\<rparr>)"

section \<open>Financial Modeling Prep\<close>

definition fmpLiveWindow :: dur where "fmpLiveWindow = 5 * 60 * second"
definition fmpQuoteMemoTTL :: dur where "fmpQuoteMemoTTL = 30 * second"
definition fmpQuoteMemoMax :: nat where "fmpQuoteMemoMax = 1024"

record vendor_config =
  vg_api_key :: string
  vg_base_url :: string

record fmp =
  fm_base_url :: string
  fm_api_key :: string

definition new_fmp :: "vendor_config \<Rightarrow> go_error + fmp" where
  "new_fmp cfg =
     (if vg_api_key cfg = ''''
      then Inl (EText ''marketdata: fmp requires an API key: set DDE_MARKETDATA_API_KEY or use DDE_MARKETDATA_VENDOR=stooq'')
      else Inr \<lparr>fm_base_url = (if vg_base_url cfg = '''' then ''https://financialmodelingprep.com/api/v3''
                              else vg_base_url cfg),
                fm_api_key = vg_api_key cfg\<rparr>)"

definition is_live :: "vendor_env \<Rightarrow> time \<Rightarrow> vendor_state \<Rightarrow> bool \<times> vendor_state" where
  "is_live env t s = (let (now, s1) = vendor_now env s in (\<not> t < now - fmpLiveWindow, s1))"

definition fmp_endpoint ::
  "vendor_env \<Rightarrow> fmp \<Rightarrow> string \<Rightarrow> (string \<Rightarrow> string option) \<Rightarrow> go_error + vendor_request" where
  "fmp_endpoint env p path params =
     (case ve_parse_url env (fm_base_url p @ path) of
        Inl err \<Rightarrow> Inl (EWrap (''marketdata: fmp: bad endpoint '' @ path) err)
      | Inr decoded \<Rightarrow> Inr \<lparr>vq_path = decoded, vq_params = params(''apikey'' \<mapsto> fm_api_key p)\<rparr>)"

text \<open>The memo is dropped once full; \<open>p.memo[ticker]\<close> then replaces the ticker's entry.\<close>

definition memoise :: "string \<Rightarrow> fmp_quote \<Rightarrow> time \<Rightarrow> vendor_state \<Rightarrow> vendor_state" where
  "memoise ticker q at' s =
     (let memo = (if fmpQuoteMemoMax \<le> length (vs_memo s) then [] else vs_memo s)
      in s\<lparr>vs_memo := (ticker, q, at') # filter (\<lambda>(k, _). k \<noteq> ticker) memo\<rparr>)"

definition fetch_quote ::
  "vendor_env \<Rightarrow> fmp \<Rightarrow> string \<Rightarrow> vendor_state \<Rightarrow> (go_error + fmp_quote) \<times> vendor_state" where
  "fetch_quote env p ticker s =
     (case fmp_endpoint env p (''/quote/'' @ ve_path_escape env ticker) Map.empty of
        Inl err \<Rightarrow> (Inl err, s)
      | Inr q \<Rightarrow>
          (case vendor_get env ''fmp'' q s of
             (Inl err, s1) \<Rightarrow> (Inl err, s1)
           | (Inr body, s1) \<Rightarrow>
               (case ve_quotes env body of
                  None \<Rightarrow> (Inl (EWrap (''marketdata: fmp: decode quote for '' @ ticker) EMarketUnavailable), s1)
                | Some [] \<Rightarrow> (Inl (EWrap (''marketdata: fmp: quote '' @ ticker) EMarketNotFound), s1)
                | Some (x # xs) \<Rightarrow> let (now, s2) = vendor_now env s1 in (Inr x, memoise ticker x now s2))))"

definition live_quote ::
  "vendor_env \<Rightarrow> fmp \<Rightarrow> string \<Rightarrow> vendor_state \<Rightarrow> (go_error + fmp_quote) \<times> vendor_state" where
  "live_quote env p ticker s =
     (case map_of (vs_memo s) ticker of
        None \<Rightarrow> fetch_quote env p ticker s
      | Some (q, at') \<Rightarrow>
          let (now, s1) = vendor_now env s in
          if now - at' < fmpQuoteMemoTTL then (Inr q, s1) else fetch_quote env p ticker s1)"

text \<open>The rows come newest first; a row without a date is skipped, and the range is checked again.\<close>

definition fmp_row :: "time \<Rightarrow> time \<Rightarrow> fmp_bar \<Rightarrow> bar option" where
  "fmp_row from to h =
     (case parse_date (fb_date h) of
        None \<Rightarrow> None
      | Some d \<Rightarrow>
          if d < from \<or> to < d then None
          else Some \<lparr>ba_date = d, ba_open = fb_open h, ba_high = fb_high h, ba_low = fb_low h,
                     ba_close = fb_close h, ba_volume = fb_volume h\<rparr>)"

definition fmp_bars ::
  "vendor_env \<Rightarrow> fmp \<Rightarrow> string \<Rightarrow> time \<Rightarrow> time \<Rightarrow> vendor_state \<Rightarrow> (go_error + bar list) \<times> vendor_state" where
  "fmp_bars env p ticker from to s =
     (case fmp_endpoint env p (''/historical-price-full/'' @ ve_path_escape env ticker)
             [''from'' \<mapsto> format_date from, ''to'' \<mapsto> format_date to] of
        Inl err \<Rightarrow> (Inl err, s)
      | Inr q \<Rightarrow>
          (case vendor_get env ''fmp'' q s of
             (Inl err, s1) \<Rightarrow> (Inl err, s1)
           | (Inr body, s1) \<Rightarrow>
               (case ve_history env body of
                  None \<Rightarrow> (Inl (EWrap (''marketdata: fmp: decode bars for '' @ ticker) EMarketUnavailable), s1)
                | Some rows \<Rightarrow>
                    if rows = [] then (Inl (EWrap (''marketdata: fmp: bars '' @ ticker) EMarketNotFound), s1)
                    else
                      let bars = List.map_filter (fmp_row from to) (rev rows) in
                      if bars = []
                      then (Inl (EWrap (''marketdata: fmp: bars '' @ ticker @ '' in range'') EMarketNotFound), s1)
                      else (Inr bars, s1))))"

text \<open>\<open>time.Unix\<close>: the seconds are moved to Go's zero time in 64 bits.\<close>

definition unix_time :: "int \<Rightarrow> time" where
  "unix_time ts = second * sint (word_of_int (ts + 62135596800) :: 64 word)"

definition fmp_quote_at ::
  "vendor_env \<Rightarrow> fmp \<Rightarrow> string \<Rightarrow> time \<Rightarrow> vendor_state \<Rightarrow> (go_error + quote) \<times> vendor_state" where
  "fmp_quote_at env p ticker t s =
     (case is_live env t s of
        (False, s1) \<Rightarrow>
          (case fmp_bars env p ticker (add_date 0 0 (- barLookbackDays) t) t s1 of
             (Inl err, s2) \<Rightarrow> (Inl err, s2)
           | (Inr bars, s2) \<Rightarrow> (quote_from_bars ticker bars t, s2))
      | (True, s1) \<Rightarrow>
          (case live_quote env p ticker s1 of
             (Inl err, s2) \<Rightarrow> (Inl err, s2)
           | (Inr q, s2) \<Rightarrow>
               let (now, s3) = vendor_now env s2;
                   at0 = (if 0 < fq_timestamp q then unix_time (fq_timestamp q) else now);
                   at1 = (if t < at0 then t else at0)
               in (Inr \<lparr>qt_ticker = ticker, qt_price = fq_price q,
                        qt_avg_dollar_volume = fq_avg_volume q * fq_price q, qt_as_of = at1\<rparr>, s3)))"

text \<open>The price to book ratio is a second request; any failure of it leaves 0.\<close>

definition fmp_pb ::
  "vendor_env \<Rightarrow> fmp \<Rightarrow> string \<Rightarrow> vendor_state \<Rightarrow> f64 \<times> vendor_state" where
  "fmp_pb env p ticker s =
     (case fmp_endpoint env p (''/ratios-ttm/'' @ ve_path_escape env ticker) Map.empty of
        Inl err \<Rightarrow> (0, s)
      | Inr q \<Rightarrow>
          (case vendor_get env ''fmp'' q s of
             (Inl err, s1) \<Rightarrow> (0, s1)
           | (Inr body, s1) \<Rightarrow>
               (case ve_ratios env body of Some (r # rs) \<Rightarrow> (r, s1) | _ \<Rightarrow> (0, s1))))"

definition fmp_fundamentals_at ::
  "vendor_env \<Rightarrow> fmp \<Rightarrow> string \<Rightarrow> time \<Rightarrow> vendor_state \<Rightarrow> (go_error + fundamentals) \<times> vendor_state" where
  "fmp_fundamentals_at env p ticker t s =
     (case is_live env t s of
        (False, s1) \<Rightarrow>
          (Inl (EWrap (''marketdata: fmp: historical fundamentals (asOf '' @ ve_rfc3339 env t @ '')'')
                  EMarketNotSupported), s1)
      | (True, s1) \<Rightarrow>
          (case live_quote env p ticker s1 of
             (Inl err, s2) \<Rightarrow> (Inl err, s2)
           | (Inr q, s2) \<Rightarrow>
               let (now, s3) = vendor_now env s2; (pb, s4) = fmp_pb env p ticker s3
               in (Inr \<lparr>fu_ticker = ticker, fu_pe = fq_pe q, fu_pb = pb, fu_market_cap = fq_market_cap q,
                        fu_eps = fq_eps q, fu_as_of = (if t < now then t else now),
                        fu_freshness = FreshnessLatestOnly\<rparr>, s4)))"

section \<open>Stooq\<close>

definition new_stooq :: "vendor_config \<Rightarrow> string" where
  "new_stooq cfg = (if vg_base_url cfg = '''' then ''https://stooq.com'' else vg_base_url cfg)"

definition stooq_symbol :: "unicode \<Rightarrow> string \<Rightarrow> string" where
  "stooq_symbol u ticker =
     (let s = uc_to_lower u ticker
      in if \<not> str_contains s ''.'' \<and> take 1 s \<noteq> ''^'' then s @ ''.us'' else s)"

text \<open>A record of the CSV: too short, undated, out of range or with a bad price is skipped.\<close>

definition stooq_row :: "vendor_env \<Rightarrow> time \<Rightarrow> time \<Rightarrow> string list \<Rightarrow> bar option" where
  "stooq_row env from to rec =
     (if length rec < 5 then None
      else case parse_date (rec ! 0) of
        None \<Rightarrow> None
      | Some d \<Rightarrow>
          if d < from \<or> to < d then None
          else
            let (op, ok1) = ve_parse_float env (rec ! 1); (hi, ok2) = ve_parse_float env (rec ! 2);
                (lo, ok3) = ve_parse_float env (rec ! 3); (cl, ok4) = ve_parse_float env (rec ! 4)
            in if \<not> ok1 \<or> \<not> ok2 \<or> \<not> ok3 \<or> \<not> ok4 then None
               else Some \<lparr>ba_date = d, ba_open = op, ba_high = hi, ba_low = lo, ba_close = cl,
                          ba_volume = (if 5 < length rec \<and> rec ! 5 \<noteq> '''' then fst (ve_parse_float env (rec ! 5)) else 0)\<rparr>)"

text \<open>The layout \<open>20060102\<close> is the date without its dashes.\<close>

definition compact_date :: "time \<Rightarrow> string" where
  "compact_date t = filter (\<lambda>c. c \<noteq> CHR ''-'') (format_date t)"

definition stooq_bars ::
  "vendor_env \<Rightarrow> string \<Rightarrow> string \<Rightarrow> time \<Rightarrow> time \<Rightarrow> vendor_state \<Rightarrow> (go_error + bar list) \<times> vendor_state" where
  "stooq_bars env base ticker from to s =
     (case ve_parse_url env (base @ ''/q/d/l/'') of
        Inl err \<Rightarrow> (Inl (EWrap ''marketdata: stooq: bad endpoint'' err), s)
      | Inr path \<Rightarrow>
          (case vendor_get env ''stooq''
                  \<lparr>vq_path = path,
                   vq_params = [''s'' \<mapsto> stooq_symbol (ve_unicode env) ticker, ''i'' \<mapsto> ''d'',
                                ''d1'' \<mapsto> compact_date from, ''d2'' \<mapsto> compact_date to]\<rparr> s of
             (Inl err, s1) \<Rightarrow> (Inl err, s1)
           | (Inr body, s1) \<Rightarrow>
               let trimmed = uc_trim_space (ve_unicode env) body in
               if trimmed = '''' \<or> str_contains trimmed ''No data''
               then (Inl (EWrap (''marketdata: stooq: '' @ ticker) EMarketNotFound), s1)
               else if trimmed ! 0 = CHR ''<''
               then (Inl (EWrap ''marketdata: stooq: got an HTML page instead of CSV (rate limit or browser verification)''
                       EMarketUnavailable), s1)
               else (case ve_csv env trimmed of
                  None \<Rightarrow> (Inl (EWrap (''marketdata: stooq: parse CSV for '' @ ticker) EMarketUnavailable), s1)
                | Some records \<Rightarrow>
                    let bars = List.map_filter (stooq_row env from to) (tl records) in
                    if bars = []
                    then (Inl (EWrap (''marketdata: stooq: no parsable bars for '' @ ticker) EMarketNotFound), s1)
                    else (Inr bars, s1))))"

definition stooq_quote ::
  "vendor_env \<Rightarrow> string \<Rightarrow> string \<Rightarrow> time \<Rightarrow> vendor_state \<Rightarrow> (go_error + quote) \<times> vendor_state" where
  "stooq_quote env base ticker t s =
     (case stooq_bars env base ticker (add_date 0 0 (- barLookbackDays) t) t s of
        (Inl err, s1) \<Rightarrow> (Inl err, s1)
      | (Inr bars, s1) \<Rightarrow> (quote_from_bars ticker bars t, s1))"

section \<open>The registry\<close>

datatype vendor = Fmp fmp | Stooq string | NotImplemented string

fun vendor_name :: "vendor \<Rightarrow> string" where
  "vendor_name (Fmp p) = ''fmp''"
| "vendor_name (Stooq base) = ''stooq''"
| "vendor_name (NotImplemented v) = ''http:'' @ v"

definition not_implemented :: "string \<Rightarrow> go_error" where
  "not_implemented v = EWrap (''marketdata: '' @ v) EMarketNotImplemented"

fun vendor_quote ::
  "vendor_env \<Rightarrow> vendor \<Rightarrow> string \<Rightarrow> time \<Rightarrow> vendor_state \<Rightarrow> (go_error + quote) \<times> vendor_state" where
  "vendor_quote env (Fmp p) tk t s = fmp_quote_at env p tk t s"
| "vendor_quote env (Stooq base) tk t s = stooq_quote env base tk t s"
| "vendor_quote env (NotImplemented v) tk t s = (Inl (not_implemented v), s)"

fun vendor_fundamentals ::
  "vendor_env \<Rightarrow> vendor \<Rightarrow> string \<Rightarrow> time \<Rightarrow> vendor_state \<Rightarrow> (go_error + fundamentals) \<times> vendor_state" where
  "vendor_fundamentals env (Fmp p) tk t s = fmp_fundamentals_at env p tk t s"
| "vendor_fundamentals env (Stooq base) tk t s =
     (Inl (EWrap ''marketdata: stooq has no fundamentals'' EMarketNotSupported), s)"
| "vendor_fundamentals env (NotImplemented v) tk t s = (Inl (not_implemented v), s)"

fun vendor_bars ::
  "vendor_env \<Rightarrow> vendor \<Rightarrow> string \<Rightarrow> time \<Rightarrow> time \<Rightarrow> vendor_state \<Rightarrow> (go_error + bar list) \<times> vendor_state" where
  "vendor_bars env (Fmp p) tk from to s = fmp_bars env p tk from to s"
| "vendor_bars env (Stooq base) tk from to s = stooq_bars env base tk from to s"
| "vendor_bars env (NotImplemented v) tk from to s = (Inl (not_implemented v), s)"

definition vendor_registry :: "(string \<times> (vendor_config \<Rightarrow> go_error + vendor)) list" where
  "vendor_registry =
     [(''fmp'', \<lambda>cfg. map_sum id Fmp (new_fmp cfg)),
      (''stooq'', \<lambda>cfg. Inr (Stooq (new_stooq cfg))),
      (''alphavantage'', \<lambda>cfg. Inr (NotImplemented ''alphavantage'')),
      (''tiingo'', \<lambda>cfg. Inr (NotImplemented ''tiingo''))]"

definition known_vendors :: "string list" where
  "known_vendors = sort_by str_less (map fst vendor_registry)"

definition new_vendor :: "unicode \<Rightarrow> string \<Rightarrow> vendor_config \<Rightarrow> go_error + vendor" where
  "new_vendor u name cfg =
     (case map_of vendor_registry name of
        None \<Rightarrow> Inl (EText (''marketdata: unknown vendor '' @ uc_quote u name @ '' (known: ['' @
                  join_strs '' '' known_vendors @ ''])''))
      | Some factory \<Rightarrow> factory cfg)"

datatype vendor_chain = Bare vendor | Chained "vendor list" string

fun vendors_from :: "unicode \<Rightarrow> vendor_config \<Rightarrow> string list \<Rightarrow> vendor list \<Rightarrow> go_error + vendor list" where
  "vendors_from u cfg [] vs = Inr vs"
| "vendors_from u cfg (part # parts) vs =
     (let name = uc_trim_space u part in
      if name = '''' then vendors_from u cfg parts vs
      else case new_vendor u name cfg of
        Inl err \<Rightarrow> Inl err
      | Inr v \<Rightarrow> vendors_from u cfg parts (vs @ [v]))"

definition new_chain_from_spec :: "unicode \<Rightarrow> string \<Rightarrow> vendor_config \<Rightarrow> go_error + vendor_chain" where
  "new_chain_from_spec u spec cfg =
     (case vendors_from u cfg (split_on (CHR '','') spec) [] of
        Inl err \<Rightarrow> Inl err
      | Inr vs \<Rightarrow>
          if vs = [] then Inl (EText (''marketdata: empty vendor spec '' @ uc_quote u spec))
          else if length vs = 1 then Inr (Bare (hd vs))
          else Inr (Chained vs (join_strs ''+'' (map vendor_name vs))))"

section \<open>The point-in-time promise\<close>

lemma last_bar_SomeD: "last_bar bars t = Some l \<Longrightarrow> l < length bars \<and> ba_date (bars ! l) \<le> t"
  by (auto simp: last_bar_def dest!: find_SomeD)

lemma quote_from_bars_past: "quote_from_bars tk bars t = Inr q \<Longrightarrow> qt_as_of q \<le> t"
  by (auto simp: quote_from_bars_def Let_def split: option.splits dest: last_bar_SomeD)

text \<open>On ascending bars it is the close of the last bar that is not after the instant.\<close>

lemma find_descending_index:
  "List.find P (rev [0..<n]) = Some l \<Longrightarrow> P j \<Longrightarrow> j < n \<Longrightarrow> j \<le> l"
  by (induction n) (auto split: if_splits simp: less_Suc_eq)

lemma quote_from_bars_latest:
  assumes "sorted_wrt (\<lambda>a b. ba_date a \<le> ba_date b) bars" "quote_from_bars tk bars t = Inr q"
    "b \<in> set bars" "ba_date b \<le> t"
  shows "ba_date b \<le> qt_as_of q"
proof -
  obtain l where l: "last_bar bars t = Some l" "qt_as_of q = ba_date (bars ! l)"
    using assms(2) by (auto simp: quote_from_bars_def Let_def split: option.splits)
  obtain j where j: "j < length bars" "b = bars ! j" using assms(3) by (auto simp: in_set_conv_nth)
  have "j \<le> l" by (rule find_descending_index[OF l(1)[unfolded last_bar_def]]) (use j assms(4) in auto)
  moreover have "l < length bars" using last_bar_SomeD[OF l(1)] by simp
  ultimately show ?thesis
    using assms(1) j l(2) by (cases "j = l") (auto simp: sorted_wrt_iff_nth_less)
qed

lemma map_filter_set: "b \<in> set (List.map_filter f xs) \<Longrightarrow> \<exists>x \<in> set xs. f x = Some b"
  by (auto simp: List.map_filter_def split: option.splits)

lemma fmp_row_range: "fmp_row from to h = Some b \<Longrightarrow> from \<le> ba_date b \<and> ba_date b \<le> to"
  by (auto simp: fmp_row_def split: option.splits if_splits)

lemma stooq_row_range: "stooq_row env from to r = Some b \<Longrightarrow> from \<le> ba_date b \<and> ba_date b \<le> to"
  by (auto simp: stooq_row_def Let_def split: option.splits if_splits prod.splits)

lemma fmp_bars_Inr:
  "fmp_bars env p tk from to s = (Inr bs, s1) \<Longrightarrow> bs \<noteq> [] \<and> (\<forall>b \<in> set bs. from \<le> ba_date b \<and> ba_date b \<le> to)"
  by (auto simp: fmp_bars_def Let_def split: sum.splits option.splits if_splits prod.splits
      dest!: map_filter_set fmp_row_range)

lemma stooq_bars_Inr:
  "stooq_bars env base tk from to s = (Inr bs, s1) \<Longrightarrow> bs \<noteq> [] \<and> (\<forall>b \<in> set bs. from \<le> ba_date b \<and> ba_date b \<le> to)"
  by (auto simp: stooq_bars_def Let_def split: sum.splits option.splits if_splits prod.splits
      dest!: map_filter_set stooq_row_range)

lemma vendor_bars_Inr:
  "vendor_bars env v tk from to s = (Inr bs, s1) \<Longrightarrow> bs \<noteq> [] \<and> (\<forall>b \<in> set bs. from \<le> ba_date b \<and> ba_date b \<le> to)"
  by (cases v) (simp_all add: fmp_bars_Inr stooq_bars_Inr)

lemma fmp_quote_at_past: "fmp_quote_at env p tk t s = (Inr q, s1) \<Longrightarrow> qt_as_of q \<le> t"
  by (auto simp: fmp_quote_at_def Let_def split: prod.splits bool.splits sum.splits if_splits
      dest: quote_from_bars_past)

lemma stooq_quote_past: "stooq_quote env base tk t s = (Inr q, s1) \<Longrightarrow> qt_as_of q \<le> t"
  by (auto simp: stooq_quote_def split: prod.splits sum.splits dest: quote_from_bars_past)

lemma vendor_quote_past: "vendor_quote env v tk t s = (Inr q, s1) \<Longrightarrow> qt_as_of q \<le> t"
  by (cases v) (auto dest: fmp_quote_at_past stooq_quote_past)

lemma vendor_fundamentals_Inr:
  "vendor_fundamentals env v tk t s = (Inr f, s1) \<Longrightarrow>
   fu_as_of f \<le> t \<and> fu_freshness f = FreshnessLatestOnly \<and> ve_now env (vs_clock s) - fmpLiveWindow \<le> t"
  by (cases v)
     (auto simp: fmp_fundamentals_at_def is_live_def vendor_now_def Let_def
       split: prod.splits bool.splits sum.splits if_splits)

text \<open>Every vendor, whatever the world answers and in whatever state, keeps the provider's contract.\<close>

interpretation vendor_contract: point_in_time
  "\<lambda>tk t. fst (vendor_quote env v tk t s)" "\<lambda>tk t. fst (vendor_fundamentals env v tk t s)"
  "\<lambda>tk from to. fst (vendor_bars env v tk from to s)" for env v s
proof
  show "fst (vendor_quote env v tk t s) = Inr q \<Longrightarrow> qt_as_of q \<le> t" for tk t q
    using vendor_quote_past[of env v tk t s q "snd (vendor_quote env v tk t s)"] by (simp add: prod_eq_iff)
  show "fst (vendor_fundamentals env v tk t s) = Inr f \<Longrightarrow> fu_freshness f = FreshnessPointInTime \<Longrightarrow> fu_as_of f \<le> t"
    for tk t f
    using vendor_fundamentals_Inr[of env v tk t s f "snd (vendor_fundamentals env v tk t s)"] by (simp add: prod_eq_iff)
  show "fst (vendor_bars env v tk from to s) = Inr bs \<Longrightarrow> b \<in> set bs \<Longrightarrow> from \<le> ba_date b \<and> ba_date b \<le> to"
    for tk "from" to bs b
    using vendor_bars_Inr[of env v tk "from" to s bs "snd (vendor_bars env v tk from to s)"] by (simp add: prod_eq_iff)
qed

text \<open>The chain over vendors in any states.\<close>

definition provider_of :: "vendor_env \<Rightarrow> vendor \<times> vendor_state \<Rightarrow> provider" where
  "provider_of env vs =
     \<lparr>pv_name = vendor_name (fst vs),
      pv_quote = (\<lambda>tk t. fst (vendor_quote env (fst vs) tk t (snd vs))),
      pv_fundamentals = (\<lambda>tk t. fst (vendor_fundamentals env (fst vs) tk t (snd vs))),
      pv_bars = (\<lambda>tk from to. fst (vendor_bars env (fst vs) tk from to (snd vs)))\<rparr>"

lemma vendor_chain_contract:
  "point_in_time (chain_quote ctx \<lparr>cp_providers = map (provider_of env) vs, cp_name = nm\<rparr>)
     (chain_fundamentals ctx \<lparr>cp_providers = map (provider_of env) vs, cp_name = nm\<rparr>)
     (chain_bars ctx \<lparr>cp_providers = map (provider_of env) vs, cp_name = nm\<rparr>)"
  by (rule chain_keeps_promise) (auto simp: provider_of_def intro: vendor_contract.point_in_time_axioms)

section \<open>A historical read uses bars only\<close>

lemma vendor_get_clock: "fst (vendor_get env nm q (s\<lparr>vs_clock := c\<rparr>)) = fst (vendor_get env nm q s)"
  by (simp add: vendor_get_def Let_def split: option.splits vendor_reply.splits)

lemma fmp_bars_clock: "fst (fmp_bars env p tk from to (s\<lparr>vs_clock := c\<rparr>)) = fst (fmp_bars env p tk from to s)"
proof (cases "fmp_endpoint env p (''/historical-price-full/'' @ ve_path_escape env tk)
    [''from'' \<mapsto> format_date from, ''to'' \<mapsto> format_date to]")
  case (Inr q)
  obtain r s1 r' s1' where g: "vendor_get env ''fmp'' q (s\<lparr>vs_clock := c\<rparr>) = (r, s1)" "vendor_get env ''fmp'' q s = (r', s1')"
    by fastforce
  with vendor_get_clock[of env "''fmp''" q c s] have "r = r'" by simp
  with g Inr show ?thesis by (simp add: fmp_bars_def Let_def split: sum.splits option.splits)
qed (simp add: fmp_bars_def)

definition bars_quote :: "vendor_env \<Rightarrow> vendor \<Rightarrow> string \<Rightarrow> time \<Rightarrow> vendor_state \<Rightarrow> go_error + quote" where
  "bars_quote env v tk t s =
     (case fst (vendor_bars env v tk (t - barLookbackDays * day) t s) of
        Inl err \<Rightarrow> Inl err
      | Inr bars \<Rightarrow> quote_from_bars tk bars t)"

lemma historical_quote:
  assumes "t < ve_now env (vs_clock s) - fmpLiveWindow"
  shows "fst (vendor_quote env v tk t s) = bars_quote env v tk t s"
proof (cases v)
  case (Fmp p)
  let ?from = "t - barLookbackDays * day"
  have live: "is_live env t s = (False, s\<lparr>vs_clock := Suc (vs_clock s)\<rparr>)"
    using assms by (simp add: is_live_def vendor_now_def)
  have "fst (vendor_quote env v tk t s) =
      (case fst (fmp_bars env p tk ?from t (s\<lparr>vs_clock := Suc (vs_clock s)\<rparr>)) of
         Inl err \<Rightarrow> Inl err | Inr bars \<Rightarrow> quote_from_bars tk bars t)"
    by (simp add: Fmp fmp_quote_at_def live add_days split: prod.splits sum.splits)
  thus ?thesis unfolding fmp_bars_clock by (simp add: Fmp bars_quote_def)
next
  case (Stooq base)
  thus ?thesis by (simp add: stooq_quote_def bars_quote_def add_days split: prod.splits sum.splits)
qed (simp add: bars_quote_def)

section \<open>The API key stays in the query\<close>

text \<open>
  Requests that differ in the key only, and replies that differ at most in the texts of transport
  and body errors. Two worlds answer alike when each answers the requests under its own key with
  such replies; a request that cannot be built has no part in it (\<open>URL.String\<close> is documented to
  reassemble a URL into a valid one).
\<close>

definition same_request :: "vendor_request \<Rightarrow> vendor_request \<Rightarrow> bool" where
  "same_request q q' \<longleftrightarrow>
     vq_path q = vq_path q' \<and> (vq_params q)(''apikey'' := None) = (vq_params q')(''apikey'' := None)"

fun same_reply :: "vendor_reply \<Rightarrow> vendor_reply \<Rightarrow> bool" where
  "same_reply (TransportFailed err) (TransportFailed err') = True"
| "same_reply (BodyFailed err) (BodyFailed err') = True"
| "same_reply (Reply st body) (Reply st' body') = (st = st' \<and> body = body')"
| "same_reply _ _ = False"

definition rekey :: "string \<Rightarrow> vendor_request \<Rightarrow> vendor_request" where
  "rekey k q = q\<lparr>vq_params := (vq_params q)(''apikey'' \<mapsto> k)\<rparr>"

definition same_answers ::
  "string \<Rightarrow> string \<Rightarrow> vendor_env \<Rightarrow> (nat \<Rightarrow> vendor_request \<Rightarrow> vendor_reply) \<Rightarrow> bool" where
  "same_answers k k' env http' \<longleftrightarrow> (\<forall>n q. same_reply (ve_http env n (rekey k q)) (http' n (rekey k' q)))"

definition same_view :: "vendor_state \<Rightarrow> vendor_state \<Rightarrow> bool" where
  "same_view s s' \<longleftrightarrow>
     vs_clock s = vs_clock s' \<and> vs_waits s = vs_waits s' \<and> vs_memo s = vs_memo s' \<and>
     list_all2 same_request (vs_requests s) (vs_requests s')"

definition same_outcome :: "'r \<times> vendor_state \<Rightarrow> 'r \<times> vendor_state \<Rightarrow> bool" where
  "same_outcome x y \<longleftrightarrow> fst x = fst y \<and> same_view (snd x) (snd y)"

lemma same_outcomeE:
  assumes "same_outcome x y"
  obtains r s s' where "x = (r, s)" "y = (r, s')" "same_view s s'"
  using assms by (cases x; cases y) (auto simp: same_outcome_def)

lemma same_outcomeI [intro]: "same_view s s' \<Longrightarrow> same_outcome (r, s) (r, s')"
  by (simp add: same_outcome_def)

lemma http_fields:
  "ve_now (env\<lparr>ve_http := h\<rparr>) = ve_now env" "ve_wait (env\<lparr>ve_http := h\<rparr>) = ve_wait env"
  "ve_http (env\<lparr>ve_http := h\<rparr>) = h" "ve_parse_url (env\<lparr>ve_http := h\<rparr>) = ve_parse_url env"
  "ve_path_escape (env\<lparr>ve_http := h\<rparr>) = ve_path_escape env" "ve_quotes (env\<lparr>ve_http := h\<rparr>) = ve_quotes env"
  "ve_ratios (env\<lparr>ve_http := h\<rparr>) = ve_ratios env" "ve_history (env\<lparr>ve_http := h\<rparr>) = ve_history env"
  "ve_rfc3339 (env\<lparr>ve_http := h\<rparr>) = ve_rfc3339 env"
  by simp_all

lemma vendor_now_same: "same_view s s' \<Longrightarrow> same_outcome (vendor_now env s) (vendor_now (env\<lparr>ve_http := h\<rparr>) s')"
  by (simp add: vendor_now_def same_outcome_def same_view_def)

lemma rekey_same: "same_request (rekey k q) (rekey k' q)"
  by (simp add: same_request_def rekey_def)

lemma vendor_get_same:
  assumes "same_answers k k' env h" "same_view s s'"
  shows "same_outcome (vendor_get env nm (rekey k q) s) (vendor_get (env\<lparr>ve_http := h\<rparr>) nm (rekey k' q) s')"
proof -
  have len: "length (vs_requests s) = length (vs_requests s')"
    using assms(2) by (auto simp: same_view_def dest: list_all2_lengthD)
  have w: "ve_wait env (vs_waits s) = ve_wait env (vs_waits s')" "vq_path (rekey k q) = vq_path (rekey k' q)"
    using assms(2) by (simp_all add: same_view_def rekey_def)
  have v: "same_view (s\<lparr>vs_waits := Suc (vs_waits s)\<rparr>) (s'\<lparr>vs_waits := Suc (vs_waits s')\<rparr>)"
    "same_view (s\<lparr>vs_waits := Suc (vs_waits s), vs_requests := vs_requests s @ [rekey k q]\<rparr>)
       (s'\<lparr>vs_waits := Suc (vs_waits s'), vs_requests := vs_requests s' @ [rekey k' q]\<rparr>)"
    using assms(2) rekey_same by (auto simp: same_view_def intro: list_all2_appendI)
  have r: "same_reply (ve_http env (length (vs_requests s')) (rekey k q)) (h (length (vs_requests s')) (rekey k' q))"
    using assms(1) by (simp add: same_answers_def)
  show ?thesis
    unfolding vendor_get_def Let_def http_fields w len
    using r by (cases "ve_http env (length (vs_requests s')) (rekey k q)";
      cases "h (length (vs_requests s')) (rekey k' q)") (simp_all add: same_outcomeI v split: option.split)
qed

lemma fmp_endpoint_same:
  assumes "fm_base_url p = fm_base_url p'"
  shows "fmp_endpoint env p path ps = Inl err \<Longrightarrow> fmp_endpoint (env\<lparr>ve_http := h\<rparr>) p' path ps = Inl err"
    and "fmp_endpoint env p path ps = Inr q \<Longrightarrow>
      \<exists>q0. q = rekey (fm_api_key p) q0 \<and> fmp_endpoint (env\<lparr>ve_http := h\<rparr>) p' path ps = Inr (rekey (fm_api_key p') q0)"
proof -
  assume "fmp_endpoint env p path ps = Inl err"
  thus "fmp_endpoint (env\<lparr>ve_http := h\<rparr>) p' path ps = Inl err"
    using assms by (simp add: fmp_endpoint_def split: sum.splits)
next
  assume e: "fmp_endpoint env p path ps = Inr q"
  then obtain decoded where d: "ve_parse_url env (fm_base_url p @ path) = Inr decoded"
      "q = \<lparr>vq_path = decoded, vq_params = ps(''apikey'' \<mapsto> fm_api_key p)\<rparr>"
    by (auto simp: fmp_endpoint_def split: sum.splits)
  thus "\<exists>q0. q = rekey (fm_api_key p) q0 \<and> fmp_endpoint (env\<lparr>ve_http := h\<rparr>) p' path ps = Inr (rekey (fm_api_key p') q0)"
    using assms by (intro exI[of _ "\<lparr>vq_path = decoded, vq_params = ps\<rparr>"]) (simp add: fmp_endpoint_def rekey_def)
qed

text \<open>A request through an endpoint, the three ways the adapter uses it.\<close>

lemma fetch_quote_same:
  assumes "same_answers (fm_api_key p) (fm_api_key p') env h" "same_view s s'" "fm_base_url p = fm_base_url p'"
  shows "same_outcome (fetch_quote env p tk s) (fetch_quote (env\<lparr>ve_http := h\<rparr>) p' tk s')"
proof (cases "fmp_endpoint env p (''/quote/'' @ ve_path_escape env tk) Map.empty")
  case (Inl err)
  show ?thesis unfolding fetch_quote_def http_fields Inl fmp_endpoint_same(1)[OF assms(3) Inl] using assms(2) by auto
next
  case (Inr q)
  then obtain q' where q': "fmp_endpoint (env\<lparr>ve_http := h\<rparr>) p' (''/quote/'' @ ve_path_escape env tk) Map.empty = Inr (rekey (fm_api_key p') q')"
      "q = rekey (fm_api_key p) q'"
    using fmp_endpoint_same(2)[OF assms(3)] by blast
  obtain r s1 s1' where g: "vendor_get env ''fmp'' (rekey (fm_api_key p) q') s = (r, s1)" "vendor_get (env\<lparr>ve_http := h\<rparr>) ''fmp'' (rekey (fm_api_key p') q') s' = (r, s1')" "same_view s1 s1'"
    by (rule same_outcomeE[OF vendor_get_same[OF assms(1,2)]])
  have "same_view (memoise tk x (ve_now env (vs_clock s1)) (s1\<lparr>vs_clock := Suc (vs_clock s1)\<rparr>))
     (memoise tk x (ve_now env (vs_clock s1')) (s1'\<lparr>vs_clock := Suc (vs_clock s1')\<rparr>))" for x
    using g(3) by (simp add: same_view_def memoise_def)
  with g show ?thesis
    unfolding fetch_quote_def http_fields Inr q' by (auto simp: vendor_now_def split: sum.splits option.splits list.splits)
qed

lemma live_quote_same:
  assumes "same_answers (fm_api_key p) (fm_api_key p') env h" "same_view s s'" "fm_base_url p = fm_base_url p'"
  shows "same_outcome (live_quote env p tk s) (live_quote (env\<lparr>ve_http := h\<rparr>) p' tk s')"
proof (cases "map_of (vs_memo s) tk")
  case None
  hence "map_of (vs_memo s') tk = None" using assms(2) by (simp add: same_view_def)
  with None fetch_quote_same[OF assms] show ?thesis by (simp add: live_quote_def)
next
  case (Some e)
  obtain q at' where e: "e = (q, at')" by (cases e)
  have m: "map_of (vs_memo s') tk = Some e" using Some assms(2) by (simp add: same_view_def)
  obtain now s1 s1' where n: "vendor_now env s = (now, s1)" "vendor_now (env\<lparr>ve_http := h\<rparr>) s' = (now, s1')" "same_view s1 s1'"
    by (rule same_outcomeE[OF vendor_now_same[OF assms(2)]])
  from fetch_quote_same[OF assms(1) n(3) assms(3)] n show ?thesis
    by (auto simp: live_quote_def Some m e)
qed

lemma fmp_bars_same:
  assumes "same_answers (fm_api_key p) (fm_api_key p') env h" "same_view s s'" "fm_base_url p = fm_base_url p'"
  shows "same_outcome (fmp_bars env p tk from to s) (fmp_bars (env\<lparr>ve_http := h\<rparr>) p' tk from to s')"
proof -
  let ?path = "''/historical-price-full/'' @ ve_path_escape env tk"
  let ?ps = "[''from'' \<mapsto> format_date from, ''to'' \<mapsto> format_date to]"
  show ?thesis
  proof (cases "fmp_endpoint env p ?path ?ps")
    case (Inl err)
    show ?thesis unfolding fmp_bars_def http_fields Inl fmp_endpoint_same(1)[OF assms(3) Inl] using assms(2) by auto
  next
    case (Inr q)
    then obtain q' where q': "fmp_endpoint (env\<lparr>ve_http := h\<rparr>) p' ?path ?ps = Inr (rekey (fm_api_key p') q')"
        "q = rekey (fm_api_key p) q'"
      using fmp_endpoint_same(2)[OF assms(3)] by blast
    obtain r s1 s1' where g: "vendor_get env ''fmp'' (rekey (fm_api_key p) q') s = (r, s1)" "vendor_get (env\<lparr>ve_http := h\<rparr>) ''fmp'' (rekey (fm_api_key p') q') s' = (r, s1')" "same_view s1 s1'"
      by (rule same_outcomeE[OF vendor_get_same[OF assms(1,2)]])
    thus ?thesis unfolding fmp_bars_def http_fields Inr q' by (auto simp: Let_def split: sum.splits option.splits)
  qed
qed

lemma fmp_pb_same:
  assumes "same_answers (fm_api_key p) (fm_api_key p') env h" "same_view s s'" "fm_base_url p = fm_base_url p'"
  shows "same_outcome (fmp_pb env p tk s) (fmp_pb (env\<lparr>ve_http := h\<rparr>) p' tk s')"
proof (cases "fmp_endpoint env p (''/ratios-ttm/'' @ ve_path_escape env tk) Map.empty")
  case (Inl err)
  show ?thesis unfolding fmp_pb_def http_fields Inl fmp_endpoint_same(1)[OF assms(3) Inl] using assms(2) by auto
next
  case (Inr q)
  then obtain q' where q': "fmp_endpoint (env\<lparr>ve_http := h\<rparr>) p' (''/ratios-ttm/'' @ ve_path_escape env tk) Map.empty = Inr (rekey (fm_api_key p') q')"
      "q = rekey (fm_api_key p) q'"
    using fmp_endpoint_same(2)[OF assms(3)] by blast
  obtain r s1 s1' where g: "vendor_get env ''fmp'' (rekey (fm_api_key p) q') s = (r, s1)" "vendor_get (env\<lparr>ve_http := h\<rparr>) ''fmp'' (rekey (fm_api_key p') q') s' = (r, s1')" "same_view s1 s1'"
    by (rule same_outcomeE[OF vendor_get_same[OF assms(1,2)]])
  thus ?thesis unfolding fmp_pb_def http_fields Inr q' by (auto split: sum.splits option.splits list.splits)
qed

lemma is_live_same: "same_view s s' \<Longrightarrow> same_outcome (is_live env t s) (is_live (env\<lparr>ve_http := h\<rparr>) t s')"
  by (simp add: is_live_def vendor_now_def same_outcome_def same_view_def)

lemma fmp_quote_at_same:
  assumes "same_answers (fm_api_key p) (fm_api_key p') env h" "same_view s s'" "fm_base_url p = fm_base_url p'"
  shows "same_outcome (fmp_quote_at env p tk t s) (fmp_quote_at (env\<lparr>ve_http := h\<rparr>) p' tk t s')"
proof -
  obtain l s1 s1' where l: "is_live env t s = (l, s1)" "is_live (env\<lparr>ve_http := h\<rparr>) t s' = (l, s1')" "same_view s1 s1'"
    by (rule same_outcomeE[OF is_live_same[OF assms(2)]])
  show ?thesis
  proof (cases l)
    case True
    obtain r s2 s2' where q: "live_quote env p tk s1 = (r, s2)" "live_quote (env\<lparr>ve_http := h\<rparr>) p' tk s1' = (r, s2')" "same_view s2 s2'"
      by (rule same_outcomeE[OF live_quote_same[OF assms(1) l(3) assms(3)]])
    obtain now s3 s3' where n: "vendor_now env s2 = (now, s3)" "vendor_now (env\<lparr>ve_http := h\<rparr>) s2' = (now, s3')" "same_view s3 s3'"
      by (rule same_outcomeE[OF vendor_now_same[OF q(3)]])
    from l q n True show ?thesis by (auto simp: fmp_quote_at_def Let_def split: sum.splits)
  next
    case False
    obtain r s2 s2' where "fmp_bars env p tk (add_date 0 0 (- barLookbackDays) t) t s1 = (r, s2)"
        "fmp_bars (env\<lparr>ve_http := h\<rparr>) p' tk (add_date 0 0 (- barLookbackDays) t) t s1' = (r, s2')" "same_view s2 s2'"
      by (rule same_outcomeE[OF fmp_bars_same[OF assms(1) l(3) assms(3)]])
    with l False show ?thesis by (auto simp: fmp_quote_at_def split: sum.splits)
  qed
qed

lemma fmp_fundamentals_same:
  assumes "same_answers (fm_api_key p) (fm_api_key p') env h" "same_view s s'" "fm_base_url p = fm_base_url p'"
  shows "same_outcome (fmp_fundamentals_at env p tk t s) (fmp_fundamentals_at (env\<lparr>ve_http := h\<rparr>) p' tk t s')"
proof -
  obtain l s1 s1' where l: "is_live env t s = (l, s1)" "is_live (env\<lparr>ve_http := h\<rparr>) t s' = (l, s1')" "same_view s1 s1'"
    by (rule same_outcomeE[OF is_live_same[OF assms(2)]])
  show ?thesis
  proof (cases l)
    case True
    obtain r s2 s2' where q: "live_quote env p tk s1 = (r, s2)" "live_quote (env\<lparr>ve_http := h\<rparr>) p' tk s1' = (r, s2')" "same_view s2 s2'"
      by (rule same_outcomeE[OF live_quote_same[OF assms(1) l(3) assms(3)]])
    obtain now s3 s3' where n: "vendor_now env s2 = (now, s3)" "vendor_now (env\<lparr>ve_http := h\<rparr>) s2' = (now, s3')" "same_view s3 s3'"
      by (rule same_outcomeE[OF vendor_now_same[OF q(3)]])
    obtain pb s4 s4' where b: "fmp_pb env p tk s3 = (pb, s4)" "fmp_pb (env\<lparr>ve_http := h\<rparr>) p' tk s3' = (pb, s4')" "same_view s4 s4'"
      by (rule same_outcomeE[OF fmp_pb_same[OF assms(1) n(3) assms(3)]])
    from l q n b True show ?thesis by (auto simp: fmp_fundamentals_at_def split: sum.splits)
  qed (use l in \<open>auto simp: fmp_fundamentals_at_def\<close>)
qed

section \<open>Properties\<close>

text \<open>
  C38: no registered vendor looks ahead, whatever the world answers and in whatever state it is
  asked: a quote is dated at or before the instant asked about; bars are never an empty success and
  all lie in the range; fundamentals are served only within the live window and are then dated at or
  before the instant and marked as the latest snapshot, so never as point-in-time data; and a quote
  for an instant behind the live window is computed from the daily bars of the forty days before it
  and from nothing else.
\<close>

theorem vendors_never_look_ahead:
  shows "(\<forall>q s1. vendor_quote env v tk t s = (Inr q, s1) \<longrightarrow> qt_as_of q \<le> t) \<and>
    (\<forall>bs s1. vendor_bars env v tk from to s = (Inr bs, s1) \<longrightarrow>
       bs \<noteq> [] \<and> list_all (\<lambda>b. from \<le> ba_date b \<and> ba_date b \<le> to) bs) \<and>
    (\<forall>f s1. vendor_fundamentals env v tk t s = (Inr f, s1) \<longrightarrow>
       fu_as_of f \<le> t \<and> fu_freshness f = FreshnessLatestOnly \<and> ve_now env (vs_clock s) - fmpLiveWindow \<le> t) \<and>
    (t < ve_now env (vs_clock s) - fmpLiveWindow \<longrightarrow> fst (vendor_quote env v tk t s) = bars_quote env v tk t s)"
  using vendor_quote_past vendor_bars_Inr vendor_fundamentals_Inr historical_quote
  by (simp add: list_all_iff)

text \<open>A vendor with one bar, on day 90, asked on day 100 and live.\<close>

definition sample_vendor_env :: vendor_env where
  "sample_vendor_env =
     \<lparr>ve_now = (\<lambda>n. 100 * day + int n), ve_wait = (\<lambda>_. None), ve_http = (\<lambda>_ q. Reply 200 (vq_path q)),
      ve_parse_url = Inr, ve_path_escape = id,
      ve_quotes = (\<lambda>_. Some [\<lparr>fq_symbol = ''A'', fq_price = Fin 7, fq_eps = 1, fq_pe = 1, fq_market_cap = 1,
                              fq_avg_volume = 1, fq_timestamp = 0\<rparr>]),
      ve_ratios = (\<lambda>_. None),
      ve_history = (\<lambda>_. Some [\<lparr>fb_date = ''0001-04-01'', fb_open = 1, fb_high = 1, fb_low = 1, fb_close = Fin 3,
                               fb_volume = 1\<rparr>]),
      ve_csv = (\<lambda>_. None), ve_parse_float = (\<lambda>_. (0, False)), ve_rfc3339 = (\<lambda>_. ''''), ve_unicode = ascii_unicode\<rparr>"

definition fresh_vendor :: vendor_state where
  "fresh_vendor = \<lparr>vs_clock = 0, vs_waits = 0, vs_requests = [], vs_memo = []\<rparr>"

theorem vendors_never_look_ahead_witness:
  "fst (vendor_quote sample_vendor_env (Fmp \<lparr>fm_base_url = ''b'', fm_api_key = ''k''\<rparr>) ''A'' (95 * day) fresh_vendor) =
     bars_quote sample_vendor_env (Fmp \<lparr>fm_base_url = ''b'', fm_api_key = ''k''\<rparr>) ''A'' (95 * day) fresh_vendor"
proof -
  have "95 * day < ve_now sample_vendor_env (vs_clock fresh_vendor) - fmpLiveWindow"
    by (simp add: sample_vendor_env_def fresh_vendor_def fmpLiveWindow_def day_def hour_def second_def)
  thus ?thesis
    using vendors_never_look_ahead[of sample_vendor_env "Fmp \<lparr>fm_base_url = ''b'', fm_api_key = ''k''\<rparr>" "''A''"
        "95 * day" fresh_vendor] by blast
qed

text \<open>
  C39: an API key reaches nothing but the query of a request. Take any world under one key, and a
  world that gives another key the same answers, equal in status and body, while its transport and
  body errors may read otherwise and quote the key. Two adapters that differ in the key only then
  answer every quote, fundamentals and bars call alike, values, error texts and memo included, and
  make the same requests but for the key: what they say depends on the statuses and bodies of the
  replies and on nothing else of them. Requests are assumed to be buildable: the cause of a failure
  to build one, which parses the URL again, is wrapped as it is (\<open>bad_request_is_wrapped\<close>).
\<close>

theorem api_key_never_leaks:
  assumes "same_answers (fm_api_key p) k env http'" "same_view s s'"
  shows "same_outcome (vendor_quote env (Fmp p) tk t s)
      (vendor_quote (env\<lparr>ve_http := http'\<rparr>) (Fmp (p\<lparr>fm_api_key := k\<rparr>)) tk t s') \<and>
    same_outcome (vendor_fundamentals env (Fmp p) tk t s)
      (vendor_fundamentals (env\<lparr>ve_http := http'\<rparr>) (Fmp (p\<lparr>fm_api_key := k\<rparr>)) tk t s') \<and>
    same_outcome (vendor_bars env (Fmp p) tk from to s)
      (vendor_bars (env\<lparr>ve_http := http'\<rparr>) (Fmp (p\<lparr>fm_api_key := k\<rparr>)) tk from to s')"
proof -
  let ?p' = "p\<lparr>fm_api_key := k\<rparr>"
  have a: "same_answers (fm_api_key p) (fm_api_key ?p') env http'" "fm_base_url p = fm_base_url ?p'"
    using assms(1) by simp_all
  show ?thesis
    using fmp_quote_at_same[OF a(1) assms(2) a(2)] fmp_fundamentals_same[OF a(1) assms(2) a(2)]
      fmp_bars_same[OF a(1) assms(2) a(2)] by simp
qed

text \<open>A network that is down, and says so with the URL it was asked for.\<close>

definition telltale :: "nat \<Rightarrow> vendor_request \<Rightarrow> vendor_reply" where
  "telltale n q = TransportFailed (EText (''Get '' @ vq_path q @ ''?apikey='' @
     (case vq_params q ''apikey'' of Some k \<Rightarrow> k | None \<Rightarrow> [])))"

theorem api_key_never_leaks_witness:
  "same_outcome
     (vendor_quote (sample_vendor_env\<lparr>ve_http := telltale\<rparr>) (Fmp \<lparr>fm_base_url = ''b'', fm_api_key = ''k1''\<rparr>) ''A''
        (100 * day) fresh_vendor)
     (vendor_quote (sample_vendor_env\<lparr>ve_http := telltale\<rparr>) (Fmp \<lparr>fm_base_url = ''b'', fm_api_key = ''k2''\<rparr>) ''A''
        (100 * day) fresh_vendor)"
proof -
  have "same_answers (fm_api_key \<lparr>fm_base_url = ''b'', fm_api_key = ''k1''\<rparr>) ''k2''
      (sample_vendor_env\<lparr>ve_http := telltale\<rparr>) telltale"
    by (simp add: same_answers_def telltale_def)
  moreover have "same_view fresh_vendor fresh_vendor" by (simp add: same_view_def fresh_vendor_def)
  ultimately show ?thesis
    using api_key_never_leaks[of "\<lparr>fm_base_url = ''b'', fm_api_key = ''k1''\<rparr>" "''k2''"
        "sample_vendor_env\<lparr>ve_http := telltale\<rparr>" telltale fresh_vendor fresh_vendor "''A''" "100 * day"]
    by (simp del: vendor_quote.simps)
qed

text \<open>A request that cannot be built is reported with the cause as it is, and that may show the URL.\<close>

lemma bad_request_is_wrapped:
  assumes "ve_wait env (vs_waits s) = None" "ve_http env (length (vs_requests s)) q = BadRequest err"
  shows "fst (vendor_get env nm q s) =
    Inl (EWrap (''marketdata: '' @ nm @ '': build request for '' @ vq_path q) err)"
  using assms by (simp add: vendor_get_def)

end
