(* ===== verification/Config.thy ===== *)
theory Config
  imports Go_Text Market_Vendors
begin

text \<open>
  Runtime settings (\<open>internal/config/config.go\<close>): the record, its defaults, the overlay of an
  optional file and of the environment, and the validation. The environment is a function, the empty
  string standing for an unset variable as \<open>os.Getenv\<close> does; \<open>time.ParseDuration\<close>,
  \<open>strconv.ParseFloat\<close>, reading a file and decoding it are arguments.
\<close>

section \<open>Settings\<close>

record config =
  cg_http_addr :: string
  cg_database_url :: string
  cg_db_max_conns :: int
  cg_log_level :: string
  cg_log_format :: string
  cg_planner :: string
  cg_multi_mode :: string
  cg_multi_providers :: "string list"
  cg_multi_confidence_threshold :: f64
  cg_multi_escalate_on_signal :: bool
  cg_llm_model :: string
  cg_llm_max_tokens :: int
  cg_llm_base_url :: string
  cg_request_timeout :: dur
  cg_cors_allowed_origins :: "string list"
  cg_policy_file :: string
  cg_domains_file :: string
  cg_market_data_provider :: string
  cg_market_data_vendor :: string
  cg_market_data_base_url :: string
  cg_market_data_quote_ttl :: dur
  cg_market_data_fundamentals_ttl :: dur
  cg_market_data_bars_ttl :: dur
  cg_finance_hybrid :: bool
  cg_plan_cache_size :: int
  cg_plan_cache_ttl :: dur
  cg_replan_async :: bool
  cg_replan_workers :: int
  cg_replan_timeout :: dur
  cg_replan_max_retries :: int
  cg_sources_enabled :: bool
  cg_source_timeout :: dur
  cg_sources_file :: string
  cg_webhook_url :: string
  cg_webhook_secret :: string
  cg_webhook_timeout :: dur
  cg_webhook_retries :: int
  cg_webhook_events :: "string list"

definition default_config :: config where
  "default_config =
     \<lparr>cg_http_addr = '':8080'',
      cg_database_url = '''',
      cg_db_max_conns = 10,
      cg_log_level = ''info'',
      cg_log_format = ''json'',
      cg_planner = ''mock'',
      cg_multi_mode = ''verify'',
      cg_multi_providers = [],
      cg_multi_confidence_threshold = lit (6/10),
      cg_multi_escalate_on_signal = True,
      cg_llm_model = '''',
      cg_llm_max_tokens = 4096,
      cg_llm_base_url = '''',
      cg_request_timeout = 15 * second,
      cg_cors_allowed_origins = [''http://localhost:3000''],
      cg_policy_file = '''',
      cg_domains_file = '''',
      cg_market_data_provider = ''offline'',
      cg_market_data_vendor = ''fmp,stooq'',
      cg_market_data_base_url = '''',
      cg_market_data_quote_ttl = 15 * 60 * second,
      cg_market_data_fundamentals_ttl = 24 * hour,
      cg_market_data_bars_ttl = 15 * 60 * second,
      cg_finance_hybrid = False,
      cg_plan_cache_size = 1024,
      cg_plan_cache_ttl = 60 * second,
      cg_replan_async = False,
      cg_replan_workers = 4,
      cg_replan_timeout = 60 * second,
      cg_replan_max_retries = 2,
      cg_sources_enabled = False,
      cg_source_timeout = 5 * second,
      cg_sources_file = '''',
      cg_webhook_url = '''',
      cg_webhook_secret = '''',
      cg_webhook_timeout = 5 * second,
      cg_webhook_retries = 3,
      cg_webhook_events = []\<rparr>"

section \<open>The environment\<close>

type_synonym getenv = "string \<Rightarrow> string"

record parsers =
  pr_duration :: "string \<Rightarrow> dur option"
  pr_float :: "string \<Rightarrow> f64 option"

definition split_and_trim :: "unicode \<Rightarrow> string \<Rightarrow> string list" where
  "split_and_trim u s = filter (\<lambda>t. t \<noteq> '''') (map (uc_trim_space u) (split_on (CHR '','') s))"

text \<open>\<open>int32(n)\<close> keeps the low 32 bits.\<close>

definition int32_of :: "int \<Rightarrow> int" where
  "int32_of n = sint (word_of_int n :: 32 word)"

definition flag_exact :: "string \<Rightarrow> bool" where
  "flag_exact v \<longleftrightarrow> v = ''true'' \<or> v = ''1''"

definition flag_fold :: "unicode \<Rightarrow> string \<Rightarrow> bool" where
  "flag_fold u v \<longleftrightarrow> v = ''1'' \<or> uc_equal_fold u v ''true''"

text \<open>
  The shapes of \<open>if v := os.Getenv(key); v != "" { cfg.Field = ... }\<close>: a text, a flag, a list, and a
  parsed value, where a value that does not parse leaves the field.
\<close>

definition env_value :: "(string \<Rightarrow> 'v) \<Rightarrow> string \<Rightarrow> (('v \<Rightarrow> 'v) \<Rightarrow> config \<Rightarrow> config) \<Rightarrow> getenv \<Rightarrow> config \<Rightarrow> config" where
  "env_value read key upd env = upd (\<lambda>old. if env key = '''' then old else read (env key))"

definition env_parsed ::
  "(string \<Rightarrow> 'v option) \<Rightarrow> string \<Rightarrow> (('v \<Rightarrow> 'v) \<Rightarrow> config \<Rightarrow> config) \<Rightarrow> getenv \<Rightarrow> config \<Rightarrow> config" where
  "env_parsed parse key upd env =
     upd (\<lambda>old. if env key = '''' then old else case parse (env key) of Some x \<Rightarrow> x | None \<Rightarrow> old)"

definition apply_env :: "unicode \<Rightarrow> parsers \<Rightarrow> getenv \<Rightarrow> config \<Rightarrow> config" where
  "apply_env u pr env cfg =
     fold (\<lambda>step. step env)
      [env_value id ''DDE_HTTP_ADDR'' cg_http_addr_update,
       env_value id ''DATABASE_URL'' cg_database_url_update,
       env_value id ''DDE_DATABASE_URL'' cg_database_url_update,
       env_parsed (map_option int32_of \<circ> atoi) ''DDE_DB_MAX_CONNS'' cg_db_max_conns_update,
       env_value id ''DDE_LOG_LEVEL'' cg_log_level_update,
       env_value id ''DDE_LOG_FORMAT'' cg_log_format_update,
       env_value id ''DDE_PLANNER'' cg_planner_update,
       env_value id ''DDE_LLM_MODEL'' cg_llm_model_update,
       env_parsed atoi ''DDE_LLM_MAX_TOKENS'' cg_llm_max_tokens_update,
       env_value id ''DDE_LLM_BASE_URL'' cg_llm_base_url_update,
       env_value id ''DDE_MULTI_MODE'' cg_multi_mode_update,
       env_value (split_and_trim u) ''DDE_MULTI_PROVIDERS'' cg_multi_providers_update,
       env_parsed (pr_float pr) ''DDE_MULTI_CONFIDENCE_THRESHOLD'' cg_multi_confidence_threshold_update,
       env_value flag_exact ''DDE_MULTI_ESCALATE_ON_SIGNAL'' cg_multi_escalate_on_signal_update,
       env_parsed (pr_duration pr) ''DDE_REQUEST_TIMEOUT'' cg_request_timeout_update,
       env_value (split_and_trim u) ''DDE_CORS_ALLOWED_ORIGINS'' cg_cors_allowed_origins_update,
       env_value id ''DDE_POLICY'' cg_policy_file_update,
       env_value id ''DDE_DOMAINS'' cg_domains_file_update,
       env_value id ''DDE_MARKETDATA_PROVIDER'' cg_market_data_provider_update,
       env_value id ''DDE_MARKETDATA_VENDOR'' cg_market_data_vendor_update,
       env_value id ''DDE_MARKETDATA_BASE_URL'' cg_market_data_base_url_update,
       env_parsed (pr_duration pr) ''DDE_MARKETDATA_QUOTE_TTL'' cg_market_data_quote_ttl_update,
       env_parsed (pr_duration pr) ''DDE_MARKETDATA_FUNDAMENTALS_TTL'' cg_market_data_fundamentals_ttl_update,
       env_parsed (pr_duration pr) ''DDE_MARKETDATA_BARS_TTL'' cg_market_data_bars_ttl_update,
       env_value (flag_fold u) ''DDE_FINANCE_HYBRID'' cg_finance_hybrid_update,
       env_parsed atoi ''DDE_PLAN_CACHE_SIZE'' cg_plan_cache_size_update,
       env_parsed (pr_duration pr) ''DDE_PLAN_CACHE_TTL'' cg_plan_cache_ttl_update,
       env_value (flag_fold u) ''DDE_REPLAN_ASYNC'' cg_replan_async_update,
       env_parsed atoi ''DDE_REPLAN_WORKERS'' cg_replan_workers_update,
       env_parsed (pr_duration pr) ''DDE_REPLAN_TIMEOUT'' cg_replan_timeout_update,
       env_parsed atoi ''DDE_REPLAN_MAX_RETRIES'' cg_replan_max_retries_update,
       env_value (flag_fold u) ''DDE_SOURCES_ENABLED'' cg_sources_enabled_update,
       env_parsed (pr_duration pr) ''DDE_SOURCE_TIMEOUT'' cg_source_timeout_update,
       env_value id ''DDE_SOURCES'' cg_sources_file_update,
       env_value id ''DDE_WEBHOOK_URL'' cg_webhook_url_update,
       env_value id ''DDE_WEBHOOK_SECRET'' cg_webhook_secret_update,
       env_parsed (pr_duration pr) ''DDE_WEBHOOK_TIMEOUT'' cg_webhook_timeout_update,
       env_parsed atoi ''DDE_WEBHOOK_RETRIES'' cg_webhook_retries_update,
       env_value (split_and_trim u) ''DDE_WEBHOOK_EVENTS'' cg_webhook_events_update] cfg"

section \<open>Validation\<close>

definition webhookEventNames :: "string list" where
  "webhookEventNames =
     [''goal.created'', ''plan.created'', ''signal.received'', ''replan.completed'', ''outcome.recorded'',
      ''goal.status_changed'']"

definition market_data_vendors :: "unicode \<Rightarrow> config \<Rightarrow> string list" where
  "market_data_vendors u c = split_and_trim u (cg_market_data_vendor c)"

definition planner_error :: "unicode \<Rightarrow> config \<Rightarrow> go_error option" where
  "planner_error u c =
     (if cg_planner c \<in> {''mock'', ''anthropic'', ''openai'', ''deepseek'', ''finance'', ''byok''} then None
      else if cg_planner c = ''multi'' then
        (if cg_multi_mode c \<notin> {''verify'', ''route'', ''ensemble''}
         then Some (EText (''config: invalid multi_mode '' @ uc_quote u (cg_multi_mode c) @ '' (want verify|route|ensemble)''))
         else if length (cg_multi_providers c) < 2
         then Some (EText ''config: planner=multi needs at least 2 providers (DDE_MULTI_PROVIDERS)'')
         else None)
      else Some (EText (''config: invalid planner '' @ uc_quote u (cg_planner c))))"

fun first_unknown :: "(string \<Rightarrow> go_error) \<Rightarrow> string list \<Rightarrow> string list \<Rightarrow> go_error option" where
  "first_unknown err known [] = None"
| "first_unknown err known (x # xs) = (if x \<notin> set known then Some (err x) else first_unknown err known xs)"

definition market_data_error :: "unicode \<Rightarrow> config \<Rightarrow> go_error option" where
  "market_data_error u c =
     (if cg_market_data_provider c = ''offline'' then None
      else if cg_market_data_provider c = ''http'' then
        (if market_data_vendors u c = []
         then Some (EText ''config: market_data_provider=http needs at least one vendor (DDE_MARKETDATA_VENDOR)'')
         else first_unknown (\<lambda>v. EText (''config: unknown market_data_vendor '' @ uc_quote u v @ '' (known: '' @
                join_strs '', '' known_vendors @ '')'')) known_vendors (market_data_vendors u c))
      else Some (EText (''config: invalid market_data_provider '' @ uc_quote u (cg_market_data_provider c))))"

definition webhook_error :: "config \<Rightarrow> go_error option" where
  "webhook_error c =
     (if cg_webhook_url c \<noteq> '''' then
        (if cg_webhook_timeout c \<le> 0 then Some (EText ''config: webhook_timeout must be positive'')
         else if cg_webhook_retries c < 0 then Some (EText ''config: webhook_retries must not be negative'')
         else None)
      else None)"

definition config_validate :: "unicode \<Rightarrow> config \<Rightarrow> go_error option" where
  "config_validate u c =
     (if cg_http_addr c = '''' then Some (EText ''config: http_addr must not be empty'')
      else if cg_log_level c \<notin> {''debug'', ''info'', ''warn'', ''error''}
      then Some (EText (''config: invalid log_level '' @ uc_quote u (cg_log_level c)))
      else if cg_log_format c \<notin> {''json'', ''text''}
      then Some (EText (''config: invalid log_format '' @ uc_quote u (cg_log_format c)))
      else case planner_error u c of Some e \<Rightarrow> Some e | None \<Rightarrow>
        (case market_data_error u c of Some e \<Rightarrow> Some e | None \<Rightarrow>
          if cg_market_data_quote_ttl c < 0 \<or> cg_market_data_fundamentals_ttl c < 0 \<or> cg_market_data_bars_ttl c < 0
          then Some (EText ''config: market data cache TTLs must not be negative'')
          else if cg_request_timeout c \<le> 0 then Some (EText ''config: request_timeout must be positive'')
          else if cg_replan_timeout c \<le> 0 then Some (EText ''config: replan_timeout must be positive'')
          else if cg_replan_max_retries c < 0 then Some (EText ''config: replan_max_retries must not be negative'')
          else if cg_source_timeout c < 0 then Some (EText ''config: source_timeout must not be negative'')
          else case webhook_error c of Some e \<Rightarrow> Some e | None \<Rightarrow>
            first_unknown (\<lambda>e. EText (''config: unknown webhook event '' @ uc_quote u e @ '' (want one of '' @
              join_strs '', '' webhookEventNames @ '')'')) webhookEventNames (cg_webhook_events c)))"

section \<open>Loading\<close>

record config_files =
  cf_read :: "string \<Rightarrow> go_error + string"
  cf_json :: "string \<Rightarrow> config \<Rightarrow> go_error + config"    \<comment> \<open>\<open>json.Unmarshal\<close> into the settings so far\<close>
  cf_yaml :: "string \<Rightarrow> config \<Rightarrow> go_error + config"

definition load_file :: "config_files \<Rightarrow> string \<Rightarrow> config \<Rightarrow> go_error + config" where
  "load_file fs path cfg =
     (case cf_read fs path of
        Inl err \<Rightarrow> Inl (EWrap (''config: read '' @ path) err)
      | Inr data \<Rightarrow>
          if suffix ''.json'' path
          then (case cf_json fs data cfg of
                  Inl err \<Rightarrow> Inl (EWrap (''config: parse json '' @ path) err) | Inr c \<Rightarrow> Inr c)
          else (case cf_yaml fs data cfg of
                  Inl err \<Rightarrow> Inl (EWrap (''config: parse yaml '' @ path) err) | Inr c \<Rightarrow> Inr c))"

definition config_load :: "unicode \<Rightarrow> parsers \<Rightarrow> config_files \<Rightarrow> getenv \<Rightarrow> go_error + config" where
  "config_load u pr fs env =
     (case (if env ''DDE_CONFIG'' \<noteq> '''' then load_file fs (env ''DDE_CONFIG'') default_config else Inr default_config) of
        Inl err \<Rightarrow> Inl err
      | Inr cfg \<Rightarrow>
          let c = apply_env u pr env cfg
          in case config_validate u c of Some err \<Rightarrow> Inl err | None \<Rightarrow> Inr c)"

section \<open>What the environment overrides\<close>

text \<open>The variables by the kind of their value. \<open>DDE_DATABASE_URL\<close> comes after \<open>DATABASE_URL\<close>.\<close>

definition text_settings :: "(string \<times> (config \<Rightarrow> string)) list" where
  "text_settings =
     [(''DDE_HTTP_ADDR'', cg_http_addr),
      (''DDE_LOG_LEVEL'', cg_log_level),
      (''DDE_LOG_FORMAT'', cg_log_format),
      (''DDE_PLANNER'', cg_planner),
      (''DDE_LLM_MODEL'', cg_llm_model),
      (''DDE_LLM_BASE_URL'', cg_llm_base_url),
      (''DDE_MULTI_MODE'', cg_multi_mode),
      (''DDE_POLICY'', cg_policy_file),
      (''DDE_DOMAINS'', cg_domains_file),
      (''DDE_MARKETDATA_PROVIDER'', cg_market_data_provider),
      (''DDE_MARKETDATA_VENDOR'', cg_market_data_vendor),
      (''DDE_MARKETDATA_BASE_URL'', cg_market_data_base_url),
      (''DDE_SOURCES'', cg_sources_file),
      (''DDE_WEBHOOK_URL'', cg_webhook_url),
      (''DDE_WEBHOOK_SECRET'', cg_webhook_secret)]"

definition duration_settings :: "(string \<times> (config \<Rightarrow> dur)) list" where
  "duration_settings =
     [(''DDE_REQUEST_TIMEOUT'', cg_request_timeout),
      (''DDE_MARKETDATA_QUOTE_TTL'', cg_market_data_quote_ttl),
      (''DDE_MARKETDATA_FUNDAMENTALS_TTL'', cg_market_data_fundamentals_ttl),
      (''DDE_MARKETDATA_BARS_TTL'', cg_market_data_bars_ttl),
      (''DDE_PLAN_CACHE_TTL'', cg_plan_cache_ttl),
      (''DDE_REPLAN_TIMEOUT'', cg_replan_timeout),
      (''DDE_SOURCE_TIMEOUT'', cg_source_timeout),
      (''DDE_WEBHOOK_TIMEOUT'', cg_webhook_timeout)]"

definition int_settings :: "(string \<times> (config \<Rightarrow> int)) list" where
  "int_settings =
     [(''DDE_LLM_MAX_TOKENS'', cg_llm_max_tokens),
      (''DDE_PLAN_CACHE_SIZE'', cg_plan_cache_size),
      (''DDE_REPLAN_WORKERS'', cg_replan_workers),
      (''DDE_REPLAN_MAX_RETRIES'', cg_replan_max_retries),
      (''DDE_WEBHOOK_RETRIES'', cg_webhook_retries)]"

definition flag_settings :: "(string \<times> (config \<Rightarrow> bool)) list" where
  "flag_settings =
     [(''DDE_FINANCE_HYBRID'', cg_finance_hybrid),
      (''DDE_REPLAN_ASYNC'', cg_replan_async),
      (''DDE_SOURCES_ENABLED'', cg_sources_enabled)]"

definition list_settings :: "(string \<times> (config \<Rightarrow> string list)) list" where
  "list_settings =
     [(''DDE_MULTI_PROVIDERS'', cg_multi_providers),
      (''DDE_CORS_ALLOWED_ORIGINS'', cg_cors_allowed_origins),
      (''DDE_WEBHOOK_EVENTS'', cg_webhook_events)]"

definition overlay :: "(string \<Rightarrow> 'v option) \<Rightarrow> string \<Rightarrow> 'v \<Rightarrow> 'v" where
  "overlay parse v old = (if v = []  then old else case parse v of Some x \<Rightarrow> x | None \<Rightarrow> old)"

definition overrides ::
  "(string \<Rightarrow> 'v option) \<Rightarrow> getenv \<Rightarrow> config \<Rightarrow> config \<Rightarrow> (string \<times> (config \<Rightarrow> 'v)) list \<Rightarrow> bool" where
  "overrides parse env c c' settings \<longleftrightarrow> list_all (\<lambda>(key, field). field c' = overlay parse (env key) (field c)) settings"

lemma apply_env_fields:
  "cg_http_addr (apply_env u pr env c) = overlay Some (env ''DDE_HTTP_ADDR'') (cg_http_addr c)"
  "cg_db_max_conns (apply_env u pr env c) = overlay (map_option int32_of \<circ> atoi) (env ''DDE_DB_MAX_CONNS'') (cg_db_max_conns c)"
  "cg_log_level (apply_env u pr env c) = overlay Some (env ''DDE_LOG_LEVEL'') (cg_log_level c)"
  "cg_log_format (apply_env u pr env c) = overlay Some (env ''DDE_LOG_FORMAT'') (cg_log_format c)"
  "cg_planner (apply_env u pr env c) = overlay Some (env ''DDE_PLANNER'') (cg_planner c)"
  "cg_llm_model (apply_env u pr env c) = overlay Some (env ''DDE_LLM_MODEL'') (cg_llm_model c)"
  "cg_llm_max_tokens (apply_env u pr env c) = overlay atoi (env ''DDE_LLM_MAX_TOKENS'') (cg_llm_max_tokens c)"
  "cg_llm_base_url (apply_env u pr env c) = overlay Some (env ''DDE_LLM_BASE_URL'') (cg_llm_base_url c)"
  "cg_multi_mode (apply_env u pr env c) = overlay Some (env ''DDE_MULTI_MODE'') (cg_multi_mode c)"
  "cg_multi_providers (apply_env u pr env c) = overlay (\<lambda>v. Some (split_and_trim u v)) (env ''DDE_MULTI_PROVIDERS'') (cg_multi_providers c)"
  "cg_multi_confidence_threshold (apply_env u pr env c) = overlay (pr_float pr) (env ''DDE_MULTI_CONFIDENCE_THRESHOLD'') (cg_multi_confidence_threshold c)"
  "cg_multi_escalate_on_signal (apply_env u pr env c) = overlay (\<lambda>v. Some (flag_exact v)) (env ''DDE_MULTI_ESCALATE_ON_SIGNAL'') (cg_multi_escalate_on_signal c)"
  "cg_request_timeout (apply_env u pr env c) = overlay (pr_duration pr) (env ''DDE_REQUEST_TIMEOUT'') (cg_request_timeout c)"
  "cg_cors_allowed_origins (apply_env u pr env c) = overlay (\<lambda>v. Some (split_and_trim u v)) (env ''DDE_CORS_ALLOWED_ORIGINS'') (cg_cors_allowed_origins c)"
  "cg_policy_file (apply_env u pr env c) = overlay Some (env ''DDE_POLICY'') (cg_policy_file c)"
  "cg_domains_file (apply_env u pr env c) = overlay Some (env ''DDE_DOMAINS'') (cg_domains_file c)"
  "cg_market_data_provider (apply_env u pr env c) = overlay Some (env ''DDE_MARKETDATA_PROVIDER'') (cg_market_data_provider c)"
  "cg_market_data_vendor (apply_env u pr env c) = overlay Some (env ''DDE_MARKETDATA_VENDOR'') (cg_market_data_vendor c)"
  "cg_market_data_base_url (apply_env u pr env c) = overlay Some (env ''DDE_MARKETDATA_BASE_URL'') (cg_market_data_base_url c)"
  "cg_market_data_quote_ttl (apply_env u pr env c) = overlay (pr_duration pr) (env ''DDE_MARKETDATA_QUOTE_TTL'') (cg_market_data_quote_ttl c)"
  "cg_market_data_fundamentals_ttl (apply_env u pr env c) = overlay (pr_duration pr) (env ''DDE_MARKETDATA_FUNDAMENTALS_TTL'') (cg_market_data_fundamentals_ttl c)"
  "cg_market_data_bars_ttl (apply_env u pr env c) = overlay (pr_duration pr) (env ''DDE_MARKETDATA_BARS_TTL'') (cg_market_data_bars_ttl c)"
  "cg_finance_hybrid (apply_env u pr env c) = overlay (\<lambda>v. Some (flag_fold u v)) (env ''DDE_FINANCE_HYBRID'') (cg_finance_hybrid c)"
  "cg_plan_cache_size (apply_env u pr env c) = overlay atoi (env ''DDE_PLAN_CACHE_SIZE'') (cg_plan_cache_size c)"
  "cg_plan_cache_ttl (apply_env u pr env c) = overlay (pr_duration pr) (env ''DDE_PLAN_CACHE_TTL'') (cg_plan_cache_ttl c)"
  "cg_replan_async (apply_env u pr env c) = overlay (\<lambda>v. Some (flag_fold u v)) (env ''DDE_REPLAN_ASYNC'') (cg_replan_async c)"
  "cg_replan_workers (apply_env u pr env c) = overlay atoi (env ''DDE_REPLAN_WORKERS'') (cg_replan_workers c)"
  "cg_replan_timeout (apply_env u pr env c) = overlay (pr_duration pr) (env ''DDE_REPLAN_TIMEOUT'') (cg_replan_timeout c)"
  "cg_replan_max_retries (apply_env u pr env c) = overlay atoi (env ''DDE_REPLAN_MAX_RETRIES'') (cg_replan_max_retries c)"
  "cg_sources_enabled (apply_env u pr env c) = overlay (\<lambda>v. Some (flag_fold u v)) (env ''DDE_SOURCES_ENABLED'') (cg_sources_enabled c)"
  "cg_source_timeout (apply_env u pr env c) = overlay (pr_duration pr) (env ''DDE_SOURCE_TIMEOUT'') (cg_source_timeout c)"
  "cg_sources_file (apply_env u pr env c) = overlay Some (env ''DDE_SOURCES'') (cg_sources_file c)"
  "cg_webhook_url (apply_env u pr env c) = overlay Some (env ''DDE_WEBHOOK_URL'') (cg_webhook_url c)"
  "cg_webhook_secret (apply_env u pr env c) = overlay Some (env ''DDE_WEBHOOK_SECRET'') (cg_webhook_secret c)"
  "cg_webhook_timeout (apply_env u pr env c) = overlay (pr_duration pr) (env ''DDE_WEBHOOK_TIMEOUT'') (cg_webhook_timeout c)"
  "cg_webhook_retries (apply_env u pr env c) = overlay atoi (env ''DDE_WEBHOOK_RETRIES'') (cg_webhook_retries c)"
  "cg_webhook_events (apply_env u pr env c) = overlay (\<lambda>v. Some (split_and_trim u v)) (env ''DDE_WEBHOOK_EVENTS'') (cg_webhook_events c)"
  "cg_database_url (apply_env u pr env c) =
     overlay Some (env ''DDE_DATABASE_URL'') (overlay Some (env ''DATABASE_URL'') (cg_database_url c))"
  by (simp_all add: apply_env_def env_value_def env_parsed_def overlay_def)

lemma overlay_idem: "overlay p v (overlay p v x) = overlay p v x"
  by (simp add: overlay_def split: option.split)

lemma env_overrides:
  "overrides Some env c (apply_env u pr env c) text_settings"
  "overrides (pr_duration pr) env c (apply_env u pr env c) duration_settings"
  "overrides atoi env c (apply_env u pr env c) int_settings"
  "overrides (\<lambda>v. Some (flag_fold u v)) env c (apply_env u pr env c) flag_settings"
  "overrides (\<lambda>v. Some (split_and_trim u v)) env c (apply_env u pr env c) list_settings"
  by (simp_all add: overrides_def apply_env_fields text_settings_def
      duration_settings_def int_settings_def flag_settings_def list_settings_def)

lemma env_database_url:
  "cg_database_url (apply_env u pr env c) =
     (if env ''DDE_DATABASE_URL'' \<noteq> '''' then env ''DDE_DATABASE_URL''
      else if env ''DATABASE_URL'' \<noteq> '''' then env ''DATABASE_URL'' else cg_database_url c)"
  by (simp add: apply_env_fields overlay_def)

lemma env_idempotent: "apply_env u pr env (apply_env u pr env c) = apply_env u pr env c"
  by (rule config.equality) (simp_all only: apply_env_fields overlay_idem, simp_all add: overlay_def)

lemma env_unset: "(\<And>key. env key = '''') \<Longrightarrow> apply_env u pr env c = c"
  by (rule config.equality) (simp_all add: apply_env_fields overlay_def)

section \<open>What validation accepts\<close>

lemma first_unknown_None: "first_unknown err known xs = None \<longleftrightarrow> set xs \<subseteq> set known"
  by (induction xs) auto

definition planner_ok :: "config \<Rightarrow> bool" where
  "planner_ok c \<longleftrightarrow>
     cg_planner c \<in> {''mock'', ''anthropic'', ''openai'', ''deepseek'', ''finance'', ''byok''} \<or>
     (cg_planner c = ''multi'' \<and> cg_multi_mode c \<in> {''verify'', ''route'', ''ensemble''} \<and>
      2 \<le> length (cg_multi_providers c))"

definition market_data_ok :: "unicode \<Rightarrow> config \<Rightarrow> bool" where
  "market_data_ok u c \<longleftrightarrow>
     cg_market_data_provider c = ''offline'' \<or>
     (cg_market_data_provider c = ''http'' \<and> market_data_vendors u c \<noteq> [] \<and>
      set (market_data_vendors u c) \<subseteq> set known_vendors)"

definition config_ok :: "unicode \<Rightarrow> config \<Rightarrow> bool" where
  "config_ok u c \<longleftrightarrow>
     cg_http_addr c \<noteq> '''' \<and> cg_log_level c \<in> {''debug'', ''info'', ''warn'', ''error''} \<and>
     cg_log_format c \<in> {''json'', ''text''} \<and> planner_ok c \<and> market_data_ok u c \<and>
     0 \<le> cg_market_data_quote_ttl c \<and> 0 \<le> cg_market_data_fundamentals_ttl c \<and> 0 \<le> cg_market_data_bars_ttl c \<and>
     0 < cg_request_timeout c \<and> 0 < cg_replan_timeout c \<and> 0 \<le> cg_replan_max_retries c \<and>
     0 \<le> cg_source_timeout c \<and>
     (cg_webhook_url c = '''' \<or> 0 < cg_webhook_timeout c \<and> 0 \<le> cg_webhook_retries c) \<and>
     set (cg_webhook_events c) \<subseteq> set webhookEventNames"

lemma planner_error_None: "planner_error u c = None \<longleftrightarrow> planner_ok c"
  unfolding planner_error_def planner_ok_def by (simp add: not_less)

lemma market_data_error_None: "market_data_error u c = None \<longleftrightarrow> market_data_ok u c"
  unfolding market_data_error_def market_data_ok_def by (simp add: first_unknown_None)

lemma webhook_error_None:
  "webhook_error c = None \<longleftrightarrow> cg_webhook_url c = '''' \<or> 0 < cg_webhook_timeout c \<and> 0 \<le> cg_webhook_retries c"
  by (simp add: webhook_error_def not_less not_le)

lemma config_validate_None: "config_validate u c = None \<longleftrightarrow> config_ok u c"
proof -
  have c2: "(case e of Some x \<Rightarrow> Some x | None \<Rightarrow> r) = None \<longleftrightarrow> e = None \<and> r = None" for e r :: "go_error option"
    by (cases e) simp_all
  have c1: "(if b then Some x else r) = None \<longleftrightarrow> \<not> b \<and> r = None" for b and x :: go_error and r
    by simp
  show ?thesis
    unfolding config_validate_def c1 c2 planner_error_None market_data_error_None webhook_error_None
      first_unknown_None config_ok_def by linarith
qed

section \<open>Properties\<close>

text \<open>
  The environment wins over what was loaded, and only where it says something: every variable
  that is set and parses replaces its field, one that does not parse, is empty or is unset leaves it;
  \<open>DDE_DATABASE_URL\<close> beats \<open>DATABASE_URL\<close>; an empty environment changes nothing; and applying the
  same environment twice is applying it once.
\<close>

theorem env_overrides_win:
  "overrides Some env c (apply_env u pr env c) text_settings \<and>
   overrides (pr_duration pr) env c (apply_env u pr env c) duration_settings \<and>
   overrides atoi env c (apply_env u pr env c) int_settings \<and>
   overrides (\<lambda>v. Some (flag_fold u v)) env c (apply_env u pr env c) flag_settings \<and>
   overrides (\<lambda>v. Some (split_and_trim u v)) env c (apply_env u pr env c) list_settings \<and>
   cg_database_url (apply_env u pr env c) =
     (if env ''DDE_DATABASE_URL'' \<noteq> '''' then env ''DDE_DATABASE_URL''
      else if env ''DATABASE_URL'' \<noteq> '''' then env ''DATABASE_URL'' else cg_database_url c) \<and>
   apply_env u pr (\<lambda>_. '''') c = c \<and>
   apply_env u pr env (apply_env u pr env c) = apply_env u pr env c"
  by (intro conjI env_overrides env_database_url env_idempotent env_unset refl)

text \<open>The size of the connection pool is cut to 32 bits and not validated.\<close>

lemma env_db_max_conns:
  "env ''DDE_DB_MAX_CONNS'' \<noteq> '''' \<Longrightarrow> atoi (env ''DDE_DB_MAX_CONNS'') = Some n \<Longrightarrow>
   cg_db_max_conns (apply_env u pr env c) = int32_of n"
  by (simp add: apply_env_fields overlay_def)

lemma db_max_conns_wraps:
  assumes "env ''DDE_DB_MAX_CONNS'' = ''4294967297''"
  shows "cg_db_max_conns (apply_env u pr env c) = 1"
proof -
  have "atoi ''4294967297'' = Some 4294967297"
    by (simp add: atoi_def ascii_digit_def digits_val_def digit_val_def)
  with assms have "cg_db_max_conns (apply_env u pr env c) = int32_of 4294967297"
    by (intro env_db_max_conns) simp_all
  thus ?thesis by (simp add: int32_of_def)
qed

lemma config_load_ok: "config_load u pr fs env = Inr c \<Longrightarrow> config_ok u c"
  by (auto simp: config_load_def Let_def config_validate_None split: sum.splits option.splits if_splits)

lemma default_loads:
  "config_load ascii_unicode pr fs (\<lambda>_. '''') = Inr default_config"
proof -
  have "config_ok ascii_unicode default_config"
    by (simp add: config_ok_def default_config_def planner_ok_def market_data_ok_def second_def hour_def)
  hence v: "config_validate ascii_unicode default_config = None" by (simp only: config_validate_None)
  have e: "apply_env ascii_unicode pr (\<lambda>_. '''') default_config = default_config" by (rule env_unset) (rule refl)
  show ?thesis by (simp add: config_load_def e v)
qed

end
