(* ===== verification/Assembly.thy ===== *)
theory Assembly
  imports Config Policy Webhook Market_Cache
begin

text \<open>
  How a process is put together from its settings (\<open>cmd/dde/commands.go\<close> and \<open>sources.go\<close>): the
  planner a name stands for, the per-domain overrides, the market-data provider, which caches and
  which queue are used, and the order in which the service's resources are opened and closed.
  A planner is the tree of constructors it was built from; an index out of range is a panic, \<open>None\<close>.
\<close>

section \<open>Planners\<close>

record llm_settings =
  lm_key :: string
  lm_model :: string
  lm_base_url :: string
  lm_max_tokens :: int

datatype planner_tree =
    MockTree
  | AnthropicTree llm_settings
  | OpenAITree string llm_settings
  | ByokTree llm_settings                       \<comment> \<open>its fallback is the mock\<close>
  | VerifyTree planner_tree planner_tree
  | RouteTree planner_tree planner_tree f64 bool
  | EnsembleTree "planner_tree list"

definition build_provider :: "getenv \<Rightarrow> string \<Rightarrow> config \<Rightarrow> planner_tree" where
  "build_provider env name cfg =
     (let st = (\<lambda>key base. \<lparr>lm_key = key, lm_model = cg_llm_model cfg, lm_base_url = base,
                            lm_max_tokens = cg_llm_max_tokens cfg\<rparr>) in
      if name = ''anthropic'' then AnthropicTree (st (env ''ANTHROPIC_API_KEY'') '''')
      else if name = ''openai'' then OpenAITree ''openai'' (st (env ''OPENAI_API_KEY'') (cg_llm_base_url cfg))
      else if name = ''deepseek'' then OpenAITree ''deepseek'' (st (env ''DEEPSEEK_API_KEY'') (cg_llm_base_url cfg))
      else if name = ''byok'' then ByokTree (st '''' (cg_llm_base_url cfg))
      else MockTree)"

text \<open>The planners that also implement \<open>PlanVerifier\<close>.\<close>

fun can_verify :: "planner_tree \<Rightarrow> bool" where
  "can_verify (AnthropicTree _) = True"
| "can_verify (OpenAITree _ _) = True"
| "can_verify _ = False"

definition new_multi_planner :: "getenv \<Rightarrow> config \<Rightarrow> planner_tree option" where
  "new_multi_planner env cfg =
     (let sub = map (\<lambda>name. build_provider env name cfg) (cg_multi_providers cfg) in
      if cg_multi_mode cfg = ''route'' then
        (if length sub < 2 then None
         else Some (RouteTree (sub ! 0) (sub ! 1) (cg_multi_confidence_threshold cfg) (cg_multi_escalate_on_signal cfg)))
      else if cg_multi_mode cfg = ''ensemble'' then Some (EnsembleTree sub)
      else if length (cg_multi_providers cfg) < 2 then None
      else
        let verifier = build_provider env (cg_multi_providers cfg ! 1) cfg in
        if \<not> can_verify verifier then Some (sub ! 0) else Some (VerifyTree (sub ! 0) verifier))"

definition new_planner :: "getenv \<Rightarrow> config \<Rightarrow> planner_tree option" where
  "new_planner env cfg =
     (if cg_planner cfg = ''multi'' then new_multi_planner env cfg
      else Some (build_provider env (cg_planner cfg) cfg))"

definition planner_from_spec :: "getenv \<Rightarrow> planner_spec \<Rightarrow> config \<Rightarrow> planner_tree option" where
  "planner_from_spec env sp cfg =
     (let c1 = (if pn_planner sp \<noteq> '''' then cfg\<lparr>cg_planner := pn_planner sp\<rparr> else cfg);
          c2 = (if pn_multi_mode sp \<noteq> '''' then c1\<lparr>cg_multi_mode := pn_multi_mode sp\<rparr> else c1);
          c3 = (if pn_multi_providers sp \<noteq> [] then c2\<lparr>cg_multi_providers := pn_multi_providers sp\<rparr> else c2);
          c4 = (if pn_model sp \<noteq> '''' then c3\<lparr>cg_llm_model := pn_model sp\<rparr> else c3)
      in new_planner env c4)"

text \<open>The resolver keeps what it built in a map; a panic leaves the map as it was.\<close>

type_synonym base_memo = "string \<Rightarrow> planner_tree option"

definition domain_base ::
  "getenv \<Rightarrow> config \<Rightarrow> policy \<Rightarrow> planner_tree \<Rightarrow> string \<Rightarrow> base_memo \<Rightarrow> planner_tree option \<times> base_memo" where
  "domain_base env cfg pol global_base i memo =
     (case memo i of
        Some p \<Rightarrow> (Some p, memo)
      | None \<Rightarrow>
          let r = (case policy_for pol i of
                     None \<Rightarrow> Some global_base
                   | Some dp \<Rightarrow>
                       (case dy_planner dp of None \<Rightarrow> Some global_base | Some sp \<Rightarrow> planner_from_spec env sp cfg))
          in (case r of None \<Rightarrow> (None, memo) | Some p \<Rightarrow> (Some p, memo(i \<mapsto> p))))"

section \<open>Market data\<close>

datatype market_source = OfflineSource | CachedSource vendor_chain cache_config

definition new_provider :: "unicode \<Rightarrow> getenv \<Rightarrow> go_error option \<Rightarrow> config \<Rightarrow> go_error + market_source" where
  "new_provider u env fixtures cfg =
     (if cg_market_data_provider cfg \<noteq> ''http''
      then (case fixtures of Some err \<Rightarrow> Inl err | None \<Rightarrow> Inr OfflineSource)
      else case new_chain_from_spec u (cg_market_data_vendor cfg)
                  \<lparr>vg_api_key = env ''DDE_MARKETDATA_API_KEY'', vg_base_url = cg_market_data_base_url cfg\<rparr> of
        Inl err \<Rightarrow> Inl err
      | Inr chain \<Rightarrow>
          Inr (CachedSource chain
            \<lparr>cg_quote_ttl = cg_market_data_quote_ttl cfg, cg_fundamentals_ttl = cg_market_data_fundamentals_ttl cfg,
             cg_bars_ttl = cg_market_data_bars_ttl cfg, cg_max_entries = 0\<rparr>))"

section \<open>Caches and queue\<close>

text \<open>The text cache is its capacity, the finance cache its capacity and expiry.\<close>

definition engine_caches :: "config \<Rightarrow> int option \<times> (int \<times> dur) option" where
  "engine_caches cfg =
     (if 0 < cg_plan_cache_size cfg \<and> cg_planner cfg \<noteq> ''byok''
      then (Some (cg_plan_cache_size cfg),
            if 0 < cg_plan_cache_ttl cfg then Some (cg_plan_cache_size cfg, cg_plan_cache_ttl cfg) else None)
      else (None, None))"

definition async_replan :: "config \<Rightarrow> bool" where
  "async_replan cfg \<longleftrightarrow> cg_replan_async cfg \<and> cg_planner cfg \<noteq> ''byok''"

section \<open>External sources\<close>

record source_def =
  sf_name :: string
  sf_kind :: string
  sf_domain :: string
  sf_endpoint :: string
  sf_api_key_env :: string

record source_settings =
  hs_name :: string
  hs_domain :: string
  hs_endpoint :: string
  hs_api_key :: string
  hs_timeout :: dur

text \<open>\<open>%q\<close> quotes the names.\<close>

fun register_sources ::
  "unicode \<Rightarrow> getenv \<Rightarrow> dur \<Rightarrow> source_def list \<Rightarrow> (string \<times> source_settings) list \<Rightarrow> go_error + (string \<times> source_settings) list" where
  "register_sources u env timeout [] reg = Inr reg"
| "register_sources u env timeout (d # ds) reg =
     (if sf_name d = '''' then Inl (EText ''sources: a source entry is missing a name'')
      else if map_of reg (sf_name d) \<noteq> None
      then Inl (EText (''sources: duplicate source name '' @ uc_quote u (sf_name d)))
      else if sf_kind d = ''http'' \<or> sf_kind d = '''' then
        register_sources u env timeout ds
          (reg @ [(sf_name d,
             \<lparr>hs_name = sf_name d, hs_domain = sf_domain d, hs_endpoint = sf_endpoint d,
              hs_api_key = (if sf_api_key_env d \<noteq> '''' then env (sf_api_key_env d) else ''''),
              hs_timeout = timeout\<rparr>)])
      else Inl (EText (''sources: unknown kind '' @ uc_quote u (sf_kind d) @ '' for source '' @ uc_quote u (sf_name d))))"

record source_files =
  so_read :: "string \<Rightarrow> go_error + string"
  so_json :: "string \<Rightarrow> go_error + source_def list"
  so_yaml :: "string \<Rightarrow> go_error + source_def list"

definition build_source_deps ::
  "unicode \<Rightarrow> getenv \<Rightarrow> source_files \<Rightarrow> config \<Rightarrow> go_error + (string \<times> source_settings) list" where
  "build_source_deps u env fs cfg =
     (let path = cg_sources_file cfg in
      if path = '''' then Inr []
      else case so_read fs path of
        Inl err \<Rightarrow> Inl (EWrap (''sources: read '' @ path) err)
      | Inr data \<Rightarrow>
          (case (if suffix ''.json'' path then so_json fs data else so_yaml fs data) of
             Inl err \<Rightarrow> Inl (EWrap (''sources: parse '' @ path) err)
           | Inr ds \<Rightarrow> register_sources u env (cg_source_timeout cfg) ds []))"

section \<open>The engine and the service\<close>

record engine_plan =
  ep_base :: planner_tree
  ep_provider :: market_source
  ep_cache :: "int option"
  ep_finance_cache :: "(int \<times> dur) option"
  ep_finance_inner :: "planner_tree option"
  ep_sources :: "(string \<times> source_settings) list option"

text \<open>
  What the process reads outside its settings: the fixtures, the files, and whether the router
  (\<open>Wire\<close>) accepts what it is given.
\<close>

record boot_world =
  bw_env :: getenv
  bw_fixtures :: "go_error option"
  bw_sources :: source_files
  bw_open :: "string \<Rightarrow> int \<Rightarrow> go_error option"
  bw_registry :: "string \<Rightarrow> go_error option"
  bw_show_v :: "f64 \<Rightarrow> string"
  bw_read :: "string \<Rightarrow> go_error + string"
  bw_policy_json :: "string \<Rightarrow> go_error + policy"
  bw_policy_yaml :: "string \<Rightarrow> go_error + policy"
  bw_asks :: "string list"      \<comment> \<open>the domains the router asks a base planner for\<close>
  bw_router :: "planner_tree \<Rightarrow> go_error option"

text \<open>\<open>None\<close> is a panic.\<close>

definition assemble_engine :: "unicode \<Rightarrow> boot_world \<Rightarrow> config \<Rightarrow> policy \<Rightarrow> (go_error + engine_plan) option" where
  "assemble_engine u w cfg pol =
     (case new_provider u (bw_env w) (bw_fixtures w) cfg of
        Inl err \<Rightarrow> Some (Inl err)
      | Inr provider \<Rightarrow>
          Option.bind (new_planner (bw_env w) cfg) (\<lambda>base.
            let inner = (if cg_finance_hybrid cfg
                         then map_option Some (fst (domain_base (bw_env w) cfg pol base ''investing'' Map.empty))
                         else Some None) in
            Option.bind inner (\<lambda>fin.
              if list_ex (\<lambda>i. fst (domain_base (bw_env w) cfg pol base i Map.empty) = None) (bw_asks w) then None
              else case bw_router w base of
                Some err \<Rightarrow> Some (Inl err)
              | None \<Rightarrow>
                  let plan = (\<lambda>srcs. \<lparr>ep_base = base, ep_provider = provider, ep_cache = fst (engine_caches cfg),
                         ep_finance_cache = snd (engine_caches cfg), ep_finance_inner = fin, ep_sources = srcs\<rparr>) in
                  if \<not> cg_sources_enabled cfg then Some (Inr (plan None))
                  else (case build_source_deps u (bw_env w) (bw_sources w) cfg of
                          Inl err \<Rightarrow> Some (Inl err)
                        | Inr srcs \<Rightarrow> Some (Inr (plan (Some srcs)))))))"

datatype boot_step =
    OpenRepo | CloseRepo | StartHooks | StartQueue int int dur int | StartInline | RecoverJobs
  | DrainReplans | DrainHooks

record service_plan =
  sp_engine :: engine_plan
  sp_webhook :: "webhook_config option"
  sp_async :: bool

definition webhook_of :: "config \<Rightarrow> webhook_config option" where
  "webhook_of cfg =
     (if cg_webhook_url cfg \<noteq> ''''
      then Some \<lparr>wc_url = cg_webhook_url cfg, wc_secret = cg_webhook_secret cfg, wc_timeout = cg_webhook_timeout cfg,
                 wc_retries = cg_webhook_retries cfg, wc_events = cg_webhook_events cfg, wc_queue_size = 0, wc_workers = 0\<rparr>
      else None)"

text \<open>The result with what was opened and closed on the way; every error path closes the store.\<close>

definition build_service ::
  "unicode \<Rightarrow> boot_world \<Rightarrow> config \<Rightarrow> (go_error + service_plan) option \<times> boot_step list" where
  "build_service u w cfg =
     (case bw_open w (cg_database_url cfg) (cg_db_max_conns cfg) of
        Some err \<Rightarrow> (Some (Inl err), [])
      | None \<Rightarrow>
          (case bw_registry w (cg_domains_file cfg) of
             Some err \<Rightarrow> (Some (Inl err), [OpenRepo, CloseRepo])
           | None \<Rightarrow>
               (case policy_load u (bw_show_v w) (bw_read w) (bw_policy_json w) (bw_policy_yaml w) (cg_policy_file cfg) of
                  Inl err \<Rightarrow> (Some (Inl err), [OpenRepo, CloseRepo])
                | Inr pol \<Rightarrow>
                    (case assemble_engine u w cfg pol of
                       None \<Rightarrow> (None, [OpenRepo])
                     | Some (Inl err) \<Rightarrow> (Some (Inl err), [OpenRepo, CloseRepo])
                     | Some (Inr eng) \<Rightarrow>
                         (Some (Inr \<lparr>sp_engine = eng, sp_webhook = webhook_of cfg, sp_async = async_replan cfg\<rparr>),
                          [OpenRepo] @ (if webhook_of cfg \<noteq> None then [StartHooks] else []) @
                          (if async_replan cfg
                           then [StartQueue (cg_replan_workers cfg) 1024 (cg_replan_timeout cfg) (cg_replan_max_retries cfg),
                                 RecoverJobs]
                           else [StartInline]))))))"

text \<open>\<open>cleanup\<close>: replans first, since they emit events, then the webhook queue, then the store.\<close>

definition cleanup :: "service_plan \<Rightarrow> boot_step list" where
  "cleanup sp = [DrainReplans] @ (if sp_webhook sp \<noteq> None then [DrainHooks] else []) @ [CloseRepo]"

section \<open>Nothing panics on settings that validated\<close>

lemma new_planner_total: "planner_ok c \<Longrightarrow> new_planner env c \<noteq> None"
  by (auto simp: new_planner_def new_multi_planner_def planner_ok_def Let_def)

lemma planner_from_spec_total:
  assumes "planner_ok c" "spec_ok sp"
  shows "planner_from_spec env sp c \<noteq> None"
proof (cases "pn_planner sp = ''multi''")
  case True
  with assms(2) have "2 \<le> length (pn_multi_providers sp)" "pn_multi_providers sp \<noteq> []" "pn_multi_mode sp \<noteq> ''''"
    by (auto simp: spec_ok_def)
  with True show ?thesis
    by (auto simp: planner_from_spec_def new_planner_def new_multi_planner_def Let_def)
next
  case False
  with assms(2) have sp: "pn_multi_mode sp = ''''" "pn_multi_providers sp = []" by (simp_all add: spec_ok_def)
  show ?thesis
  proof (cases "pn_planner sp = ''''")
    case True
    have "planner_ok (c\<lparr>cg_llm_model := m\<rparr>)" for m using assms(1) by (simp add: planner_ok_def)
    with True sp assms(1) show ?thesis by (simp add: planner_from_spec_def new_planner_total)
  next
    case 2: False
    thus ?thesis using sp False by (auto simp: planner_from_spec_def new_planner_def Let_def)
  qed
qed

definition policy_specs_ok :: "policy \<Rightarrow> bool" where
  "policy_specs_ok pol \<longleftrightarrow> (\<forall>i dp sp. policy_for pol i = Some dp \<longrightarrow> dy_planner dp = Some sp \<longrightarrow> spec_ok sp)"

lemma policy_load_specs: "policy_load u sv rd pj py path = Inr pol \<Longrightarrow> policy_specs_ok pol"
proof -
  assume l: "policy_load u sv rd pj py path = Inr pol"
  have ok: "policy_specs_ok p" if "policy_validate u sv p = None" for p
  proof -
    have "domain_ok u dp" if "policy_for p i = Some dp" for i dp
      using that \<open>policy_validate u sv p = None\<close>
      by (auto simp: policy_for_def policy_validate_def first_err_None domain_validate_None dest!: map_of_SomeD)
    thus ?thesis by (auto simp: policy_specs_ok_def domain_ok_def)
  qed
  show ?thesis
  proof (cases "path = ''''")
    case True
    with l show ?thesis by (simp add: policy_load_def policy_specs_ok_def policy_for_def)
  next
    case False
    with l have "policy_validate u sv pol = None"
      by (auto simp: policy_load_def split: sum.splits option.splits if_splits)
    with ok show ?thesis by blast
  qed
qed

lemma domain_base_total:
  assumes "planner_ok c" "policy_specs_ok pol"
  shows "fst (domain_base env c pol g i memo) \<noteq> None"
proof -
  have sp: "\<exists>y. planner_from_spec env sp c = Some y" if "policy_for pol i = Some dp" "dy_planner dp = Some sp" for dp sp
    using planner_from_spec_total[OF assms(1), of sp env] assms(2) that by (auto simp: policy_specs_ok_def)
  show ?thesis
  proof (cases "policy_for pol i")
    case (Some dp)
    with sp[OF Some] show ?thesis
      by (cases "dy_planner dp"; cases "memo i") (auto simp: domain_base_def Let_def split: option.splits)
  qed (simp add: domain_base_def Let_def split: option.split)
qed

text \<open>The memo only remembers what would be built again.\<close>

definition memo_ok :: "getenv \<Rightarrow> config \<Rightarrow> policy \<Rightarrow> planner_tree \<Rightarrow> base_memo \<Rightarrow> bool" where
  "memo_ok env c pol g memo \<longleftrightarrow> (\<forall>i p. memo i = Some p \<longrightarrow> fst (domain_base env c pol g i Map.empty) = Some p)"

lemma domain_base_memo:
  assumes "memo_ok env c pol g memo"
  shows "fst (domain_base env c pol g i memo) = fst (domain_base env c pol g i Map.empty) \<and>
    memo_ok env c pol g (snd (domain_base env c pol g i memo))"
proof (cases "memo i")
  case (Some p)
  with assms show ?thesis by (simp add: domain_base_def memo_ok_def)
next
  case None
  hence e: "fst (domain_base env c pol g i memo) = fst (domain_base env c pol g i Map.empty)"
    by (simp add: domain_base_def Let_def split: option.split)
  have "snd (domain_base env c pol g i memo) = memo \<or>
      (\<exists>p. fst (domain_base env c pol g i memo) = Some p \<and> snd (domain_base env c pol g i memo) = memo(i \<mapsto> p))"
    using None by (simp add: domain_base_def Let_def split: option.split)
  with e assms show ?thesis by (auto simp: memo_ok_def split: if_splits)
qed

text \<open>A vendor chain of known vendors is refused for a missing FMP key only.\<close>

lemma known_vendors_set: "set known_vendors = {''fmp'', ''stooq'', ''alphavantage'', ''tiingo''}"
  by (auto simp: known_vendors_def vendor_registry_def)

lemma new_vendor_known:
  assumes "name \<in> set known_vendors" "name = ''fmp'' \<longrightarrow> vg_api_key cfg \<noteq> ''''"
  shows "\<exists>v. new_vendor u name cfg = Inr v"
  using assms unfolding known_vendors_set
  by (auto simp: new_vendor_def vendor_registry_def new_fmp_def)

lemma vendors_from_total:
  assumes "set (filter (\<lambda>t. t \<noteq> '''') (map (uc_trim_space u) parts)) \<subseteq> set known_vendors"
    "''fmp'' \<in> set (filter (\<lambda>t. t \<noteq> '''') (map (uc_trim_space u) parts)) \<longrightarrow> vg_api_key cfg \<noteq> ''''"
  shows "\<exists>ws. vendors_from u cfg parts vs = Inr (vs @ ws) \<and>
    length ws = length (filter (\<lambda>t. t \<noteq> '''') (map (uc_trim_space u) parts))"
  using assms
proof (induction parts arbitrary: vs)
  case (Cons p parts)
  show ?case
  proof (cases "uc_trim_space u p = ''''")
    case True
    with Cons show ?thesis by simp
  next
    case False
    with Cons.prems have "uc_trim_space u p \<in> set known_vendors" "uc_trim_space u p = ''fmp'' \<longrightarrow> vg_api_key cfg \<noteq> ''''"
      by auto
    from new_vendor_known[OF this] obtain v where v: "new_vendor u (uc_trim_space u p) cfg = Inr v" by blast
    have "set (filter (\<lambda>t. t \<noteq> '''') (map (uc_trim_space u) parts)) \<subseteq> set known_vendors"
      "''fmp'' \<in> set (filter (\<lambda>t. t \<noteq> '''') (map (uc_trim_space u) parts)) \<longrightarrow> vg_api_key cfg \<noteq> ''''"
      using Cons.prems by auto
    from Cons.IH[OF this, of "vs @ [v]"] False v show ?thesis by auto
  qed
qed simp

lemma new_provider_error:
  assumes "market_data_ok u c" "new_provider u env fixtures c = Inl err"
  shows "(cg_market_data_provider c = ''offline'' \<and> fixtures = Some err) \<or>
    (''fmp'' \<in> set (market_data_vendors u c) \<and> env ''DDE_MARKETDATA_API_KEY'' = '''')"
proof (rule ccontr)
  assume n: "\<not> ?thesis"
  hence http: "cg_market_data_provider c = ''http''"
    using assms by (auto simp: market_data_ok_def new_provider_def split: option.splits)
  let ?vc = "\<lparr>vg_api_key = env ''DDE_MARKETDATA_API_KEY'', vg_base_url = cg_market_data_base_url c\<rparr>"
  have m: "market_data_vendors u c \<noteq> []" "set (market_data_vendors u c) \<subseteq> set known_vendors"
    using assms(1) http by (simp_all add: market_data_ok_def)
  have "''fmp'' \<in> set (market_data_vendors u c) \<longrightarrow> vg_api_key ?vc \<noteq> ''''" using n by auto
  with m vendors_from_total[of u "split_on (CHR '','') (cg_market_data_vendor c)" ?vc "[]"]
  obtain ws where ws: "vendors_from u ?vc (split_on (CHR '','') (cg_market_data_vendor c)) [] = Inr ws"
    "length ws = length (market_data_vendors u c)"
    by (auto simp: market_data_vendors_def split_and_trim_def)
  with m(1) have "ws \<noteq> []" by auto
  with ws(1) assms(2) http show False
    by (auto simp: new_provider_def new_chain_from_spec_def split: if_splits)
qed

section \<open>Where a visitor's key may go\<close>

text \<open>A planner whose answer depends on the key of the request, not on the request alone.\<close>

fun uses_request_key :: "planner_tree \<Rightarrow> bool" where
  "uses_request_key (ByokTree _) = True"
| "uses_request_key (VerifyTree a b) = (uses_request_key a \<or> uses_request_key b)"
| "uses_request_key (RouteTree a b _ _) = (uses_request_key a \<or> uses_request_key b)"
| "uses_request_key (EnsembleTree ts) = list_ex uses_request_key ts"
| "uses_request_key _ = False"

lemma build_provider_key: "uses_request_key (build_provider env name c) \<longleftrightarrow> name = ''byok''"
  by (simp add: build_provider_def Let_def)

lemma new_planner_key:
  assumes "new_planner env c = Some p" "uses_request_key p"
  shows "cg_planner c = ''byok'' \<or> (cg_planner c = ''multi'' \<and> ''byok'' \<in> set (cg_multi_providers c))"
proof (cases "cg_planner c = ''multi''")
  case True
  hence "new_multi_planner env c = Some p" using assms(1) by (simp add: new_planner_def)
  hence "''byok'' \<in> set (cg_multi_providers c)"
    using assms(2)
    by (cases "cg_multi_providers c"; cases "tl (cg_multi_providers c)")
       (auto simp: new_multi_planner_def Let_def list_ex_iff build_provider_key split: if_splits)
  with True show ?thesis by blast
next
  case False
  with assms build_provider_key show ?thesis by (auto simp: new_planner_def)
qed

lemma planner_from_spec_key:
  assumes "spec_ok sp" "planner_from_spec env sp c = Some p" "uses_request_key p"
  shows "cg_planner c = ''byok'' \<or> (cg_planner c = ''multi'' \<and> ''byok'' \<in> set (cg_multi_providers c))"
proof -
  have single: "''byok'' \<notin> set singleBackends" by (simp add: singleBackends_def)
  show ?thesis
  proof (cases "pn_planner sp = ''''")
    case True
    with assms(1) have "pn_multi_mode sp = ''''" "pn_multi_providers sp = []" by (simp_all add: spec_ok_def)
    with True assms(2) have "\<exists>c'. new_planner env c' = Some p \<and> cg_planner c' = cg_planner c \<and>
        cg_multi_providers c' = cg_multi_providers c"
      by (auto simp: planner_from_spec_def Let_def split: if_splits)
    with new_planner_key assms(3) show ?thesis by metis
  next
    case False
    then obtain c' where c': "new_planner env c' = Some p" "cg_planner c' = pn_planner sp"
      "pn_multi_providers sp \<noteq> [] \<longrightarrow> cg_multi_providers c' = pn_multi_providers sp"
      using assms(2) by (auto simp: planner_from_spec_def Let_def split: if_splits)
    from new_planner_key[OF c'(1) assms(3)] c'(2,3) assms(1) single show ?thesis
      by (auto simp: spec_ok_def singleBackends_def split: if_splits)
  qed
qed

lemma domain_base_key:
  assumes "policy_specs_ok pol" "new_planner env c = Some g"
    "fst (domain_base env c pol g i Map.empty) = Some p" "uses_request_key p"
  shows "cg_planner c = ''byok'' \<or> (cg_planner c = ''multi'' \<and> ''byok'' \<in> set (cg_multi_providers c))"
proof (cases "\<exists>dp sp. policy_for pol i = Some dp \<and> dy_planner dp = Some sp")
  case True
  then obtain dp sp where d: "policy_for pol i = Some dp" "dy_planner dp = Some sp" by blast
  with assms(1) have "spec_ok sp" by (simp add: policy_specs_ok_def)
  moreover have "planner_from_spec env sp c = Some p"
    using assms(3) d by (auto simp: domain_base_def Let_def split: option.splits)
  ultimately show ?thesis using planner_from_spec_key assms(4) by blast
next
  case False
  hence "p = g" using assms(3) by (auto simp: domain_base_def Let_def split: option.splits)
  with new_planner_key assms(2,4) show ?thesis by blast
qed

section \<open>Properties\<close>

lemma assemble_engine_total:
  assumes "planner_ok c" "policy_specs_ok pol"
  shows "assemble_engine u w c pol \<noteq> None"
proof -
  obtain base where b: "new_planner (bw_env w) c = Some base" using new_planner_total[OF assms(1)] by blast
  have d: "fst (domain_base (bw_env w) c pol base i Map.empty) \<noteq> None" for i
    by (rule domain_base_total[OF assms])
  from d[of "''investing''"] obtain p where "fst (domain_base (bw_env w) c pol base ''investing'' Map.empty) = Some p"
    by blast
  with b show ?thesis by (auto simp: assemble_engine_def Let_def d list_ex_iff split: sum.splits option.splits)
qed

text \<open>
  C40: settings that load make a process that starts or says why. Building the service never
  panics, whatever the policy file and the files it reads hold; an error closes the store that was
  opened, and a service that was built closes it once, last, after the replans and then the webhook
  deliveries were drained; the queue and the webhook it starts have a positive deadline and no
  negative number of retries; and the market data is refused only because the fixtures are broken
  or the chain names FMP without a key.
\<close>

theorem loaded_config_boots:
  assumes "config_load u pr fs env = Inr c"
  shows "(\<exists>r steps. build_service u w c = (Some r, steps) \<and>
      (case r of
         Inl err \<Rightarrow> count_list steps OpenRepo = count_list steps CloseRepo
       | Inr sp \<Rightarrow>
           count_list (steps @ cleanup sp) OpenRepo = 1 \<and> count_list (steps @ cleanup sp) CloseRepo = 1 \<and>
           last (cleanup sp) = CloseRepo \<and> hd (cleanup sp) = DrainReplans \<and>
           sp_async sp = list_ex (\<lambda>x. \<exists>n b t k. x = StartQueue n b t k \<and> 0 < t \<and> 0 \<le> k) steps \<and>
           (case sp_webhook sp of None \<Rightarrow> True | Some h \<Rightarrow> 0 < wc_timeout h \<and> 0 \<le> wc_retries h))) \<and>
    (case new_provider u (bw_env w) (bw_fixtures w) c of
       Inr _ \<Rightarrow> True
     | Inl err \<Rightarrow> bw_fixtures w = Some err \<or>
         (''fmp'' \<in> set (market_data_vendors u c) \<and> bw_env w ''DDE_MARKETDATA_API_KEY'' = ''''))"
proof -
  have ok: "config_ok u c" by (rule config_load_ok[OF assms])
  hence p: "planner_ok c" and m: "market_data_ok u c" by (simp_all add: config_ok_def)
  have engine: "\<exists>x. assemble_engine u w c pol = Some x"
    if "policy_load u (bw_show_v w) (bw_read w) (bw_policy_json w) (bw_policy_yaml w) (cg_policy_file c) = Inr pol" for pol
    using assemble_engine_total[OF p policy_load_specs[OF that]] by blast
  have hook: "case webhook_of c of None \<Rightarrow> True | Some h \<Rightarrow> 0 < wc_timeout h \<and> 0 \<le> wc_retries h"
    using ok by (auto simp: webhook_of_def config_ok_def)
  have queue: "0 < cg_replan_timeout c" "0 \<le> cg_replan_max_retries c" using ok by (simp_all add: config_ok_def)
  obtain r steps where b: "build_service u w c = (Some r, steps)"
    using engine by (cases "build_service u w c") (auto simp: build_service_def split: option.splits sum.splits)
  have "case r of
         Inl err \<Rightarrow> count_list steps OpenRepo = count_list steps CloseRepo
       | Inr sp \<Rightarrow>
           count_list (steps @ cleanup sp) OpenRepo = 1 \<and> count_list (steps @ cleanup sp) CloseRepo = 1 \<and>
           last (cleanup sp) = CloseRepo \<and> hd (cleanup sp) = DrainReplans \<and>
           sp_async sp = list_ex (\<lambda>x. \<exists>n b t k. x = StartQueue n b t k \<and> 0 < t \<and> 0 \<le> k) steps \<and>
           (case sp_webhook sp of None \<Rightarrow> True | Some h \<Rightarrow> 0 < wc_timeout h \<and> 0 \<le> wc_retries h)"
    using b hook queue
    by (auto simp: build_service_def cleanup_def split: option.splits sum.splits if_splits)
  with b show ?thesis
    using new_provider_error[OF m] by (auto split: sum.splits)
qed

definition sample_world :: boot_world where
  "sample_world =
     \<lparr>bw_env = (\<lambda>_. ''''), bw_fixtures = None,
      bw_sources = \<lparr>so_read = (\<lambda>_. Inl ENotFound), so_json = (\<lambda>_. Inr []), so_yaml = (\<lambda>_. Inr [])\<rparr>,
      bw_open = (\<lambda>_ _. None), bw_registry = (\<lambda>_. None), bw_show_v = (\<lambda>_. ''''), bw_read = (\<lambda>_. Inl ENotFound),
      bw_policy_json = (\<lambda>_. Inr []), bw_policy_yaml = (\<lambda>_. Inr []), bw_asks = [''career''], bw_router = (\<lambda>_. None)\<rparr>"

theorem loaded_config_boots_witness:
  "\<exists>sp steps. build_service ascii_unicode sample_world default_config = (Some (Inr sp), steps) \<and>
     count_list (steps @ cleanup sp) CloseRepo = 1"
proof -
  let ?fs = "\<lparr>cf_read = (\<lambda>_. Inl ENotFound), cf_json = (\<lambda>_ c. Inr c), cf_yaml = (\<lambda>_ c. Inr c)\<rparr>"
  let ?pr = "\<lparr>pr_duration = (\<lambda>_. None), pr_float = (\<lambda>_. None)\<rparr>"
  have "\<exists>sp steps. build_service ascii_unicode sample_world default_config = (Some (Inr sp), steps)"
    by (simp add: build_service_def sample_world_def policy_load_def assemble_engine_def new_provider_def
        default_config_def new_planner_def Let_def engine_caches_def domain_base_def policy_for_def)
  then obtain sp steps where b: "build_service ascii_unicode sample_world default_config = (Some (Inr sp), steps)" by blast
  have "count_list (steps @ cleanup sp) CloseRepo = 1"
    using loaded_config_boots[OF default_loads[of ?pr ?fs], of sample_world, THEN conjunct1] b by auto
  with b show ?thesis by blast
qed

text \<open>
  C16: a visitor's key never reaches what outlives its request. If the planner of any domain, under
  any accepted policy, answers with the key of the request, then plans are not cached, in memory or
  for finance, and replans are not put off to a worker that no longer has the key, as long as no
  multi composition names the bring-your-own-key planner as a member.
\<close>

theorem request_keys_are_not_shared:
  assumes "policy_load u sv rd pj py path = Inr pol" "new_planner env c = Some g"
    "fst (domain_base env c pol g i Map.empty) = Some p" "uses_request_key p"
    "\<not> (cg_planner c = ''multi'' \<and> ''byok'' \<in> set (cg_multi_providers c))"
  shows "engine_caches c = (None, None) \<and> \<not> async_replan c"
  using domain_base_key[OF policy_load_specs[OF assms(1)] assms(2-4)] assms(5)
  by (auto simp: engine_caches_def async_replan_def)

theorem request_keys_are_not_shared_witness:
  "engine_caches (default_config\<lparr>cg_planner := ''byok'', cg_replan_async := True\<rparr>) = (None, None)"
proof -
  let ?c = "default_config\<lparr>cg_planner := ''byok'', cg_replan_async := True\<rparr>"
  obtain g where g: "new_planner (\<lambda>_. '''') ?c = Some g" "uses_request_key g"
    by (simp add: new_planner_def build_provider_key)
  have p: "policy_load ascii_unicode (\<lambda>_. '''') (\<lambda>_. Inl ENotFound) (\<lambda>_. Inr []) (\<lambda>_. Inr []) '''' = Inr []"
    by (simp add: policy_load_def)
  have d: "fst (domain_base (\<lambda>_. '''') ?c [] g ''x'' Map.empty) = Some g"
    by (simp add: domain_base_def policy_for_def)
  have "\<not> (cg_planner ?c = ''multi'' \<and> ''byok'' \<in> set (cg_multi_providers ?c))" by simp
  from request_keys_are_not_shared[OF p g(1) d g(2) this] show ?thesis by simp
qed

text \<open>
  With such a member the guards do not see it: the settings validate, and the plan one visitor's key
  paid for is cached under a key that does not name the visitor.
\<close>

lemma multi_byok_is_cached:
  "let c = default_config\<lparr>cg_planner := ''multi'', cg_multi_providers := [''byok'', ''mock''],
             cg_multi_mode := ''ensemble'', cg_replan_async := True\<rparr> in
   config_ok ascii_unicode c \<and> (\<exists>g. new_planner env c = Some g \<and> uses_request_key g) \<and>
   fst (engine_caches c) = Some 1024 \<and> async_replan c"
  by (simp add: Let_def config_ok_def default_config_def planner_ok_def market_data_ok_def second_def hour_def
      new_planner_def new_multi_planner_def build_provider_key engine_caches_def async_replan_def)

end
