(* ===== verification/Llm_Clients.thy ===== *)
theory Llm_Clients
  imports Llm_Byok Llm_Multi Llm_Cache
begin

text \<open>
  The planners that call a model: the prompts, schemas and payloads of \<open>internal/llm/plan.go\<close> and
  the two clients \<open>anthropic.go\<close> and \<open>openai.go\<close>. An SDK is a function from the API key, and for
  OpenAI the base URL, to a function that answers a chat request; the JSON codec is an argument. What
  a model answers is arbitrary.
\<close>

section \<open>Prompts\<close>

definition systemPrompt :: string where
  "systemPrompt = join_strs [CHR 0x0A]
     [''You are the reasoning core of a decision-planning engine.'',
      '''',
      ''Given a goal with its context, assets and constraints, produce a small set of'',
      ''ranked action paths (moves) that move toward the goal. This is decision support,'',
      ''not a promise of the single best answer.'',
      '''',
      ''For each move provide: a clear title and description; an honest confidence in'',
      ''[0,1]; expected_impact, effort and risk each as exactly one of '' @ [CHR 0x22] @ ''low'' @ [CHR 0x22] @ '', '' @ [CHR 0x22] @ ''medium'' @ [CHR 0x22] @ '' or'',
      [CHR 0x22] @ ''high'' @ [CHR 0x22] @ ''; a concise rationale; a first experiment with a duration in days, concrete'',
      ''success signals and kill/pivot criteria; and one or more fallback moves.'',
      '''',
      ''Rank moves from strongest to weakest (the first is the top recommendation).'',
      ''Prefer moves that exploit existing assets and de-risk binding constraints. Be'',
      ''calibrated: do not inflate confidence.'',
      '''',
      ''Give each move a short, stable '' @ [CHR 0x22] @ ''key'' @ [CHR 0x22] @ '': a lowercase slug naming the underlying'',
      ''action (e.g. '' @ [CHR 0x22] @ ''expand-paid-search'' @ [CHR 0x22] @ ''). When the input includes a '' @ [CHR 0x22] @ ''current_plan'' @ [CHR 0x22] @ '','',
      ''reuse a move'' @ [CHR 0x27] @ ''s existing key whenever your move is the same underlying action,'',
      ''even if you reword its title; mint a new key only for a genuinely new move. The'',
      ''key is identity; the title is display.'',
      '''',
      ''Express how moves relate in execution. Use '' @ [CHR 0x22] @ ''depends_on'' @ [CHR 0x22] @ '' to list the keys of moves'',
      ''that must finish before a move can start; only reference keys you also emit, and'',
      ''never create a cycle '' @ [CHR 0xE2, CHR 0x80, CHR 0x94] @ '' the moves must form a directed acyclic graph. Leave'',
      [CHR 0x22] @ ''depends_on'' @ [CHR 0x22] @ '' empty for moves that can start immediately. Dependencies are about'',
      ''ordering, not priority: a strongly ranked move may still depend on a weaker one.'',
      ''Optionally label moves meant to run together with the same '' @ [CHR 0x22] @ ''parallel_group'' @ [CHR 0x22] @ '' (a'',
      ''short tag like '' @ [CHR 0x22] @ ''discover'' @ [CHR 0x22] @ '' or '' @ [CHR 0x22] @ ''commit'' @ [CHR 0x22] @ ''); it is a grouping hint only.'',
      '''',
      ''Return your answer by calling the submit_plan tool '' @ [CHR 0xE2, CHR 0x80, CHR 0x94] @ '' do not write prose outside'',
      ''the tool call.'']"

definition verifySystemPrompt :: string where
  "verifySystemPrompt = join_strs [CHR 0x0A]
     [''You are an independent reviewer of a proposed decision plan.'',
      '''',
      ''You did NOT write this plan. Critically assess each ranked move for: factual'',
      ''support in the given context (flag claims that assume assets or facts not present),'',
      ''realistic confidence calibration, and whether the move actually advances the goal.'',
      '''',
      ''For each move return a verdict: keep (true/false), an optional adjusted_confidence'',
      ''in [0,1] when the proposer'' @ [CHR 0x27] @ ''s confidence is mis-calibrated, and any concrete issues.'',
      ''Be willing to drop weak or unsupported moves. Return your review by calling the'',
      ''review_plan tool '' @ [CHR 0xE2, CHR 0x80, CHR 0x94] @ '' do not write prose outside the tool call.'']"

definition planToolName :: string where "planToolName = ''submit_plan''"
definition verifyToolName :: string where "verifyToolName = ''review_plan''"

section \<open>Schemas\<close>

definition typed :: "string \<Rightarrow> json" where
  "typed t = JObj [(''type'', JStr t)]"

definition level_enum :: json where
  "level_enum = JObj [(''type'', JStr ''string''), (''enum'', JArr [JStr ''low'', JStr ''medium'', JStr ''high''])]"

definition str_array :: json where
  "str_array = JObj [(''type'', JStr ''array''), (''items'', typed ''string'')]"

definition plan_schema :: "(string \<times> json) list \<times> string list" where
  "plan_schema =
     ([(''summary'', typed ''string''),
       (''reasoning_summary'', typed ''string''),
       (''ranked_moves'', JObj
         [(''type'', JStr ''array''),
          (''items'', JObj
            [(''type'', JStr ''object''),
             (''properties'', JObj
               [(''key'', typed ''string''),
                (''title'', typed ''string''),
                (''description'', typed ''string''),
                (''confidence'', typed ''number''),
                (''expected_impact'', level_enum),
                (''effort'', level_enum),
                (''risk'', level_enum),
                (''rationale'', typed ''string''),
                (''experiment'', JObj
                  [(''type'', JStr ''object''),
                   (''properties'', JObj
                     [(''title'', typed ''string''),
                      (''duration_days'', typed ''integer''),
                      (''success_signals'', str_array),
                      (''kill_criteria'', str_array)]),
                   (''required'', JArr (map JStr [''title'', ''duration_days'', ''success_signals'', ''kill_criteria'']))]),
                (''fallback_moves'', str_array),
                (''depends_on'', str_array),
                (''parallel_group'', typed ''string'')]),
             (''required'', JArr (map JStr [''title'', ''description'', ''confidence'', ''expected_impact'', ''effort'',
                                           ''risk'', ''rationale'', ''experiment'']))])])],
      [''summary'', ''reasoning_summary'', ''ranked_moves''])"

definition verify_schema :: "(string \<times> json) list \<times> string list" where
  "verify_schema =
     ([(''overall_note'', typed ''string''),
       (''moves'', JObj
         [(''type'', JStr ''array''),
          (''items'', JObj
            [(''type'', JStr ''object''),
             (''properties'', JObj
               [(''title'', typed ''string''),
                (''keep'', typed ''boolean''),
                (''adjusted_confidence'', typed ''number''),
                (''issues'', str_array)]),
             (''required'', JArr (map JStr [''title'', ''keep'']))])])],
      [''overall_note'', ''moves''])"

section \<open>Payloads\<close>

text \<open>What is marshalled; a field that is empty and tagged \<open>omitempty\<close> is left out by the codec.\<close>

record review_move =
  rm_title :: string
  rm_description :: string
  rm_confidence :: f64
  rm_expected_impact :: string
  rm_effort :: string
  rm_risk :: string
  rm_rationale :: string

record review_payload =
  rp_objective :: string
  rp_metric :: string
  rp_target :: string
  rp_context :: goal_context
  rp_proposed_plan :: "review_move list"

record llm_codec =
  cd_request :: "user_payload \<Rightarrow> go_error + string"
  cd_review :: "review_payload \<Rightarrow> go_error + string"
  cd_plan :: "string \<Rightarrow> go_error + plan_dto"
  cd_verdict :: "string \<Rightarrow> go_error + verdict"
  cd_snapshot :: "snapshot_input \<Rightarrow> string"
  cd_hexsha :: "string \<Rightarrow> string"
  cd_unicode :: unicode

definition review_payload_of :: "goal \<Rightarrow> plan_result \<Rightarrow> review_payload" where
  "review_payload_of g proposed =
     \<lparr>rp_objective = g_objective g, rp_metric = g_metric g, rp_target = g_target g, rp_context = g_context g,
      rp_proposed_plan =
        map (\<lambda>m. \<lparr>rm_title = m_title m, rm_description = m_description m, rm_confidence = m_confidence m,
                  rm_expected_impact = m_expected_impact m, rm_effort = m_effort m, rm_risk = m_risk m,
                  rm_rationale = m_rationale m\<rparr>) (rs_ranked_moves proposed)\<rparr>"

definition verify_user_payload :: "llm_codec \<Rightarrow> goal \<Rightarrow> plan_result \<Rightarrow> go_error + string" where
  "verify_user_payload cd g proposed =
     (case cd_review cd (review_payload_of g proposed) of
        Inl err \<Rightarrow> Inl (EWrap ''llm: marshal verify request'' err)
      | Inr b \<Rightarrow> Inr b)"

section \<open>Calling a model\<close>

record chat_request =
  ct_model :: string
  ct_max_tokens :: int
  ct_system :: string
  ct_user :: string
  ct_tool_name :: string
  ct_tool_description :: string
  ct_properties :: "(string \<times> json) list"
  ct_required :: "string list"

datatype content_block = ToolUse string string | OtherBlock     \<comment> \<open>name and input\<close>

text \<open>The elapsed milliseconds are those between the two clock reads around the call.\<close>

record anthropic_reply =
  ar_input_tokens :: int
  ar_output_tokens :: int
  ar_content :: "content_block list"
  ar_elapsed_ms :: int

record openai_reply =
  or_prompt_tokens :: int
  or_completion_tokens :: int
  or_total_tokens :: int
  or_choices :: "(string \<times> string) list list"        \<comment> \<open>the tool calls of each choice: name, arguments\<close>
  or_elapsed_ms :: int

type_synonym anthropic_api = "chat_request \<Rightarrow> go_error + anthropic_reply"
type_synonym openai_api = "chat_request \<Rightarrow> go_error + openai_reply"

record anthropic_planner =
  an_client :: anthropic_api
  an_model :: string
  an_max_tokens :: int

record openai_planner =
  oa_client :: openai_api
  oa_provider :: string
  oa_model :: string
  oa_max_tokens :: int

text \<open>A client built without a key takes the one of the process environment.\<close>

definition new_anthropic_planner ::
  "(string option \<Rightarrow> anthropic_api) \<Rightarrow> string \<Rightarrow> llm_vendor_config \<Rightarrow> anthropic_planner" where
  "new_anthropic_planner sdk default_model cfg =
     \<lparr>an_client = sdk (if vd_api_key cfg \<noteq> '''' then Some (vd_api_key cfg) else None),
      an_model = (if vd_model cfg = '''' then default_model else vd_model cfg),
      an_max_tokens = (if vd_max_tokens cfg \<le> 0 then 4096 else vd_max_tokens cfg)\<rparr>"

definition defaultOpenAIModel :: string where "defaultOpenAIModel = ''gpt-4o''"
definition defaultDeepSeekModel :: string where "defaultDeepSeekModel = ''deepseek-chat''"
definition deepSeekBaseURL :: string where "deepSeekBaseURL = ''https://api.deepseek.com''"

definition new_openai_planner ::
  "(string option \<Rightarrow> string option \<Rightarrow> openai_api) \<Rightarrow> llm_vendor_config \<Rightarrow> openai_planner" where
  "new_openai_planner sdk cfg =
     (let provider = (if vd_provider cfg = '''' then ''openai'' else vd_provider cfg);
          model = (if vd_model cfg = ''''
                   then (if provider = ''deepseek'' then defaultDeepSeekModel else defaultOpenAIModel)
                   else vd_model cfg);
          base = (if vd_base_url cfg = '''' \<and> provider = ''deepseek'' then deepSeekBaseURL else vd_base_url cfg)
      in \<lparr>oa_client = sdk (if vd_api_key cfg \<noteq> '''' then Some (vd_api_key cfg) else None)
                          (if base \<noteq> '''' then Some base else None),
          oa_provider = provider, oa_model = model,
          oa_max_tokens = (if vd_max_tokens cfg \<le> 0 then 4096 else vd_max_tokens cfg)\<rparr>)"

definition anthropicPromptVersion :: string where "anthropicPromptVersion = ''anthropic-v1''"

fun tool_input :: "string \<Rightarrow> content_block list \<Rightarrow> string option" where
  "tool_input name [] = None"
| "tool_input name (b # bs) =
     (case b of
        ToolUse n inp \<Rightarrow> if n = name then Some inp else tool_input name bs
      | OtherBlock \<Rightarrow> tool_input name bs)"

text \<open>The sum of the tokens is taken in 64 bits.\<close>

definition anthropic_call ::
  "anthropic_planner \<Rightarrow> string \<Rightarrow> string \<Rightarrow> string \<Rightarrow> (string \<times> json) list \<times> string list \<Rightarrow>
   go_error + string \<times> model_invocation" where
  "anthropic_call p system user tool schema =
     (case an_client p
        \<lparr>ct_model = an_model p, ct_max_tokens = an_max_tokens p, ct_system = system, ct_user = user,
         ct_tool_name = tool, ct_tool_description = ''Return the structured result by calling this tool.'',
         ct_properties = fst schema, ct_required = snd schema\<rparr> of
        Inl err \<Rightarrow> Inl (EWrap ''llm: anthropic request'' err)
      | Inr msg \<Rightarrow>
          let meta = \<lparr>mi_model = an_model p, mi_prompt_version = anthropicPromptVersion,
                     mi_prompt_tokens = ar_input_tokens msg, mi_completion_tokens = ar_output_tokens msg,
                     mi_total_tokens = sint (word_of_int (ar_input_tokens msg + ar_output_tokens msg) :: 64 word),
                     mi_latency_ms = ar_elapsed_ms msg\<rparr>
          in (case tool_input tool (ar_content msg) of
                None \<Rightarrow> Inl (EText (''llm: model did not call '' @ tool))
              | Some raw \<Rightarrow> Inr (raw, meta)))"

definition openai_call ::
  "openai_planner \<Rightarrow> string \<Rightarrow> string \<Rightarrow> string \<Rightarrow> (string \<times> json) list \<times> string list \<Rightarrow>
   go_error + string \<times> model_invocation" where
  "openai_call p system user tool schema =
     (case oa_client p
        \<lparr>ct_model = oa_model p, ct_max_tokens = oa_max_tokens p, ct_system = system, ct_user = user,
         ct_tool_name = tool, ct_tool_description = ''Return the structured result by calling this function.'',
         ct_properties = fst schema, ct_required = snd schema\<rparr> of
        Inl err \<Rightarrow> Inl (EWrap (''llm: '' @ oa_provider p @ '' request'') err)
      | Inr resp \<Rightarrow>
          let meta = \<lparr>mi_model = oa_model p, mi_prompt_version = oa_provider p @ ''-v1'',
                     mi_prompt_tokens = or_prompt_tokens resp, mi_completion_tokens = or_completion_tokens resp,
                     mi_total_tokens = or_total_tokens resp, mi_latency_ms = or_elapsed_ms resp\<rparr>
          in (case or_choices resp of
                [] \<Rightarrow> Inl (EText ''llm: model returned no choices'')
              | calls # _ \<Rightarrow>
                  (case map_of calls tool of
                     None \<Rightarrow> Inl (EText (''llm: model did not call '' @ tool))
                   | Some raw \<Rightarrow> Inr (raw, meta))))"

definition anthropic_generate :: "llm_codec \<Rightarrow> anthropic_planner \<Rightarrow> planner" where
  "anthropic_generate cd p req =
     (let g = rq_goal req in
      if g_objective g = '''' then Inl (EText ''llm: goal objective is required'')
      else case plan_user_payload (cd_request cd) req of
        Inl err \<Rightarrow> Inl err
      | Inr user \<Rightarrow>
          (case anthropic_call p (effective_system_prompt systemPrompt (rq_system_prompt_override req)) user
                  planToolName plan_schema of
             Inl err \<Rightarrow> Inl err
           | Inr (raw, meta) \<Rightarrow>
               (case cd_plan cd raw of
                  Inl err \<Rightarrow> Inl (EWrap ''llm: decode tool input'' err)
                | Inr dto \<Rightarrow>
                    if pd_ranked_moves dto = [] then Inl (EText ''llm: model returned no ranked moves'')
                    else Inr \<lparr>rs_summary = pd_summary dto, rs_ranked_moves = map_moves (cd_unicode cd) dto,
                              rs_provenance = zero_provenance
                                \<lparr>pr_reasoning_summary := pd_reasoning_summary dto,
                                 pr_input_snapshot_id :=
                                   input_snapshot_id (cd_snapshot cd) (cd_hexsha cd) g (rq_signal_note req),
                                 pr_planner := ''anthropic'', pr_prompt_version := anthropicPromptVersion,
                                 pr_model := an_model p, pr_strategy := ''single''\<rparr>,
                              rs_invocation = meta\<rparr>)))"

definition openai_generate :: "llm_codec \<Rightarrow> openai_planner \<Rightarrow> planner" where
  "openai_generate cd p req =
     (let g = rq_goal req in
      if g_objective g = '''' then Inl (EText ''llm: goal objective is required'')
      else case plan_user_payload (cd_request cd) req of
        Inl err \<Rightarrow> Inl err
      | Inr user \<Rightarrow>
          (case openai_call p (effective_system_prompt systemPrompt (rq_system_prompt_override req)) user
                  planToolName plan_schema of
             Inl err \<Rightarrow> Inl err
           | Inr (raw, meta) \<Rightarrow>
               (case cd_plan cd raw of
                  Inl err \<Rightarrow> Inl (EWrap ''llm: decode tool arguments'' err)
                | Inr dto \<Rightarrow>
                    if pd_ranked_moves dto = [] then Inl (EText ''llm: model returned no ranked moves'')
                    else Inr \<lparr>rs_summary = pd_summary dto, rs_ranked_moves = map_moves (cd_unicode cd) dto,
                              rs_provenance = zero_provenance
                                \<lparr>pr_reasoning_summary := pd_reasoning_summary dto,
                                 pr_input_snapshot_id :=
                                   input_snapshot_id (cd_snapshot cd) (cd_hexsha cd) g (rq_signal_note req),
                                 pr_planner := oa_provider p, pr_prompt_version := oa_provider p @ ''-v1'',
                                 pr_model := oa_model p, pr_strategy := ''single''\<rparr>,
                              rs_invocation = meta\<rparr>)))"

definition anthropic_verify ::
  "llm_codec \<Rightarrow> anthropic_planner \<Rightarrow> goal \<Rightarrow> plan_result \<Rightarrow> go_error + verdict \<times> model_invocation" where
  "anthropic_verify cd p g proposed =
     (case verify_user_payload cd g proposed of
        Inl err \<Rightarrow> Inl err
      | Inr user \<Rightarrow>
          (case anthropic_call p verifySystemPrompt user verifyToolName verify_schema of
             Inl err \<Rightarrow> Inl err
           | Inr (raw, meta) \<Rightarrow>
               (case cd_verdict cd raw of
                  Inl err \<Rightarrow> Inl (EWrap ''llm: decode verdict'' err)
                | Inr v \<Rightarrow> Inr (v, meta))))"

definition openai_verify ::
  "llm_codec \<Rightarrow> openai_planner \<Rightarrow> goal \<Rightarrow> plan_result \<Rightarrow> go_error + verdict \<times> model_invocation" where
  "openai_verify cd p g proposed =
     (case verify_user_payload cd g proposed of
        Inl err \<Rightarrow> Inl err
      | Inr user \<Rightarrow>
          (case openai_call p verifySystemPrompt user verifyToolName verify_schema of
             Inl err \<Rightarrow> Inl err
           | Inr (raw, meta) \<Rightarrow>
               (case cd_verdict cd raw of
                  Inl err \<Rightarrow> Inl (EWrap ''llm: decode verdict'' err)
                | Inr v \<Rightarrow> Inr (v, meta))))"

text \<open>The two constructors as the bring-your-own-key planner calls them, and the planners as verifiers.\<close>

record llm_sdk =
  sdk_anthropic :: "string option \<Rightarrow> anthropic_api"
  sdk_default_model :: string
  sdk_openai :: "string option \<Rightarrow> string option \<Rightarrow> openai_api"

definition client_vendors :: "llm_codec \<Rightarrow> llm_sdk \<Rightarrow> planner vendors" where
  "client_vendors cd sdk =
     \<lparr>vn_anthropic = (\<lambda>cfg. anthropic_generate cd (new_anthropic_planner (sdk_anthropic sdk) (sdk_default_model sdk) cfg)),
      vn_openai = (\<lambda>cfg. openai_generate cd (new_openai_planner (sdk_openai sdk) cfg))\<rparr>"

definition anthropic_verifier :: "llm_codec \<Rightarrow> anthropic_planner \<Rightarrow> plan_verifier" where
  "anthropic_verifier cd p = \<lparr>vr_name = ''anthropic'', vr_verify = anthropic_verify cd p\<rparr>"

definition openai_verifier :: "llm_codec \<Rightarrow> openai_planner \<Rightarrow> plan_verifier" where
  "openai_verifier cd p = \<lparr>vr_name = oa_provider p, vr_verify = openai_verify cd p\<rparr>"


section \<open>What the two clients share\<close>

text \<open>
  Two services answer alike when one call gets an error from both, or replies with the same tool calls
  and the same token counts.
\<close>

definition tool_calls :: "content_block list \<Rightarrow> (string \<times> string) list" where
  "tool_calls bs = List.map_filter (\<lambda>b. case b of ToolUse n i \<Rightarrow> Some (n, i) | OtherBlock \<Rightarrow> None) bs"

definition alike_replies :: "go_error + anthropic_reply \<Rightarrow> go_error + openai_reply \<Rightarrow> bool" where
  "alike_replies x y \<longleftrightarrow>
     (case (x, y) of
        (Inl _, Inl _) \<Rightarrow> True
      | (Inr a, Inr b) \<Rightarrow>
          or_choices b = [tool_calls (ar_content a)] \<and> or_prompt_tokens b = ar_input_tokens a \<and>
          or_completion_tokens b = ar_output_tokens a \<and> or_elapsed_ms b = ar_elapsed_ms a \<and>
          or_total_tokens b = sint (word_of_int (ar_input_tokens a + ar_output_tokens a) :: 64 word)
      | _ \<Rightarrow> False)"

definition same_service :: "anthropic_planner \<Rightarrow> openai_planner \<Rightarrow> bool" where
  "same_service p q \<longleftrightarrow>
     oa_model q = an_model p \<and> oa_max_tokens q = an_max_tokens p \<and>
     (\<forall>ct. alike_replies
        (an_client p (ct\<lparr>ct_tool_description := ''Return the structured result by calling this tool.''\<rparr>))
        (oa_client q (ct\<lparr>ct_tool_description := ''Return the structured result by calling this function.''\<rparr>)))"

definition stamp :: "string \<Rightarrow> model_invocation \<Rightarrow> model_invocation" where
  "stamp v mi = mi\<lparr>mi_prompt_version := v\<rparr>"

lemma tool_input_calls: "tool_input name bs = map_of (tool_calls bs) name"
  by (induction bs) (auto simp: tool_calls_def map_filter_simps split: content_block.split)

lemma calls_alike:
  assumes "same_service p q"
  shows "(\<exists>e e'. anthropic_call p sys user tool schema = Inl e \<and> openai_call q sys user tool schema = Inl e') \<or>
    (\<exists>raw mi. anthropic_call p sys user tool schema = Inr (raw, mi) \<and> mi_prompt_version mi = anthropicPromptVersion \<and>
       mi_model mi = an_model p \<and>
       openai_call q sys user tool schema = Inr (raw, stamp (oa_provider q @ ''-v1'') mi))"
proof -
  let ?ct = "\<lparr>ct_model = an_model p, ct_max_tokens = an_max_tokens p, ct_system = sys, ct_user = user,
     ct_tool_name = tool, ct_tool_description = '''', ct_properties = fst schema, ct_required = snd schema\<rparr>"
  from assms have "alike_replies
        (an_client p (?ct\<lparr>ct_tool_description := ''Return the structured result by calling this tool.''\<rparr>))
        (oa_client q (?ct\<lparr>ct_tool_description := ''Return the structured result by calling this function.''\<rparr>))"
    unfolding same_service_def by blast
  moreover have "oa_model q = an_model p" "oa_max_tokens q = an_max_tokens p"
    using assms by (simp_all add: same_service_def)
  ultimately show ?thesis
    by (auto simp: anthropic_call_def openai_call_def alike_replies_def tool_input_calls stamp_def Let_def
        split: sum.splits option.splits)
qed

text \<open>The plan of one client under the other's name.\<close>

definition rebrand :: "string \<Rightarrow> plan_result \<Rightarrow> plan_result" where
  "rebrand provider r =
     r\<lparr>rs_provenance := (rs_provenance r)\<lparr>pr_planner := provider, pr_prompt_version := provider @ ''-v1''\<rparr>,
       rs_invocation := stamp (provider @ ''-v1'') (rs_invocation r)\<rparr>"

definition alike :: "('a \<Rightarrow> 'b) \<Rightarrow> go_error + 'a \<Rightarrow> go_error + 'b \<Rightarrow> bool" where
  "alike f x y = (case (x, y) of (Inl _, Inl _) \<Rightarrow> True | (Inr a, Inr b) \<Rightarrow> b = f a | _ \<Rightarrow> False)"

lemma generate_alike:
  assumes "same_service p q"
  shows "alike (rebrand (oa_provider q)) (anthropic_generate cd p req) (openai_generate cd q req)"
proof -
  have m: "oa_model q = an_model p" using assms by (simp add: same_service_def)
  have "alike (rebrand (oa_provider q)) (anthropic_generate cd p req) (openai_generate cd q req)"
    if "plan_user_payload (cd_request cd) req = Inr user" for user
    using calls_alike[OF assms, of "effective_system_prompt systemPrompt (rq_system_prompt_override req)" user
        planToolName plan_schema] that m
    by (auto simp: anthropic_generate_def openai_generate_def alike_def rebrand_def Let_def split: sum.splits)
  thus ?thesis
    by (cases "plan_user_payload (cd_request cd) req") (auto simp: anthropic_generate_def openai_generate_def alike_def Let_def)
qed

lemma verify_alike:
  assumes "same_service p q"
  shows "alike (\<lambda>(v, mi). (v, stamp (oa_provider q @ ''-v1'') mi)) (anthropic_verify cd p g r) (openai_verify cd q g r)"
proof -
  have "alike (\<lambda>(v, mi). (v, stamp (oa_provider q @ ''-v1'') mi)) (anthropic_verify cd p g r) (openai_verify cd q g r)"
    if "verify_user_payload cd g r = Inr user" for user
    using calls_alike[OF assms, of verifySystemPrompt user verifyToolName verify_schema] that
    by (auto simp: anthropic_verify_def openai_verify_def alike_def split: sum.splits)
  thus ?thesis
    by (cases "verify_user_payload cd g r") (auto simp: anthropic_verify_def openai_verify_def alike_def)
qed

section \<open>What a vendor planner returns\<close>

lemma vendor_plan_shape:
  assumes "anthropic_generate cd p req = Inr r \<or> openai_generate cd q req = Inr r"
  shows "g_objective (rq_goal req) \<noteq> '''' \<and> rs_ranked_moves r \<noteq> [] \<and>
    map m_rank (rs_ranked_moves r) = [1 .. int (length (rs_ranked_moves r))] \<and>
    list_all (\<lambda>m. level_valid (m_expected_impact m) \<and> level_valid (m_effort m) \<and> level_valid (m_risk m) \<and>
      (m_confidence m = NaN \<or> confidence_ok (m_confidence m))) (rs_ranked_moves r) \<and>
    pr_input_snapshot_id (rs_provenance r) =
      input_snapshot_id (cd_snapshot cd) (cd_hexsha cd) (rq_goal req) (rq_signal_note req) \<and>
    pr_strategy (rs_provenance r) = ''single'' \<and> mi_model (rs_invocation r) = pr_model (rs_provenance r)"
proof -
  obtain dto where d: "g_objective (rq_goal req) \<noteq> ''''" "pd_ranked_moves dto \<noteq> []"
    "rs_ranked_moves r = map_moves (cd_unicode cd) dto"
    "pr_input_snapshot_id (rs_provenance r) =
      input_snapshot_id (cd_snapshot cd) (cd_hexsha cd) (rq_goal req) (rq_signal_note req)"
    "pr_strategy (rs_provenance r) = ''single''" "mi_model (rs_invocation r) = pr_model (rs_provenance r)"
    using assms
    by (auto simp: anthropic_generate_def openai_generate_def anthropic_call_def openai_call_def Let_def
        split: if_splits sum.splits option.splits list.splits)
  have n: "length (map_moves (cd_unicode cd) dto) = length (pd_ranked_moves dto)"
    by (simp add: map_moves_def)
  have "list_all (\<lambda>m. level_valid (m_expected_impact m) \<and> level_valid (m_effort m) \<and>
      level_valid (m_risk m) \<and> (m_confidence m = NaN \<or> confidence_ok (m_confidence m))) (map_moves (cd_unicode cd) dto)"
    using clamp_confidence_ok by (auto simp: list_all_length map_moves_def map_move_def to_level_valid)
  with d n show ?thesis by (auto simp: map_moves_ranks dest: arg_cong[of _ _ length])
qed

text \<open>Every name a schema requires is one it declares, at every level.\<close>

fun declared :: "json \<Rightarrow> json \<Rightarrow> bool" where
  "declared (JArr ks) (JObj ps) = list_all (\<lambda>k. case k of JStr s \<Rightarrow> s \<in> fst ` set ps | _ \<Rightarrow> False) ks"
| "declared _ _ = False"

fun schema_closed :: "json \<Rightarrow> bool" where
  "schema_closed (JObj kvs) =
     ((case map_of kvs ''required'' of
         None \<Rightarrow> True
       | Some rq \<Rightarrow> (case map_of kvs ''properties'' of None \<Rightarrow> True | Some ps \<Rightarrow> declared rq ps)) \<and>
      list_all (\<lambda>kv. schema_closed (snd kv)) kvs)"
| "schema_closed (JArr xs) = list_all schema_closed xs"
| "schema_closed _ = True"

definition tool_schema :: "(string \<times> json) list \<times> string list \<Rightarrow> json" where
  "tool_schema s = JObj [(''type'', JStr ''object''), (''properties'', JObj (fst s)), (''required'', JArr (map JStr (snd s)))]"

lemma schemas_closed: "schema_closed (tool_schema plan_schema)" "schema_closed (tool_schema verify_schema)"
  by code_simp+

section \<open>Whose key a call uses\<close>

text \<open>Two SDKs that agree on every client built with a key; they may differ on those built without.\<close>

definition same_with_key :: "llm_sdk \<Rightarrow> llm_sdk \<Rightarrow> bool" where
  "same_with_key s s' \<longleftrightarrow>
     (\<forall>k. sdk_anthropic s' (Some k) = sdk_anthropic s (Some k)) \<and>
     (\<forall>k b. sdk_openai s' (Some k) b = sdk_openai s (Some k) b) \<and> sdk_default_model s' = sdk_default_model s"

lemma credentials_key: "credentials_from_context u ctx = Some c \<Longrightarrow> uc_trim_space u '''' = '''' \<Longrightarrow> cr_key c \<noteq> ''''"
  by (auto simp: credentials_from_context_def split: option.splits if_splits)

lemma build_same_key:
  assumes "same_with_key s s'" "k \<noteq> ''''"
  shows "byok_build u (client_vendors cd s') b p k = byok_build u (client_vendors cd s) b p k"
  using assms by (simp add: byok_build_def client_vendors_def new_anthropic_planner_def new_openai_planner_def
      same_with_key_def Let_def)

lemma generate_same_key:
  assumes "same_with_key s s'" "uc_trim_space u '''' = ''''"
  shows "byok_generate u hexsha (client_vendors cd s') ctx req b = byok_generate u hexsha (client_vendors cd s) ctx req b"
proof (cases "credentials_from_context u ctx")
  case (Some c)
  have "byok_planner_for u hexsha (client_vendors cd s') c b = byok_planner_for u hexsha (client_vendors cd s) c b"
    unfolding byok_planner_for_def build_same_key[OF assms(1) credentials_key[OF Some assms(2)]] by (rule refl)
  with Some show ?thesis by (simp add: byok_generate_def)
qed (simp add: byok_generate_def)

lemma serve_same_key:
  assumes "same_with_key s s'" "uc_trim_space u '''' = ''''"
  shows "byok_serve u hexsha (client_vendors cd s') rs b = byok_serve u hexsha (client_vendors cd s) rs b"
  by (induction rs arbitrary: b) (auto simp: generate_same_key[OF assms])

section \<open>Results\<close>

text \<open>
  Against one service the two clients are the same planner and the same verifier but for the name they
  sign with: they fail together, ask once, and return the same moves, verdicts and token counts.
\<close>

theorem vendor_clients_agree:
  assumes "same_service p q"
  shows "alike (rebrand (oa_provider q)) (anthropic_generate cd p req) (openai_generate cd q req)"
    "alike (\<lambda>(v, mi). (v, stamp (oa_provider q @ ''-v1'') mi))
      (vr_verify (anthropic_verifier cd p) g r) (vr_verify (openai_verifier cd q) g r)"
  using generate_alike[OF assms] verify_alike[OF assms]
  by (simp_all add: anthropic_verifier_def openai_verifier_def)

text \<open>
  The bring-your-own-key planner over the two clients answers from the visitors' keys alone: whatever
  the clients built without a key do, which read the operator's key from the environment, changes no
  answer and no memo.
\<close>

theorem operator_key_unused:
  assumes "same_with_key s s'" "uc_trim_space u '''' = ''''"
  shows "byok_generate u hexsha (client_vendors cd s') ctx req (byok_serve u hexsha (client_vendors cd s') rs b) =
    byok_generate u hexsha (client_vendors cd s) ctx req (byok_serve u hexsha (client_vendors cd s) rs b)"
  by (simp add: serve_same_key[OF assms] generate_same_key[OF assms])

text \<open>
  DeepSeek set up without its key gets the client that reads the environment, at DeepSeek's address: the
  environment the SDK reads is OpenAI's.
\<close>

lemma deepseek_without_key:
  "oa_client (new_openai_planner sdk
     \<lparr>vd_provider = ''deepseek'', vd_api_key = '''', vd_model = m, vd_base_url = '''', vd_max_tokens = n\<rparr>) =
   sdk None (Some deepSeekBaseURL)"
  by (simp add: new_openai_planner_def deepSeekBaseURL_def Let_def)

end
