(* ===== verification/Postgres.thy ===== *)
theory Postgres
  imports Storage
begin

text \<open>
  The PostgreSQL repository (\<open>internal/storage/postgres.go\<close>) over the schema its migrations
  create: each table is a list of rows, each statement the row operation it states, with the primary
  keys, the unique index and the foreign keys of \<open>0001_init.sql\<close> and the columns added since. The
  server is assumed to answer; what it refuses is the violation of a constraint. JSON columns hold
  texts, written and read by codecs that are arguments; a timestamp keeps microseconds, an integer
  column 32 bits, and a text column any text (a zero byte, which the server refuses, is left out).
\<close>

section \<open>Rows and tables\<close>

record player_row =
  pw_id :: string
  pw_kind :: string
  pw_name :: string
  pw_metadata :: string
  pw_created_at :: time

record goal_row =
  gw_id :: string
  gw_player_id :: "string option"
  gw_domain :: string
  gw_objective :: string
  gw_metric :: string
  gw_target :: string
  gw_context :: string
  gw_status :: string
  gw_resolution :: "string option"
  gw_created_at :: time
  gw_updated_at :: time

record version_row =
  vw_plan_id :: string
  vw_version :: int
  vw_goal :: string
  vw_summary :: string
  vw_ranked_moves :: string
  vw_provenance :: string
  vw_input_snapshot_id :: string
  vw_created_at :: time

record signal_row =
  gs_id :: string
  gs_goal_id :: string
  gs_kind :: string
  gs_description :: string
  gs_payload :: string
  gs_created_at :: time
  gs_status :: string
  gs_reason :: string
  gs_result_version :: int
  gs_error :: string
  gs_processed_at :: "time option"

record outcome_row =
  ow_id :: string
  ow_goal_id :: string
  ow_plan_version :: int
  ow_move_rank :: int
  ow_move_title :: string
  ow_result :: string
  ow_observed_signals :: string
  ow_notes :: string
  ow_created_at :: time

text \<open>A row of the table \<open>plan\<close> has the fields of \<open>domain.Plan\<close>.\<close>

record pg_db =
  pg_players :: "player_row list"
  pg_goals :: "goal_row list"
  pg_plan :: "plan list"
  pg_versions :: "version_row list"
  pg_signals :: "signal_row list"
  pg_outcomes :: "outcome_row list"

definition empty_db :: pg_db where
  "empty_db = \<lparr>pg_players = [], pg_goals = [], pg_plan = [], pg_versions = [], pg_signals = [], pg_outcomes = []\<rparr>"

section \<open>Columns and errors\<close>

record 'a json_codec =
  jc_marshal :: "'a \<Rightarrow> go_error + string"
  jc_unmarshal :: "string \<Rightarrow> go_error + 'a"

text \<open>\<open>jsonb\<close> is the text a JSONB column returns for the text it was given.\<close>

record pg_codec =
  pc_metadata :: "(string \<times> string) list json_codec"
  pc_context :: "goal_context json_codec"
  pc_resolution :: "resolution json_codec"
  pc_moves :: "move list json_codec"
  pc_provenance :: "provenance json_codec"
  pc_payload :: "payload json_codec"
  pc_observed :: "string list json_codec"
  pc_jsonb :: "string \<Rightarrow> string"
  pc_int4 :: "int \<Rightarrow> go_error"          \<comment> \<open>the driver's refusal of an integer beyond 32 bits\<close>

datatype pg_error = NoRows | SqlState string | DriverError go_error

definition map_error :: "pg_error \<Rightarrow> go_error" where
  "map_error e =
     (case e of
        NoRows \<Rightarrow> ENotFound
      | SqlState code \<Rightarrow>
          if code = ''23505'' then EConflict
          else if code = ''23503'' then ENotFound
          else EText (''SQLSTATE '' @ code)
      | DriverError err \<Rightarrow> err)"

definition marshal_json :: "'a json_codec \<Rightarrow> 'a \<Rightarrow> go_error + string" where
  "marshal_json c v =
     (case jc_marshal c v of Inl err \<Rightarrow> Inl (EWrap ''storage: marshal json'' err) | Inr b \<Rightarrow> Inr b)"

text \<open>An empty column leaves the destination as it was.\<close>

definition unmarshal_json :: "'a json_codec \<Rightarrow> string \<Rightarrow> 'a \<Rightarrow> go_error + 'a" where
  "unmarshal_json c b dst =
     (if b = '''' then Inr dst
      else case jc_unmarshal c b of Inl err \<Rightarrow> Inl (EWrap ''storage: unmarshal json'' err) | Inr v \<Rightarrow> Inr v)"

definition marshal_resolution :: "pg_codec \<Rightarrow> resolution option \<Rightarrow> go_error + string option" where
  "marshal_resolution pc res =
     (case res of
        None \<Rightarrow> Inr None
      | Some r \<Rightarrow> (case marshal_json (pc_resolution pc) r of Inl err \<Rightarrow> Inl err | Inr s \<Rightarrow> Inr (Some s)))"

definition timestamptz :: "time \<Rightarrow> time" where
  "timestamptz t = t - t mod 1000"

definition int4_ok :: "int \<Rightarrow> bool" where
  "int4_ok n \<longleftrightarrow> - (2 ^ 31) \<le> n \<and> n < 2 ^ 31"

text \<open>The first argument of a statement that the driver cannot encode.\<close>

fun int4_args :: "pg_codec \<Rightarrow> int list \<Rightarrow> pg_error option" where
  "int4_args pc [] = None"
| "int4_args pc (n # ns) = (if int4_ok n then int4_args pc ns else Some (DriverError (pc_int4 pc n)))"

text \<open>An insert: a key that exists is 23505, a reference to a missing row 23503, in that order.\<close>

definition insert_row :: "pg_error option \<Rightarrow> bool \<Rightarrow> bool \<Rightarrow> 'r \<Rightarrow> 'r list \<Rightarrow> pg_error + 'r list" where
  "insert_row bad_arg clash refs r rows =
     (case bad_arg of
        Some e \<Rightarrow> Inl e
      | None \<Rightarrow> if clash then Inl (SqlState ''23505'')
                else if \<not> refs then Inl (SqlState ''23503'') else Inr (rows @ [r]))"

definition commit_rows :: "('r list \<Rightarrow> pg_db) \<Rightarrow> pg_db \<Rightarrow> pg_error + 'r list \<Rightarrow> go_error option \<times> pg_db" where
  "commit_rows store db res =
     (case res of Inl e \<Rightarrow> (Some (map_error e), db) | Inr rows \<Rightarrow> (None, store rows))"

fun scan_rows :: "('r \<Rightarrow> go_error + 'a) \<Rightarrow> 'r list \<Rightarrow> go_error + 'a list" where
  "scan_rows scan [] = Inr []"
| "scan_rows scan (r # rs) =
     (case scan r of
        Inl err \<Rightarrow> Inl err
      | Inr x \<Rightarrow> (case scan_rows scan rs of Inl err \<Rightarrow> Inl err | Inr xs \<Rightarrow> Inr (x # xs)))"

definition query_row :: "('r \<Rightarrow> bool) \<Rightarrow> ('r \<Rightarrow> go_error + 'a) \<Rightarrow> 'r list \<Rightarrow> go_error + 'a" where
  "query_row p scan rows =
     (case List.find p rows of None \<Rightarrow> Inl (map_error NoRows) | Some r \<Rightarrow> scan r)"

text \<open>\<open>LIMIT\<close> and \<open>OFFSET\<close>.\<close>

definition sql_page :: "page \<Rightarrow> 'r list \<Rightarrow> 'r list" where
  "sql_page pg rows = take (nat (pg_limit pg)) (drop (nat (pg_offset pg)) rows)"

text \<open>\<open>ORDER BY created_at DESC, id\<close>, identifiers by their bytes.\<close>

definition newest_first :: "('r \<Rightarrow> time) \<Rightarrow> ('r \<Rightarrow> string) \<Rightarrow> 'r \<Rightarrow> 'r \<Rightarrow> bool" where
  "newest_first created ident a b =
     (if created a = created b then str_less (ident a) (ident b) else created b < created a)"

section \<open>Transactions\<close>

text \<open>The flag says whether the repository is already inside a transaction, which is then joined.\<close>

definition in_tx :: "bool \<Rightarrow> (pg_db \<Rightarrow> go_error option \<times> pg_db) \<Rightarrow> pg_db \<Rightarrow> go_error option \<times> pg_db" where
  "in_tx joined fn db =
     (if joined then fn db
      else case fn db of (Some err, _) \<Rightarrow> (Some err, db) | (None, db1) \<Rightarrow> (None, db1))"

definition pg_tx ::
  "bool \<Rightarrow> (bool \<Rightarrow> pg_db \<Rightarrow> go_error option \<times> pg_db) \<Rightarrow> pg_db \<Rightarrow> go_error option \<times> pg_db" where
  "pg_tx joined fn = in_tx joined (fn True)"

section \<open>Players and goals\<close>

definition pg_create_player :: "pg_codec \<Rightarrow> player \<Rightarrow> pg_db \<Rightarrow> go_error option \<times> pg_db" where
  "pg_create_player pc p db =
     (case marshal_json (pc_metadata pc) (pl_metadata p) of
        Inl err \<Rightarrow> (Some err, db)
      | Inr md \<Rightarrow>
          commit_rows (\<lambda>rows. db\<lparr>pg_players := rows\<rparr>) db
            (insert_row None (list_ex (\<lambda>r. pw_id r = pl_id p) (pg_players db)) True
              \<lparr>pw_id = pl_id p, pw_kind = pl_kind p, pw_name = pl_name p, pw_metadata = pc_jsonb pc md,
               pw_created_at = timestamptz (pl_created_at p)\<rparr> (pg_players db)))"

definition scan_player :: "pg_codec \<Rightarrow> player_row \<Rightarrow> go_error + player" where
  "scan_player pc r =
     (case unmarshal_json (pc_metadata pc) (pw_metadata r) [] of
        Inl err \<Rightarrow> Inl err
      | Inr md \<Rightarrow> Inr \<lparr>pl_id = pw_id r, pl_kind = pw_kind r, pl_name = pw_name r, pl_metadata = md,
                      pl_created_at = pw_created_at r\<rparr>)"

definition pg_get_player :: "pg_codec \<Rightarrow> string \<Rightarrow> pg_db \<Rightarrow> go_error + player" where
  "pg_get_player pc i db = query_row (\<lambda>r. pw_id r = i) (scan_player pc) (pg_players db)"

definition pg_create_goal :: "pg_codec \<Rightarrow> goal \<Rightarrow> pg_db \<Rightarrow> go_error option \<times> pg_db" where
  "pg_create_goal pc g db =
     (case marshal_json (pc_context pc) (g_context g) of
        Inl err \<Rightarrow> (Some err, db)
      | Inr cx \<Rightarrow>
          (case marshal_resolution pc (g_resolution g) of
             Inl err \<Rightarrow> (Some err, db)
           | Inr res \<Rightarrow>
               let player = (if g_player_id g \<noteq> '''' then Some (g_player_id g) else None) in
               commit_rows (\<lambda>rows. db\<lparr>pg_goals := rows\<rparr>) db
                 (insert_row None (list_ex (\<lambda>r. gw_id r = g_id g) (pg_goals db))
                   (case player of None \<Rightarrow> True | Some i \<Rightarrow> list_ex (\<lambda>r. pw_id r = i) (pg_players db))
                   \<lparr>gw_id = g_id g, gw_player_id = player, gw_domain = g_domain g, gw_objective = g_objective g,
                    gw_metric = g_metric g, gw_target = g_target g, gw_context = pc_jsonb pc cx,
                    gw_status = g_status g, gw_resolution = map_option (pc_jsonb pc) res,
                    gw_created_at = timestamptz (g_created_at g), gw_updated_at = timestamptz (g_updated_at g)\<rparr>
                   (pg_goals db))))"

text \<open>\<open>COALESCE(player_id, '')\<close>; a null resolution is no resolution.\<close>

definition scan_goal :: "pg_codec \<Rightarrow> goal_row \<Rightarrow> go_error + goal" where
  "scan_goal pc r =
     (case unmarshal_json (pc_context pc) (gw_context r) zero_context of
        Inl err \<Rightarrow> Inl err
      | Inr cx \<Rightarrow>
          let g = (\<lambda>res. \<lparr>g_id = gw_id r, g_player_id = (case gw_player_id r of None \<Rightarrow> '''' | Some i \<Rightarrow> i),
                         g_domain = gw_domain r, g_objective = gw_objective r, g_metric = gw_metric r,
                         g_target = gw_target r, g_context = cx, g_status = gw_status r, g_resolution = res,
                         g_created_at = gw_created_at r, g_updated_at = gw_updated_at r\<rparr>) in
          (case gw_resolution r of
             None \<Rightarrow> Inr (g None)
           | Some b \<Rightarrow>
               if b = '''' then Inr (g None)
               else case unmarshal_json (pc_resolution pc) b
                           \<lparr>re_result = '''', re_notes = '''', re_resolved_at = zero_time\<rparr> of
                 Inl err \<Rightarrow> Inl err
               | Inr res \<Rightarrow> Inr (g (Some res))))"

definition pg_get_goal :: "pg_codec \<Rightarrow> string \<Rightarrow> pg_db \<Rightarrow> go_error + goal" where
  "pg_get_goal pc i db = query_row (\<lambda>r. gw_id r = i) (scan_goal pc) (pg_goals db)"

definition pg_update_goal_status ::
  "pg_codec \<Rightarrow> string \<Rightarrow> goal_status \<Rightarrow> goal_status \<Rightarrow> resolution option \<Rightarrow> time \<Rightarrow> pg_db \<Rightarrow> go_error option \<times> pg_db" where
  "pg_update_goal_status pc i expected status resolution updated_at db =
     (case marshal_resolution pc resolution of
        Inl err \<Rightarrow> (Some err, db)
      | Inr res \<Rightarrow>
          let hit = (\<lambda>r. gw_id r = i \<and> gw_status r = expected) in
          if \<not> list_ex hit (pg_goals db)
          then (if \<not> list_ex (\<lambda>r. gw_id r = i) (pg_goals db) then (Some ENotFound, db) else (Some EConflict, db))
          else (None, db\<lparr>pg_goals := map (\<lambda>r. if hit r
                   then r\<lparr>gw_status := status, gw_resolution := map_option (pc_jsonb pc) res,
                          gw_updated_at := timestamptz updated_at\<rparr> else r) (pg_goals db)\<rparr>))"

definition row_status :: "goal_row \<Rightarrow> goal_status" where
  "row_status r = (if gw_status r = '''' then ''active'' else gw_status r)"

definition pg_list_goals :: "pg_codec \<Rightarrow> goal_status \<Rightarrow> page \<Rightarrow> pg_db \<Rightarrow> go_error + goal list" where
  "pg_list_goals pc want pg db =
     scan_rows (scan_goal pc)
       (sql_page (page_normalize pg)
         (sort_by (newest_first gw_created_at gw_id)
           (filter (\<lambda>r. want = '''' \<or> row_status r = want) (pg_goals db))))"

section \<open>Plans and versions\<close>

definition pg_create_plan :: "pg_codec \<Rightarrow> plan \<Rightarrow> pg_db \<Rightarrow> go_error option \<times> pg_db" where
  "pg_create_plan pc p db =
     commit_rows (\<lambda>rows. db\<lparr>pg_plan := rows\<rparr>) db
       (insert_row (int4_args pc [p_current_version p])
         (list_ex (\<lambda>r. p_id r = p_id p \<or> p_goal_id r = p_goal_id p) (pg_plan db))
         (list_ex (\<lambda>r. gw_id r = p_goal_id p) (pg_goals db))
         (p\<lparr>p_created_at := timestamptz (p_created_at p), p_updated_at := timestamptz (p_updated_at p)\<rparr>)
         (pg_plan db))"

definition pg_get_plan :: "string \<Rightarrow> pg_db \<Rightarrow> go_error + plan" where
  "pg_get_plan i db = query_row (\<lambda>r. p_id r = i) Inr (pg_plan db)"

definition pg_get_plan_by_goal :: "string \<Rightarrow> pg_db \<Rightarrow> go_error + plan" where
  "pg_get_plan_by_goal gid db = query_row (\<lambda>r. p_goal_id r = gid) Inr (pg_plan db)"

definition pg_create_plan_version ::
  "pg_codec \<Rightarrow> bool \<Rightarrow> plan_version \<Rightarrow> pg_db \<Rightarrow> go_error option \<times> pg_db" where
  "pg_create_plan_version pc joined v db =
     (case marshal_json (pc_moves pc) (v_ranked_moves v) of
        Inl err \<Rightarrow> (Some err, db)
      | Inr moves \<Rightarrow>
          (case marshal_json (pc_provenance pc) (v_provenance v) of
             Inl err \<Rightarrow> (Some err, db)
           | Inr prov \<Rightarrow>
               in_tx joined (\<lambda>q.
                 case insert_row (int4_args pc [v_version v])
                        (list_ex (\<lambda>r. vw_plan_id r = v_plan_id v \<and> vw_version r = v_version v) (pg_versions q))
                        (list_ex (\<lambda>r. p_id r = v_plan_id v) (pg_plan q))
                        \<lparr>vw_plan_id = v_plan_id v, vw_version = v_version v, vw_goal = v_goal v,
                         vw_summary = v_summary v, vw_ranked_moves = pc_jsonb pc moves,
                         vw_provenance = pc_jsonb pc prov, vw_input_snapshot_id = v_input_snapshot_id v,
                         vw_created_at = timestamptz (v_created_at v)\<rparr> (pg_versions q) of
                   Inl e \<Rightarrow> (Some (map_error e), q)
                 | Inr rows \<Rightarrow>
                     (None, q\<lparr>pg_versions := rows,
                              pg_plan := map (\<lambda>r. if p_id r = v_plan_id v \<and> p_current_version r < v_version v
                                then r\<lparr>p_current_version := v_version v, p_updated_at := timestamptz (v_created_at v)\<rparr>
                                else r) (pg_plan q)\<rparr>)) db))"

definition scan_version :: "pg_codec \<Rightarrow> version_row \<Rightarrow> go_error + plan_version" where
  "scan_version pc r =
     (case unmarshal_json (pc_moves pc) (vw_ranked_moves r) [] of
        Inl err \<Rightarrow> Inl err
      | Inr moves \<Rightarrow>
          (case unmarshal_json (pc_provenance pc) (vw_provenance r) zero_provenance of
             Inl err \<Rightarrow> Inl err
           | Inr prov \<Rightarrow>
               Inr \<lparr>v_plan_id = vw_plan_id r, v_version = vw_version r, v_goal = vw_goal r, v_summary = vw_summary r,
                    v_ranked_moves = moves, v_provenance = prov, v_input_snapshot_id = vw_input_snapshot_id r,
                    v_created_at = vw_created_at r\<rparr>))"

definition pg_get_plan_version :: "pg_codec \<Rightarrow> string \<Rightarrow> int \<Rightarrow> pg_db \<Rightarrow> go_error + plan_version" where
  "pg_get_plan_version pc pid n db =
     (case int4_args pc [n] of
        Some e \<Rightarrow> Inl (map_error e)
      | None \<Rightarrow> query_row (\<lambda>r. vw_plan_id r = pid \<and> vw_version r = n) (scan_version pc) (pg_versions db))"

text \<open>The join of a version with the plan whose current version it is.\<close>

definition pg_get_current_plan_version :: "pg_codec \<Rightarrow> string \<Rightarrow> pg_db \<Rightarrow> go_error + plan_version" where
  "pg_get_current_plan_version pc pid db =
     query_row (\<lambda>r. vw_plan_id r = pid \<and>
                   list_ex (\<lambda>p. p_id p = vw_plan_id r \<and> p_current_version p = vw_version r) (pg_plan db))
       (scan_version pc) (pg_versions db)"

definition pg_list_plan_versions :: "pg_codec \<Rightarrow> string \<Rightarrow> page \<Rightarrow> pg_db \<Rightarrow> go_error + plan_version list" where
  "pg_list_plan_versions pc pid pg db =
     scan_rows (scan_version pc)
       (sql_page (page_normalize pg)
         (sort_by (\<lambda>a b. vw_version a < vw_version b) (filter (\<lambda>r. vw_plan_id r = pid) (pg_versions db))))"

section \<open>Signals and outcomes\<close>

text \<open>The columns of the replan's result have their defaults.\<close>

definition pg_create_signal :: "pg_codec \<Rightarrow> signal \<Rightarrow> pg_db \<Rightarrow> go_error option \<times> pg_db" where
  "pg_create_signal pc s db =
     (case marshal_json (pc_payload pc) (s_payload s) of
        Inl err \<Rightarrow> (Some err, db)
      | Inr payload \<Rightarrow>
          commit_rows (\<lambda>rows. db\<lparr>pg_signals := rows\<rparr>) db
            (insert_row None (list_ex (\<lambda>r. gs_id r = s_id s) (pg_signals db))
              (list_ex (\<lambda>r. gw_id r = s_goal_id s) (pg_goals db))
              \<lparr>gs_id = s_id s, gs_goal_id = s_goal_id s, gs_kind = s_kind s, gs_description = s_description s,
               gs_payload = pc_jsonb pc payload, gs_created_at = timestamptz (s_created_at s),
               gs_status = ''pending'', gs_reason = '''', gs_result_version = 0, gs_error = '''',
               gs_processed_at = None\<rparr> (pg_signals db)))"

definition scan_signal :: "pg_codec \<Rightarrow> signal_row \<Rightarrow> go_error + signal" where
  "scan_signal pc r =
     (case unmarshal_json (pc_payload pc) (gs_payload r) [] of
        Inl err \<Rightarrow> Inl err
      | Inr payload \<Rightarrow>
          Inr \<lparr>s_id = gs_id r, s_goal_id = gs_goal_id r, s_kind = gs_kind r, s_description = gs_description r,
               s_payload = payload, s_created_at = gs_created_at r, s_status = gs_status r, s_reason = gs_reason r,
               s_result_version = gs_result_version r, s_error = gs_error r, s_processed_at = gs_processed_at r\<rparr>)"

text \<open>The listing selects the first six columns only.\<close>

definition scan_signal_head :: "pg_codec \<Rightarrow> signal_row \<Rightarrow> go_error + signal" where
  "scan_signal_head pc r =
     (case unmarshal_json (pc_payload pc) (gs_payload r) [] of
        Inl err \<Rightarrow> Inl err
      | Inr payload \<Rightarrow>
          Inr (zero_signal\<lparr>s_id := gs_id r, s_goal_id := gs_goal_id r, s_kind := gs_kind r,
                 s_description := gs_description r, s_payload := payload, s_created_at := gs_created_at r\<rparr>))"

definition pg_list_signals :: "pg_codec \<Rightarrow> string \<Rightarrow> page \<Rightarrow> pg_db \<Rightarrow> go_error + signal list" where
  "pg_list_signals pc gid pg db =
     scan_rows (scan_signal_head pc)
       (sql_page (page_normalize pg)
         (sort_by (newest_first gs_created_at gs_id) (filter (\<lambda>r. gs_goal_id r = gid) (pg_signals db))))"

text \<open>\<open>ORDER BY created_at ASC, id\<close>.\<close>

definition oldest_first :: "signal_row \<Rightarrow> signal_row \<Rightarrow> bool" where
  "oldest_first a b =
     (if gs_created_at a = gs_created_at b then str_less (gs_id a) (gs_id b) else gs_created_at a < gs_created_at b)"

definition pg_list_pending_signals :: "pg_codec \<Rightarrow> int \<Rightarrow> pg_db \<Rightarrow> go_error + signal list" where
  "pg_list_pending_signals pc limit db =
     (if limit \<le> 0 then Inr []
      else scan_rows (scan_signal pc)
             (take (nat limit) (sort_by oldest_first (filter (\<lambda>r. gs_status r = ''pending'') (pg_signals db)))))"

definition pg_get_signal :: "pg_codec \<Rightarrow> string \<Rightarrow> pg_db \<Rightarrow> go_error + signal" where
  "pg_get_signal pc i db = query_row (\<lambda>r. gs_id r = i) (scan_signal pc) (pg_signals db)"

definition pg_mark_signal_processed ::
  "pg_codec \<Rightarrow> string \<Rightarrow> string \<Rightarrow> int \<Rightarrow> string \<Rightarrow> string \<Rightarrow> time \<Rightarrow> pg_db \<Rightarrow> go_error option \<times> pg_db" where
  "pg_mark_signal_processed pc i status result_version reason err_msg tm db =
     (case int4_args pc [result_version] of
        Some e \<Rightarrow> (Some (map_error e), db)
      | None \<Rightarrow>
          if \<not> list_ex (\<lambda>r. gs_id r = i) (pg_signals db) then (Some ENotFound, db)
          else (None, db\<lparr>pg_signals := map (\<lambda>r. if gs_id r = i
                 then r\<lparr>gs_status := status, gs_result_version := result_version, gs_reason := reason,
                        gs_error := err_msg, gs_processed_at := Some (timestamptz tm)\<rparr> else r) (pg_signals db)\<rparr>))"

definition pg_create_outcome :: "pg_codec \<Rightarrow> outcome \<Rightarrow> pg_db \<Rightarrow> go_error option \<times> pg_db" where
  "pg_create_outcome pc o' db =
     (case marshal_json (pc_observed pc) (o_observed_signals o') of
        Inl err \<Rightarrow> (Some err, db)
      | Inr observed \<Rightarrow>
          commit_rows (\<lambda>rows. db\<lparr>pg_outcomes := rows\<rparr>) db
            (insert_row (int4_args pc [o_plan_version o', o_move_rank o'])
              (list_ex (\<lambda>r. ow_id r = o_id o') (pg_outcomes db))
              (list_ex (\<lambda>r. gw_id r = o_goal_id o') (pg_goals db))
              \<lparr>ow_id = o_id o', ow_goal_id = o_goal_id o', ow_plan_version = o_plan_version o',
               ow_move_rank = o_move_rank o', ow_move_title = o_move_title o', ow_result = o_result o',
               ow_observed_signals = pc_jsonb pc observed, ow_notes = o_notes o',
               ow_created_at = timestamptz (o_created_at o')\<rparr> (pg_outcomes db)))"

definition scan_outcome :: "pg_codec \<Rightarrow> outcome_row \<Rightarrow> go_error + outcome" where
  "scan_outcome pc r =
     (case unmarshal_json (pc_observed pc) (ow_observed_signals r) [] of
        Inl err \<Rightarrow> Inl err
      | Inr observed \<Rightarrow>
          Inr \<lparr>o_id = ow_id r, o_goal_id = ow_goal_id r, o_plan_version = ow_plan_version r,
               o_move_rank = ow_move_rank r, o_move_title = ow_move_title r, o_result = ow_result r,
               o_observed_signals = observed, o_notes = ow_notes r, o_created_at = ow_created_at r\<rparr>)"

definition pg_list_outcomes :: "pg_codec \<Rightarrow> string \<Rightarrow> page \<Rightarrow> pg_db \<Rightarrow> go_error + outcome list" where
  "pg_list_outcomes pc gid pg db =
     scan_rows (scan_outcome pc)
       (sql_page (page_normalize pg)
         (sort_by (newest_first ow_created_at ow_id) (filter (\<lambda>r. ow_goal_id r = gid) (pg_outcomes db))))"

end
