(* ===== verification/Postgres_Sim.thy ===== *)
theory Postgres_Sim
  imports Postgres
begin

text \<open>
  The PostgreSQL repository simulates the in-memory one on the values it keeps. \<open>stored_repo\<close> is what
  the schema keeps of a store: times cut to microseconds, JSON columns as they read back. One lemma
  per write simulates the write of the stored value, one says that storing commutes with the
  in-memory write, and the reads follow under the relation; last, where the two differ.
\<close>

section \<open>Rows and the values they scan to\<close>

definition scans :: "('r \<Rightarrow> go_error + 'a) \<Rightarrow> 'r list \<Rightarrow> 'a list \<Rightarrow> bool" where
  "scans scan rows xs \<longleftrightarrow> list_all2 (\<lambda>r x. scan r = Inr x) rows xs"

lemma scans_append: "scans f rs xs \<Longrightarrow> f r = Inr x \<Longrightarrow> scans f (rs @ [r]) (xs @ [x])"
  by (simp add: scans_def list_all2_appendI)

lemma scans_filter:
  "scans f rs xs \<Longrightarrow> (\<And>r x. f r = Inr x \<Longrightarrow> p r = q x) \<Longrightarrow> scans f (filter p rs) (filter q xs)"
  unfolding scans_def by (induction rs xs rule: list_all2_induct) auto

lemma scans_take: "scans f rs xs \<Longrightarrow> scans f (take n rs) (take n xs)"
  by (simp add: scans_def list_all2_takeI)

lemma scans_page: "scans f rs xs \<Longrightarrow> scans f (sql_page pg rs) (sql_page pg xs)"
  by (simp add: scans_def sql_page_def list_all2_takeI list_all2_dropI)

lemma scans_insert:
  "scans f rs xs \<Longrightarrow> f r = Inr x \<Longrightarrow> (\<And>a b y z. f a = Inr y \<Longrightarrow> f b = Inr z \<Longrightarrow> lt a b = lt' y z) \<Longrightarrow>
   scans f (insert_by lt r rs) (insert_by lt' x xs)"
  unfolding scans_def by (induction rs xs rule: list_all2_induct) auto

lemma scans_sort:
  "scans f rs xs \<Longrightarrow> (\<And>a b y z. f a = Inr y \<Longrightarrow> f b = Inr z \<Longrightarrow> lt a b = lt' y z) \<Longrightarrow>
   scans f (sort_by lt rs) (sort_by lt' xs)"
proof -
  assume a: "scans f rs xs" and b: "\<And>a b y z. f a = Inr y \<Longrightarrow> f b = Inr z \<Longrightarrow> lt a b = lt' y z"
  from a show ?thesis
    unfolding scans_def
  proof (induction rs xs rule: list_all2_induct)
    case (Cons r rs x xs)
    thus ?case using scans_insert[of f "sort_by lt rs" "sort_by lt' xs" r x lt lt'] b by (simp add: scans_def)
  qed simp
qed

lemma scan_rows_Inr: "scans f rs xs \<Longrightarrow> scan_rows f rs = Inr xs"
  unfolding scans_def by (induction rs xs rule: list_all2_induct) auto

lemma scans_map:
  "scans f rs xs \<Longrightarrow> (\<And>r x. f r = Inr x \<Longrightarrow> f' (g r) = Inr (h x)) \<Longrightarrow> scans f' (map g rs) (map h xs)"
  by (simp add: scans_def list_all2_conv_all_nth)

lemma scans_find:
  "scans f rs xs \<Longrightarrow> (\<And>r x. r \<in> set rs \<Longrightarrow> f r = Inr x \<Longrightarrow> p r = q x) \<Longrightarrow>
   query_row p f rs = (case List.find q xs of None \<Rightarrow> Inl ENotFound | Some x \<Rightarrow> Inr x)"
  unfolding scans_def query_row_def by (induction rs xs rule: list_all2_induct) (auto simp: map_error_def)

lemma scans_ex:
  "scans f rs xs \<Longrightarrow> (\<And>r x. f r = Inr x \<Longrightarrow> p r = q x) \<Longrightarrow> list_ex p rs = list_ex q xs"
  unfolding scans_def by (induction rs xs rule: list_all2_induct) auto

lemma find_map: "(\<And>x. p (f x) = p x) \<Longrightarrow> List.find p (map f xs) = map_option f (List.find p xs)"
  by (induction xs) auto

lemma find_append: "List.find p (xs @ ys) = (case List.find p xs of None \<Rightarrow> List.find p ys | Some x \<Rightarrow> Some x)"
  by (induction xs) auto

lemma list_ex_find: "list_ex p xs \<longleftrightarrow> List.find p xs \<noteq> None"
  by (induction xs) auto

section \<open>What scanning reads\<close>

text \<open>A value a JSON column takes, and what the column returns for it.\<close>

definition codec_ok :: "pg_codec \<Rightarrow> 'a json_codec \<Rightarrow> 'a \<Rightarrow> bool" where
  "codec_ok pc c x \<longleftrightarrow>
     (\<exists>b y. jc_marshal c x = Inr b \<and> pc_jsonb pc b \<noteq> '''' \<and> jc_unmarshal c (pc_jsonb pc b) = Inr y)"

definition readback :: "pg_codec \<Rightarrow> 'a json_codec \<Rightarrow> 'a \<Rightarrow> 'a" where
  "readback pc c x =
     (case jc_marshal c x of
        Inl err \<Rightarrow> x
      | Inr b \<Rightarrow> (case jc_unmarshal c (pc_jsonb pc b) of Inl err \<Rightarrow> x | Inr y \<Rightarrow> y))"

lemma codec_ok_readback:
  assumes "codec_ok pc c x"
  obtains b where "jc_marshal c x = Inr b" "pc_jsonb pc b \<noteq> ''''" "jc_unmarshal c (pc_jsonb pc b) = Inr (readback pc c x)"
  using assms by (auto simp: codec_ok_def readback_def)

lemma codec_okD:
  assumes "codec_ok pc c x"
  shows "\<exists>b. marshal_json c x = Inr b \<and> unmarshal_json c (pc_jsonb pc b) d = Inr (readback pc c x)"
proof -
  obtain b where b: "jc_marshal c x = Inr b" "pc_jsonb pc b \<noteq> []" "jc_unmarshal c (pc_jsonb pc b) = Inr (readback pc c x)"
    by (rule codec_ok_readback[OF assms])
  show ?thesis by (rule exI[of _ b]) (simp add: marshal_json_def unmarshal_json_def b)
qed

text \<open>What is stored of a value: its times cut to microseconds, its JSON columns as they read back.\<close>

definition stored_player :: "pg_codec \<Rightarrow> player \<Rightarrow> player" where
  "stored_player pc p =
     p\<lparr>pl_metadata := readback pc (pc_metadata pc) (pl_metadata p), pl_created_at := timestamptz (pl_created_at p)\<rparr>"

definition stored_resolution :: "pg_codec \<Rightarrow> resolution option \<Rightarrow> resolution option" where
  "stored_resolution pc = map_option (readback pc (pc_resolution pc))"

definition stored_goal :: "pg_codec \<Rightarrow> goal \<Rightarrow> goal" where
  "stored_goal pc g =
     g\<lparr>g_context := readback pc (pc_context pc) (g_context g), g_resolution := stored_resolution pc (g_resolution g),
       g_created_at := timestamptz (g_created_at g), g_updated_at := timestamptz (g_updated_at g)\<rparr>"

definition stored_plan :: "plan \<Rightarrow> plan" where
  "stored_plan p = p\<lparr>p_created_at := timestamptz (p_created_at p), p_updated_at := timestamptz (p_updated_at p)\<rparr>"

definition stored_version :: "pg_codec \<Rightarrow> plan_version \<Rightarrow> plan_version" where
  "stored_version pc v =
     v\<lparr>v_ranked_moves := readback pc (pc_moves pc) (v_ranked_moves v),
       v_provenance := readback pc (pc_provenance pc) (v_provenance v), v_created_at := timestamptz (v_created_at v)\<rparr>"

definition stored_signal :: "pg_codec \<Rightarrow> signal \<Rightarrow> signal" where
  "stored_signal pc s =
     s\<lparr>s_payload := readback pc (pc_payload pc) (s_payload s), s_created_at := timestamptz (s_created_at s),
       s_processed_at := map_option timestamptz (s_processed_at s)\<rparr>"

definition stored_outcome :: "pg_codec \<Rightarrow> outcome \<Rightarrow> outcome" where
  "stored_outcome pc x =
     x\<lparr>o_observed_signals := readback pc (pc_observed pc) (o_observed_signals x),
       o_created_at := timestamptz (o_created_at x)\<rparr>"

lemma stored_fields [simp]:
  "pl_id (stored_player pc p) = pl_id p" "g_id (stored_goal pc g) = g_id g" "g_status (stored_goal pc g) = g_status g"
  "p_id (stored_plan q) = p_id q" "p_goal_id (stored_plan q) = p_goal_id q"
  "p_current_version (stored_plan q) = p_current_version q"
  "v_plan_id (stored_version pc v) = v_plan_id v" "v_version (stored_version pc v) = v_version v"
  "v_created_at (stored_version pc v) = timestamptz (v_created_at v)"
  "s_id (stored_signal pc s) = s_id s" "s_goal_id (stored_signal pc s) = s_goal_id s"
  "s_status (stored_signal pc s) = s_status s" "s_created_at (stored_signal pc s) = timestamptz (s_created_at s)"
  "o_id (stored_outcome pc x) = o_id x" "o_goal_id (stored_outcome pc x) = o_goal_id x"
  "o_created_at (stored_outcome pc x) = timestamptz (o_created_at x)"
  by (simp_all add: stored_player_def stored_goal_def stored_plan_def stored_version_def stored_signal_def stored_outcome_def)

definition resolution_ok :: "pg_codec \<Rightarrow> resolution option \<Rightarrow> bool" where
  "resolution_ok pc res \<longleftrightarrow> (case res of None \<Rightarrow> True | Some r \<Rightarrow> codec_ok pc (pc_resolution pc) r)"

lemma scan_player_fields: "scan_player pc r = Inr p \<Longrightarrow> pl_id p = pw_id r"
  by (auto simp: scan_player_def split: sum.splits)

lemma scan_goal_fields:
  "scan_goal pc r = Inr g \<Longrightarrow> g_id g = gw_id r \<and> g_status g = gw_status r \<and> g_created_at g = gw_created_at r"
  by (auto simp: scan_goal_def Let_def split: sum.splits option.splits if_splits)

lemma scan_version_fields:
  "scan_version pc r = Inr v \<Longrightarrow> v_plan_id v = vw_plan_id r \<and> v_version v = vw_version r"
  by (auto simp: scan_version_def split: sum.splits)

lemma scan_signal_fields:
  "scan_signal pc r = Inr s \<Longrightarrow> s_id s = gs_id r \<and> s_goal_id s = gs_goal_id r \<and> s_status s = gs_status r \<and>
     s_created_at s = gs_created_at r"
  by (auto simp: scan_signal_def split: sum.splits)

lemma scan_outcome_fields:
  "scan_outcome pc r = Inr x \<Longrightarrow> o_id x = ow_id r \<and> o_goal_id x = ow_goal_id r \<and> o_created_at x = ow_created_at r"
  by (auto simp: scan_outcome_def split: sum.splits)

definition signal_head :: "signal \<Rightarrow> signal" where
  "signal_head s = s\<lparr>s_status := s_status zero_signal, s_reason := '''', s_result_version := 0, s_error := '''',
     s_processed_at := None\<rparr>"

lemma scan_head: "scan_signal pc r = Inr s \<Longrightarrow> scan_signal_head pc r = Inr (signal_head s)"
  by (auto simp: scan_signal_def scan_signal_head_def signal_head_def zero_signal_def split: sum.splits)

text \<open>A goal written by an insert or an update reads back as it is stored.\<close>

lemma scan_goal_write:
  assumes "codec_ok pc (pc_context pc) (g_context g)" "resolution_ok pc (g_resolution g)"
  obtains cx res where "marshal_json (pc_context pc) (g_context g) = Inr cx" "marshal_resolution pc (g_resolution g) = Inr res"
    "scan_goal pc \<lparr>gw_id = g_id g, gw_player_id = (if g_player_id g \<noteq> '''' then Some (g_player_id g) else None),
        gw_domain = g_domain g, gw_objective = g_objective g,
        gw_metric = g_metric g, gw_target = g_target g, gw_context = pc_jsonb pc cx,
        gw_status = g_status g, gw_resolution = map_option (pc_jsonb pc) res,
        gw_created_at = timestamptz (g_created_at g), gw_updated_at = timestamptz (g_updated_at g)\<rparr> = Inr (stored_goal pc g)"
proof -
  obtain cx where cx: "marshal_json (pc_context pc) (g_context g) = Inr cx"
    "unmarshal_json (pc_context pc) (pc_jsonb pc cx) zero_context = Inr (readback pc (pc_context pc) (g_context g))"
    using codec_okD[OF assms(1)] by blast
  show ?thesis
  proof (cases "g_resolution g")
    case None
    show ?thesis
      by (rule that[OF cx(1), of None])
         (use cx None in \<open>auto simp: marshal_resolution_def scan_goal_def stored_goal_def stored_resolution_def\<close>)
  next
    case (Some r)
    have "codec_ok pc (pc_resolution pc) r" using assms(2) Some by (simp add: resolution_ok_def)
    then obtain b where b: "jc_marshal (pc_resolution pc) r = Inr b" "pc_jsonb pc b \<noteq> ''''"
      "jc_unmarshal (pc_resolution pc) (pc_jsonb pc b) = Inr (readback pc (pc_resolution pc) r)"
      by (rule codec_ok_readback)
    show ?thesis
      by (rule that[OF cx(1), of "Some b"])
        (use cx Some b in \<open>auto simp: marshal_resolution_def scan_goal_def marshal_json_def unmarshal_json_def
           stored_goal_def stored_resolution_def\<close>)
  qed
qed

lemma scan_goal_update:
  assumes "scan_goal pc r = Inr g" "resolution_ok pc res"
  obtains rs where "marshal_resolution pc res = Inr rs"
    "scan_goal pc (r\<lparr>gw_status := st, gw_resolution := map_option (pc_jsonb pc) rs, gw_updated_at := timestamptz tm\<rparr>) =
       Inr (g\<lparr>g_status := st, g_resolution := stored_resolution pc res, g_updated_at := timestamptz tm\<rparr>)"
proof (cases res)
  case None
  show ?thesis
    by (rule that[of None])
       (use assms None in \<open>auto simp: marshal_resolution_def stored_resolution_def scan_goal_def Let_def
          split: sum.splits option.splits if_splits\<close>)
next
  case (Some x)
  have "codec_ok pc (pc_resolution pc) x" using assms(2) Some by (simp add: resolution_ok_def)
  then obtain b where b: "jc_marshal (pc_resolution pc) x = Inr b" "pc_jsonb pc b \<noteq> ''''"
    "jc_unmarshal (pc_resolution pc) (pc_jsonb pc b) = Inr (readback pc (pc_resolution pc) x)"
    by (rule codec_ok_readback)
  show ?thesis
    by (rule that[of "Some b"])
       (use assms Some b in \<open>auto simp: marshal_resolution_def stored_resolution_def marshal_json_def unmarshal_json_def
          scan_goal_def Let_def split: sum.splits option.splits if_splits\<close>)
qed

section \<open>The simulation relation\<close>

definition rel_players :: "pg_codec \<Rightarrow> (string \<Rightarrow> player option) \<Rightarrow> player_row list \<Rightarrow> bool" where
  "rel_players pc ps rows \<longleftrightarrow>
     (\<forall>i. query_row (\<lambda>r. pw_id r = i) (scan_player pc) rows = (case ps i of None \<Rightarrow> Inl ENotFound | Some p \<Rightarrow> Inr p) \<and>
          list_ex (\<lambda>r. pw_id r = i) rows = (ps i \<noteq> None))"

definition rel_goals :: "pg_codec \<Rightarrow> (string \<times> goal) list \<Rightarrow> goal_row list \<Rightarrow> bool" where
  "rel_goals pc gs rows \<longleftrightarrow> scans (scan_goal pc) rows (map snd gs)"

definition rel_plans :: "(string \<Rightarrow> plan option) \<Rightarrow> (string \<Rightarrow> string option) \<Rightarrow> plan list \<Rightarrow> bool" where
  "rel_plans ps bg rows \<longleftrightarrow>
     distinct (map p_id rows) \<and> (\<forall>i. List.find (\<lambda>r. p_id r = i) rows = ps i) \<and>
     (\<forall>gid. List.find (\<lambda>r. p_goal_id r = gid) rows = Option.bind (bg gid) ps)"

definition plan_rows :: "(int \<times> plan_version) list option \<Rightarrow> plan_version list" where
  "plan_rows vo = (case vo of None \<Rightarrow> [] | Some vs \<Rightarrow> map snd vs)"

definition rel_versions :: "pg_codec \<Rightarrow> (string \<Rightarrow> (int \<times> plan_version) list option) \<Rightarrow> version_row list \<Rightarrow> bool" where
  "rel_versions pc vm rows \<longleftrightarrow>
     (\<forall>pid. scans (scan_version pc) (filter (\<lambda>r. vw_plan_id r = pid) rows) (plan_rows (vm pid)))"

definition rel_signals :: "pg_codec \<Rightarrow> signal list \<Rightarrow> signal_row list \<Rightarrow> bool" where
  "rel_signals pc ss rows \<longleftrightarrow>
     scans (scan_signal pc) rows ss \<and> distinct (map s_id ss) \<and> list_all (\<lambda>s. s_status s \<noteq> '''') ss"

definition rel_outcomes :: "pg_codec \<Rightarrow> outcome list \<Rightarrow> outcome_row list \<Rightarrow> bool" where
  "rel_outcomes pc os rows \<longleftrightarrow> scans (scan_outcome pc) rows os"

definition pg_rel :: "pg_codec \<Rightarrow> mem_repo \<Rightarrow> pg_db \<Rightarrow> bool" where
  "pg_rel pc m db \<longleftrightarrow>
     repo_ok m \<and> rel_players pc (players m) (pg_players db) \<and> rel_goals pc (goals m) (pg_goals db) \<and>
     rel_plans (plans m) (by_goal m) (pg_plan db) \<and> rel_versions pc (versions m) (pg_versions db) \<and>
     rel_signals pc (signals m) (pg_signals db) \<and> rel_outcomes pc (outcomes m) (pg_outcomes db)"

lemma pg_rel_empty: "pg_rel pc new_memory empty_db"
  using repo_ok_new
  by (simp add: pg_rel_def rel_players_def rel_goals_def rel_plans_def rel_versions_def plan_rows_def
      rel_signals_def rel_outcomes_def scans_def query_row_def map_error_def new_memory_def empty_db_def)

subsection \<open>Goals\<close>

lemma find_goal: "goals_ok gs \<Longrightarrow> List.find (\<lambda>g. g_id g = i) (map snd gs) = map_of gs i"
  by (induction gs) (auto simp: goals_ok_def)

lemma goals_ex:
  "goals_ok gs \<Longrightarrow> list_ex (\<lambda>g. g_id g = i \<and> g_status g = ex) (map snd gs) \<longleftrightarrow>
     (\<exists>g. map_of gs i = Some g \<and> g_status g = ex)"
proof -
  assume ok: "goals_ok gs"
  hence d: "distinct (map fst gs)" by (simp add: goals_ok_def)
  have ids: "(k, g) \<in> set gs \<Longrightarrow> g_id g = k" for k g using ok by (auto simp: goals_ok_def)
  have "(\<exists>x \<in> set gs. g_id (snd x) = i \<and> g_status (snd x) = ex) \<longleftrightarrow> (\<exists>g. (i, g) \<in> set gs \<and> g_status g = ex)"
  proof
    assume "\<exists>x \<in> set gs. g_id (snd x) = i \<and> g_status (snd x) = ex"
    then obtain k g where "(k, g) \<in> set gs" "g_id g = i" "g_status g = ex" by auto
    with ids show "\<exists>g. (i, g) \<in> set gs \<and> g_status g = ex" by metis
  next
    assume "\<exists>g. (i, g) \<in> set gs \<and> g_status g = ex"
    then obtain g where g: "(i, g) \<in> set gs" "g_status g = ex" by blast
    show "\<exists>x \<in> set gs. g_id (snd x) = i \<and> g_status (snd x) = ex"
      by (rule bexI[OF _ g(1)]) (simp add: g(2) ids[OF g(1)])
  qed
  thus ?thesis by (simp add: list_ex_iff map_of_eq_Some_iff[OF d])
qed

lemma goals_new: "map_of gs i = None \<Longrightarrow> map snd (AList.update i g gs) = map snd gs @ [g]"
  by (induction gs) (auto split: if_splits)

lemma goals_upd:
  "goals_ok gs \<Longrightarrow> map_of gs i = Some g \<Longrightarrow>
   map snd (AList.update i (f g) gs) = map (\<lambda>x. if g_id x = i then f x else x) (map snd gs)"
proof (induction gs)
  case (Cons kg gs)
  obtain k x where kg: "kg = (k, x)" by (cases kg)
  from Cons.prems(1) have ok: "goals_ok gs" "g_id x = k" "k \<notin> fst ` set gs" by (auto simp: goals_ok_def kg)
  show ?case
  proof (cases "k = i")
    case True
    have "map (\<lambda>x. if g_id x = i then f x else x) (map snd gs) = map snd gs"
      using Cons.prems(1) True by (intro map_idI) (force simp: goals_ok_def kg)
    with True Cons.prems(2) ok show ?thesis by (simp add: kg)
  next
    case False
    with Cons ok show ?thesis by (simp add: kg)
  qed
qed simp

lemma rel_goals_ex: "rel_goals pc gs rows \<Longrightarrow> goals_ok gs \<Longrightarrow> list_ex (\<lambda>r. gw_id r = i) rows = (map_of gs i \<noteq> None)"
  unfolding rel_goals_def
  by (subst scans_ex[where q = "\<lambda>g. g_id g = i"]) (auto simp: list_ex_find find_goal dest: scan_goal_fields)

lemma sim_create_goal:
  assumes rel: "pg_rel pc m db" and wp: "codec_ok pc (pc_context pc) (g_context g)" "resolution_ok pc (g_resolution g)"
    "g_player_id g = '''' \<or> players m (g_player_id g) \<noteq> None"
  shows "fst (pg_create_goal pc g db) = fst (create_goal (stored_goal pc g) m) \<and>
    pg_rel pc (snd (create_goal (stored_goal pc g) m)) (snd (pg_create_goal pc g db))"
proof -
  from rel have r: "rel_goals pc (goals m) (pg_goals db)" "goals_ok (goals m)"
    "rel_players pc (players m) (pg_players db)" by (simp_all add: pg_rel_def repo_ok_def)
  obtain cx res where c: "marshal_json (pc_context pc) (g_context g) = Inr cx"
    "marshal_resolution pc (g_resolution g) = Inr res"
    and s: "scan_goal pc \<lparr>gw_id = g_id g, gw_player_id = (if g_player_id g \<noteq> '''' then Some (g_player_id g) else None),
        gw_domain = g_domain g, gw_objective = g_objective g,
        gw_metric = g_metric g, gw_target = g_target g, gw_context = pc_jsonb pc cx,
        gw_status = g_status g, gw_resolution = map_option (pc_jsonb pc) res,
        gw_created_at = timestamptz (g_created_at g), gw_updated_at = timestamptz (g_updated_at g)\<rparr> = Inr (stored_goal pc g)"
    using scan_goal_write[OF wp(1,2)] by blast
  have refs: "(case (if g_player_id g \<noteq> '''' then Some (g_player_id g) else None) of None \<Rightarrow> True
      | Some i \<Rightarrow> list_ex (\<lambda>r. pw_id r = i) (pg_players db))"
    using wp(3) r(3) by (auto simp: rel_players_def)
  show ?thesis
  proof (cases "map_of (goals m) (g_id g)")
    case None
    have "rel_goals pc (AList.update (g_id g) (stored_goal pc g) (goals m)) (pg_goals db @
        [\<lparr>gw_id = g_id g, gw_player_id = (if g_player_id g \<noteq> '''' then Some (g_player_id g) else None),
        gw_domain = g_domain g, gw_objective = g_objective g,
        gw_metric = g_metric g, gw_target = g_target g, gw_context = pc_jsonb pc cx,
        gw_status = g_status g, gw_resolution = map_option (pc_jsonb pc) res,
        gw_created_at = timestamptz (g_created_at g), gw_updated_at = timestamptz (g_updated_at g)\<rparr>])"
      using scans_append[of "scan_goal pc" "pg_goals db" "map snd (goals m)", OF _ s] r(1)
      by (simp add: rel_goals_def goals_new[OF None])
    moreover have "repo_ok (snd (create_goal (stored_goal pc g) m))"
      using rel create_goal_ok[of m "stored_goal pc g"] by (metis pg_rel_def prod.collapse)
    ultimately show ?thesis
      using rel refs rel_goals_ex[OF r(1,2), of "g_id g"] None
      by (simp add: create_goal_def pg_create_goal_def c Let_def insert_row_def commit_rows_def pg_rel_def)
  next
    case (Some g')
    thus ?thesis
      using rel rel_goals_ex[OF r(1,2), of "g_id g"]
      by (simp add: create_goal_def pg_create_goal_def c Let_def insert_row_def commit_rows_def map_error_def)
  qed
qed

lemma sim_update_goal:
  assumes rel: "pg_rel pc m db" and wp: "resolution_ok pc res"
  shows "fst (pg_update_goal_status pc i ex st res tm db) = fst (update_goal_status i ex st (stored_resolution pc res) (timestamptz tm) m) \<and>
    pg_rel pc (snd (update_goal_status i ex st (stored_resolution pc res) (timestamptz tm) m)) (snd (pg_update_goal_status pc i ex st res tm db))"
proof -
  from rel have r: "rel_goals pc (goals m) (pg_goals db)" "goals_ok (goals m)" by (simp_all add: pg_rel_def repo_ok_def)
  obtain rs where rs: "marshal_resolution pc res = Inr rs"
    and s: "scan_goal pc r = Inr g \<Longrightarrow>
      scan_goal pc (r\<lparr>gw_status := st, gw_resolution := map_option (pc_jsonb pc) rs, gw_updated_at := timestamptz tm\<rparr>) =
       Inr (g\<lparr>g_status := st, g_resolution := stored_resolution pc res, g_updated_at := timestamptz tm\<rparr>)" for r g
  proof (cases res)
    case None
    show ?thesis
      by (rule that[of None])
        (use None scan_goal_update[OF _ wp, of _ _ tm st] in \<open>auto simp: marshal_resolution_def\<close>)
  next
    case (Some x)
    then obtain b where "marshal_resolution pc res = Inr (Some b)"
      using wp(1) by (auto simp: marshal_resolution_def marshal_json_def resolution_ok_def codec_ok_def)
    thus ?thesis using that[of "Some b"] scan_goal_update[OF _ wp, of _ _ tm st] by (metis sum.inject(2))
  qed
  let ?hit = "\<lambda>r. gw_id r = i \<and> gw_status r = ex"
  have hit: "list_ex ?hit (pg_goals db) = list_ex (\<lambda>g. g_id g = i \<and> g_status g = ex) (map snd (goals m))"
    using r(1) unfolding rel_goals_def by (rule scans_ex) (auto dest: scan_goal_fields)
  have mem: "list_ex (\<lambda>g. g_id g = i \<and> g_status g = ex) (map snd (goals m)) \<longleftrightarrow>
      (\<exists>g. map_of (goals m) i = Some g \<and> g_status g = ex)"
    using r(2) by (rule goals_ex)
  show ?thesis
  proof (cases "\<exists>g. map_of (goals m) i = Some g \<and> g_status g = ex")
    case True
    then obtain g where g: "map_of (goals m) i = Some g" "g_status g = ex" by blast
    let ?f = "\<lambda>x. x\<lparr>g_status := st, g_resolution := stored_resolution pc res, g_updated_at := timestamptz tm\<rparr>"
    have uniq: "g_id x = i \<Longrightarrow> g_status x = ex" if "x \<in> set (map snd (goals m))" for x
    proof -
      assume "g_id x = i"
      with that r(2) have "map_of (goals m) i = Some x" by (auto simp: goals_ok_def)
      with g show ?thesis by simp
    qed
    have sc: "scans (scan_goal pc) (map (\<lambda>r. if ?hit r then r\<lparr>gw_status := st, gw_resolution := map_option (pc_jsonb pc) rs,
          gw_updated_at := timestamptz tm\<rparr> else r) (pg_goals db))
        (map (\<lambda>x. if g_id x = i \<and> g_status x = ex then ?f x else x) (map snd (goals m)))"
      using r(1) unfolding rel_goals_def
      by (rule scans_map) (use s in \<open>auto dest: scan_goal_fields\<close>)
    have eq: "map (\<lambda>x. if g_id x = i \<and> g_status x = ex then ?f x else x) (map snd (goals m)) =
        map (\<lambda>x. if g_id x = i then ?f x else x) (map snd (goals m))"
      using uniq by (intro map_cong) auto
    have "rel_goals pc (AList.update i (?f g) (goals m))
       (map (\<lambda>r. if ?hit r then r\<lparr>gw_status := st, gw_resolution := map_option (pc_jsonb pc) rs,
          gw_updated_at := timestamptz tm\<rparr> else r) (pg_goals db))"
      using sc unfolding rel_goals_def goals_upd[OF r(2) g(1), of ?f] eq .
    moreover have "repo_ok (snd (update_goal_status i ex st (stored_resolution pc res) (timestamptz tm) m))"
      using rel update_goal_status_ok[of m i ex st "stored_resolution pc res" "timestamptz tm"] by (metis pg_rel_def prod.collapse)
    ultimately show ?thesis
      using rel g hit mem by (simp add: update_goal_status_def pg_update_goal_status_def rs Let_def pg_rel_def)
  next
    case False
    thus ?thesis
      using rel hit mem rel_goals_ex[OF r, of i]
      by (auto simp: update_goal_status_def pg_update_goal_status_def rs Let_def split: option.split)
  qed
qed

subsection \<open>Players and plans\<close>

lemma query_append_new:
  assumes "\<not> list_ex p rows"
  shows "query_row p f (rows @ [r]) = (if p r then f r else Inl ENotFound)"
proof -
  have "List.find p rows = None" using assms by (simp add: list_ex_find)
  thus ?thesis by (simp add: query_row_def find_append map_error_def)
qed

lemma query_append_old: "\<not> p r \<Longrightarrow> query_row p f (rows @ [r]) = query_row p f rows"
  by (simp add: query_row_def find_append split: option.split)

lemma sim_create_player:
  assumes rel: "pg_rel pc m db" and wp: "codec_ok pc (pc_metadata pc) (pl_metadata p)"
  shows "fst (pg_create_player pc p db) = fst (create_player (stored_player pc p) m) \<and>
    pg_rel pc (snd (create_player (stored_player pc p) m)) (snd (pg_create_player pc p db))"
proof -
  from rel have r: "rel_players pc (players m) (pg_players db)" by (simp add: pg_rel_def)
  obtain md where md: "marshal_json (pc_metadata pc) (pl_metadata p) = Inr md"
    "unmarshal_json (pc_metadata pc) (pc_jsonb pc md) [] = Inr (readback pc (pc_metadata pc) (pl_metadata p))"
    using codec_okD[OF wp] by blast
  let ?row = "\<lparr>pw_id = pl_id p, pw_kind = pl_kind p, pw_name = pl_name p, pw_metadata = pc_jsonb pc md,
               pw_created_at = timestamptz (pl_created_at p)\<rparr>"
  have scan: "scan_player pc ?row = Inr (stored_player pc p)" by (simp add: scan_player_def stored_player_def md)
  have ex: "list_ex (\<lambda>r. pw_id r = i) (pg_players db) = (players m i \<noteq> None)" for i
    using r by (simp add: rel_players_def)
  show ?thesis
  proof (cases "players m (pl_id p)")
    case None
    have "rel_players pc ((players m)(pl_id p \<mapsto> stored_player pc p)) (pg_players db @ [?row])"
      unfolding rel_players_def
    proof (intro allI conjI)
      fix i
      show "query_row (\<lambda>r. pw_id r = i) (scan_player pc) (pg_players db @ [?row]) =
          (case ((players m)(pl_id p \<mapsto> stored_player pc p)) i of None \<Rightarrow> Inl ENotFound | Some p \<Rightarrow> Inr p)"
      proof (cases "i = pl_id p")
        case True
        with None ex[of i] have "\<not> list_ex (\<lambda>r. pw_id r = i) (pg_players db)" by simp
        from query_append_new[OF this, of "scan_player pc" ?row] True scan show ?thesis by simp
      next
        case False
        hence "\<not> pw_id ?row = i" by simp
        from query_append_old[where p = "\<lambda>r. pw_id r = i" and f = "scan_player pc" and rows = "pg_players db", OF this] False r show ?thesis
          by (simp add: rel_players_def)
      qed
      show "list_ex (\<lambda>r. pw_id r = i) (pg_players db @ [?row]) = (((players m)(pl_id p \<mapsto> stored_player pc p)) i \<noteq> None)"
        using ex by auto
    qed
    moreover have "repo_ok (snd (create_player (stored_player pc p) m))"
      using rel create_player_ok[of m "stored_player pc p"] by (metis pg_rel_def prod.collapse)
    ultimately show ?thesis
      using rel None ex[of "pl_id p"]
      by (simp add: create_player_def pg_create_player_def md insert_row_def commit_rows_def pg_rel_def)
  next
    case (Some q)
    thus ?thesis
      using rel ex[of "pl_id p"]
      by (simp add: create_player_def pg_create_player_def md insert_row_def commit_rows_def map_error_def)
  qed
qed

lemma rel_plans_ids: "rel_plans ps bg rows \<Longrightarrow> list_ex (\<lambda>r. p_id r = i) rows = (ps i \<noteq> None)"
  by (simp add: rel_plans_def list_ex_find)

lemma sim_create_plan:
  assumes rel: "pg_rel pc m db"
    and wp: "p_current_version p = 0" "map_of (goals m) (p_goal_id p) \<noteq> None" "by_goal m (p_goal_id p) = None"
  shows "fst (pg_create_plan pc p db) = fst (create_plan (stored_plan p) m) \<and>
    pg_rel pc (snd (create_plan (stored_plan p) m)) (snd (pg_create_plan pc p db))"
proof -
  from rel have r: "rel_plans (plans m) (by_goal m) (pg_plan db)" "repo_ok m" "rel_goals pc (goals m) (pg_goals db)"
    "rel_versions pc (versions m) (pg_versions db)"
    by (simp_all add: pg_rel_def)
  have gs: "goals_ok (goals m)" using r(2) by (simp add: repo_ok_def)
  have goal: "list_ex (\<lambda>r. gw_id r = p_goal_id p) (pg_goals db)"
    using rel_goals_ex[OF r(3) gs, of "p_goal_id p"] wp(2) by simp
  have nog: "List.find (\<lambda>r. p_goal_id r = p_goal_id p) (pg_plan db) = None"
    using r(1) wp(3) by (simp add: rel_plans_def)
  have clash: "list_ex (\<lambda>r. p_id r = p_id p \<or> p_goal_id r = p_goal_id p) (pg_plan db) = (plans m (p_id p) \<noteq> None)"
  proof -
    have "list_ex (\<lambda>r. p_id r = p_id p \<or> p_goal_id r = p_goal_id p) (pg_plan db) =
        (list_ex (\<lambda>r. p_id r = p_id p) (pg_plan db) \<or> list_ex (\<lambda>r. p_goal_id r = p_goal_id p) (pg_plan db))"
      by (auto simp: list_ex_iff)
    thus ?thesis using rel_plans_ids[OF r(1)] nog by (simp add: list_ex_find)
  qed
  have int4: "int4_args pc [p_current_version p] = None" by (simp add: wp(1) int4_ok_def)
  have row: "p\<lparr>p_created_at := timestamptz (p_created_at p), p_updated_at := timestamptz (p_updated_at p)\<rparr> = stored_plan p"
    by (simp add: stored_plan_def)
  show ?thesis
  proof (cases "plans m (p_id p)")
    case None
    have v: "versions m (p_id p) = None" using repo_ok_row[OF r(2), of "p_id p"] None by (simp add: plan_row_ok_def)
    have bg: "by_goal m gid \<noteq> Some (p_id p)" for gid
      using r(2) None unfolding repo_ok_def by_goal_ok_def by (metis option.distinct(1))
    have "rel_plans ((plans m)(p_id p \<mapsto> stored_plan p)) ((by_goal m)(p_goal_id p \<mapsto> p_id p)) (pg_plan db @ [stored_plan p])"
      unfolding rel_plans_def
    proof (intro conjI allI)
      have "p_id p \<notin> p_id ` set (pg_plan db)"
        using rel_plans_ids[OF r(1), of "p_id p"] None by (auto simp: list_ex_iff)
      thus "distinct (map p_id (pg_plan db @ [stored_plan p]))" using r(1) by (simp add: rel_plans_def)
      fix i
      show "List.find (\<lambda>r. p_id r = i) (pg_plan db @ [stored_plan p]) = ((plans m)(p_id p \<mapsto> stored_plan p)) i"
        using r(1) None by (auto simp: rel_plans_def find_append split: option.split)
      fix gid
      show "List.find (\<lambda>r. p_goal_id r = gid) (pg_plan db @ [stored_plan p]) =
          Option.bind (((by_goal m)(p_goal_id p \<mapsto> p_id p)) gid) ((plans m)(p_id p \<mapsto> stored_plan p))"
      proof (cases "gid = p_goal_id p")
        case True
        thus ?thesis using nog by (simp add: find_append)
      next
        case False
        have "Option.bind (by_goal m gid) ((plans m)(p_id p \<mapsto> stored_plan p)) = Option.bind (by_goal m gid) (plans m)"
          using bg[of gid] by (cases "by_goal m gid") auto
        with False r(1) show ?thesis by (simp add: rel_plans_def find_append split: option.split)
      qed
    qed
    moreover have "rel_versions pc ((versions m)(p_id p \<mapsto> [])) (pg_versions db)"
      unfolding rel_versions_def
    proof
      fix pid
      have "plan_rows (((versions m)(p_id p \<mapsto> [])) pid) = plan_rows (versions m pid)" by (simp add: plan_rows_def v)
      thus "scans (scan_version pc) (filter (\<lambda>r. vw_plan_id r = pid) (pg_versions db))
          (plan_rows (((versions m)(p_id p \<mapsto> [])) pid))"
        using r(4) by (simp only: rel_versions_def)
    qed
    moreover have "repo_ok (snd (create_plan (stored_plan p) m))"
      using r(2) wp(1) create_plan_ok[of m "stored_plan p"] by (metis prod.collapse stored_fields(6))
    moreover have "create_plan (stored_plan p) m = (None, m\<lparr>plans := (plans m)(p_id p \<mapsto> stored_plan p),
        by_goal := (by_goal m)(p_goal_id p \<mapsto> p_id p), versions := (versions m)(p_id p \<mapsto> [])\<rparr>)"
      by (simp add: create_plan_def None v Let_def)
    moreover have "pg_create_plan pc p db = (None, db\<lparr>pg_plan := pg_plan db @ [stored_plan p]\<rparr>)"
      unfolding pg_create_plan_def int4 row insert_row_def clash using None goal by (simp add: commit_rows_def)
    ultimately show ?thesis using rel by (simp add: pg_rel_def)
  next
    case (Some q)
    thus ?thesis
      using rel clash
      by (simp add: create_plan_def pg_create_plan_def wp(1) int4_ok_def insert_row_def commit_rows_def map_error_def)
  qed
qed

lemma versions_new: "map_of vs n = None \<Longrightarrow> map snd (AList.update n v vs) = map snd vs @ [v]"
  by (rule goals_new)

lemma sim_create_version:
  assumes rel: "pg_rel pc m db"
    and wp: "codec_ok pc (pc_moves pc) (v_ranked_moves v)" "codec_ok pc (pc_provenance pc) (v_provenance v)"
      "int4_ok (v_version v)"
  shows "fst (pg_create_plan_version pc joined v db) = fst (create_plan_version (stored_version pc v) m) \<and>
    pg_rel pc (snd (create_plan_version (stored_version pc v) m)) (snd (pg_create_plan_version pc joined v db))"
proof -
  let ?pid = "v_plan_id v"
  from rel have r: "rel_plans (plans m) (by_goal m) (pg_plan db)" "repo_ok m"
    "rel_versions pc (versions m) (pg_versions db)" by (simp_all add: pg_rel_def)
  obtain mv where mv: "marshal_json (pc_moves pc) (v_ranked_moves v) = Inr mv"
    "unmarshal_json (pc_moves pc) (pc_jsonb pc mv) [] = Inr (readback pc (pc_moves pc) (v_ranked_moves v))"
    using codec_okD[OF wp(1)] by blast
  obtain pv where pv: "marshal_json (pc_provenance pc) (v_provenance v) = Inr pv"
    "unmarshal_json (pc_provenance pc) (pc_jsonb pc pv) zero_provenance = Inr (readback pc (pc_provenance pc) (v_provenance v))"
    using codec_okD[OF wp(2)] by blast
  let ?row = "\<lparr>vw_plan_id = v_plan_id v, vw_version = v_version v, vw_goal = v_goal v,
                         vw_summary = v_summary v, vw_ranked_moves = pc_jsonb pc mv,
                         vw_provenance = pc_jsonb pc pv, vw_input_snapshot_id = v_input_snapshot_id v,
                         vw_created_at = timestamptz (v_created_at v)\<rparr>"
  have scan: "scan_version pc ?row = Inr (stored_version pc v)"
    by (simp add: scan_version_def stored_version_def mv pv)
  have int4: "int4_args pc [v_version v] = None" by (simp add: wp(3))
  have ids: "list_ex (\<lambda>r. p_id r = ?pid) (pg_plan db) = (plans m ?pid \<noteq> None)" by (rule rel_plans_ids[OF r(1)])
  have clash: "list_ex (\<lambda>r. vw_plan_id r = ?pid \<and> vw_version r = v_version v) (pg_versions db) =
      list_ex (\<lambda>w. v_version w = v_version v) (plan_rows (versions m ?pid))"
  proof -
    have "list_ex (\<lambda>r. vw_plan_id r = ?pid \<and> vw_version r = v_version v) (pg_versions db) =
        list_ex (\<lambda>r. vw_version r = v_version v) (filter (\<lambda>r. vw_plan_id r = ?pid) (pg_versions db))"
      by (auto simp: list_ex_iff)
    also have "\<dots> = list_ex (\<lambda>w. v_version w = v_version v) (plan_rows (versions m ?pid))"
      by (rule scans_ex[where f = "scan_version pc"]) (use r(3) in \<open>auto simp: rel_versions_def dest: scan_version_fields\<close>)
    finally show ?thesis .
  qed
  show ?thesis
  proof (cases "plans m ?pid")
    case None
    hence "versions m ?pid = None" using repo_ok_row[OF r(2), of ?pid] by (simp add: plan_row_ok_def)
    with None clash ids rel show ?thesis
      by (simp add: create_plan_version_def pg_create_plan_version_def mv pv int4 wp(3) insert_row_def in_tx_def
          plan_rows_def map_error_def)
  next
    case (Some p)
    then obtain vs where vs: "versions m ?pid = Some vs" "rows_ok ?pid p vs" "p_id p = ?pid"
      using repo_ok_row[OF r(2), of ?pid] by (auto simp: plan_row_ok_def split: option.splits)
    have cl: "list_ex (\<lambda>w. v_version w = v_version v) (plan_rows (versions m ?pid)) = (map_of vs (v_version v) \<noteq> None)"
      using vs(2) by (force simp: plan_rows_def vs(1) list_ex_iff rows_ok_def map_of_eq_None_iff)
    show ?thesis
    proof (cases "map_of vs (v_version v)")
      case (Some w)
      with \<open>plans m ?pid = Some p\<close> vs clash cl rel show ?thesis
        by (simp add: create_plan_version_def pg_create_plan_version_def mv pv int4 wp(3) insert_row_def in_tx_def
            map_error_def Let_def)
    next
      case None
      let ?p = "if p_current_version p < v_version v
        then p\<lparr>p_current_version := v_version v, p_updated_at := timestamptz (v_created_at v)\<rparr> else p"
      let ?f = "\<lambda>r. if p_id r = ?pid \<and> p_current_version r < v_version v
        then r\<lparr>p_current_version := v_version v, p_updated_at := timestamptz (v_created_at v)\<rparr> else r"
      have plans': "rel_plans ((plans m)(?pid \<mapsto> ?p)) (by_goal m) (map ?f (pg_plan db))"
        unfolding rel_plans_def
      proof (intro conjI allI)
        have ids': "map p_id (map ?f (pg_plan db)) = map p_id (pg_plan db)" by simp
        show "distinct (map p_id (map ?f (pg_plan db)))"
          unfolding ids' using r(1) by (simp add: rel_plans_def)
        fix i
        have "List.find (\<lambda>r. p_id r = i) (map ?f (pg_plan db)) = map_option ?f (plans m i)"
          using r(1) by (subst find_map) (auto simp: rel_plans_def)
        moreover have "map_option ?f (plans m i) = ((plans m)(?pid \<mapsto> ?p)) i"
        proof (cases "i = ?pid")
          case True
          thus ?thesis using \<open>plans m ?pid = Some p\<close> vs(3) by simp
        next
          case False
          thus ?thesis
            using repo_ok_row[OF r(2), of i] by (cases "plans m i") (auto simp: plan_row_ok_def)
        qed
        ultimately show "List.find (\<lambda>r. p_id r = i) (map ?f (pg_plan db)) = ((plans m)(?pid \<mapsto> ?p)) i" by simp
        fix gid
        have "List.find (\<lambda>r. p_goal_id r = gid) (map ?f (pg_plan db)) =
            map_option ?f (Option.bind (by_goal m gid) (plans m))"
          using r(1) by (subst find_map) (auto simp: rel_plans_def)
        also have "\<dots> = Option.bind (by_goal m gid) (\<lambda>i. map_option ?f (plans m i))"
          by (cases "by_goal m gid") auto
        also have "(\<lambda>i. map_option ?f (plans m i)) = (plans m)(?pid \<mapsto> ?p)"
        proof
          fix i
          show "map_option ?f (plans m i) = ((plans m)(?pid \<mapsto> ?p)) i"
          proof (cases "i = ?pid")
            case True
            thus ?thesis using \<open>plans m ?pid = Some p\<close> vs(3) by simp
          next
            case False
            thus ?thesis
              using repo_ok_row[OF r(2), of i] by (cases "plans m i") (auto simp: plan_row_ok_def)
          qed
        qed
        finally show "List.find (\<lambda>r. p_goal_id r = gid) (map ?f (pg_plan db)) =
            Option.bind (by_goal m gid) ((plans m)(?pid \<mapsto> ?p))" .
      qed
      have vers': "rel_versions pc ((versions m)(?pid \<mapsto> AList.update (v_version v) (stored_version pc v) vs)) (pg_versions db @ [?row])"
        unfolding rel_versions_def
      proof
        fix pid
        show "scans (scan_version pc) (filter (\<lambda>r. vw_plan_id r = pid) (pg_versions db @ [?row]))
            (plan_rows (((versions m)(?pid \<mapsto> AList.update (v_version v) (stored_version pc v) vs)) pid))"
        proof (cases "pid = ?pid")
          case True
          have "scans (scan_version pc) (filter (\<lambda>r. vw_plan_id r = ?pid) (pg_versions db) @ [?row]) (map snd vs @ [stored_version pc v])"
            by (rule scans_append[where f = "scan_version pc" and r = ?row, OF _ scan]) (use r(3) vs(1) in \<open>auto simp: rel_versions_def plan_rows_def dest: spec[of _ ?pid]\<close>)
          with True show ?thesis by (simp add: plan_rows_def versions_new[OF None])
        next
          case False
          with r(3) show ?thesis by (simp add: rel_versions_def)
        qed
      qed
      have "repo_ok (snd (create_plan_version (stored_version pc v) m))"
        using r(2) create_plan_version_ok[of m "stored_version pc v"] by (metis prod.collapse)
      moreover have "(plans m)(?pid \<mapsto> ?p) = plans (snd (create_plan_version (stored_version pc v) m))"
        using \<open>plans m ?pid = Some p\<close> vs(1) None by (auto simp: create_plan_version_def Let_def)
      moreover have "by_goal (snd (create_plan_version (stored_version pc v) m)) = by_goal m \<and>
          versions (snd (create_plan_version (stored_version pc v) m)) = (versions m)(?pid \<mapsto> AList.update (v_version v) (stored_version pc v) vs) \<and>
          goals (snd (create_plan_version (stored_version pc v) m)) = goals m \<and> players (snd (create_plan_version (stored_version pc v) m)) = players m \<and>
          signals (snd (create_plan_version (stored_version pc v) m)) = signals m \<and> outcomes (snd (create_plan_version (stored_version pc v) m)) = outcomes m \<and>
          fst (create_plan_version (stored_version pc v) m) = None"
        using \<open>plans m ?pid = Some p\<close> vs(1) None by (auto simp: create_plan_version_def Let_def)
      moreover have "pg_create_plan_version pc joined v db =
          (None, db\<lparr>pg_versions := pg_versions db @ [?row], pg_plan := map ?f (pg_plan db)\<rparr>)"
        using clash cl None ids \<open>plans m ?pid = Some p\<close>
        by (simp add: pg_create_plan_version_def mv pv int4 wp(3) insert_row_def in_tx_def)
      ultimately show ?thesis using rel plans' vers' by (simp add: pg_rel_def)
    qed
  qed
qed

subsection \<open>Signals and outcomes\<close>

lemma update_first:
  assumes "distinct (map ident xs)" "find_idx (\<lambda>x. ident x = i) xs = Some k"
  shows "xs[k := f (xs ! k)] = map (\<lambda>x. if ident x = i then f x else x) xs"
proof (rule nth_equalityI)
  from find_idx_SomeD[OF assms(2)] have k: "k < length xs" "ident (xs ! k) = i" by auto
  fix j assume j: "j < length (xs[k := f (xs ! k)])"
  have "ident (xs ! j) = i \<Longrightarrow> j = k"
    using assms(1) j k by (auto simp: distinct_conv_nth)
  thus "xs[k := f (xs ! k)] ! j = map (\<lambda>x. if ident x = i then f x else x) xs ! j"
    using j k by (auto simp: nth_list_update)
qed simp

lemma sim_create_signal:
  assumes rel: "pg_rel pc m db"
    and wp: "codec_ok pc (pc_payload pc) (s_payload s)" "map_of (goals m) (s_goal_id s) \<noteq> None"
      "s_id s \<notin> s_id ` set (signals m)"
      "s_status s = ''pending''" "s_reason s = ''''" "s_result_version s = 0" "s_error s = ''''" "s_processed_at s = None"
  shows "fst (pg_create_signal pc s db) = fst (create_signal (stored_signal pc s) m) \<and>
    pg_rel pc (snd (create_signal (stored_signal pc s) m)) (snd (pg_create_signal pc s db))"
proof -
  from rel have r: "rel_signals pc (signals m) (pg_signals db)" "rel_goals pc (goals m) (pg_goals db)"
    "goals_ok (goals m)" by (simp_all add: pg_rel_def repo_ok_def)
  obtain b where b: "marshal_json (pc_payload pc) (s_payload s) = Inr b"
    "unmarshal_json (pc_payload pc) (pc_jsonb pc b) [] = Inr (readback pc (pc_payload pc) (s_payload s))"
    using codec_okD[OF wp(1)] by blast
  let ?row = "\<lparr>gs_id = s_id s, gs_goal_id = s_goal_id s, gs_kind = s_kind s, gs_description = s_description s,
               gs_payload = pc_jsonb pc b, gs_created_at = timestamptz (s_created_at s),
               gs_status = ''pending'', gs_reason = '''', gs_result_version = 0, gs_error = '''',
               gs_processed_at = None\<rparr>"
  have scan: "scan_signal pc ?row = Inr (stored_signal pc s)"
    using wp(4-8) by (simp add: scan_signal_def stored_signal_def b)
  have "list_ex (\<lambda>r. gs_id r = s_id s) (pg_signals db) = list_ex (\<lambda>x. s_id x = s_id s) (signals m)"
    by (rule scans_ex[where f = "scan_signal pc"]) (use r(1) in \<open>auto simp: rel_signals_def dest: scan_signal_fields\<close>)
  moreover have "\<not> list_ex (\<lambda>x. s_id x = s_id s) (signals m)"
    using wp(3) unfolding list_ex_iff by (metis image_eqI)
  ultimately have clash: "\<not> list_ex (\<lambda>r. gs_id r = s_id s) (pg_signals db)" by simp
  have goal: "list_ex (\<lambda>r. gw_id r = s_goal_id s) (pg_goals db)"
    using rel_goals_ex[OF r(2,3), of "s_goal_id s"] wp(2) by simp
  have "scans (scan_signal pc) (pg_signals db @ [?row]) (signals m @ [stored_signal pc s])"
    by (rule scans_append[where f = "scan_signal pc" and r = ?row, OF _ scan]) (use r(1) in \<open>simp add: rel_signals_def\<close>)
  moreover have "distinct (map s_id (signals m @ [stored_signal pc s]))"
    using r(1) wp(3) by (simp add: rel_signals_def)
  ultimately have "rel_signals pc (signals m @ [stored_signal pc s]) (pg_signals db @ [?row])"
    using r(1) wp(4) by (simp add: rel_signals_def)
  moreover have "repo_ok (snd (create_signal (stored_signal pc s) m))"
    using rel create_signal_ok[of m "stored_signal pc s"] by (metis pg_rel_def prod.collapse)
  moreover have "pg_create_signal pc s db = (None, db\<lparr>pg_signals := pg_signals db @ [?row]\<rparr>)"
    using clash goal by (simp add: pg_create_signal_def b insert_row_def commit_rows_def)
  ultimately show ?thesis using rel by (simp add: create_signal_def pg_rel_def)
qed

lemma sim_mark_signal:
  assumes rel: "pg_rel pc m db" and wp: "int4_ok n" "st \<noteq> ''''"
  shows "fst (pg_mark_signal_processed pc i st n rs em tm db) = fst (mark_signal_processed i st n rs em (timestamptz tm) m) \<and>
    pg_rel pc (snd (mark_signal_processed i st n rs em (timestamptz tm) m)) (snd (pg_mark_signal_processed pc i st n rs em tm db))"
proof -
  from rel have r: "rel_signals pc (signals m) (pg_signals db)" by (simp add: pg_rel_def)
  let ?f = "\<lambda>s. s\<lparr>s_status := st, s_result_version := n, s_reason := rs, s_error := em, s_processed_at := Some (timestamptz tm)\<rparr>"
  let ?g = "\<lambda>r. r\<lparr>gs_status := st, gs_result_version := n, gs_reason := rs, gs_error := em,
     gs_processed_at := Some (timestamptz tm)\<rparr>"
  have ex: "list_ex (\<lambda>r. gs_id r = i) (pg_signals db) = list_ex (\<lambda>x. s_id x = i) (signals m)"
    by (rule scans_ex[where f = "scan_signal pc"]) (use r in \<open>auto simp: rel_signals_def dest: scan_signal_fields\<close>)
  show ?thesis
  proof (cases "find_idx (\<lambda>s. s_id s = i) (signals m)")
    case None
    hence "\<not> list_ex (\<lambda>x. s_id x = i) (signals m)" by (simp add: find_idx_NoneD list_ex_iff)
    with None ex rel wp(1) show ?thesis by (simp add: mark_signal_processed_def pg_mark_signal_processed_def)
  next
    case (Some k)
    hence present: "list_ex (\<lambda>x. s_id x = i) (signals m)"
      using find_idx_SomeD[OF Some] by (auto simp: list_ex_iff)
    have d: "distinct (map s_id (signals m))" using r by (simp add: rel_signals_def)
    have upd: "(signals m)[k := ?f (signals m ! k)] = map (\<lambda>x. if s_id x = i then ?f x else x) (signals m)"
      by (rule update_first[OF d Some])
    have "scans (scan_signal pc) (map (\<lambda>r. if gs_id r = i then ?g r else r) (pg_signals db))
        (map (\<lambda>x. if s_id x = i then ?f x else x) (signals m))"
      by (rule scans_map[where f = "scan_signal pc"])
         (use r in \<open>auto simp: rel_signals_def scan_signal_def split: sum.splits\<close>)
    moreover have "map s_id (map (\<lambda>x. if s_id x = i then ?f x else x) (signals m)) = map s_id (signals m)"
      by simp
    hence "distinct (map s_id (map (\<lambda>x. if s_id x = i then ?f x else x) (signals m)))" using d by (simp only:)
    moreover have "list_all (\<lambda>s. s_status s \<noteq> '''') (map (\<lambda>x. if s_id x = i then ?f x else x) (signals m))"
      using r wp(2) by (auto simp: rel_signals_def list_all_iff)
    ultimately have "rel_signals pc ((signals m)[k := ?f (signals m ! k)])
        (map (\<lambda>r. if gs_id r = i then ?g r else r) (pg_signals db))"
      unfolding rel_signals_def upd by (intro conjI)
    moreover have "repo_ok (snd (mark_signal_processed i st n rs em (timestamptz tm) m))"
      using rel mark_signal_processed_ok[of m i st n rs em "timestamptz tm"] by (metis pg_rel_def prod.collapse)
    moreover have "mark_signal_processed i st n rs em (timestamptz tm) m = (None, m\<lparr>signals := (signals m)[k := ?f (signals m ! k)]\<rparr>)"
      by (simp add: mark_signal_processed_def Some)
    moreover have "pg_mark_signal_processed pc i st n rs em tm db =
        (None, db\<lparr>pg_signals := map (\<lambda>r. if gs_id r = i then ?g r else r) (pg_signals db)\<rparr>)"
      using ex present wp(1) by (simp add: pg_mark_signal_processed_def)
    ultimately show ?thesis using rel by (simp add: pg_rel_def)
  qed
qed

lemma sim_create_outcome:
  assumes rel: "pg_rel pc m db"
    and wp: "codec_ok pc (pc_observed pc) (o_observed_signals x)"
      "map_of (goals m) (o_goal_id x) \<noteq> None" "o_id x \<notin> o_id ` set (outcomes m)"
      "int4_ok (o_plan_version x)" "int4_ok (o_move_rank x)"
  shows "fst (pg_create_outcome pc x db) = fst (create_outcome (stored_outcome pc x) m) \<and>
    pg_rel pc (snd (create_outcome (stored_outcome pc x) m)) (snd (pg_create_outcome pc x db))"
proof -
  from rel have r: "rel_outcomes pc (outcomes m) (pg_outcomes db)" "rel_goals pc (goals m) (pg_goals db)"
    "goals_ok (goals m)" by (simp_all add: pg_rel_def repo_ok_def)
  obtain b where b: "marshal_json (pc_observed pc) (o_observed_signals x) = Inr b"
    "unmarshal_json (pc_observed pc) (pc_jsonb pc b) [] = Inr (readback pc (pc_observed pc) (o_observed_signals x))"
    using codec_okD[OF wp(1)] by blast
  let ?row = "\<lparr>ow_id = o_id x, ow_goal_id = o_goal_id x, ow_plan_version = o_plan_version x,
               ow_move_rank = o_move_rank x, ow_move_title = o_move_title x, ow_result = o_result x,
               ow_observed_signals = pc_jsonb pc b, ow_notes = o_notes x,
               ow_created_at = timestamptz (o_created_at x)\<rparr>"
  have scan: "scan_outcome pc ?row = Inr (stored_outcome pc x)" by (simp add: scan_outcome_def stored_outcome_def b)
  have "list_ex (\<lambda>r. ow_id r = o_id x) (pg_outcomes db) = list_ex (\<lambda>y. o_id y = o_id x) (outcomes m)"
    by (rule scans_ex[where f = "scan_outcome pc"]) (use r(1) in \<open>auto simp: rel_outcomes_def dest: scan_outcome_fields\<close>)
  moreover have "\<not> list_ex (\<lambda>y. o_id y = o_id x) (outcomes m)"
    using wp(3) unfolding list_ex_iff by (metis image_eqI)
  ultimately have clash: "\<not> list_ex (\<lambda>r. ow_id r = o_id x) (pg_outcomes db)" by simp
  have goal: "list_ex (\<lambda>r. gw_id r = o_goal_id x) (pg_goals db)"
    using rel_goals_ex[OF r(2,3), of "o_goal_id x"] wp(2) by simp
  have "scans (scan_outcome pc) (pg_outcomes db @ [?row]) (outcomes m @ [stored_outcome pc x])"
    by (rule scans_append[where f = "scan_outcome pc" and r = ?row, OF _ scan]) (use r(1) in \<open>simp add: rel_outcomes_def\<close>)
  hence "rel_outcomes pc (outcomes m @ [stored_outcome pc x]) (pg_outcomes db @ [?row])" by (simp add: rel_outcomes_def)
  moreover have "repo_ok (snd (create_outcome (stored_outcome pc x) m))"
    using rel create_outcome_ok[of m "stored_outcome pc x"] by (metis pg_rel_def prod.collapse)
  moreover have "pg_create_outcome pc x db = (None, db\<lparr>pg_outcomes := pg_outcomes db @ [?row]\<rparr>)"
    using clash goal wp(4,5) by (simp add: pg_create_outcome_def b insert_row_def commit_rows_def)
  ultimately show ?thesis using rel by (simp add: create_outcome_def pg_rel_def)
qed

subsection \<open>Reads\<close>

lemma sql_page_paginate: "sql_page (page_normalize pg) xs = paginate xs (page_normalize pg)"
  by (simp add: paginate_normal sql_page_def)

lemma newest_first_order:
  "\<not> newest_first c i b a \<Longrightarrow> \<not> newest_first c i d b \<Longrightarrow> \<not> newest_first c i d a"
  "newest_first c i a b \<Longrightarrow> \<not> newest_first c i b a"
proof -
  show "\<not> newest_first c i b a \<Longrightarrow> \<not> newest_first c i d b \<Longrightarrow> \<not> newest_first c i d a"
    using str_less_total[of "i a" "i b"] str_less_total[of "i b" "i d"]
      str_less_trans[of "i a" "i b" "i d"] str_less_asym[of "i d" "i a"]
    by (cases "i a = i b"; cases "i b = i d") (auto simp: newest_first_def split: if_splits)
  show "newest_first c i a b \<Longrightarrow> \<not> newest_first c i b a"
    using str_less_asym[of "i a" "i b"] by (auto simp: newest_first_def split: if_splits)
qed

text \<open>What was appended in the order of its times lists backwards.\<close>

lemma sort_newest:
  assumes "sorted_wrt (\<lambda>a b. created a < created b) xs"
  shows "sort_by (newest_first created ident) xs = rev xs"
proof (rule sorted_unique[where lt = "newest_first created ident"])
  have d: "x = y" if "x \<in> set xs" "y \<in> set xs" "created x = created y" for x y
    using assms that
  proof (induction xs)
    case (Cons z zs)
    thus ?case by (metis order_less_irrefl set_ConsD sorted_wrt.simps(2))
  qed simp
  show "newest_first created ident x y \<or> newest_first created ident y x"
    if "x \<in> set (sort_by (newest_first created ident) xs)" "y \<in> set (sort_by (newest_first created ident) xs)" "x \<noteq> y" for x y
    using that d[of x y] by (auto simp: newest_first_def)
  show "sorted_wrt (\<lambda>x y. \<not> newest_first created ident y x) (sort_by (newest_first created ident) xs)"
    by (rule sorted_sort_by, erule (1) newest_first_order(1), erule newest_first_order(2))
  show "sorted_wrt (\<lambda>x y. \<not> newest_first created ident y x) (rev xs)"
    unfolding sorted_wrt_rev
    by (rule sorted_wrt_mono_rel[OF _ assms]) (auto simp: newest_first_def)
qed simp

lemma sort_oldest:
  fixes created :: "'r \<Rightarrow> time"
  assumes "sorted_wrt (\<lambda>a b. created a < created b) xs"
  shows "sort_by (\<lambda>a b. if created a = created b then str_less (ident a) (ident b) else created a < created b) xs = xs"
    (is "sort_by ?lt xs = xs")
proof -
  have "insert_by ?lt x ys = x # ys" if "list_all (\<lambda>y. created x < created y) ys" for x ys
    using that by (cases ys) auto
  with assms show ?thesis by (induction xs) (auto simp: list_all_iff)
qed

lemma read_goal:
  assumes "pg_rel pc m db"
  shows "pg_get_goal pc i db = get_goal i m" "pg_list_goals pc want pg db = Inr (list_goals want pg m)"
proof -
  from assms have r: "rel_goals pc (goals m) (pg_goals db)" "goals_ok (goals m)" by (simp_all add: pg_rel_def repo_ok_def)
  show "pg_get_goal pc i db = get_goal i m"
    unfolding pg_get_goal_def get_goal_def
    by (subst scans_find[where q = "\<lambda>g. g_id g = i", OF r(1)[unfolded rel_goals_def]])
       (auto simp: find_goal[OF r(2)] dest: scan_goal_fields split: option.splits)
  have "scans (scan_goal pc) (filter (\<lambda>r. want = '''' \<or> row_status r = want) (pg_goals db))
      (filter (\<lambda>g. goal_matches_status g want) (map snd (goals m)))"
    by (rule scans_filter[OF r(1)[unfolded rel_goals_def]])
       (auto simp: goal_matches_status_def row_status_def GoalActive_def dest: scan_goal_fields)
  hence "scans (scan_goal pc) (sort_by (newest_first gw_created_at gw_id)
        (filter (\<lambda>r. want = '''' \<or> row_status r = want) (pg_goals db)))
      (sort_by goal_before (filter (\<lambda>g. goal_matches_status g want) (map snd (goals m))))"
    by (rule scans_sort) (auto simp: goal_before_def newest_first_def dest!: scan_goal_fields)
  moreover have "filter (\<lambda>g. goal_matches_status g want) (map snd (goals m)) =
      map snd (filter (\<lambda>(k, g). goal_matches_status g want) (goals m))"
    by (simp add: filter_map comp_def case_prod_unfold)
  ultimately have "scans (scan_goal pc) (sort_by (newest_first gw_created_at gw_id)
        (filter (\<lambda>r. want = '''' \<or> row_status r = want) (pg_goals db))) (goal_rows want m)"
    by (simp add: goal_rows_def)
  from scan_rows_Inr[OF scans_page[OF this, of "page_normalize pg"]]
  show "pg_list_goals pc want pg db = Inr (list_goals want pg m)"
    by (simp add: pg_list_goals_def list_goals_rows sql_page_paginate)
qed

lemma read_plan:
  assumes "pg_rel pc m db"
  shows "pg_get_plan i db = get_plan i m" "pg_get_plan_by_goal gid db = get_plan_by_goal gid m"
proof -
  from assms have r: "rel_plans (plans m) (by_goal m) (pg_plan db)" "by_goal_ok (plans m) (by_goal m)"
    by (simp_all add: pg_rel_def repo_ok_def)
  show "pg_get_plan i db = get_plan i m"
    using r(1) by (simp add: pg_get_plan_def get_plan_def query_row_def map_error_def rel_plans_def split: option.split)
  show "pg_get_plan_by_goal gid db = get_plan_by_goal gid m"
  proof (cases "by_goal m gid")
    case (Some pid)
    then obtain p where "plans m pid = Some p" using r(2) unfolding by_goal_ok_def by blast
    with Some r(1) show ?thesis
      by (simp add: pg_get_plan_by_goal_def get_plan_by_goal_def query_row_def rel_plans_def)
  qed (use r(1) in \<open>simp add: pg_get_plan_by_goal_def get_plan_by_goal_def query_row_def map_error_def rel_plans_def\<close>)
qed

lemma version_query:
  assumes "rel_versions pc vm rows" "\<And>r. p r \<Longrightarrow> vw_plan_id r = pid"
    "\<And>r v. scan_version pc r = Inr v \<Longrightarrow> vw_plan_id r = pid \<Longrightarrow> p r = q v"
  shows "query_row p (scan_version pc) rows =
    (case List.find q (plan_rows (vm pid)) of None \<Rightarrow> Inl ENotFound | Some v \<Rightarrow> Inr v)"
proof -
  have "List.find p rows = List.find p (filter (\<lambda>r. vw_plan_id r = pid) rows)"
    using assms(2) by (induction rows) auto
  hence "query_row p (scan_version pc) rows = query_row p (scan_version pc) (filter (\<lambda>r. vw_plan_id r = pid) rows)"
    by (simp add: query_row_def)
  also have "\<dots> = (case List.find q (plan_rows (vm pid)) of None \<Rightarrow> Inl ENotFound | Some v \<Rightarrow> Inr v)"
    by (rule scans_find) (use assms(1,3) in \<open>auto simp: rel_versions_def\<close>)
  finally show ?thesis .
qed


lemma read_version:
  assumes rel: "pg_rel pc m db"
  shows "int4_ok n \<Longrightarrow> pg_get_plan_version pc pid n db = get_plan_version pid n m"
    "pg_get_current_plan_version pc pid db = get_current_plan_version pid m"
    "pg_list_plan_versions pc pid pg db =
       Inr (case list_plan_versions pid pg m of Inl _ \<Rightarrow> [] | Inr vs \<Rightarrow> vs)"
proof -
  from rel have r: "rel_versions pc (versions m) (pg_versions db)" "repo_ok m"
    "rel_plans (plans m) (by_goal m) (pg_plan db)" by (simp_all add: pg_rel_def)
  have find: "List.find (\<lambda>v. v_version v = k) (map snd vs) = map_of vs k" if "rows_ok pid p vs" for vs p k
  proof -
    have "list_all (\<lambda>(n, v). v_version v = n) vs" using that by (auto simp: rows_ok_def list_all_iff)
    thus ?thesis by (induction vs) auto
  qed
  have row: "plan_row_ok pid (plans m pid) (versions m pid)" by (rule repo_ok_row[OF r(2)])
  have found: "(case List.find (\<lambda>v. v_version v = k) (plan_rows (versions m pid)) of None \<Rightarrow> Inl ENotFound | Some v \<Rightarrow> Inr v) =
      get_plan_version pid k m" for k
    using row find by (auto simp: get_plan_version_def plan_rows_def plan_row_ok_def split: option.splits)
  show "pg_get_plan_version pc pid n db = get_plan_version pid n m" if "int4_ok n"
  proof -
    have "pg_get_plan_version pc pid n db =
        query_row (\<lambda>r. vw_plan_id r = pid \<and> vw_version r = n) (scan_version pc) (pg_versions db)"
      using that by (simp add: pg_get_plan_version_def)
    also have "\<dots> = (case List.find (\<lambda>v. v_version v = n) (plan_rows (versions m pid)) of
        None \<Rightarrow> Inl ENotFound | Some v \<Rightarrow> Inr v)"
      by (rule version_query[OF r(1)]) (auto dest: scan_version_fields)
    finally show ?thesis unfolding found .
  qed
  show "pg_get_current_plan_version pc pid db = get_current_plan_version pid m"
  proof (cases "plans m pid")
    case None
    hence "\<not> list_ex (\<lambda>p. p_id p = pid) (pg_plan db)" using rel_plans_ids[OF r(3), of pid] by simp
    hence "List.find (\<lambda>r. vw_plan_id r = pid \<and>
          list_ex (\<lambda>p. p_id p = vw_plan_id r \<and> p_current_version p = vw_version r) (pg_plan db)) (pg_versions db) = None"
      by (auto simp: find_None_iff list_ex_iff)
    with None show ?thesis
      by (simp add: pg_get_current_plan_version_def get_current_plan_version_def query_row_def map_error_def)
  next
    case (Some p)
    have "List.find (\<lambda>r. p_id r = pid) (pg_plan db) = Some p" using r(3) Some by (simp add: rel_plans_def)
    from find_SomeD[OF this] have p: "p \<in> set (pg_plan db)" "p_id p = pid" by simp_all
    have join: "list_ex (\<lambda>p. p_id p = pid \<and> p_current_version p = k) (pg_plan db) = (k = p_current_version p)" for k
    proof -
      have "inj_on p_id (set (pg_plan db))" using r(3) by (simp add: rel_plans_def distinct_map)
      hence one: "\<forall>q \<in> set (pg_plan db). p_id q = pid \<longrightarrow> q = p" using p inj_onD by metis
      show ?thesis
      proof
        assume "list_ex (\<lambda>p. p_id p = pid \<and> p_current_version p = k) (pg_plan db)"
        then obtain q where "q \<in> set (pg_plan db)" "p_id q = pid" "p_current_version q = k" unfolding list_ex_iff by blast
        with one show "k = p_current_version p" by blast
      next
        assume "k = p_current_version p"
        with p show "list_ex (\<lambda>p. p_id p = pid \<and> p_current_version p = k) (pg_plan db)"
          unfolding list_ex_iff by blast
      qed
    qed
    have "pg_get_current_plan_version pc pid db =
      (case List.find (\<lambda>v. v_version v = p_current_version p) (plan_rows (versions m pid)) of
         None \<Rightarrow> Inl ENotFound | Some v \<Rightarrow> Inr v)"
      unfolding pg_get_current_plan_version_def
    proof (rule version_query[OF r(1)])
      fix w v assume w: "scan_version pc w = Inr v" "vw_plan_id w = pid"
      have "v_version v = vw_version w" using scan_version_fields[OF w(1)] by simp
      thus "(vw_plan_id w = pid \<and> list_ex (\<lambda>p. p_id p = vw_plan_id w \<and> p_current_version p = vw_version w) (pg_plan db)) =
          (v_version v = p_current_version p)"
        unfolding w(2) join by simp
    qed simp
    also have "\<dots> = get_current_plan_version pid m"
      using found[of "p_current_version p"] Some row
      by (auto simp: get_plan_version_def get_current_plan_version_def plan_row_ok_def split: option.splits)
    finally show ?thesis .
  qed
  have "scans (scan_version pc) (sort_by (\<lambda>a b. vw_version a < vw_version b) (filter (\<lambda>r. vw_plan_id r = pid) (pg_versions db)))
      (sort_by (\<lambda>a b. v_version a < v_version b) (plan_rows (versions m pid)))"
    by (rule scans_sort) (use r(1) in \<open>auto simp: rel_versions_def dest!: scan_version_fields\<close>)
  from scan_rows_Inr[OF scans_page[OF this, of "page_normalize pg"]]
  show "pg_list_plan_versions pc pid pg db = Inr (case list_plan_versions pid pg m of Inl _ \<Rightarrow> [] | Inr vs \<Rightarrow> vs)"
    by (auto simp: pg_list_plan_versions_def list_plan_versions_def sql_page_paginate plan_rows_def
        case_prod_unfold paginate_normal split: option.splits)
qed

lemma read_events:
  assumes rel: "pg_rel pc m db"
  shows "pg_get_signal pc i db = get_signal i m"
    "sorted_wrt (\<lambda>a b. s_created_at a < s_created_at b) (signals m) \<Longrightarrow>
      pg_list_pending_signals pc limit db = Inr (list_pending_signals limit m)"
    "sorted_wrt (\<lambda>a b. s_created_at a < s_created_at b) (signals m) \<Longrightarrow>
      pg_list_signals pc gid pg db = Inr (map signal_head (list_signals gid pg m))"
    "sorted_wrt (\<lambda>a b. o_created_at a < o_created_at b) (outcomes m) \<Longrightarrow>
      pg_list_outcomes pc gid pg db = Inr (list_outcomes gid pg m)"
proof -
  from rel have r: "scans (scan_signal pc) (pg_signals db) (signals m)"
      "list_all (\<lambda>s. s_status s \<noteq> '''') (signals m)" "scans (scan_outcome pc) (pg_outcomes db) (outcomes m)"
    by (simp_all add: pg_rel_def rel_signals_def rel_outcomes_def)
  show "pg_get_signal pc i db = get_signal i m"
    unfolding pg_get_signal_def get_signal_def
    by (subst scans_find[where q = "\<lambda>s. s_id s = i", OF r(1)]) (auto dest: scan_signal_fields split: option.splits)
  have clones: "map clone_signal ss = ss" "map clone_outcome os = os" for ss os by (simp_all add: map_idI)
  have pend: "filter (\<lambda>s. s_status s = ''pending'') (signals m) = filter signal_pending (signals m)"
    using r(2) by (intro filter_cong) (auto simp: signal_pending_def list_all_iff)
  show "pg_list_pending_signals pc limit db = Inr (list_pending_signals limit m)"
    if s: "sorted_wrt (\<lambda>a b. s_created_at a < s_created_at b) (signals m)"
  proof -
    note sorted = sorted_wrt_filter[OF s]
    have "scans (scan_signal pc) (sort_by oldest_first (filter (\<lambda>r. gs_status r = ''pending'') (pg_signals db)))
        (sort_by (\<lambda>a b. if s_created_at a = s_created_at b then str_less (s_id a) (s_id b) else s_created_at a < s_created_at b)
          (filter (\<lambda>s. s_status s = ''pending'') (signals m)))"
      by (rule scans_sort[OF scans_filter[OF r(1)]]) (auto simp: oldest_first_def dest!: scan_signal_fields)
    hence "scans (scan_signal pc) (sort_by oldest_first (filter (\<lambda>r. gs_status r = ''pending'') (pg_signals db)))
        (filter signal_pending (signals m))"
      unfolding sort_oldest[where ident = s_id, OF sorted] pend .
    from scan_rows_Inr[OF scans_take[OF this, of "nat limit"]]
    show ?thesis by (simp add: pg_list_pending_signals_def list_pending_eq)
  qed
  show "pg_list_signals pc gid pg db = Inr (map signal_head (list_signals gid pg m))"
    if s: "sorted_wrt (\<lambda>a b. s_created_at a < s_created_at b) (signals m)"
  proof -
    note sorted = sorted_wrt_filter[OF s]
    have "scans (scan_signal pc) (sort_by (newest_first gs_created_at gs_id) (filter (\<lambda>r. gs_goal_id r = gid) (pg_signals db)))
        (sort_by (newest_first s_created_at s_id) (filter (\<lambda>s. s_goal_id s = gid) (signals m)))"
      by (rule scans_sort[OF scans_filter[OF r(1)]]) (auto simp: newest_first_def dest!: scan_signal_fields)
    hence "scans (scan_signal pc) (sort_by (newest_first gs_created_at gs_id) (filter (\<lambda>r. gs_goal_id r = gid) (pg_signals db)))
        (filter (\<lambda>s. s_goal_id s = gid) (rev (signals m)))"
      unfolding sort_newest[OF sorted] rev_filter .
    from scans_map[OF scans_page[OF this, of "page_normalize pg"], of "scan_signal_head pc" "\<lambda>r. r" signal_head]
    have "scans (scan_signal_head pc) (sql_page (page_normalize pg)
          (sort_by (newest_first gs_created_at gs_id) (filter (\<lambda>r. gs_goal_id r = gid) (pg_signals db))))
        (map signal_head (list_signals gid pg m))"
      by (simp add: scan_head list_signals_def sql_page_paginate clones)
    thus ?thesis unfolding pg_list_signals_def by (rule scan_rows_Inr)
  qed
  show "pg_list_outcomes pc gid pg db = Inr (list_outcomes gid pg m)"
    if s: "sorted_wrt (\<lambda>a b. o_created_at a < o_created_at b) (outcomes m)"
  proof -
    note sorted' = sorted_wrt_filter[OF s]
    have "scans (scan_outcome pc) (sort_by (newest_first ow_created_at ow_id) (filter (\<lambda>r. ow_goal_id r = gid) (pg_outcomes db)))
        (sort_by (newest_first o_created_at o_id) (filter (\<lambda>x. o_goal_id x = gid) (outcomes m)))"
      by (rule scans_sort[OF scans_filter[OF r(3)]]) (auto simp: newest_first_def dest!: scan_outcome_fields)
    hence "scans (scan_outcome pc) (sort_by (newest_first ow_created_at ow_id) (filter (\<lambda>r. ow_goal_id r = gid) (pg_outcomes db)))
        (filter (\<lambda>x. o_goal_id x = gid) (rev (outcomes m)))"
      unfolding sort_newest[OF sorted'] rev_filter .
    from scan_rows_Inr[OF scans_page[OF this, of "page_normalize pg"]]
    show ?thesis by (simp add: pg_list_outcomes_def list_outcomes_def sql_page_paginate clones)
  qed
qed

section \<open>Both repositories on the same writes\<close>

text \<open>The writes, the last as \<open>GeneratePlan\<close> makes them: a plan head with its first version, in one transaction.\<close>

datatype store_op =
    WritePlayer player
  | WriteGoal goal
  | WriteStatus string goal_status goal_status "resolution option" time
  | WriteVersion plan_version
  | WriteSignal signal
  | WriteMark string string int string string time
  | WriteOutcome outcome
  | WriteFirst plan plan_version

fun mem_apply :: "store_op \<Rightarrow> mem_repo \<Rightarrow> go_error option \<times> mem_repo" where
  "mem_apply (WritePlayer p) = create_player p"
| "mem_apply (WriteGoal g) = create_goal g"
| "mem_apply (WriteStatus i ex st res tm) = update_goal_status i ex st res tm"
| "mem_apply (WriteVersion v) = create_plan_version v"
| "mem_apply (WriteSignal s) = create_signal s"
| "mem_apply (WriteMark i st n rs em tm) = mark_signal_processed i st n rs em tm"
| "mem_apply (WriteOutcome x) = create_outcome x"
| "mem_apply (WriteFirst p v) =
     repo_tx (\<lambda>s. case create_plan p s of (Some e, s1) \<Rightarrow> (Some e, s1) | (None, s1) \<Rightarrow> create_plan_version v s1)"

fun pg_apply :: "pg_codec \<Rightarrow> store_op \<Rightarrow> pg_db \<Rightarrow> go_error option \<times> pg_db" where
  "pg_apply pc (WritePlayer p) = pg_create_player pc p"
| "pg_apply pc (WriteGoal g) = pg_create_goal pc g"
| "pg_apply pc (WriteStatus i ex st res tm) = pg_update_goal_status pc i ex st res tm"
| "pg_apply pc (WriteVersion v) = pg_create_plan_version pc False v"
| "pg_apply pc (WriteSignal s) = pg_create_signal pc s"
| "pg_apply pc (WriteMark i st n rs em tm) = pg_mark_signal_processed pc i st n rs em tm"
| "pg_apply pc (WriteOutcome x) = pg_create_outcome pc x"
| "pg_apply pc (WriteFirst p v) =
     pg_tx False (\<lambda>joined db. case pg_create_plan pc p db of (Some e, db1) \<Rightarrow> (Some e, db1)
                            | (None, db1) \<Rightarrow> pg_create_plan_version pc joined v db1)"

text \<open>What the database holds of a store, and the write of what it holds.\<close>

definition stored_repo :: "pg_codec \<Rightarrow> mem_repo \<Rightarrow> mem_repo" where
  "stored_repo pc m =
     \<lparr>players = (\<lambda>i. map_option (stored_player pc) (players m i)),
      goals = map (\<lambda>(k, g). (k, stored_goal pc g)) (goals m),
      plans = (\<lambda>i. map_option stored_plan (plans m i)), by_goal = by_goal m,
      versions = (\<lambda>i. map_option (map (\<lambda>(n, v). (n, stored_version pc v))) (versions m i)),
      signals = map (stored_signal pc) (signals m), outcomes = map (stored_outcome pc) (outcomes m)\<rparr>"

fun stored_op :: "pg_codec \<Rightarrow> store_op \<Rightarrow> store_op" where
  "stored_op pc (WritePlayer p) = WritePlayer (stored_player pc p)"
| "stored_op pc (WriteGoal g) = WriteGoal (stored_goal pc g)"
| "stored_op pc (WriteStatus i ex st res tm) = WriteStatus i ex st (stored_resolution pc res) (timestamptz tm)"
| "stored_op pc (WriteVersion v) = WriteVersion (stored_version pc v)"
| "stored_op pc (WriteSignal s) = WriteSignal (stored_signal pc s)"
| "stored_op pc (WriteMark i st n rs em tm) = WriteMark i st n rs em (timestamptz tm)"
| "stored_op pc (WriteOutcome x) = WriteOutcome (stored_outcome pc x)"
| "stored_op pc (WriteFirst p v) = WriteFirst (stored_plan p) (stored_version pc v)"

lemma stored_repo_fields [simp]:
  "players (stored_repo pc m) = (\<lambda>i. map_option (stored_player pc) (players m i))"
  "goals (stored_repo pc m) = map (\<lambda>(k, g). (k, stored_goal pc g)) (goals m)"
  "plans (stored_repo pc m) = (\<lambda>i. map_option stored_plan (plans m i))" "by_goal (stored_repo pc m) = by_goal m"
  "versions (stored_repo pc m) = (\<lambda>i. map_option (map (\<lambda>(n, v). (n, stored_version pc v))) (versions m i))"
  "signals (stored_repo pc m) = map (stored_signal pc) (signals m)"
  "outcomes (stored_repo pc m) = map (stored_outcome pc) (outcomes m)"
  by (simp_all add: stored_repo_def)

lemma stored_repo_empty: "stored_repo pc new_memory = new_memory"
  by (simp add: stored_repo_def new_memory_def)

lemma map_of_snd: "map_of (map (\<lambda>(k, x). (k, f x)) al) i = map_option f (map_of al i)"
  by (induction al) auto

lemma update_snd: "AList.update i (f x) (map (\<lambda>(k, x). (k, f x)) al) = map (\<lambda>(k, x). (k, f x)) (AList.update i x al)"
  by (induction al) auto

lemma find_idx_map: "find_idx p (map f xs) = find_idx (\<lambda>x. p (f x)) xs"
  by (induction xs) auto

subsection \<open>Storing commutes with every write\<close>

text \<open>A write of the stored values to the stored store fails alike and leaves the stored result.\<close>

definition natural :: "pg_codec \<Rightarrow> store_op \<Rightarrow> mem_repo \<Rightarrow> bool" where
  "natural pc x m \<longleftrightarrow> mem_apply (stored_op pc x) (stored_repo pc m) = map_prod id (stored_repo pc) (mem_apply x m)"

lemma natural_player: "natural pc (WritePlayer p) m"
  by (cases "players m (pl_id p)") (auto simp: natural_def create_player_def stored_repo_def)

lemma natural_goal: "natural pc (WriteGoal g) m"
  by (cases "map_of (goals m) (g_id g)")
     (simp_all add: natural_def create_goal_def map_of_snd stored_repo_def update_snd)

lemma natural_status: "natural pc (WriteStatus i ex st res tm) m"
proof (cases "map_of (goals m) i")
  case (Some g)
  have "stored_goal pc g\<lparr>g_status := st, g_resolution := stored_resolution pc res, g_updated_at := timestamptz tm\<rparr> =
      stored_goal pc (g\<lparr>g_status := st, g_resolution := res, g_updated_at := tm\<rparr>)"
    by (simp add: stored_goal_def)
  thus ?thesis using Some
    by (simp add: natural_def update_goal_status_def map_of_snd stored_repo_def update_snd)
qed (simp add: natural_def update_goal_status_def map_of_snd)

lemma stored_create_plan:
  "create_plan (stored_plan p) (stored_repo pc m) = map_prod id (stored_repo pc) (create_plan p m)"
  by (auto simp: create_plan_def Let_def stored_repo_def fun_eq_iff)

lemma stored_create_version:
  "create_plan_version (stored_version pc v) (stored_repo pc m) = map_prod id (stored_repo pc) (create_plan_version v m)"
proof (cases "plans m (v_plan_id v)")
  case (Some p)
  have head: "stored_plan p\<lparr>p_current_version := v_version v, p_updated_at := timestamptz (v_created_at v)\<rparr> =
      stored_plan (p\<lparr>p_current_version := v_version v, p_updated_at := v_created_at v\<rparr>)"
    by (simp add: stored_plan_def)
  show ?thesis
  proof (cases "versions m (v_plan_id v)")
    case None
    thus ?thesis using Some head update_snd[of "v_version v" "stored_version pc" v "[]"]
      by (auto simp: create_plan_version_def Let_def stored_repo_def fun_eq_iff)
  next
    case (Some vs)
    show ?thesis
      using \<open>plans m (v_plan_id v) = Some p\<close> Some head update_snd[of "v_version v" "stored_version pc" v vs]
      by (auto simp: create_plan_version_def Let_def stored_repo_def fun_eq_iff map_of_snd)
  qed
qed (simp add: create_plan_version_def)

lemma natural_mark: "natural pc (WriteMark i st n rs em tm) m"
proof (cases "find_idx (\<lambda>s. s_id s = i) (signals m)")
  case (Some k)
  hence k: "k < length (signals m)" using find_idx_SomeD by blast
  have "(stored_signal pc x)\<lparr>s_status := st, s_result_version := n, s_reason := rs, s_error := em,
        s_processed_at := Some (timestamptz tm)\<rparr> =
      stored_signal pc (x\<lparr>s_status := st, s_result_version := n, s_reason := rs, s_error := em, s_processed_at := Some tm\<rparr>)"
    for x by (cases x) (simp add: stored_signal_def)
  hence "(map (stored_signal pc) (signals m))[k := (stored_signal pc (signals m ! k))
        \<lparr>s_status := st, s_result_version := n, s_reason := rs, s_error := em, s_processed_at := Some (timestamptz tm)\<rparr>] =
      map (stored_signal pc) ((signals m)[k := (signals m ! k)
        \<lparr>s_status := st, s_result_version := n, s_reason := rs, s_error := em, s_processed_at := Some tm\<rparr>])"
    by (simp add: map_update)
  thus ?thesis using Some k
    by (simp add: natural_def mark_signal_processed_def find_idx_map stored_repo_def)
qed (simp add: natural_def mark_signal_processed_def find_idx_map)

lemma stored_tx:
  assumes "\<And>s. fn' (stored_repo pc s) = map_prod id (stored_repo pc) (fn s)"
  shows "repo_tx fn' (stored_repo pc m) = map_prod id (stored_repo pc) (repo_tx fn m)"
  using assms[of m]
  by (cases "fn m"; cases "fst (fn m)") (auto simp: repo_tx_def snapshot_adopt)

lemma stored_write: "natural pc x m"
proof (cases x)
  case (WriteFirst p v)
  have "(case create_plan (stored_plan p) (stored_repo pc s) of (Some e, s1) \<Rightarrow> (Some e, s1)
       | (None, s1) \<Rightarrow> create_plan_version (stored_version pc v) s1) =
      map_prod id (stored_repo pc) (case create_plan p s of (Some e, s1) \<Rightarrow> (Some e, s1)
       | (None, s1) \<Rightarrow> create_plan_version v s1)" for s
    unfolding stored_create_plan
    by (cases "create_plan p s"; cases "fst (create_plan p s)") (auto simp: stored_create_version)
  from stored_tx[where fn' = "\<lambda>s. case create_plan (stored_plan p) s of (Some e, s1) \<Rightarrow> (Some e, s1)
       | (None, s1) \<Rightarrow> create_plan_version (stored_version pc v) s1", OF this]
  show ?thesis by (simp add: natural_def WriteFirst)
next
  case (WriteVersion v)
  thus ?thesis by (simp add: natural_def stored_create_version)
next
  case (WriteSignal s)
  thus ?thesis by (simp add: natural_def create_signal_def stored_repo_def)
next
  case (WriteOutcome o')
  thus ?thesis by (simp add: natural_def create_outcome_def stored_repo_def)
qed (simp_all add: natural_player natural_goal natural_status natural_mark)

subsection \<open>The simulation\<close>

text \<open>
  What the schema asks of a write beyond the memory: JSON columns that encode, integers of 32 bits,
  references that exist, one plan per goal, and fresh identifiers of signals and outcomes. Times are
  free.
\<close>

definition version_posed :: "pg_codec \<Rightarrow> plan_version \<Rightarrow> bool" where
  "version_posed pc v \<longleftrightarrow>
     codec_ok pc (pc_moves pc) (v_ranked_moves v) \<and> codec_ok pc (pc_provenance pc) (v_provenance v) \<and>
     int4_ok (v_version v)"

fun posed :: "pg_codec \<Rightarrow> store_op \<Rightarrow> mem_repo \<Rightarrow> bool" where
  "posed pc (WritePlayer p) m \<longleftrightarrow> codec_ok pc (pc_metadata pc) (pl_metadata p)"
| "posed pc (WriteGoal g) m \<longleftrightarrow>
     codec_ok pc (pc_context pc) (g_context g) \<and> resolution_ok pc (g_resolution g) \<and>
     (g_player_id g = '''' \<or> players m (g_player_id g) \<noteq> None)"
| "posed pc (WriteStatus i ex st res tm) m \<longleftrightarrow> resolution_ok pc res"
| "posed pc (WriteVersion v) m \<longleftrightarrow> version_posed pc v"
| "posed pc (WriteSignal s) m \<longleftrightarrow>
     codec_ok pc (pc_payload pc) (s_payload s) \<and> map_of (goals m) (s_goal_id s) \<noteq> None \<and>
     s_id s \<notin> s_id ` set (signals m) \<and>
     s_status s = ''pending'' \<and> s_reason s = '''' \<and> s_result_version s = 0 \<and> s_error s = '''' \<and> s_processed_at s = None"
| "posed pc (WriteMark i st n rs em tm) m \<longleftrightarrow> int4_ok n \<and> st \<noteq> ''''"
| "posed pc (WriteOutcome x) m \<longleftrightarrow>
     codec_ok pc (pc_observed pc) (o_observed_signals x) \<and>
     map_of (goals m) (o_goal_id x) \<noteq> None \<and> o_id x \<notin> o_id ` set (outcomes m) \<and>
     int4_ok (o_plan_version x) \<and> int4_ok (o_move_rank x)"
| "posed pc (WriteFirst p v) m \<longleftrightarrow>
     p_current_version p = 0 \<and> map_of (goals m) (p_goal_id p) \<noteq> None \<and> by_goal m (p_goal_id p) = None \<and>
     version_posed pc v"

lemma posed_stored:
  "posed pc x m \<longleftrightarrow> posed pc x (stored_repo pc m)"
  by (cases x) (simp_all add: map_of_snd image_image)

fun run_ops :: "(store_op \<Rightarrow> 's \<Rightarrow> go_error option \<times> 's) \<Rightarrow> store_op list \<Rightarrow> 's \<Rightarrow> go_error option list \<times> 's" where
  "run_ops ap [] s = ([], s)"
| "run_ops ap (x # xs) s = (let (e, s1) = ap x s; (es, s2) = run_ops ap xs s1 in (e # es, s2))"

fun posed_run :: "pg_codec \<Rightarrow> store_op list \<Rightarrow> mem_repo \<Rightarrow> bool" where
  "posed_run pc [] m \<longleftrightarrow> True"
| "posed_run pc (x # xs) m \<longleftrightarrow> posed pc x m \<and> posed_run pc xs (snd (mem_apply x m))"

lemma run_ops_state: "snd (run_ops ap [] s) = s" "snd (run_ops ap (x # xs) s) = snd (run_ops ap xs (snd (ap x s)))"
  by (simp_all add: case_prod_beta Let_def)

lemma sim_tx:
  assumes "pg_rel pc m db" "fst (fn True db) = fst (fn' m)" "pg_rel pc (snd (fn' m)) (snd (fn True db))"
  shows "fst (pg_tx False fn db) = fst (repo_tx fn' m) \<and> pg_rel pc (snd (repo_tx fn' m)) (snd (pg_tx False fn db))"
  using assms
  by (cases "fn True db"; cases "fn' m"; cases "fst (fn' m)")
     (auto simp: pg_tx_def in_tx_def repo_tx_def snapshot_adopt)

lemma sim_write:
  assumes rel: "pg_rel pc m db" and wp: "posed pc x m"
  shows "fst (pg_apply pc x db) = fst (mem_apply (stored_op pc x) m) \<and>
    pg_rel pc (snd (mem_apply (stored_op pc x) m)) (snd (pg_apply pc x db))"
proof (cases x)
  case (WriteFirst p v)
  let ?fn = "\<lambda>joined db. case pg_create_plan pc p db of (Some e, db1) \<Rightarrow> (Some e, db1)
                            | (None, db1) \<Rightarrow> pg_create_plan_version pc joined v db1"
  let ?fm = "\<lambda>s. case create_plan (stored_plan p) s of (Some e, s1) \<Rightarrow> (Some e, s1)
                   | (None, s1) \<Rightarrow> create_plan_version (stored_version pc v) s1"
  have s1: "fst (pg_create_plan pc p db) = fst (create_plan (stored_plan p) m) \<and>
      pg_rel pc (snd (create_plan (stored_plan p) m)) (snd (pg_create_plan pc p db))"
    by (rule sim_create_plan[OF rel]) (use wp in \<open>auto simp: WriteFirst\<close>)
  have "fst (?fn True db) = fst (?fm m) \<and> pg_rel pc (snd (?fm m)) (snd (?fn True db))"
  proof (cases "fst (create_plan (stored_plan p) m)")
    case None
    have "fst (pg_create_plan_version pc True v (snd (pg_create_plan pc p db))) =
        fst (create_plan_version (stored_version pc v) (snd (create_plan (stored_plan p) m))) \<and>
      pg_rel pc (snd (create_plan_version (stored_version pc v) (snd (create_plan (stored_plan p) m))))
        (snd (pg_create_plan_version pc True v (snd (pg_create_plan pc p db))))"
      by (rule sim_create_version) (use s1 wp in \<open>auto simp: WriteFirst version_posed_def\<close>)
    with None s1 show ?thesis
      by (cases "create_plan (stored_plan p) m"; cases "pg_create_plan pc p db") simp
  next
    case (Some e)
    with s1 show ?thesis by (cases "create_plan (stored_plan p) m"; cases "pg_create_plan pc p db") simp
  qed
  with sim_tx[OF rel, of ?fn ?fm] show ?thesis by (simp add: WriteFirst)
next
  case (WritePlayer p)
  thus ?thesis using sim_create_player[OF rel, of p] wp by simp
next
  case (WriteGoal g)
  thus ?thesis using sim_create_goal[OF rel, of g] wp by simp
next
  case (WriteStatus i ex st res tm)
  thus ?thesis using sim_update_goal[OF rel, of res] wp by simp
next
  case (WriteVersion v)
  thus ?thesis using sim_create_version[OF rel, of v] wp by (simp add: version_posed_def)
next
  case (WriteSignal s)
  thus ?thesis using sim_create_signal[OF rel, of s] wp by simp
next
  case (WriteMark i st n rs em tm)
  thus ?thesis using sim_mark_signal[OF rel, of n st] wp by simp
next
  case (WriteOutcome o')
  thus ?thesis using sim_create_outcome[OF rel, of o'] wp by simp
qed

lemma sim_step:
  assumes "pg_rel pc (stored_repo pc m) db" "posed pc x m"
  shows "fst (pg_apply pc x db) = fst (mem_apply x m) \<and>
    pg_rel pc (stored_repo pc (snd (mem_apply x m))) (snd (pg_apply pc x db))"
  using sim_write[OF assms(1), of x] assms(2) stored_write[of pc x m, unfolded natural_def] posed_stored[of pc x m]
  by simp

lemma sim_run:
  "pg_rel pc (stored_repo pc m) db \<Longrightarrow> posed_run pc xs m \<Longrightarrow>
   fst (run_ops (pg_apply pc) xs db) = fst (run_ops mem_apply xs m) \<and>
   pg_rel pc (stored_repo pc (snd (run_ops mem_apply xs m))) (snd (run_ops (pg_apply pc) xs db))"
proof (induction xs arbitrary: m db)
  case (Cons x xs)
  from Cons.prems(2) have p: "posed pc x m" "posed_run pc xs (snd (mem_apply x m))" by simp_all
  note st = sim_step[OF Cons.prems(1) p(1)]
  note ih = Cons.IH[OF conjunct2[OF st] p(2)]
  show ?case using st ih by (simp add: case_prod_beta Let_def)
qed simp

section \<open>Where the two differ\<close>

text \<open>The memory lets a second plan take a goal over; the unique index refuses it.\<close>

lemma second_plan_differs:
  assumes "pg_rel pc m db" "by_goal m (p_goal_id p) \<noteq> None" "plans m (p_id p) = None" "int4_ok (p_current_version p)"
  shows "fst (create_plan p m) = None \<and> fst (pg_create_plan pc p db) = Some EConflict"
proof -
  from assms(1) have r: "rel_plans (plans m) (by_goal m) (pg_plan db)" "by_goal_ok (plans m) (by_goal m)"
    by (simp_all add: pg_rel_def repo_ok_def)
  obtain pid q where "by_goal m (p_goal_id p) = Some pid" "plans m pid = Some q"
    using assms(2) r(2) unfolding by_goal_ok_def by blast
  hence "List.find (\<lambda>r. p_goal_id r = p_goal_id p) (pg_plan db) = Some q" using r(1) by (simp add: rel_plans_def)
  from find_SomeD[OF this] have "list_ex (\<lambda>r. p_id r = p_id p \<or> p_goal_id r = p_goal_id p) (pg_plan db)"
    unfolding list_ex_iff by blast
  with assms(3,4) show ?thesis
    by (simp add: create_plan_def pg_create_plan_def insert_row_def commit_rows_def map_error_def Let_def)
qed

text \<open>A signal for a goal that does not exist is stored by the memory and refused by the foreign key.\<close>

lemma dangling_signal_differs:
  assumes "pg_rel pc m db" "map_of (goals m) (s_goal_id s) = None" "codec_ok pc (pc_payload pc) (s_payload s)"
    "s_id s \<notin> s_id ` set (signals m)"
  shows "fst (create_signal s m) = None \<and> fst (pg_create_signal pc s db) = Some ENotFound"
proof -
  from assms(1) have r: "rel_signals pc (signals m) (pg_signals db)" "rel_goals pc (goals m) (pg_goals db)"
    "goals_ok (goals m)" by (simp_all add: pg_rel_def repo_ok_def)
  obtain b where b: "marshal_json (pc_payload pc) (s_payload s) = Inr b" using codec_okD[OF assms(3)] by blast
  have "list_ex (\<lambda>r. gs_id r = s_id s) (pg_signals db) = list_ex (\<lambda>x. s_id x = s_id s) (signals m)"
    by (rule scans_ex[where f = "scan_signal pc"]) (use r(1) in \<open>auto simp: rel_signals_def dest: scan_signal_fields\<close>)
  moreover have "\<not> list_ex (\<lambda>x. s_id x = s_id s) (signals m)"
    using assms(4) unfolding list_ex_iff by (metis image_eqI)
  moreover have "\<not> list_ex (\<lambda>r. gw_id r = s_goal_id s) (pg_goals db)"
    using rel_goals_ex[OF r(2,3), of "s_goal_id s"] assms(2) by simp
  ultimately show ?thesis
    by (simp add: create_signal_def pg_create_signal_def b insert_row_def commit_rows_def map_error_def)
qed

text \<open>A timestamp read back is the written one cut to microseconds; a version beyond 32 bits is the driver's error.\<close>

lemma timestamps_are_cut: "timestamptz t \<le> t" "t - timestamptz t < 1000" "timestamptz t mod 1000 = 0"
  by (simp_all add: timestamptz_def minus_mod_eq_div_mult)

lemma wide_version_differs: "\<not> int4_ok n \<Longrightarrow> pg_get_plan_version pc pid n db = Inl (pc_int4 pc n)"
  by (simp add: pg_get_plan_version_def map_error_def)

section \<open>Properties\<close>

text \<open>The values of a list were created in distinct microseconds, in their order.\<close>

definition spaced :: "('x \<Rightarrow> time) \<Rightarrow> 'x list \<Rightarrow> bool" where
  "spaced created xs \<longleftrightarrow> sorted_wrt (\<lambda>a b. timestamptz (created a) < timestamptz (created b)) xs"

lemma spaced_stored:
  "spaced s_created_at ss \<Longrightarrow> sorted_wrt (\<lambda>a b. s_created_at a < s_created_at b) (map (stored_signal pc) ss)"
  "spaced o_created_at os \<Longrightarrow> sorted_wrt (\<lambda>a b. o_created_at a < o_created_at b) (map (stored_outcome pc) os)"
  by (simp_all add: spaced_def sorted_wrt_map)


text \<open>A codec that knows one value of each column.\<close>

definition one_value :: "'a \<Rightarrow> 'a json_codec" where
  "one_value x = \<lparr>jc_marshal = (\<lambda>_. Inr ''{}''), jc_unmarshal = (\<lambda>_. Inr x)\<rparr>"

definition sample_codec :: pg_codec where
  "sample_codec =
     \<lparr>pc_metadata = one_value [], pc_context = one_value zero_context,
      pc_resolution = one_value \<lparr>re_result = '''', re_notes = '''', re_resolved_at = 0\<rparr>, pc_moves = one_value [],
      pc_provenance = one_value zero_provenance, pc_payload = one_value [], pc_observed = one_value [],
      pc_jsonb = id, pc_int4 = (\<lambda>_. EText ''int4'')\<rparr>"

definition sample_ops :: "store_op list" where
  "sample_ops =
     [WriteGoal (zero_goal\<lparr>g_id := ''g'', g_status := GoalActive\<rparr>),
      WriteFirst \<lparr>p_id = ''p'', p_goal_id = ''g'', p_current_version = 0, p_created_at = 0, p_updated_at = 0\<rparr>
        (zero_version\<lparr>v_plan_id := ''p'', v_version := 1\<rparr>),
      WriteSignal (zero_signal\<lparr>s_id := ''s'', s_goal_id := ''g'', s_kind := ''noise'', s_status := ''pending'', s_created_at := 1234567\<rparr>),
      WriteVersion (zero_version\<lparr>v_plan_id := ''p'', v_version := 2\<rparr>),
      WriteMark ''s'' ''applied'' 2 ''material'' '''' 2345678]"


end
