(* ===== verification/Migrate.thy ===== *)
theory Migrate
  imports Storage
begin

text \<open>
  Schema migrations (\<open>internal/storage/migrate.go\<close>). The database is its schema, of any type, and the
  names recorded in \<open>schema_migrations\<close>; running a script is an argument, and a script that fails
  leaves its transaction rolled back.
\<close>

record 'd migrations =
  mg_schema :: 'd
  mg_applied :: "string list"

text \<open>What one script does to the schema, and the embedded files: name and text, or a directory.\<close>

type_synonym 'd script_runner = "string \<Rightarrow> 'd \<Rightarrow> go_error + 'd"

datatype dir_entry = Script string string | Subdir string

definition migration_names :: "dir_entry list \<Rightarrow> string list" where
  "migration_names entries =
     sort_by str_less (List.map_filter (\<lambda>e. case e of Script n b \<Rightarrow> Some n | Subdir _ \<Rightarrow> None) entries)"

definition read_script :: "dir_entry list \<Rightarrow> string \<Rightarrow> string option" where
  "read_script entries name =
     map_of (List.map_filter (\<lambda>e. case e of Script n b \<Rightarrow> Some (n, b) | Subdir _ \<Rightarrow> None) entries) name"

text \<open>The script and its record commit together; recording a name twice breaks the primary key.\<close>

definition apply_migration ::
  "'d script_runner \<Rightarrow> go_error \<Rightarrow> string \<Rightarrow> string \<Rightarrow> 'd migrations \<Rightarrow> go_error option \<times> 'd migrations" where
  "apply_migration exec dup name body st =
     (case exec body (mg_schema st) of
        Inl err \<Rightarrow> (Some (EWrap (''storage: apply migration '' @ name) err), st)
      | Inr d \<Rightarrow>
          if name \<in> set (mg_applied st) then (Some (EWrap (''storage: record migration '' @ name) dup), st)
          else (None, \<lparr>mg_schema = d, mg_applied = mg_applied st @ [name]\<rparr>))"

text \<open>\<open>applied\<close> was listed before the loop; a script that is not there is an error of the read.\<close>

fun migrate_loop ::
  "'d script_runner \<Rightarrow> go_error \<Rightarrow> go_error \<Rightarrow> dir_entry list \<Rightarrow> string list \<Rightarrow> string list \<Rightarrow> 'd migrations \<Rightarrow>
   go_error option \<times> 'd migrations" where
  "migrate_loop exec dup missing entries applied [] st = (None, st)"
| "migrate_loop exec dup missing entries applied (name # names) st =
     (if name \<in> set applied then migrate_loop exec dup missing entries applied names st
      else case read_script entries name of
        None \<Rightarrow> (Some (EWrap (''storage: read migration '' @ name) missing), st)
      | Some body \<Rightarrow>
          (case apply_migration exec dup name body st of
             (Some err, st1) \<Rightarrow> (Some err, st1)
           | (None, st1) \<Rightarrow> migrate_loop exec dup missing entries applied names st1))"

definition run_migrations ::
  "'d script_runner \<Rightarrow> go_error \<Rightarrow> go_error \<Rightarrow> dir_entry list \<Rightarrow> 'd migrations \<Rightarrow> go_error option \<times> 'd migrations" where
  "run_migrations exec dup missing entries st =
     migrate_loop exec dup missing entries (mg_applied st) (migration_names entries) st"

section \<open>Every script once, in order\<close>

text \<open>The reference: fold the scripts that are still to run, stopping at the first failure.\<close>

fun run_scripts :: "'d script_runner \<Rightarrow> (string \<times> string) list \<Rightarrow> 'd migrations \<Rightarrow> bool \<times> 'd migrations" where
  "run_scripts exec [] st = (True, st)"
| "run_scripts exec ((n, b) # ss) st =
     (case exec b (mg_schema st) of
        Inl _ \<Rightarrow> (False, st)
      | Inr d \<Rightarrow> run_scripts exec ss \<lparr>mg_schema = d, mg_applied = mg_applied st @ [n]\<rparr>)"

definition file_names :: "dir_entry list \<Rightarrow> string list" where
  "file_names entries = List.map_filter (\<lambda>e. case e of Script n b \<Rightarrow> Some n | Subdir _ \<Rightarrow> None) entries"

lemma file_names_fst:
  "file_names entries = map fst (List.map_filter (\<lambda>e. case e of Script n b \<Rightarrow> Some (n, b) | Subdir _ \<Rightarrow> None) entries)"
  unfolding file_names_def by (induction entries) (auto simp: map_filter_simps split: dir_entry.split)

lemma read_script_Some: "n \<in> set (file_names entries) \<Longrightarrow> \<exists>b. read_script entries n = Some b"
proof -
  assume "n \<in> set (file_names entries)"
  hence "n \<in> fst ` set (List.map_filter (\<lambda>e. case e of Script n b \<Rightarrow> Some (n, b) | Subdir _ \<Rightarrow> None) entries)"
    by (simp add: file_names_fst)
  hence "read_script entries n \<noteq> None" by (simp add: read_script_def map_of_eq_None_iff)
  thus ?thesis by auto
qed

lemma migrate_loop_scripts:
  assumes "distinct names" "set names \<subseteq> set (file_names entries)"
    "\<forall>n \<in> set names. n \<in> set applied \<or> n \<notin> set (mg_applied st)"
  shows "let r = migrate_loop exec dup missing entries applied names st;
             q = run_scripts exec (map (\<lambda>n. (n, the (read_script entries n))) (filter (\<lambda>n. n \<notin> set applied) names)) st
         in snd r = snd q \<and> (fst r = None \<longleftrightarrow> fst q)"
  using assms
proof (induction names arbitrary: st)
  case (Cons n names)
  show ?case
  proof (cases "n \<in> set applied")
    case True
    with Cons show ?thesis by simp
  next
    case False
    obtain b where b: "read_script entries n = Some b" using read_script_Some[of n entries] Cons.prems(2) by auto
    show ?thesis
    proof (cases "exec b (mg_schema st)")
      case (Inl err)
      with False b show ?thesis by (simp add: apply_migration_def)
    next
      case (Inr d)
      let ?st = "\<lparr>mg_schema = d, mg_applied = mg_applied st @ [n]\<rparr>"
      have "\<forall>k \<in> set names. k \<in> set applied \<or> k \<notin> set (mg_applied ?st)" using Cons.prems(1,3) by auto
      moreover have "n \<notin> set (mg_applied st)" using Cons.prems(3) False by auto
      ultimately show ?thesis
        using Cons.IH[of ?st] Cons.prems False b Inr by (simp add: apply_migration_def)
    qed
  qed
qed simp

lemma run_scripts_applied:
  "fst (run_scripts exec ss st) \<Longrightarrow> mg_applied (snd (run_scripts exec ss st)) = mg_applied st @ map fst ss"
  by (induction exec ss st rule: run_scripts.induct) (auto split: sum.splits)

lemma names_files: "set (migration_names entries) = set (file_names entries)" "sorted_wrt (\<lambda>a b. \<not> str_less b a) (migration_names entries)"
  "distinct (file_names entries) \<Longrightarrow> distinct (migration_names entries)"
proof -
  have m: "migration_names entries = sort_by str_less (file_names entries)" by (simp add: migration_names_def file_names_def)
  show "set (migration_names entries) = set (file_names entries)" by (simp add: m)
  show "sorted_wrt (\<lambda>a b. \<not> str_less b a) (migration_names entries)"
    unfolding m by (rule sorted_sort_by) (use str_less_total str_less_trans str_less_asym in metis)+
  show "distinct (file_names entries) \<Longrightarrow> distinct (migration_names entries)"
    unfolding m by (metis mset_eq_imp_distinct_iff mset_sort_by)
qed

text \<open>
  Starting the service runs every script that is not recorded, once, in the order of the names, and
  records it; a failure keeps what was committed before it; and starting it again changes nothing.
\<close>

theorem migrations_run_once:
  assumes "distinct (file_names entries)" "run_migrations exec dup missing entries st = (e, st')"
  shows "let todo = filter (\<lambda>n. n \<notin> set (mg_applied st)) (migration_names entries);
             q = run_scripts exec (map (\<lambda>n. (n, the (read_script entries n))) todo) st
         in st' = snd q \<and> (e = None \<longleftrightarrow> fst q) \<and>
            (e = None \<longrightarrow> mg_applied st' = mg_applied st @ todo \<and> set (file_names entries) \<subseteq> set (mg_applied st') \<and>
               run_migrations exec dup missing entries st' = (None, st'))"
proof -
  let ?todo = "filter (\<lambda>n. n \<notin> set (mg_applied st)) (migration_names entries)"
  let ?q = "run_scripts exec (map (\<lambda>n. (n, the (read_script entries n))) ?todo) st"
  have q: "st' = snd ?q" "e = None \<longleftrightarrow> fst ?q"
    using migrate_loop_scripts[of "migration_names entries" entries "mg_applied st" st exec dup missing] assms(2)
      names_files[of entries] assms(1)
    by (simp_all add: run_migrations_def Let_def)
  have again: "mg_applied st' = mg_applied st @ ?todo \<and> set (file_names entries) \<subseteq> set (mg_applied st') \<and>
      run_migrations exec dup missing entries st' = (None, st')" if "e = None"
  proof -
    have a: "mg_applied st' = mg_applied st @ ?todo"
      using run_scripts_applied[of exec "map (\<lambda>n. (n, the (read_script entries n))) ?todo" st] q that
      by (simp add: comp_def)
    hence s: "set (file_names entries) \<subseteq> set (mg_applied st')" using names_files(1)[of entries] by auto
    have "migrate_loop exec dup missing entries (mg_applied st') ns st' = (None, st')" if "set ns \<subseteq> set (mg_applied st')" for ns
      using that by (induction ns) auto
    with s names_files(1)[of entries] show ?thesis by (simp add: a[symmetric] run_migrations_def)
  qed
  show ?thesis
    unfolding Let_def by (intro conjI impI q) (use again in blast)+
qed

end
