(* ===== verification/Spec2Isabelle.thy ===== *)
theory Spec2Isabelle
  imports Cycle_Check Storage Llm_Plan Engine Pack Service Service_Laws Replan_Queue Llm_Cache
    Llm_Multi Constraint_Text Strategy Market_Data Market_Limiter Finance_Scoring
    Risk_Budget Finance_Series Outcome_Fit
    Go_Time Market_Signal Finance_Planner Selector
    Sources Pack_Builtin Policy Wire
    Float_Bounds
    Llm_Mock
    Backtest
    Market_Cache
    Webhook
    Learning
    Llm_Byok
    Api
    Go_Text
    Market_Vendors
    Config
    Assembly
    Llm_Clients
    Postgres
    Postgres_Sim
    Migrate
begin

text \<open>
  The Dynamic Decision Engine is a Go service that turns a goal into a versioned plan of ranked
  moves and revises the plan as signals arrive. This development models the program under
  \<open>internal/\<close> and \<open>cmd/dde\<close>, definition by definition, and proves what makes it correct.

  How the parts interact. A transport (REST or MCP) calls a use case of the application service.
  The service reads and writes a repository, and asks the engine for a plan. The engine asks the
  planner which the goal's domain is wired to, sanitises the answer's dependency graph, and on a
  replan decides whether the change is material. A signal is replanned in place or handed to a queue
  whose workers call the service again. A planner is a model client, the numeric finance planner over
  market data and strategies, the mock, or a composite of these; packs, a policy file and outcome fits
  parameterise it, and external sources enrich its prompt. Accepted versions are announced by
  webhooks.

  \<^bold>\<open>Foundations.\<close>
  \<^item> \<open>Prelude\<close>: the collections of facts, generic lemmas and the contract of an append-only store.
  \<^item> \<open>Go_Float\<close>, \<open>Float_Bounds\<close>: \<open>float64\<close> as exact rationals rounded to nearest even, with the two
    infinities and NaN; error bounds for chains of operations.
  \<^item> \<open>Go_Base\<close>, \<open>Go_Time\<close>, \<open>Go_Text\<close>: times, durations and their wrap-around, error trees and
    \<open>errors.Is\<close>, JSON values, string functions, the UTC calendar, reading numbers and dates.

  \<^bold>\<open>Domain and storage.\<close>
  \<^item> \<open>Domain\<close>: the structs and enumerations of \<open>internal/domain\<close>, the goal life cycle.
  \<^item> \<open>Move_Graph\<close>, \<open>Cycle_Check\<close>: \<open>domain/move_graph.go\<close>. Sanitising always gives a well-formed
    graph without cycles; the reported issues are empty exactly for well-formed graphs.
  \<^item> \<open>Storage\<close>: the in-memory repository (\<open>storage/memory.go\<close>, \<open>clone.go\<close>, \<open>repository.go\<close>), its
    transaction, and its invariants along every run of writes: versions are append-only, heads and
    indices agree.
  \<^item> \<open>Postgres\<close>, \<open>Postgres_Sim\<close>, \<open>Migrate\<close>: \<open>storage/postgres.go\<close> over the tables and constraints of
    the migrations, refined write by write to the in-memory repository on what the schema keeps of
    it (\<open>stored_repo\<close>: times to the microsecond, JSON columns as read back); \<open>storage/migrate.go\<close>.

  \<^bold>\<open>Planning.\<close>
  \<^item> \<open>Llm_Plan\<close>, \<open>Llm_Clients\<close>, \<open>Llm_Mock\<close>, \<open>Llm_Byok\<close>: \<open>internal/llm\<close>: requests, the mapping of answers,
    verdicts; the Anthropic and OpenAI clients with their prompts; the mock; keys brought by the caller.
  \<^item> \<open>Llm_Multi\<close>, \<open>Selector\<close>, \<open>Llm_Cache\<close>: composite planners, the strategy competition, the plan cache
    (pointers and all) refined to an LRU list and proved transparent.
  \<^item> \<open>Engine\<close>: \<open>internal/engine\<close>: initial plans, replans and materiality.
  \<^item> \<open>Pack\<close>, \<open>Pack_Builtin\<close>, \<open>Policy\<close>: \<open>internal/pack\<close> and \<open>internal/policy\<close>.
  \<^item> \<open>Constraint_Text\<close>, \<open>Strategy\<close>: \<open>internal/strategy\<close>: utilities, hard filter, selection.
  \<^item> \<open>Finance_Scoring\<close>, \<open>Risk_Budget\<close>, \<open>Finance_Series\<close>, \<open>Outcome_Fit\<close>, \<open>Market_Signal\<close>:
    \<open>internal/finance\<close>: scores, Kelly sizing within the caps, budgets that only tighten, horizons and
    regimes, calibration curves, typed signals. \<open>Finance_Planner\<close>: \<open>llm/finance_planner.go\<close>.

  \<^bold>\<open>Service and its surroundings.\<close>
  \<^item> \<open>Service\<close>, \<open>Service_Laws\<close>, \<open>Learning\<close>: the use cases of \<open>internal/app\<close>. Before every store access
    the other goroutines may take any number of repository steps; the laws hold for all of them, and
    say what a use case does to the store as it stands at its own write (\<open>store_at\<close>).
  \<^item> \<open>Replan_Queue\<close>: \<open>app/replan_queue.go\<close> as interleaved critical sections and channel operations.
  \<^item> \<open>Webhook\<close>: \<open>internal/webhook\<close>: bounded buffer, workers, retries, shutdown.
  \<^item> \<open>Market_Data\<close>, \<open>Market_Limiter\<close>, \<open>Market_Cache\<close>, \<open>Market_Vendors\<close>: \<open>internal/marketdata\<close>: the
    point-in-time contract and its providers, the rate limiter, the single-flight cache, the vendors.
  \<^item> \<open>Sources\<close>: \<open>internal/source\<close>: adapters, last-good cache, enricher.
  \<^item> \<open>Backtest\<close>: \<open>internal/backtest\<close>: replay, metrics, matrices, walk-forward evaluation.
  \<^item> \<open>Api\<close>: the handlers of \<open>internal/api\<close> and the tools of \<open>internal/mcp\<close>, shown to agree.
  \<^item> \<open>Config\<close>, \<open>Wire\<close>, \<open>Assembly\<close>: \<open>internal/config\<close>, \<open>internal/wire\<close> and the assembly in \<open>cmd/dde\<close>:
    which settings load, and that what loads can be built.

  \<^bold>\<open>How Go is modelled.\<close> A struct is a record with the source's fields, a string enumeration a string
  with its validity predicate, an interface the record or function of what the caller uses of it.
  Errors are values of \<open>go_error\<close> (sentinels, wrapping, joining) and a fallible function returns a
  sum with the error on the left. \<open>int\<close> and \<open>time.Duration\<close> are integers; where overflow can be
  reached (backoffs, the sizes read from the environment) the wrap-around is written out. An instant is
  an integer of nanoseconds. Locks make critical sections atomic steps; everything between two of them
  may interleave. Pointers are explicit where aliasing matters (\<open>Llm_Cache\<close>).

  \<^bold>\<open>Interfaces.\<close> \<open>append_only\<close> (stores whose facts persist), \<open>plan_cache\<close>, \<open>point_in_time\<close>,
  \<open>job_queue\<close> and \<open>use_case\<close> are locales, interpreted on the repository, the LRU cache, the offline and
  vendor providers, the replan queue and each use case of the service.

  \<^bold>\<open>Recursion and bounds.\<close> The two graph searches recurse through a list of edges and carry fuel equal
  to the number of moves: each nested call marks a node not marked before, and both are proved never to
  run out. The learning scans are partial functions, proved to return on a store that no other
  goroutine writes to meanwhile. The retry and delivery loops count attempts; isotonic pooling and the integer square root
  terminate by a measure. Reads of the market cache and the webhook shutdown have explicit step bounds.
  The replan backoff doubles to its cap for attempts 1 to 38; from 39 on the shift overflows, and what
  it gives there is stated. Statements about float results
  carry their rounding.

  \<^bold>\<open>Arguments of the model.\<close> What is not in the repository is an argument: Unicode case mapping and
  trimming, \<open>encoding/json\<close>'s text, YAML, SHA-256 and HMAC, \<open>net/url\<close>, duration parsing, the vendor
  SDKs, HTTP replies, the files' contents, the SQL server's answers to statements the source does not
  determine. Hypotheses on them are stated where they are used: keys of the memos do not collide,
  clocks read under one lock do not go back, file decoders return what they are given.

  \<^bold>\<open>Idealisations.\<close> Float operations are not fused and there is one zero; sorting by a comparison that
  NaN makes inconsistent is by the library's stable sort. An out-of-range conversion to \<open>int\<close> is
  that of amd64. Strings are valid UTF-8 and, for PostgreSQL, without NUL; dates are UTC. A planner
  is a function of its request within one decision, as no composite asks a member twice. The vendor
  memo is used by one call at a time. Logging has no effect.

  \<^bold>\<open>Not modelled.\<close> Opening and pinging the database pool, the chi router with its middlewares, the
  Prometheus collectors and the HTTP server, registering tools with the MCP library, the flags and
  printed output of the commands, the demo, the log handler: all are calls into libraries with no
  decision of their own. The web client is not Go. A deadline is an answer of the call it cancels.
\<close>

end
